(* ===== verification/Yagips_Prelude.thy ===== *)
theory Yagips_Prelude
  imports Main "HOL-Library.Word"
begin

unbundle bit_operations_syntax

text \<open>
  Shared ground of the development: the C integer types at their widths, the cell type of byte
  buffers, C's division, and the generic facts on words, byte lists and fixed-width byte codecs
  that the component theories use.

  \<^item> \<open>u8\<close>, \<open>u16\<close>, \<open>u32\<close>, \<open>u64\<close> are C's unsigned types; \<open>i32\<close> is a C \<open>int32_t\<close>, held as the
    same bit pattern and read by \<^term>\<open>sint\<close> where the code reads it signed.
  \<^item> A pointer that walks over a buffer while reading is the list of the bytes still ahead of it;
    a read past the end is \<^term>\<open>None\<close>, so that "no read is out of bounds" can be stated and proved.
  \<^item> A pointer that walks over a buffer while writing is the list of the bytes written so far.
\<close>

type_synonym u8 = "8 word"
type_synonym u16 = "16 word"
type_synonym u32 = "32 word"
type_synonym u64 = "64 word"
type_synonym i32 = "32 word"
type_synonym bytes = "u8 list"

named_theorems codec_simps \<open>length and round-trip equations of the byte codecs\<close>
named_theorems kcp_frame \<open>fields an operation of the KCP control block leaves alone\<close>

text \<open>A word is read as a natural number throughout; the library would turn \<open>int (unat w)\<close> into \<open>uint w\<close>.\<close>

declare of_nat_unat [simp del]

section \<open>Integer division as C has it\<close>

definition c_div :: "int \<Rightarrow> int \<Rightarrow> int" where
  "c_div a b = sgn a * sgn b * (\<bar>a\<bar> div \<bar>b\<bar>)"

lemma c_div_pos: "0 \<le> a \<Longrightarrow> 0 < b \<Longrightarrow> c_div a b = a div b"
  by (cases "a = 0") (simp_all add: c_div_def)

section \<open>Reading a 32-bit word as a signed number\<close>

lemma unat_lt_u32: "unat (w :: u32) < 2 ^ 32"
  using unsigned_less [of w, where ?'a = nat] by simp

lemma signed_window:
  fixes n :: nat
  assumes "n < 2 ^ 32"
  shows "(int n + 2 ^ 31) mod 2 ^ 32 - 2 ^ 31 = (if n < 2 ^ 31 then int n else int n - 2 ^ 32)"
proof (cases "n < 2 ^ 31")
  case True
  then show ?thesis by (simp add: mod_pos_pos_trivial)
next
  case False
  have "(int n + 2 ^ 31) mod 2 ^ 32 = (int n - 2 ^ 31 + 2 ^ 32) mod 2 ^ 32"
    by (simp add: add.commute)
  also have "\<dots> = (int n - 2 ^ 31) mod 2 ^ 32"
    by (rule mod_add_self2)
  also have "\<dots> = int n - 2 ^ 31"
    using False assms by (intro mod_pos_pos_trivial) auto
  finally show ?thesis using False by simp
qed

lemma sint_conv_unat:
  fixes w :: u32
  shows "sint w = (if unat w < 2 ^ 31 then int (unat w) else int (unat w) - 2 ^ 32)"
proof -
  have "sint w = (int (unat w) + 2 ^ 31) mod 2 ^ 32 - 2 ^ 31"
    using signed_take_bit_eq_take_bit_shift [of 31 "uint w"]
    by (simp add: sint_uint take_bit_eq_mod of_nat_unat)
  then show ?thesis
    by (simp only: signed_window [OF unat_lt_u32])
qed

lemma sint_nonneg_iff: "0 \<le> sint (w :: u32) \<longleftrightarrow> unat w < 2 ^ 31"
  using unat_lt_u32 [of w] unfolding sint_conv_unat by (simp del: of_nat_unat)

lemma sint_small: "unat (w :: u32) < 2 ^ 31 \<Longrightarrow> sint w = int (unat w)"
  by (simp add: sint_conv_unat)

lemma unat_add_small:
  fixes a b :: u32
  assumes "unat a + unat b < 2 ^ 32"
  shows "unat (a + b) = unat a + unat b"
  using assms by (simp add: unat_word_ariths)

lemma unat_diff_small:
  fixes a b :: u32
  assumes "unat b \<le> unat a"
  shows "unat (a - b) = unat a - unat b"
  using assms by (simp add: unat_sub word_le_nat_alt)

lemma unat_of_nat_u32: "n < 2 ^ 32 \<Longrightarrow> unat (of_nat n :: u32) = n"
  by (simp add: unsigned_of_nat take_bit_nat_eq_self)

lemma unat_of_int_u32: "0 \<le> i \<Longrightarrow> i < 2 ^ 32 \<Longrightarrow> unat (word_of_int i :: u32) = nat i"
  by (simp add: unsigned_of_int take_bit_int_eq_self)

lemma div_ceil_bounds:
  fixes l m :: nat
  assumes "0 < m"
  shows "l \<le> (l + m - 1) div m * m" "0 < l \<Longrightarrow> 0 < (l + m - 1) div m"
proof -
  have "l + m - 1 = (l + m - 1) div m * m + (l + m - 1) mod m" by simp
  moreover have "(l + m - 1) mod m < m" using assms by simp
  ultimately show "l \<le> (l + m - 1) div m * m" by linarith
  assume "0 < l"
  then have "m \<le> l + m - 1" by linarith
  then show "0 < (l + m - 1) div m" using assms by (simp add: div_greater_zero_iff)
qed

section \<open>Bytes of a word\<close>

lemma ucast_ucast_u8: "(ucast (ucast (l :: 'a::len word) :: u8) :: 'a word) = take_bit 8 l"
  by (simp add: bit_eq_iff bit_simps)

lemma byte_plus_push:
  fixes b :: u8 and x :: "'a::len word"
  assumes "8 \<le> LENGTH('a)"
  shows "ucast b + push_bit 8 x = (ucast b OR push_bit 8 x :: 'a word)"
  by (rule disjunctive_add_eq_or) (auto simp: bit_eq_iff bit_simps dest: bit_imp_le_length)

lemma ucast_byte_plus_push:
  fixes b :: u8 and x :: "'a::len word"
  assumes "8 \<le> LENGTH('a)"
  shows "ucast (ucast b + push_bit 8 x :: 'a word) = b"
  using assms unfolding byte_plus_push [OF assms]
  by (auto simp add: bit_eq_iff bit_simps dest: bit_imp_le_length)

lemma drop_bit_byte_plus_push:
  fixes b :: u8 and x :: "'a::len word"
  assumes "8 \<le> LENGTH('a)"
  shows "drop_bit 8 (ucast b + push_bit 8 x :: 'a word) = take_bit (LENGTH('a) - 8) x"
  using assms unfolding byte_plus_push [OF assms]
  by (auto simp add: bit_eq_iff bit_simps dest: bit_imp_le_length)

section \<open>Fixed-width byte codecs\<close>

text \<open>
  The contract of an encoder that appends \<open>n\<close> bytes to what has been written and of a decoder that
  takes \<open>n\<close> bytes off what lies ahead. The wire fields of KCP and its whole segment header are
  instances (theory \<open>Kcp_Wire\<close>).
\<close>

locale fixed_codec =
  fixes enc :: "bytes \<Rightarrow> 'a \<Rightarrow> bytes"
    and dec :: "bytes \<Rightarrow> ('a \<times> bytes) option"
    and n :: nat
    and img :: "'a \<Rightarrow> bytes"
  assumes enc_img: "enc p x = p @ img x"
    and length_img: "length (img x) = n"
    and dec_img: "dec (img x @ r) = Some (x, r)"
    and dec_None: "dec bs = None \<longleftrightarrow> length bs < n"
    and img_dec: "dec bs = Some (x, r) \<Longrightarrow> img x @ r = bs"
begin

lemma length_enc: "length (enc p x) = length p + n"
  by (simp add: enc_img length_img)

lemma dec_Some_iff: "dec bs = Some (x, r) \<longleftrightarrow> bs = img x @ r"
  using dec_img img_dec by metis

lemma dec_rest_length: "dec bs = Some (x, r) \<Longrightarrow> length bs = n + length r"
  by (auto simp: dec_Some_iff length_img)

lemma dec_total: "n \<le> length bs \<Longrightarrow> \<exists>x r. dec bs = Some (x, r) \<and> length bs = n + length r"
  using dec_None [of bs] dec_rest_length by (cases "dec bs") auto

lemma img_inj: "img x = img y \<Longrightarrow> x = y"
  using dec_img [of x "[]"] dec_img [of y "[]"] by simp

lemma enc_inj: "enc p x = enc p y \<Longrightarrow> x = y"
  by (simp add: enc_img img_inj)

end

text \<open>Counting up below a bound does not wrap.\<close>

lemma word_suc:
  assumes "(i :: u32) < m"
  shows "unat (i + 1) = Suc (unat i)"
proof -
  have "i + 1 \<noteq> 0"
  proof
    assume "i + 1 = 0"
    then have "i = - 1" by (simp add: eq_neg_iff_add_eq_0)
    with assms show False by simp
  qed
  then show ?thesis by (metis Suc_eq_plus1 add.commute unatSuc)
qed

end
