(* ===== verification/Kcp_Wire.thy ===== *)
theory Kcp_Wire
  imports Yagips_Prelude
begin

unbundle bit_operations_syntax

text \<open>
  The wire layer of \<open>src/src/kcp.c\<close>: its constants, the little-endian field codecs
  \<open>ikcp_encode*u\<close>/\<open>ikcp_decode*u\<close>, the bounding helpers and the wrapping time difference
  \<open>_itimediff\<close>. An encoder takes the bytes written so far and returns them with the field appended
  (the C function returns the advanced pointer); a decoder takes the bytes ahead and returns the
  field with what is left, \<^term>\<open>None\<close> being a read past the end of the datagram. Both branches of
  the byte-order \<open>#if\<close> write the least significant byte first; the definitions follow the explicit
  one.
\<close>

section \<open>Constants\<close>

definition IKCP_RTO_NDL :: u32 where "IKCP_RTO_NDL = 30"
definition IKCP_RTO_MIN :: u32 where "IKCP_RTO_MIN = 100"
definition IKCP_RTO_DEF :: u32 where "IKCP_RTO_DEF = 200"
definition IKCP_RTO_MAX :: u32 where "IKCP_RTO_MAX = 60000"
definition IKCP_CMD_PUSH :: u32 where "IKCP_CMD_PUSH = 81"
definition IKCP_CMD_ACK :: u32 where "IKCP_CMD_ACK = 82"
definition IKCP_CMD_WASK :: u32 where "IKCP_CMD_WASK = 83"
definition IKCP_CMD_WINS :: u32 where "IKCP_CMD_WINS = 84"
definition IKCP_ASK_SEND :: u32 where "IKCP_ASK_SEND = 1"
definition IKCP_ASK_TELL :: u32 where "IKCP_ASK_TELL = 2"
definition IKCP_WND_SND :: u32 where "IKCP_WND_SND = 32"
definition IKCP_WND_RCV :: u32 where "IKCP_WND_RCV = 128"
definition IKCP_MTU_DEF :: u32 where "IKCP_MTU_DEF = 1400"
definition IKCP_INTERVAL :: u32 where "IKCP_INTERVAL = 100"
definition IKCP_OVERHEAD :: u32 where "IKCP_OVERHEAD = 28"
definition IKCP_DEADLINK :: u32 where "IKCP_DEADLINK = 20"
definition IKCP_THRESH_INIT :: u32 where "IKCP_THRESH_INIT = 2"
definition IKCP_THRESH_MIN :: u32 where "IKCP_THRESH_MIN = 2"
definition IKCP_PROBE_INIT :: u32 where "IKCP_PROBE_INIT = 7000"
definition IKCP_PROBE_LIMIT :: u32 where "IKCP_PROBE_LIMIT = 120000"
definition IKCP_FASTACK_LIMIT :: u32 where "IKCP_FASTACK_LIMIT = 5"

lemmas ikcp_consts =
  IKCP_RTO_NDL_def IKCP_RTO_MIN_def IKCP_RTO_DEF_def IKCP_RTO_MAX_def IKCP_CMD_PUSH_def
  IKCP_CMD_ACK_def IKCP_CMD_WASK_def IKCP_CMD_WINS_def IKCP_ASK_SEND_def IKCP_ASK_TELL_def
  IKCP_WND_SND_def IKCP_WND_RCV_def IKCP_MTU_DEF_def IKCP_INTERVAL_def IKCP_OVERHEAD_def
  IKCP_DEADLINK_def IKCP_THRESH_INIT_def IKCP_THRESH_MIN_def IKCP_PROBE_INIT_def
  IKCP_PROBE_LIMIT_def IKCP_FASTACK_LIMIT_def

section \<open>Field codecs\<close>

definition ikcp_encode8u :: "bytes \<Rightarrow> u8 \<Rightarrow> bytes" where
  "ikcp_encode8u p c = p @ [c]"

definition ikcp_decode8u :: "bytes \<Rightarrow> (u8 \<times> bytes) option" where
  "ikcp_decode8u p = (case p of c # p' \<Rightarrow> Some (c, p') | [] \<Rightarrow> None)"

definition ikcp_encode16u :: "bytes \<Rightarrow> u16 \<Rightarrow> bytes" where
  "ikcp_encode16u p w = p @ [ucast w, ucast (drop_bit 8 w)]"

definition ikcp_decode16u :: "bytes \<Rightarrow> (u16 \<times> bytes) option" where
  "ikcp_decode16u p =
     (case p of
        b0 # b1 # p' \<Rightarrow> Some (ucast b0 + push_bit 8 (ucast b1), p')
      | _ \<Rightarrow> None)"

definition ikcp_encode32u :: "bytes \<Rightarrow> u32 \<Rightarrow> bytes" where
  "ikcp_encode32u p l =
     p @ [ucast l, ucast (drop_bit 8 l), ucast (drop_bit 16 l), ucast (drop_bit 24 l)]"

definition ikcp_decode32u :: "bytes \<Rightarrow> (u32 \<times> bytes) option" where
  "ikcp_decode32u p =
     (case p of
        b0 # b1 # b2 # b3 # p' \<Rightarrow>
          Some (let l = ucast b3; l = ucast b2 + push_bit 8 l; l = ucast b1 + push_bit 8 l
                in ucast b0 + push_bit 8 l, p')
      | _ \<Rightarrow> None)"

definition ikcp_encode64u :: "bytes \<Rightarrow> u64 \<Rightarrow> bytes" where
  "ikcp_encode64u p l =
     p @ [ucast l, ucast (drop_bit 8 l), ucast (drop_bit 16 l), ucast (drop_bit 24 l),
          ucast (drop_bit 32 l), ucast (drop_bit 40 l), ucast (drop_bit 48 l),
          ucast (drop_bit 56 l)]"

definition ikcp_decode64u :: "bytes \<Rightarrow> (u64 \<times> bytes) option" where
  "ikcp_decode64u p =
     (case p of
        b0 # b1 # b2 # b3 # b4 # b5 # b6 # b7 # p' \<Rightarrow>
          Some (let l = ucast b7; l = ucast b6 + push_bit 8 l; l = ucast b5 + push_bit 8 l;
                    l = ucast b4 + push_bit 8 l; l = ucast b3 + push_bit 8 l;
                    l = ucast b2 + push_bit 8 l; l = ucast b1 + push_bit 8 l
                in ucast b0 + push_bit 8 l, p')
      | _ \<Rightarrow> None)"

section \<open>Bounding helpers and time difference\<close>

definition imin :: "u32 \<Rightarrow> u32 \<Rightarrow> u32" where
  "imin a b = (if a \<le> b then a else b)"

definition imax :: "u32 \<Rightarrow> u32 \<Rightarrow> u32" where
  "imax a b = (if a \<ge> b then a else b)"

definition ibound :: "u32 \<Rightarrow> u32 \<Rightarrow> u32 \<Rightarrow> u32" where
  "ibound lower middle upper = imin (imax lower middle) upper"

definition itimediff :: "u32 \<Rightarrow> u32 \<Rightarrow> int" where
  "itimediff later earlier = sint (later - earlier)"

section \<open>The field codecs meet the codec contract\<close>

lemma byte_split: "ucast (ucast l :: u8) + push_bit 8 (drop_bit 8 l) = (l :: 'a::len word)"
  using bits_ident [of 8 l] by (simp add: ucast_ucast_u8 add.commute)

lemma top_byte: "LENGTH('a) \<le> n + 8 \<Longrightarrow> ucast (ucast (drop_bit n l) :: u8) = drop_bit n (l :: 'a::len word)"
  by (auto simp: ucast_ucast_u8 bit_eq_iff bit_simps dest: bit_imp_le_length)

interpretation enc8: fixed_codec ikcp_encode8u ikcp_decode8u 1 "\<lambda>c. [c]"
  by unfold_locales (auto simp: ikcp_encode8u_def ikcp_decode8u_def split: list.splits)

lemma img_dec_byte:
  fixes b :: u8 and x :: "'a::len word"
  assumes "8 \<le> n" "n < LENGTH('a)"
  shows "drop_bit n (ucast b + push_bit 8 x :: 'a word) = drop_bit (n - 8) (take_bit (LENGTH('a) - 8) x)"
  using assms by (auto simp add: byte_plus_push bit_eq_iff bit_simps dest: bit_imp_le_length)

lemma img_dec_last:
  fixes b :: u8 
  assumes "8 \<le> n" "8 \<le> LENGTH('a)"
  shows "ucast (take_bit n (ucast b :: 'a::len word)) = b"
  using assms by (auto simp add: bit_eq_iff bit_simps dest: bit_imp_le_length)

lemma img_dec_take:
  fixes b :: u8 and x :: "'a::len word"
  assumes "8 \<le> n" "8 \<le> LENGTH('a)"
  shows "ucast (take_bit n (ucast b + push_bit 8 x :: 'a word)) = b"
  using assms by (auto simp add: byte_plus_push bit_eq_iff bit_simps dest: bit_imp_le_length)

lemma img_dec_drop_take:
  fixes b :: u8 and x :: "'a::len word"
  assumes "8 \<le> n" "n < m" "m \<le> LENGTH('a)"
  shows "drop_bit n (take_bit m (ucast b + push_bit 8 x :: 'a word)) = drop_bit (n - 8) (take_bit (m - 8) x)"
  using assms by (auto simp add: byte_plus_push bit_eq_iff bit_simps dest: bit_imp_le_length)

lemmas img_dec_rules = ucast_byte_plus_push img_dec_byte img_dec_last img_dec_take img_dec_drop_take

interpretation enc16: fixed_codec ikcp_encode16u ikcp_decode16u 2 "ikcp_encode16u []"
proof (unfold_locales, goal_cases)
  case (3 x r)
  then show ?case
    using byte_split [of x] by (simp add: ikcp_encode16u_def ikcp_decode16u_def top_byte)
next
  case (5 bs x r)
  then show ?case
    by (auto simp: ikcp_encode16u_def ikcp_decode16u_def img_dec_rules split: list.splits)
qed (auto simp: ikcp_encode16u_def ikcp_decode16u_def split: list.splits)

lemma byte_split_at: "ucast (ucast (drop_bit m l) :: u8) + push_bit 8 (drop_bit (m + 8) l) = drop_bit m (l :: 'a::len word)"
  using byte_split [of "drop_bit m l"] by (simp add: drop_bit_drop_bit add.commute)

interpretation enc32: fixed_codec ikcp_encode32u ikcp_decode32u 4 "ikcp_encode32u []"
proof (unfold_locales, goal_cases)
  case (3 x r)
  then show ?case
    using byte_split [of x] byte_split_at [of 8 x] byte_split_at [of 16 x] 
    by (simp add: ikcp_encode32u_def ikcp_decode32u_def top_byte)
next
  case (5 bs x r)
  then show ?case
    by (auto simp: ikcp_encode32u_def ikcp_decode32u_def img_dec_rules Let_def split: list.splits)
qed (auto simp: ikcp_encode32u_def ikcp_decode32u_def split: list.splits)

interpretation enc64: fixed_codec ikcp_encode64u ikcp_decode64u 8 "ikcp_encode64u []"
proof (unfold_locales, goal_cases)
  case (3 x r)
  then show ?case
    using byte_split [of x] byte_split_at [of 8 x] byte_split_at [of 16 x] byte_split_at [of 24 x]
      byte_split_at [of 32 x] byte_split_at [of 40 x] byte_split_at [of 48 x]
    by (simp add: ikcp_encode64u_def ikcp_decode64u_def top_byte)
next
  case (5 bs x r)
  then show ?case
    by (auto simp: ikcp_encode64u_def ikcp_decode64u_def img_dec_rules Let_def split: list.splits)
qed (auto simp: ikcp_encode64u_def ikcp_decode64u_def split: list.splits)

section \<open>Bounds and wrap-around\<close>

lemma imin_le: "imin a b \<le> a" "imin a b \<le> b"
  by (auto simp: imin_def)

lemma imax_ge: "a \<le> imax a b" "b \<le> imax a b"
  by (auto simp: imax_def)

lemma ibound_le: "ibound l m u \<le> u"
  by (simp add: ibound_def imin_le)

lemma ibound_ge: "l \<le> u \<Longrightarrow> l \<le> ibound l m u"
  using imax_ge(1) [of l m] by (simp add: ibound_def imin_def)

text \<open>
  \<open>_itimediff\<close> orders the 32-bit counters by the half circle: \<open>a\<close> is not before \<open>b\<close> when the
  forward distance from \<open>b\<close> to \<open>a\<close> is less than \<open>2 ^ 31\<close>.
\<close>

lemma itimediff_ge_0: "0 \<le> itimediff a b \<longleftrightarrow> unat (a - b) < 2 ^ 31"
  by (simp add: itimediff_def sint_nonneg_iff)

lemma itimediff_lt_0: "itimediff a b < 0 \<longleftrightarrow> 2 ^ 31 \<le> unat (a - b)"
  using itimediff_ge_0 [of a b] by linarith

lemma itimediff_gt_0: "0 < itimediff a b \<longleftrightarrow> a \<noteq> b \<and> unat (a - b) < 2 ^ 31"
proof -
  have "itimediff a b = 0 \<longleftrightarrow> a = b"
    using unat_lt_u32 [of "a - b"]
    by (auto simp: itimediff_def sint_conv_unat unat_eq_zero simp del: of_nat_unat)
  then show ?thesis using itimediff_ge_0 [of a b] by linarith
qed

lemma itimediff_eq: "unat (a - b) < 2 ^ 31 \<Longrightarrow> itimediff a b = int (unat (a - b))"
  by (simp add: itimediff_def sint_small)

text \<open>Two counters ahead of a common base by less than \<open>2 ^ 31\<close> are ordered by those distances.\<close>

lemma unat_diff_base:
  fixes a b base :: u32
  assumes "unat (b - base) \<le> unat (a - base)"
  shows "unat (a - b) = unat (a - base) - unat (b - base)"
  using unat_diff_small [OF assms] by simp

lemma itimediff_base:
  assumes "unat (a - base) < 2 ^ 31" "unat (b - base) < 2 ^ 31"
  shows "itimediff a b = int (unat (a - base)) - int (unat (b - base))"
proof -
  have "unat (a - b) = unat ((a - base) - (b - base))"
    by simp
  also have "\<dots> = (if unat (b - base) \<le> unat (a - base) then unat (a - base) - unat (b - base)
      else unat (a - base) + 2 ^ 32 - unat (b - base))"
    by (simp only: unat_sub_if') simp
  finally show ?thesis
    using assms by (simp add: itimediff_def sint_conv_unat del: of_nat_unat) linarith
qed

end
