(* ===== verification/Kcp_State.thy ===== *)
theory Kcp_State
  imports Kcp_Wire
begin

unbundle bit_operations_syntax

text \<open>
  The data model of KCP (\<open>struct IKCPSEG\<close> and \<open>struct IKCPCB\<close> of \<open>src/include/kcp.h\<close>) and the
  operations of \<open>src/src/kcp.c\<close> that the application calls on it: creation and release, receiving,
  peeking, sending, and the settings.

  Correspondence with the C structures:
  \<^item> The intrusive queues \<open>snd_queue\<close>, \<open>rcv_queue\<close>, \<open>snd_buf\<close>, \<open>rcv_buf\<close> are lists of segments from
    \<open>head.next\<close> to \<open>head.prev\<close>; \<open>iqueue_add_tail\<close> appends, \<open>iqueue_del\<close> of the first node is
    \<^term>\<open>tl\<close>. The counters \<open>nsnd_que\<close>, \<open>nrcv_que\<close>, \<open>nsnd_buf\<close>, \<open>nrcv_buf\<close> stay separate fields.
  \<^item> \<open>acklist\<close> is the array of \<open>2 * ackblock\<close> cells. \<open>buffer_size\<close> is the number of bytes
    allocated for \<open>buffer\<close>, whose contents never survive a call.
  \<^item> \<open>user\<close>, \<open>output\<close> and \<open>writelog\<close> are callbacks of the client: what is passed to \<open>output\<close> is the
    list of datagrams an operation returns; log lines are not modelled.
  \<^item> \<open>malloc\<close> is a parameter where the code handles its failure: \<open>mal i\<close> is the block the \<open>i\<close>-th
    allocation of the call returns, \<^term>\<open>None\<close> for \<open>NULL\<close>; the fields of a fresh segment that the
    code does not write keep the block's arbitrary contents.
\<close>

section \<open>Data\<close>

record ikcpseg =
  seg_conv :: u64
  seg_cmd :: u32
  seg_frg :: u32
  seg_wnd :: u32
  seg_ts :: u32
  seg_sn :: u32
  seg_una :: u32
  seg_len :: u32
  seg_resendts :: u32
  seg_rto :: u32
  seg_fastack :: u32
  seg_xmit :: u32
  seg_data :: bytes

record ikcpcb =
  conv :: u64
  mtu :: u32
  mss :: u32
  state :: u32
  snd_una :: u32
  snd_nxt :: u32
  rcv_nxt :: u32
  ts_recent :: u32
  ts_lastack :: u32
  ssthresh :: u32
  rx_rttval :: i32
  rx_srtt :: i32
  rx_rto :: i32
  rx_minrto :: i32
  snd_wnd :: u32
  rcv_wnd :: u32
  rmt_wnd :: u32
  cwnd :: u32
  probe :: u32
  current :: u32
  interval :: u32
  ts_flush :: u32
  xmit :: u32
  nrcv_buf :: u32
  nsnd_buf :: u32
  nrcv_que :: u32
  nsnd_que :: u32
  nodelay :: u32
  updated :: u32
  ts_probe :: u32
  probe_wait :: u32
  dead_link :: u32
  incr :: u32
  snd_queue :: "ikcpseg list"
  rcv_queue :: "ikcpseg list"
  snd_buf :: "ikcpseg list"
  rcv_buf :: "ikcpseg list"
  acklist :: "u32 list"
  ackcount :: u32
  ackblock :: u32
  buffer_size :: nat
  fastresend :: int
  fastlimit :: int
  nocwnd :: int
  stream :: int
  logmask :: int

section \<open>Creation and release\<close>

definition ikcp_create :: "(nat \<Rightarrow> bool) \<Rightarrow> u64 \<Rightarrow> ikcpcb option" where
  "ikcp_create mal cv =
     (if \<not> mal 0 then None
      else if \<not> mal 1 then None
      else Some
        \<lparr>conv = cv, mtu = IKCP_MTU_DEF, mss = IKCP_MTU_DEF - IKCP_OVERHEAD, state = 0,
         snd_una = 0, snd_nxt = 0, rcv_nxt = 0, ts_recent = 0, ts_lastack = 0,
         ssthresh = IKCP_THRESH_INIT, rx_rttval = 0, rx_srtt = 0, rx_rto = IKCP_RTO_DEF,
         rx_minrto = IKCP_RTO_MIN, snd_wnd = IKCP_WND_SND, rcv_wnd = IKCP_WND_RCV,
         rmt_wnd = IKCP_WND_RCV, cwnd = 0, probe = 0, current = 0, interval = IKCP_INTERVAL,
         ts_flush = IKCP_INTERVAL, xmit = 0, nrcv_buf = 0, nsnd_buf = 0, nrcv_que = 0,
         nsnd_que = 0, nodelay = 0, updated = 0, ts_probe = 0, probe_wait = 0,
         dead_link = IKCP_DEADLINK, incr = 0, snd_queue = [], rcv_queue = [], snd_buf = [],
         rcv_buf = [], acklist = [], ackcount = 0, ackblock = 0,
         buffer_size = unat ((IKCP_MTU_DEF + IKCP_OVERHEAD) * 3), fastresend = 0,
         fastlimit = uint IKCP_FASTACK_LIMIT, nocwnd = 0, stream = 0, logmask = 0\<rparr>)"

text \<open>The drain loops of \<open>ikcp_release\<close>: the segments freed, in the order of the calls to \<open>free\<close>.\<close>

fun release_queue :: "ikcpseg list \<Rightarrow> ikcpseg list \<Rightarrow> ikcpseg list" where
  "release_queue freed [] = freed"
| "release_queue freed (s # q) = release_queue (freed @ [s]) q"

definition ikcp_release :: "ikcpcb \<Rightarrow> ikcpseg list \<times> ikcpcb" where
  "ikcp_release k =
     (let freed = release_queue [] (snd_buf k);
          freed = release_queue freed (rcv_buf k);
          freed = release_queue freed (snd_queue k);
          freed = release_queue freed (rcv_queue k)
      in (freed, k\<lparr>nrcv_buf := 0, nsnd_buf := 0, nrcv_que := 0, nsnd_que := 0, ackcount := 0,
                   buffer_size := 0, acklist := [], snd_buf := [], rcv_buf := [],
                   snd_queue := [], rcv_queue := []\<rparr>))"

section \<open>Receiving\<close>

fun peek_sum :: "u32 \<Rightarrow> ikcpseg list \<Rightarrow> u32" where
  "peek_sum len [] = len"
| "peek_sum len (s # p) =
     (if seg_frg s = 0 then len + seg_len s else peek_sum (len + seg_len s) p)"

definition ikcp_peeksize :: "ikcpcb \<Rightarrow> int" where
  "ikcp_peeksize k =
     (case rcv_queue k of
        [] \<Rightarrow> -1
      | s # _ \<Rightarrow>
          if seg_frg s = 0 then sint (seg_len s)
          else if nrcv_que k < seg_frg s + 1 then -1
          else sint (peek_sum 0 (rcv_queue k)))"

text \<open>
  The merge loop of \<open>ikcp_recv\<close>. \<open>p\<close> is the rest of the queue as the loop walks it, \<open>out\<close> what has
  been copied to the caller's buffer, \<open>len\<close> the running length; unless peeking, each segment taken is
  unlinked from the queue, which it heads.
\<close>

fun recv_merge :: "bool \<Rightarrow> ikcpseg list \<Rightarrow> bytes \<Rightarrow> u32 \<Rightarrow> ikcpcb \<Rightarrow> bytes \<times> u32 \<times> ikcpcb" where
  "recv_merge ispeek [] out len k = (out, len, k)"
| "recv_merge ispeek (s # p) out len k =
     (let out = out @ take (unat (seg_len s)) (seg_data s);
          len = len + seg_len s;
          k = (if ispeek then k
               else k\<lparr>rcv_queue := tl (rcv_queue k), nrcv_que := nrcv_que k - 1\<rparr>)
      in if seg_frg s = 0 then (out, len, k) else recv_merge ispeek p out len k)"

text \<open>"Move available data from rcv_buf to rcv_queue", the loop \<open>ikcp_recv\<close> and \<open>ikcp_parse_data\<close> share.\<close>

function move_available :: "ikcpcb \<Rightarrow> ikcpcb" where
  "move_available k =
     (case rcv_buf k of
        [] \<Rightarrow> k
      | s # rest \<Rightarrow>
          if seg_sn s = rcv_nxt k \<and> nrcv_que k < rcv_wnd k
          then move_available
                 (k\<lparr>rcv_buf := rest, nrcv_buf := nrcv_buf k - 1, rcv_queue := rcv_queue k @ [s],
                    nrcv_que := nrcv_que k + 1, rcv_nxt := rcv_nxt k + 1\<rparr>)
          else k)"
  by pat_completeness auto
termination
  by (relation "measure (\<lambda>k. length (rcv_buf k))") auto

declare move_available.simps [simp del]

text \<open>
  \<open>ikcp_recv\<close>: the return value, the bytes stored through \<open>buffer\<close> (none when it is \<open>NULL\<close>) and the
  new control block. A negative \<open>len\<close> asks to peek.
\<close>

definition ikcp_recv :: "ikcpcb \<Rightarrow> bool \<Rightarrow> int \<Rightarrow> int \<times> bytes \<times> ikcpcb" where
  "ikcp_recv k has_buffer len0 =
     (let ispeek = len0 < 0
      in if rcv_queue k = [] then (-1, [], k)
         else
           let len = (if len0 < 0 then - len0 else len0);
               peeksize = ikcp_peeksize k
           in if peeksize < 0 then (-2, [], k)
              else if peeksize > len then (-3, [], k)
              else
                let recover = (nrcv_que k \<ge> rcv_wnd k);
                    (out, rlen, k1) = recv_merge ispeek (rcv_queue k) [] 0 k;
                    k2 = move_available k1;
                    k3 = (if nrcv_que k2 < rcv_wnd k2 \<and> recover
                          then k2\<lparr>probe := probe k2 OR IKCP_ASK_TELL\<rparr> else k2)
                in (sint rlen, if has_buffer then out else [], k3))"

section \<open>Sending\<close>

text \<open>Streaming mode: top up the last queued segment. \<open>Inl\<close> is a return, \<open>Inr\<close> falls through.\<close>

definition send_append ::
    "(nat \<Rightarrow> ikcpseg option) \<Rightarrow> ikcpcb \<Rightarrow> bytes option \<Rightarrow> int
       \<Rightarrow> (int \<times> ikcpcb) + (nat \<times> ikcpcb \<times> bytes option \<times> int)" where
  "send_append mal k buf len =
     (if snd_queue k = [] then Inr (0, k, buf, len)
      else
        let old = last (snd_queue k)
        in if seg_len old < mss k then
             let capacity = sint (mss k - seg_len old);
                 extend = (if len < capacity then len else capacity);
                 olen = unat (seg_len old)
             in case mal 0 of
                  None \<Rightarrow> Inl (-2, k)
                | Some junk \<Rightarrow>
                    let tail = (case buf of
                                  None \<Rightarrow> take (nat extend) (drop olen (seg_data junk))
                                | Some b \<Rightarrow> take (nat extend) b);
                        seg = junk\<lparr>seg_data := take olen (seg_data old) @ tail,
                                   seg_len := seg_len old + word_of_int extend,
                                   seg_frg := 0\<rparr>
                    in Inr (1, k\<lparr>snd_queue := butlast (snd_queue k) @ [seg]\<rparr>,
                            map_option (drop (nat extend)) buf, len - extend)
           else Inr (0, k, buf, len))"

text \<open>The fragment loop: \<open>todo\<close> of \<open>count\<close> fragments are left, \<open>base\<close> allocations came before it.\<close>

fun send_fragments ::
    "(nat \<Rightarrow> ikcpseg option) \<Rightarrow> nat \<Rightarrow> nat \<Rightarrow> nat \<Rightarrow> bytes option \<Rightarrow> int \<Rightarrow> ikcpcb \<Rightarrow> int \<times> ikcpcb" where
  "send_fragments mal base count 0 buf len k = (0, k)"
| "send_fragments mal base count (Suc todo) buf len k =
     (let size = (if len > sint (mss k) then sint (mss k) else len)
      in case mal (base + (count - Suc todo)) of
           None \<Rightarrow> (-2, k)
         | Some junk \<Rightarrow>
             let dat = (case buf of
                          Some b \<Rightarrow> if len > 0 then take (nat size) b else []
                        | None \<Rightarrow> take (nat size) (seg_data junk));
                 seg = junk\<lparr>seg_data := dat, seg_len := word_of_int size,
                            seg_frg := (if stream k = 0 then of_nat todo else 0)\<rparr>
             in send_fragments mal base count todo (map_option (drop (nat size)) buf) (len - size)
                  (k\<lparr>snd_queue := snd_queue k @ [seg], nsnd_que := nsnd_que k + 1\<rparr>))"

definition send_count :: "ikcpcb \<Rightarrow> int \<Rightarrow> int" where
  "send_count k len =
     (if len \<le> sint (mss k) then 1 else sint ((word_of_int len + mss k - 1) div mss k))"

definition send_split ::
    "(nat \<Rightarrow> ikcpseg option) \<Rightarrow> nat \<Rightarrow> bytes option \<Rightarrow> int \<Rightarrow> ikcpcb \<Rightarrow> int \<times> ikcpcb" where
  "send_split mal base buf len k =
     (let count = send_count k len
      in if count \<ge> sint IKCP_WND_RCV then (-2, k)
         else
           let count = (if count = 0 then 1 else count)
           in send_fragments mal base (nat count) (nat count) buf len k)"

definition ikcp_send ::
    "(nat \<Rightarrow> ikcpseg option) \<Rightarrow> ikcpcb \<Rightarrow> bytes option \<Rightarrow> int \<Rightarrow> int \<times> ikcpcb" where
  "ikcp_send mal k buf len =
     (if len < 0 then (-1, k)
      else if stream k \<noteq> 0 then
        (case send_append mal k buf len of
           Inl r \<Rightarrow> r
         | Inr (base, k', buf', len') \<Rightarrow>
             if len' \<le> 0 then (0, k') else send_split mal base buf' len' k')
      else send_split mal 0 buf len k)"

section \<open>Settings\<close>

definition ikcp_setmtu :: "bool \<Rightarrow> ikcpcb \<Rightarrow> int \<Rightarrow> int \<times> ikcpcb" where
  "ikcp_setmtu mal k m =
     (if m < 50 \<or> m < sint IKCP_OVERHEAD then (-1, k)
      else if \<not> mal then (-2, k)
      else (0, k\<lparr>mtu := word_of_int m, mss := word_of_int m - IKCP_OVERHEAD,
                 buffer_size := unat ((word_of_int m + IKCP_OVERHEAD) * 3)\<rparr>))"

definition clamp_interval :: "int \<Rightarrow> int" where
  "clamp_interval i = (if i > 5000 then 5000 else if i < 10 then 10 else i)"

definition ikcp_interval :: "ikcpcb \<Rightarrow> int \<Rightarrow> int \<times> ikcpcb" where
  "ikcp_interval k i = (0, k\<lparr>interval := word_of_int (clamp_interval i)\<rparr>)"

definition ikcp_nodelay :: "ikcpcb \<Rightarrow> int \<Rightarrow> int \<Rightarrow> int \<Rightarrow> int \<Rightarrow> int \<times> ikcpcb" where
  "ikcp_nodelay k nd itv resend nc =
     (let k = (if nd \<ge> 0
               then k\<lparr>nodelay := word_of_int nd,
                      rx_minrto := (if nd \<noteq> 0 then IKCP_RTO_NDL else IKCP_RTO_MIN)\<rparr>
               else k);
          k = (if itv \<ge> 0 then k\<lparr>interval := word_of_int (clamp_interval itv)\<rparr> else k);
          k = (if resend \<ge> 0 then k\<lparr>fastresend := resend\<rparr> else k);
          k = (if nc \<ge> 0 then k\<lparr>nocwnd := nc\<rparr> else k)
      in (0, k))"

definition ikcp_wndsize :: "ikcpcb \<Rightarrow> int \<Rightarrow> int \<Rightarrow> int \<times> ikcpcb" where
  "ikcp_wndsize k sndwnd rcvwnd =
     (let k = (if sndwnd > 0 then k\<lparr>snd_wnd := word_of_int sndwnd\<rparr> else k);
          k = (if rcvwnd > 0 then k\<lparr>rcv_wnd := imax (word_of_int rcvwnd) IKCP_WND_RCV\<rparr> else k)
      in (0, k))"

definition ikcp_waitsnd :: "ikcpcb \<Rightarrow> int" where
  "ikcp_waitsnd k = sint (nsnd_buf k + nsnd_que k)"

definition ikcp_getconv :: "bytes \<Rightarrow> u64 option" where
  "ikcp_getconv p = map_option fst (ikcp_decode64u p)"

section \<open>Well-formed segments and counters\<close>

definition seg_wf :: "ikcpseg \<Rightarrow> bool" where
  "seg_wf s \<longleftrightarrow> unat (seg_len s) = length (seg_data s)"

definition counts_ok :: "ikcpcb \<Rightarrow> bool" where
  "counts_ok k \<longleftrightarrow>
     nsnd_que k = of_nat (length (snd_queue k)) \<and> nrcv_que k = of_nat (length (rcv_queue k)) \<and>
     nsnd_buf k = of_nat (length (snd_buf k)) \<and> nrcv_buf k = of_nat (length (rcv_buf k))"

text \<open>The first message of a receive queue: the segments up to the first one numbered 0.\<close>

fun msg_prefix :: "ikcpseg list \<Rightarrow> ikcpseg list" where
  "msg_prefix [] = []"
| "msg_prefix (s # p) = (if seg_frg s = 0 then [s] else s # msg_prefix p)"

definition payload :: "ikcpseg \<Rightarrow> bytes" where
  "payload s = take (unat (seg_len s)) (seg_data s)"

lemma payload_wf: "seg_wf s \<Longrightarrow> payload s = seg_data s"
  by (simp add: payload_def seg_wf_def)

lemma peek_sum_eq: "peek_sum n p = n + sum_list (map seg_len (msg_prefix p))"
  by (induction p arbitrary: n) (simp_all add: add.assoc)

lemma msg_prefix_append: "\<exists>rest. p = msg_prefix p @ rest"
  by (induction p) auto

lemma recv_merge_peek:
  "recv_merge True p out n k =
     (out @ concat (map payload (msg_prefix p)), n + sum_list (map seg_len (msg_prefix p)), k)"
  by (induction p arbitrary: out n) (simp_all add: payload_def add.assoc)

lemma recv_merge_take:
  "rcv_queue k = p \<Longrightarrow>
   recv_merge False p out n k =
     (out @ concat (map payload (msg_prefix p)), n + sum_list (map seg_len (msg_prefix p)),
      k\<lparr>rcv_queue := drop (length (msg_prefix p)) p,
         nrcv_que := nrcv_que k - of_nat (length (msg_prefix p))\<rparr>)"
proof (induction p arbitrary: out n k)
  case Nil
  then show ?case by simp
next
  case (Cons s p)
  then show ?case 
    by (simp add: payload_def add.assoc Let_def diff_diff_eq)
qed

lemma msg_prefix_not_Nil [simp]: "msg_prefix p = [] \<longleftrightarrow> p = []"
  by (cases p) simp_all

lemma ikcp_peeksize_nonneg:
  assumes "0 \<le> ikcp_peeksize k"
  shows "rcv_queue k \<noteq> []" "ikcp_peeksize k = sint (sum_list (map seg_len (msg_prefix (rcv_queue k))))"
  using assms by (auto simp: ikcp_peeksize_def peek_sum_eq split: list.splits if_splits)

section \<open>Moving data from the receive buffer to the receive queue\<close>

text \<open>The run of segments \<open>move_available\<close> takes: those that continue \<open>nxt\<close>, at most \<open>room\<close> of them.\<close>

fun ready_run :: "nat \<Rightarrow> u32 \<Rightarrow> ikcpseg list \<Rightarrow> ikcpseg list" where
  "ready_run 0 nxt b = []"
| "ready_run (Suc room) nxt [] = []"
| "ready_run (Suc room) nxt (s # b) =
     (if seg_sn s = nxt then s # ready_run room (nxt + 1) b else [])"

lemma ready_run_prefix: "\<exists>rest. b = ready_run room nxt b @ rest"
  by (induction room nxt b rule: ready_run.induct) auto

lemma length_ready_run: "length (ready_run room nxt b) \<le> room"
  by (induction room nxt b rule: ready_run.induct) auto

lemma ready_run_sn:
  "map seg_sn (ready_run room nxt b) = map (\<lambda>i. nxt + of_nat i) [0..<length (ready_run room nxt b)]"
proof (induction room nxt b rule: ready_run.induct)
  case (3 room nxt s b)
  then show ?case
    by (simp add: map_upt_Suc o_def add.assoc del: upt_Suc)
qed simp_all

lemma move_available_eq:
  assumes "nrcv_que k = of_nat (length (rcv_queue k))" "length (rcv_queue k) < 2 ^ 32"
  defines "run \<equiv> ready_run (unat (rcv_wnd k) - length (rcv_queue k)) (rcv_nxt k) (rcv_buf k)"
  shows "move_available k =
     k\<lparr>rcv_buf := drop (length run) (rcv_buf k), nrcv_buf := nrcv_buf k - of_nat (length run),
       rcv_queue := rcv_queue k @ run, nrcv_que := nrcv_que k + of_nat (length run),
       rcv_nxt := rcv_nxt k + of_nat (length run)\<rparr>"
  using assms(1,2) unfolding run_def
proof (induction k rule: move_available.induct)
  case (1 k)
  let ?room = "unat (rcv_wnd k) - length (rcv_queue k)"
  have u: "unat (nrcv_que k) = length (rcv_queue k)"
    using "1.prems" by (simp add: unat_of_nat_u32)
  show ?case
  proof (cases "rcv_buf k")
    case Nil
    then show ?thesis
      by (cases ?room) (simp_all add: move_available.simps [of k])
  next
    case (Cons s rest)
    show ?thesis
    proof (cases "seg_sn s = rcv_nxt k \<and> nrcv_que k < rcv_wnd k")
      case False
      then have "ready_run ?room (rcv_nxt k) (rcv_buf k) = []"
        using Cons u by (cases ?room) (auto simp: word_less_nat_alt)
      moreover have "move_available k = k"
        using Cons False by (auto simp: move_available.simps [of k])
      ultimately show ?thesis by simp
    next
      case True
      let ?k = "k\<lparr>rcv_buf := rest, nrcv_buf := nrcv_buf k - 1, rcv_queue := rcv_queue k @ [s],
                    nrcv_que := nrcv_que k + 1, rcv_nxt := rcv_nxt k + 1\<rparr>"
      have lt: "length (rcv_queue k) < unat (rcv_wnd k)"
        using True u by (simp add: word_less_nat_alt)
      then have room: "?room = Suc (unat (rcv_wnd k) - length (rcv_queue ?k))"
        by simp
      have l32: "length (rcv_queue ?k) < 2 ^ 32"
        using lt unat_lt_u32 [of "rcv_wnd k"] by simp
      have run: "ready_run ?room (rcv_nxt k) (rcv_buf k) =
           s # ready_run (unat (rcv_wnd k) - length (rcv_queue ?k)) (rcv_nxt ?k) rest"
        using True unfolding room Cons by simp
      have "move_available k = move_available ?k"
        using Cons True by (simp add: move_available.simps [of k])
      then show ?thesis
        using "1.IH" [OF Cons] True "1.prems" l32 unfolding run
        by (simp add: Cons diff_diff_eq add.commute)
    qed
  qed
qed

section \<open>Receiving a message\<close>

lemma ikcp_recv_empty: "rcv_queue k = [] \<Longrightarrow> ikcp_recv k hb len = (-1, [], k)"
  by (simp add: ikcp_recv_def)

lemma ikcp_recv_incomplete:
  "rcv_queue k \<noteq> [] \<Longrightarrow> ikcp_peeksize k < 0 \<Longrightarrow> ikcp_recv k hb len = (-2, [], k)"
  by (simp add: ikcp_recv_def)

lemma ikcp_recv_too_small:
  "0 \<le> ikcp_peeksize k \<Longrightarrow> \<bar>len\<bar> < ikcp_peeksize k \<Longrightarrow> ikcp_recv k hb len = (-3, [], k)"
  using ikcp_peeksize_nonneg(1) [of k] by (auto simp: ikcp_recv_def abs_if Let_def)

lemma ikcp_recv_take:
  assumes "0 \<le> ikcp_peeksize k" "ikcp_peeksize k \<le> len"
  defines "msg \<equiv> msg_prefix (rcv_queue k)"
  defines "k1 \<equiv> move_available
     (k\<lparr>rcv_queue := drop (length msg) (rcv_queue k), nrcv_que := nrcv_que k - of_nat (length msg)\<rparr>)"
  shows "ikcp_recv k True len =
    (ikcp_peeksize k, concat (map payload msg),
     if nrcv_que k1 < rcv_wnd k1 \<and> rcv_wnd k \<le> nrcv_que k
     then k1\<lparr>probe := probe k1 OR IKCP_ASK_TELL\<rparr> else k1)"
  using assms(1,2) ikcp_peeksize_nonneg [OF assms(1)]
  by (simp add: ikcp_recv_def recv_merge_take Let_def msg_def k1_def)

section \<open>Splitting a message into fragments\<close>

text \<open>
  A message on its way: the fragments carry the bytes in order and are numbered downwards, the last
  one 0, which is what \<open>ikcp_recv\<close> looks for.
\<close>

definition is_message :: "ikcpseg list \<Rightarrow> bytes \<Rightarrow> bool" where
  "is_message segs b \<longleftrightarrow>
     segs \<noteq> [] \<and> (\<forall>s \<in> set segs. seg_wf s) \<and> concat (map seg_data segs) = b \<and>
     map seg_frg segs = map of_nat (rev [0..<length segs])"

lemma send_fragments_ok:
  assumes "\<And>i. mal i = Some (junk i)" "unat (mss k) < 2 ^ 31" "0 < unat (mss k)"
    "length b \<le> todo * unat (mss k)"
  shows "\<exists>segs. send_fragments mal base count todo (Some b) (int (length b)) k =
           (0, k\<lparr>snd_queue := snd_queue k @ segs, nsnd_que := nsnd_que k + of_nat todo\<rparr>) \<and>
         length segs = todo \<and> concat (map seg_data segs) = b \<and>
         (stream k = 0 \<longrightarrow> map seg_frg segs = map of_nat (rev [0..<todo])) \<and>
         (\<forall>s \<in> set segs. seg_wf s \<and> seg_len s \<le> mss k)"
  using assms(2-)
proof (induction todo arbitrary: b k)
  case 0
  then show ?case by (intro exI [of _ "[]"]) simp
next
  case (Suc todo)
  let ?m = "unat (mss k)"
  let ?d = "take ?m b"
  have sm: "sint (mss k) = int ?m" using Suc.prems by (simp add: sint_small)
  have sz: "(if int (length b) > sint (mss k) then sint (mss k) else int (length b)) = int (length ?d)"
    unfolding sm by (simp add: min_def del: of_nat_unat)
  define seg where "seg = (junk (base + (count - Suc todo)))\<lparr>seg_data := ?d,
      seg_len := word_of_int (int (length ?d)), seg_frg := (if stream k = 0 then of_nat todo else 0)\<rparr>"
  have dlt: "length ?d < 2 ^ 31" "length ?d \<le> ?m" using Suc.prems by auto
  have wf: "seg_wf seg" and le: "seg_len seg \<le> mss k"
    using dlt by (simp_all add: seg_wf_def seg_def unat_of_int_u32 word_le_nat_alt del: of_int_of_nat_eq)
  let ?k = "k\<lparr>snd_queue := snd_queue k @ [seg], nsnd_que := nsnd_que k + 1\<rparr>"
  have dat: "(if int (length b) > 0 then take (length ?d) b else []) = ?d"
    by (simp add: min_def)
  have rest: "drop (length ?d) b = drop ?m b" by (simp add: min_def)
  have lrest: "int (length b) - int (length ?d) = int (length (drop ?m b))"
    by (simp add: min_def)
  have step: "send_fragments mal base count (Suc todo) (Some b) (int (length b)) k =
      send_fragments mal base count todo (Some (drop ?m b)) (int (length (drop ?m b))) ?k"
    unfolding send_fragments.simps sz Let_def assms(1) option.case option.map(2) nat_int dat rest
      lrest seg_def ..
  have "length (drop ?m b) \<le> todo * unat (mss ?k)"
    using Suc.prems by simp
  with Suc.IH [of ?k "drop ?m b"] Suc.prems obtain segs where IH:
    "send_fragments mal base count todo (Some (drop ?m b)) (int (length (drop ?m b))) ?k =
           (0, ?k\<lparr>snd_queue := snd_queue ?k @ segs, nsnd_que := nsnd_que ?k + of_nat todo\<rparr>)"
    "length segs = todo" "concat (map seg_data segs) = drop ?m b"
    "stream k = 0 \<longrightarrow> map seg_frg segs = map of_nat (rev [0..<todo])"
    "\<forall>s \<in> set segs. seg_wf s \<and> seg_len s \<le> mss k"
    by auto
  have res: "send_fragments mal base count (Suc todo) (Some b) (int (length b)) k =
      (0, k\<lparr>snd_queue := snd_queue k @ seg # segs, nsnd_que := nsnd_que k + of_nat (Suc todo)\<rparr>)"
    unfolding step IH(1) by (simp add: add_ac)
  have sf: "seg_frg seg = (if stream k = 0 then of_nat todo else 0)" "seg_data seg = ?d"
    by (simp_all add: seg_def)
  show ?case
    by (rule exI [of _ "seg # segs"])
      (use IH(2-) wf le sf in \<open>simp add: res del: send_fragments.simps\<close>)
qed

lemma send_count_eq:
  assumes "unat (mss k) < 2 ^ 31" "0 < unat (mss k)" "l < 2 ^ 31"
  shows "send_count k (int l) =
     (if l \<le> unat (mss k) then 1 else int ((l + unat (mss k) - 1) div unat (mss k)))"
proof -
  let ?m = "unat (mss k)"
  let ?w = "word_of_int (int l) + mss k - 1 :: u32"
  have ul: "unat (word_of_int (int l) :: u32) = l" using assms by (simp add: unat_of_int_u32 del: of_int_of_nat_eq)
  have s: "unat (word_of_int (int l) + mss k :: u32) = l + ?m"
    using assms by (subst unat_add_small) (simp_all add: ul del: of_int_of_nat_eq)
  have "unat ?w = l + ?m - 1"
    using assms by (subst unat_diff_small) (simp_all add: s del: of_int_of_nat_eq)
  then have d: "unat (?w div mss k) = (l + ?m - 1) div ?m"
    by (simp add: unat_div del: of_int_of_nat_eq)
  have "(l + ?m - 1) div ?m \<le> l"
  proof (cases "l = 0")
    case False
    then obtain l' where l': "l = Suc l'" by (cases l) auto
    have "(l' + ?m) div ?m = Suc (l' div ?m)" using assms(2) by (simp add: div_add_self2)
    also have "\<dots> \<le> Suc l'" by simp
    finally show ?thesis using l' by simp
  qed (use assms in simp)
  then have "sint (?w div mss k) = int ((l + ?m - 1) div ?m)"
    using assms d by (simp add: sint_small del: of_int_of_nat_eq)
  then show ?thesis
    using assms by (simp add: send_count_def sint_small del: of_int_of_nat_eq of_nat_unat)
qed

definition frag_count :: "nat \<Rightarrow> nat \<Rightarrow> nat" where
  "frag_count m l = (if l \<le> m then 1 else (l + m - 1) div m)"

lemma frag_count_pos: "0 < m \<Longrightarrow> 0 < frag_count m l"
  using div_ceil_bounds(2) [of m l] by (auto simp: frag_count_def)

lemma frag_count_enough: "0 < m \<Longrightarrow> l \<le> frag_count m l * m"
  using div_ceil_bounds(1) [of m l] by (auto simp: frag_count_def)

lemma send_split_ok:
  assumes "\<And>i. mal i = Some (junk i)" "unat (mss k) < 2 ^ 31" "0 < unat (mss k)"
    "length b < 2 ^ 31" "frag_count (unat (mss k)) (length b) < 128"
  shows "\<exists>segs. send_split mal base (Some b) (int (length b)) k =
           (0, k\<lparr>snd_queue := snd_queue k @ segs, nsnd_que := nsnd_que k + of_nat (length segs)\<rparr>) \<and>
         length segs = frag_count (unat (mss k)) (length b) \<and> concat (map seg_data segs) = b \<and>
         (stream k = 0 \<longrightarrow> map seg_frg segs = map of_nat (rev [0..<length segs])) \<and>
         (\<forall>s \<in> set segs. seg_wf s \<and> seg_len s \<le> mss k)"
proof -
  let ?n = "frag_count (unat (mss k)) (length b)"
  have c: "send_count k (int (length b)) = int ?n"
    using assms by (simp add: send_count_eq frag_count_def)
  have "send_split mal base (Some b) (int (length b)) k =
      send_fragments mal base ?n ?n (Some b) (int (length b)) k"
    using assms frag_count_pos [OF assms(3), of "length b"]
    by (simp add: send_split_def c IKCP_WND_RCV_def Let_def)
  then show ?thesis
    using send_fragments_ok [where mal = mal and base = base and count = ?n and b = b,
        OF assms(1-3) frag_count_enough [OF assms(3)]]
    by metis
qed

lemma send_split_too_long:
  assumes "unat (mss k) < 2 ^ 31" "0 < unat (mss k)" "l < 2 ^ 31"
    "128 \<le> frag_count (unat (mss k)) l"
  shows "send_split mal base buf (int l) k = (-2, k)"
proof -
  have "send_count k (int l) = int (frag_count (unat (mss k)) l)"
    using assms by (simp add: send_count_eq frag_count_def)
  with assms show ?thesis
    by (simp add: send_split_def IKCP_WND_RCV_def)
qed

lemma ikcp_send_ok:
  assumes "\<And>i. mal i = Some (junk i)" "unat (mss k) < 2 ^ 31" "0 < unat (mss k)"
    "length b < 2 ^ 31" "frag_count (unat (mss k)) (length b) < 128" "stream k = 0"
  obtains segs where
    "ikcp_send mal k (Some b) (int (length b)) =
       (0, k\<lparr>snd_queue := snd_queue k @ segs, nsnd_que := nsnd_que k + of_nat (length segs)\<rparr>)"
    "is_message segs b" "length segs = frag_count (unat (mss k)) (length b)"
    "\<forall>s \<in> set segs. seg_len s \<le> mss k"
  using send_split_ok [where base = 0, OF assms(1-5)] frag_count_pos [OF assms(3), of "length b"] assms(6)
  by (fastforce simp: ikcp_send_def is_message_def)

lemma msg_prefix_message:
  "is_message segs b \<Longrightarrow> length segs < 2 ^ 32 \<Longrightarrow> msg_prefix (segs @ rest) = segs"
proof (induction segs arbitrary: b)
  case Nil
  then show ?case by (simp add: is_message_def)
next
  case (Cons s segs)
  have frg: "seg_frg s = of_nat (length segs)" 
    and rest: "map seg_frg segs = map of_nat (rev [0..<length segs])"
    using Cons.prems(1) by (simp_all add: is_message_def)
  show ?case
  proof (cases "segs = []")
    case True
    with frg show ?thesis by simp
  next
    case False
    have "seg_frg s \<noteq> 0"
      using Cons.prems(2) False unat_of_nat_u32 [of "length segs"] frg by auto
    moreover have "is_message segs (concat (map seg_data segs))"
      using Cons.prems(1) rest False by (simp add: is_message_def)
    ultimately show ?thesis
      using Cons.IH Cons.prems(2) by simp
  qed
qed

lemma sum_len_message:
  "(\<forall>s \<in> set segs. seg_wf s) \<Longrightarrow> sum_list (map seg_len segs) = of_nat (length (concat (map seg_data segs)))"
proof (induction segs)
  case (Cons s segs)
  have "of_nat (unat (seg_len s)) = seg_len s" by (simp add: of_nat_unat)
  moreover have "unat (seg_len s) = length (seg_data s)"
    using Cons.prems by (simp add: seg_wf_def)
  ultimately have "seg_len s = of_nat (length (seg_data s))" by metis
  with Cons show ?case by simp
qed simp

lemma ikcp_peeksize_message:
  assumes "is_message segs b" "rcv_queue k = segs @ rest" "length (rcv_queue k) < 2 ^ 32"
    "nrcv_que k = of_nat (length (rcv_queue k))" "length b < 2 ^ 31"
  shows "ikcp_peeksize k = int (length b)"
proof -
  obtain s t where q: "segs = s # t" using assms(1) by (cases segs) (auto simp: is_message_def)
  have lt: "length segs < 2 ^ 32" using assms by simp
  have pre: "msg_prefix (rcv_queue k) = segs"
    using msg_prefix_message [OF assms(1) lt] assms(2) by simp
  have sum: "sum_list (map seg_len segs) = of_nat (length b)"
    using assms(1) sum_len_message [of segs] by (simp add: is_message_def)
  have frg: "seg_frg s = of_nat (length t)"
    using assms(1) q by (simp add: is_message_def)
  have enough: "\<not> nrcv_que k < seg_frg s + 1"
  proof -
    have "seg_frg s + 1 = of_nat (length segs)" using frg q by simp
    then have "unat (seg_frg s + 1) = length segs" using lt by (simp only: unat_of_nat_u32)
    moreover have "unat (nrcv_que k) = length (rcv_queue k)"
      using assms(3,4) by (simp only: unat_of_nat_u32)
    ultimately show ?thesis using assms(2) by (simp add: word_less_nat_alt)
  qed
  have "seg_frg s = 0 \<Longrightarrow> seg_len s = sum_list (map seg_len segs)"
    using pre q assms(2) by simp
  then have "ikcp_peeksize k = sint (of_nat (length b) :: u32)"
    using q assms(2) enough pre by (auto simp: ikcp_peeksize_def peek_sum_eq sum [symmetric])
  also have "\<dots> = int (length b)"
    using assms(5) by (simp add: sint_small unat_of_nat_u32)
  finally show ?thesis .
qed

text \<open>
  What \<open>ikcp_send\<close> splits, \<open>ikcp_recv\<close> puts together again: with a message's fragments at the head
  of the receive queue and room for it, the call returns its length and its bytes and leaves the
  rest of the queue, refilled from the receive buffer.
\<close>

lemma ikcp_recv_message:
  assumes "is_message segs b" "rcv_queue k = segs @ rest" "length (rcv_queue k) < 2 ^ 32"
    "nrcv_que k = of_nat (length (rcv_queue k))" "length b < 2 ^ 31" "int (length b) \<le> len"
  obtains k' run where "ikcp_recv k True len = (int (length b), b, k')"
    "rcv_queue k' = rest @ run" "rcv_nxt k' = rcv_nxt k + of_nat (length run)"
    "rcv_buf k = run @ rcv_buf k'"
proof -
  have pk: "ikcp_peeksize k = int (length b)"
    by (rule ikcp_peeksize_message [OF assms(1-5)])
  have pre: "msg_prefix (rcv_queue k) = segs"
    using msg_prefix_message [OF assms(1)] assms(2,3) by simp
  have pay: "concat (map payload segs) = b"
    using assms(1) by (simp add: is_message_def payload_wf cong: map_cong)
  define k0 where "k0 = k\<lparr>rcv_queue := rest, nrcv_que := nrcv_que k - of_nat (length segs)\<rparr>"
  define run where "run = ready_run (unat (rcv_wnd k) - length rest) (rcv_nxt k) (rcv_buf k)"
  obtain tl where tl: "rcv_buf k = run @ tl"
    using ready_run_prefix unfolding run_def by blast
  have dr: "drop (length run) (rcv_buf k) = tl" using tl by simp
  have c0: "nrcv_que k0 = of_nat (length (rcv_queue k0))" "length (rcv_queue k0) < 2 ^ 32"
    using assms(2-4) by (simp_all add: k0_def)
  have r0: "ready_run (unat (rcv_wnd k0) - length (rcv_queue k0)) (rcv_nxt k0) (rcv_buf k0) = run"
    by (simp add: k0_def run_def)
  have mv: "move_available k0 = k0\<lparr>rcv_buf := tl, nrcv_buf := nrcv_buf k - of_nat (length run),
       rcv_queue := rest @ run, nrcv_que := nrcv_que k0 + of_nat (length run),
       rcv_nxt := rcv_nxt k + of_nat (length run)\<rparr>"
    using move_available_eq [OF c0] unfolding r0 by (simp add: k0_def dr)
  have res: "ikcp_recv k True len = (int (length b), b,
      if nrcv_que (move_available k0) < rcv_wnd (move_available k0) \<and> rcv_wnd k \<le> nrcv_que k
      then (move_available k0)\<lparr>probe := probe (move_available k0) OR IKCP_ASK_TELL\<rparr>
      else move_available k0)"
    using ikcp_recv_take [of k len] pk assms(2,6) pre pay by (simp add: k0_def)
  show thesis
    by (rule that [OF res, where run = run]) (simp_all add: mv tl)
qed

end
