(* ===== verification/Kcp_Input.thy ===== *)
theory Kcp_Input
  imports Kcp_State
begin

unbundle bit_operations_syntax

text \<open>
  The receiving half of \<open>src/src/kcp.c\<close>: round-trip estimation, acknowledgement handling on the send
  buffer, the list of acknowledgements to send, insertion of a data segment into the receive buffer,
  and \<open>ikcp_input\<close>, which parses a whole datagram.

  A datagram is the list of its bytes; the pointer \<open>data\<close> and the count \<open>size\<close> of \<open>ikcp_input\<close> move
  together, so \<open>size\<close> is the length of what lies ahead. \<^term>\<open>None\<close> is a read past the end. The
  segment \<open>ikcp_input\<close> allocates starts with the arbitrary contents \<open>junk\<close>; the code does not check
  that allocation, nor does the model. Signed 32-bit arithmetic is modelled with wrap-around.
\<close>

section \<open>Acknowledgements for the send buffer\<close>

definition ikcp_update_ack :: "ikcpcb \<Rightarrow> i32 \<Rightarrow> ikcpcb" where
  "ikcp_update_ack k rtt =
     (let k = (if rx_srtt k = 0
               then k\<lparr>rx_srtt := rtt, rx_rttval := word_of_int (c_div (sint rtt) 2)\<rparr>
               else
                 let delta = sint (rtt - rx_srtt k);
                     delta = (if delta < 0 then - delta else delta);
                     k = k\<lparr>rx_rttval := word_of_int (c_div (sint (3 * rx_rttval k) + delta) 4)\<rparr>;
                     k = k\<lparr>rx_srtt := word_of_int (c_div (sint (7 * rx_srtt k + rtt)) 8)\<rparr>
                 in if sint (rx_srtt k) < 1 then k\<lparr>rx_srtt := 1\<rparr> else k);
          rto = rx_srtt k + imax (interval k) (4 * rx_rttval k)
      in k\<lparr>rx_rto := ibound (rx_minrto k) rto IKCP_RTO_MAX\<rparr>)"

definition ikcp_shrink_buf :: "ikcpcb \<Rightarrow> ikcpcb" where
  "ikcp_shrink_buf k =
     (case snd_buf k of
        s # _ \<Rightarrow> k\<lparr>snd_una := seg_sn s\<rparr>
      | [] \<Rightarrow> k\<lparr>snd_una := snd_nxt k\<rparr>)"

fun ack_remove :: "u32 \<Rightarrow> ikcpseg list \<Rightarrow> u32 \<Rightarrow> ikcpseg list \<times> u32" where
  "ack_remove sn [] n = ([], n)"
| "ack_remove sn (s # p) n =
     (if sn = seg_sn s then (p, n - 1)
      else if itimediff sn (seg_sn s) < 0 then (s # p, n)
      else let (p', n') = ack_remove sn p n in (s # p', n'))"

definition ikcp_parse_ack :: "ikcpcb \<Rightarrow> u32 \<Rightarrow> ikcpcb" where
  "ikcp_parse_ack k sn =
     (if itimediff sn (snd_una k) < 0 \<or> itimediff sn (snd_nxt k) \<ge> 0 then k
      else let (b, n) = ack_remove sn (snd_buf k) (nsnd_buf k)
           in k\<lparr>snd_buf := b, nsnd_buf := n\<rparr>)"

fun una_remove :: "u32 \<Rightarrow> ikcpseg list \<Rightarrow> u32 \<Rightarrow> ikcpseg list \<times> u32" where
  "una_remove una [] n = ([], n)"
| "una_remove una (s # p) n =
     (if itimediff una (seg_sn s) > 0 then una_remove una p (n - 1) else (s # p, n))"

definition ikcp_parse_una :: "ikcpcb \<Rightarrow> u32 \<Rightarrow> ikcpcb" where
  "ikcp_parse_una k una =
     (let (b, n) = una_remove una (snd_buf k) (nsnd_buf k) in k\<lparr>snd_buf := b, nsnd_buf := n\<rparr>)"

fun fastack_mark :: "u32 \<Rightarrow> ikcpseg list \<Rightarrow> ikcpseg list" where
  "fastack_mark sn [] = []"
| "fastack_mark sn (s # p) =
     (if itimediff sn (seg_sn s) < 0 then s # p
      else (if sn \<noteq> seg_sn s then s\<lparr>seg_fastack := seg_fastack s + 1\<rparr> else s) # fastack_mark sn p)"

definition ikcp_parse_fastack :: "ikcpcb \<Rightarrow> u32 \<Rightarrow> u32 \<Rightarrow> ikcpcb" where
  "ikcp_parse_fastack k sn ts =
     (if itimediff sn (snd_una k) < 0 \<or> itimediff sn (snd_nxt k) \<ge> 0 then k
      else k\<lparr>snd_buf := fastack_mark sn (snd_buf k)\<rparr>)"

section \<open>Acknowledgements to send\<close>

text \<open>The doubling loop: \<open>for (newblock = 8; newblock < newsize; newblock <<= 1);\<close>.\<close>

function ack_grow :: "nat \<Rightarrow> nat \<Rightarrow> nat" where
  "ack_grow newblock newsize =
     (if newblock \<noteq> 0 \<and> newblock < newsize then ack_grow (2 * newblock) newsize else newblock)"
  by pat_completeness auto
termination
  by (relation "measure (\<lambda>(b, n). n - b)") auto

declare ack_grow.simps [simp del]

definition ikcp_ack_push :: "ikcpcb \<Rightarrow> u32 \<Rightarrow> u32 \<Rightarrow> ikcpcb" where
  "ikcp_ack_push k sn ts =
     (let newsize = unat (ackcount k + 1);
          k = (if newsize > unat (ackblock k) then
                 let newblock = ack_grow 8 newsize;
                     old = take (2 * unat (ackcount k)) (acklist k)
                 in k\<lparr>acklist := old @ replicate (2 * newblock - length old) 0,
                      ackblock := of_nat newblock\<rparr>
               else k);
          at = unat (ackcount k * 2)
      in k\<lparr>acklist := (acklist k)[at := sn, at + 1 := ts], ackcount := ackcount k + 1\<rparr>)"

definition ikcp_ack_get :: "ikcpcb \<Rightarrow> nat \<Rightarrow> u32 \<times> u32" where
  "ikcp_ack_get k p = (acklist k ! (2 * p), acklist k ! (2 * p + 1))"

section \<open>A data segment arrives\<close>

text \<open>
  The search from the tail of \<open>rcv_buf\<close>, on the reversed buffer: it stops at a segment with the same
  number (\<open>repeat\<close>) or at one before the new segment, which is linked in after it.
\<close>

fun rcv_insert :: "ikcpseg \<Rightarrow> ikcpseg list \<Rightarrow> ikcpseg list \<times> bool" where
  "rcv_insert newseg [] = ([newseg], False)"
| "rcv_insert newseg (s # p) =
     (if seg_sn s = seg_sn newseg then (s # p, True)
      else if itimediff (seg_sn newseg) (seg_sn s) > 0 then (newseg # s # p, False)
      else let (p', r) = rcv_insert newseg p in (s # p', r))"

definition ikcp_parse_data :: "ikcpcb \<Rightarrow> ikcpseg \<Rightarrow> ikcpcb" where
  "ikcp_parse_data k newseg =
     (let sn = seg_sn newseg
      in if itimediff sn (rcv_nxt k + rcv_wnd k) \<ge> 0 \<or> itimediff sn (rcv_nxt k) < 0 then k
         else
           let (b, rep) = rcv_insert newseg (rev (rcv_buf k));
               k = (if rep then k else k\<lparr>rcv_buf := rev b, nrcv_buf := nrcv_buf k + 1\<rparr>)
           in move_available k)"

section \<open>Parsing a datagram\<close>

text \<open>The seven fields after \<open>conv\<close>: \<open>cmd, frg, wnd, ts, sn, una, len\<close>.\<close>

definition decode_fields ::
    "bytes \<Rightarrow> ((u8 \<times> u8 \<times> u16 \<times> u32 \<times> u32 \<times> u32 \<times> u32) \<times> bytes) option" where
  "decode_fields d =
     Option.bind (ikcp_decode8u d) (\<lambda>(cmd, d).
     Option.bind (ikcp_decode8u d) (\<lambda>(frg, d).
     Option.bind (ikcp_decode16u d) (\<lambda>(wnd, d).
     Option.bind (ikcp_decode32u d) (\<lambda>(ts, d).
     Option.bind (ikcp_decode32u d) (\<lambda>(sn, d).
     Option.bind (ikcp_decode32u d) (\<lambda>(una, d).
     Option.bind (ikcp_decode32u d) (\<lambda>(len, d).
       Some ((cmd, frg, wnd, ts, sn, una, len), d))))))))"

lemma decode_fields_length:
  assumes "decode_fields d = Some (f, r)"
  shows "length d = 20 + length r"
  using assms unfolding decode_fields_def
  by (auto split: Option.bind_splits
      dest!: enc8.dec_rest_length enc16.dec_rest_length enc32.dec_rest_length)

lemma decode_fields_None: "decode_fields d = None \<longleftrightarrow> length d < 20"
proof (cases "length d < 20")
  case True
  then show ?thesis using decode_fields_length [of d] by (cases "decode_fields d") auto
next
  case False
  then obtain cmd d1 where 1: "ikcp_decode8u d = Some (cmd, d1)" "length d = 1 + length d1"
    using enc8.dec_total [of d] by auto
  then obtain frg d2 where 2: "ikcp_decode8u d1 = Some (frg, d2)" "length d1 = 1 + length d2"
    using enc8.dec_total [of d1] False by auto
  then obtain wnd d3 where 3: "ikcp_decode16u d2 = Some (wnd, d3)" "length d2 = 2 + length d3"
    using enc16.dec_total [of d2] False 1 by auto
  then obtain ts d4 where 4: "ikcp_decode32u d3 = Some (ts, d4)" "length d3 = 4 + length d4"
    using enc32.dec_total [of d3] False 1 2 by auto
  then obtain sn d5 where 5: "ikcp_decode32u d4 = Some (sn, d5)" "length d4 = 4 + length d5"
    using enc32.dec_total [of d4] False 1 2 3 by auto
  then obtain una d6 where 6: "ikcp_decode32u d5 = Some (una, d6)" "length d5 = 4 + length d6"
    using enc32.dec_total [of d5] False 1 2 3 4 by auto
  then obtain len d7 where 7: "ikcp_decode32u d6 = Some (len, d7)"
    using enc32.dec_total [of d6] False 1 2 3 4 5 by auto
  show ?thesis using False 1 2 3 4 5 6 7 by (simp add: decode_fields_def)
qed

text \<open>An \<open>IKCP_CMD_ACK\<close> segment; \<open>flag\<close>, \<open>maxack\<close>, \<open>latest_ts\<close> are the loop's record of the newest one.\<close>

definition input_ack :: "ikcpcb \<Rightarrow> u32 \<Rightarrow> u32 \<Rightarrow> ikcpcb" where
  "input_ack k sn ts =
     (let k = (if itimediff (current k) ts \<ge> 0 then ikcp_update_ack k (current k - ts) else k);
          k = ikcp_parse_ack k sn
      in ikcp_shrink_buf k)"

definition input_maxack :: "bool \<times> u32 \<times> u32 \<Rightarrow> u32 \<Rightarrow> u32 \<Rightarrow> bool \<times> u32 \<times> u32" where
  "input_maxack a sn ts =
     (let (flag, maxack, latest_ts) = a
      in if \<not> flag then (True, sn, ts)
         else if itimediff sn maxack > 0 then (flag, sn, ts)
         else (flag, maxack, latest_ts))"

text \<open>An \<open>IKCP_CMD_PUSH\<close> segment.\<close>

definition input_push :: "ikcpcb \<Rightarrow> ikcpseg \<Rightarrow> ikcpcb" where
  "input_push k seg =
     (if itimediff (seg_sn seg) (rcv_nxt k + rcv_wnd k) < 0 then
        let k = ikcp_ack_push k (seg_sn seg) (seg_ts seg)
        in if itimediff (seg_sn seg) (rcv_nxt k) \<ge> 0 then ikcp_parse_data k seg else k
      else k)"

text \<open>
  The \<open>while (1)\<close> loop. \<open>Inl\<close> is a \<open>return\<close> from inside it, \<open>Inr\<close> the \<open>break\<close> when less than a header
  is left.
\<close>

function input_loop ::
    "ikcpseg \<Rightarrow> bytes \<Rightarrow> ikcpcb \<Rightarrow> bool \<times> u32 \<times> u32
       \<Rightarrow> ((int \<times> ikcpcb) + (ikcpcb \<times> bool \<times> u32 \<times> u32)) option" where
  "input_loop junk d k a =
     (if int (length d) < sint IKCP_OVERHEAD then Some (Inr (k, a))
      else
        case ikcp_decode64u d of
          None \<Rightarrow> None
        | Some (cv, d1) \<Rightarrow>
            if cv \<noteq> conv k then Some (Inl (-1, k))
            else
              (case decode_fields d1 of
                 None \<Rightarrow> None
               | Some ((cmd, frg, wnd, ts, sn, una, len), d2) \<Rightarrow>
                   if int (length d2) < uint len \<or> sint len < 0 then Some (Inl (-2, k))
                   else if ucast cmd \<noteq> IKCP_CMD_PUSH \<and> ucast cmd \<noteq> IKCP_CMD_ACK \<and>
                           ucast cmd \<noteq> IKCP_CMD_WASK \<and> ucast cmd \<noteq> IKCP_CMD_WINS
                   then Some (Inl (-3, k))
                   else
                     let k = ikcp_shrink_buf (ikcp_parse_una (k\<lparr>rmt_wnd := ucast wnd\<rparr>) una);
                         rest = drop (unat len) d2
                     in if ucast cmd = IKCP_CMD_ACK
                        then input_loop junk rest (input_ack k sn ts) (input_maxack a sn ts)
                        else if ucast cmd = IKCP_CMD_PUSH
                        then input_loop junk rest
                               (input_push k
                                 (junk\<lparr>seg_conv := cv, seg_cmd := ucast cmd, seg_frg := ucast frg,
                                    seg_wnd := ucast wnd, seg_ts := ts, seg_sn := sn,
                                    seg_una := una, seg_len := len,
                                    seg_data := take (unat len) d2\<rparr>)) a
                        else if ucast cmd = IKCP_CMD_WASK
                        then input_loop junk rest (k\<lparr>probe := probe k OR IKCP_ASK_TELL\<rparr>) a
                        else input_loop junk rest k a))"
  by pat_completeness auto
termination
  by (relation "measure (\<lambda>(junk, d, k, a). length d)")
    (auto dest!: enc64.dec_rest_length decode_fields_length)

declare input_loop.simps [simp del]

text \<open>The congestion window grows when the datagram acknowledged something.\<close>

definition input_cwnd :: "ikcpcb \<Rightarrow> u32 \<Rightarrow> ikcpcb" where
  "input_cwnd k prev_una =
     (if itimediff (snd_una k) prev_una > 0 \<and> cwnd k < rmt_wnd k then
        let m = mss k;
            k = (if cwnd k < ssthresh k
                 then k\<lparr>cwnd := cwnd k + 1, incr := incr k + m\<rparr>
                 else
                   let k = (if incr k < m then k\<lparr>incr := m\<rparr> else k);
                       k = k\<lparr>incr := incr k + ((m * m) div incr k + m div 16)\<rparr>
                   in if (cwnd k + 1) * m \<le> incr k
                      then k\<lparr>cwnd := (incr k + m - 1) div (if m > 0 then m else 1)\<rparr> else k)
        in if cwnd k > rmt_wnd k then k\<lparr>cwnd := rmt_wnd k, incr := rmt_wnd k * m\<rparr> else k
      else k)"

definition ikcp_input :: "ikcpseg \<Rightarrow> ikcpcb \<Rightarrow> bytes \<Rightarrow> (int \<times> ikcpcb) option" where
  "ikcp_input junk k d =
     (let prev_una = snd_una k
      in if sint (word_of_nat (length d) :: u32) < sint IKCP_OVERHEAD then Some (-1, k)
         else
           case input_loop junk d k (False, 0, 0) of
             None \<Rightarrow> None
           | Some (Inl r) \<Rightarrow> Some r
           | Some (Inr (k', flag, maxack, latest_ts)) \<Rightarrow>
               let k' = (if flag then ikcp_parse_fastack k' maxack latest_ts else k')
               in Some (0, input_cwnd k' prev_una))"

section \<open>The acknowledgement list as a log\<close>

definition ack_ok :: "ikcpcb \<Rightarrow> bool" where
  "ack_ok k \<longleftrightarrow> length (acklist k) = 2 * unat (ackblock k) \<and> ackcount k \<le> ackblock k"

definition acks :: "ikcpcb \<Rightarrow> (u32 \<times> u32) list" where
  "acks k = map (ikcp_ack_get k) [0..<unat (ackcount k)]"

lemma ack_grow_bounds:
  "0 < b \<Longrightarrow> n \<le> ack_grow b n \<and> ack_grow b n \<le> max b (2 * n)"
  by (induction b n rule: ack_grow.induct) (subst (1 2) ack_grow.simps, auto)

lemma acks_cong:
  assumes "ackcount k' = ackcount k"
    "\<And>i. i < 2 * unat (ackcount k) \<Longrightarrow> acklist k' ! i = acklist k ! i"
  shows "acks k' = acks k"
  using assms by (auto simp: acks_def ikcp_ack_get_def)

lemma ikcp_ack_push_log:
  assumes ok: "ack_ok k" and lt: "unat (ackcount k) < 2 ^ 30"
  shows "ack_ok (ikcp_ack_push k sn ts)" "acks (ikcp_ack_push k sn ts) = acks k @ [(sn, ts)]"
proof -
  let ?c = "unat (ackcount k)"
  have c1: "unat (ackcount k + 1) = Suc ?c" and c2: "unat (ackcount k * 2) = 2 * ?c"
    using lt by (simp_all add: unat_word_ariths)
  define k0 where "k0 = (if Suc ?c > unat (ackblock k) then
      k\<lparr>acklist := take (2 * ?c) (acklist k) @ replicate (2 * ack_grow 8 (Suc ?c) - length (take (2 * ?c) (acklist k))) 0,
        ackblock := of_nat (ack_grow 8 (Suc ?c))\<rparr> else k)"
  have push: "ikcp_ack_push k sn ts =
      k0\<lparr>acklist := (acklist k0)[2 * ?c := sn, 2 * ?c + 1 := ts], ackcount := ackcount k + 1\<rparr>"
    by (simp add: ikcp_ack_push_def k0_def c1 c2 Let_def)
  have g: "Suc ?c \<le> ack_grow 8 (Suc ?c)" "ack_grow 8 (Suc ?c) < 2 ^ 32"
    using ack_grow_bounds [of 8 "Suc ?c"] lt by auto
  have old: "length (take (2 * ?c) (acklist k)) = 2 * ?c"
    using ok by (simp add: ack_ok_def word_le_nat_alt)
  have len0: "length (acklist k0) = 2 * unat (ackblock k0)" and room: "Suc ?c \<le> unat (ackblock k0)"
    and pre: "\<And>i. i < 2 * ?c \<Longrightarrow> acklist k0 ! i = acklist k ! i"
    using ok g old by (auto simp: k0_def ack_ok_def unat_of_nat_u32 nth_append)
  show "ack_ok (ikcp_ack_push k sn ts)"
    using len0 room by (simp add: push ack_ok_def word_le_nat_alt c1)
  have "map (ikcp_ack_get (ikcp_ack_push k sn ts)) [0..<?c] = acks k"
    using pre by (auto simp: acks_def ikcp_ack_get_def push)
  moreover have "ikcp_ack_get (ikcp_ack_push k sn ts) ?c = (sn, ts)"
    using len0 room by (simp add: ikcp_ack_get_def push)
  ultimately show "acks (ikcp_ack_push k sn ts) = acks k @ [(sn, ts)]"
    by (simp add: acks_def push c1)
qed

end
