(* ===== verification/Kcp_Reassembly.thy ===== *)
theory Kcp_Reassembly
  imports Kcp_Input
begin

unbundle bit_operations_syntax

text \<open>
  The receive side of \<open>src/src/kcp.c\<close> as a whole: the segments \<open>ikcp_parse_data\<close> accepts, the order
  it keeps them in, and what the application reads with \<open>ikcp_recv\<close>, whatever the order in which the
  network delivers segments and however often it repeats them.

  The sender's stream is a function \<open>f\<close> from positions (counted without wrap-around) to the content
  of the segment with that number; \<open>m\<close> counts the segments the application has read, \<open>n\<close> those the
  receiver has put in order. A segment is recognised by its 32-bit number, so it has to arrive within
  half the number circle of \<open>n\<close>: that is the only thing asked of the network.
\<close>

section \<open>The receive buffer stays in order\<close>

definition ahead :: "u32 \<Rightarrow> ikcpseg \<Rightarrow> nat" where
  "ahead base s = unat (seg_sn s - base)"

definition buf_ordered :: "u32 \<Rightarrow> ikcpseg list \<Rightarrow> bool" where
  "buf_ordered base b \<longleftrightarrow>
     sorted_wrt (\<lambda>s t. ahead base s < ahead base t) b \<and> (\<forall>s \<in> set b. ahead base s < 2 ^ 31)"

lemma ahead_inj: "ahead base s = ahead base t \<Longrightarrow> seg_sn s = seg_sn t"
  by (metis ahead_def diff_add_cancel word_unat_eq_iff)

lemma rcv_insert_eq:
  assumes "sorted_wrt (\<lambda>s t. ahead base t < ahead base s) q" "\<forall>s \<in> set q. ahead base s < 2 ^ 31"
    "ahead base n < 2 ^ 31"
  shows "rcv_insert n q =
    (if seg_sn n \<in> seg_sn ` set q then (q, True)
     else (filter (\<lambda>s. ahead base n < ahead base s) q @ n # filter (\<lambda>s. ahead base s < ahead base n) q,
           False))"
  using assms
proof (induction q)
  case (Cons s p)
  have cmp: "0 < itimediff (seg_sn n) (seg_sn s) \<longleftrightarrow> ahead base s < ahead base n"
    using Cons.prems itimediff_base [of "seg_sn n" base "seg_sn s"] by (simp add: ahead_def)
  consider "seg_sn s = seg_sn n" | "seg_sn s \<noteq> seg_sn n" "ahead base s < ahead base n"
    | "seg_sn s \<noteq> seg_sn n" "ahead base n < ahead base s"
    using ahead_inj [of base s n] by (meson nat_neq_iff)
  then show ?case
  proof cases
    case 2
    with Cons.prems have lt: "\<forall>t \<in> set p. ahead base t < ahead base n" by auto
    then have "filter (\<lambda>t. ahead base n < ahead base t) p = []"
      and "filter (\<lambda>t. ahead base t < ahead base n) p = p"
      by (auto simp: filter_empty_conv filter_id_conv)
    moreover have "seg_sn n \<notin> seg_sn ` set p"
      using lt by (fastforce simp: ahead_def)
    ultimately show ?thesis using 2 cmp by auto
  next
    case 3
    then show ?thesis using Cons cmp by auto
  qed auto
qed simp

definition buf_insert :: "u32 \<Rightarrow> ikcpseg \<Rightarrow> ikcpseg list \<Rightarrow> ikcpseg list" where
  "buf_insert base n b =
     (if seg_sn n \<in> seg_sn ` set b then b
      else filter (\<lambda>s. ahead base s < ahead base n) b @ n # filter (\<lambda>s. ahead base n < ahead base s) b)"

lemma rcv_insert_rev:
  assumes "buf_ordered base b" "ahead base n < 2 ^ 31" "rcv_insert n (rev b) = (q, rep)"
  shows "rep \<longleftrightarrow> seg_sn n \<in> seg_sn ` set b" "rev q = buf_insert base n b"
proof -
  have "sorted_wrt (\<lambda>s t. ahead base t < ahead base s) (rev b)"
    using assms(1) by (simp add: buf_ordered_def sorted_wrt_rev)
  then have "rcv_insert n (rev b) = (if seg_sn n \<in> seg_sn ` set b then (rev b, True)
     else (filter (\<lambda>s. ahead base n < ahead base s) (rev b) @ n #
           filter (\<lambda>s. ahead base s < ahead base n) (rev b), False))"
    using rcv_insert_eq [of base "rev b" n] assms(1,2) by (simp add: buf_ordered_def)
  then show "rep \<longleftrightarrow> seg_sn n \<in> seg_sn ` set b" "rev q = buf_insert base n b"
    using assms(3) by (auto simp: buf_insert_def rev_filter [symmetric] split: if_splits)
qed

lemma buf_insert_ordered:
  assumes "buf_ordered base b" "ahead base n < 2 ^ 31"
  shows "buf_ordered base (buf_insert base n b)"
  using assms by (auto simp: buf_ordered_def buf_insert_def sorted_wrt_append sorted_wrt_filter)

lemma set_buf_insert:
  "set (buf_insert base n b) = (if seg_sn n \<in> seg_sn ` set b then set b else insert n (set b))"
proof -
  have "seg_sn n \<notin> seg_sn ` set b \<Longrightarrow> s \<in> set b \<Longrightarrow> ahead base s \<noteq> ahead base n" for s
    using ahead_inj [of base s n] by (metis imageI)
  then show ?thesis unfolding buf_insert_def by (auto simp: nat_neq_iff)
qed

lemma length_buf_insert:
  "seg_sn n \<notin> seg_sn ` set b \<Longrightarrow> length (buf_insert base n b) = Suc (length b)"
proof -
  assume new: "seg_sn n \<notin> seg_sn ` set b"
  have "length (filter (\<lambda>s. ahead base s < ahead base n) b) +
        length (filter (\<lambda>s. \<not> ahead base s < ahead base n) b) = length b"
    by (rule sum_length_filter_compl)
  moreover have "filter (\<lambda>s. \<not> ahead base s < ahead base n) b = filter (\<lambda>s. ahead base n < ahead base s) b"
    using new by (intro filter_cong refl) (metis ahead_inj imageI linorder_neqE_nat order_less_asym)
  ultimately show ?thesis using new by (simp add: buf_insert_def)
qed

lemma ahead_Suc: "0 < ahead base s \<Longrightarrow> ahead (base + 1) s = ahead base s - 1"
proof -
  assume "0 < ahead base s"
  moreover have "unat (seg_sn s - base - 1) = unat (seg_sn s - base) - unat (1 :: u32)"
    using \<open>0 < ahead base s\<close> by (intro unat_diff_small) (simp add: ahead_def)
  ultimately show ?thesis by (simp add: ahead_def diff_diff_eq)
qed

lemma ahead_self: "seg_sn s = base \<Longrightarrow> ahead base s = 0"
  by (simp add: ahead_def)

lemma buf_ordered_Cons_next:
  assumes "buf_ordered base (s # b)" "seg_sn s = base"
  shows "buf_ordered (base + 1) b"
  using assms ahead_Suc [of base] unfolding buf_ordered_def
  by (auto simp: ahead_self intro!: sorted_wrt_mono_rel [where P = "\<lambda>s t. ahead base s < ahead base t" and xs = b])

section \<open>The receive side's invariant\<close>

definition rcv_inv :: "ikcpcb \<Rightarrow> bool" where
  "rcv_inv k \<longleftrightarrow>
     nrcv_que k = of_nat (length (rcv_queue k)) \<and> length (rcv_queue k) < 2 ^ 31 \<and>
     nrcv_buf k = of_nat (length (rcv_buf k)) \<and> unat (rcv_wnd k) < 2 ^ 31 \<and>
     buf_ordered (rcv_nxt k) (rcv_buf k)"

lemma move_available_step:
  assumes "rcv_inv k" "rcv_buf k = s # rest" "seg_sn s = rcv_nxt k" "nrcv_que k < rcv_wnd k"
  shows "rcv_inv (k\<lparr>rcv_buf := rest, nrcv_buf := nrcv_buf k - 1, rcv_queue := rcv_queue k @ [s],
                    nrcv_que := nrcv_que k + 1, rcv_nxt := rcv_nxt k + 1\<rparr>)"
proof -
  have "unat (nrcv_que k) = length (rcv_queue k)"
    using assms(1) unat_of_nat_u32 [of "length (rcv_queue k)"] by (simp add: rcv_inv_def)
  then show ?thesis
    using assms buf_ordered_Cons_next [of "rcv_nxt k" s rest]
    by (simp add: rcv_inv_def word_less_nat_alt)
qed

lemma move_available_inv: "rcv_inv k \<Longrightarrow> rcv_inv (move_available k)"
proof (induction k rule: move_available.induct)
  case (1 k)
  then show ?case
    by (subst move_available.simps) (auto split: list.splits dest: move_available_step)
qed

text \<open>In the window: what \<open>ikcp_parse_data\<close> accepts.\<close>

lemma in_window_iff:
  assumes "unat w < 2 ^ 31"
  shows "\<not> (itimediff sn (nxt + w) \<ge> 0 \<or> itimediff sn nxt < 0) \<longleftrightarrow> unat (sn - nxt) < unat w"
proof (cases "unat (sn - nxt) < 2 ^ 31")
  case True
  then have "itimediff sn (nxt + w) = int (unat (sn - nxt)) - int (unat w)"
    using itimediff_base [of sn nxt "nxt + w"] assms by simp
  then show ?thesis using True itimediff_ge_0 [of sn nxt] by auto
qed (use assms itimediff_ge_0 [of sn nxt] in auto)

lemma ikcp_parse_data_eq:
  assumes "rcv_inv k"
  shows "ikcp_parse_data k s =
    (if ahead (rcv_nxt k) s < unat (rcv_wnd k)
     then move_available (k\<lparr>rcv_buf := buf_insert (rcv_nxt k) s (rcv_buf k),
            nrcv_buf := of_nat (length (buf_insert (rcv_nxt k) s (rcv_buf k)))\<rparr>)
     else k)"
proof (cases "ahead (rcv_nxt k) s < unat (rcv_wnd k)")
  case True
  have w: "unat (rcv_wnd k) < 2 ^ 31" and ord: "buf_ordered (rcv_nxt k) (rcv_buf k)"
    and cnt: "nrcv_buf k = of_nat (length (rcv_buf k))"
    using assms by (simp_all add: rcv_inv_def)
  obtain q rep where ins: "rcv_insert s (rev (rcv_buf k)) = (q, rep)" by fastforce
  have lt: "ahead (rcv_nxt k) s < 2 ^ 31" using True w by simp
  note r = rcv_insert_rev [OF ord lt ins]
  have "ikcp_parse_data k s =
      move_available (if rep then k else k\<lparr>rcv_buf := rev q, nrcv_buf := nrcv_buf k + 1\<rparr>)"
    using in_window_iff [OF w, of "seg_sn s" "rcv_nxt k"] True
    by (simp add: ikcp_parse_data_def Let_def ins ahead_def)
  also have "(if rep then k else k\<lparr>rcv_buf := rev q, nrcv_buf := nrcv_buf k + 1\<rparr>) =
      k\<lparr>rcv_buf := buf_insert (rcv_nxt k) s (rcv_buf k),
         nrcv_buf := of_nat (length (buf_insert (rcv_nxt k) s (rcv_buf k)))\<rparr>"
    using r cnt length_buf_insert [of s "rcv_buf k" "rcv_nxt k"]
    by (auto simp: buf_insert_def)
  finally show ?thesis using True by simp
next
  case False
  then show ?thesis
    using in_window_iff [of "rcv_wnd k" "seg_sn s" "rcv_nxt k"] assms
    by (simp add: ikcp_parse_data_def Let_def ahead_def rcv_inv_def)
qed

lemma ikcp_parse_data_inv:
  assumes "rcv_inv k"
  shows "rcv_inv (ikcp_parse_data k s)"
proof (cases "ahead (rcv_nxt k) s < unat (rcv_wnd k)")
  case True
  then have "buf_ordered (rcv_nxt k) (buf_insert (rcv_nxt k) s (rcv_buf k))"
    using assms by (intro buf_insert_ordered) (auto simp: rcv_inv_def)
  then show ?thesis
    unfolding ikcp_parse_data_eq [OF assms] using True assms
    by (auto simp: rcv_inv_def [of k] rcv_inv_def [of "k\<lparr>rcv_buf := b, nrcv_buf := c\<rparr>" for b c]
        intro!: move_available_inv)
qed (simp add: ikcp_parse_data_eq assms)

section \<open>Delivery in order\<close>

type_synonym content = "u32 \<times> u32 \<times> bytes"

definition content :: "ikcpseg \<Rightarrow> content" where
  "content s = (seg_frg s, seg_len s, seg_data s)"

definition tracks :: "(nat \<Rightarrow> content) \<Rightarrow> nat \<Rightarrow> nat \<Rightarrow> ikcpcb \<Rightarrow> bool" where
  "tracks f m n k \<longleftrightarrow>
     rcv_inv k \<and> m \<le> n \<and> rcv_nxt k = of_nat n \<and> map content (rcv_queue k) = map f [m..<n] \<and>
     (\<forall>s \<in> set (rcv_buf k). content s = f (n + ahead (rcv_nxt k) s))"

definition is_nth :: "(nat \<Rightarrow> content) \<Rightarrow> nat \<Rightarrow> ikcpseg \<Rightarrow> bool" where
  "is_nth f i s \<longleftrightarrow> seg_sn s = of_nat i \<and> content s = f i"

definition got :: "nat \<Rightarrow> ikcpcb \<Rightarrow> nat set" where
  "got n k = {..<n} \<union> (\<lambda>s. n + ahead (rcv_nxt k) s) ` set (rcv_buf k)"

definition settled :: "nat \<Rightarrow> ikcpcb \<Rightarrow> bool" where
  "settled n k \<longleftrightarrow> unat (rcv_wnd k) \<le> length (rcv_queue k) \<or> n \<notin> got n k"

lemma got_below: "{..<n} \<subseteq> got n k"
  by (simp add: got_def)

lemma tracks_queue_length: "tracks f m n k \<Longrightarrow> length (rcv_queue k) = n - m"
  by (metis length_map length_upt tracks_def)

lemma move_available_tracks:
  assumes "tracks f m n k"
  shows "\<exists>n'\<ge>n. tracks f m n' (move_available k) \<and> got n' (move_available k) = got n k \<and>
           settled n' (move_available k) \<and> rcv_wnd (move_available k) = rcv_wnd k"
  using assms
proof (induction k arbitrary: n rule: move_available.induct)
  case (1 k)
  note tr = "1.prems"
  have u: "unat (nrcv_que k) = length (rcv_queue k)"
    using tr unat_of_nat_u32 [of "length (rcv_queue k)"] by (simp add: tracks_def rcv_inv_def)
  show ?case
  proof (cases "rcv_buf k")
    case Nil
    then show ?thesis using tr
      by (intro exI [of _ n]) (simp add: move_available.simps [of k] settled_def got_def)
  next
    case (Cons s rest)
    have ord: "buf_ordered (rcv_nxt k) (s # rest)"
      using tr Cons unfolding tracks_def rcv_inv_def by metis
    show ?thesis
    proof (cases "seg_sn s = rcv_nxt k \<and> nrcv_que k < rcv_wnd k")
      case False
      have "n \<notin> got n k" if "seg_sn s \<noteq> rcv_nxt k"
      proof -
        have "0 < ahead (rcv_nxt k) s" using that by (simp add: ahead_def unat_eq_zero unat_gt_0)
        then show ?thesis using ord Cons by (auto simp: got_def buf_ordered_def)
      qed
      then show ?thesis using tr False u Cons
        by (intro exI [of _ n]) (auto simp: move_available.simps [of k] settled_def word_less_nat_alt)
    next
      case True
      let ?k = "k\<lparr>rcv_buf := rest, nrcv_buf := nrcv_buf k - 1, rcv_queue := rcv_queue k @ [s],
                    nrcv_que := nrcv_que k + 1, rcv_nxt := rcv_nxt k + 1\<rparr>"
      have pos: "\<forall>t \<in> set rest. 0 < ahead (rcv_nxt k) t"
        using ord True by (auto simp: buf_ordered_def ahead_self)
      then have shift: "\<forall>t \<in> set rest. Suc n + ahead (rcv_nxt k + 1) t = n + ahead (rcv_nxt k) t"
        by (auto simp: ahead_Suc)
      have inv: "rcv_inv ?k" 
        using move_available_step [of k s rest] tr True Cons by (simp add: tracks_def)
      have "\<forall>t \<in> set rest. content t = f (Suc n + ahead (rcv_nxt k + 1) t)"
        using tr shift unfolding tracks_def Cons by (metis list.set_intros(2))
      then have tr': "tracks f m (Suc n) ?k"
        using tr inv True Cons by (auto simp: tracks_def ahead_self)
      have got': "got (Suc n) ?k = got n k"
        using Cons True shift by (auto simp: got_def ahead_self lessThan_Suc image_iff)
      have "move_available k = move_available ?k"
        using Cons True by (simp add: move_available.simps [of k])
      then show ?thesis
        using "1.IH" [OF Cons True tr'] got' by (auto dest: Suc_leD)
    qed
  qed
qed

lemma ahead_nth:
  assumes "tracks f m n k" "is_nth f i s" "i < n + 2 ^ 31" "n \<le> i + 2 ^ 31"
  shows "ahead (rcv_nxt k) s < 2 ^ 31 \<longleftrightarrow> n \<le> i" "n \<le> i \<Longrightarrow> ahead (rcv_nxt k) s = i - n"
proof -
  have eq: "ahead (rcv_nxt k) s = unat (of_nat i - of_nat n :: u32)"
    using assms by (simp add: ahead_def is_nth_def tracks_def)
  show 1: "ahead (rcv_nxt k) s = i - n" if "n \<le> i"
    using that assms(3) unat_of_nat_u32 [of "i - n"] by (simp add: eq of_nat_diff)
  have "2 ^ 31 \<le> ahead (rcv_nxt k) s" if "i < n"
  proof -
    have "of_nat i - of_nat n = (of_nat (2 ^ 32 + i) - of_nat n :: u32)" by simp
    also have "\<dots> = of_nat (2 ^ 32 + i - n)"
      using that assms(4) by (intro of_nat_diff [symmetric]) simp
    finally have "ahead (rcv_nxt k) s = unat (of_nat (2 ^ 32 + i - n) :: u32)" by (simp only: eq)
    also have "\<dots> = 2 ^ 32 + i - n" using that by (intro unat_of_nat_u32) simp
    finally show ?thesis using assms(4) by simp
  qed
  then show "ahead (rcv_nxt k) s < 2 ^ 31 \<longleftrightarrow> n \<le> i"
    using 1 assms(3) by (cases "n \<le> i") auto
qed

lemma got_insert:
  assumes "buf_ordered (rcv_nxt k) (rcv_buf k)"
  shows "got n (k\<lparr>rcv_buf := buf_insert (rcv_nxt k) s (rcv_buf k), nrcv_buf := c\<rparr>) =
    insert (n + ahead (rcv_nxt k) s) (got n k)"
proof -
  have "n + ahead (rcv_nxt k) s \<in> got n k" if "seg_sn s \<in> seg_sn ` set (rcv_buf k)"
    using that by (auto simp: got_def ahead_def)
  then show ?thesis by (auto simp: got_def set_buf_insert)
qed

lemma ikcp_parse_data_tracks:
  assumes tr: "tracks f m n k" and nth: "is_nth f i s" and win: "i < n + 2 ^ 31" "n \<le> i + 2 ^ 31"
  shows "\<exists>n'\<ge>n. tracks f m n' (ikcp_parse_data k s) \<and>
           got n' (ikcp_parse_data k s) = (if i < n + unat (rcv_wnd k) then insert i (got n k) else got n k) \<and>
           (settled n k \<longrightarrow> settled n' (ikcp_parse_data k s)) \<and>
           rcv_wnd (ikcp_parse_data k s) = rcv_wnd k"
proof -
  have inv: "rcv_inv k" using tr by (simp add: tracks_def)
  then have w: "unat (rcv_wnd k) < 2 ^ 31" and ord: "buf_ordered (rcv_nxt k) (rcv_buf k)"
    by (simp_all add: rcv_inv_def)
  note off = ahead_nth [OF tr nth win]
  show ?thesis
  proof (cases "n \<le> i \<and> i < n + unat (rcv_wnd k)")
    case True
    let ?k = "k\<lparr>rcv_buf := buf_insert (rcv_nxt k) s (rcv_buf k),
            nrcv_buf := of_nat (length (buf_insert (rcv_nxt k) s (rcv_buf k)))\<rparr>"
    have lt: "ahead (rcv_nxt k) s < unat (rcv_wnd k)" using True off(2) by auto
    have at: "n + ahead (rcv_nxt k) s = i" using True off(2) by simp
    have eq: "ikcp_parse_data k s = move_available ?k"
      using lt by (simp add: ikcp_parse_data_eq [OF inv])
    have "rcv_inv ?k"
      using inv buf_insert_ordered [OF ord, of s] lt w by (simp add: rcv_inv_def)
    then have "tracks f m n ?k"
      using tr nth at by (auto simp: tracks_def set_buf_insert is_nth_def split: if_splits)
    from move_available_tracks [OF this] show ?thesis
      using True at by (auto simp: eq got_insert [OF ord])
  next
    case False
    then have "\<not> ahead (rcv_nxt k) s < unat (rcv_wnd k)"
      using off w by (cases "n \<le> i") auto
    then have "ikcp_parse_data k s = k" by (simp add: ikcp_parse_data_eq [OF inv])
    moreover have "i \<in> got n k" if "i < n" using that by (simp add: got_def)
    ultimately show ?thesis using tr False by (auto simp: insert_absorb)
  qed
qed

text \<open>
  Arrivals in any order, with repetitions and gaps: \<open>is\<close> are the stream positions of the segments
  \<open>ss\<close> in the order they come in.
\<close>

lemma fold_parse_data_tracks:
  assumes "tracks f m n k" "list_all2 (is_nth f) is ss" "\<forall>i \<in> set is. n \<le> i \<and> i < n + w"
    "length (rcv_queue k) + w \<le> unat (rcv_wnd k)" "got n k \<subseteq> {..<n + w}"
  defines "k' \<equiv> fold (\<lambda>s k. ikcp_parse_data k s) ss k"
  shows "\<exists>n'. n \<le> n' \<and> n' \<le> n + w \<and> tracks f m n' k' \<and> got n' k' = set is \<union> got n k \<and>
     (settled n k \<longrightarrow> settled n' k') \<and> rcv_wnd k' = rcv_wnd k"
  using assms(2,3) unfolding k'_def
proof (induction ss arbitrary: "is" rule: rev_induct)
  case Nil
  have "got n k = set [] \<union> got n k" by simp
  then show ?case using Nil assms(1) by auto
next
  case (snoc s ss)
  obtain js i where "is": "is = js @ [i]" "list_all2 (is_nth f) js ss" "is_nth f i s"
    using snoc.prems(1) by (auto simp: list_all2_append2 list_all2_Cons2)
  let ?k = "fold (\<lambda>s k. ikcp_parse_data k s) ss k"
  obtain n1 where n1: "n \<le> n1" "n1 \<le> n + w" "tracks f m n1 ?k" "got n1 ?k = set js \<union> got n k"
      "settled n k \<longrightarrow> settled n1 ?k" "rcv_wnd ?k = rcv_wnd k"
    using snoc.IH [OF "is"(2)] snoc.prems(2) "is"(1) by auto
  have w31: "w < 2 ^ 31" using assms(1,4) by (simp add: tracks_def rcv_inv_def)
  have i: "n \<le> i" "i < n + w" using snoc.prems(2) "is"(1) by auto
  then have win: "i < n1 + 2 ^ 31" "n1 \<le> i + 2 ^ 31" "i < n1 + unat (rcv_wnd ?k)"
    using n1 w31 assms(4) by auto
  obtain n2 where n2: "n1 \<le> n2" "tracks f m n2 (ikcp_parse_data ?k s)"
      "got n2 (ikcp_parse_data ?k s) = insert i (got n1 ?k)"
      "settled n1 ?k \<longrightarrow> settled n2 (ikcp_parse_data ?k s)" "rcv_wnd (ikcp_parse_data ?k s) = rcv_wnd ?k"
    using ikcp_parse_data_tracks [OF n1(3) "is"(3) win(1,2)] win(3) by auto
  have "set js \<subseteq> {..<n + w}" using snoc.prems(2) "is"(1) by auto
  then have "insert i (set js \<union> got n k) \<subseteq> {..<n + w}"
    using i assms(5) by simp
  with got_below [of n2 "ikcp_parse_data ?k s", unfolded n2(3) n1(4)]
  have "{..<n2} \<subseteq> {..<n + w}" by (rule subset_trans)
  then have "n2 \<le> n + w" by simp
  then show ?case
    using n1 n2 "is"(1) by (intro exI [of _ n2]) auto
qed

lemma settled_complete:
  assumes "tracks f m n' k" "settled n' k" "{..<N} \<subseteq> got n' k" "n' \<le> N" "N - m \<le> unat (rcv_wnd k)"
    "m \<le> n'"
  shows "n' = N"
proof (rule ccontr)
  assume "n' \<noteq> N"
  then have lt: "n' < N" using assms(4) by simp
  then have "n' \<in> got n' k" using assms(3) by auto
  then have "unat (rcv_wnd k) \<le> n' - m"
    using assms(2) tracks_queue_length [OF assms(1)] by (simp add: settled_def)
  then show False using lt assms(5,6) by linarith
qed

text \<open>Segments in any order.\<close>

theorem any_order_delivery:
  assumes "tracks f m n k" "rcv_buf k = []" "list_all2 (is_nth f) is ss" "set is = {n..<n + w}"
    "length (rcv_queue k) + w \<le> unat (rcv_wnd k)"
  defines "k' \<equiv> fold (\<lambda>s k. ikcp_parse_data k s) ss k"
  shows "tracks f m (n + w) k'" "rcv_buf k' = []"
proof -
  have m: "m \<le> n" and q: "length (rcv_queue k) = n - m"
    using assms(1) tracks_queue_length by (auto simp: tracks_def)
  have g: "got n k = {..<n}" "settled n k"
    using assms(2) by (simp_all add: got_def settled_def)
  obtain n' where n': "n \<le> n'" "n' \<le> n + w" "tracks f m n' k'" "got n' k' = set is \<union> got n k"
      "settled n' k'" "rcv_wnd k' = rcv_wnd k"
    using fold_parse_data_tracks [OF assms(1,3) _ assms(5)] assms(4) g unfolding k'_def by auto
  have got': "got n' k' = {..<n + w}" using n'(4) assms(4) g by auto
  have N: "n' = n + w"
    by (rule settled_complete [OF n'(3,5)]) (use got' n' m q assms(5) in auto)
  show "tracks f m (n + w) k'" using n'(3) N by simp
  have "(\<lambda>s. n' + ahead (rcv_nxt k') s) ` set (rcv_buf k') \<subseteq> {..<n + w}"
    using got' by (auto simp: got_def)
  then show "rcv_buf k' = []" using N by (cases "rcv_buf k'") auto
qed

section \<open>The receiver over any sequence of arrivals and reads\<close>

lemma ikcp_parse_data_ack_push: "rcv_inv k \<Longrightarrow> rcv_inv (ikcp_ack_push k sn ts)"
  "rcv_nxt (ikcp_ack_push k sn ts) = rcv_nxt k" "rcv_wnd (ikcp_ack_push k sn ts) = rcv_wnd k"
  "rcv_buf (ikcp_ack_push k sn ts) = rcv_buf k" "rcv_queue (ikcp_ack_push k sn ts) = rcv_queue k"
  by (simp_all add: ikcp_ack_push_def Let_def rcv_inv_def)

lemma input_push_eq:
  "input_push k s = (if itimediff (seg_sn s) (rcv_nxt k + rcv_wnd k) < 0
     then ikcp_parse_data (ikcp_ack_push k (seg_sn s) (seg_ts s)) s else k)"
  by (auto simp: input_push_def ikcp_parse_data_def ikcp_parse_data_ack_push Let_def)

lemma tracks_ack_push: "tracks f m n (ikcp_ack_push k sn ts) \<longleftrightarrow> tracks f m n k"
  by (simp add: tracks_def ikcp_parse_data_ack_push rcv_inv_def) (simp add: ikcp_ack_push_def Let_def)

lemma input_push_tracks:
  assumes "tracks f m n k" "is_nth f i s" "i < n + 2 ^ 31" "n \<le> i + 2 ^ 31"
  shows "\<exists>n'\<ge>n. tracks f m n' (input_push k s)"
  using assms ikcp_parse_data_tracks [of f m n "ikcp_ack_push k (seg_sn s) (seg_ts s)" i s]
  by (auto simp: input_push_eq tracks_ack_push)

lemma ikcp_recv_neg: "ikcp_recv k hb len = (r, out, k') \<Longrightarrow> r < 0 \<Longrightarrow> k' = k \<and> out = []"
  using ikcp_peeksize_nonneg(2) [of k]
  by (auto simp: ikcp_recv_def Let_def recv_merge_take recv_merge_peek not_less split: if_splits prod.splits)

lemma ikcp_recv_tracks:
  assumes "tracks f m n k" "ikcp_recv k True len = (r, out, k')" "0 \<le> len" "0 \<le> r"
  defines "c \<equiv> length (msg_prefix (rcv_queue k))"
  shows "out = concat (map payload (msg_prefix (rcv_queue k)))" "m + c \<le> n"
    "\<exists>n'\<ge>n. tracks f (m + c) n' k'"
proof -
  let ?q = "rcv_queue k"
  have pk: "0 \<le> ikcp_peeksize k" "ikcp_peeksize k \<le> len"
    using assms(2-4) by (auto simp: ikcp_recv_def Let_def split: if_splits)
  define k0 where "k0 = k\<lparr>rcv_queue := drop c ?q, nrcv_que := nrcv_que k - of_nat c\<rparr>"
  have res: "out = concat (map payload (msg_prefix ?q))"
    "k' = move_available k0 \<or> k' = (move_available k0)\<lparr>probe := probe (move_available k0) OR IKCP_ASK_TELL\<rparr>"
    using assms(2) ikcp_recv_take [OF pk] by (auto simp: k0_def c_def split: if_splits)
  show "out = concat (map payload (msg_prefix ?q))" by (rule res(1))
  have cl: "c \<le> length ?q" "length ?q = n - m"
    using msg_prefix_append [of ?q] tracks_queue_length [OF assms(1)]
    by (auto simp: c_def) (metis length_append le_add1)
  then show "m + c \<le> n" using assms(1) by (auto simp: tracks_def)
  moreover have "map content (drop c ?q) = map f [m + c..<n]"
    using assms(1) by (simp add: tracks_def drop_map [symmetric]) (simp add: drop_map)
  ultimately have "tracks f (m + c) n k0"
    using assms(1) cl by (auto simp: tracks_def rcv_inv_def k0_def of_nat_diff)
  from move_available_tracks [OF this] obtain n' where "n \<le> n'" "tracks f (m + c) n' (move_available k0)"
    by auto
  then show "\<exists>n'\<ge>n. tracks f (m + c) n' k'"
    using res(2) by (auto simp: tracks_def rcv_inv_def)
qed

inductive rx_run :: "(nat \<Rightarrow> content) \<Rightarrow> content list \<Rightarrow> bytes \<Rightarrow> ikcpcb \<Rightarrow> bool" for f where
  start: "rcv_inv k \<Longrightarrow> rcv_nxt k = 0 \<Longrightarrow> rcv_queue k = [] \<Longrightarrow> rcv_buf k = [] \<Longrightarrow> rx_run f [] [] k"
| arrive: "rx_run f done out k \<Longrightarrow> is_nth f i s \<Longrightarrow>
    i < length done + length (rcv_queue k) + 2 ^ 31 \<Longrightarrow>
    length done + length (rcv_queue k) \<le> i + 2 ^ 31 \<Longrightarrow> rx_run f done out (input_push k s)"
| read: "rx_run f done out k \<Longrightarrow> 0 \<le> len \<Longrightarrow> ikcp_recv k True len = (r, bs, k') \<Longrightarrow> 0 \<le> r \<Longrightarrow>
    rx_run f (done @ map content (msg_prefix (rcv_queue k))) (out @ bs) k'"
| refused: "rx_run f done out k \<Longrightarrow> ikcp_recv k True len = (r, bs, k') \<Longrightarrow> r < 0 \<Longrightarrow>
    rx_run f done out k'"

definition content_bytes :: "content \<Rightarrow> bytes" where
  "content_bytes c = (case c of (frg, len, d) \<Rightarrow> take (unat len) d)"

lemma content_bytes_content: "content_bytes (content s) = payload s"
  by (simp add: content_bytes_def content_def payload_def)

lemma map_content_msg_prefix:
  assumes "map content q = map f [m..<n]"
  shows "map content (msg_prefix q) = map f [m..<m + length (msg_prefix q)]"
proof -
  obtain r where r: "q = msg_prefix q @ r" using msg_prefix_append by blast
  have "length q = n - m" using arg_cong [OF assms, of length] by simp
  then have "length (msg_prefix q) \<le> n - m" using arg_cong [OF r, of length] by simp
  then have le: "msg_prefix q \<noteq> [] \<Longrightarrow> m + length (msg_prefix q) \<le> n"
    by (cases "msg_prefix q") simp_all
  have "map content (msg_prefix q) = take (length (msg_prefix q)) (map content q)"
    by (subst (3) r) simp
  then show ?thesis
    unfolding assms using le by (cases "msg_prefix q = []") (simp_all add: take_map)
qed

lemma rx_run_inv:
  "rx_run f done out k \<Longrightarrow>
     tracks f (length done) (length done + length (rcv_queue k)) k \<and> done = map f [0..<length done] \<and>
     out = concat (map content_bytes done)"
proof (induction rule: rx_run.induct)
  case (start k)
  then show ?case by (simp add: tracks_def)
next
  case (arrive "done" out k i s)
  then obtain n' where "tracks f (length done) n' (input_push k s)"
    using input_push_tracks by blast
  moreover from this have "n' = length done + length (rcv_queue (input_push k s))"
    using tracks_queue_length by (fastforce simp: tracks_def)
  ultimately show ?case using arrive.IH by simp
next
  case (read "done" out k len r bs k')
  let ?p = "msg_prefix (rcv_queue k)"
  obtain n' where n': "tracks f (length done + length ?p) n' k'"
    using ikcp_recv_tracks(3) read by blast
  have "map content ?p = map f [length done..<length done + length ?p]"
    by (rule map_content_msg_prefix) (use read.IH in \<open>simp add: tracks_def\<close>)
  then have "done": "done @ map content ?p = map f [0..<length (done @ map content ?p)]"
    using read.IH upt_add_eq_append [of 0 "length done" "length ?p"] by (simp del: upt_add_eq_append)
  have "bs = concat (map payload ?p)" using ikcp_recv_tracks(1) read by blast
  then have out: "out @ bs = concat (map content_bytes (done @ map content ?p))"
    using conjunct2 [OF conjunct2 [OF read.IH]] by (simp add: content_bytes_content o_def)
  have "n' = length (done @ map content ?p) + length (rcv_queue k')"
    using n' tracks_queue_length [OF n'] by (simp add: tracks_def)
  with n' have "tracks f (length (done @ map content ?p))
      (length (done @ map content ?p) + length (rcv_queue k')) k'" by simp
  with "done" out show ?case by (intro conjI)
next
  case (refused "done" out k len r bs k')
  then show ?case using ikcp_recv_neg by blast
qed

end
