(* ===== verification/Kcp_Flush.thy ===== *)
theory Kcp_Flush
  imports Kcp_Reassembly
begin

unbundle bit_operations_syntax

text \<open>
  The sending half of \<open>src/src/kcp.c\<close>: \<open>ikcp_encode_seg\<close>, \<open>ikcp_flush\<close>, the clock \<open>ikcp_update\<close> and
  the scheduler's question \<open>ikcp_check\<close>.

  The bytes between \<open>buffer\<close> and \<open>ptr\<close> are a list; the datagrams handed to the \<open>output\<close> callback are
  collected in order, its return value being ignored by the code. \<open>ikcp_flush\<close> is cut at its own
  comments: acknowledgements, window probe timer, probe commands, the move from \<open>snd_queue\<close> to
  \<open>snd_buf\<close>, the data segments, and the congestion window.
\<close>

section \<open>Encoding a segment header\<close>

definition ikcp_encode_seg :: "bytes \<Rightarrow> ikcpseg \<Rightarrow> bytes" where
  "ikcp_encode_seg ptr seg =
     (let ptr = ikcp_encode64u ptr (seg_conv seg);
          ptr = ikcp_encode8u ptr (ucast (seg_cmd seg));
          ptr = ikcp_encode8u ptr (ucast (seg_frg seg));
          ptr = ikcp_encode16u ptr (ucast (seg_wnd seg));
          ptr = ikcp_encode32u ptr (seg_ts seg);
          ptr = ikcp_encode32u ptr (seg_sn seg);
          ptr = ikcp_encode32u ptr (seg_una seg)
      in ikcp_encode32u ptr (seg_len seg))"

definition ikcp_wnd_unused :: "ikcpcb \<Rightarrow> u32" where
  "ikcp_wnd_unused k = (if nrcv_que k < rcv_wnd k then rcv_wnd k - nrcv_que k else 0)"

section \<open>The output buffer\<close>

type_synonym outbuf = "bytes \<times> bytes list"

text \<open>\<open>ikcp_output\<close> hands a datagram over unless it is empty.\<close>

definition ikcp_output :: "outbuf \<Rightarrow> bytes list" where
  "ikcp_output ob = (case ob of (ptr, outs) \<Rightarrow> if length ptr = 0 then outs else outs @ [ptr])"

text \<open>\<open>if (size + need > (int)kcp->mtu)\<close>: output what is there and start over at \<open>buffer\<close>.\<close>

definition make_room :: "u32 \<Rightarrow> int \<Rightarrow> outbuf \<Rightarrow> outbuf" where
  "make_room m need ob =
     (if int (length (fst ob)) + need > sint m then ([], ikcp_output ob) else ob)"

definition put_header :: "u32 \<Rightarrow> ikcpseg \<Rightarrow> outbuf \<Rightarrow> outbuf" where
  "put_header m seg ob =
     (case make_room m (sint IKCP_OVERHEAD) ob of (ptr, outs) \<Rightarrow> (ikcp_encode_seg ptr seg, outs))"

section \<open>Acknowledgements and probes\<close>

text \<open>The local \<open>seg\<close> is threaded through: the probes reuse the fields the last acknowledgement left.\<close>

fun flush_acks :: "ikcpcb \<Rightarrow> nat list \<Rightarrow> ikcpseg \<Rightarrow> outbuf \<Rightarrow> ikcpseg \<times> outbuf" where
  "flush_acks k [] seg ob = (seg, ob)"
| "flush_acks k (i # is) seg ob =
     (let (sn, ts) = ikcp_ack_get k i;
          seg = seg\<lparr>seg_sn := sn, seg_ts := ts\<rparr>
      in flush_acks k is seg (put_header (mtu k) seg ob))"

definition flush_probe_timer :: "ikcpcb \<Rightarrow> ikcpcb" where
  "flush_probe_timer k =
     (if rmt_wnd k = 0 then
        if probe_wait k = 0
        then k\<lparr>probe_wait := IKCP_PROBE_INIT, ts_probe := current k + IKCP_PROBE_INIT\<rparr>
        else if itimediff (current k) (ts_probe k) \<ge> 0 then
          let w = (if probe_wait k < IKCP_PROBE_INIT then IKCP_PROBE_INIT else probe_wait k);
              w = w + w div 2;
              w = (if w > IKCP_PROBE_LIMIT then IKCP_PROBE_LIMIT else w)
          in k\<lparr>probe_wait := w, ts_probe := current k + w, probe := probe k OR IKCP_ASK_SEND\<rparr>
        else k
      else k\<lparr>ts_probe := 0, probe_wait := 0\<rparr>)"

definition flush_probes :: "ikcpcb \<Rightarrow> ikcpseg \<Rightarrow> outbuf \<Rightarrow> ikcpseg \<times> outbuf" where
  "flush_probes k seg ob =
     (let (seg, ob) = (if probe k AND IKCP_ASK_SEND \<noteq> 0
                       then let seg = seg\<lparr>seg_cmd := IKCP_CMD_WASK\<rparr> in (seg, put_header (mtu k) seg ob)
                       else (seg, ob))
      in if probe k AND IKCP_ASK_TELL \<noteq> 0
         then let seg = seg\<lparr>seg_cmd := IKCP_CMD_WINS\<rparr> in (seg, put_header (mtu k) seg ob)
         else (seg, ob))"

section \<open>Filling the send buffer\<close>

definition flush_window :: "ikcpcb \<Rightarrow> u32" where
  "flush_window k =
     (let w = imin (snd_wnd k) (rmt_wnd k) in if nocwnd k = 0 then imin (cwnd k) w else w)"

function flush_move :: "u32 \<Rightarrow> u32 \<Rightarrow> ikcpcb \<Rightarrow> ikcpcb" where
  "flush_move w wnd k =
     (if itimediff (snd_nxt k) (snd_una k + w) < 0 then
        case snd_queue k of
          [] \<Rightarrow> k
        | newseg # q \<Rightarrow>
            flush_move w wnd
              (k\<lparr>snd_queue := q, nsnd_que := nsnd_que k - 1, nsnd_buf := nsnd_buf k + 1,
                 snd_nxt := snd_nxt k + 1,
                 snd_buf := snd_buf k @
                   [newseg\<lparr>seg_conv := conv k, seg_cmd := IKCP_CMD_PUSH, seg_wnd := wnd,
                      seg_ts := current k, seg_sn := snd_nxt k, seg_una := rcv_nxt k,
                      seg_resendts := current k, seg_rto := rx_rto k, seg_fastack := 0,
                      seg_xmit := 0\<rparr>]\<rparr>)
      else k)"
  by pat_completeness auto
termination
  by (relation "measure (\<lambda>(w, wnd, k). length (snd_queue k))") auto

declare flush_move.simps [simp del]

section \<open>Sending the data segments\<close>

text \<open>Why a segment is sent: for the first time, on timeout, or on duplicate acknowledgements.\<close>

datatype send_reason = First_Send | Timeout | Fast_Resend

definition flush_decide :: "ikcpcb \<Rightarrow> u32 \<Rightarrow> u32 \<Rightarrow> ikcpseg \<Rightarrow> send_reason option \<times> ikcpseg" where
  "flush_decide k resent rtomin s =
     (if seg_xmit s = 0 then
        (Some First_Send,
         s\<lparr>seg_xmit := seg_xmit s + 1, seg_rto := rx_rto k,
           seg_resendts := current k + rx_rto k + rtomin\<rparr>)
      else if itimediff (current k) (seg_resendts s) \<ge> 0 then
        let rto = (if nodelay k = 0 then seg_rto s + imax (seg_rto s) (rx_rto k)
                   else seg_rto s + word_of_int
                          (c_div (sint (if nodelay k < 2 then seg_rto s else rx_rto k)) 2))
        in (Some Timeout,
            s\<lparr>seg_xmit := seg_xmit s + 1, seg_rto := rto, seg_resendts := current k + rto\<rparr>)
      else if seg_fastack s \<ge> resent \<and> (sint (seg_xmit s) \<le> fastlimit k \<or> fastlimit k \<le> 0) then
        (Some Fast_Resend,
         s\<lparr>seg_xmit := seg_xmit s + 1, seg_fastack := 0, seg_resendts := current k + seg_rto s\<rparr>)
      else (None, s))"

definition put_segment :: "u32 \<Rightarrow> ikcpseg \<Rightarrow> outbuf \<Rightarrow> outbuf" where
  "put_segment m s ob =
     (case make_room m (sint (IKCP_OVERHEAD + seg_len s)) ob of
        (ptr, outs) \<Rightarrow> (ikcp_encode_seg ptr s @ take (unat (seg_len s)) (seg_data s), outs))"

text \<open>
  The loop over \<open>snd_buf\<close>; \<open>k\<close> gives the fields it reads, its own \<open>xmit\<close> and \<open>state\<close> are threaded,
  \<open>change\<close> and \<open>lost\<close> are the two counters.
\<close>

record flush_loop =
  fl_xmit :: u32
  fl_state :: u32
  fl_change :: nat
  fl_lost :: bool
  fl_out :: outbuf

definition flush_step :: "ikcpcb \<Rightarrow> u32 \<Rightarrow> u32 \<Rightarrow> u32 \<Rightarrow> ikcpseg \<Rightarrow> flush_loop \<Rightarrow> ikcpseg \<times> flush_loop" where
  "flush_step k resent rtomin wnd s fl =
     (case flush_decide k resent rtomin s of
        (None, s) \<Rightarrow> (s, fl)
      | (Some r, s) \<Rightarrow>
          let s = s\<lparr>seg_ts := current k, seg_wnd := wnd, seg_una := rcv_nxt k\<rparr>;
              fl = (case r of
                      First_Send \<Rightarrow> fl
                    | Timeout \<Rightarrow> fl\<lparr>fl_xmit := fl_xmit fl + 1, fl_lost := True\<rparr>
                    | Fast_Resend \<Rightarrow> fl\<lparr>fl_change := fl_change fl + 1\<rparr>);
              fl = fl\<lparr>fl_out := put_segment (mtu k) s (fl_out fl)\<rparr>
          in (s, if seg_xmit s \<ge> dead_link k then fl\<lparr>fl_state := - 1\<rparr> else fl))"

fun flush_data ::
    "ikcpcb \<Rightarrow> u32 \<Rightarrow> u32 \<Rightarrow> u32 \<Rightarrow> ikcpseg list \<Rightarrow> flush_loop \<Rightarrow> ikcpseg list \<times> flush_loop" where
  "flush_data k resent rtomin wnd [] fl = ([], fl)"
| "flush_data k resent rtomin wnd (s # p) fl =
     (let (s', fl) = flush_step k resent rtomin wnd s fl;
          (p', fl) = flush_data k resent rtomin wnd p fl
      in (s' # p', fl))"

definition flush_resent :: "ikcpcb \<Rightarrow> u32" where
  "flush_resent k = (if fastresend k > 0 then word_of_int (fastresend k) else 0xffffffff)"

definition flush_rtomin :: "ikcpcb \<Rightarrow> u32" where
  "flush_rtomin k = (if nodelay k = 0 then word_of_int (sint (rx_rto k) div 8) else 0)"

section \<open>The congestion window and the whole flush\<close>

definition flush_cwnd :: "u32 \<Rightarrow> u32 \<Rightarrow> bool \<Rightarrow> bool \<Rightarrow> ikcpcb \<Rightarrow> ikcpcb" where
  "flush_cwnd w resent change lost k =
     (let k = (if change then
                 let th = (snd_nxt k - snd_una k) div 2;
                     th = (if th < IKCP_THRESH_MIN then IKCP_THRESH_MIN else th)
                 in k\<lparr>ssthresh := th, cwnd := th + resent, incr := (th + resent) * mss k\<rparr>
               else k);
          k = (if lost then
                 let th = w div 2;
                     th = (if th < IKCP_THRESH_MIN then IKCP_THRESH_MIN else th)
                 in k\<lparr>ssthresh := th, cwnd := 1, incr := mss k\<rparr>
               else k)
      in if cwnd k < 1 then k\<lparr>cwnd := 1, incr := mss k\<rparr> else k)"

text \<open>The local \<open>IKCPSEG seg\<close> of \<open>ikcp_flush\<close>; only its header is ever read.\<close>

definition flush_seg0 :: "ikcpseg \<Rightarrow> ikcpcb \<Rightarrow> ikcpseg" where
  "flush_seg0 junk k =
     junk\<lparr>seg_conv := conv k, seg_cmd := IKCP_CMD_ACK, seg_frg := 0, seg_wnd := ikcp_wnd_unused k,
          seg_una := rcv_nxt k, seg_len := 0, seg_sn := 0, seg_ts := 0, seg_data := []\<rparr>"

definition ikcp_flush :: "ikcpseg \<Rightarrow> ikcpcb \<Rightarrow> bytes list \<times> ikcpcb" where
  "ikcp_flush junk k =
     (if updated k = 0 then ([], k)
      else
        let (seg, ob) = flush_acks k [0..<nat (sint (ackcount k))] (flush_seg0 junk k) ([], []);
            k = k\<lparr>ackcount := 0\<rparr>;
            k = flush_probe_timer k;
            (seg, ob) = flush_probes k seg ob;
            k = k\<lparr>probe := 0\<rparr>;
            w = flush_window k;
            k = flush_move w (seg_wnd seg) k;
            resent = flush_resent k;
            (b, fl) = flush_data k resent (flush_rtomin k) (seg_wnd seg) (snd_buf k)
                        \<lparr>fl_xmit = xmit k, fl_state = state k, fl_change = 0, fl_lost = False, fl_out = ob\<rparr>;
            k = k\<lparr>snd_buf := b, xmit := fl_xmit fl, state := fl_state fl\<rparr>
        in (ikcp_output (fl_out fl),
            flush_cwnd w resent (fl_change fl \<noteq> 0) (fl_lost fl) k))"

section \<open>The clock\<close>

definition ikcp_update :: "ikcpseg \<Rightarrow> ikcpcb \<Rightarrow> u32 \<Rightarrow> bytes list \<times> ikcpcb" where
  "ikcp_update junk k now =
     (let k = k\<lparr>current := now\<rparr>;
          k = (if updated k = 0 then k\<lparr>updated := 1, ts_flush := current k\<rparr> else k);
          slap = itimediff (current k) (ts_flush k);
          (slap, k) = (if slap \<ge> 10000 \<or> slap < -10000 then (0, k\<lparr>ts_flush := current k\<rparr>)
                       else (slap, k))
      in if slap \<ge> 0 then
           let k = k\<lparr>ts_flush := ts_flush k + interval k\<rparr>;
               k = (if itimediff (current k) (ts_flush k) \<ge> 0
                    then k\<lparr>ts_flush := current k + interval k\<rparr> else k)
           in ikcp_flush junk k
         else ([], k))"

text \<open>The loop of \<open>ikcp_check\<close>: \<^term>\<open>None\<close> is its \<open>return current\<close>.\<close>

fun check_packets :: "u32 \<Rightarrow> ikcpseg list \<Rightarrow> int \<Rightarrow> int option" where
  "check_packets now [] tm = Some tm"
| "check_packets now (s # p) tm =
     (let diff = itimediff (seg_resendts s) now
      in if diff \<le> 0 then None else check_packets now p (if diff < tm then diff else tm))"

definition ikcp_check :: "ikcpcb \<Rightarrow> u32 \<Rightarrow> u32" where
  "ikcp_check k now =
     (if updated k = 0 then now
      else
        let tf = (if itimediff now (ts_flush k) \<ge> 10000 \<or> itimediff now (ts_flush k) < -10000
                  then now else ts_flush k)
        in if itimediff now tf \<ge> 0 then now
           else
             let tm_flush = itimediff tf now
             in case check_packets now (snd_buf k) 0x7fffffff of
                  None \<Rightarrow> now
                | Some tm_packet \<Rightarrow>
                    let minimal = word_of_int (if tm_packet < tm_flush then tm_packet else tm_flush);
                        minimal = (if minimal \<ge> interval k then interval k else minimal)
                    in now + minimal)"

end
