(* ===== verification/Kcp_Datagram.thy ===== *)
theory Kcp_Datagram
  imports Kcp_Flush
begin

unbundle bit_operations_syntax

text \<open>
  The 28-byte segment header of \<open>ikcp_encode_seg\<close> and of the parser in \<open>ikcp_input\<close> as one codec, and
  the datagrams \<open>ikcp_flush\<close> builds: each is a sequence of whole segments, none is longer than the
  MTU, and together they hold exactly the acknowledgements, probes and data segments due, in order.
\<close>

section \<open>The segment header as a codec\<close>

type_synonym header = "u64 \<times> u8 \<times> u8 \<times> u16 \<times> u32 \<times> u32 \<times> u32 \<times> u32"

fun encode_header :: "bytes \<Rightarrow> header \<Rightarrow> bytes" where
  "encode_header p (cv, cmd, frg, wnd, ts, sn, una, len) =
     ikcp_encode32u (ikcp_encode32u (ikcp_encode32u (ikcp_encode32u (ikcp_encode16u
       (ikcp_encode8u (ikcp_encode8u (ikcp_encode64u p cv) cmd) frg) wnd) ts) sn) una) len"

definition decode_header :: "bytes \<Rightarrow> (header \<times> bytes) option" where
  "decode_header d =
     Option.bind (ikcp_decode64u d) (\<lambda>(cv, d). map_option (map_prod (Pair cv) id) (decode_fields d))"

fun seg_header :: "ikcpseg \<Rightarrow> header" where
  "seg_header s = (seg_conv s, ucast (seg_cmd s), ucast (seg_frg s), ucast (seg_wnd s), seg_ts s,
     seg_sn s, seg_una s, seg_len s)"

lemma header_cases:
  obtains cv cmd frg wnd ts sn una len where "h = (cv, cmd, frg, wnd, ts, sn, una, len :: u32)"
  by (metis surj_pair)

lemma encode_header_img:
  "encode_header p (cv, cmd, frg, wnd, ts, sn, una, len) =
     p @ ikcp_encode64u [] cv @ [cmd, frg] @ ikcp_encode16u [] wnd @ ikcp_encode32u [] ts @
     ikcp_encode32u [] sn @ ikcp_encode32u [] una @ ikcp_encode32u [] len"
  by (simp add: enc64.enc_img [of p] enc8.enc_img enc16.enc_img [of "a @ b" for a b]
      enc32.enc_img [of "a @ b" for a b])

interpretation hdr: fixed_codec encode_header decode_header 28 "encode_header []"
proof (unfold_locales, goal_cases)
  case (1 p x)
  then show ?case by (cases x rule: header_cases) (simp only: encode_header_img append_Nil)
next
  case (2 x)
  then show ?case
    by (cases x rule: header_cases) (simp only: encode_header_img length_append enc64.length_img enc16.length_img enc32.length_img, simp)
next
  case (3 x r)
  then show ?case
    by (cases x rule: header_cases) (simp only: encode_header_img decode_header_def decode_fields_def append_assoc append_Nil append_Cons
      enc64.dec_img enc8.dec_img [simplified] enc16.dec_img enc32.dec_img bind.bind_lunit prod.case
      option.map map_prod_simp id_apply)
next
  case (4 bs)
  show ?case
  proof (cases "ikcp_decode64u bs")
    case (Some p)
    obtain cv d where p: "p = (cv, d)" by fastforce
    then have "length bs = 8 + length d" using Some enc64.dec_rest_length by simp
    then show ?thesis
      using Some p decode_fields_None [of d] by (auto simp: decode_header_def)
  qed (use enc64.dec_None [of bs] in \<open>auto simp: decode_header_def\<close>)
next
  case (5 bs x r)
  then show ?case
    by (auto simp: decode_header_def decode_fields_def bind_eq_Some_conv encode_header_img
        enc64.dec_Some_iff enc8.dec_Some_iff enc16.dec_Some_iff enc32.dec_Some_iff
        simp del: encode_header.simps split: prod.splits)
qed

declare encode_header.simps [simp del] seg_header.simps [simp del]

lemma ikcp_encode_seg_header: "ikcp_encode_seg p s = encode_header p (seg_header s)"
  by (simp only: ikcp_encode_seg_def Let_def seg_header.simps encode_header.simps)

definition wire :: "ikcpseg \<Rightarrow> bytes" where
  "wire s = ikcp_encode_seg [] s @ payload s"

lemma encode_seg_append: "ikcp_encode_seg p s = p @ ikcp_encode_seg [] s"
  unfolding ikcp_encode_seg_header by (rule hdr.enc_img)

lemma length_encode_seg: "length (ikcp_encode_seg p s) = length p + 28"
  by (simp only: ikcp_encode_seg_header hdr.length_enc)

lemma length_wire: "seg_wf s \<Longrightarrow> length (wire s) = 28 + unat (seg_len s)"
  by (simp add: wire_def length_encode_seg payload_wf) (simp add: seg_wf_def)

section \<open>Datagrams are whole segments within the MTU\<close>

text \<open>
  What has been built so far, as segments: \<open>cur\<close> lie in the buffer, \<open>ps\<close> are the datagrams handed
  over. \<open>packs\<close> relates it to the bytes and bounds every datagram by a limit, which is the MTU or more: a segment
  that was cut for a larger MTU gets a datagram of its own.
\<close>

definition datagram :: "ikcpseg list \<Rightarrow> bytes" where
  "datagram ss = concat (map wire ss)"

definition packs :: "u32 \<Rightarrow> ikcpseg list list \<Rightarrow> ikcpseg list \<Rightarrow> outbuf \<Rightarrow> bool" where
  "packs m ps cur ob \<longleftrightarrow>
     ob = (datagram cur, map datagram ps) \<and> (\<forall>p \<in> set ps. p \<noteq> [] \<and> length (datagram p) \<le> unat m) \<and>
     length (datagram cur) \<le> unat m"

definition fits :: "u32 \<Rightarrow> ikcpseg \<Rightarrow> bool" where
  "fits m s \<longleftrightarrow> seg_wf s \<and> 28 + unat (seg_len s) \<le> unat m \<and> unat m < 2 ^ 31"

lemma datagram_simps [simp]: "datagram [] = []" "datagram (s # ss) = wire s @ datagram ss"
  "datagram (ss @ ts) = datagram ss @ datagram ts"
  by (simp_all add: datagram_def)

lemma wire_not_Nil [simp]: "wire s \<noteq> []"
  using length_encode_seg [of "[]" s] by (auto simp: wire_def)

lemma datagram_Nil_iff [simp]: "datagram ss = [] \<longleftrightarrow> ss = []"
  by (cases ss) simp_all

lemma ikcp_output_packs:
  "packs m ps cur ob \<Longrightarrow> ikcp_output ob = map datagram (if cur = [] then ps else ps @ [cur])"
  by (simp add: packs_def ikcp_output_def)

lemma fits_need: "fits m s \<Longrightarrow> sint (IKCP_OVERHEAD + seg_len s) = 28 + int (unat (seg_len s))"
  by (subst sint_small; subst unat_add_small) (auto simp: fits_def IKCP_OVERHEAD_def)

lemma encode_seg_payload: "ikcp_encode_seg p s @ take (unat (seg_len s)) (seg_data s) = p @ wire s"
  unfolding wire_def payload_def by (subst encode_seg_append) simp

lemma put_segment_packs:
  assumes "packs l ps cur ob" "fits l s" "unat m \<le> unat l"
  shows "\<exists>ps' cur'. packs l ps' cur' (put_segment m s ob) \<and> concat ps' @ cur' = concat ps @ cur @ [s]"
proof -
  have sm: "sint m = int (unat m)" using assms(2,3) by (simp add: fits_def sint_small)
  have lw: "int (length (wire s)) = 28 + int (unat (seg_len s))"
    using assms(2) length_wire [of s] by (simp add: fits_def)
  have ob: "ob = (datagram cur, map datagram ps)" using assms(1) by (simp add: packs_def)
  have put: "put_segment m s ob = (let (p, q) = make_room m (int (length (wire s))) ob in (p @ wire s, q))"
    using fits_need [OF assms(2)] by (simp add: put_segment_def lw encode_seg_payload split_beta)
  show ?thesis
  proof (cases "int (length (datagram cur)) + int (length (wire s)) > sint m")
    case True
    let ?ps = "if cur = [] then ps else ps @ [cur]"
    have "packs l ?ps [s] (put_segment m s ob)"
      using True assms(1,2) lw unfolding put unfolding ob
      by (auto simp: make_room_def ikcp_output_def packs_def fits_def)
    moreover have "concat ?ps = concat ps @ cur" by simp
    ultimately show ?thesis by (intro exI [of _ ?ps] exI [of _ "[s]"]) simp
  next
    case False
    then have "packs l ps (cur @ [s]) (put_segment m s ob)"
      using assms sm unfolding put unfolding ob by (simp add: make_room_def packs_def)
    then show ?thesis by (intro exI [of _ ps] exI [of _ "cur @ [s]"]) simp
  qed
qed

lemma fold_put_segment_packs:
  assumes "packs l ps cur ob" "\<forall>s \<in> set ss. fits l s" "unat m \<le> unat l"
  shows "\<exists>ps' cur'. packs l ps' cur' (fold (put_segment m) ss ob) \<and>
           concat ps' @ cur' = concat ps @ cur @ ss"
  using assms(1,2)
proof (induction ss arbitrary: ps cur ob)
  case (Cons s ss)
  obtain ps1 cur1 where 1: "packs l ps1 cur1 (put_segment m s ob)"
      "concat ps1 @ cur1 = concat ps @ cur @ [s]"
    using put_segment_packs [OF Cons.prems(1) _ assms(3), of s] Cons.prems(2) by auto
  obtain ps2 cur2 where "packs l ps2 cur2 (fold (put_segment m) ss (put_segment m s ob))"
      "concat ps2 @ cur2 = concat ps1 @ cur1 @ ss"
    using Cons.IH [OF 1(1)] Cons.prems(2) by auto
  then show ?case using 1(2) by (intro exI [of _ ps2] exI [of _ cur2]) simp
qed auto

lemma put_header_eq: "seg_len s = 0 \<Longrightarrow> put_header m s ob = put_segment m s ob"
  by (simp add: put_header_def put_segment_def split: prod.splits)

section \<open>What a flush sends\<close>

definition ack_seg :: "ikcpseg \<Rightarrow> u32 \<times> u32 \<Rightarrow> ikcpseg" where
  "ack_seg seg a = seg\<lparr>seg_sn := fst a, seg_ts := snd a\<rparr>"

lemma flush_acks_eq:
  assumes "seg_len seg = 0"
  shows "flush_acks k is seg ob =
    ((if is = [] then seg else ack_seg seg (ikcp_ack_get k (last is))),
     fold (put_segment (mtu k)) (map (\<lambda>i. ack_seg seg (ikcp_ack_get k i)) is) ob)"
  using assms
proof (induction "is" arbitrary: seg ob)
  case (Cons i "is")
  have "ack_seg (ack_seg seg a) b = ack_seg seg b" for a b
    by (simp add: ack_seg_def)
  moreover have "seg_len (ack_seg seg a) = 0" for a using Cons.prems by (simp add: ack_seg_def)
  moreover have "flush_acks k (i # is) seg ob = flush_acks k is (ack_seg seg (ikcp_ack_get k i))
      (put_segment (mtu k) (ack_seg seg (ikcp_ack_get k i)) ob)"
    using Cons.prems by (simp add: put_header_eq split_beta Let_def ack_seg_def)
  ultimately show ?case
    using Cons.IH [of "ack_seg seg (ikcp_ack_get k i)"] by (simp del: flush_acks.simps)
qed simp

definition probe_segs :: "ikcpcb \<Rightarrow> ikcpseg \<Rightarrow> ikcpseg list" where
  "probe_segs k seg =
     (if probe k AND IKCP_ASK_SEND \<noteq> 0 then [seg\<lparr>seg_cmd := IKCP_CMD_WASK\<rparr>] else []) @
     (if probe k AND IKCP_ASK_TELL \<noteq> 0 then [seg\<lparr>seg_cmd := IKCP_CMD_WINS\<rparr>] else [])"

lemma flush_probes_eq:
  assumes "seg_len seg = 0"
  shows "snd (flush_probes k seg ob) = fold (put_segment (mtu k)) (probe_segs k seg) ob"
    "seg_wnd (fst (flush_probes k seg ob)) = seg_wnd seg"
  using assms by (simp_all add: flush_probes_def probe_segs_def put_header_eq Let_def)

definition stamp :: "ikcpcb \<Rightarrow> u32 \<Rightarrow> ikcpseg \<Rightarrow> ikcpseg" where
  "stamp k wnd s = s\<lparr>seg_ts := current k, seg_wnd := wnd, seg_una := rcv_nxt k\<rparr>"

fun sent_segs :: "ikcpcb \<Rightarrow> u32 \<Rightarrow> u32 \<Rightarrow> u32 \<Rightarrow> ikcpseg list \<Rightarrow> ikcpseg list" where
  "sent_segs k resent rtomin wnd [] = []"
| "sent_segs k resent rtomin wnd (s # p) =
     (case flush_decide k resent rtomin s of
        (None, _) \<Rightarrow> []
      | (Some r, s') \<Rightarrow> [stamp k wnd s']) @ sent_segs k resent rtomin wnd p"

lemma flush_data_out:
  "fl_out (snd (flush_data k resent rtomin wnd b fl)) =
     fold (put_segment (mtu k)) (sent_segs k resent rtomin wnd b) (fl_out fl)"
proof (induction b arbitrary: fl)
  case (Cons s p)
  have "fl_out (snd (flush_step k resent rtomin wnd s fl)) = 
    fold (put_segment (mtu k)) (sent_segs k resent rtomin wnd [s]) (fl_out fl)"
    by (auto simp: flush_step_def stamp_def Let_def split: prod.splits option.splits send_reason.splits)
  then show ?case by (simp add: Cons split_beta Let_def)
qed simp

definition same_load :: "ikcpseg \<Rightarrow> ikcpseg \<Rightarrow> bool" where
  "same_load s t \<longleftrightarrow> content s = content t \<and> seg_sn s = seg_sn t \<and> seg_conv s = seg_conv t \<and>
     seg_cmd s = seg_cmd t"

lemma flush_decide_load: "same_load (snd (flush_decide k resent rtomin s)) s"
  by (simp add: flush_decide_def same_load_def content_def Let_def)

lemma flush_data_load:
  "list_all2 same_load (fst (flush_data k resent rtomin wnd b fl)) b"
proof (induction b arbitrary: fl)
  case (Cons s p)
  have "same_load (fst (flush_step k resent rtomin wnd s fl)) s"
    using flush_decide_load [of k resent rtomin s]
    by (auto simp: flush_step_def same_load_def content_def Let_def split: prod.splits option.splits)
  then show ?case using Cons by (simp add: split_beta Let_def)
qed simp

end
