(* ===== verification/Kcp_Flush_Props.thy ===== *)
theory Kcp_Flush_Props
  imports Kcp_Datagram
begin

unbundle bit_operations_syntax

text \<open>
  What \<open>ikcp_flush\<close> does to the send side of a control block: how many segments move into the send
  buffer and how they are numbered, that none is lost or altered, what is put on the wire, and the
  bounds of the congestion window. Then the answers of \<open>ikcp_check\<close>.
\<close>

section \<open>Filling the window\<close>

definition new_seg :: "ikcpcb \<Rightarrow> u32 \<Rightarrow> u32 \<Rightarrow> ikcpseg \<Rightarrow> ikcpseg" where
  "new_seg k wnd sn s =
     s\<lparr>seg_conv := conv k, seg_cmd := IKCP_CMD_PUSH, seg_wnd := wnd, seg_ts := current k,
       seg_sn := sn, seg_una := rcv_nxt k, seg_resendts := current k, seg_rto := rx_rto k,
       seg_fastack := 0, seg_xmit := 0\<rparr>"

fun number_segs :: "ikcpcb \<Rightarrow> u32 \<Rightarrow> u32 \<Rightarrow> ikcpseg list \<Rightarrow> ikcpseg list" where
  "number_segs k wnd nxt [] = []"
| "number_segs k wnd nxt (s # q) = new_seg k wnd nxt s # number_segs k wnd (nxt + 1) q"

definition inflight :: "ikcpcb \<Rightarrow> nat" where
  "inflight k = unat (snd_nxt k - snd_una k)"

lemma number_segs_cong:
  assumes "conv k' = conv k" "current k' = current k" "rcv_nxt k' = rcv_nxt k" "rx_rto k' = rx_rto k"
  shows "number_segs k' wnd nxt q = number_segs k wnd nxt q"
  by (induction q arbitrary: nxt) (simp_all add: new_seg_def assms)

lemma length_number_segs [simp]: "length (number_segs k wnd nxt q) = length q"
  by (induction q arbitrary: nxt) simp_all

lemma content_number_segs: "map content (number_segs k wnd nxt q) = map content q"
  by (induction q arbitrary: nxt) (simp_all add: new_seg_def content_def)

lemma number_segs_nth:
  "i < length q \<Longrightarrow> number_segs k wnd nxt q ! i = new_seg k wnd (nxt + of_nat i) (q ! i)"
  by (induction q arbitrary: nxt i) (auto simp: nth_Cons add_ac split: nat.splits)

lemma window_open_iff:
  assumes "unat (nxt - una) < 2 ^ 31" "unat w < 2 ^ 31"
  shows "itimediff nxt (una + w) < 0 \<longleftrightarrow> unat (nxt - una) < unat w"
  using itimediff_base [of nxt una "una + w"] assms by simp

lemma flush_move_eq:
  assumes "inflight k < 2 ^ 31" "unat w < 2 ^ 31"
  defines "c \<equiv> min (length (snd_queue k)) (unat w - inflight k)"
  shows "flush_move w wnd k =
     k\<lparr>snd_queue := drop c (snd_queue k), nsnd_que := nsnd_que k - of_nat c,
       nsnd_buf := nsnd_buf k + of_nat c, snd_nxt := snd_nxt k + of_nat c,
       snd_buf := snd_buf k @ number_segs k wnd (snd_nxt k) (take c (snd_queue k))\<rparr>"
  using assms(1,2) unfolding c_def
proof (induction w wnd k rule: flush_move.induct)
  case (1 w wnd k)
  have opn: "itimediff (snd_nxt k) (snd_una k + w) < 0 \<longleftrightarrow> inflight k < unat w"
    using window_open_iff "1.prems" by (simp add: inflight_def)
  show ?case
  proof (cases "inflight k < unat w")
    case False
    then show ?thesis using opn by (simp add: flush_move.simps [of w wnd k])
  next
    case True
    show ?thesis
    proof (cases "snd_queue k")
      case Nil
      then show ?thesis by (simp add: flush_move.simps [of w wnd k])
    next
      case (Cons s q)
      let ?k = "k\<lparr>snd_queue := q, nsnd_que := nsnd_que k - 1, nsnd_buf := nsnd_buf k + 1,
         snd_nxt := snd_nxt k + 1, snd_buf := snd_buf k @ [new_seg k wnd (snd_nxt k) s]\<rparr>"
      have "flush_move w wnd k = flush_move w wnd ?k"
        using opn True Cons by (simp add: flush_move.simps [of w wnd k] new_seg_def)
      moreover have i: "inflight ?k = Suc (inflight k)"
      proof -
        have "unat (snd_nxt k - snd_una k + 1) = unat (snd_nxt k - snd_una k) + unat (1 :: u32)"
          using True "1.prems" by (intro unat_add_small) (simp add: inflight_def)
        then show ?thesis by (simp add: inflight_def algebra_simps)
      qed
      moreover have "flush_move w wnd ?k =
          ?k\<lparr>snd_queue := drop (min (length q) (unat w - inflight ?k)) q,
             nsnd_que := nsnd_que ?k - of_nat (min (length q) (unat w - inflight ?k)),
             nsnd_buf := nsnd_buf ?k + of_nat (min (length q) (unat w - inflight ?k)),
             snd_nxt := snd_nxt ?k + of_nat (min (length q) (unat w - inflight ?k)),
             snd_buf := snd_buf ?k @ number_segs ?k wnd (snd_nxt ?k) (take (min (length q) (unat w - inflight ?k)) q)\<rparr>"
        using "1.IH" [of s q] opn True Cons i "1.prems" by (simp add: new_seg_def)
      moreover have "min (length (snd_queue k)) (unat w - inflight k) =
          Suc (min (length q) (unat w - Suc (inflight k)))"
        using True Cons by simp
      moreover have "number_segs ?k wnd = number_segs k wnd" by (intro ext number_segs_cong) simp_all
      ultimately show ?thesis by (simp add: Cons algebra_simps)
    qed
  qed
qed

lemma flush_window_le: "flush_window k \<le> snd_wnd k" "flush_window k \<le> rmt_wnd k"
  by (auto simp: flush_window_def Let_def imin_def)

text \<open>The control block after the probes and the move, as \<open>ikcp_flush\<close> has it when the data loop starts.\<close>

definition flush_filled :: "ikcpcb \<Rightarrow> ikcpcb" where
  "flush_filled k =
     (let k1 = flush_probe_timer (k\<lparr>ackcount := 0\<rparr>)\<lparr>probe := 0\<rparr>
      in flush_move (flush_window k1) (ikcp_wnd_unused k) k1)"

definition flush_control :: "ikcpseg \<Rightarrow> ikcpcb \<Rightarrow> ikcpseg list" where
  "flush_control junk k =
     (let seg = flush_seg0 junk k;
          as = acks k
      in map (ack_seg seg) as @
         probe_segs (flush_probe_timer (k\<lparr>ackcount := 0\<rparr>))
           (if as = [] then seg else ack_seg seg (last as)))"

definition flush_sent :: "ikcpcb \<Rightarrow> ikcpseg list" where
  "flush_sent k =
     (let k' = flush_filled k
      in sent_segs k' (flush_resent k) (flush_rtomin k) (ikcp_wnd_unused k) (snd_buf k'))"

lemma flush_move_fields [simp]:
  "fastresend (flush_move w wnd k) = fastresend k" "nodelay (flush_move w wnd k) = nodelay k"
  "rx_rto (flush_move w wnd k) = rx_rto k" "mtu (flush_move w wnd k) = mtu k"
  "xmit (flush_move w wnd k) = xmit k" "state (flush_move w wnd k) = state k"
  by (induction w wnd k rule: flush_move.induct; subst flush_move.simps; auto split: list.splits)+

lemma flush_probe_timer_fields [simp]:
  "fastresend (flush_probe_timer k) = fastresend k" "nodelay (flush_probe_timer k) = nodelay k"
  "rx_rto (flush_probe_timer k) = rx_rto k" "mtu (flush_probe_timer k) = mtu k"
  "snd_queue (flush_probe_timer k) = snd_queue k" "snd_buf (flush_probe_timer k) = snd_buf k"
  "snd_nxt (flush_probe_timer k) = snd_nxt k" "snd_una (flush_probe_timer k) = snd_una k"
  "xmit (flush_probe_timer k) = xmit k" "state (flush_probe_timer k) = state k"
  by (simp_all add: flush_probe_timer_def Let_def)

lemma ikcp_flush_eq:
  assumes "updated k \<noteq> 0" "unat (ackcount k) < 2 ^ 31"
  obtains b and fl :: flush_loop where
    "ikcp_flush junk k = (ikcp_output (fl_out fl),
       flush_cwnd (flush_window (flush_probe_timer (k\<lparr>ackcount := 0\<rparr>))) (flush_resent k)
         (fl_change fl \<noteq> 0) (fl_lost fl)
         ((flush_filled k)\<lparr>snd_buf := b, xmit := fl_xmit fl, state := fl_state fl\<rparr>))"
    "list_all2 same_load b (snd_buf (flush_filled k))"
    "fl_out fl = fold (put_segment (mtu k)) (flush_control junk k @ flush_sent k) ([], [])"
proof -
  let ?seg0 = "flush_seg0 junk k"
  let ?as = "acks k"
  let ?k1 = "flush_probe_timer (k\<lparr>ackcount := 0\<rparr>)"
  define seg1 where "seg1 = (if ?as = [] then ?seg0 else ack_seg ?seg0 (last ?as))"
  define seg2 where "seg2 = fst (flush_probes ?k1 seg1 (fold (put_segment (mtu k)) (map (ack_seg ?seg0) ?as) ([], [])))"
  have l0: "seg_len ?seg0 = 0" "seg_len seg1 = 0" "seg_wnd seg1 = ikcp_wnd_unused k"
    by (simp_all add: seg1_def flush_seg0_def ack_seg_def)
  have n: "nat (sint (ackcount k)) = unat (ackcount k)" using assms(2) by (simp add: sint_small)
  have a: "flush_acks k [0..<unat (ackcount k)] ?seg0 ([], []) =
      (seg1, fold (put_segment (mtu k)) (map (ack_seg ?seg0) ?as) ([], []))"
    by (simp add: flush_acks_eq l0 seg1_def acks_def o_def last_map)
  have p: "flush_probes ?k1 seg1 (fold (put_segment (mtu k)) (map (ack_seg ?seg0) ?as) ([], [])) =
      (seg2, fold (put_segment (mtu k)) (flush_control junk k) ([], []))"
    using flush_probes_eq(1) [OF l0(2), of ?k1]
    by (simp add: seg2_def prod_eq_iff flush_control_def seg1_def Let_def)
  have w: "seg_wnd seg2 = ikcp_wnd_unused k"
    using flush_probes_eq(2) [OF l0(2)] l0(3) by (simp add: seg2_def)
  have win: "flush_window (?k1\<lparr>probe := 0\<rparr>) = flush_window ?k1"
    by (simp add: flush_window_def Let_def)
  have ff: "flush_move (flush_window ?k1) (ikcp_wnd_unused k) (?k1\<lparr>probe := 0\<rparr>) = flush_filled k"
    by (simp add: flush_filled_def win Let_def)
  have same [simp]: "flush_resent (flush_filled k) = flush_resent k"
    "flush_rtomin (flush_filled k) = flush_rtomin k" "mtu (flush_filled k) = mtu k"
    "xmit (flush_filled k) = xmit k" "state (flush_filled k) = state k"
    by (simp_all add: flush_filled_def flush_resent_def flush_rtomin_def Let_def)
  obtain b fl where d: "flush_data (flush_filled k) (flush_resent k) (flush_rtomin k) (ikcp_wnd_unused k)
     (snd_buf (flush_filled k)) \<lparr>fl_xmit = xmit k, fl_state = state k,
       fl_change = 0, fl_lost = False,
       fl_out = fold (put_segment (mtu k)) (flush_control junk k) ([], [])\<rparr> = (b, fl)"
    by fastforce
    have 1: "ikcp_flush junk k = (ikcp_output (fl_out fl),
       flush_cwnd (flush_window ?k1) (flush_resent k) (fl_change fl \<noteq> 0) (fl_lost fl)
         ((flush_filled k)\<lparr>snd_buf := b, xmit := fl_xmit fl, state := fl_state fl\<rparr>))"
      using assms(1) by (simp add: ikcp_flush_def n a p w win ff d Let_def)
    have 2: "list_all2 same_load b (snd_buf (flush_filled k))"
      using flush_data_load d by (metis fst_conv)
    have 3: "fl_out fl = fold (put_segment (mtu k)) (flush_control junk k @ flush_sent k) ([], [])"
      using flush_data_out [of "flush_filled k" "flush_resent k" "flush_rtomin k" "ikcp_wnd_unused k"] d
      by (metis fold_append comp_apply flush_loop.select_convs(5) flush_sent_def same(3) snd_conv)
  show thesis by (rule that [OF 1 2 3])
qed

section \<open>Properties of a flush\<close>

text \<open>The segments that wait were cut for MTUs up to \<open>l\<close>.\<close>

definition segs_fit :: "u32 \<Rightarrow> ikcpcb \<Rightarrow> bool" where
  "segs_fit l k \<longleftrightarrow> 28 \<le> unat (mtu k) \<and> unat (mtu k) \<le> unat l \<and> unat l < 2 ^ 31 \<and>
     (\<forall>s \<in> set (snd_queue k) \<union> set (snd_buf k). fits l s)"

lemma fits_content: "content s = content t \<Longrightarrow> fits m s \<longleftrightarrow> fits m t"
  by (simp add: fits_def content_def seg_wf_def)

lemma sent_segs_load:
  "s \<in> set (sent_segs k resent rtomin wnd b) \<Longrightarrow> \<exists>t \<in> set b. same_load s t"
proof (induction b)
  case (Cons t b)
  have "same_load (stamp k wnd (snd (flush_decide k resent rtomin t))) t"
    using flush_decide_load [of k resent rtomin t] by (simp add: same_load_def stamp_def content_def)
  with Cons show ?case
    by (cases "flush_decide k resent rtomin t") (auto split: option.splits)
qed simp

lemma number_segs_set: "s \<in> set (number_segs k wnd nxt q) \<Longrightarrow> \<exists>t \<in> set q. content s = content t"
  by (induction q arbitrary: nxt) (auto simp: new_seg_def content_def)

lemma flush_filled_eq:
  assumes "inflight k < 2 ^ 31" "unat (snd_wnd k) < 2 ^ 31"
  defines "k1 \<equiv> (flush_probe_timer (k\<lparr>ackcount := 0\<rparr>))\<lparr>probe := 0\<rparr>"
  defines "c \<equiv> min (length (snd_queue k)) (unat (flush_window k) - inflight k)"
  shows "flush_filled k =
     k1\<lparr>snd_queue := drop c (snd_queue k), nsnd_que := nsnd_que k - of_nat c,
       nsnd_buf := nsnd_buf k + of_nat c, snd_nxt := snd_nxt k + of_nat c,
       snd_buf := snd_buf k @ number_segs k (ikcp_wnd_unused k) (snd_nxt k) (take c (snd_queue k))\<rparr>"
proof -
  have fields: "nsnd_que k1 = nsnd_que k" "nsnd_buf k1 = nsnd_buf k" "snd_wnd k1 = snd_wnd k"
    "rmt_wnd k1 = rmt_wnd k" "cwnd k1 = cwnd k" "nocwnd k1 = nocwnd k" "conv k1 = conv k"
    "current k1 = current k" "rcv_nxt k1 = rcv_nxt k" "rx_rto k1 = rx_rto k"
    by (simp_all add: k1_def flush_probe_timer_def Let_def)
  have w: "flush_window k1 = flush_window k" and i: "inflight k1 = inflight k"
    and q: "snd_queue k1 = snd_queue k" "snd_nxt k1 = snd_nxt k" "snd_buf k1 = snd_buf k"
    by (simp_all add: flush_window_def inflight_def fields Let_def) (simp_all add: k1_def)
  have "unat (flush_window k) < 2 ^ 31"
    using flush_window_le(1) [of k] assms(2) by (simp add: word_le_nat_alt)
  then show ?thesis
    using flush_move_eq [of k1 "flush_window k1" "ikcp_wnd_unused k"] assms(1)
    by (simp add: flush_filled_def k1_def [symmetric] w i q fields c_def number_segs_cong [of k1 k] Let_def)
qed

lemma flush_filled_fit:
  assumes "segs_fit l k" "inflight k < 2 ^ 31" "unat (snd_wnd k) < 2 ^ 31"
  shows "\<forall>s \<in> set (snd_buf (flush_filled k)). fits l s"
proof -
  have "fits l s" if new: "s \<in> set (number_segs k wnd nxt (take c (snd_queue k)))" for s wnd nxt c
  proof -
    obtain t where "t \<in> set (take c (snd_queue k))" "content s = content t"
      using number_segs_set [OF new] by blast
    then show ?thesis
      using assms(1) fits_content [of s t] in_set_takeD [of t c "snd_queue k"] by (simp add: segs_fit_def)
  qed
  moreover have "fits l s" if "s \<in> set (snd_buf k)" for s
    using assms(1) that by (simp add: segs_fit_def)
  ultimately show ?thesis unfolding flush_filled_eq [OF assms(2,3)] by auto
qed

lemma flush_datagrams:
  assumes "updated k \<noteq> 0" "unat (ackcount k) < 2 ^ 31" "segs_fit l k" "inflight k < 2 ^ 31"
    "unat (snd_wnd k) < 2 ^ 31"
  shows "\<exists>ps. fst (ikcp_flush junk k) = map datagram ps \<and>
     (\<forall>p \<in> set ps. p \<noteq> [] \<and> length (datagram p) \<le> unat l) \<and>
     concat ps = flush_control junk k @ flush_sent k"
proof -
  obtain b and fl :: flush_loop where fl: "fst (ikcp_flush junk k) = ikcp_output (fl_out fl)"
    "fl_out fl = fold (put_segment (mtu k)) (flush_control junk k @ flush_sent k) ([], [])"
    using ikcp_flush_eq [OF assms(1,2)] by (metis fst_conv)
  have "fits l s" if "s \<in> set (flush_sent k)" for s
    using that sent_segs_load flush_filled_fit [OF assms(3-5)] fits_content
    unfolding flush_sent_def Let_def same_load_def by meson
  moreover have "fits l s" if "s \<in> set (flush_control junk k)" for s
    using that assms(3)
    by (auto simp: segs_fit_def flush_control_def Let_def probe_segs_def ack_seg_def flush_seg0_def
        fits_def seg_wf_def split: if_splits)
  ultimately have "\<forall>s \<in> set (flush_control junk k @ flush_sent k). fits l s" by auto
  then obtain ps cur where "packs l ps cur (fl_out fl)"
      "concat ps @ cur = flush_control junk k @ flush_sent k"
    using fold_put_segment_packs [of l "[]" "[]" "([], [])" "flush_control junk k @ flush_sent k" "mtu k"] assms(3)
    unfolding fl(2) by (auto simp: packs_def segs_fit_def)
  then show ?thesis
    using ikcp_output_packs [of l ps cur "fl_out fl"]
    by (intro exI [of _ "if cur = [] then ps else ps @ [cur]"]) (auto simp: fl(1) packs_def)
qed

lemma flush_cwnd_fields [simp]:
  "snd_buf (flush_cwnd w r c l k) = snd_buf k" "snd_queue (flush_cwnd w r c l k) = snd_queue k"
  "snd_nxt (flush_cwnd w r c l k) = snd_nxt k" "snd_una (flush_cwnd w r c l k) = snd_una k"
  "probe_wait (flush_cwnd w r c l k) = probe_wait k"
  by (simp_all add: flush_cwnd_def Let_def)

lemma flush_window_probe: "flush_window (flush_probe_timer (k\<lparr>ackcount := 0\<rparr>)) = flush_window k"
  by (simp add: flush_window_def flush_probe_timer_def Let_def)

lemma flush_conserves:
  fixes k :: ikcpcb and junk :: ikcpseg
  assumes "updated k \<noteq> 0" "unat (ackcount k) < 2 ^ 31" "inflight k < 2 ^ 31"
    "unat (snd_wnd k) < 2 ^ 31"
  defines "k' \<equiv> snd (ikcp_flush junk k)"
  defines "c \<equiv> min (length (snd_queue k)) (unat (flush_window k) - inflight k)"
  shows "map content (snd_buf k') @ map content (snd_queue k') = map content (snd_buf k) @ map content (snd_queue k)"
    "map seg_sn (snd_buf k') = map seg_sn (snd_buf k) @ map (\<lambda>i. snd_nxt k + of_nat i) [0..<c]"
    "snd_nxt k' = snd_nxt k + of_nat c" "snd_una k' = snd_una k" "snd_queue k' = drop c (snd_queue k)"
proof -
  obtain b and fl :: flush_loop where k': "k' = flush_cwnd (flush_window (flush_probe_timer (k\<lparr>ackcount := 0\<rparr>))) (flush_resent k)
         (fl_change fl \<noteq> 0) (fl_lost fl)
         ((flush_filled k)\<lparr>snd_buf := b, xmit := fl_xmit fl, state := fl_state fl\<rparr>)"
    and b: "list_all2 same_load b (snd_buf (flush_filled k))"
    using ikcp_flush_eq [OF assms(1,2)] unfolding k'_def by (metis snd_conv)
  note eq = flush_filled_eq [OF assms(3,4)]
  have m: "map content b = map content (snd_buf (flush_filled k))"
    "map seg_sn b = map seg_sn (snd_buf (flush_filled k))"
    using b by (induction rule: list_all2_induct) (simp_all add: same_load_def)
  have "map seg_sn (number_segs k wnd nxt (take c (snd_queue k))) = map (\<lambda>i. nxt + of_nat i) [0..<c]" for wnd nxt
    by (intro nth_equalityI) (auto simp: number_segs_nth new_seg_def c_def)
  then show "map seg_sn (snd_buf k') = map seg_sn (snd_buf k) @ map (\<lambda>i. snd_nxt k + of_nat i) [0..<c]"
    by (simp add: k' m eq c_def)
  show "map content (snd_buf k') @ map content (snd_queue k') = map content (snd_buf k) @ map content (snd_queue k)"
    by (simp add: k' m eq content_number_segs) (simp flip: map_append)
  show "snd_nxt k' = snd_nxt k + of_nat c" "snd_una k' = snd_una k" "snd_queue k' = drop c (snd_queue k)"
    by (simp_all add: k' eq c_def)
qed

lemma one_le_u32: "1 \<le> (w :: u32) \<longleftrightarrow> w \<noteq> 0"
  by (simp add: word_le_nat_alt Suc_le_eq unat_gt_0)

lemma flush_cwnd_pos: "1 \<le> cwnd (flush_cwnd w r c l k)"
  unfolding flush_cwnd_def Let_def by (simp add: not_less one_le_u32)

lemma cwnd_flush: "updated k \<noteq> 0 \<Longrightarrow> 1 \<le> cwnd (snd (ikcp_flush junk k))"
  by (simp only: ikcp_flush_def Let_def split_beta if_False snd_conv flush_cwnd_pos)

section \<open>Scheduling\<close>

lemma ikcp_check_window: 
  assumes "unat (interval k) < 2 ^ 31"
  shows "unat (ikcp_check k now - now) \<le> unat (interval k)"
  using assms by (auto simp: ikcp_check_def Let_def word_le_nat_alt split: option.splits)

end
