(* ===== verification/Kcp_Parse.thy ===== *)
theory Kcp_Parse
  imports Kcp_Flush_Props
begin

unbundle bit_operations_syntax

text \<open>
  Parsing of datagrams by \<open>ikcp_input\<close>: no byte beyond the datagram is read, the loop is a fold of one
  step per segment over a datagram built by \<open>ikcp_flush\<close>, and the fields each step can change. The last
  part shows that the receive side only sees the data segments of a datagram.
\<close>

section \<open>Parsing never reads past the datagram\<close>

lemma decode_header_fields:
  "decode_header d = Some ((cv, cmd, frg, wnd, ts, sn, una, len), r) \<longleftrightarrow>
     (\<exists>d1. ikcp_decode64u d = Some (cv, d1) \<and> decode_fields d1 = Some ((cmd, frg, wnd, ts, sn, una, len), r))"
  by (auto simp: decode_header_def bind_eq_Some_conv)

text \<open>One turn of the parsing loop on a segment that passes the checks.\<close>

definition known_cmd :: "u8 \<Rightarrow> bool" where
  "known_cmd cmd \<longleftrightarrow> ucast cmd \<in> {IKCP_CMD_PUSH, IKCP_CMD_ACK, IKCP_CMD_WASK, IKCP_CMD_WINS}"

fun input_seg ::
    "ikcpseg \<Rightarrow> header \<Rightarrow> bytes \<Rightarrow> ikcpcb \<times> bool \<times> u32 \<times> u32 \<Rightarrow> ikcpcb \<times> bool \<times> u32 \<times> u32" where
  "input_seg junk (cv, cmd, frg, wnd, ts, sn, una, len) body (k, a) =
     (let k = ikcp_shrink_buf (ikcp_parse_una (k\<lparr>rmt_wnd := ucast wnd\<rparr>) una)
      in if ucast cmd = IKCP_CMD_ACK then (input_ack k sn ts, input_maxack a sn ts)
         else if ucast cmd = IKCP_CMD_PUSH
         then (input_push k
                (junk\<lparr>seg_conv := cv, seg_cmd := ucast cmd, seg_frg := ucast frg, seg_wnd := ucast wnd,
                   seg_ts := ts, seg_sn := sn, seg_una := una, seg_len := len, seg_data := body\<rparr>), a)
         else if ucast cmd = IKCP_CMD_WASK then (k\<lparr>probe := probe k OR IKCP_ASK_TELL\<rparr>, a)
         else (k, a))"

declare input_seg.simps [simp del]

lemma input_loop_short: "length d < 28 \<Longrightarrow> input_loop junk d k a = Some (Inr (k, a))"
  by (subst input_loop.simps) (simp add: IKCP_OVERHEAD_def)

lemma input_loop_unfold:
  assumes "28 \<le> length d" "decode_header d = Some ((cv, cmd, frg, wnd, ts, sn, una, len), r)"
  shows "input_loop junk d k a =
    (if cv \<noteq> conv k then Some (Inl (-1, k))
     else if length r < unat len \<or> 2 ^ 31 \<le> unat len then Some (Inl (-2, k))
     else if \<not> known_cmd cmd then Some (Inl (-3, k))
     else case input_seg junk (cv, cmd, frg, wnd, ts, sn, una, len) (take (unat len) r) (k, a) of
            (k', a') \<Rightarrow> input_loop junk (drop (unat len) r) k' a')"
proof -
  obtain d1 where d1: "ikcp_decode64u d = Some (cv, d1)"
      "decode_fields d1 = Some ((cmd, frg, wnd, ts, sn, una, len), r)"
    using assms(2) by (auto simp: decode_header_fields)
  have bad: "(int (length r) < uint len \<or> sint len < 0) \<longleftrightarrow> (length r < unat len \<or> 2 ^ 31 \<le> unat len)"
    using sint_nonneg_iff [of len] of_nat_unat [of len, where ?'a = int] by linarith
  have un: "ucast cmd \<noteq> IKCP_CMD_PUSH \<and> ucast cmd \<noteq> IKCP_CMD_ACK \<and> ucast cmd \<noteq> IKCP_CMD_WASK \<and>
      ucast cmd \<noteq> IKCP_CMD_WINS \<longleftrightarrow> \<not> known_cmd cmd"
    by (auto simp: known_cmd_def)
  have len: "\<not> int (length d) < sint IKCP_OVERHEAD" using assms(1) by (simp add: IKCP_OVERHEAD_def)
  show ?thesis
    by (subst input_loop.simps) (simp only: len d1 option.case prod.case bad un if_False input_seg.simps Let_def
        split: if_split, simp add: ikcp_consts)
qed

lemma input_loop_safe: "input_loop junk d k a \<noteq> None"
proof (induction "length d" arbitrary: d k a rule: less_induct)
  case less
  show ?case
  proof (cases "length d < 28")
    case False
    then obtain h r where dec: "decode_header d = Some (h, r)" "length d = 28 + length r"
      using hdr.dec_total [of d] by auto
    obtain cv cmd frg wnd ts sn una len where h: "h = (cv, cmd, frg, wnd, ts, sn, una, len)"
      by (rule header_cases)
    show ?thesis
      using less.hyps [of "drop (unat len) r"] dec False
      by (simp add: input_loop_unfold [OF _ dec(1) [unfolded h]] split_beta)
  qed (simp add: input_loop_short)
qed

lemma ikcp_input_safe: "ikcp_input junk k d \<noteq> None"
  using input_loop_safe [of junk d k "(False, 0, 0)"]
  by (auto simp: ikcp_input_def Let_def split: option.splits sum.splits prod.splits)

section \<open>A datagram as its segments\<close>

definition seg_ok :: "u64 \<Rightarrow> ikcpseg \<Rightarrow> bool" where
  "seg_ok cv s \<longleftrightarrow> seg_conv s = cv \<and> seg_wf s \<and> unat (seg_len s) < 2 ^ 31 \<and> known_cmd (ucast (seg_cmd s))"

definition recv_seg :: "ikcpseg \<Rightarrow> ikcpseg \<Rightarrow> ikcpcb \<times> bool \<times> u32 \<times> u32 \<Rightarrow> ikcpcb \<times> bool \<times> u32 \<times> u32" where
  "recv_seg junk s st = input_seg junk (seg_header s) (seg_data s) st"

text \<open>The fields each step of the parser can change.\<close>

lemma ikcp_shrink_buf_shape [kcp_frame]:
  "ikcp_shrink_buf k = k\<lparr>snd_una := (case snd_buf k of s # _ \<Rightarrow> seg_sn s | [] \<Rightarrow> snd_nxt k)\<rparr>"
  by (simp add: ikcp_shrink_buf_def split: list.splits)

lemma ikcp_parse_una_shape [kcp_frame]:
  "ikcp_parse_una k una = k\<lparr>snd_buf := fst (una_remove una (snd_buf k) (nsnd_buf k)),
     nsnd_buf := snd (una_remove una (snd_buf k) (nsnd_buf k))\<rparr>"
  by (simp add: ikcp_parse_una_def split_beta)

lemma ikcp_parse_ack_shape: "\<exists>b n. ikcp_parse_ack k sn = k\<lparr>snd_buf := b, nsnd_buf := n\<rparr>"
proof (cases "itimediff sn (snd_una k) < 0 \<or> itimediff sn (snd_nxt k) \<ge> 0")
  case True
  then have "ikcp_parse_ack k sn = k\<lparr>snd_buf := snd_buf k, nsnd_buf := nsnd_buf k\<rparr>"
    by (simp add: ikcp_parse_ack_def)
  then show ?thesis by blast
qed (auto simp: ikcp_parse_ack_def split_beta)

lemma ikcp_update_ack_shape: "\<exists>a b c. ikcp_update_ack k rtt = k\<lparr>rx_srtt := a, rx_rttval := b, rx_rto := c\<rparr>"
  by (intro exI [of _ "rx_srtt (ikcp_update_ack k rtt)"] exI [of _ "rx_rttval (ikcp_update_ack k rtt)"]
      exI [of _ "rx_rto (ikcp_update_ack k rtt)"]) (simp add: ikcp_update_ack_def Let_def)

lemma input_rtt_shape:
  "\<exists>a b c. (if P then ikcp_update_ack k rtt else k) = k\<lparr>rx_srtt := a, rx_rttval := b, rx_rto := c\<rparr>"
proof (cases P)
  case False
  then have "(if P then ikcp_update_ack k rtt else k) =
      k\<lparr>rx_srtt := rx_srtt k, rx_rttval := rx_rttval k, rx_rto := rx_rto k\<rparr>" by simp
  then show ?thesis by blast
qed (use ikcp_update_ack_shape [of k rtt] in simp)

lemma input_ack_shape:
  "\<exists>a b c sb nb una. input_ack k sn ts = k\<lparr>rx_srtt := a, rx_rttval := b, rx_rto := c, snd_buf := sb,
     nsnd_buf := nb, snd_una := una\<rparr>"
proof -
  define k0 where "k0 = (if itimediff (current k) ts \<ge> 0 then ikcp_update_ack k (current k - ts) else k)"
  have "\<exists>a b c. k0 = k\<lparr>rx_srtt := a, rx_rttval := b, rx_rto := c\<rparr>"
    unfolding k0_def by (rule input_rtt_shape)
  then obtain a b c where k0: "k0 = k\<lparr>rx_srtt := a, rx_rttval := b, rx_rto := c\<rparr>" by blast
  obtain sb nb where "ikcp_parse_ack k0 sn = k0\<lparr>snd_buf := sb, nsnd_buf := nb\<rparr>"
    using ikcp_parse_ack_shape by blast
  then have "input_ack k sn ts = ikcp_shrink_buf (k0\<lparr>snd_buf := sb, nsnd_buf := nb\<rparr>)"
    by (simp add: input_ack_def k0_def Let_def)
  then show ?thesis unfolding ikcp_shrink_buf_shape k0 by blast
qed

lemma ikcp_ack_push_shape: "\<exists>l c b. ikcp_ack_push k sn ts = k\<lparr>acklist := l, ackcount := c, ackblock := b\<rparr>"
  by (intro exI [of _ "acklist (ikcp_ack_push k sn ts)"] exI [of _ "ackcount (ikcp_ack_push k sn ts)"]
      exI [of _ "ackblock (ikcp_ack_push k sn ts)"]) (simp add: ikcp_ack_push_def Let_def)

lemma move_available_shape:
  "\<exists>b n q m x. move_available k =
     k\<lparr>rcv_buf := b, nrcv_buf := n, rcv_queue := q, nrcv_que := m, rcv_nxt := x\<rparr>"
proof (induction k rule: move_available.induct)
  case (1 k)
  have same: "\<exists>b n q m x. k = k\<lparr>rcv_buf := b, nrcv_buf := n, rcv_queue := q, nrcv_que := m, rcv_nxt := x\<rparr>"
    by (intro exI [of _ "rcv_buf k"] exI [of _ "nrcv_buf k"] exI [of _ "rcv_queue k"]
        exI [of _ "nrcv_que k"] exI [of _ "rcv_nxt k"]) simp
  show ?case
  proof (cases "rcv_buf k")
    case (Cons s rest)
    then show ?thesis
      using 1 [OF Cons] same
      by (cases "seg_sn s = rcv_nxt k \<and> nrcv_que k < rcv_wnd k") (auto simp: move_available.simps [of k])
  qed (use same in \<open>simp add: move_available.simps [of k]\<close>)
qed

lemma ikcp_parse_data_shape:
  "\<exists>b n q m x. ikcp_parse_data k s =
     k\<lparr>rcv_buf := b, nrcv_buf := n, rcv_queue := q, nrcv_que := m, rcv_nxt := x\<rparr>"
proof (cases "itimediff (seg_sn s) (rcv_nxt k + rcv_wnd k) \<ge> 0 \<or> itimediff (seg_sn s) (rcv_nxt k) < 0")
  case True
  then have "ikcp_parse_data k s = k\<lparr>rcv_buf := rcv_buf k, nrcv_buf := nrcv_buf k,
      rcv_queue := rcv_queue k, nrcv_que := nrcv_que k, rcv_nxt := rcv_nxt k\<rparr>"
    by (simp add: ikcp_parse_data_def)
  then show ?thesis by blast
next
  case False
  obtain q r where "rcv_insert s (rev (rcv_buf k)) = (q, r)" by fastforce
  with False show ?thesis
    using move_available_shape [of "if r then k else k\<lparr>rcv_buf := rev q, nrcv_buf := nrcv_buf k + 1\<rparr>"]
    by (auto simp: ikcp_parse_data_def Let_def split: if_splits)
qed

lemma input_push_shape:
  "\<exists>l c bl b n q m x. input_push k s = k\<lparr>acklist := l, ackcount := c, ackblock := bl, rcv_buf := b,
     nrcv_buf := n, rcv_queue := q, nrcv_que := m, rcv_nxt := x\<rparr>"
proof (cases "itimediff (seg_sn s) (rcv_nxt k + rcv_wnd k) < 0")
  case False
  then have "input_push k s = k\<lparr>acklist := acklist k, ackcount := ackcount k, ackblock := ackblock k,
      rcv_buf := rcv_buf k, nrcv_buf := nrcv_buf k, rcv_queue := rcv_queue k, nrcv_que := nrcv_que k,
      rcv_nxt := rcv_nxt k\<rparr>"
    by (simp add: input_push_def)
  then show ?thesis by blast
next
  case True
  obtain l c bl where "ikcp_ack_push k (seg_sn s) (seg_ts s) = k\<lparr>acklist := l, ackcount := c, ackblock := bl\<rparr>"
    using ikcp_ack_push_shape by blast
  with ikcp_parse_data_shape [of "ikcp_ack_push k (seg_sn s) (seg_ts s)" s]
  obtain b n q m x where "ikcp_parse_data (ikcp_ack_push k (seg_sn s) (seg_ts s)) s =
      k\<lparr>acklist := l, ackcount := c, ackblock := bl, rcv_buf := b, nrcv_buf := n, rcv_queue := q,
         nrcv_que := m, rcv_nxt := x\<rparr>" by auto
  then have "input_push k s = k\<lparr>acklist := l, ackcount := c, ackblock := bl, rcv_buf := b, nrcv_buf := n,
      rcv_queue := q, nrcv_que := m, rcv_nxt := x\<rparr>"
    using True by (simp add: input_push_eq)
  then show ?thesis by blast
qed

lemma input_seg_conv: "conv (fst (input_seg junk h body (k, a))) = conv k"
proof -
  obtain cv cmd frg wnd ts sn una len where h: "h = (cv, cmd, frg, wnd, ts, sn, una, len)"
    by (rule header_cases)
  have "conv (input_ack k' sn ts) = conv k'" "conv (input_push k' s) = conv k'" for k' s
    using input_ack_shape [of k' sn ts] input_push_shape [of k' s] by auto
  then show ?thesis by (simp add: h input_seg.simps Let_def kcp_frame)
qed

lemma input_loop_wire:
  assumes "seg_ok (conv k) s"
  shows "input_loop junk (wire s @ r) k a =
     (case recv_seg junk s (k, a) of (k', a') \<Rightarrow> input_loop junk r k' a')"
proof -
  have w: "wire s @ r = encode_header [] (seg_header s) @ seg_data s @ r" 
    using assms by (simp add: wire_def ikcp_encode_seg_header seg_ok_def payload_wf)
  have dec: "decode_header (wire s @ r) = Some (seg_header s, seg_data s @ r)"
    by (simp only: w hdr.dec_img)
  have len: "length (seg_data s) = unat (seg_len s)" "28 \<le> length (wire s @ r)"
    using assms length_wire [of s] by (simp_all add: seg_ok_def seg_wf_def)
  show ?thesis
    using assms len input_loop_unfold [OF len(2) dec [unfolded seg_header.simps], of junk k a]
    by (simp add: seg_ok_def recv_seg_def seg_header.simps)
qed

lemma input_loop_datagram:
  assumes "\<forall>s \<in> set ss. seg_ok (conv k) s"
  shows "input_loop junk (datagram ss) k a = Some (Inr (fold (recv_seg junk) ss (k, a)))"
  using assms
proof (induction ss arbitrary: k a)
  case Nil
  then show ?case by (simp add: input_loop_short)
next
  case (Cons s ss)
  obtain k' a' where st: "recv_seg junk s (k, a) = (k', a')"
    by (cases "recv_seg junk s (k, a)")
  then have "conv k' = conv k"
    using input_seg_conv [of junk "seg_header s" "seg_data s" k a] by (simp add: recv_seg_def)
  then show ?case
    using Cons input_loop_wire [of k s junk "datagram ss" a] by (simp add: st)
qed

section \<open>What a datagram does to the receive side\<close>

definition rcv_view :: "ikcpcb \<Rightarrow> ikcpseg list \<times> ikcpseg list \<times> u32 \<times> u32 \<times> u32 \<times> u32" where
  "rcv_view k = (rcv_queue k, rcv_buf k, rcv_nxt k, rcv_wnd k, nrcv_que k, nrcv_buf k)"

lemma rcv_view_eq_iff:
  "rcv_view k = rcv_view k' \<longleftrightarrow> rcv_queue k = rcv_queue k' \<and> rcv_buf k = rcv_buf k' \<and>
     rcv_nxt k = rcv_nxt k' \<and> rcv_wnd k = rcv_wnd k' \<and> nrcv_que k = nrcv_que k' \<and> nrcv_buf k = nrcv_buf k'"
  by (auto simp: rcv_view_def)

lemma tracks_view: "rcv_view k = rcv_view k' \<Longrightarrow> tracks f m n k \<longleftrightarrow> tracks f m n k'"
  by (simp add: rcv_view_eq_iff tracks_def rcv_inv_def)

lemma move_available_view:
  "rcv_view k = rcv_view k' \<Longrightarrow> rcv_view (move_available k) = rcv_view (move_available k')"
proof (induction k arbitrary: k' rule: move_available.induct)
  case (1 k)
  note eq = "1.prems" [unfolded rcv_view_eq_iff]
  show ?case
  proof (cases "rcv_buf k")
    case (Cons s rest)
    then have Cons': "rcv_buf k' = s # rest" using eq by simp
    let ?up = "\<lambda>k. k\<lparr>rcv_buf := rest, nrcv_buf := nrcv_buf k - 1,
          rcv_queue := rcv_queue k @ [s], nrcv_que := nrcv_que k + 1, rcv_nxt := rcv_nxt k + 1\<rparr>"
    show ?thesis
    proof (cases "seg_sn s = rcv_nxt k \<and> nrcv_que k < rcv_wnd k")
      case True
      then have True': "seg_sn s = rcv_nxt k' \<and> nrcv_que k' < rcv_wnd k'" using eq by simp
      have "move_available k = move_available (?up k)" "move_available k' = move_available (?up k')"
        using Cons Cons' True True' by (simp_all add: move_available.simps [of k] move_available.simps [of k'])
      moreover have "rcv_view (?up k) = rcv_view (?up k')" using eq by (simp add: rcv_view_eq_iff)
      ultimately show ?thesis using "1.IH" [OF Cons True] by metis
    next
      case False
      then have "\<not> (seg_sn s = rcv_nxt k' \<and> nrcv_que k' < rcv_wnd k')" using eq by simp
      with Cons Cons' False have "move_available k = k" "move_available k' = k'"
        by (auto simp: move_available.simps [of k] move_available.simps [of k'])
      then show ?thesis using "1.prems" by simp
    qed
  next
    case Nil
    then have "rcv_buf k' = []" using eq by simp
    with Nil show ?thesis
      using "1.prems" by (simp add: move_available.simps [of k] move_available.simps [of k'])
  qed
qed

lemma parse_data_view:
  assumes "rcv_view k = rcv_view k'"
  shows "rcv_view (ikcp_parse_data k s) = rcv_view (ikcp_parse_data k' s)"
proof -
  note eq = assms [unfolded rcv_view_eq_iff]
  obtain q r where ins: "rcv_insert s (rev (rcv_buf k)) = (q, r)" by fastforce
  let ?up = "\<lambda>k. if r then k else k\<lparr>rcv_buf := rev q, nrcv_buf := nrcv_buf k + 1\<rparr>"
  have "rcv_view (?up k) = rcv_view (?up k')" using eq by (simp add: rcv_view_eq_iff)
  then have up: "rcv_view (move_available (?up k)) = rcv_view (move_available (?up k'))"
    by (rule move_available_view)
  let ?c = "itimediff (seg_sn s) (rcv_nxt k + rcv_wnd k) \<ge> 0 \<or> itimediff (seg_sn s) (rcv_nxt k) < 0"
  have pd: "ikcp_parse_data k s = (if ?c then k else move_available (?up k))"
    by (simp add: ikcp_parse_data_def Let_def ins)
  have pd': "ikcp_parse_data k' s = (if ?c then k' else move_available (?up k'))"
    using ins eq by (simp add: ikcp_parse_data_def Let_def)
  show ?thesis
    by (cases ?c) (simp_all only: pd pd' if_True if_False assms up)
qed

lemma input_push_view: "rcv_view (input_push k s) = rcv_view (ikcp_parse_data k s)"
proof (cases "itimediff (seg_sn s) (rcv_nxt k + rcv_wnd k) < 0")
  case True
  then have "input_push k s = ikcp_parse_data (ikcp_ack_push k (seg_sn s) (seg_ts s)) s"
    by (simp add: input_push_eq)
  moreover have "rcv_view (ikcp_ack_push k (seg_sn s) (seg_ts s)) = rcv_view k"
    using ikcp_ack_push_shape [of k "seg_sn s" "seg_ts s"] by (auto simp: rcv_view_eq_iff)
  ultimately show ?thesis using parse_data_view by metis
qed (simp add: input_push_def ikcp_parse_data_def)

definition is_push :: "ikcpseg \<Rightarrow> bool" where
  "is_push s \<longleftrightarrow> ucast (ucast (seg_cmd s) :: u8) = IKCP_CMD_PUSH"

text \<open>The segment \<open>ikcp_input\<close> rebuilds from the header and data of \<open>s\<close>.\<close>

definition rebuilt :: "ikcpseg \<Rightarrow> ikcpseg \<Rightarrow> ikcpseg" where
  "rebuilt junk s = junk\<lparr>seg_conv := seg_conv s, seg_cmd := ucast (ucast (seg_cmd s) :: u8),
     seg_frg := ucast (ucast (seg_frg s) :: u8), seg_wnd := ucast (ucast (seg_wnd s) :: u16),
     seg_ts := seg_ts s, seg_sn := seg_sn s, seg_una := seg_una s, seg_len := seg_len s,
     seg_data := seg_data s\<rparr>"

lemma recv_seg_view:
  "rcv_view (fst (recv_seg junk s (k, a))) =
     rcv_view (if is_push s then ikcp_parse_data k (rebuilt junk s) else k)"
proof -
  define k0 where "k0 = ikcp_shrink_buf (ikcp_parse_una (k\<lparr>rmt_wnd := ucast (ucast (seg_wnd s) :: u16)\<rparr>) (seg_una s))"
  have k0: "rcv_view k0 = rcv_view k" by (simp add: k0_def kcp_frame rcv_view_eq_iff)
  have "rcv_view (input_ack k0 sn ts) = rcv_view k0" for sn ts
    using input_ack_shape [of k0 sn ts] by (auto simp: rcv_view_eq_iff)
  moreover have "rcv_view (k0\<lparr>probe := p\<rparr>) = rcv_view k0" for p by (simp add: rcv_view_eq_iff)
  moreover have "rcv_view (input_push k0 (rebuilt junk s)) = rcv_view (ikcp_parse_data k (rebuilt junk s))"
    using input_push_view parse_data_view [OF k0] by simp
  moreover have "IKCP_CMD_PUSH \<noteq> IKCP_CMD_ACK" "IKCP_CMD_PUSH \<noteq> IKCP_CMD_WASK" by (simp_all add: ikcp_consts)
  ultimately show ?thesis
    using k0 unfolding recv_seg_def seg_header.simps input_seg.simps Let_def k0_def [symmetric] is_push_def
      rebuilt_def [symmetric] by (auto simp: rebuilt_def)
qed

lemma fold_recv_seg_view:
  "rcv_view (fst (fold (recv_seg junk) ss (k, a))) =
     rcv_view (fold (\<lambda>s k. ikcp_parse_data k s) (map (rebuilt junk) (filter is_push ss)) k)"
proof (induction ss rule: rev_induct)
  case (snoc s ss)
  obtain k1 a1 where st: "fold (recv_seg junk) ss (k, a) = (k1, a1)"
    by (cases "fold (recv_seg junk) ss (k, a)")
  then show ?case
    using snoc recv_seg_view [of junk s k1 a1]
      parse_data_view [of k1 "fold (\<lambda>s k. ikcp_parse_data k s) (map (rebuilt junk) (filter is_push ss)) k"]
    by simp
qed simp

lemma ikcp_parse_fastack_view: "rcv_view (ikcp_parse_fastack k sn ts) = rcv_view k"
  by (simp add: ikcp_parse_fastack_def rcv_view_eq_iff)

lemma input_cwnd_view: "rcv_view (input_cwnd k u) = rcv_view k"
  by (simp add: input_cwnd_def rcv_view_eq_iff Let_def)

lemma fold_recv_seg_conv: "conv (fst (fold (recv_seg junk) ss (k, a))) = conv k"
proof (induction ss rule: rev_induct)
  case (snoc s ss)
  then show ?case
    using input_seg_conv [of junk "seg_header s" "seg_data s", folded recv_seg_def]
    by (cases "fold (recv_seg junk) ss (k, a)") simp
qed simp

lemma input_cwnd_conv: "conv k1 = conv k \<Longrightarrow>
    conv (input_cwnd (if flag then ikcp_parse_fastack k1 sn ts else k1) u) = conv k"
  by (simp add: input_cwnd_def ikcp_parse_fastack_def Let_def)

lemma ikcp_input_datagram:
  assumes "\<forall>s \<in> set ss. seg_ok (conv k) s" "ss \<noteq> []" "length (datagram ss) < 2 ^ 31"
  obtains k' where "ikcp_input junk k (datagram ss) = Some (0, k')" "conv k' = conv k"
    "rcv_view k' = rcv_view (fold (\<lambda>s k. ikcp_parse_data k s) (map (rebuilt junk) (filter is_push ss)) k)"
proof -
  obtain k1 flag maxack ts where st: "fold (recv_seg junk) ss (k, False, 0, 0) = (k1, flag, maxack, ts)"
    by (cases "fold (recv_seg junk) ss (k, False, 0, 0)")
  obtain s ss' where ss: "ss = s # ss'" using assms(2) by (cases ss) auto
  have "28 \<le> length (datagram ss)"
    using assms(1) length_wire [of s] by (simp add: ss seg_ok_def)
  then have big: "\<not> sint (word_of_nat (length (datagram ss)) :: u32) < sint IKCP_OVERHEAD"
    using assms(3) by (subst sint_small) (simp_all add: unat_of_nat_u32 IKCP_OVERHEAD_def)
  let ?k = "input_cwnd (if flag then ikcp_parse_fastack k1 maxack ts else k1) (snd_una k)"
  have 1: "ikcp_input junk k (datagram ss) = Some (0, ?k)"
    using big input_loop_datagram [OF assms(1), of junk "(False, 0, 0)"] st
    by (simp add: ikcp_input_def Let_def)
  have 2: "conv ?k = conv k"
    using fold_recv_seg_conv [of junk ss k "(False, 0, 0)"] st by (intro input_cwnd_conv) simp
  have 3: "rcv_view ?k = rcv_view (fold (\<lambda>s k. ikcp_parse_data k s) (map (rebuilt junk) (filter is_push ss)) k)"
    using fold_recv_seg_view [of junk ss k "(False, 0, 0)"] st
    by (simp add: input_cwnd_view ikcp_parse_fastack_view)
  show thesis by (rule that [OF 1 2 3])
qed

section \<open>Return codes\<close>

lemma input_loop_codes:
  "input_loop junk d k a = Some (Inl (r, k')) \<Longrightarrow> r \<in> {-1, -2, -3}"
proof (induction "length d" arbitrary: d k a rule: less_induct)
  case less
  have len: "\<not> length d < 28" using less.prems input_loop_short [of d junk k a] by auto
  then obtain h rr where dec: "decode_header d = Some (h, rr)" "length d = 28 + length rr"
    using hdr.dec_total [of d] by auto
  obtain cv cmd frg wnd ts sn una len where h: "h = (cv, cmd, frg, wnd, ts, sn, una, len)"
    by (rule header_cases)
  have "28 \<le> length d" using len by simp
  then show ?case
    using less.prems less.hyps [of "drop (unat len) rr"] dec(2)
    by (auto simp: input_loop_unfold [OF _ dec(1) [unfolded h]] split: if_splits prod.splits)
qed

lemma ikcp_input_codes: "ikcp_input junk k d = Some (r, k') \<Longrightarrow> r \<in> {0, -1, -2, -3}"
  using input_loop_codes [of junk d k "(False, 0, 0)"]
  by (auto simp: ikcp_input_def Let_def split: if_splits option.splits sum.splits prod.splits)

end
