(* ===== verification/Kcp_Link.thy ===== *)
theory Kcp_Link
  imports Kcp_Parse
begin

unbundle bit_operations_syntax

text \<open>
  Two endpoints: a message handed to \<open>ikcp_send\<close> on one side, flushed into datagrams, delivered by a
  network that reorders and repeats them, and read with \<open>ikcp_recv\<close> on the other side.
\<close>

section \<open>From one side to the other\<close>

definition input_all :: "ikcpseg \<Rightarrow> bytes list \<Rightarrow> ikcpcb \<Rightarrow> ikcpcb" where
  "input_all junk ds k = fold (\<lambda>d k. case ikcp_input junk k d of Some (_, k') \<Rightarrow> k' | None \<Rightarrow> k) ds k"

lemma fold_parse_data_view:
  assumes "rcv_view k1 = rcv_view k2"
  shows "rcv_view (fold (\<lambda>s k. ikcp_parse_data k s) ss k1) = rcv_view (fold (\<lambda>s k. ikcp_parse_data k s) ss k2)"
  using assms
proof (induction ss arbitrary: k1 k2)
  case (Cons s ss)
  show ?case using Cons.IH [OF parse_data_view [OF Cons.prems]] by simp
qed simp

lemma input_all_view:
  assumes "\<forall>p \<in> set ps. p \<noteq> [] \<and> length (datagram p) < 2 ^ 31 \<and> (\<forall>s \<in> set p. seg_ok (conv k) s)"
  shows "rcv_view (input_all junk (map datagram ps) k) =
     rcv_view (fold (\<lambda>s k. ikcp_parse_data k s) (map (rebuilt junk) (filter is_push (concat ps))) k) \<and>
     conv (input_all junk (map datagram ps) k) = conv k"
  using assms
proof (induction ps rule: rev_induct)
  case (snoc p ps)
  let ?k = "input_all junk (map datagram ps) k"
  let ?f = "fold (\<lambda>s k. ikcp_parse_data k s)"
  have IH: "rcv_view ?k = rcv_view (?f (map (rebuilt junk) (filter is_push (concat ps))) k)" "conv ?k = conv k"
    using snoc by auto
  obtain k' where k': "ikcp_input junk ?k (datagram p) = Some (0, k')" "conv k' = conv ?k"
      "rcv_view k' = rcv_view (?f (map (rebuilt junk) (filter is_push p)) ?k)"
    using ikcp_input_datagram [of p ?k junk] snoc.prems IH(2) by auto
  have "rcv_view k' = rcv_view (?f (map (rebuilt junk) (filter is_push (concat (ps @ [p])))) k)"
    using k'(3) fold_parse_data_view [OF IH(1), of "map (rebuilt junk) (filter is_push p)"]
    by (simp only: concat_append filter_append map_append fold_append comp_apply concat.simps append_Nil2)
  moreover have "input_all junk (map datagram (ps @ [p])) k = k'"
    using k'(1) by (simp add: input_all_def)
  ultimately show ?case using k'(2) IH(2) by simp
qed (simp add: input_all_def)

lemma sent_segs_fresh:
  "\<forall>s \<in> set b. seg_xmit s = 0 \<Longrightarrow> list_all2 same_load (sent_segs k r rt wnd b) b"
  by (induction b) (auto simp: flush_decide_def stamp_def same_load_def content_def)

lemma flush_control_not_push: "filter is_push (flush_control junk k) = []"
  by (auto simp: filter_empty_conv flush_control_def Let_def probe_segs_def ack_seg_def flush_seg0_def
      is_push_def ikcp_consts split: if_splits)

lemma flush_control_ok: "s \<in> set (flush_control junk k) \<Longrightarrow> seg_ok (conv k) s"
  by (auto simp: flush_control_def Let_def probe_segs_def ack_seg_def flush_seg0_def seg_ok_def
      seg_wf_def known_cmd_def ikcp_consts split: if_splits)

lemma is_message_content:
  assumes "map content segs = map content segs'" "is_message segs b"
  shows "is_message segs' b"
proof -
  have len: "length segs = length segs'" using arg_cong [OF assms(1), of length] by simp
  have "list_all2 (\<lambda>s t. content s = content t) segs segs'"
    using assms(1) by (simp add: list_all2_conv_all_nth len) (metis len nth_map)
  then have "map seg_data segs = map seg_data segs'" "map seg_frg segs = map seg_frg segs'"
    "(\<forall>s \<in> set segs. seg_wf s) \<longleftrightarrow> (\<forall>s \<in> set segs'. seg_wf s)"
    by (induction rule: list_all2_induct) (auto simp: content_def seg_wf_def)
  then show ?thesis using assms(2) len unfolding is_message_def by (cases segs') auto
qed

lemma rebuilt_content:
  assumes "unat (seg_frg s) < 256"
  shows "content (rebuilt junk s) = content s"
proof -
  have "ucast (ucast (seg_frg s) :: u8) = take_bit 8 (seg_frg s)" by (rule ucast_ucast_u8)
  also have "\<dots> = seg_frg s"
    using assms by (simp add: word_unat_eq_iff unsigned_take_bit_eq take_bit_nat_eq_self)
  finally show ?thesis by (simp add: content_def rebuilt_def)
qed

lemma message_frg_small:
  assumes "is_message segs b" "length segs < 128" "s \<in> set segs"
  shows "unat (seg_frg s) < 256"
proof -
  have "seg_frg s \<in> set (map seg_frg segs)" using assms(3) by simp
  also have "map seg_frg segs = map of_nat (rev [0..<length segs])" using assms(1) by (simp add: is_message_def)
  finally obtain i where "i < length segs" "seg_frg s = of_nat i" by auto
  then show ?thesis using assms(2) by (simp add: unat_of_nat_u32)
qed


text \<open>
  The data segments of a flush, received in any order and any number of times by a receiver that
  waits for the first of them, are in its queue afterwards, in the sender's order.
\<close>

lemma transfer_segments:
  assumes load: "list_all2 same_load ss (number_segs k1 wnd nxt segs)" and len: "length segs < 128"
    and frg: "\<forall>s \<in> set segs. unat (seg_frg s) < 256"
    and rcv: "rcv_inv k2" "rcv_queue k2 = []" "rcv_buf k2 = []" "rcv_nxt k2 = nxt"
    "length segs \<le> unat (rcv_wnd k2)" and rs: "set rs = set ss"
  shows "map content (rcv_queue (fold (\<lambda>s k. ikcp_parse_data k s) (map (rebuilt junk) rs) k2)) = map content segs"
proof -
  define n where "n = unat nxt"
  define f where "f i = content (segs ! (i - n))" for i
  define pos where "pos s = n + unat (seg_sn s - nxt)" for s :: ikcpseg
  have ln: "length ss = length segs" using list_all2_lengthD [OF load] by simp
  have nth: "seg_sn (ss ! j) = nxt + of_nat j" "content (ss ! j) = content (segs ! j)" if "j < length segs" for j
    using that list_all2_nthD [OF load, of j] ln
    by (auto simp: same_load_def number_segs_nth new_seg_def content_def)
  have pos: "pos (ss ! j) = n + j" if "j < length segs" for j
    using that nth(1) len unat_of_nat_u32 [of j] by (simp add: pos_def)
  have at: "is_nth f (pos s) (rebuilt junk s)" if mem: "s \<in> set ss" for s
  proof -
    obtain j where j: "j < length segs" "s = ss ! j" using mem ln by (auto simp: in_set_conv_nth)
    have "unat (seg_frg s) < 256" using frg j nth(2) by (auto simp: content_def)
    then have c: "content (rebuilt junk s) = content (segs ! j)"
      using j nth(2) rebuilt_content [of s junk] by simp
    have "seg_sn (rebuilt junk s) = of_nat (n + j)"
      using j nth(1) by (simp add: rebuilt_def n_def of_nat_unat)
    with c j pos show ?thesis by (simp add: is_nth_def f_def)
  qed
  have tr: "tracks f n n k2" using rcv by (simp add: tracks_def n_def of_nat_unat)
  have "pos ` set ss = {n..<n + length segs}"
  proof -
    have "map pos ss = map (\<lambda>j. n + j) [0..<length segs]"
      using pos ln by (intro nth_equalityI) auto
    then have "set (map pos ss) = set (map (\<lambda>j. n + j) [0..<length segs])" by simp
    then show ?thesis by (simp add: image_add_atLeastLessThan add.commute)
  qed
  then have "set (map pos rs) = {n..<n + length segs}" using rs by simp
  moreover have "list_all2 (is_nth f) (map pos rs) (map (rebuilt junk) rs)"
    unfolding list_all2_map1 list_all2_map2 by (rule list.rel_refl_strong) (use at rs in simp)
  ultimately have "tracks f n (n + length segs) (fold (\<lambda>s k. ikcp_parse_data k s) (map (rebuilt junk) rs) k2)"
    using any_order_delivery [OF tr rcv(3)] rcv(2,5) by auto
  then have "map content (rcv_queue (fold (\<lambda>s k. ikcp_parse_data k s) (map (rebuilt junk) rs) k2)) =
      map f [n..<n + length segs]" by (simp add: tracks_def)
  also have "\<dots> = map content segs"
    by (intro nth_equalityI) (auto simp: f_def)
  finally show ?thesis .
qed

text \<open>The sender: one message in the send queue, nothing in flight, and a window that takes all of it.\<close>

lemma flush_message:
  assumes msg: "is_message (snd_queue k) b" "\<forall>s \<in> set (snd_queue k). seg_len s \<le> mss k"
      "length (snd_queue k) \<le> unat (flush_window k)"
    and st: "mtu k = mss k + 28" "unat (mss k) + 28 < 2 ^ 31" "snd_buf k = []" "snd_una k = snd_nxt k"
      "updated k \<noteq> 0" "unat (ackcount k) < 2 ^ 31" "unat (snd_wnd k) < 2 ^ 31"
  obtains ps wnd ss where "fst (ikcp_flush junk k) = map datagram ps"
    "\<forall>p \<in> set ps. p \<noteq> [] \<and> length (datagram p) < 2 ^ 31 \<and> (\<forall>s \<in> set p. seg_ok (conv k) s)"
    "list_all2 same_load ss (number_segs k wnd (snd_nxt k) (snd_queue k))"
    "{s \<in> set (concat ps). is_push s} = set ss"
proof -
  let ?new = "number_segs k (ikcp_wnd_unused k) (snd_nxt k) (snd_queue k)"
  have m28: "unat (mtu k) = unat (mss k) + 28" using st(1,2) by (simp add: unat_add_small)
  have fit: "segs_fit (mtu k) k"
    using msg m28 st(2,3) by (auto simp: segs_fit_def fits_def is_message_def word_le_nat_alt)
  have flight: "inflight k = 0" using st(4) by (simp add: inflight_def)
  obtain ps where ps: "fst (ikcp_flush junk k) = map datagram ps"
      "\<forall>p \<in> set ps. p \<noteq> [] \<and> length (datagram p) \<le> unat (mtu k)"
      "concat ps = flush_control junk k @ flush_sent k"
    using flush_datagrams [of k "mtu k" junk] fit flight st by auto
  have filled: "snd_buf (flush_filled k) = ?new"
    using flush_filled_eq [of k] flight st(3,7) msg(3) by simp
  have "\<forall>s \<in> set ?new. seg_xmit s = 0"
    by (auto simp: in_set_conv_nth number_segs_nth new_seg_def)
  then have sent: "list_all2 same_load (flush_sent k) ?new"
    using sent_segs_fresh by (simp add: flush_sent_def filled Let_def)
  have sent_ok: "seg_ok (conv k) s \<and> is_push s" if mem: "s \<in> set (flush_sent k)" for s
  proof -
    obtain j where j: "j < length (snd_queue k)" "s = flush_sent k ! j"
      using mem list_all2_lengthD [OF sent] by (auto simp: in_set_conv_nth)
    have l: "same_load s (new_seg k (ikcp_wnd_unused k) (snd_nxt k + of_nat j) (snd_queue k ! j))"
      using list_all2_nthD2 [OF sent, of j] j by (simp add: number_segs_nth)
    have c: "seg_wf (snd_queue k ! j)" "unat (seg_len (snd_queue k ! j)) < 2 ^ 31"
      using msg(1,2) j(1) st(2) by (auto simp: is_message_def word_le_nat_alt dest!: nth_mem)
    then show ?thesis
      using l by (simp add: same_load_def new_seg_def content_def seg_ok_def is_push_def seg_wf_def
          known_cmd_def ikcp_consts)
  qed
  have all_ok: "seg_ok (conv k) s" if "s \<in> set (concat ps)" for s
    using that sent_ok flush_control_ok [of s junk k] unfolding ps(3) by auto
  show thesis
  proof (rule that [OF ps(1) _ sent])
    show "\<forall>p \<in> set ps. p \<noteq> [] \<and> length (datagram p) < 2 ^ 31 \<and> (\<forall>s \<in> set p. seg_ok (conv k) s)"
    proof
      fix p
      assume p: "p \<in> set ps"
      then have "p \<noteq> []" "length (datagram p) \<le> unat (mtu k)" using ps(2) by auto
      moreover have "\<forall>s \<in> set p. seg_ok (conv k) s" using p all_ok by auto
      ultimately show "p \<noteq> [] \<and> length (datagram p) < 2 ^ 31 \<and> (\<forall>s \<in> set p. seg_ok (conv k) s)"
        using m28 st(2) by simp
    qed
    show "{s \<in> set (concat ps). is_push s} = set (flush_sent k)"
      unfolding ps(3) using flush_control_not_push [of junk k] sent_ok by (auto simp: filter_empty_conv)
  qed
qed

text \<open>The receiver: datagrams with one message's segments, in any order, leave it ready to be read.\<close>

lemma receive_message:
  assumes msg: "is_message segs b" "length segs < 128" "length b < 2 ^ 31" "int (length b) \<le> len"
    and load: "list_all2 same_load ss (number_segs k1 wnd nxt segs)"
    and net: "\<forall>p \<in> set qs. p \<noteq> [] \<and> length (datagram p) < 2 ^ 31 \<and> (\<forall>s \<in> set p. seg_ok (conv k2) s)"
      "{s \<in> set (concat qs). is_push s} = set ss"
    and rcv: "rcv_inv k2" "rcv_queue k2 = []" "rcv_buf k2 = []" "rcv_nxt k2 = nxt"
      "length segs \<le> unat (rcv_wnd k2)"
  shows "\<exists>k'. ikcp_recv (input_all junk (map datagram qs) k2) True len = (int (length b), b, k')"
proof -
  let ?k = "input_all junk (map datagram qs) k2"
  let ?k' = "fold (\<lambda>s k. ikcp_parse_data k s) (map (rebuilt junk) (filter is_push (concat qs))) k2"
  have view: "rcv_view ?k = rcv_view ?k'"
    using input_all_view [OF net(1)] by (rule conjunct1)
  have frg: "\<forall>s \<in> set segs. unat (seg_frg s) < 256"
    using message_frg_small [OF msg(1,2)] by blast
  have push: "set (filter is_push (concat qs)) = set ss" using net(2) by auto
  have q: "map content (rcv_queue ?k') = map content segs"
    by (rule transfer_segments [OF load msg(2) frg rcv push])
  have "rcv_inv ?k'"
    using rcv(1) by (rule fold_invariant [where Q = "\<lambda>_. True", OF TrueI]) (rule ikcp_parse_data_inv)
  then have inv: "rcv_inv ?k" using view unfolding rcv_view_eq_iff rcv_inv_def by metis
  have "rcv_queue ?k = rcv_queue ?k'" using view unfolding rcv_view_eq_iff by metis
  then have "is_message (rcv_queue ?k) b" using is_message_content [OF q [symmetric] msg(1)] by simp
  then show ?thesis
    using ikcp_recv_message [of "rcv_queue ?k" b ?k "[]" len] msg(3,4) inv by (auto simp: rcv_inv_def)
qed

text \<open>
  The whole way: one message through \<open>ikcp_send\<close> and \<open>ikcp_flush\<close> of an idle sender, a network that
  delivers every datagram at least once in any order, \<open>ikcp_input\<close> and \<open>ikcp_recv\<close> of the peer.
\<close>

lemma message_arrives:
  fixes k1 k2 :: ikcpcb
  assumes mal: "\<And>i. mal i = Some (blk i)"
    and snd: "0 < unat (mss k1)" "mtu k1 = mss k1 + 28" "unat (mss k1) + 28 < 2 ^ 31" "stream k1 = 0"
      "snd_queue k1 = []" "snd_buf k1 = []" "snd_una k1 = snd_nxt k1" "updated k1 \<noteq> 0"
      "unat (ackcount k1) < 2 ^ 31" "unat (snd_wnd k1) < 2 ^ 31"
    and msg: "length b < 2 ^ 31" "frag_count (unat (mss k1)) (length b) < 128"
      "frag_count (unat (mss k1)) (length b) \<le> unat (flush_window k1)"
    and rcv: "conv k2 = conv k1" "rcv_inv k2" "rcv_queue k2 = []" "rcv_buf k2 = []"
      "rcv_nxt k2 = snd_nxt k1" "frag_count (unat (mss k1)) (length b) \<le> unat (rcv_wnd k2)"
    and outs: "outs = fst (ikcp_flush j1 (snd (ikcp_send mal k1 (Some b) (int (length b)))))"
    and ix: "set ix = {..<length outs}" and len: "int (length b) \<le> len"
  shows "\<exists>k'. ikcp_recv (input_all j2 (map (nth outs) ix) k2) True len = (int (length b), b, k')"
proof -
  have mss: "unat (mss k1) < 2 ^ 31" using snd(3) by simp
  obtain segs where send: "ikcp_send mal k1 (Some b) (int (length b)) =
        (0, k1\<lparr>snd_queue := snd_queue k1 @ segs, nsnd_que := nsnd_que k1 + of_nat (length segs)\<rparr>)"
      and segs: "is_message segs b" "length segs = frag_count (unat (mss k1)) (length b)"
        "\<forall>s \<in> set segs. seg_len s \<le> mss k1"
    by (rule ikcp_send_ok [OF mal mss snd(1) msg(1,2) snd(4)])
  define k where "k = k1\<lparr>snd_queue := segs, nsnd_que := nsnd_que k1 + of_nat (length segs)\<rparr>"
  have k: "snd_queue k = segs" "snd_nxt k = snd_nxt k1" "conv k = conv k1"
    and w: "length segs \<le> unat (flush_window k)"
    using msg(3) segs(2) by (simp_all add: k_def flush_window_def Let_def split: if_splits)
  obtain ps wnd ss where ps: "fst (ikcp_flush j1 k) = map datagram ps"
    "\<forall>p \<in> set ps. p \<noteq> [] \<and> length (datagram p) < 2 ^ 31 \<and> (\<forall>s \<in> set p. seg_ok (conv k) s)"
    "list_all2 same_load ss (number_segs k wnd (snd_nxt k) (snd_queue k))"
    "{s \<in> set (concat ps). is_push s} = set ss"
    by (rule flush_message [of k b j1]) (use segs w snd in \<open>simp_all add: k_def\<close>)
  have po: "outs = map datagram ps" using ps(1) send snd(5) by (simp add: outs k_def)
  define qs where "qs = map (nth ps) ix"
  have "set qs = nth ps ` {..<length ps}" using ix po by (simp add: qs_def)
  then have qps: "set qs = set ps" by (simp add: nth_image atLeast0LessThan [symmetric])
  have "map (nth outs) ix = map datagram qs" using ix po by (simp add: qs_def)
  moreover have "\<exists>k'. ikcp_recv (input_all j2 (map datagram qs) k2) True len = (int (length b), b, k')"
  proof (rule receive_message [OF segs(1) _ msg(1) len _ _ _ rcv(2-5)])
    show "list_all2 same_load ss (number_segs k wnd (snd_nxt k1) segs)" using ps(3) k by simp
    show "\<forall>p \<in> set qs. p \<noteq> [] \<and> length (datagram p) < 2 ^ 31 \<and> (\<forall>s \<in> set p. seg_ok (conv k2) s)"
      using ps(2) qps k(3) rcv(1) by simp
    show "{s \<in> set (concat qs). is_push s} = set ss" using ps(4) qps by simp
  qed (use segs(2) msg(2) rcv(6) in simp_all)
  ultimately show ?thesis by simp
qed

end
