(* ===== verification/Kcp_Sendbuf.thy ===== *)
theory Kcp_Sendbuf
  imports Kcp_Link
begin

unbundle bit_operations_syntax

text \<open>
  The send buffer of \<open>src/src/kcp.c\<close> under acknowledgements: its order, and which segments
  \<open>ikcp_parse_una\<close> and \<open>ikcp_parse_ack\<close> remove.
\<close>

section \<open>The send buffer stays in order\<close>

definition snd_ordered :: "u32 \<Rightarrow> u32 \<Rightarrow> ikcpseg list \<Rightarrow> bool" where
  "snd_ordered una nxt b \<longleftrightarrow>
     sorted_wrt (\<lambda>s t. ahead una s < ahead una t) b \<and> unat (nxt - una) < 2 ^ 31 \<and>
     (\<forall>s \<in> set b. ahead una s < unat (nxt - una))"

fun first_sn :: "u32 \<Rightarrow> ikcpseg list \<Rightarrow> u32" where
  "first_sn nxt [] = nxt"
| "first_sn nxt (s # _) = seg_sn s"

definition snd_inv :: "ikcpcb \<Rightarrow> bool" where
  "snd_inv k \<longleftrightarrow>
     nsnd_que k = of_nat (length (snd_queue k)) \<and> nsnd_buf k = of_nat (length (snd_buf k)) \<and>
     unat (snd_wnd k) < 2 ^ 31 \<and> snd_ordered (snd_una k) (snd_nxt k) (snd_buf k) \<and>
     first_sn (snd_nxt k) (snd_buf k) = snd_una k"

lemma una_remove_eq:
  "una_remove una b n = (dropWhile (\<lambda>s. itimediff una (seg_sn s) > 0) b,
     n - of_nat (length (takeWhile (\<lambda>s. itimediff una (seg_sn s) > 0) b)))"
  by (induction b arbitrary: n) (simp_all add: diff_diff_eq)

lemma ack_remove_eq:
  assumes "snd_ordered una nxt b" "unat (sn - una) < 2 ^ 31"
  shows "ack_remove sn b n = (filter (\<lambda>s. seg_sn s \<noteq> sn) b,
     if sn \<in> seg_sn ` set b then n - 1 else n)"
  using assms
proof (induction b arbitrary: n)
  case (Cons s b)
  have tl: "snd_ordered una nxt b" using Cons.prems by (simp add: snd_ordered_def)
  have lt: "\<forall>t \<in> set b. ahead una s < ahead una t" and s31: "ahead una s < 2 ^ 31"
    using Cons.prems by (auto simp: snd_ordered_def)
  have cmp: "itimediff sn (seg_sn s) < 0 \<longleftrightarrow> unat (sn - una) < ahead una s"
    using itimediff_base [of sn una "seg_sn s"] Cons.prems s31 by (simp add: ahead_def)
  have keep: "sn \<notin> seg_sn ` set b" if "unat (sn - una) \<le> ahead una s"
    using that lt by (auto simp: ahead_def dest!: bspec)
  then have "filter (\<lambda>s. seg_sn s \<noteq> sn) b = b" if "unat (sn - una) \<le> ahead una s"
    using that by (auto simp: filter_id_conv)
  then show ?case
    using Cons.IH [OF tl Cons.prems(2)] cmp keep by (auto simp: ahead_def split: prod.splits)
qed simp

lemma snd_ordered_filter: "snd_ordered una nxt b \<Longrightarrow> snd_ordered una nxt (filter P b)"
  by (auto simp: snd_ordered_def sorted_wrt_filter)

lemma snd_ordered_dropWhile: "snd_ordered una nxt b \<Longrightarrow> snd_ordered una nxt (dropWhile P b)"
  by (auto simp: snd_ordered_def dropWhile_eq_drop sorted_wrt_drop dest: in_set_dropD)

lemma ahead_shift:
  assumes "ahead una s \<le> ahead una t"
  shows "ahead (seg_sn s) t = ahead una t - ahead una s"
  using unat_diff_base [of "seg_sn s" una "seg_sn t"] assms by (simp add: ahead_def)

text \<open>\<open>ikcp_shrink_buf\<close> moves the base to the first segment kept.\<close>

lemma snd_ordered_rebase:
  assumes "snd_ordered una nxt (s # b)"
  shows "snd_ordered (seg_sn s) nxt (s # b)"
proof -
  have le: "\<forall>t \<in> set (s # b). ahead una s \<le> ahead una t" "\<forall>t \<in> set (s # b). ahead una t < unat (nxt - una)"
    using assms by (auto simp: snd_ordered_def)
  have nx: "unat (nxt - seg_sn s) = unat (nxt - una) - ahead una s"
    using unat_diff_base [of "seg_sn s" una nxt] le(2) by (simp add: ahead_def)
  have sh: "\<forall>t \<in> set (s # b). ahead (seg_sn s) t = ahead una t - ahead una s"
    using le ahead_shift by blast
  show ?thesis
    unfolding snd_ordered_def
  proof (intro conjI ballI)
    show "sorted_wrt (\<lambda>t u. ahead (seg_sn s) t < ahead (seg_sn s) u) (s # b)"
      by (rule sorted_wrt_mono_rel [where P = "\<lambda>t u. ahead una t < ahead una u"])
        (use assms le sh in \<open>auto simp: snd_ordered_def\<close>)
    show "unat (nxt - seg_sn s) < 2 ^ 31"
      using nx assms unfolding snd_ordered_def by linarith
    fix t assume t: "t \<in> set (s # b)"
    then show "ahead (seg_sn s) t < unat (nxt - seg_sn s)"
      using le sh nx by (metis diff_less_mono)
  qed
qed

lemma snd_ordered_Nil [simp]: "snd_ordered nxt nxt []"
  by (simp add: snd_ordered_def)

definition snd_core :: "ikcpcb \<Rightarrow> bool" where
  "snd_core k \<longleftrightarrow>
     nsnd_que k = of_nat (length (snd_queue k)) \<and> nsnd_buf k = of_nat (length (snd_buf k)) \<and>
     unat (snd_wnd k) < 2 ^ 31 \<and> snd_ordered (snd_una k) (snd_nxt k) (snd_buf k)"

lemma snd_inv_core: "snd_inv k \<Longrightarrow> snd_core k"
  unfolding snd_inv_def snd_core_def by metis

lemma shrink_buf_inv: "snd_core k \<Longrightarrow> snd_inv (ikcp_shrink_buf k)"
  using snd_ordered_rebase by (auto simp: snd_core_def snd_inv_def ikcp_shrink_buf_def split: list.splits)

lemma parse_una_core:
  assumes "snd_core k"
  shows "snd_core (ikcp_parse_una k una)"
proof -
  let ?P = "\<lambda>s. itimediff una (seg_sn s) > 0"
  have "length (snd_buf k) = length (takeWhile ?P (snd_buf k)) + length (dropWhile ?P (snd_buf k))"
    by (metis length_append takeWhile_dropWhile_id)
  then have "of_nat (length (snd_buf k)) =
      (of_nat (length (takeWhile ?P (snd_buf k))) + of_nat (length (dropWhile ?P (snd_buf k))) :: u32)"
    by (metis of_nat_add)
  then have "of_nat (length (snd_buf k)) - of_nat (length (takeWhile ?P (snd_buf k))) =
      (of_nat (length (dropWhile ?P (snd_buf k))) :: u32)"
    by (metis add_diff_cancel_left')
  then show ?thesis
    using assms by (simp add: snd_core_def ikcp_parse_una_shape una_remove_eq snd_ordered_dropWhile)
qed

lemma length_filter_sn:
  assumes "snd_ordered una nxt b"
  shows "length b = length (filter (\<lambda>s. seg_sn s \<noteq> sn) b) + (if sn \<in> seg_sn ` set b then 1 else 0)"
  using assms
proof (induction b)
  case (Cons s b)
  have "snd_ordered una nxt b" using Cons.prems by (simp add: snd_ordered_def)
  moreover have "sn \<notin> seg_sn ` set b" if "seg_sn s = sn"
    using that Cons.prems by (auto simp: snd_ordered_def ahead_def)
  ultimately show ?case using Cons.IH by auto
qed simp

lemma ikcp_parse_ack_eq:
  assumes "snd_core k"
  shows "ikcp_parse_ack k sn =
    (if unat (sn - snd_una k) < inflight k
     then k\<lparr>snd_buf := filter (\<lambda>s. seg_sn s \<noteq> sn) (snd_buf k),
            nsnd_buf := of_nat (length (filter (\<lambda>s. seg_sn s \<noteq> sn) (snd_buf k)))\<rparr>
     else k)"
proof -
  have ord: "snd_ordered (snd_una k) (snd_nxt k) (snd_buf k)" and fl: "inflight k < 2 ^ 31"
    and n: "nsnd_buf k = of_nat (length (snd_buf k))"
    using assms by (simp_all add: snd_core_def snd_ordered_def inflight_def)
  have win: "itimediff sn (snd_una k) < 0 \<or> itimediff sn (snd_nxt k) \<ge> 0 \<longleftrightarrow> \<not> unat (sn - snd_una k) < inflight k"
    using in_window_iff [of "snd_nxt k - snd_una k" sn "snd_una k"] fl by (auto simp: inflight_def)
  show ?thesis
  proof (cases "unat (sn - snd_una k) < inflight k")
    case True
    then have "unat (sn - snd_una k) < 2 ^ 31" using fl by simp
    note rm = ack_remove_eq [OF ord this, of "nsnd_buf k"]
    have "(if sn \<in> seg_sn ` set (snd_buf k) then nsnd_buf k - 1 else nsnd_buf k) =
        of_nat (length (filter (\<lambda>s. seg_sn s \<noteq> sn) (snd_buf k)))"
      using length_filter_sn [OF ord, of sn] n by simp
    then show ?thesis using True win by (simp add: ikcp_parse_ack_def rm)
  qed (use win in \<open>simp add: ikcp_parse_ack_def\<close>)
qed

lemma parse_ack_core: "snd_core k \<Longrightarrow> snd_core (ikcp_parse_ack k sn)"
  by (simp add: ikcp_parse_ack_eq) (auto simp: snd_core_def snd_ordered_filter)

text \<open>What a cumulative acknowledgement removes.\<close>

lemma ikcp_parse_una_eq:
  assumes "snd_core k" "unat (una - snd_una k) \<le> inflight k"
  shows "snd_buf (ikcp_parse_una k una) =
    filter (\<lambda>s. unat (una - snd_una k) \<le> ahead (snd_una k) s) (snd_buf k)"
proof -
  have 31: "unat (una - snd_una k) < 2 ^ 31" "\<forall>s \<in> set (snd_buf k). ahead (snd_una k) s < 2 ^ 31"
    using assms by (auto simp: snd_core_def snd_ordered_def inflight_def)
  have "itimediff una (seg_sn s) > 0 \<longleftrightarrow> \<not> unat (una - snd_una k) \<le> ahead (snd_una k) s"
    if "s \<in> set (snd_buf k)" for s
    using itimediff_base [of una "snd_una k" "seg_sn s"] 31 that by (auto simp: ahead_def)
  then have "dropWhile (\<lambda>s. itimediff una (seg_sn s) > 0) (snd_buf k) =
      dropWhile (\<lambda>s. \<not> unat (una - snd_una k) \<le> ahead (snd_una k) s) (snd_buf k)"
    by (intro dropWhile_cong refl)
  moreover have "dropWhile (\<lambda>s. \<not> c \<le> ahead u s) b = filter (\<lambda>s. c \<le> ahead u s) b"
    if "sorted_wrt (\<lambda>s t. ahead u s < ahead u t) b" for c u b
    using that by (induction b) (auto intro!: filter_True [symmetric])
  ultimately show ?thesis
    using assms(1) by (simp add: ikcp_parse_una_shape una_remove_eq snd_core_def snd_ordered_def)
qed

end
