(* ===== verification/Kcp_Invariant.thy ===== *)
theory Kcp_Invariant
  imports Kcp_Sendbuf
begin

unbundle bit_operations_syntax

text \<open>
  The invariant of a KCP control block and its preservation by every operation of \<open>src/src/kcp.c\<close>,
  whatever a peer puts into the datagrams: counters match the queues, both buffers stay in order, the
  acknowledgement array stays within its allocation, the timers stay in range and every queued
  segment fits an MTU \<open>l\<close> that was in force when it was queued.
\<close>

section \<open>The invariant of a control block\<close>

definition timer_ok :: "ikcpcb \<Rightarrow> bool" where
  "timer_ok k \<longleftrightarrow>
     30 \<le> unat (rx_rto k) \<and> unat (rx_rto k) \<le> 60000 \<and> 30 \<le> unat (rx_minrto k) \<and> unat (rx_minrto k) \<le> 100 \<and>
     10 \<le> unat (interval k) \<and> unat (interval k) \<le> 5000 \<and> unat (probe_wait k) \<le> 120000"

definition mtu_ok :: "u32 \<Rightarrow> ikcpcb \<Rightarrow> bool" where
  "mtu_ok l k \<longleftrightarrow> 50 \<le> unat (mtu k) \<and> unat (mtu k) = unat (mss k) + 28 \<and> buffer_size k = unat ((mtu k + 28) * 3)
     \<and> segs_fit l k"

definition kcp_inv :: "u32 \<Rightarrow> ikcpcb \<Rightarrow> bool" where
  "kcp_inv l k \<longleftrightarrow> rcv_inv k \<and> snd_inv k \<and> ack_ok k \<and> unat (ackcount k) < 2 ^ 30 \<and> timer_ok k \<and> mtu_ok l k"

lemmas kcp_inv_defs = kcp_inv_def rcv_inv_def snd_inv_def ack_ok_def timer_ok_def mtu_ok_def segs_fit_def

lemma snd_ordered_map:
  "snd_ordered una nxt b \<longleftrightarrow>
     sorted_wrt (\<lambda>x y. unat (x - una) < unat (y - una)) (map seg_sn b) \<and> unat (nxt - una) < 2 ^ 31 \<and>
     (\<forall>x \<in> set (map seg_sn b). unat (x - una) < unat (nxt - una))"
  by (simp add: snd_ordered_def sorted_wrt_map ahead_def)

lemma same_load_maps:
  "list_all2 same_load b c \<Longrightarrow> map seg_sn b = map seg_sn c \<and> map content b = map content c"
  by (induction rule: list_all2_induct) (auto simp: same_load_def)

lemma snd_inv_relabel:
  assumes "map seg_sn b = map seg_sn (snd_buf k)"
  shows "snd_inv (k\<lparr>snd_buf := b\<rparr>) \<longleftrightarrow> snd_inv k"
proof -
  have "length b = length (snd_buf k)" using arg_cong [OF assms, of length] by simp
  moreover have "first_sn nxt b = first_sn nxt (snd_buf k)" for nxt
    using assms by (cases b; cases "snd_buf k") auto
  ultimately show ?thesis by (simp add: snd_inv_def snd_ordered_map assms)
qed

lemma fits_map_content:
  assumes "map content b = map content c"
  shows "(\<forall>s \<in> set b. fits m s) \<longleftrightarrow> (\<forall>s \<in> set c. fits m s)"
proof -
  have "length b = length c" using arg_cong [OF assms, of length] by simp
  then show ?thesis
    using assms
  proof (induction b c rule: list_induct2)
    case (Cons s b t c)
    then show ?case using fits_content [of s t m] by simp
  qed simp
qed

lemma segs_fit_relabel:
  assumes "map content b = map content (snd_buf k)"
  shows "segs_fit l (k\<lparr>snd_buf := b\<rparr>) \<longleftrightarrow> segs_fit l k"
  using fits_map_content [OF assms, of l] by (auto simp: segs_fit_def ball_Un)

section \<open>Operations of the application\<close>

lemma ikcp_create_inv: "ikcp_create mal cv = Some k \<Longrightarrow> kcp_inv (mtu k) k"
  by (auto simp: ikcp_create_def kcp_inv_def rcv_inv_def snd_inv_def ack_ok_def timer_ok_def mtu_ok_def
      segs_fit_def buf_ordered_def ikcp_consts split: if_splits)

lemma send_fragments_shape:
  assumes "unat (mss k) < 2 ^ 31"
  obtains segs where
    "snd (send_fragments mal base count todo (Some b) (int (length b)) k) =
       k\<lparr>snd_queue := snd_queue k @ segs, nsnd_que := nsnd_que k + of_nat (length segs)\<rparr>"
    "\<forall>s \<in> set segs. seg_wf s \<and> seg_len s \<le> mss k"
proof -
  have "\<exists>segs. snd (send_fragments mal base count todo (Some b) (int (length b)) k) =
       k\<lparr>snd_queue := snd_queue k @ segs, nsnd_que := nsnd_que k + of_nat (length segs)\<rparr> \<and>
    (\<forall>s \<in> set segs. seg_wf s \<and> seg_len s \<le> mss k)"
    using assms
  proof (induction todo arbitrary: b k)
    case 0
    then show ?case by (intro exI [of _ "[]"]) simp
  next
    case (Suc todo)
    let ?m = "unat (mss k)"
    let ?d = "take ?m b"
    have sz: "(if int (length b) > sint (mss k) then sint (mss k) else int (length b)) = int (length ?d)"
      using Suc.prems by (simp add: sint_small min_def)
    show ?case
    proof (cases "mal (base + (count - Suc todo))")
      case None
      then show ?thesis by (intro exI [of _ "[]"]) (simp add: Let_def)
    next
      case (Some junk)
      define seg where "seg = junk\<lparr>seg_data := ?d, seg_len := word_of_int (int (length ?d)),
         seg_frg := (if stream k = 0 then of_nat todo else 0)\<rparr>"
      let ?k = "k\<lparr>snd_queue := snd_queue k @ [seg], nsnd_que := nsnd_que k + 1\<rparr>"
      have wf: "seg_wf seg" "seg_len seg \<le> mss k"
        using Suc.prems by (simp_all add: seg_wf_def seg_def unat_of_int_u32 word_le_nat_alt del: of_int_of_nat_eq)
      have "(if int (length b) > 0 then take (length ?d) b else []) = ?d"
        "drop (length ?d) b = drop ?m b" "int (length b) - int (length ?d) = int (length (drop ?m b))"
        by (simp_all add: min_def)
      then have "send_fragments mal base count (Suc todo) (Some b) (int (length b)) k =
          send_fragments mal base count todo (Some (drop ?m b)) (int (length (drop ?m b))) ?k"
        unfolding send_fragments.simps sz Let_def Some option.case option.map(2) nat_int by (simp only: seg_def)
      moreover obtain segs where "snd (send_fragments mal base count todo (Some (drop ?m b)) (int (length (drop ?m b))) ?k) =
          ?k\<lparr>snd_queue := snd_queue ?k @ segs, nsnd_que := nsnd_que ?k + of_nat (length segs)\<rparr>"
          "\<forall>s \<in> set segs. seg_wf s \<and> seg_len s \<le> mss ?k"
        using Suc.IH [of ?k "drop ?m b"] Suc.prems by auto
      ultimately show ?thesis
        using wf by (intro exI [of _ "seg # segs"]) (simp add: add_ac del: send_fragments.simps)
    qed
  qed
  then show thesis using that by blast
qed

lemma queue_segs_inv:
  assumes "kcp_inv l k" "\<forall>s \<in> set segs. seg_wf s \<and> seg_len s \<le> mss k"
  shows "kcp_inv l (k\<lparr>snd_queue := snd_queue k @ segs, nsnd_que := nsnd_que k + of_nat (length segs)\<rparr>)"
  using assms
  by (auto simp: kcp_inv_defs fits_def word_le_nat_alt)

lemma send_append_inv:
  assumes inv: "kcp_inv l k" and app: "send_append mal k (Some b) (int (length b)) = Inr (base, k', buf', len')"
  shows "\<exists>b'. kcp_inv l k' \<and> buf' = Some b' \<and> len' = int (length b')"
proof (cases "snd_queue k \<noteq> [] \<and> seg_len (last (snd_queue k)) < mss k")
  case False
  then have "k' = k" "buf' = Some b" "len' = int (length b)"
    using app by (auto simp: send_append_def Let_def split: if_splits)
  then show ?thesis using inv by blast
next
  case True
  define old where "old = last (snd_queue k)"
  define ext where "ext = min (length b) (unat (mss k) - unat (seg_len old))"
  have old: "old \<in> set (snd_queue k)" using True by (simp add: old_def)
  have fit: "fits l old" and m: "unat (mtu k) = unat (mss k) + 28" "unat (mss k) + 28 < 2 ^ 31"
    and lim: "unat (mtu k) \<le> unat l" "unat l < 2 ^ 31"
    using inv old by (auto simp: kcp_inv_def mtu_ok_def segs_fit_def)
  have lt: "unat (seg_len old) < unat (mss k)" using True by (simp add: old_def word_less_nat_alt)
  then have cap: "sint (mss k - seg_len old) = int (unat (mss k) - unat (seg_len old))"
    using m(2) by (subst sint_small) (simp_all add: unat_diff_small)
  have ext: "(if int (length b) < sint (mss k - seg_len old) then int (length b)
      else sint (mss k - seg_len old)) = int ext"
    by (simp add: cap ext_def min_def)
  obtain junk where mal: "mal 0 = Some junk"
    using app True by (auto simp: send_append_def Let_def split: option.splits)
  define seg where "seg = junk\<lparr>seg_data := take (unat (seg_len old)) (seg_data old) @ take ext b,
      seg_len := seg_len old + word_of_int (int ext), seg_frg := 0\<rparr>"
  have k': "k' = k\<lparr>snd_queue := butlast (snd_queue k) @ [seg]\<rparr>" "buf' = Some (drop ext b)"
    "len' = int (length b) - int ext"
    using app True mal by (simp_all add: send_append_def Let_def old_def [symmetric] ext seg_def del: of_int_of_nat_eq)
  have len: "unat (seg_len seg) = unat (seg_len old) + ext"
  proof -
    have "ext < 2 ^ 32" "unat (seg_len old) + ext < 2 ^ 32" using lt m(2) by (auto simp: ext_def)
    then show ?thesis by (simp add: seg_def unat_add_small unat_of_nat_u32)
  qed
  moreover have "length (seg_data seg) = unat (seg_len old) + ext"
    using fit by (simp add: seg_def fits_def seg_wf_def ext_def)
  ultimately have "fits l seg"
    using lt m lim by (simp add: fits_def seg_wf_def ext_def)
  moreover have "set (butlast (snd_queue k)) \<subseteq> set (snd_queue k)" by (auto dest: in_set_butlastD)
  ultimately have "kcp_inv l k'"
    using inv True unfolding k'(1) kcp_inv_def mtu_ok_def
    by (auto simp: rcv_inv_def snd_inv_def ack_ok_def timer_ok_def segs_fit_def)
  moreover have "len' = int (length (drop ext b))" using k'(3) by (simp add: ext_def)
  ultimately show ?thesis using k'(2) by blast
qed

lemma ikcp_send_inv:
  assumes "kcp_inv l k"
  shows "kcp_inv l (snd (ikcp_send mal k (Some b) (int (length b))))"
proof -
  have frag: "kcp_inv l (snd (send_fragments mal base c t (Some b') (int (length b')) k'))"
    if inv: "kcp_inv l k'" for base c t b' k'
  proof -
    have "unat (mss k') < 2 ^ 31" using inv by (auto simp: kcp_inv_def mtu_ok_def segs_fit_def)
    then obtain segs where "snd (send_fragments mal base c t (Some b') (int (length b')) k') =
        k'\<lparr>snd_queue := snd_queue k' @ segs, nsnd_que := nsnd_que k' + of_nat (length segs)\<rparr>"
      "\<forall>s \<in> set segs. seg_wf s \<and> seg_len s \<le> mss k'" by (rule send_fragments_shape)
    then show ?thesis using queue_segs_inv [OF inv] by simp
  qed
  then have split: "kcp_inv l (snd (send_split mal base (Some b') (int (length b')) k'))"
    if "kcp_inv l k'" for base b' k'
    using that by (simp add: send_split_def Let_def del: send_fragments.simps)
  show ?thesis
  proof (cases "send_append mal k (Some b) (int (length b))")
    case (Inl r)
    then have "snd r = k" by (auto simp: send_append_def Let_def split: if_splits option.splits)
    then show ?thesis using split assms Inl by (auto simp: ikcp_send_def)
  next
    case (Inr t)
    obtain base k' buf' len' where t: "t = (base, k', buf', len')" by (cases t)
    from send_append_inv [OF assms Inr [unfolded t]]
    obtain b' where "kcp_inv l k'" "buf' = Some b'" "len' = int (length b')" by blast
    then show ?thesis using split assms Inr t by (auto simp: ikcp_send_def)
  qed
qed

section \<open>Receiving, settings, flushing and parsing keep the invariant\<close>

text \<open>An operation that only touches the receive side keeps the rest.\<close>

lemma kcp_inv_rcv_only:
  assumes "kcp_inv l k" "rcv_inv k'"
    "k' = k\<lparr>rcv_buf := b, nrcv_buf := n, rcv_queue := q, nrcv_que := m, rcv_nxt := x, probe := p\<rparr>"
  shows "kcp_inv l k'"
  using assms by (simp add: kcp_inv_def snd_inv_def ack_ok_def timer_ok_def mtu_ok_def segs_fit_def)

lemma ikcp_recv_inv:
  assumes "kcp_inv l k" "ikcp_recv k hb len = (r, out, k')"
  shows "kcp_inv l k'"
proof (cases "r < 0")
  case True
  then show ?thesis using ikcp_recv_neg assms by blast
next
  case False
  let ?p = "msg_prefix (rcv_queue k)"
  let ?drop = "k\<lparr>rcv_queue := drop (length ?p) (rcv_queue k), nrcv_que := nrcv_que k - of_nat (length ?p)\<rparr>"
  define k1 where "k1 = (if len < 0 then k else ?drop)"
  have rm: "recv_merge (len < 0) (rcv_queue k) [] 0 k =
      (concat (map payload ?p), sum_list (map seg_len ?p), k1)"
    by (cases "len < 0") (simp_all add: recv_merge_take recv_merge_peek k1_def)
  have mv': "k' = move_available k1 \<or> k' = (move_available k1)\<lparr>probe := probe (move_available k1) OR IKCP_ASK_TELL\<rparr>"
    using assms(2) False unfolding ikcp_recv_def Let_def rm prod.case by (simp split: if_splits)
  obtain rest where q: "rcv_queue k = ?p @ rest" using msg_prefix_append by blast
  have "rcv_inv ?drop"
  proof -
    have "nrcv_que k - of_nat (length ?p) = of_nat (length rest)"
      using assms(1) arg_cong [OF q, of length] by (simp add: kcp_inv_def rcv_inv_def)
    moreover have "drop (length ?p) (rcv_queue k) = rest" by (subst q) simp
    ultimately show ?thesis
      using assms(1) arg_cong [OF q, of length] by (simp add: kcp_inv_def rcv_inv_def)
  qed
  then have inv1: "rcv_inv (move_available k1)"
    using assms(1) move_available_inv by (simp add: kcp_inv_def k1_def)
  obtain b n qq m x where mv: "move_available k1 =
      k1\<lparr>rcv_buf := b, nrcv_buf := n, rcv_queue := qq, nrcv_que := m, rcv_nxt := x\<rparr>"
    using move_available_shape by blast
  then have "k' = k\<lparr>rcv_buf := b, nrcv_buf := n, rcv_queue := qq, nrcv_que := m, rcv_nxt := x, probe := probe k'\<rparr>"
    using mv' by (cases "len < 0") (auto simp: k1_def)
  moreover have "rcv_inv k'" using mv' inv1 by (auto simp: rcv_inv_def)
  ultimately show ?thesis using kcp_inv_rcv_only [OF assms(1)] by blast
qed

lemma clamp_interval_bounds:
  "10 \<le> unat (word_of_int (clamp_interval i) :: u32)" "unat (word_of_int (clamp_interval i) :: u32) \<le> 5000"
  by (auto simp: clamp_interval_def unat_of_int_u32)

lemma ikcp_interval_inv: "kcp_inv l k \<Longrightarrow> kcp_inv l (snd (ikcp_interval k i))"
  using clamp_interval_bounds [of i]
  by (simp add: ikcp_interval_def kcp_inv_defs)

lemma ikcp_nodelay_inv: "kcp_inv l k \<Longrightarrow> kcp_inv l (snd (ikcp_nodelay k nd itv rs nc))"
  using clamp_interval_bounds [of itv]
  by (simp add: ikcp_nodelay_def Let_def kcp_inv_defs ikcp_consts)

lemma ikcp_wndsize_inv:
  assumes "kcp_inv l k" "sw < 2 ^ 31" "rw < 2 ^ 31"
  shows "kcp_inv l (snd (ikcp_wndsize k sw rw))"
proof -
  have "unat (word_of_int i :: u32) < 2 ^ 31" if "0 < i" "i < 2 ^ 31" for i
    using that by (simp add: unat_of_int_u32)
  then show ?thesis
    using assms
    by (auto simp: ikcp_wndsize_def Let_def kcp_inv_defs imax_def ikcp_consts)
qed

lemma fits_mono: "fits m s \<Longrightarrow> unat m \<le> unat m' \<Longrightarrow> unat m' < 2 ^ 31 \<Longrightarrow> fits m' s"
  by (simp add: fits_def)

text \<open>
  The MTU may change at any time. What waits to be sent was cut for an MTU up to \<open>l\<close>, and when nothing waits the new one is
  such a bound.
\<close>

definition mtu_bound :: "u32 \<Rightarrow> ikcpcb \<Rightarrow> u32" where
  "mtu_bound l k = (if snd_queue k = [] \<and> snd_buf k = [] then mtu k else max l (mtu k))"

lemma ikcp_setmtu_inv:
  fixes m :: i32
  assumes inv: "kcp_inv l k" and call: "ikcp_setmtu ok k (sint m) = (r, k')"
  shows "kcp_inv (mtu_bound l k') k'"
proof -
  have waits: "snd_queue k' = snd_queue k" "snd_buf k' = snd_buf k"
    using call by (auto simp: ikcp_setmtu_def split: if_splits)
  have core: "50 \<le> unat (mtu k') \<and> unat (mtu k') = unat (mss k') + 28 \<and> unat (mtu k') < 2 ^ 31
      \<and> buffer_size k' = unat ((mtu k' + 28) * 3)"
  proof (cases "r = 0")
    case True
    then have m: "50 \<le> sint m" "mtu k' = m" "mss k' = m - 28" "buffer_size k' = unat ((m + 28) * 3)" using call by (auto simp: ikcp_setmtu_def ikcp_consts split: if_splits)
    then have "unat m < 2 ^ 31" "sint m = int (unat m)" using sint_nonneg_iff [of m] sint_small [of m] by simp_all
    moreover have "unat (m - 28) = unat m - 28" using m(1) calculation(2) by (subst unat_diff_small) simp_all
    ultimately show ?thesis using m True by simp
  next
    case False
    then have "k' = k" using call by (auto simp: ikcp_setmtu_def split: if_splits)
    then show ?thesis using inv by (auto simp: kcp_inv_def mtu_ok_def segs_fit_def)
  qed
  have bound: "unat (mtu k') \<le> unat (mtu_bound l k')" "unat (mtu_bound l k') < 2 ^ 31"
    using core inv by (auto simp: mtu_bound_def max_def word_le_nat_alt kcp_inv_def mtu_ok_def segs_fit_def)
  have "fits (mtu_bound l k') s" if "s \<in> set (snd_queue k') \<union> set (snd_buf k')" for s
  proof -
    have "fits l s" using that inv by (auto simp: waits kcp_inv_def mtu_ok_def segs_fit_def)
    moreover have "unat l \<le> unat (mtu_bound l k')" using that by (auto simp: mtu_bound_def max_def word_le_nat_alt)
    ultimately show ?thesis using fits_mono bound(2) by blast
  qed
  then have "mtu_ok (mtu_bound l k') k'" using core bound by (auto simp: mtu_ok_def segs_fit_def)
  moreover have "rcv_inv k' \<and> snd_inv k' \<and> ack_ok k' \<and> unat (ackcount k') < 2 ^ 30 \<and> timer_ok k'"
    using call inv by (auto simp: ikcp_setmtu_def kcp_inv_def rcv_inv_def snd_inv_def ack_ok_def timer_ok_def split: if_splits)
  ultimately show ?thesis by (simp add: kcp_inv_def)
qed

lemma flush_probe_wait: "unat (probe_wait k) \<le> 120000 \<Longrightarrow> unat (probe_wait (flush_probe_timer k)) \<le> 120000"
  by (auto simp: flush_probe_timer_def Let_def ikcp_consts word_le_nat_alt not_less)

lemma sorted_wrt_consecutive:
  assumes "c + n < 2 ^ 31"
  shows "sorted_wrt (\<lambda>x y. unat (x - u) < unat (y - u)) (map (\<lambda>i. u + of_nat c + of_nat i :: u32) [0..<n])"
    "\<forall>x \<in> set (map (\<lambda>i. u + of_nat c + of_nat i :: u32) [0..<n]). c \<le> unat (x - u) \<and> unat (x - u) < c + n"
proof -
  have "unat (u + of_nat c + of_nat i - u :: u32) = c + i" if "i < n" for i
    using that assms unat_of_nat_u32 [of "c + i"] by simp
  then show "sorted_wrt (\<lambda>x y. unat (x - u) < unat (y - u)) (map (\<lambda>i. u + of_nat c + of_nat i :: u32) [0..<n])"
    "\<forall>x \<in> set (map (\<lambda>i. u + of_nat c + of_nat i :: u32) [0..<n]). c \<le> unat (x - u) \<and> unat (x - u) < c + n"
    by (auto simp: sorted_wrt_iff_nth_less)
qed

text \<open>Appending freshly numbered segments keeps the send buffer in order.\<close>

lemma snd_ordered_append:
  assumes "snd_ordered una nxt b" "unat (nxt - una) + n < 2 ^ 31"
    "map seg_sn b' = map seg_sn b @ map (\<lambda>i. nxt + of_nat i) [0..<n]"
  shows "snd_ordered una (nxt + of_nat n) b'"
proof -
  let ?c = "unat (nxt - una)"
  have "unat ((nxt - una) + of_nat n) = ?c + unat (of_nat n :: u32)"
    using assms(2) by (intro unat_add_small) (simp add: unat_of_nat_u32)
  then have fl: "unat (nxt + of_nat n - una) = ?c + n"
    using assms(2) by (simp add: unat_of_nat_u32 algebra_simps)
  define B where "B = map seg_sn b"
  define N where "N = map (\<lambda>i. nxt + of_nat i) [0..<n]"
  have "N = map (\<lambda>i. una + of_nat ?c + of_nat i) [0..<n]" by (simp add: N_def of_nat_unat)
  then have N: "sorted_wrt (\<lambda>x y. unat (x - una) < unat (y - una)) N"
    "\<And>x. x \<in> set N \<Longrightarrow> ?c \<le> unat (x - una)" "\<And>x. x \<in> set N \<Longrightarrow> unat (x - una) < ?c + n"
    using sorted_wrt_consecutive [OF assms(2), of una] by blast+
  have B: "sorted_wrt (\<lambda>x y. unat (x - una) < unat (y - una)) B" "\<And>x. x \<in> set B \<Longrightarrow> unat (x - una) < ?c"
    using assms(1) unfolding snd_ordered_map B_def by blast+
  have "sorted_wrt (\<lambda>x y. unat (x - una) < unat (y - una)) (B @ N)"
    using N(1) B(1) less_le_trans [OF B(2) N(2)] by (simp add: sorted_wrt_append)
  moreover have "\<forall>x \<in> set (B @ N). unat (x - una) < ?c + n"
    using N(3) B(2) by (auto intro: trans_less_add1)
  ultimately show ?thesis
    using assms(2,3) fl unfolding snd_ordered_map B_def N_def by (simp only:)
qed

lemma snd_inv_flush:
  assumes "snd_inv k" "updated k \<noteq> 0" "unat (ackcount k) < 2 ^ 31"
    and fits: "nsnd_que k' = of_nat (length (snd_queue k'))" "nsnd_buf k' = of_nat (length (snd_buf k'))"
      "snd_wnd k' = snd_wnd k"
    and k': "k' = snd (ikcp_flush junk k)"
  shows "snd_inv k'"
proof -
  let ?c = "min (length (snd_queue k)) (unat (flush_window k) - inflight k)"
  have fl: "inflight k < 2 ^ 31" and w: "unat (snd_wnd k) < 2 ^ 31"
    and ord: "snd_ordered (snd_una k) (snd_nxt k) (snd_buf k)"
    using assms(1) by (simp_all add: snd_inv_def snd_ordered_def inflight_def)
  note f = flush_conserves [OF assms(2,3) fl w, of junk, folded k']
  have "inflight k + ?c < 2 ^ 31"
    using fl w flush_window_le(1) [of k] by (auto simp: word_le_nat_alt)
  then have ord': "snd_ordered (snd_una k') (snd_nxt k') (snd_buf k')"
    using snd_ordered_append [OF ord _ f(2)] by (simp add: f(3,4) inflight_def)
  have "first_sn (snd_nxt k') (snd_buf k') = snd_una k'"
  proof (cases "snd_buf k")
    case (Cons s b)
    then show ?thesis using f(2,4) assms(1) by (cases "snd_buf k'") (auto simp: snd_inv_def)
  next
    case Nil
    then have "snd_una k = snd_nxt k" using assms(1) by (simp add: snd_inv_def)
    then show ?thesis using f Nil by (cases "snd_buf k'"; cases ?c) (auto simp: upt_conv_Cons simp del: upt_Suc)
  qed
  then show ?thesis using ord' fits w by (simp add: snd_inv_def)
qed

lemma flush_cwnd_rest:
  "nsnd_que (flush_cwnd w r c l k) = nsnd_que k" "nsnd_buf (flush_cwnd w r c l k) = nsnd_buf k"
  "snd_wnd (flush_cwnd w r c l k) = snd_wnd k" "rcv_wnd (flush_cwnd w r c l k) = rcv_wnd k"
  "rcv_queue (flush_cwnd w r c l k) = rcv_queue k" "rcv_buf (flush_cwnd w r c l k) = rcv_buf k"
  "nrcv_que (flush_cwnd w r c l k) = nrcv_que k" "nrcv_buf (flush_cwnd w r c l k) = nrcv_buf k"
  "rcv_nxt (flush_cwnd w r c l k) = rcv_nxt k" "acklist (flush_cwnd w r c l k) = acklist k"
  "ackcount (flush_cwnd w r c l k) = ackcount k" "ackblock (flush_cwnd w r c l k) = ackblock k"
  "rx_rto (flush_cwnd w r c l k) = rx_rto k" "rx_minrto (flush_cwnd w r c l k) = rx_minrto k"
  "interval (flush_cwnd w r c l k) = interval k" "mtu (flush_cwnd w r c l k) = mtu k"
  "buffer_size (flush_cwnd w r c l k) = buffer_size k"
  "mss (flush_cwnd w r c l k) = mss k"
  by (simp_all add: flush_cwnd_def Let_def)

lemma flush_probe_rest:
  "nsnd_que (flush_probe_timer k) = nsnd_que k" "nsnd_buf (flush_probe_timer k) = nsnd_buf k"
  "snd_wnd (flush_probe_timer k) = snd_wnd k" "rcv_wnd (flush_probe_timer k) = rcv_wnd k"
  "rcv_queue (flush_probe_timer k) = rcv_queue k" "rcv_buf (flush_probe_timer k) = rcv_buf k"
  "nrcv_que (flush_probe_timer k) = nrcv_que k" "nrcv_buf (flush_probe_timer k) = nrcv_buf k"
  "rcv_nxt (flush_probe_timer k) = rcv_nxt k" "acklist (flush_probe_timer k) = acklist k"
  "ackcount (flush_probe_timer k) = ackcount k" "ackblock (flush_probe_timer k) = ackblock k"
  "rx_minrto (flush_probe_timer k) = rx_minrto k" "interval (flush_probe_timer k) = interval k"
  "mss (flush_probe_timer k) = mss k" "buffer_size (flush_probe_timer k) = buffer_size k"
  by (simp_all add: flush_probe_timer_def Let_def)

lemma ikcp_flush_inv:
  assumes inv: "kcp_inv l k"
  shows "kcp_inv l (snd (ikcp_flush junk k))"
proof (cases "updated k = 0")
  case True
  then show ?thesis using inv by (simp add: ikcp_flush_def)
next
  case False
  let ?k' = "snd (ikcp_flush junk k)"
  have s: "snd_inv k" and ac: "unat (ackcount k) < 2 ^ 31" and fl: "inflight k < 2 ^ 31"
    and w: "unat (snd_wnd k) < 2 ^ 31"
    using inv by (auto simp: kcp_inv_def snd_inv_def snd_ordered_def inflight_def)
  let ?c = "min (length (snd_queue k)) (unat (flush_window k) - inflight k)"
  let ?f = "flush_filled k"
  obtain b and fl' :: flush_loop where k': "?k' = flush_cwnd (flush_window (flush_probe_timer (k\<lparr>ackcount := 0\<rparr>)))
      (flush_resent k) (fl_change fl' \<noteq> 0) (fl_lost fl')
         (?f\<lparr>snd_buf := b, xmit := fl_xmit fl', state := fl_state fl'\<rparr>)"
    and b: "list_all2 same_load b (snd_buf ?f)"
    using ikcp_flush_eq [OF False ac, of junk] by (metis snd_conv)
  have lb: "length b = length (snd_buf ?f)" using b by (rule list_all2_lengthD)
  note eq = flush_filled_eq [OF fl w]
  have cb: "map content b = map content (snd_buf ?f)" using same_load_maps [OF b] by simp
  have pt: "unat (probe_wait (flush_probe_timer (k\<lparr>ackcount := 0\<rparr>))) \<le> 120000"
    using inv by (intro flush_probe_wait) (simp add: kcp_inv_def timer_ok_def)
  have cnt: "nsnd_que ?k' = of_nat (length (snd_queue ?k'))" "nsnd_buf ?k' = of_nat (length (snd_buf ?k'))"
    "snd_wnd ?k' = snd_wnd k"
    using s by (simp_all add: k' lb flush_cwnd_rest) (simp_all add: eq flush_probe_rest snd_inv_def of_nat_diff)
  have "snd_inv ?k'" by (rule snd_inv_flush [OF s False ac cnt refl])
  moreover have "rcv_inv ?k'" "ack_ok ?k'" "unat (ackcount ?k') < 2 ^ 30" "timer_ok ?k'"
    using inv pt by (simp_all add: k' flush_cwnd_rest eq flush_probe_rest kcp_inv_def rcv_inv_def ack_ok_def timer_ok_def)
  moreover have "mtu_ok l ?k'"
  proof -
    have "\<forall>s \<in> set b. fits l s"
      using flush_filled_fit [OF _ fl w] fits_map_content [OF cb] inv by (simp add: kcp_inv_def mtu_ok_def)
    moreover have "set (snd_queue ?k') \<subseteq> set (snd_queue k)"
      by (simp add: k' eq set_drop_subset)
    ultimately show ?thesis
      using inv by (auto simp: k' flush_cwnd_rest eq flush_probe_rest kcp_inv_def mtu_ok_def segs_fit_def)
  qed
  ultimately show ?thesis by (simp add: kcp_inv_def)
qed

section \<open>The clock and the parser keep the invariant\<close>

lemma kcp_inv_clock: "kcp_inv l (k\<lparr>current := a, updated := b, ts_flush := c\<rparr>) \<longleftrightarrow> kcp_inv l k"
  by (simp add: kcp_inv_defs)

lemma ikcp_update_clock:
  "\<exists>b c. ikcp_update junk k now = ([], k\<lparr>current := now, updated := b, ts_flush := c\<rparr>) \<or>
         ikcp_update junk k now = ikcp_flush junk (k\<lparr>current := now, updated := b, ts_flush := c\<rparr>)"
proof -
  define u where "u = (if updated k = 0 then 1 else updated k)"
  define t0 where "t0 = (if updated k = 0 then now else ts_flush k)"
  have k0: "(if updated (k\<lparr>current := now\<rparr>) = 0
      then k\<lparr>current := now, updated := 1, ts_flush := current (k\<lparr>current := now\<rparr>)\<rparr>
      else k\<lparr>current := now\<rparr>) = k\<lparr>current := now, updated := u, ts_flush := t0\<rparr>"
    by (simp add: u_def t0_def)
  show ?thesis
    unfolding ikcp_update_def Let_def k0 by (auto split: if_splits intro: exI [of _ u])
qed

lemma ikcp_update_inv: "kcp_inv l k \<Longrightarrow> kcp_inv l (snd (ikcp_update junk k now))"
  using ikcp_update_clock [of junk k now] ikcp_flush_inv kcp_inv_clock by auto

lemma ikcp_update_ack_timer: "timer_ok k \<Longrightarrow> timer_ok (ikcp_update_ack k rtt)"
proof -
  assume ok: "timer_ok k"
  obtain a b c where s: "ikcp_update_ack k rtt = k\<lparr>rx_srtt := a, rx_rttval := b, rx_rto := c\<rparr>"
    using ikcp_update_ack_shape by blast
  have "\<exists>rto. rx_rto (ikcp_update_ack k rtt) = ibound (rx_minrto k) rto IKCP_RTO_MAX"
    by (auto simp: ikcp_update_ack_def Let_def)
  then obtain rto where c: "c = ibound (rx_minrto k) rto IKCP_RTO_MAX" using s by auto
  have "unat (rx_minrto k) \<le> unat c" "unat c \<le> 60000"
    using ibound_ge [of "rx_minrto k" IKCP_RTO_MAX rto] ibound_le [of "rx_minrto k" rto IKCP_RTO_MAX] ok
    by (simp_all add: c word_le_nat_alt IKCP_RTO_MAX_def timer_ok_def)
  then show ?thesis using ok by (simp add: s timer_ok_def)
qed

lemma shrunk_inv:
  assumes "kcp_inv l k" "snd_core k'" "set (snd_buf k') \<subseteq> set (snd_buf k)" "timer_ok k'"
    "k' = k\<lparr>snd_buf := b, nsnd_buf := n, rmt_wnd := w, rx_srtt := s, rx_rttval := v, rx_rto := r\<rparr>"
  shows "kcp_inv l (ikcp_shrink_buf k')"
proof -
  have "snd_inv (ikcp_shrink_buf k')" using shrink_buf_inv assms(2) by blast
  moreover have "rcv_inv (ikcp_shrink_buf k')" "ack_ok (ikcp_shrink_buf k')"
    "unat (ackcount (ikcp_shrink_buf k')) < 2 ^ 30" "mtu_ok l (ikcp_shrink_buf k')" "timer_ok (ikcp_shrink_buf k')"
    using assms by (auto simp: ikcp_shrink_buf_shape kcp_inv_defs)
  ultimately show ?thesis by (simp add: kcp_inv_def)
qed

lemma input_una_inv:
  assumes "kcp_inv l k"
  shows "kcp_inv l (ikcp_shrink_buf (ikcp_parse_una (k\<lparr>rmt_wnd := w\<rparr>) una))"
proof (rule shrunk_inv [OF assms])
  show "snd_core (ikcp_parse_una (k\<lparr>rmt_wnd := w\<rparr>) una)"
    using assms by (intro parse_una_core) (auto simp: kcp_inv_def snd_inv_def snd_core_def)
  show "set (snd_buf (ikcp_parse_una (k\<lparr>rmt_wnd := w\<rparr>) una)) \<subseteq> set (snd_buf k)"
    by (auto simp: ikcp_parse_una_shape una_remove_eq dest: set_dropWhileD)
  show "timer_ok (ikcp_parse_una (k\<lparr>rmt_wnd := w\<rparr>) una)"
    using assms by (simp add: ikcp_parse_una_shape kcp_inv_def timer_ok_def)
  show "ikcp_parse_una (k\<lparr>rmt_wnd := w\<rparr>) una =
      k\<lparr>snd_buf := fst (una_remove una (snd_buf k) (nsnd_buf k)),
        nsnd_buf := snd (una_remove una (snd_buf k) (nsnd_buf k)), rmt_wnd := w,
        rx_srtt := rx_srtt k, rx_rttval := rx_rttval k, rx_rto := rx_rto k\<rparr>"
    by (simp add: ikcp_parse_una_shape)
qed

lemma input_ack_inv:
  assumes "kcp_inv l k"
  shows "kcp_inv l (input_ack k sn ts)"
proof -
  define k0 where "k0 = (if itimediff (current k) ts \<ge> 0 then ikcp_update_ack k (current k - ts) else k)"
  have "\<exists>s v r. k0 = k\<lparr>rx_srtt := s, rx_rttval := v, rx_rto := r\<rparr>"
    unfolding k0_def by (rule input_rtt_shape)
  then obtain s v r where k0: "k0 = k\<lparr>rx_srtt := s, rx_rttval := v, rx_rto := r\<rparr>" by blast
  have core: "snd_core k0" using assms by (simp add: k0 kcp_inv_def snd_inv_def snd_core_def)
  have t: "timer_ok k0" using assms ikcp_update_ack_timer by (simp add: k0_def kcp_inv_def)
  obtain b n where pa: "ikcp_parse_ack k0 sn = k0\<lparr>snd_buf := b, nsnd_buf := n\<rparr>"
    using ikcp_parse_ack_shape by blast
  have "kcp_inv l (ikcp_shrink_buf (ikcp_parse_ack k0 sn))"
  proof (rule shrunk_inv [OF assms parse_ack_core [OF core]])
    show "set (snd_buf (ikcp_parse_ack k0 sn)) \<subseteq> set (snd_buf k)"
      using core by (auto simp: ikcp_parse_ack_eq k0 split: if_splits)
    show "timer_ok (ikcp_parse_ack k0 sn)" using t by (simp add: pa timer_ok_def)
    show "ikcp_parse_ack k0 sn = k\<lparr>snd_buf := b, nsnd_buf := n, rmt_wnd := rmt_wnd k, rx_srtt := s,
        rx_rttval := v, rx_rto := r\<rparr>"
      unfolding pa unfolding k0 by simp
  qed
  then show ?thesis by (simp add: input_ack_def k0_def Let_def)
qed

lemma ikcp_ack_push_count: "ackcount (ikcp_ack_push k sn ts) = ackcount k + 1"
  by (simp add: ikcp_ack_push_def Let_def)

lemma input_push_inv:
  assumes "kcp_inv l k" "Suc (unat (ackcount k)) < 2 ^ 30"
  shows "kcp_inv l (input_push k s) \<and> unat (ackcount (input_push k s)) \<le> Suc (unat (ackcount k))"
proof (cases "itimediff (seg_sn s) (rcv_nxt k + rcv_wnd k) < 0")
  case True
  define k0 where "k0 = ikcp_ack_push k (seg_sn s) (seg_ts s)"
  have c: "unat (ackcount k0) = Suc (unat (ackcount k))"
    using assms(2) by (simp add: k0_def ikcp_ack_push_count unat_word_ariths)
  obtain al cc bl where sh: "k0 = k\<lparr>acklist := al, ackcount := cc, ackblock := bl\<rparr>"
    unfolding k0_def using ikcp_ack_push_shape by blast
  have "ack_ok k0" unfolding k0_def using assms by (intro ikcp_ack_push_log) (simp_all add: kcp_inv_def)
  then have k0: "kcp_inv l k0"
    using assms c unfolding kcp_inv_def by (simp add: sh rcv_inv_def snd_inv_def timer_ok_def mtu_ok_def segs_fit_def)
  obtain b n q m x where pd: "ikcp_parse_data k0 s =
      k0\<lparr>rcv_buf := b, nrcv_buf := n, rcv_queue := q, nrcv_que := m, rcv_nxt := x\<rparr>"
    using ikcp_parse_data_shape by blast
  have "rcv_inv (ikcp_parse_data k0 s)" using k0 ikcp_parse_data_inv by (simp add: kcp_inv_def)
  moreover have "ikcp_parse_data k0 s = k0\<lparr>rcv_buf := b, nrcv_buf := n, rcv_queue := q, nrcv_que := m,
      rcv_nxt := x, probe := probe k0\<rparr>" by (simp add: pd)
  ultimately have "kcp_inv l (ikcp_parse_data k0 s)" by (rule kcp_inv_rcv_only [OF k0])
  moreover have "ackcount (ikcp_parse_data k0 s) = ackcount k0" by (simp add: pd)
  ultimately show ?thesis using True c by (simp add: input_push_eq k0_def)
qed (use assms in \<open>simp add: input_push_def\<close>)

lemma input_seg_inv:
  assumes "kcp_inv l k" "Suc (unat (ackcount k)) < 2 ^ 30"
  shows "kcp_inv l (fst (input_seg junk h body (k, a))) \<and>
     unat (ackcount (fst (input_seg junk h body (k, a)))) \<le> Suc (unat (ackcount k))"
proof -
  obtain cv cmd frg wnd ts sn una len where h: "h = (cv, cmd, frg, wnd, ts, sn, una, len)"
    by (rule header_cases)
  define k0 where "k0 = ikcp_shrink_buf (ikcp_parse_una (k\<lparr>rmt_wnd := ucast wnd\<rparr>) una)"
  have k0: "kcp_inv l k0" "ackcount k0 = ackcount k"
    using input_una_inv [OF assms(1)] by (simp_all add: k0_def) (simp add: kcp_frame)
  have "ackcount (input_ack k0 sn ts) = ackcount k0"
    using input_ack_shape [of k0 sn ts] by auto
  moreover have "kcp_inv l (k0\<lparr>probe := p\<rparr>)" for p using k0(1) by (simp add: kcp_inv_defs)
  ultimately show ?thesis
    using input_ack_inv [OF k0(1)] input_push_inv [OF k0(1)] k0 assms(2)
    by (simp add: h input_seg.simps Let_def k0_def [symmetric])
qed

lemma input_loop_inv:
  assumes "kcp_inv l k" "unat (ackcount k) + length d < 2 ^ 30" "input_loop junk d k a = Some r"
  shows "kcp_inv l (case r of Inl (_, k') \<Rightarrow> k' | Inr (k', _) \<Rightarrow> k')"
  using assms
proof (induction "length d" arbitrary: d k a rule: less_induct)
  case less
  show ?case
  proof (cases "length d < 28")
    case True
    then show ?thesis using less.prems input_loop_short [of d junk k a] by auto
  next
    case False
    then obtain h rr where dec: "decode_header d = Some (h, rr)" "length d = 28 + length rr"
      using hdr.dec_total [of d] by auto
    obtain cv cmd frg wnd ts sn una len where h: "h = (cv, cmd, frg, wnd, ts, sn, una, len)"
      by (rule header_cases)
    obtain k' a' where st: "input_seg junk h (take (unat len) rr) (k, a) = (k', a')"
      by (cases "input_seg junk h (take (unat len) rr) (k, a)")
    have inv': "kcp_inv l k'" "unat (ackcount k') \<le> Suc (unat (ackcount k))"
      using input_seg_inv [OF less.prems(1), of junk h "take (unat len) rr" a] less.prems(2) dec(2) st by auto
    have IH: "input_loop junk (drop (unat len) rr) k' a' = Some r \<Longrightarrow> ?thesis"
      using less.hyps [of "drop (unat len) rr" k' a'] inv' less.prems(2) dec(2) by auto
    show ?thesis
      using less.prems IH st False unfolding h
      by (auto simp: input_loop_unfold [OF _ dec(1) [unfolded h]] not_less split: if_splits)
  qed
qed

lemma fastack_mark_load: "list_all2 same_load (fastack_mark sn b) b"
  by (induction b) (auto simp: same_load_def content_def list_all2_same)

lemma ikcp_parse_fastack_inv: "kcp_inv l k \<Longrightarrow> kcp_inv l (ikcp_parse_fastack k sn ts)"
proof -
  assume "kcp_inv l k"
  then have "kcp_inv l (k\<lparr>snd_buf := fastack_mark sn (snd_buf k)\<rparr>)"
    using same_load_maps [OF fastack_mark_load [of sn "snd_buf k"]]
      snd_inv_relabel [of "fastack_mark sn (snd_buf k)" k] segs_fit_relabel [of "fastack_mark sn (snd_buf k)" k]
    by (simp add: kcp_inv_def mtu_ok_def rcv_inv_def ack_ok_def timer_ok_def)
  with \<open>kcp_inv l k\<close> show ?thesis by (simp add: ikcp_parse_fastack_def)
qed

lemma input_cwnd_shape: "\<exists>c i. input_cwnd k u = k\<lparr>cwnd := c, incr := i\<rparr>"
  by (intro exI [of _ "cwnd (input_cwnd k u)"] exI [of _ "incr (input_cwnd k u)"])
    (simp add: input_cwnd_def Let_def)

lemma ikcp_input_inv:
  assumes "kcp_inv l k" "unat (ackcount k) + length d < 2 ^ 30" "ikcp_input junk k d = Some (r, k')"
  shows "kcp_inv l k'"
proof -
  have cw: "kcp_inv l (input_cwnd k1 u)" if "kcp_inv l k1" for k1 u
    using input_cwnd_shape [of k1 u] that by (auto simp: kcp_inv_defs)
  show ?thesis
    using assms(3) input_loop_inv [OF assms(1,2), of junk "(False, 0, 0)"] assms(1) cw ikcp_parse_fastack_inv
    by (fastforce simp: ikcp_input_def Let_def split: if_splits option.splits sum.splits prod.splits)
qed

section \<open>Every reachable control block\<close>

text \<open>
  The calls a program can make on a control block, with every argument of their C types; a buffer that is sent has
  the given length. \<open>l\<close> is the largest MTU since something has been waiting to be sent. The one thing left out is an
  \<open>ikcp_input\<close> while \<open>2 ^ 30\<close> acknowledgements, 8 GiB of them, wait for a flush; at \<open>2 ^ 31\<close> the loop that looks for the
  new size of their array would not end.
\<close>

inductive kcp_reach :: "u32 \<Rightarrow> ikcpcb \<Rightarrow> bool" where
  create: "ikcp_create mal cv = Some k \<Longrightarrow> kcp_reach (mtu k) k"
| send: "kcp_reach l k \<Longrightarrow> kcp_reach l (snd (ikcp_send blk k (Some b) (int (length b))))"
| recv: "kcp_reach l k \<Longrightarrow> ikcp_recv k hb len = (r, out, k') \<Longrightarrow> kcp_reach l k'"
| input: "kcp_reach l k \<Longrightarrow> unat (ackcount k) + length d < 2 ^ 30 \<Longrightarrow> ikcp_input junk k d = Some (r, k') \<Longrightarrow>
    kcp_reach l k'"
| update: "kcp_reach l k \<Longrightarrow> kcp_reach l (snd (ikcp_update junk k now))"
| flush: "kcp_reach l k \<Longrightarrow> kcp_reach l (snd (ikcp_flush junk k))"
| setmtu: "kcp_reach l k \<Longrightarrow> ikcp_setmtu ok k (sint (m :: i32)) = (r, k') \<Longrightarrow> kcp_reach (mtu_bound l k') k'"
| set_interval: "kcp_reach l k \<Longrightarrow> kcp_reach l (snd (ikcp_interval k i))"
| set_nodelay: "kcp_reach l k \<Longrightarrow> kcp_reach l (snd (ikcp_nodelay k nd itv rs nc))"
| wndsize: "kcp_reach l k \<Longrightarrow> kcp_reach l (snd (ikcp_wndsize k (sint (sw :: i32)) (sint (rw :: i32))))"

lemma kcp_reach_inv: "kcp_reach l k \<Longrightarrow> kcp_inv l k"
proof (induction rule: kcp_reach.induct)
  case (create mal cv k)
  then show ?case by (rule ikcp_create_inv)
next
  case (recv l k hb len r out k')
  then show ?case using ikcp_recv_inv by blast
next
  case (input l k d junk r k')
  then show ?case using ikcp_input_inv by blast
next
  case (setmtu l k ok m r k')
  then show ?case using ikcp_setmtu_inv by blast
next
  case (wndsize l k sw rw)
  then show ?case using ikcp_wndsize_inv [of l k "sint sw" "sint rw"] sint_lt [of sw] sint_lt [of rw] by simp
qed (simp_all add: ikcp_send_inv ikcp_update_inv ikcp_flush_inv ikcp_interval_inv ikcp_nodelay_inv)

end
