(* ===== verification/Kcp_Timing.thy ===== *)
theory Kcp_Timing
  imports Kcp_Invariant
begin

unbundle bit_operations_syntax

text \<open>
  The clock of \<open>src/src/kcp.c\<close>: when \<open>ikcp_check\<close> asks to be called again, and when \<open>ikcp_update\<close>
  schedules the next flush, on 32-bit millisecond counters that wrap around.
\<close>

section \<open>Timing\<close>

lemma check_packets_spec:
  "check_packets now b tm = Some t \<Longrightarrow> t \<le> tm \<and> (\<forall>s \<in> set b. t \<le> itimediff (seg_resendts s) now)"
  by (induction b arbitrary: tm) (fastforce simp: Let_def split: if_splits)+

lemma check_packets_pos: "check_packets now b tm = Some t \<Longrightarrow> 0 < tm \<Longrightarrow> 0 < t"
  by (induction b arbitrary: tm) (auto simp: Let_def split: if_splits)

lemma itimediff_self [simp]: "itimediff now now = 0"
  by (simp add: itimediff_def)

lemma itimediff_add: "unat w < 2 ^ 31 \<Longrightarrow> itimediff (now + w) now = int (unat w)"
  by (simp add: itimediff_def sint_small)

lemma itimediff_minus: "itimediff a b < 0 \<Longrightarrow> itimediff a b \<noteq> - (2 ^ 31) \<Longrightarrow> itimediff b a = - itimediff a b"
proof -
  assume neg: "itimediff a b < 0" and low: "itimediff a b \<noteq> - (2 ^ 31)"
  have "unat (b - a) = 2 ^ 32 - unat (a - b)"
  proof -
    have "unat (0 - (a - b)) = 2 ^ 32 - unat (a - b)"
      using neg itimediff_lt_0 [of a b] by (simp only: unat_sub_if') simp
    then show ?thesis by simp
  qed
  then show ?thesis
    using neg low unat_lt_u32 [of "a - b"] by (auto simp: itimediff_def sint_conv_unat)
qed

lemma itimediff_range: "- (2 ^ 31) \<le> itimediff a b" "itimediff a b < 2 ^ 31"
  using unat_lt_u32 [of "a - b"] by (auto simp: itimediff_def sint_conv_unat)

lemma ikcp_check_bounds:
  assumes "kcp_inv l k"
  shows "0 \<le> itimediff (ikcp_check k now) now" "itimediff (ikcp_check k now) now \<le> int (unat (interval k))"
    "s \<in> set (snd_buf k) \<Longrightarrow> updated k \<noteq> 0 \<Longrightarrow>
       itimediff (ikcp_check k now) now \<le> max 0 (itimediff (seg_resendts s) now)"
proof -
  have iv: "unat (interval k) \<le> 5000" using assms by (simp add: kcp_inv_def timer_ok_def)
  define tf where "tf = (if itimediff now (ts_flush k) \<ge> 10000 \<or> itimediff now (ts_flush k) < -10000
      then now else ts_flush k)"
  define t where "t = check_packets now (snd_buf k) 0x7fffffff"
  have eq: "ikcp_check k now = (if updated k = 0 \<or> 0 \<le> itimediff now tf then now else case t of None \<Rightarrow> now
      | Some tm \<Rightarrow> now + (let m = word_of_int (if tm < itimediff tf now then tm else itimediff tf now)
         in if m \<ge> interval k then interval k else m))"
    unfolding tf_def t_def by (simp add: ikcp_check_def Let_def split: option.split)
  consider "ikcp_check k now = now" | tm where "updated k \<noteq> 0" "itimediff now tf < 0" "t = Some tm"
      "ikcp_check k now = now + (let m = word_of_int (if tm < itimediff tf now then tm else itimediff tf now)
         in if m \<ge> interval k then interval k else m)"
    using eq by (cases "updated k = 0 \<or> 0 \<le> itimediff now tf"; cases t) (simp_all add: not_le)
  then have "0 \<le> itimediff (ikcp_check k now) now \<and> itimediff (ikcp_check k now) now \<le> int (unat (interval k)) \<and>
    (s \<in> set (snd_buf k) \<longrightarrow> updated k \<noteq> 0 \<longrightarrow>
       itimediff (ikcp_check k now) now \<le> max 0 (itimediff (seg_resendts s) now))"
  proof cases
    case 1
    then show ?thesis by simp
  next
    case (2 tm)
    define d where "d = (if tm < itimediff tf now then tm else itimediff tf now)"
    define m where "m = (if word_of_int d \<ge> interval k then interval k else word_of_int d)"
    have tm: "tm \<le> 0x7fffffff" "0 < tm" "s \<in> set (snd_buf k) \<Longrightarrow> tm \<le> itimediff (seg_resendts s) now"
      using 2(3) check_packets_spec [of now "snd_buf k" "0x7fffffff" tm]
        check_packets_pos [of now "snd_buf k" "0x7fffffff" tm] by (auto simp: t_def)
    have "-10000 \<le> itimediff now tf" using 2(2) by (auto simp: tf_def split: if_splits)
    then have "itimediff tf now = - itimediff now tf" using 2(2) by (intro itimediff_minus) auto
    then have d: "0 \<le> d" "d < 2 ^ 31" "d \<le> tm" using tm 2(2) by (auto simp: d_def)
    have "unat (word_of_int d :: u32) = nat d" using d by (simp add: unat_of_int_u32)
    then have m: "int (unat m) \<le> d" "unat m \<le> unat (interval k)"
      using d by (auto simp: m_def word_le_nat_alt)
    have "ikcp_check k now = now + m" using 2(4) by (simp add: d_def m_def Let_def)
    then have "itimediff (ikcp_check k now) now = int (unat m)" using m(2) iv by (simp add: itimediff_add)
    then show ?thesis using m d(3) tm(3) by auto
  qed
  then show "0 \<le> itimediff (ikcp_check k now) now" "itimediff (ikcp_check k now) now \<le> int (unat (interval k))"
    "s \<in> set (snd_buf k) \<Longrightarrow> updated k \<noteq> 0 \<Longrightarrow>
       itimediff (ikcp_check k now) now \<le> max 0 (itimediff (seg_resendts s) now)"
    by blast+
qed

lemma flush_ts_flush:
  assumes "kcp_inv l k"
  shows "ts_flush (snd (ikcp_flush junk k)) = ts_flush k"
proof (cases "updated k = 0")
  case False
  have ac: "unat (ackcount k) < 2 ^ 31" and fl: "inflight k < 2 ^ 31" "unat (snd_wnd k) < 2 ^ 31"
    using assms by (auto simp: kcp_inv_def snd_inv_def snd_ordered_def inflight_def)
  have "ts_flush (flush_cwnd w r c l k') = ts_flush k'" for w r c l k'
    by (simp add: flush_cwnd_def Let_def)
  moreover have "ts_flush (flush_filled k) = ts_flush k"
    unfolding flush_filled_eq [OF fl] by (simp add: flush_probe_timer_def Let_def)
  moreover obtain b fl' w r c l where "snd (ikcp_flush junk k) =
      flush_cwnd w r c l ((flush_filled k)\<lparr>snd_buf := b, xmit := fl_xmit fl', state := fl_state (fl' :: flush_loop)\<rparr>)"
    using ikcp_flush_eq [OF False ac, of junk] by (metis snd_conv)
  ultimately show ?thesis by simp
qed (simp add: ikcp_flush_def)

lemma ikcp_update_next:
  assumes "kcp_inv l k"
  shows "0 < itimediff (ts_flush (snd (ikcp_update junk k now))) now \<and>
    itimediff (ts_flush (snd (ikcp_update junk k now))) now \<le> 10000"
proof -
  have iv: "10 \<le> unat (interval k)" "unat (interval k) \<le> 5000"
    using assms by (simp_all add: kcp_inv_def timer_ok_def)
  define u where "u = (if updated k = 0 then 1 else updated k)"
  define t0 where "t0 = (if updated k = 0 then now else ts_flush k)"
  define far where "far \<longleftrightarrow> itimediff now t0 \<ge> 10000 \<or> itimediff now t0 < -10000"
  define t1 where "t1 = (if far then now else t0)"
  define t2 where "t2 = (if itimediff now (t1 + interval k) \<ge> 0 then now + interval k else t1 + interval k)"
  let ?k = "\<lambda>t. k\<lparr>current := now, updated := u, ts_flush := t\<rparr>"
  have eq: "ikcp_update junk k now =
      (if itimediff now t1 \<ge> 0 then ikcp_flush junk (?k t2) else ([], ?k t1))"
    by (auto simp: ikcp_update_def Let_def u_def t0_def t1_def t2_def far_def)
  have "ts_flush (snd (ikcp_flush junk (?k t2))) = t2"
    using flush_ts_flush [of l "?k t2" junk] assms kcp_inv_clock by simp
  then have ts: "ts_flush (snd (ikcp_update junk k now)) = (if itimediff now t1 \<ge> 0 then t2 else t1)"
    by (simp add: eq)
  have near: "-10000 \<le> itimediff now t1" "itimediff now t1 < 10000"
    by (auto simp: t1_def far_def)
  show ?thesis
  proof (cases "itimediff now t1 \<ge> 0")
    case False
    then show ?thesis using near itimediff_minus [of now t1] by (simp add: ts)
  next
    case True
    show ?thesis
    proof (cases "itimediff now (t1 + interval k) \<ge> 0")
      case True
      then show ?thesis using iv \<open>itimediff now t1 \<ge> 0\<close> by (simp add: ts t2_def itimediff_add)
    next
      case False
      have "itimediff now (t1 + interval k) = itimediff now t1 - int (unat (interval k))"
        using itimediff_base [of now t1 "t1 + interval k"] True near iv itimediff_eq [of now t1]
          itimediff_ge_0 [of now t1] by auto
      then show ?thesis
        using False True iv near itimediff_minus [of now "t1 + interval k"] by (simp add: ts t2_def)
    qed
  qed
qed

end
