(* ===== verification/Kcp_Properties.thy ===== *)
theory Kcp_Properties
  imports Kcp_Timing
begin

unbundle bit_operations_syntax

text \<open>
  The correctness properties of the KCP implementation in \<open>src/src/kcp.c\<close>, stated over its operations,
  each with a concrete instance.
\<close>

section \<open>Sample values\<close>

definition sample_seg :: ikcpseg where
  "sample_seg = \<lparr>seg_conv = 0, seg_cmd = 0, seg_frg = 0, seg_wnd = 0, seg_ts = 0, seg_sn = 0, seg_una = 0,
     seg_len = 0, seg_resendts = 0, seg_rto = 0, seg_fastack = 0, seg_xmit = 0, seg_data = []\<rparr>"

definition sample_kcb :: ikcpcb where
  "sample_kcb = the (ikcp_create (\<lambda>_. True) 7)"

definition sample_started :: ikcpcb where
  "sample_started = snd (ikcp_update sample_seg sample_kcb 0)"

definition sample_content :: "nat \<Rightarrow> content" where
  "sample_content i = (0, 1, [of_nat i])"

definition sample_push :: "nat \<Rightarrow> ikcpseg" where
  "sample_push i = sample_seg\<lparr>seg_conv := 7, seg_cmd := IKCP_CMD_PUSH, seg_sn := of_nat i, seg_len := 1,
     seg_data := [of_nat i]\<rparr>"

lemma sample_kcb_eq: "ikcp_create (\<lambda>_. True) 7 = Some sample_kcb"
  by (simp add: sample_kcb_def ikcp_create_def)

lemmas sample_kcb_simps = sample_kcb_def ikcp_create_def ikcp_consts

text \<open>The first \<open>ikcp_update\<close> starts the clock and opens the congestion window.\<close>

lemma sample_started_eq:
  "sample_started = sample_kcb\<lparr>updated := 1, ts_flush := 100, cwnd := 1, incr := 1372\<rparr>"
  by (simp add: sample_started_def ikcp_update_def ikcp_flush_def Let_def sample_kcb_simps itimediff_def
      flush_probe_timer_def flush_probes_def flush_window_def flush_cwnd_def flush_move.simps imin_def
      ikcp_output_def)

lemma sample_reach: "kcp_reach 1400 sample_kcb" "kcp_reach 1400 sample_started"
proof -
  have "mtu sample_kcb = 1400" by (simp add: sample_kcb_simps)
  then show "kcp_reach 1400 sample_kcb" using kcp_reach.create [OF sample_kcb_eq] by simp
  then show "kcp_reach 1400 sample_started" unfolding sample_started_def by (rule kcp_reach.update)
qed

section \<open>Two endpoints\<close>

text \<open>
  C1. A message handed to \<open>ikcp_send\<close> arrives: the datagrams the next \<open>ikcp_flush\<close> puts out, delivered
  in any order and any number of times (each at least once) to a receiver that waits for the
  sender's next number, let \<open>ikcp_recv\<close> return exactly the message. The sender has nothing else
  queued or in flight and a window that takes the message's fragments; fragmentation, header
  encoding, reassembly and the acknowledgements and probes that travel along are those of the code.
\<close>

theorem message_transfer:
  fixes k1 k2 :: ikcpcb
  assumes mal: "\<And>i. mal i = Some (blk i)"
    and snd: "0 < unat (mss k1)" "mtu k1 = mss k1 + 28" "unat (mss k1) + 28 < 2 ^ 31" "stream k1 = 0"
      "snd_queue k1 = []" "snd_buf k1 = []" "snd_una k1 = snd_nxt k1" "updated k1 \<noteq> 0"
      "unat (ackcount k1) < 2 ^ 31" "unat (snd_wnd k1) < 2 ^ 31"
    and msg: "length b < 2 ^ 31" "frag_count (unat (mss k1)) (length b) < 128"
      "frag_count (unat (mss k1)) (length b) \<le> unat (flush_window k1)"
    and rcv: "conv k2 = conv k1" "rcv_inv k2" "rcv_queue k2 = []" "rcv_buf k2 = []"
      "rcv_nxt k2 = snd_nxt k1" "frag_count (unat (mss k1)) (length b) \<le> unat (rcv_wnd k2)"
    and outs: "outs = fst (ikcp_flush j1 (snd (ikcp_send mal k1 (Some b) (int (length b)))))"
    and ix: "set ix = {..<length outs}" and len: "int (length b) \<le> len"
  shows "\<exists>k'. ikcp_recv (input_all j2 (map (nth outs) ix) k2) True len = (int (length b), b, k')"
  by (rule message_arrives [OF mal snd msg rcv outs ix len])

theorem message_transfer_witness:
  "\<exists>k'. ikcp_recv (input_all sample_seg
     (fst (ikcp_flush sample_seg (snd (ikcp_send (\<lambda>_. Some sample_seg) sample_started (Some [1, 2, 3]) 3))))
     sample_kcb) True 10 = (3, [1, 2, 3], k')"
proof -
  let ?o = "fst (ikcp_flush sample_seg (snd (ikcp_send (\<lambda>_. Some sample_seg) sample_started (Some [1, 2, 3]) 3)))"
  have st: "0 < unat (mss sample_started)" "mtu sample_started = mss sample_started + 28"
    "unat (mss sample_started) + 28 < 2 ^ 31" "stream sample_started = 0" "snd_queue sample_started = []"
    "snd_buf sample_started = []" "snd_una sample_started = snd_nxt sample_started" "updated sample_started \<noteq> 0"
    "unat (ackcount sample_started) < 2 ^ 31" "unat (snd_wnd sample_started) < 2 ^ 31"
    "frag_count (unat (mss sample_started)) 3 = 1" "1 \<le> unat (flush_window sample_started)"
    "conv sample_kcb = conv sample_started" "rcv_nxt sample_kcb = snd_nxt sample_started"
    by (simp_all add: sample_started_eq sample_kcb_simps frag_count_def flush_window_def imin_def)
  have rc: "rcv_inv sample_kcb" "rcv_queue sample_kcb = []" "rcv_buf sample_kcb = []" "1 \<le> unat (rcv_wnd sample_kcb)"
    using kcp_reach_inv [OF sample_reach(1)] by (simp_all add: kcp_inv_def) (simp_all add: sample_kcb_simps)
  have "\<exists>k'. ikcp_recv (input_all sample_seg (map (nth ?o) [0..<length ?o]) sample_kcb) True 10 =
      (int (length [1, 2, 3 :: u8]), [1, 2, 3], k')"
    by (rule message_transfer [where ?k1.0 = sample_started and blk = "\<lambda>_. sample_seg"])
      (use st rc in \<open>auto simp: atLeast0LessThan numeral_3_eq_3 [symmetric]\<close>)
  then show ?thesis by (simp add: map_nth)
qed

section \<open>The receiver against any network\<close>

text \<open>
  C2. Whatever arrives, in whatever order and however often, the bytes the application has read are
  the payloads of the first segments of the sender's stream, in order, without loss, repetition or
  foreign bytes, and the receive queue holds the segments that follow.
\<close>

theorem receiver_delivers_stream:
  assumes "rx_run f done out k"
  shows "done = map f [0..<length done] \<and> out = concat (map content_bytes done) \<and>
     map content (rcv_queue k) = map f [length done..<length done + length (rcv_queue k)]"
  using rx_run_inv [OF assms] unfolding tracks_def by blast

lemma sample_run: "\<exists>k. rx_run sample_content [(0, 1, [0])] [0] k"
proof -
  define k1 where "k1 = input_push sample_kcb (sample_push 1)"
  define k2 where "k2 = input_push k1 (sample_push 0)"
  obtain r bs k3 where rd: "ikcp_recv k2 True 10 = (r, bs, k3)" by (cases "ikcp_recv k2 True 10")
  have q: "rcv_queue k1 = []" "rcv_queue k2 = [sample_push 0, sample_push 1]"
    "fst (ikcp_recv k2 True 10) = 1" "fst (snd (ikcp_recv k2 True 10)) = [0]"
    "map content (msg_prefix [sample_push 0, sample_push 1]) = [(0, 1, [0])]"
    unfolding k2_def k1_def by code_simp+
  have nth: "is_nth sample_content i (sample_push i)" for i
    by (simp add: is_nth_def sample_push_def sample_seg_def sample_content_def content_def)
  have "rcv_inv sample_kcb" using kcp_reach_inv [OF sample_reach(1)] by (simp add: kcp_inv_def)
  then have "rx_run sample_content [] [] sample_kcb"
    by (rule rx_run.start) (simp_all add: sample_kcb_simps)
  from rx_run.arrive [OF this nth [of 1], folded k1_def] have "rx_run sample_content [] [] k1"
    by (simp add: sample_kcb_simps)
  from rx_run.arrive [OF this nth [of 0], folded k2_def] have "rx_run sample_content [] [] k2" by (simp add: q(1))
  from rx_run.read [OF this _ rd] show ?thesis using q rd by auto
qed

theorem receiver_delivers_stream_witness:
  "\<exists>k. rx_run sample_content [(0, 1, [0])] [0] k \<and>
     [(0, 1, [0])] = map sample_content [0..<length [(0 :: u32, 1 :: u32, [0 :: u8])]]"
proof -
  obtain k where k: "rx_run sample_content [(0, 1, [0])] [0] k" using sample_run by blast
  show ?thesis using k conjunct1 [OF receiver_delivers_stream [OF k]] by (intro exI [of _ k] conjI)
qed

text \<open>
  Segments that fill a gap-free stretch of the stream, arriving in any order with repetitions, all
  reach the receive queue in the stream's order, and the receive buffer is empty again, provided the
  queue has room for them within the receive window.
\<close>

theorem any_arrival_order:
  assumes "tracks f m n k" "rcv_buf k = []" "list_all2 (is_nth f) ps ss" "set ps = {n..<n + w}"
    "length (rcv_queue k) + w \<le> unat (rcv_wnd k)"
  shows "let k' = fold (\<lambda>s k. ikcp_parse_data k s) ss k
    in map content (rcv_queue k') = map content (rcv_queue k) @ map f [n..<n + w] \<and> rcv_buf k' = [] \<and>
       rcv_nxt k' = rcv_nxt k + of_nat w"
proof -
  let ?k' = "fold (\<lambda>s k. ikcp_parse_data k s) ss k"
  have 1: "tracks f m (n + w) ?k'" "rcv_buf ?k' = []"
    using any_order_delivery [OF assms] by auto
  have "map content (rcv_queue ?k') = map f [m..<n + w]" using 1(1) by (simp only: tracks_def)
  also have "[m..<n + w] = [m..<n] @ [n..<n + w]"
    using assms(1) by (intro upt_add_eq_append) (simp only: tracks_def)
  also have "map f ([m..<n] @ [n..<n + w]) = map content (rcv_queue k) @ map f [n..<n + w]"
    using assms(1) by (simp only: tracks_def map_append)
  finally have q: "map content (rcv_queue ?k') = map content (rcv_queue k) @ map f [n..<n + w]" .
  have "rcv_nxt ?k' = of_nat (n + w)" "rcv_nxt k = of_nat n"
    using 1(1) assms(1) by (simp_all only: tracks_def)
  with q 1(2) show ?thesis by (simp only: Let_def of_nat_add)
qed

theorem any_arrival_order_witness:
  "let k' = fold (\<lambda>s k. ikcp_parse_data k s) [sample_push 1, sample_push 0, sample_push 1] sample_kcb
    in map content (rcv_queue k') = map content (rcv_queue sample_kcb) @ map sample_content [0..<0 + 2] \<and>
       rcv_buf k' = [] \<and> rcv_nxt k' = rcv_nxt sample_kcb + of_nat 2"
proof (rule any_arrival_order [where m = 0 and ps = "[1, 0, 1]"])
  have "rcv_inv sample_kcb" using kcp_reach_inv [OF sample_reach(1)] by (simp add: kcp_inv_def)
  then show "tracks sample_content 0 0 sample_kcb" by (simp add: tracks_def sample_kcb_simps)
  show "list_all2 (is_nth sample_content) [1, 0, 1] [sample_push 1, sample_push 0, sample_push 1]"
    by (simp add: is_nth_def sample_push_def sample_seg_def sample_content_def content_def)
qed (auto simp: sample_kcb_simps)

section \<open>Hostile input\<close>

text \<open>
  C3. \<open>ikcp_input\<close> never reads past the end of a datagram, whatever its bytes are, and always returns
  one of its documented codes.
\<close>

theorem input_within_bounds:
  "\<exists>r k'. ikcp_input junk k d = Some (r, k') \<and> r \<in> {0, -1, -2, -3}"
  using ikcp_input_codes [of junk k d] ikcp_input_safe [of junk k d] by auto

text \<open>
  C4. Every control block that a program reaches from \<open>ikcp_create\<close> by the calls of the interface, with all arguments of
  their C types and whatever is in the datagrams, satisfies the invariant \<open>kcp_inv\<close>: the counters match the
  queues, both segment buffers are ordered by number, the acknowledgement array is within its allocation, the
  timers are in range, and every segment waiting to be sent fits \<open>l\<close>, the largest MTU since something has been waiting. \<open>ikcp_setmtu\<close>
  may be called with any number at any time. Datagrams may come in as long as fewer than \<open>2 ^ 30\<close> acknowledgements
  wait for a flush; what an output buffer that is too small makes of the memory behind it is not part of the model; its size is the next property.
\<close>

theorem reachable_invariant:
  assumes "kcp_reach l k"
  shows "kcp_inv l k"
  using kcp_reach_inv [OF assms] .

theorem reachable_invariant_witness: "kcp_inv 1400 sample_started"
  by (rule reachable_invariant [OF sample_reach(2)])

section \<open>Sending\<close>

lemma reach_flush_facts:
  assumes "kcp_inv l k"
  shows "unat (ackcount k) < 2 ^ 31" "segs_fit l k" "inflight k < 2 ^ 31" "unat (snd_wnd k) < 2 ^ 31"
  using assms by (auto simp: kcp_inv_def mtu_ok_def snd_inv_def snd_ordered_def inflight_def)


definition sample_sending :: ikcpcb where
  "sample_sending = snd (ikcp_send (\<lambda>_. Some sample_seg) sample_started (Some [1, 2, 3]) 3)"

lemma sample_sending_eq:
  "sample_sending = sample_started\<lparr>snd_queue := [sample_seg\<lparr>seg_len := 3, seg_data := [1, 2, 3]\<rparr>], nsnd_que := 1\<rparr>"
  by (simp add: sample_sending_def ikcp_send_def send_split_def send_count_def Let_def sample_started_eq
      sample_kcb_simps sample_seg_def)

lemma sample_sending_reach: "kcp_reach 1400 sample_sending"
  using kcp_reach.send [OF sample_reach(2), of "\<lambda>_. Some sample_seg" "[1, 2, 3]"] by (simp add: sample_sending_def)


text \<open>A message of 300 bytes that waits while the MTU becomes 50: the datagram of 328 bytes goes into a buffer of 234.\<close>

definition sample_lowered :: ikcpcb where
  "sample_lowered = snd (ikcp_setmtu True (snd (ikcp_send (\<lambda>_. Some sample_seg) sample_started (Some (replicate 300 1)) 300)) 50)"

theorem lowered_mtu_overruns:
  "\<exists>l d. kcp_reach l sample_lowered \<and> fst (ikcp_flush sample_seg sample_lowered) = [d] \<and> length d = 328 \<and> buffer_size sample_lowered = 234"
proof -
  let ?k = "snd (ikcp_send (\<lambda>_. Some sample_seg) sample_started (Some (replicate 300 1)) 300)"
  have "kcp_reach 1400 ?k"
    using kcp_reach.send [OF sample_reach(2), of "\<lambda>_. Some sample_seg" "replicate 300 1"] by simp
  then have "kcp_reach (mtu_bound 1400 sample_lowered) sample_lowered"
    by (rule kcp_reach.setmtu [where m = 50 and r = 0 and ok = True]) (simp add: sample_lowered_def ikcp_setmtu_def ikcp_consts)
  moreover have "(case ikcp_flush sample_seg sample_lowered of (ds, _) \<Rightarrow> map length ds) = [328] \<and> buffer_size sample_lowered = 234"
    unfolding sample_lowered_def sample_started_eq by code_simp
  ultimately show ?thesis by (auto split: prod.splits simp: length_Suc_conv)
qed


text \<open>
  C6. A flush loses, alters and repeats nothing: send buffer and send queue together hold the same
  segment contents as before, the segments it moves into the send buffer get the next numbers in
  order, no more are moved than the window allows, and the congestion window is at least one segment
  afterwards, so that the connection never stalls.
\<close>

theorem flush_keeps_data:
  fixes k :: ikcpcb and junk :: ikcpseg
  assumes "kcp_reach l k" "updated k \<noteq> 0"
  shows "let k' = snd (ikcp_flush junk k); c = min (length (snd_queue k)) (unat (flush_window k) - inflight k)
    in map content (snd_buf k') @ map content (snd_queue k') = map content (snd_buf k) @ map content (snd_queue k) \<and>
       map seg_sn (snd_buf k') = map seg_sn (snd_buf k) @ map (\<lambda>i. snd_nxt k + of_nat i) [0..<c] \<and>
       inflight k' \<le> max (inflight k) (unat (flush_window k)) \<and> 1 \<le> cwnd k'"
proof -
  let ?k' = "snd (ikcp_flush junk k)"
  let ?c = "min (length (snd_queue k)) (unat (flush_window k) - inflight k)"
  note f = reach_flush_facts [OF kcp_reach_inv [OF assms(1)]]
  note c = flush_conserves [OF assms(2) f(1,3,4), of junk]
  have "inflight k + ?c < 2 ^ 32"
    using f(3,4) flush_window_le(1) [of k] by (auto simp: word_le_nat_alt)
  then have "unat ((snd_nxt k - snd_una k) + of_nat ?c) = inflight k + ?c"
    by (subst unat_add_small) (simp_all add: inflight_def unat_of_nat_u32)
  then have "inflight ?k' = inflight k + ?c"
    unfolding inflight_def c(3,4) by (simp add: algebra_simps)
  then have "inflight ?k' \<le> max (inflight k) (unat (flush_window k))" by simp
  with c(1,2) cwnd_flush [OF assms(2), of junk] show ?thesis unfolding Let_def by blast
qed

theorem flush_keeps_data_witness:
  "let k' = snd (ikcp_flush sample_seg sample_sending);
       c = min (length (snd_queue sample_sending)) (unat (flush_window sample_sending) - inflight sample_sending)
    in map content (snd_buf k') @ map content (snd_queue k') =
         map content (snd_buf sample_sending) @ map content (snd_queue sample_sending) \<and>
       map seg_sn (snd_buf k') = map seg_sn (snd_buf sample_sending) @ map (\<lambda>i. snd_nxt sample_sending + of_nat i) [0..<c] \<and>
       inflight k' \<le> max (inflight sample_sending) (unat (flush_window sample_sending)) \<and> 1 \<le> cwnd k'"
  by (rule flush_keeps_data [OF sample_sending_reach]) (simp add: sample_sending_eq sample_started_eq)

lemma sent_segs_due:
  assumes "s \<in> set b" "seg_xmit s = 0 \<or> itimediff (current k) (seg_resendts s) \<ge> 0"
  shows "\<exists>t \<in> set (sent_segs k r rt wnd b). same_load t s \<and> seg_xmit t = seg_xmit s + 1"
  using assms(1)
proof (induction b)
  case (Cons u b)
  show ?case
  proof (cases "s = u")
    case True
    then have "\<exists>reason t. flush_decide k r rt u = (Some reason, t) \<and> seg_xmit t = seg_xmit u + 1"
      using assms(2) by (auto simp: flush_decide_def Let_def)
    then obtain reason t where t: "flush_decide k r rt u = (Some reason, t)" "seg_xmit t = seg_xmit u + 1" by blast
    have "same_load t u" using flush_decide_load [of k r rt u] t(1) by simp
    then have "same_load (stamp k wnd t) u" by (simp add: same_load_def stamp_def content_def)
    moreover have "seg_xmit (stamp k wnd t) = seg_xmit u + 1" using t(2) by (simp add: stamp_def)
    ultimately show ?thesis using True t(1) by auto
  next
    case False
    then show ?thesis using Cons by auto
  qed
qed simp

text \<open>
  C7. A flush retransmits: every segment in the send buffer whose resend time has come, or that was never
  sent, is on the wire in one of the datagrams, with its transmission count raised.
\<close>

theorem flush_retransmits:
  assumes "kcp_reach l k" "updated k \<noteq> 0" "s \<in> set (snd_buf k)"
    "seg_xmit s = 0 \<or> itimediff (current k) (seg_resendts s) \<ge> 0"
  shows "\<exists>ps t. fst (ikcp_flush junk k) = map datagram ps \<and> t \<in> set (concat ps) \<and> same_load t s \<and>
    seg_xmit t = seg_xmit s + 1"
proof -
  note f = reach_flush_facts [OF kcp_reach_inv [OF assms(1)]]
  obtain ps where ps: "fst (ikcp_flush junk k) = map datagram ps"
      "concat ps = flush_control junk k @ flush_sent k"
    using flush_datagrams [OF assms(2) f] by blast
  have "s \<in> set (snd_buf (flush_filled k))" "current (flush_filled k) = current k"
    unfolding flush_filled_eq [OF f(3,4)] using assms(3) by (auto simp: flush_probe_timer_def Let_def)
  then obtain t where "t \<in> set (flush_sent k)" "same_load t s" "seg_xmit t = seg_xmit s + 1"
    using sent_segs_due [of s "snd_buf (flush_filled k)" "flush_filled k"] assms(4)
    by (fastforce simp: flush_sent_def Let_def)
  with ps show ?thesis by (intro exI [of _ ps] exI [of _ t]) simp
qed

definition sample_due :: ikcpcb where
  "sample_due = snd (ikcp_update sample_seg (snd (ikcp_flush sample_seg (snd (ikcp_send (\<lambda>_. Some sample_seg)
     (snd (ikcp_update sample_seg (snd (ikcp_interval sample_kcb 5000)) 0)) (Some [1, 2, 3]) 3)))) 300)"

lemma sample_due_reach: "kcp_reach 1400 sample_due"
  using kcp_reach.update [OF kcp_reach.flush [OF kcp_reach.send [OF kcp_reach.update [OF kcp_reach.set_interval
    [OF sample_reach(1)]], where b = "[1, 2, 3]"]]]
  by (simp add: sample_due_def)

definition sample_view :: "ikcpcb \<Rightarrow> u32 \<times> u32 \<times> u32 list \<times> u32 list \<times> nat \<times> u32" where
  "sample_view k = (updated k, current k, map seg_resendts (snd_buf k), map seg_sn (snd_buf k), inflight k, snd_una k)"

lemma sample_due_view: "sample_view sample_due = (1, 300, [225], [0], 1, 0)"
  by code_simp

lemmas sample_due_buf = sample_due_view [unfolded sample_view_def prod.inject]

theorem flush_retransmits_witness:
  "\<exists>s ps t. snd_buf sample_due = [s] \<and> fst (ikcp_flush sample_seg sample_due) = map datagram ps \<and>
     t \<in> set (concat ps) \<and> same_load t s \<and> seg_xmit t = seg_xmit s + 1"
proof -
  obtain s where s: "snd_buf sample_due = [s]" "seg_resendts s = 225"
    using sample_due_buf by auto
  have "itimediff (current sample_due) (seg_resendts s) \<ge> 0"
    using s(2) sample_due_buf by (simp add: itimediff_def)
  then show ?thesis
    using flush_retransmits [OF sample_due_reach, of s sample_seg] s sample_due_buf by auto
qed

section \<open>Acknowledgements\<close>

text \<open>
  C8. The wire format is read back as it was written: the parser of \<open>ikcp_input\<close> recovers from the 28
  bytes \<open>ikcp_encode_seg\<close> writes exactly the header fields, and leaves the bytes after them.
\<close>

theorem header_round_trip:
  "length (ikcp_encode_seg [] s) = 28 \<and>
   (\<exists>d. ikcp_decode64u (ikcp_encode_seg [] s @ r) = Some (seg_conv s, d) \<and>
      decode_fields d = Some ((ucast (seg_cmd s), ucast (seg_frg s), ucast (seg_wnd s), seg_ts s, seg_sn s,
        seg_una s, seg_len s), r))"
  using hdr.dec_img [of "seg_header s" r] length_encode_seg [of "[]" s]
  by (simp add: ikcp_encode_seg_header decode_header_fields seg_header.simps)

text \<open>
  Acknowledgements remove exactly what they acknowledge: \<open>ikcp_parse_ack\<close> takes out the one segment
  with the given number when it is in flight and nothing otherwise, and a cumulative acknowledgement
  in \<open>ikcp_parse_una\<close> takes out the segments before it, on numbers that wrap around.
\<close>

theorem acks_remove_exactly:
  assumes "kcp_reach l k"
  shows "snd_buf (ikcp_parse_ack k sn) =
      (if unat (sn - snd_una k) < inflight k then filter (\<lambda>s. seg_sn s \<noteq> sn) (snd_buf k) else snd_buf k) \<and>
    (unat (una - snd_una k) \<le> inflight k \<longrightarrow>
      snd_buf (ikcp_parse_una k una) =
        filter (\<lambda>s. unat (una - snd_una k) \<le> unat (seg_sn s - snd_una k)) (snd_buf k))"
proof -
  have "snd_core k" using kcp_reach_inv [OF assms] snd_inv_core by (simp add: kcp_inv_def)
  then show ?thesis
    using ikcp_parse_una_eq [of k una] by (simp add: ikcp_parse_ack_eq ahead_def)
qed

theorem acks_remove_exactly_witness:
  "snd_buf (ikcp_parse_ack sample_due 0) = [] \<and> snd_buf (ikcp_parse_una sample_due 1) = []"
proof -
  obtain s where s: "snd_buf sample_due = [s]" "seg_sn s = 0" "inflight sample_due = 1" "snd_una sample_due = 0"
    using sample_due_buf by auto
  show ?thesis using acks_remove_exactly [OF sample_due_reach, of 0 1] by (simp add: s)
qed

text \<open>
  C13. The acknowledgement array is a log: within its bound of \<open>2 ^ 30\<close> entries \<open>ikcp_ack_push\<close> appends one
  entry, growing the allocation when needed and keeping the earlier entries; a flush empties it.
\<close>

theorem ack_list_is_log:
  assumes "kcp_reach l k"
  shows "acks (ikcp_ack_push k sn ts) = acks k @ [(sn, ts)] \<and>
    2 * unat (ackcount (ikcp_ack_push k sn ts)) \<le> length (acklist (ikcp_ack_push k sn ts)) \<and>
    (updated k \<noteq> 0 \<longrightarrow> acks (snd (ikcp_flush junk k)) = [])"
proof -
  have inv: "ack_ok k" "unat (ackcount k) < 2 ^ 30" using kcp_reach_inv [OF assms] by (auto simp: kcp_inv_def)
  note log = ikcp_ack_push_log [OF inv, of sn ts]
  note f = reach_flush_facts [OF kcp_reach_inv [OF assms]]
  have "ackcount (snd (ikcp_flush junk k)) = 0" if up: "updated k \<noteq> 0"
  proof -
    obtain b fl' w r c l where "snd (ikcp_flush junk k) = flush_cwnd w r c l
        ((flush_filled k)\<lparr>snd_buf := b, xmit := fl_xmit fl', state := fl_state (fl' :: flush_loop)\<rparr>)"
      using ikcp_flush_eq [OF up f(1), of junk] by (metis snd_conv)
    then show ?thesis unfolding flush_filled_eq [OF f(3,4)] by (simp add: flush_cwnd_rest flush_probe_rest)
  qed
  then show ?thesis using log by (auto simp: ack_ok_def word_le_nat_alt acks_def)
qed

theorem ack_list_is_log_witness:
  "acks (ikcp_ack_push sample_started 5 6) = acks sample_started @ [(5, 6)] \<and>
    2 * unat (ackcount (ikcp_ack_push sample_started 5 6)) \<le> length (acklist (ikcp_ack_push sample_started 5 6)) \<and>
    acks (snd (ikcp_flush sample_seg sample_started)) = []"
  using ack_list_is_log [OF sample_reach(2), of 5 6 sample_seg] by (simp add: sample_started_eq)

section \<open>Scheduling and return codes\<close>

text \<open>
  The scheduler is never late: \<open>ikcp_check\<close> asks to be called between now and one interval from now,
  never after the resend time of a segment in flight, and after an \<open>ikcp_update\<close> the next flush lies in
  the next ten seconds, across the wrap-around of the millisecond clock.
\<close>

theorem schedule_bounds:
  assumes "kcp_reach l k"
  shows "0 \<le> itimediff (ikcp_check k now) now \<and> itimediff (ikcp_check k now) now \<le> int (unat (interval k)) \<and>
    (\<forall>s \<in> set (snd_buf k). updated k \<noteq> 0 \<longrightarrow>
       itimediff (ikcp_check k now) now \<le> max 0 (itimediff (seg_resendts s) now)) \<and>
    0 < itimediff (ts_flush (snd (ikcp_update junk k now))) now \<and>
    itimediff (ts_flush (snd (ikcp_update junk k now))) now \<le> 10000"
  using ikcp_check_bounds [OF kcp_reach_inv [OF assms], where now = now] ikcp_update_next [OF kcp_reach_inv [OF assms], of junk now]
  by blast

theorem schedule_bounds_witness:
  "\<exists>s. snd_buf sample_due = [s] \<and> 0 \<le> itimediff (ikcp_check sample_due 400) 400 \<and>
    itimediff (ikcp_check sample_due 400) 400 \<le> int (unat (interval sample_due)) \<and>
    itimediff (ikcp_check sample_due 400) 400 \<le> max 0 (itimediff (seg_resendts s) 400) \<and>
    0 < itimediff (ts_flush (snd (ikcp_update sample_seg sample_due 400))) 400 \<and>
    itimediff (ts_flush (snd (ikcp_update sample_seg sample_due 400))) 400 \<le> 10000"
proof -
  obtain s where s: "snd_buf sample_due = [s]" using sample_due_buf by auto
  have up: "updated sample_due \<noteq> 0" using sample_due_buf by simp
  show ?thesis
    using schedule_bounds [OF sample_due_reach, of 400 sample_seg] s up by (intro exI [of _ s]) simp
qed

text \<open>
  The return code of \<open>ikcp_recv\<close> is -1 on an empty queue, -2 when the first message is incomplete, -3
  when it does not fit the caller's buffer, and otherwise the length \<open>ikcp_peeksize\<close> announces; on an
  error nothing is written and the control block is unchanged.
\<close>

theorem recv_codes:
  "fst (ikcp_recv k hb len) =
     (if rcv_queue k = [] then -1 else if ikcp_peeksize k < 0 then -2
      else if \<bar>len\<bar> < ikcp_peeksize k then -3 else ikcp_peeksize k) \<and>
   (fst (ikcp_recv k hb len) < 0 \<longrightarrow> snd (ikcp_recv k hb len) = ([], k))"
proof -
  obtain r out k' where rd: "ikcp_recv k hb len = (r, out, k')" by (cases "ikcp_recv k hb len")
  have "fst (ikcp_recv k hb len) = (if rcv_queue k = [] then -1 else if ikcp_peeksize k < 0 then -2
      else if \<bar>len\<bar> < ikcp_peeksize k then -3 else ikcp_peeksize k)"
    using ikcp_peeksize_nonneg(2) [of k]
    by (cases "len < 0") (auto simp: ikcp_recv_def Let_def recv_merge_peek recv_merge_take abs_if)
  then show ?thesis using ikcp_recv_neg [OF rd] by (simp add: rd)
qed

theorem recv_codes_witness:
  "fst (ikcp_recv sample_kcb True 10) = -1 \<and> snd (ikcp_recv sample_kcb True 10) = ([], sample_kcb)"
  using recv_codes [of sample_kcb True 10] by (simp add: sample_kcb_simps)

end
