(* ===== verification/Ec2b_Cipher.thy ===== *)
theory Ec2b_Cipher
  imports Ec2b_Tables
begin

unbundle bit_operations_syntax

text \<open>
  \<open>scrambleKey\<close> and \<open>unscrambleKey\<close> of \<open>src/ec2b.cpp\<close> with their layers. The C functions update a
  16-byte array in place; here each takes the array and returns it updated. Every layer is a
  permutation of the 16-byte blocks with the layer the code names as its inverse, which makes the two
  key functions inverse to each other.
\<close>

section \<open>The layers\<close>

definition xorRoundKey :: "bytes \<Rightarrow> bytes \<Rightarrow> bytes" where
  "xorRoundKey key roundKey = map (\<lambda>i. key ! i XOR roundKey ! i) [0..<16]"

definition subBytes :: "bytes \<Rightarrow> bytes" where
  "subBytes key = map (\<lambda>i. at sbox (key ! i)) [0..<16]"

definition subBytesInv :: "bytes \<Rightarrow> bytes" where
  "subBytesInv key = map (\<lambda>i. at sboxInv (key ! i)) [0..<16]"

definition shiftRows :: "bytes \<Rightarrow> bytes" where
  "shiftRows key = map (\<lambda>i. key ! (shiftTbl ! i)) [0..<16]"

definition shiftRowsInv :: "bytes \<Rightarrow> bytes" where
  "shiftRowsInv key = map (\<lambda>i. key ! (shiftTblInv ! i)) [0..<16]"

definition mixCol :: "bytes \<Rightarrow> bytes" where
  "mixCol key =
     (let a0 = key ! 0; a1 = key ! 1; a2 = key ! 2; a3 = key ! 3
      in [at mulEtbl a0 XOR at mul9tbl a3 XOR at mulDtbl a2 XOR at mulBtbl a1,
          at mulEtbl a1 XOR at mul9tbl a0 XOR at mulDtbl a3 XOR at mulBtbl a2,
          at mulEtbl a2 XOR at mul9tbl a1 XOR at mulDtbl a0 XOR at mulBtbl a3,
          at mulEtbl a3 XOR at mul9tbl a2 XOR at mulDtbl a1 XOR at mulBtbl a0])"

definition mixColInv :: "bytes \<Rightarrow> bytes" where
  "mixColInv key =
     (let a0 = key ! 0; a1 = key ! 1; a2 = key ! 2; a3 = key ! 3
      in [at mul2Tbl a0 XOR at mul3Tbl a1 XOR a2 XOR a3,
          at mul2Tbl a1 XOR at mul3Tbl a2 XOR a3 XOR a0,
          at mul2Tbl a2 XOR at mul3Tbl a3 XOR a0 XOR a1,
          at mul2Tbl a3 XOR at mul3Tbl a0 XOR a1 XOR a2])"

text \<open>The array seen as four rows of four bytes, and back.\<close>

definition rows4 :: "bytes \<Rightarrow> bytes list" where
  "rows4 key = map (\<lambda>i. take 4 (drop (4 * i) key)) [0..<4]"

definition mixCols :: "bytes \<Rightarrow> bytes" where
  "mixCols key = concat (map mixCol (rows4 key))"

definition mixColsInv :: "bytes \<Rightarrow> bytes" where
  "mixColsInv key = concat (map mixColInv (rows4 key))"

section \<open>The key functions\<close>

definition scramble_round :: "nat \<Rightarrow> bytes \<Rightarrow> bytes" where
  "scramble_round i key = xorRoundKey (mixCols (shiftRows (subBytes key))) (aesRoundKeys ! i)"

definition scrambleKey :: "bytes \<Rightarrow> bytes" where
  "scrambleKey key =
     (let key = xorRoundKey key (aesRoundKeys ! 0);
          key = fold scramble_round [1..<10] key;
          key = xorRoundKey (shiftRows (subBytes key)) (aesRoundKeys ! 10)
      in map (\<lambda>i. key ! i XOR keyXorpad ! i) [0..<16])"

definition unscramble_round :: "nat \<Rightarrow> bytes \<Rightarrow> bytes" where
  "unscramble_round i key =
     subBytesInv (shiftRowsInv (mixColsInv (xorRoundKey key (aesRoundKeys ! (10 - i)))))"

definition unscrambleKey :: "bytes \<Rightarrow> bytes" where
  "unscrambleKey key =
     (let key = map (\<lambda>i. key ! i XOR keyXorpad ! i) [0..<16];
          key = xorRoundKey key (aesRoundKeys ! 10);
          key = subBytesInv (shiftRowsInv key);
          key = fold unscramble_round [1..<10] key
      in xorRoundKey key (aesRoundKeys ! 0))"

section \<open>Invertible layers\<close>

text \<open>The contract of a layer \<open>f\<close> and of the layer \<open>g\<close> that undoes it.\<close>

locale invertible_layer =
  fixes f g :: "bytes \<Rightarrow> bytes"
  assumes len: "length k = 16 \<Longrightarrow> length (f k) = 16"
    and len_inv: "length k = 16 \<Longrightarrow> length (g k) = 16"
    and inv_left: "length k = 16 \<Longrightarrow> g (f k) = k"
    and inv_right: "length k = 16 \<Longrightarrow> f (g k) = k"
begin

lemma reverse: "invertible_layer g f"
  by unfold_locales (simp_all add: len len_inv inv_left inv_right)

lemma layer_inj: "length k = 16 \<Longrightarrow> length k' = 16 \<Longrightarrow> f k = f k' \<Longrightarrow> k = k'"
  by (metis inv_left)

lemma andThen: "invertible_layer f' g' \<Longrightarrow> invertible_layer (\<lambda>k. f' (f k)) (\<lambda>k. g (g' k))"
  by (simp add: invertible_layer_def len len_inv inv_left inv_right)

end

lemma layer_fold:
  assumes "\<And>i. i \<in> set is \<Longrightarrow> invertible_layer (f i) (g i)"
  shows "invertible_layer (fold f is) (fold g (rev is))"
  using assms
proof (induction "is" rule: rev_induct)
  case (snoc i "is")
  then have "invertible_layer (fold f is) (fold g (rev is))" "invertible_layer (f i) (g i)" by simp_all
  from invertible_layer.andThen [OF this] show ?case by (simp add: o_def)
qed (simp add: invertible_layer_def)

section \<open>Each layer is inverted by its namesake\<close>

lemma length_layers:
  "length (xorRoundKey k rk) = 16" "length (subBytes k) = 16" "length (subBytesInv k) = 16"
  "length (shiftRows k) = 16" "length (shiftRowsInv k) = 16"
  by (simp_all add: xorRoundKey_def subBytes_def subBytesInv_def shiftRows_def shiftRowsInv_def)

lemma xorRoundKey_twice: "length k = 16 \<Longrightarrow> xorRoundKey (xorRoundKey k rk) rk = k"
  by (rule nth_equalityI) (simp_all add: xorRoundKey_def xor.assoc)

interpretation xorKey: invertible_layer "\<lambda>k. xorRoundKey k rk" "\<lambda>k. xorRoundKey k rk" for rk
  by unfold_locales (simp_all add: length_layers xorRoundKey_twice)

lemma subBytes_inverse:
  "length k = 16 \<Longrightarrow> subBytesInv (subBytes k) = k" "length k = 16 \<Longrightarrow> subBytes (subBytesInv k) = k"
  by (rule nth_equalityI; simp add: subBytes_def subBytesInv_def sbox_inverse)+

interpretation sub: invertible_layer subBytes subBytesInv
  by unfold_locales (simp_all add: length_layers subBytes_inverse)

lemma shift_lt: "i < 16 \<Longrightarrow> shiftTbl ! i < 16" "i < 16 \<Longrightarrow> shiftTblInv ! i < 16"
  using shift_tables(3-6) by (simp_all add: list_all_length)

lemma shift_inverse: "i < 16 \<Longrightarrow> shiftTbl ! (shiftTblInv ! i) = i" "i < 16 \<Longrightarrow> shiftTblInv ! (shiftTbl ! i) = i"
  using arg_cong [OF shift_tables(1), of "\<lambda>l. l ! i"] arg_cong [OF shift_tables(2), of "\<lambda>l. l ! i"]
  by simp_all

lemma shiftRows_inverse:
  "length k = 16 \<Longrightarrow> shiftRowsInv (shiftRows k) = k" "length k = 16 \<Longrightarrow> shiftRows (shiftRowsInv k) = k"
  by (rule nth_equalityI; simp add: shiftRows_def shiftRowsInv_def shift_lt shift_inverse)+

interpretation shift: invertible_layer shiftRows shiftRowsInv
  by unfold_locales (simp_all add: length_layers shiftRows_inverse)

lemma xor_cancel_left: "a XOR (a XOR b) = (b :: 'a::len word)"
  by (simp add: xor.assoc [symmetric])

lemmas mix_simps = mixCol_def mixColInv_def Let_def numeral_2_eq_2 numeral_3_eq_3

lemma mixCol_inverse:
  "mixColInv (mixCol [a, b, c, d]) = [a, b, c, d]" "mixCol (mixColInv [a, b, c, d]) = [a, b, c, d]"
  by (simp_all add: mix_simps mul_tables xtime_xor ac_simps xor_cancel_left)

lemma rows4_list:
  "rows4 [a0, a1, a2, a3, b0, b1, b2, b3, c0, c1, c2, c3, d0, d1, d2, d3] =
     [[a0, a1, a2, a3], [b0, b1, b2, b3], [c0, c1, c2, c3], [d0, d1, d2, d3]]"
  by (simp add: rows4_def numeral_eq_Suc)

lemma list16:
  assumes "length k = 16"
  obtains a0 a1 a2 a3 b0 b1 b2 b3 c0 c1 c2 c3 d0 d1 d2 d3
  where "k = [a0, a1, a2, a3, b0, b1, b2, b3, c0, c1, c2, c3, d0, d1, d2, d3]"
  using assms by (auto simp: numeral_eq_Suc length_Suc_conv)

lemma rows4_concat:
  assumes "length k = 16"
  shows "concat (rows4 k) = k" "length (rows4 k) = 4" "\<forall>r \<in> set (rows4 k). length r = 4"
  by (rule list16 [OF assms], simp add: rows4_list)+

lemma rows4_of_concat:
  assumes "length rs = 4" "\<forall>r \<in> set rs. length r = 4"
  shows "rows4 (concat rs) = rs"
proof -
  obtain r0 r1 r2 r3 where rs: "rs = [r0, r1, r2, r3]"
    using assms(1) by (auto simp: numeral_eq_Suc length_Suc_conv)
  with assms(2) show ?thesis by (simp add: rows4_def upt_rec)
qed

lemma list4_bytes: "length (r :: bytes) = 4 \<Longrightarrow> \<exists>a b c d. r = [a, b, c, d]"
  by (auto simp: numeral_eq_Suc length_Suc_conv)

lemma length_mixCol: "length (mixCol r) = 4" "length (mixColInv r) = 4"
  by (simp_all add: mixCol_def mixColInv_def Let_def)

interpretation mix: invertible_layer mixCols mixColsInv
proof
  fix k :: bytes assume k: "length k = 16"
  have rows: "rows4 (concat (map f (rows4 k))) = map f (rows4 k)" if "\<And>r. length (f r) = 4" for f
    using rows4_concat [OF k] that by (intro rows4_of_concat) auto
  have undo: "map g (map f (rows4 k)) = rows4 k" if "\<And>a b c d. g (f [a, b, c, d]) = [a, b, c, d]" for f g
    using rows4_concat(3) [OF k] that list4_bytes by (auto intro!: map_idI) metis
  show "mixColsInv (mixCols k) = k"
    using rows4_concat [OF k] unfolding mixCols_def mixColsInv_def
    by (simp only: rows length_mixCol undo mixCol_inverse)
  show "mixCols (mixColsInv k) = k"
    using rows4_concat [OF k] unfolding mixCols_def mixColsInv_def
    by (simp only: rows length_mixCol undo mixCol_inverse)
next
  fix k :: bytes assume k: "length k = 16"
  show "length (mixCols k) = 16" "length (mixColsInv k) = 16"
    by (simp_all add: mixCols_def mixColsInv_def rows4_def length_concat length_mixCol upt_rec)
qed

section \<open>The whole cipher\<close>

lemma scramble_round_layer:
  "i < 10 \<Longrightarrow> invertible_layer (scramble_round i) (unscramble_round (10 - i))"
  using invertible_layer.andThen [OF invertible_layer.andThen [OF invertible_layer.andThen
      [OF sub.invertible_layer_axioms shift.invertible_layer_axioms] mix.invertible_layer_axioms]
      xorKey.invertible_layer_axioms [of "aesRoundKeys ! i"]]
  by (simp add: scramble_round_def [abs_def] unscramble_round_def [abs_def])

lemma scramble_fold_layer:
  "invertible_layer (fold scramble_round [1..<10]) (fold unscramble_round [1..<10])"
proof -
  have "invertible_layer (fold scramble_round [1..<10])
      (fold (\<lambda>i. unscramble_round (10 - i)) (rev [1..<10]))"
    by (rule layer_fold) (simp add: scramble_round_layer)
  moreover have "map (\<lambda>i. 10 - i) (rev [1..<10]) = [1..<10 :: nat]" by code_simp
  then have "fold (\<lambda>i. unscramble_round (10 - i)) (rev [1..<10]) = fold unscramble_round [1..<10]"
    using fold_map [of unscramble_round "\<lambda>i. 10 - i" "rev [1..<10]"] by (simp only: o_def)
  ultimately show ?thesis by simp
qed

interpretation cipher: invertible_layer scrambleKey unscrambleKey
proof -
  have pad: "map (\<lambda>i. k ! i XOR keyXorpad ! i) [0..<16] = xorRoundKey k keyXorpad" for k
    by (simp add: xorRoundKey_def)
  show "invertible_layer scrambleKey unscrambleKey"
    using invertible_layer.andThen [OF invertible_layer.andThen [OF invertible_layer.andThen
        [OF invertible_layer.andThen [OF invertible_layer.andThen
          [OF xorKey.invertible_layer_axioms [of "aesRoundKeys ! 0"] scramble_fold_layer]
          sub.invertible_layer_axioms] shift.invertible_layer_axioms]
          xorKey.invertible_layer_axioms [of "aesRoundKeys ! 10"]]
        xorKey.invertible_layer_axioms [of keyXorpad]]
    by (simp add: scrambleKey_def [abs_def] unscrambleKey_def [abs_def] Let_def pad)
qed

end
