(* ===== verification/Host_Memory.thy ===== *)
theory Host_Memory
  imports Yagips_Prelude
begin

unbundle bit_operations_syntax

text \<open>
  Memory as the C++ code sees it when it casts a byte pointer to a pointer to integers or to a packed
  structure: the integers of the little-endian host at byte positions of a byte list, the byte-order
  macros of \<open>endian.h\<close>, and \<open>memcpy\<close> out of a \<open>std::string\<close>, whose buffer ends in a 0 byte.
\<close>

section \<open>Faults\<close>

text \<open>
  What goes wrong in C++ beyond a return code: exceptions, and accesses the language leaves undefined.
\<close>

datatype cpp_fault =
  Length_error | Out_of_bounds | Null_pointer | Invalid_argument | Runtime_error | Dangling | Invalid_iterator | Assertion_failed

section \<open>Little-endian integers\<close>

definition store_le :: "nat \<Rightarrow> 'a::len word \<Rightarrow> bytes" where
  "store_le n w = map (\<lambda>i. ucast (drop_bit (8 * i) w)) [0..<n]"

primrec load_le :: "bytes \<Rightarrow> 'a::len word" where
  "load_le [] = 0"
| "load_le (b # bs) = ucast b OR push_bit 8 (load_le bs)"

lemma length_store_le [simp]: "length (store_le n w) = n"
  by (simp add: store_le_def)

lemma bit_load_le:
  "bit (load_le bs :: 'a::len word) n \<longleftrightarrow>
     n < LENGTH('a) \<and> n div 8 < length bs \<and> bit (bs ! (n div 8)) (n mod 8)"
proof (induction bs arbitrary: n)
  case (Cons b bs)
  show ?case
  proof (cases "n < 8")
    case True
    then show ?thesis by (auto simp: bit_simps dest: bit_imp_le_length)
  next
    case False
    then obtain m where m: "n = m + 8" by (metis add.commute le_Suc_ex not_less)
    then have "\<not> bit b n" by (auto dest: bit_imp_le_length)
    moreover have "n div 8 = Suc (m div 8)" "n mod 8 = m mod 8" using m by simp_all
    ultimately show ?thesis using m by (auto simp: bit_simps Cons)
  qed
qed simp

lemma bit_store_le: "i < n \<Longrightarrow> bit (store_le n w ! i) j \<longleftrightarrow> j < 8 \<and> bit w (8 * i + j)"
  by (auto simp: store_le_def bit_simps)

lemma load_store_le:
  fixes w :: "'a::len word"
  assumes "LENGTH('a) \<le> 8 * n"
  shows "load_le (store_le n w) = w"
proof (rule bit_word_eqI)
  fix j assume "j < LENGTH('a)"
  then have "j div 8 < n" using assms by (simp add: less_mult_imp_div_less mult.commute)
  then show "bit (load_le (store_le n w) :: 'a word) j = bit w j"
    using \<open>j < LENGTH('a)\<close> by (simp add: bit_load_le bit_store_le)
qed

lemma store_load_le:
  assumes "length bs = n" "8 * n \<le> LENGTH('a)"
  shows "store_le n (load_le bs :: 'a::len word) = bs"
proof (rule nth_equalityI)
  fix i assume i: "i < length (store_le n (load_le bs :: 'a word))"
  show "store_le n (load_le bs :: 'a word) ! i = bs ! i"
  proof (rule bit_word_eqI)
    fix j assume "j < LENGTH(8)"
    then have "(8 * i + j) div 8 = i" "(8 * i + j) mod 8 = j" by simp_all
    then show "bit (store_le n (load_le bs :: 'a word) ! i) j = bit (bs ! i) j"
      using i assms \<open>j < LENGTH(8)\<close> by (simp add: bit_store_le bit_load_le)
  qed
qed (use assms in simp)

section \<open>Byte order\<close>

definition htobe16 :: "u16 \<Rightarrow> u16" where "htobe16 w = load_le (rev (store_le 2 w))"
definition htobe32 :: "u32 \<Rightarrow> u32" where "htobe32 w = load_le (rev (store_le 4 w))"
definition htobe64 :: "u64 \<Rightarrow> u64" where "htobe64 w = load_le (rev (store_le 8 w))"

lemma store_htobe:
  "store_le 2 (htobe16 a) = rev (store_le 2 a)"
  "store_le 4 (htobe32 b) = rev (store_le 4 b)"
  "store_le 8 (htobe64 c) = rev (store_le 8 c)"
  by (simp_all add: htobe16_def htobe32_def htobe64_def store_load_le)

lemma htobe_twice: "htobe16 (htobe16 a) = a" "htobe32 (htobe32 b) = b" "htobe64 (htobe64 c) = c"
  unfolding htobe16_def [of "htobe16 a"] htobe32_def [of "htobe32 b"] htobe64_def [of "htobe64 c"]
  by (simp_all add: store_htobe load_store_le)

section \<open>Pieces of a byte list\<close>

definition piece :: "nat \<Rightarrow> nat \<Rightarrow> bytes \<Rightarrow> bytes" where
  "piece off n bs = take n (drop off bs)"

text \<open>\<open>((unsigned long long*) p)[i]\<close>, read and written.\<close>

definition u64_at :: "bytes \<Rightarrow> nat \<Rightarrow> u64" where
  "u64_at bs i = load_le (piece (8 * i) 8 bs)"

definition put_u64 :: "nat \<Rightarrow> u64 \<Rightarrow> bytes \<Rightarrow> bytes" where
  "put_u64 i w bs = take (8 * i) bs @ store_le 8 w @ drop (8 * i + 8) bs"

text \<open>\<open>memcpy(_, s.c_str(), n)\<close>: the last byte read may be the terminating 0.\<close>

definition c_str_read :: "bytes \<Rightarrow> nat \<Rightarrow> bytes option" where
  "c_str_read s n = (if n \<le> length s + 1 then Some (take n (s @ [0])) else None)"

lemma length_piece: "off + n \<le> length bs \<Longrightarrow> length (piece off n bs) = n"
  by (simp add: piece_def)

lemma length_put_u64: "8 * i + 8 \<le> length bs \<Longrightarrow> length (put_u64 i w bs) = length bs"
  by (simp add: put_u64_def)

lemma u64_at_put_same: "8 * i + 8 \<le> length bs \<Longrightarrow> u64_at (put_u64 i w bs) i = w"
  by (simp add: u64_at_def put_u64_def piece_def load_store_le)

lemma u64_at_put_other:
  assumes "8 * i + 8 \<le> length bs" "i < j"
  shows "u64_at (put_u64 i w bs) j = u64_at bs j"
proof -
  obtain m where "8 * j = 8 * i + 8 + m" using assms(2) by (metis Suc_leI add.commute le_Suc_ex mult_Suc_right mult_le_mono2)
  with assms show ?thesis by (simp add: u64_at_def put_u64_def piece_def add.commute)
qed

lemma c_str_read_long: "n \<le> length s \<Longrightarrow> c_str_read s n = Some (take n s)"
  by (simp add: c_str_read_def)

lemma u64_at_take: "8 * i + 8 \<le> n \<Longrightarrow> u64_at (take n bs) i = u64_at bs i"
  by (simp add: u64_at_def piece_def drop_take min_absorb1)

end
