(* ===== verification/Random_Source.thy ===== *)
theory Random_Source
  imports Yagips_Prelude
begin

text \<open>
  What the program asks of a pseudo-random generator: a step that returns a 64-bit number and moves
  the state, and the loop that calls it \<open>n\<close> times. \<open>mt19937-64.c\<close> (theory \<open>Mt19937\<close>) and
  \<open>rand_xoshiro256\<close> of \<open>util.cpp\<close> (theory \<open>Xoshiro\<close>) are the two providers, \<open>ec2b.cpp\<close> (theory
  \<open>Ec2b\<close>) is the client. A step that fails an assertion is \<^term>\<open>None\<close>.
\<close>

section \<open>Drawing numbers\<close>

fun draw :: "('s \<Rightarrow> ('r \<times> 's) option) \<Rightarrow> nat \<Rightarrow> 's \<Rightarrow> ('r list \<times> 's) option" where
  "draw nxt 0 s = Some ([], s)"
| "draw nxt (Suc n) s =
     (case nxt s of
        None \<Rightarrow> None
      | Some (r, s1) \<Rightarrow>
          (case draw nxt n s1 of
             None \<Rightarrow> None
           | Some (rs, s2) \<Rightarrow> Some (r # rs, s2)))"

lemma draw_length: "draw nxt n s = Some (rs, s') \<Longrightarrow> length rs = n"
  by (induction n arbitrary: s rs) (auto split: option.splits)

locale random_source =
  fixes nxt :: "'s \<Rightarrow> ('r \<times> 's) option"
    and ok :: "'s \<Rightarrow> bool"
  assumes next_ok: "ok s \<Longrightarrow> \<exists>r s'. nxt s = Some (r, s') \<and> ok s'"
begin

lemma draw_ok: "ok s \<Longrightarrow> \<exists>rs s'. draw nxt n s = Some (rs, s') \<and> length rs = n \<and> ok s'"
proof (induction n arbitrary: s)
  case (Suc n)
  obtain r s1 where n: "nxt s = Some (r, s1)" "ok s1" using next_ok [OF Suc.prems] by blast
  obtain rs s2 where "draw nxt n s1 = Some (rs, s2)" "length rs = n" "ok s2"
    using Suc.IH [OF n(2)] by blast
  with n show ?case by simp
qed simp

lemma draw_defined: "ok s \<Longrightarrow> draw nxt n s \<noteq> None"
  using draw_ok [of s n] by auto

end

section \<open>Shift-and-exclusive-or steps are injective\<close>

lemma xor_drop_inj:
  fixes x y :: "'a::len word"
  assumes "0 < k" and eq: "x XOR (drop_bit k x AND m) = y XOR (drop_bit k y AND m)"
  shows "x = y"
proof (rule ccontr)
  let ?D = "{i. bit x i \<noteq> bit y i}"
  assume "x \<noteq> y"
  then have "?D \<noteq> {}" by (auto simp: bit_eq_iff)
  have fin: "finite ?D"
    by (rule finite_subset [of _ "{..<LENGTH('a)}"]) (auto dest: bit_imp_le_length)
  define i where "i = Max ?D"
  have i: "bit x i \<noteq> bit y i" using Max_in [OF fin \<open>?D \<noteq> {}\<close>] by (simp add: i_def)
  have "k + i \<notin> ?D" using Max_ge [OF fin, of "k + i"] \<open>0 < k\<close> by (auto simp: i_def)
  moreover have "bit (x XOR (drop_bit k x AND m)) i = bit (y XOR (drop_bit k y AND m)) i"
    by (simp only: eq)
  ultimately show False using i by (auto simp: bit_simps add.commute)
qed

lemma xor_push_inj:
  fixes x y :: "'a::len word"
  assumes "0 < k" and eq: "x XOR (push_bit k x AND m) = y XOR (push_bit k y AND m)"
  shows "x = y"
proof (rule bit_word_eqI)
  fix i assume "i < LENGTH('a)"
  then show "bit x i = bit y i"
  proof (induction i rule: less_induct)
    case (less i)
    have "bit (x XOR (push_bit k x AND m)) i = bit (y XOR (push_bit k y AND m)) i"
      by (simp only: eq)
    with less \<open>0 < k\<close> show ?case by (auto simp: bit_simps)
  qed
qed

end
