(* ===== verification/Mt19937.thy ===== *)
theory Mt19937
  imports Random_Source
begin

text \<open>
  \<open>src/mt19937-64.c\<close>: the 64-bit Mersenne twister, whose state is the pair of static variables \<open>mt\<close>
  and \<open>mti\<close>. The operations are translated loop by loop; the theorem of the theory is that the
  numbers they return are the tempered words of the twister's recurrence, whatever the state was
  before the seeding and wherever the in-place regeneration of the window falls.
\<close>

section \<open>State\<close>

text \<open>
  \<open>mt\<close> and \<open>mti\<close> are the file's two static variables; \<open>mti = NN + 1\<close> says that no seed was given.
\<close>

record mt_state =
  mt :: "u64 list"
  mti :: nat

definition NN :: nat where "NN = 312"
definition MM :: nat where "MM = 156"
definition MATRIX_A :: u64 where "MATRIX_A = 0xB5026F5AA96619E9"
definition UM :: u64 where "UM = 0xFFFFFFFF80000000"
definition LM :: u64 where "LM = 0x7FFFFFFF"

lemmas mt_consts = NN_def MM_def

definition mt_boot :: mt_state where
  "mt_boot = \<lparr>mt = replicate NN 0, mti = NN + 1\<rparr>"

definition mt_ok :: "mt_state \<Rightarrow> bool" where
  "mt_ok s \<longleftrightarrow> length (mt s) = NN \<and> mti s \<le> NN + 1"

section \<open>Seeding\<close>

definition mix62 :: "u64 \<Rightarrow> u64" where
  "mix62 w = w XOR drop_bit 62 w"

definition seed_step :: "nat \<Rightarrow> u64 list \<Rightarrow> u64 list" where
  "seed_step i m = m[i := 6364136223846793005 * mix62 (m ! (i - 1)) + of_nat i]"

definition init_genrand64 :: "u64 \<Rightarrow> mt_state \<Rightarrow> mt_state" where
  "init_genrand64 seed s = \<lparr>mt = fold seed_step [1..<NN] ((mt s)[0 := seed]), mti = NN\<rparr>"

text \<open>
  The two mixing loops of \<open>init_by_array64\<close>: \<open>n\<close> is the loop counter \<open>k\<close>, running down to 0. An empty
  key makes the first loop read \<open>init_key[0]\<close> all the same: that read is out of bounds, \<^term>\<open>None\<close>.
\<close>

definition array_wrap :: "nat \<Rightarrow> u64 list \<Rightarrow> nat \<times> u64 list" where
  "array_wrap i m = (if NN \<le> i then (1, m[0 := m ! (NN - 1)]) else (i, m))"

fun array_loop1 :: "nat \<Rightarrow> u64 list \<Rightarrow> nat \<Rightarrow> nat \<Rightarrow> u64 list \<Rightarrow> (nat \<times> u64 list) option" where
  "array_loop1 0 key i j m = Some (i, m)"
| "array_loop1 (Suc n) key i j m =
     (if length key \<le> j then None
      else let m' = m[i := (m ! i XOR (mix62 (m ! (i - 1)) * 3935559000370003845)) + key ! j + of_nat j];
               (i', m'') = array_wrap (i + 1) m';
               j' = (if length key \<le> j + 1 then 0 else j + 1)
           in array_loop1 n key i' j' m'')"

fun array_loop2 :: "nat \<Rightarrow> nat \<Rightarrow> u64 list \<Rightarrow> u64 list" where
  "array_loop2 0 i m = m"
| "array_loop2 (Suc n) i m =
     (let m' = m[i := (m ! i XOR (mix62 (m ! (i - 1)) * 2862933555777941757)) - of_nat i];
          (i', m'') = array_wrap (i + 1) m'
      in array_loop2 n i' m'')"

definition init_by_array64 :: "u64 list \<Rightarrow> mt_state \<Rightarrow> mt_state option" where
  "init_by_array64 key s =
     (let s0 = init_genrand64 19650218 s
      in case array_loop1 (max NN (length key)) key 1 0 (mt s0) of
           None \<Rightarrow> None
         | Some (i, m) \<Rightarrow> Some (s0\<lparr>mt := (array_loop2 (NN - 1) i m)[0 := push_bit 63 1]\<rparr>))"

section \<open>The next number\<close>

definition mag01 :: "u64 list" where
  "mag01 = [0, MATRIX_A]"

definition regen_at :: "nat \<Rightarrow> nat \<Rightarrow> nat \<Rightarrow> u64 list \<Rightarrow> u64 list" where
  "regen_at i j k m =
     (let x = (m ! i AND UM) OR (m ! j AND LM)
      in m[i := m ! k XOR drop_bit 1 x XOR mag01 ! unat (x AND 1)])"

definition regen :: "u64 list \<Rightarrow> u64 list" where
  "regen m =
     (let m1 = fold (\<lambda>i. regen_at i (i + 1) (i + MM)) [0..<NN - MM] m;
          m2 = fold (\<lambda>i. regen_at i (i + 1) (i - (NN - MM))) [NN - MM..<NN - 1] m1
      in regen_at (NN - 1) 0 (MM - 1) m2)"

definition temper :: "u64 \<Rightarrow> u64" where
  "temper x0 =
     (let x1 = x0 XOR (drop_bit 29 x0 AND 0x5555555555555555);
          x2 = x1 XOR (push_bit 17 x1 AND 0x71D67FFFEDA60000);
          x3 = x2 XOR (push_bit 37 x2 AND 0xFFF7EEE000000000)
      in x3 XOR drop_bit 43 x3)"

definition genrand64_int64 :: "mt_state \<Rightarrow> u64 \<times> mt_state" where
  "genrand64_int64 s =
     (let s1 = (if NN \<le> mti s
                then let s0 = (if mti s = NN + 1 then init_genrand64 5489 s else s)
                     in s0\<lparr>mt := regen (mt s0), mti := 0\<rparr>
                else s)
      in (temper (mt s1 ! mti s1), s1\<lparr>mti := mti s1 + 1\<rparr>))"

text \<open>The generator never fails; the numbers of \<open>n\<close> calls in a row.\<close>

definition genrand_next :: "mt_state \<Rightarrow> (u64 \<times> mt_state) option" where
  "genrand_next s = Some (genrand64_int64 s)"

definition genrand_list :: "nat \<Rightarrow> mt_state \<Rightarrow> u64 list \<times> mt_state" where
  "genrand_list n s = the (draw genrand_next n s)"

lemma draw_genrand: "draw genrand_next n s = Some (genrand_list n s)"
proof -
  have "\<exists>r. draw genrand_next n s = Some r"
  proof (induction n arbitrary: s)
    case (Suc n)
    obtain r s1 where g: "genrand64_int64 s = (r, s1)" by fastforce
    obtain rs s2 where "draw genrand_next n s1 = Some (rs, s2)" using Suc [of s1] by auto
    with g show ?case by (simp add: genrand_next_def [of s])
  qed simp
  then show ?thesis by (auto simp: genrand_list_def)
qed

lemma genrand_list_0: "genrand_list 0 s = ([], s)"
  by (simp add: genrand_list_def)

lemma genrand_list_Suc:
  "genrand_list (Suc n) s =
     (let (r, s1) = genrand64_int64 s; (rs, s2) = genrand_list n s1 in (r # rs, s2))"
proof -
  obtain r s1 where g: "genrand64_int64 s = (r, s1)" by fastforce
  obtain rs s2 where l: "genrand_list n s1 = (rs, s2)" by fastforce
  have "draw genrand_next (Suc n) s = Some (r # rs, s2)"
    using draw_genrand [of n s1] l by (simp add: genrand_next_def g)
  then show ?thesis using draw_genrand [of "Suc n" s] g l by simp
qed

lemmas genrand_list_simps = genrand_list_0 genrand_list_Suc

section \<open>The state stays well formed\<close>

lemma length_fold_update:
  assumes "\<And>i m. length (f i m) = length m"
  shows "length (fold f is m) = length m"
  by (induction "is" arbitrary: m) (simp_all add: assms)

lemma length_seed_step [simp]: "length (seed_step i m) = length m"
  by (simp add: seed_step_def)

lemma length_regen_at [simp]: "length (regen_at i j k m) = length m"
  by (simp add: regen_at_def Let_def)

lemma length_regen [simp]: "length (regen m) = length m"
  by (simp add: regen_def Let_def length_fold_update)

lemma length_array_wrap: "array_wrap i m = (i', m') \<Longrightarrow> length m' = length m"
  by (auto simp: array_wrap_def split: if_splits)

lemma array_wrap_index: "array_wrap (i + 1) m = (i', m') \<Longrightarrow> i < NN \<Longrightarrow> 1 \<le> i' \<and> i' < NN"
  by (auto simp: array_wrap_def mt_consts split: if_splits)

lemma array_loop1_Suc:
  assumes "array_wrap (i + 1)
      (m[i := (m ! i XOR (mix62 (m ! (i - 1)) * 3935559000370003845)) + key ! j + of_nat j]) = (i1, m1)"
    and "j < length key"
  shows "array_loop1 (Suc n) key i j m = array_loop1 n key i1 (if length key \<le> j + 1 then 0 else j + 1) m1"
  using assms by (simp add: Let_def)

lemma array_loop1_ok:
  assumes "array_loop1 n key i j m = Some (i', m')" "1 \<le> i" "i < NN"
  shows "length m' = length m \<and> 1 \<le> i' \<and> i' < NN"
  using assms
proof (induction n arbitrary: i j m)
  case (Suc n)
  let ?m = "m[i := (m ! i XOR (mix62 (m ! (i - 1)) * 3935559000370003845)) + key ! j + of_nat j]"
  obtain i1 m1 where w: "array_wrap (i + 1) ?m = (i1, m1)" by fastforce
  have j: "j < length key" using Suc.prems(1) by (simp split: if_splits)
  have "length m' = length m1 \<and> 1 \<le> i' \<and> i' < NN"
    using Suc.prems(1) array_wrap_index [OF w Suc.prems(3)] unfolding array_loop1_Suc [OF w j]
    by (intro Suc.IH) auto
  then show ?case using length_array_wrap [OF w] by simp
qed simp

lemma length_array_loop2 [simp]: "length (array_loop2 n i m) = length m"
proof (induction n i m rule: array_loop2.induct)
  case (2 n i m)
  let ?m = "m[i := (m ! i XOR (mix62 (m ! (i - 1)) * 2862933555777941757)) - of_nat i]"
  obtain i1 m1 where w: "array_wrap (i + 1) ?m = (i1, m1)" by fastforce
  show ?case using 2 [OF refl refl w [symmetric]] length_array_wrap [OF w] w by (simp add: Let_def)
qed simp

lemma array_loop1_defined: "j < length key \<Longrightarrow> \<exists>r. array_loop1 n key i j m = Some r"
proof (induction n arbitrary: i j m)
  case (Suc n)
  let ?m = "m[i := (m ! i XOR (mix62 (m ! (i - 1)) * 3935559000370003845)) + key ! j + of_nat j]"
  obtain i1 m1 where w: "array_wrap (i + 1) ?m = (i1, m1)" by fastforce
  show ?case unfolding array_loop1_Suc [OF w Suc.prems] using Suc.prems by (intro Suc.IH) auto
qed simp

lemma array_loop1_no_key: "0 < n \<Longrightarrow> array_loop1 n [] i j m = None"
  by (cases n) auto

lemma mt_ok_boot: "mt_ok mt_boot"
  by (simp add: mt_ok_def mt_boot_def)

lemma mt_ok_init: "mt_ok s \<Longrightarrow> mt_ok (init_genrand64 seed s)"
  by (simp add: mt_ok_def init_genrand64_def length_fold_update)

lemma mt_ok_init_by_array: "mt_ok s \<Longrightarrow> init_by_array64 key s = Some s' \<Longrightarrow> mt_ok s'"
  using mt_ok_init [of s 19650218]
  by (auto simp: init_by_array64_def Let_def mt_ok_def mt_consts dest!: array_loop1_ok split: option.splits)

lemma init_by_array_defined: "init_by_array64 key s = None \<longleftrightarrow> key = []"
proof (cases "key = []")
  case True
  then show ?thesis by (simp add: init_by_array64_def Let_def array_loop1_no_key NN_def)
next
  case False
  then obtain i m where
    "array_loop1 (max NN (length key)) key 1 0 (mt (init_genrand64 19650218 s)) = Some (i, m)"
    using array_loop1_defined [of 0 key] by fastforce
  with False show ?thesis by (simp add: init_by_array64_def Let_def)
qed

lemma mt_ok_genrand: "mt_ok s \<Longrightarrow> mt_ok (snd (genrand64_int64 s))"
  by (auto simp: genrand64_int64_def Let_def mt_ok_def mt_consts length_fold_update init_genrand64_def)

lemma genrand_index: "mt_ok s \<Longrightarrow> 1 \<le> mti (snd (genrand64_int64 s)) \<and> mti (snd (genrand64_int64 s)) \<le> NN"
  by (auto simp: genrand64_int64_def Let_def mt_ok_def mt_consts)

interpretation mt: random_source genrand_next mt_ok
  by unfold_locales (use mt_ok_genrand in \<open>simp add: genrand_next_def\<close>, metis prod.collapse)

section \<open>The stream of numbers is the Mersenne twister recurrence\<close>

text \<open>
  The abstract generator: an infinite sequence of words satisfying the recurrence of degree \<open>NN\<close>.
  The code keeps a window of \<open>NN\<close> of its words and moves the window in place, in three loops.
\<close>

definition mt_twist :: "u64 \<Rightarrow> u64 \<Rightarrow> u64" where
  "mt_twist upper lower =
     (let x = (upper AND UM) OR (lower AND LM)
      in drop_bit 1 x XOR (if odd x then MATRIX_A else 0))"

definition window :: "(nat \<Rightarrow> u64) \<Rightarrow> nat \<Rightarrow> u64 list" where
  "window x b = map x [b..<b + NN]"

locale mt_recurrence =
  fixes x :: "nat \<Rightarrow> u64"
  assumes step: "x (n + NN) = x (n + MM) XOR mt_twist (x n) (x (n + 1))"

lemma mag01_nth: "mag01 ! unat (w AND 1) = (if odd w then MATRIX_A else 0)"
  by (auto simp: mag01_def and_one_eq odd_iff_mod_2_eq_one)

lemma regen_at_eq: "regen_at i j k m = m[i := m ! k XOR mt_twist (m ! i) (m ! j)]"
  by (simp add: regen_at_def mt_twist_def Let_def mag01_nth xor.assoc)

definition moved :: "(nat \<Rightarrow> u64) \<Rightarrow> nat \<Rightarrow> nat \<Rightarrow> u64 list" where
  "moved x b k = map (\<lambda>j. if j < k then x (b + NN + j) else x (b + j)) [0..<NN]"

lemma moved_0: "moved x b 0 = window x b"
  by (rule nth_equalityI) (simp_all add: moved_def window_def)

lemma moved_NN: "moved x b NN = window x (b + NN)"
  by (rule nth_equalityI) (simp_all add: moved_def window_def)

lemma moved_update: "i < NN \<Longrightarrow> v = x (b + NN + i) \<Longrightarrow> (moved x b i)[i := v] = moved x b (Suc i)"
  by (rule nth_equalityI) (auto simp: moved_def nth_list_update)

lemma moved_nth: "j < NN \<Longrightarrow> moved x b k ! j = (if j < k then x (b + NN + j) else x (b + j))"
  by (simp add: moved_def)

lemma fold_moved:
  assumes "\<And>i. p \<le> i \<Longrightarrow> i < q \<Longrightarrow> f i (moved x b i) = moved x b (Suc i)" "p \<le> q"
  shows "fold f [p..<q] (moved x b p) = moved x b q"
  using assms(2,1)
proof (induction q rule: dec_induct)
  case (step n)
  then show ?case by (simp add: upt_Suc_append)
qed simp

context mt_recurrence
begin

lemma step_at: "x (b + (i + MM)) XOR mt_twist (x (b + i)) (x (b + (i + 1))) = x (b + NN + i)"
proof -
  have e: "b + (i + MM) = b + i + MM" "b + (i + 1) = b + i + 1" "b + NN + i = b + i + NN" by simp_all
  show ?thesis unfolding e by (rule step [symmetric])
qed

lemma regen_moved:
  assumes "i < NN" "j < NN" "k < NN"
    and "moved x b i ! j = x (b + (i + 1))" "moved x b i ! k = x (b + (i + MM))"
  shows "regen_at i j k (moved x b i) = moved x b (Suc i)"
  unfolding regen_at_eq
  by (rule moved_update) (use assms in \<open>simp_all add: moved_nth step_at del: One_nat_def add_Suc_right\<close>)

lemma regen_moved_low: "i < NN - MM \<Longrightarrow> regen_at i (i + 1) (i + MM) (moved x b i) = moved x b (Suc i)"
  by (rule regen_moved) (auto simp: moved_nth mt_consts)

lemma regen_moved_high:
  assumes "NN - MM \<le> i" "i < NN - 1"
  shows "regen_at i (i + 1) (i - (NN - MM)) (moved x b i) = moved x b (Suc i)"
proof (rule regen_moved)
  have "b + NN + (i - (NN - MM)) = b + (i + MM)" using assms by (simp add: mt_consts)
  moreover have "i - (NN - MM) < NN" "i - (NN - MM) < i" using assms by (simp_all add: mt_consts)
  ultimately show "moved x b i ! (i - (NN - MM)) = x (b + (i + MM))" by (simp only: moved_nth if_True)
qed (use assms in \<open>auto simp: moved_nth mt_consts\<close>)

lemma regen_moved_last: "regen_at (NN - 1) 0 (MM - 1) (moved x b (NN - 1)) = moved x b NN"
proof -
  have e: "b + NN + (MM - 1) = b + (NN - 1 + MM)" "b + NN + 0 = b + (NN - 1 + 1)"
    and lt: "0 < NN" "MM - 1 < NN" "NN - 1 < NN" "0 < NN - 1" "MM - 1 < NN - 1"
    by (simp_all add: mt_consts)
  have "regen_at (NN - 1) 0 (MM - 1) (moved x b (NN - 1)) = moved x b (Suc (NN - 1))"
    by (rule regen_moved [OF lt(3,1,2)]) (simp_all only: moved_nth [OF lt(1)] moved_nth [OF lt(2)] lt(4,5) if_True e)
  moreover have "Suc (NN - 1) = NN" using lt(1) by simp
  ultimately show ?thesis by (simp only:)
qed

lemma regen_window: "regen (window x b) = window x (b + NN)"
proof -
  let ?f = "\<lambda>i. regen_at i (i + 1) (i + MM)" and ?g = "\<lambda>i. regen_at i (i + 1) (i - (NN - MM))"
  have "fold ?f [0..<NN - MM] (moved x b 0) = moved x b (NN - MM)"
    by (rule fold_moved) (simp_all only: regen_moved_low le0)
  moreover have "fold ?g [NN - MM..<NN - 1] (moved x b (NN - MM)) = moved x b (NN - 1)"
    by (rule fold_moved, erule (1) regen_moved_high) (simp add: mt_consts)
  ultimately show ?thesis
    unfolding regen_def Let_def moved_0 [symmetric]
    by (simp only: regen_moved_last moved_NN moved_0)
qed

text \<open>\<open>at_word n s\<close>: the state of the code after \<open>n\<close> numbers of the sequence.\<close>

definition at_word :: "nat \<Rightarrow> mt_state \<Rightarrow> bool" where
  "at_word n s \<longleftrightarrow> (\<exists>b. mt s = window x b \<and> mti s \<le> NN \<and> b + mti s = NN + n)"

lemma genrand_at_word:
  assumes "at_word n s"
  shows "fst (genrand64_int64 s) = temper (x (NN + n)) \<and> at_word (Suc n) (snd (genrand64_int64 s))"
proof -
  obtain b where b: "mt s = window x b" "mti s \<le> NN" "b + mti s = NN + n"
    using assms unfolding at_word_def by blast
  show ?thesis
  proof (cases "mti s = NN")
    case True
    have "window x (b + NN) ! 0 = x (b + NN)" by (simp add: window_def NN_def)
    moreover have "b + NN = NN + n" using b(3) True by simp
    ultimately have w: "window x (b + NN) ! 0 = x (NN + n)" by (simp only:)
    have "genrand64_int64 s = (temper (x (NN + n)), \<lparr>mt = window x (b + NN), mti = 1\<rparr>)"
      unfolding genrand64_int64_def Let_def using True b(1) w
      by (auto simp: regen_window intro!: mt_state.equality)
    moreover have "at_word (Suc n) \<lparr>mt = window x (b + NN), mti = 1\<rparr>"
      unfolding at_word_def using b(3) True by (intro exI [of _ "b + NN"]) (simp add: mt_consts)
    ultimately show ?thesis by simp
  next
    case False
    with b have "mti s < NN" by simp
    moreover have "window x b ! mti s = x (NN + n)" using b(3) \<open>mti s < NN\<close> by (simp add: window_def)
    ultimately show ?thesis
      using b by (auto simp: genrand64_int64_def Let_def at_word_def)
  qed
qed

lemma genrand_list_at_word:
  "at_word n s \<Longrightarrow> fst (genrand_list k s) = map (\<lambda>i. temper (x (NN + n + i))) [0..<k]
      \<and> at_word (n + k) (snd (genrand_list k s))"
proof (induction k arbitrary: n s)
  case (Suc k)
  obtain r s1 where g: "genrand64_int64 s = (r, s1)" by fastforce
  obtain rs s2 where l: "genrand_list k s1 = (rs, s2)" by fastforce
  from genrand_at_word [OF Suc.prems] g have s1: "r = temper (x (NN + n))" "at_word (Suc n) s1" by simp_all
  have "map (\<lambda>i. temper (x (NN + n + i))) [0..<Suc k] =
      temper (x (NN + n)) # map (\<lambda>i. temper (x (NN + Suc n + i))) [0..<k]"
    by (simp only: upt_rec [of 0 "Suc k"] map_Suc_upt [symmetric] list.map) simp
  with Suc.IH [OF s1(2)] g l s1(1) show ?case by (simp add: genrand_list_Suc)
qed (simp add: genrand_list_0)

end

text \<open>The sequence that continues a given window, and the window a seed gives.\<close>

function mt_seq :: "u64 list \<Rightarrow> nat \<Rightarrow> u64" where
  "mt_seq m n = (if n < NN then m ! n
     else mt_seq m (n - (NN - MM)) XOR mt_twist (mt_seq m (n - NN)) (mt_seq m (n - NN + 1)))"
  by pat_completeness auto
termination by (relation "measure snd") (auto simp: mt_consts)

declare mt_seq.simps [simp del]

fun seed_word :: "u64 \<Rightarrow> nat \<Rightarrow> u64" where
  "seed_word seed 0 = seed"
| "seed_word seed (Suc i) = 6364136223846793005 * mix62 (seed_word seed i) + of_nat (Suc i)"

interpretation mts: mt_recurrence "mt_seq m" for m
  by unfold_locales (subst mt_seq.simps, simp add: mt_consts add.commute)

lemma window_mt_seq: "length m = NN \<Longrightarrow> window (mt_seq m) 0 = m"
  by (rule nth_equalityI) (simp_all add: window_def mt_seq.simps)

lemma seed_steps:
  assumes "length m = NN" "m ! 0 = seed" "k < NN"
  shows "\<forall>j\<le>k. fold seed_step [1..<Suc k] m ! j = seed_word seed j"
  using assms(3)
proof (induction k)
  case 0
  then show ?case using assms(2) by simp
next
  case (Suc k)
  let ?m = "fold seed_step [1..<Suc k] m"
  have "[1..<Suc (Suc k)] = [1..<Suc k] @ [Suc k]" by simp
  then have e: "fold seed_step [1..<Suc (Suc k)] m = seed_step (Suc k) ?m" by (simp only: fold_append fold_simps o_apply)
  have l: "length ?m = NN" by (simp only: length_fold_update [OF length_seed_step] assms(1))
  from Suc have IH: "?m ! j = seed_word seed j" if "j \<le> k" for j using that by (simp del: upt_Suc)
  show ?case unfolding e using l Suc.prems IH
    by (auto simp: seed_step_def nth_list_update le_Suc_eq simp del: upt_Suc)
qed

lemma init_genrand64_eq:
  assumes "length (mt s) = NN"
  shows "init_genrand64 seed s = \<lparr>mt = map (seed_word seed) [0..<NN], mti = NN\<rparr>"
proof -
  have "fold seed_step [1..<NN] ((mt s)[0 := seed]) = map (seed_word seed) [0..<NN]"
  proof (rule nth_equalityI)
    show "length (fold seed_step [1..<NN] ((mt s)[0 := seed])) = length (map (seed_word seed) [0..<NN])"
      using assms by (simp add: length_fold_update)
  next
    fix j assume "j < length (fold seed_step [1..<NN] ((mt s)[0 := seed]))"
    then have "j < NN" using assms by (simp add: length_fold_update)
    then show "fold seed_step [1..<NN] ((mt s)[0 := seed]) ! j = map (seed_word seed) [0..<NN] ! j"
      using seed_steps [of "(mt s)[0 := seed]" seed "NN - 1"] assms by (simp add: NN_def)
  qed
  then show ?thesis by (simp add: init_genrand64_def)
qed

definition mt_output :: "u64 \<Rightarrow> nat \<Rightarrow> u64" where
  "mt_output seed i = temper (mt_seq (map (seed_word seed) [0..<NN]) (NN + i))"

lemma at_word_window:
  "length m = NN \<Longrightarrow> mts.at_word m 0 \<lparr>mt = m, mti = NN\<rparr>"
  unfolding mts.at_word_def by (intro exI [of _ 0]) (simp add: window_mt_seq)

lemma genrand_list_seeded:
  "length (mt s) = NN \<Longrightarrow> fst (genrand_list n (init_genrand64 seed s)) = map (mt_output seed) [0..<n]"
  using mts.genrand_list_at_word [OF at_word_window, of "map (seed_word seed) [0..<NN]" n]
  by (simp add: init_genrand64_eq mt_output_def)

lemma genrand_boot: "mti s = NN + 1 \<Longrightarrow> genrand64_int64 s = genrand64_int64 (init_genrand64 5489 s)"
  by (simp add: genrand64_int64_def init_genrand64_def Let_def)

lemma genrand_list_boot: "fst (genrand_list n mt_boot) = map (mt_output 5489) [0..<n]"
proof (cases n)
  case (Suc k)
  have "genrand_list n mt_boot = genrand_list n (init_genrand64 5489 mt_boot)"
    unfolding Suc genrand_list_Suc by (simp add: genrand_boot mt_boot_def)
  then show ?thesis using genrand_list_seeded [of mt_boot n 5489] by (simp add: mt_boot_def)
qed (simp add: genrand_list_0)

section \<open>Tempering loses nothing\<close>

lemma temper_inj: "temper x = temper y \<Longrightarrow> x = y"
  unfolding temper_def Let_def
  apply (drule xor_drop_inj [of 43 _ "- 1 :: u64", simplified])
  apply (drule xor_push_inj [of 37, simplified])
  apply (drule xor_push_inj [of 17, simplified])
  apply (drule xor_drop_inj [of 29, simplified])
  apply assumption
  done

end
