(* ===== verification/Xoshiro.thy ===== *)
theory Xoshiro
  imports Random_Source
begin

unbundle bit_operations_syntax

text \<open>
  \<open>rand_xoshiro256\<close> of \<open>src/util.cpp\<close>: the caller's array \<open>s[4]\<close> is a list of four words, updated in
  the order of the code's statements. The assertion on the all-zero state is \<^term>\<open>None\<close>. The step
  is a permutation of the states, so a source that starts with a nonzero word never stops.
\<close>

section \<open>The generator\<close>

definition rotl :: "u64 \<Rightarrow> nat \<Rightarrow> u64" where
  "rotl x k = push_bit k x OR drop_bit (64 - k) x"

definition xoshiro_step :: "u64 list \<Rightarrow> u64 list" where
  "xoshiro_step s =
     (let t = push_bit 17 (s ! 1);
          s = s[2 := s ! 2 XOR s ! 0];
          s = s[3 := s ! 3 XOR s ! 1];
          s = s[1 := s ! 1 XOR s ! 2];
          s = s[0 := s ! 0 XOR s ! 3];
          s = s[2 := s ! 2 XOR t]
      in s[3 := rotl (s ! 3) 45])"

definition rand_xoshiro256 :: "u64 list \<Rightarrow> (u64 \<times> u64 list) option" where
  "rand_xoshiro256 s =
     (if (s ! 0 OR s ! 1 OR s ! 2 OR s ! 3) = 0 then None
      else Some (rotl (s ! 0 + s ! 3) 23 + s ! 0, xoshiro_step s))"

definition xoshiro_ok :: "u64 list \<Rightarrow> bool" where
  "xoshiro_ok s \<longleftrightarrow> length s = 4 \<and> s \<noteq> [0, 0, 0, 0]"

section \<open>The step is a permutation\<close>

lemma list4: "length s = 4 \<Longrightarrow> \<exists>a b c d. s = [a, b, c, d]"
  by (auto simp: numeral_eq_Suc length_Suc_conv)

lemma xoshiro_step_list:
  "xoshiro_step [a, b, c, d] =
     [a XOR (d XOR b), b XOR (c XOR a), (c XOR a) XOR push_bit 17 b, rotl (d XOR b) 45]"
  by (simp add: xoshiro_step_def Let_def numeral_2_eq_2 numeral_3_eq_3)

lemma rotl_inj: "k < 64 \<Longrightarrow> rotl x k = rotl y k \<Longrightarrow> x = y"
proof (rule bit_word_eqI)
  fix i assume k: "k < 64" and eq: "rotl x k = rotl y k" and i: "i < LENGTH(64)"
  have "bit (rotl w k) ((i + k) mod 64) = bit w i" for w
    using i k by (cases "i + k < 64")
      (auto simp: rotl_def bit_simps mod_if not_less dest: bit_imp_le_length)
  then show "bit x i = bit y i" using eq by metis
qed

lemma xor_self_left: "a XOR (a XOR b) = (b :: 'a::len word)"
  by (simp add: xor.assoc [symmetric])

lemma xor_cancel_right: "a XOR c = b XOR c \<Longrightarrow> a = (b :: 'a::len word)"
  by (metis xor.assoc xor.right_neutral xor_self_eq)

lemma or_zero_iff: "a OR b = 0 \<longleftrightarrow> a = 0 \<and> b = (0 :: 'a::len word)"
  by (auto simp: bit_eq_iff bit_simps)

lemma xoshiro_step_inj:
  assumes "length s = 4" "length s' = 4" "xoshiro_step s = xoshiro_step s'"
  shows "s = s'"
proof -
  obtain a b c d where s: "s = [a, b, c, d]" using list4 [OF assms(1)] by blast
  obtain a' b' c' d' where s': "s' = [a', b', c', d']" using list4 [OF assms(2)] by blast
  have e0: "a XOR (d XOR b) = a' XOR (d' XOR b')" and e1: "b XOR (c XOR a) = b' XOR (c' XOR a')"
    and e2: "(c XOR a) XOR push_bit 17 b = (c' XOR a') XOR push_bit 17 b'"
    and e3: "rotl (d XOR b) 45 = rotl (d' XOR b') 45"
    using assms(3) unfolding s s' xoshiro_step_list by simp_all
  have d: "d XOR b = d' XOR b'" using rotl_inj [OF _ e3] by simp
  then have a: "a = a'" using e0 by (metis xor_cancel_right)
  have sum: "b XOR push_bit 17 b = (b XOR (c XOR a)) XOR ((c XOR a) XOR push_bit 17 b)" for a b c :: u64
    by (simp add: ac_simps xor_self_left)
  have "b XOR push_bit 17 b = b' XOR push_bit 17 b'" unfolding sum [of b c a] sum [of b' c' a'] e1 e2 ..
  then have b: "b = b'" using xor_push_inj [of 17 b "-1" b'] by simp
  moreover have "d = d'" using d unfolding b by (rule xor_cancel_right)
  moreover have "c = c'" using e1 unfolding a b by (metis xor_cancel_right xor.commute)
  ultimately show ?thesis using a s s' by simp
qed

lemma length_xoshiro_step [simp]: "length (xoshiro_step s) = length s"
  by (simp add: xoshiro_step_def Let_def)

lemma xoshiro_step_zero: "xoshiro_step [0, 0, 0, 0] = [0, 0, 0, 0]"
  by (simp add: xoshiro_step_list rotl_def)

lemma xoshiro_step_ok: "xoshiro_ok s \<Longrightarrow> xoshiro_ok (xoshiro_step s)"
  using xoshiro_step_inj [of s "[0, 0, 0, 0]"] xoshiro_step_zero by (auto simp: xoshiro_ok_def)

lemma xoshiro_defined:
  assumes "length s = 4"
  shows "rand_xoshiro256 s = None \<longleftrightarrow> s = [0, 0, 0, 0]"
proof -
  obtain a b c d where s: "s = [a, b, c, d]" using list4 [OF assms] by blast
  show ?thesis unfolding s by (auto simp: rand_xoshiro256_def numeral_2_eq_2 numeral_3_eq_3 or_zero_iff)
qed

lemma rand_xoshiro_ok: "xoshiro_ok s \<Longrightarrow> \<exists>r. rand_xoshiro256 s = Some (r, xoshiro_step s)"
  using xoshiro_defined [of s] by (auto simp: xoshiro_ok_def rand_xoshiro256_def)

interpretation xo: random_source rand_xoshiro256 xoshiro_ok
  by unfold_locales (use rand_xoshiro_ok xoshiro_step_ok in blast)

end
