(* ===== verification/Ec2b.thy ===== *)
theory Ec2b
  imports Ec2b_Cipher Host_Memory Mt19937 Xoshiro
begin

unbundle bit_operations_syntax

text \<open>
  The class \<open>Ec2b\<close> of \<open>src/ec2b.cpp\<close>: a 16-byte key and 2048 bytes of data from which a 64-bit seed
  and from it a 4096-byte xorpad are derived. The object is a record; an operation that fails an
  assertion is \<^term>\<open>None\<close>. The Mersenne twister is static state of the program, so every operation
  that draws from it takes it and returns it. What \<open>getrandom\<close> writes, what an uninitialised buffer
  holds and what a file contains are arguments of the operations that read them.
\<close>

section \<open>The object\<close>

record ec2b =
  ec_key :: bytes
  ec_data :: bytes
  ec_xorpad :: bytes
  ec_seed :: u64

definition SEED_FROM_OBJECT :: u32 where "SEED_FROM_OBJECT = 0"
definition SEED_FROM_RAND :: u32 where "SEED_FROM_RAND = 1"
definition SEED_FROM_SEED :: u32 where "SEED_FROM_SEED = 2"
definition SEED_FROM_SEED_MT :: u32 where "SEED_FROM_SEED_MT = 3"
definition SEED_FROM_SEED_XOR :: u32 where "SEED_FROM_SEED_XOR = 4"
definition SEED_FROM_ZERO :: u32 where "SEED_FROM_ZERO = 5"
definition SEED_FROM_CONST_HIGH_BYTE :: u32 where "SEED_FROM_CONST_HIGH_BYTE = 6"

lemmas seed_methods = SEED_FROM_OBJECT_def SEED_FROM_RAND_def SEED_FROM_SEED_def SEED_FROM_SEED_MT_def
  SEED_FROM_SEED_XOR_def SEED_FROM_ZERO_def SEED_FROM_CONST_HIGH_BYTE_def

definition EC2B_CONST :: u64 where "EC2B_CONST = 0xceac3b5a867837ac"

section \<open>The xorpad\<close>

fun xorpad_loop :: "nat \<Rightarrow> bool \<Rightarrow> mt_state \<Rightarrow> bytes \<times> mt_state" where
  "xorpad_loop 0 be s = ([], s)"
| "xorpad_loop (Suc n) be s =
     (let (r, s1) = genrand64_int64 s;
          r' = (if be then htobe64 r else r);
          (rest, s2) = xorpad_loop n be s1
      in (store_le 8 r' @ rest, s2))"

text \<open>
  The pair of the pointer \<open>_xorpad\<close> and the size \<open>sz\<close> is the list of the \<open>sz\<close> bytes, \<^term>\<open>None\<close> for a
  null pointer; the bytes behind the last whole word stay as they are.
\<close>

definition genXorpadFromSeed :: "u64 \<Rightarrow> bytes option \<Rightarrow> bool \<Rightarrow> bool \<Rightarrow> mt_state \<Rightarrow> bytes option \<times> mt_state" where
  "genXorpadFromSeed seed xorpad reroll be s =
     (case xorpad of
        None \<Rightarrow> (None, s)
      | Some buf \<Rightarrow>
          let s1 = init_genrand64 seed s;
              s2 = (if reroll
                    then let (r, t1) = genrand64_int64 s1;
                             t2 = init_genrand64 r t1;
                             (_, t3) = genrand64_int64 t2
                         in t3
                    else s1);
              n = length buf div 8;
              (out, s3) = xorpad_loop n be s2
          in (Some (out @ drop (8 * n) buf), s3))"

definition full_xorpad :: "u64 \<Rightarrow> mt_state \<Rightarrow> bytes \<times> mt_state" where
  "full_xorpad seed s =
     (let (pad, s') = genXorpadFromSeed seed (Some (replicate 4096 0)) False False s in (the pad, s'))"

section \<open>From key and data to the seed\<close>

definition xor_words :: "nat \<Rightarrow> bytes \<Rightarrow> u64 \<Rightarrow> u64" where
  "xor_words n d seed = fold (\<lambda>i x. x XOR u64_at d i) [0..<n] seed"

definition deriveXor :: "ec2b \<Rightarrow> mt_state \<Rightarrow> (ec2b \<times> mt_state) option" where
  "deriveXor e s =
     (case (c_str_read (ec_key e) 16, c_str_read (ec_data e) 2048) of
        (Some k0, Some d) \<Rightarrow>
          let k = scrambleKey k0;
              seed = NOT EC2B_CONST XOR u64_at k 0 XOR u64_at k 1;
              seed = xor_words 256 d seed;
              (pad, s') = full_xorpad seed s
          in Some (e\<lparr>ec_seed := seed, ec_xorpad := pad\<rparr>, s')
      | _ \<Rightarrow> None)"

section \<open>From the seed to a key\<close>

text \<open>
  The two generators fill the key and the data word by word; \<open>nxt\<close> is the generator.
\<close>

definition words_of :: "u64 list \<Rightarrow> bytes" where
  "words_of ws = concat (map (store_le 8) ws)"

definition fill_from :: "('s \<Rightarrow> (u64 \<times> 's) option) \<Rightarrow> 's \<Rightarrow> (bytes \<times> bytes \<times> 's) option" where
  "fill_from nxt s =
     (case draw nxt 2 s of
        None \<Rightarrow> None
      | Some (k, s1) \<Rightarrow>
          (case draw nxt 256 s1 of
             None \<Rightarrow> None
           | Some (d, s2) \<Rightarrow> Some (words_of k, words_of d, s2)))"

text \<open>
  The \<open>switch\<close> of \<open>getFromSeed\<close>: the buffers \<open>_k\<close> and \<open>_d\<close> after it and the object's data. \<open>rnd\<close> is
  what \<open>getrandom\<close> writes into the two buffers, \<open>raw\<close> what they hold before anything is written. An
  unknown method is set to \<open>SEED_FROM_RAND\<close> behind the \<open>switch\<close>, so the buffers stay as they were.
\<close>

definition const_high_byte :: "u32 \<Rightarrow> bool" where
  "const_high_byte method \<longleftrightarrow> (method AND 0xff) = SEED_FROM_CONST_HIGH_BYTE"

definition high_byte :: "u32 \<Rightarrow> u8" where
  "high_byte method = ucast (signed_drop_bit 8 method AND 0xff)"

definition seed_buffers ::
  "u32 \<Rightarrow> bytes \<times> bytes \<Rightarrow> bytes \<times> bytes \<Rightarrow> ec2b \<Rightarrow> mt_state \<Rightarrow> (bytes \<times> bytes \<times> bytes \<times> mt_state) option" where
  "seed_buffers method rnd raw e s =
     (if method = SEED_FROM_OBJECT then
        if 16 \<le> length (ec_key e) \<and> 2048 \<le> length (ec_data e)
        then Some (take 16 (ec_key e), take 2048 (ec_data e), ec_data e, s)
        else None
      else if method = SEED_FROM_RAND then Some (fst rnd, snd rnd, snd rnd, s)
      else if method = SEED_FROM_SEED \<or> method = SEED_FROM_SEED_MT then
        (case fill_from genrand_next (init_genrand64 (ec_seed e) s) of
           None \<Rightarrow> None
         | Some (k, d, s') \<Rightarrow> Some (k, d, d, s'))
      else if method = SEED_FROM_SEED_XOR then
        (case fill_from rand_xoshiro256 [ec_seed e, 0, 0, 0] of
           None \<Rightarrow> None
         | Some (k, d, _) \<Rightarrow> Some (k, d, d, s))
      else if method = SEED_FROM_ZERO then
        Some (replicate 16 0, replicate 2048 0, replicate 2048 0, s)
      else if const_high_byte method then
        Some (replicate 16 (high_byte method), replicate 2048 (high_byte method),
              replicate 2048 (high_byte method), s)
      else Some (fst raw, snd raw, ec_data e, s))"

definition getFromSeed ::
  "u32 \<Rightarrow> bytes \<times> bytes \<Rightarrow> bytes \<times> bytes \<Rightarrow> ec2b \<Rightarrow> mt_state \<Rightarrow> (ec2b \<times> mt_state) option" where
  "getFromSeed method rnd raw e s =
     (case seed_buffers method rnd raw e s of
        None \<Rightarrow> None
      | Some (k, d, data', s') \<Rightarrow>
          let x = xor_words 256 d (- 1);
              x = x XOR u64_at k 1;
              x = x XOR EC2B_CONST;
              x = x XOR ec_seed e;
              k = put_u64 0 x k
          in Some (e\<lparr>ec_key := unscrambleKey k, ec_data := data'\<rparr>, s'))"

section \<open>Constructors\<close>

definition blank :: "u64 \<Rightarrow> ec2b" where
  "blank raw_seed = \<lparr>ec_key = [], ec_data = [], ec_xorpad = [], ec_seed = raw_seed\<rparr>"

definition ec2b_of_method ::
  "u32 \<Rightarrow> bytes \<times> bytes \<Rightarrow> bytes \<times> bytes \<Rightarrow> u64 \<Rightarrow> mt_state \<Rightarrow> (ec2b \<times> mt_state) option" where
  "ec2b_of_method method rnd raw raw_seed s =
     (let (k, d) = (if method = SEED_FROM_ZERO then (replicate 16 0, replicate 2048 0)
                    else if method = SEED_FROM_RAND then rnd
                    else if const_high_byte method
                         then (replicate 16 (high_byte method), replicate 2048 (high_byte method))
                    else raw)
      in deriveXor ((blank raw_seed)\<lparr>ec_key := k, ec_data := d\<rparr>) s)"

definition ec2b_default :: "bytes \<times> bytes \<Rightarrow> bytes \<times> bytes \<Rightarrow> u64 \<Rightarrow> mt_state \<Rightarrow> (ec2b \<times> mt_state) option" where
  "ec2b_default rnd raw raw_seed s = ec2b_of_method SEED_FROM_RAND rnd raw raw_seed s"

text \<open>A buffer read as an \<open>ec2b_t\<close>; the offsets are those of the structure.\<close>

definition ec2b_of_struct :: "bytes \<Rightarrow> u64 \<Rightarrow> mt_state \<Rightarrow> (ec2b \<times> mt_state) option" where
  "ec2b_of_struct buf raw_seed s =
     (if (load_le (piece 0 4 buf) :: u32) = htobe32 0x45633262
         \<and> (load_le (piece 4 4 buf) :: u32) = 16
         \<and> (load_le (piece 24 4 buf) :: u32) = 2048
      then deriveXor ((blank raw_seed)\<lparr>ec_key := piece 8 16 buf, ec_data := piece 28 2048 buf\<rparr>) s
      else None)"

definition ec2b_of_buffer :: "bytes option \<Rightarrow> u64 \<Rightarrow> mt_state \<Rightarrow> (ec2b \<times> mt_state) option" where
  "ec2b_of_buffer buf raw_seed s =
     (case buf of
        None \<Rightarrow> Some (blank raw_seed, s)
      | Some b \<Rightarrow> if length b \<ge> 0x81c then ec2b_of_struct b raw_seed s else None)"

text \<open>Both file constructors read at most \<open>0x81c\<close> bytes into a cleared buffer.\<close>

definition ec2b_of_file :: "bytes option \<Rightarrow> u64 \<Rightarrow> mt_state \<Rightarrow> (ec2b \<times> mt_state) option" where
  "ec2b_of_file content raw_seed s =
     (case content of
        None \<Rightarrow> Some (blank raw_seed, s)
      | Some c \<Rightarrow> ec2b_of_struct (take 0x81c (c @ replicate 0x81c 0)) raw_seed s)"

definition ec2b_of_key_data :: "bytes \<Rightarrow> bytes \<Rightarrow> u64 \<Rightarrow> mt_state \<Rightarrow> (ec2b \<times> mt_state) option" where
  "ec2b_of_key_data k d raw_seed s =
     (if 16 \<le> length k \<and> 2048 \<le> length d
      then deriveXor ((blank raw_seed)\<lparr>ec_key := k, ec_data := d\<rparr>) s
      else None)"

definition setSeed ::
  "u64 \<Rightarrow> u32 \<Rightarrow> bytes \<times> bytes \<Rightarrow> bytes \<times> bytes \<Rightarrow> ec2b \<Rightarrow> mt_state \<Rightarrow> (ec2b \<times> mt_state) option" where
  "setSeed seed method rnd raw e s =
     (let e1 = e\<lparr>ec_seed := seed\<rparr>;
          (pad, s1) = full_xorpad seed s
      in getFromSeed method rnd raw (e1\<lparr>ec_xorpad := pad\<rparr>) s1)"

definition setSeed_object :: "u64 \<Rightarrow> ec2b \<Rightarrow> mt_state \<Rightarrow> (ec2b \<times> mt_state) option" where
  "setSeed_object seed e s = setSeed seed SEED_FROM_OBJECT ([], []) ([], []) e s"

definition ec2b_of_seed ::
  "u64 \<Rightarrow> u32 \<Rightarrow> bytes \<times> bytes \<Rightarrow> bytes \<times> bytes \<Rightarrow> mt_state \<Rightarrow> (ec2b \<times> mt_state) option" where
  "ec2b_of_seed seed method rnd raw s = setSeed seed method rnd raw (blank 0) s"

section \<open>Accessors\<close>

definition setKey :: "bytes \<Rightarrow> ec2b \<Rightarrow> mt_state \<Rightarrow> (ec2b \<times> mt_state) option" where
  "setKey k e s = (if 16 \<le> length k then deriveXor (e\<lparr>ec_key := k\<rparr>) s else None)"

definition setData :: "bytes \<Rightarrow> ec2b \<Rightarrow> mt_state \<Rightarrow> (ec2b \<times> mt_state) option" where
  "setData d e s = (if 2048 \<le> length d then deriveXor (e\<lparr>ec_data := d\<rparr>) s else None)"

text \<open>The conversions to \<open>ec2b_t\<close> and to a string of its bytes.\<close>

definition ec2b_struct :: "ec2b \<Rightarrow> bytes option" where
  "ec2b_struct e =
     (case (c_str_read (ec_key e) 16, c_str_read (ec_data e) 2048) of
        (Some k, Some d) \<Rightarrow>
          Some (store_le 4 (htobe32 0x45633262) @ store_le 4 (16 :: u32) @ k @
                store_le 4 (2048 :: u32) @ d)
      | _ \<Rightarrow> None)"

end
