(* ===== verification/Ec2b_Props.thy ===== *)
theory Ec2b_Props
  imports Ec2b
begin

unbundle bit_operations_syntax

text \<open>
  What the operations of theory \<open>Ec2b\<close> promise: the xorpad is the byte image of the Mersenne twister's
  numbers for the seed, the key that \<open>getFromSeed\<close> computes gives back the seed it was computed
  from, every constructor and setter leaves a consistent object, and the binary structure carries it.
\<close>

section \<open>The xorpad is the byte image of the generator's numbers\<close>

lemma words_of_Cons: "words_of (w # ws) = store_le 8 w @ words_of ws"
  by (simp add: words_of_def)

lemma length_words_of: "length (words_of ws) = 8 * length ws"
  by (induction ws) (simp_all add: words_of_def)

lemma xorpad_loop_eq:
  "xorpad_loop n be s =
     (words_of (map (\<lambda>r. if be then htobe64 r else r) (fst (genrand_list n s))), snd (genrand_list n s))"
proof (induction n arbitrary: s)
  case 0
  then show ?case by (simp add: genrand_list_0 words_of_def)
next
  case (Suc n)
  then show ?case by (simp add: genrand_list_Suc words_of_Cons Let_def split: prod.splits)
qed

lemma mt_ok_genrand_list: "mt_ok s \<Longrightarrow> mt_ok (snd (genrand_list n s))"
  using mt.draw_ok [of s n] by (auto simp: draw_genrand)

lemma mt_ok_length: "mt_ok s \<Longrightarrow> length (mt s) = NN"
  by (simp add: mt_ok_def)

definition seed_pad :: "u64 \<Rightarrow> bytes" where
  "seed_pad seed = words_of (map (mt_output seed) [0..<512])"

lemma length_seed_pad: "length (seed_pad seed) = 4096"
  by (simp add: seed_pad_def length_words_of)

lemma genXorpad_plain:
  assumes "mt_ok s"
  shows "genXorpadFromSeed seed (Some buf) False be s =
    (Some (words_of (map (\<lambda>i. if be then htobe64 (mt_output seed i) else mt_output seed i) [0..<length buf div 8])
        @ drop (8 * (length buf div 8)) buf),
     snd (genrand_list (length buf div 8) (init_genrand64 seed s)))"
  by (simp add: genXorpadFromSeed_def Let_def xorpad_loop_eq genrand_list_seeded mt_ok_length [OF assms] o_def)

lemma genXorpad_length:
  "genXorpadFromSeed seed (Some buf) reroll be s = (Some pad, s') \<Longrightarrow> length pad = length buf"
proof -
  have l: "length (fst (genrand_list n t)) = n" for n t
    by (rule draw_length [of genrand_next n t _ "snd (genrand_list n t)"]) (simp add: draw_genrand)
  show "genXorpadFromSeed seed (Some buf) reroll be s = (Some pad, s') \<Longrightarrow> length pad = length buf"
    by (auto simp: genXorpadFromSeed_def Let_def xorpad_loop_eq length_words_of l split: prod.splits if_splits)
qed

lemma mt_ok_genXorpad: "mt_ok s \<Longrightarrow> mt_ok (snd (genXorpadFromSeed seed buf reroll be s))"
  by (simp add: genXorpadFromSeed_def Let_def xorpad_loop_eq mt_ok_genrand_list mt_ok_init mt_ok_genrand
      split_def split: option.splits)

lemma full_xorpad_eq:
  assumes "mt_ok s"
  obtains s' where "full_xorpad seed s = (seed_pad seed, s')" "mt_ok s'"
proof
  show "full_xorpad seed s = (seed_pad seed, snd (genrand_list 512 (init_genrand64 seed s)))"
    by (simp add: full_xorpad_def genXorpad_plain [OF assms] seed_pad_def)
  show "mt_ok (snd (genrand_list 512 (init_genrand64 seed s)))"
    by (simp add: mt_ok_genrand_list mt_ok_init assms)
qed

section \<open>Seed and key determine each other\<close>

lemma xor_words_Suc: "xor_words (Suc n) d x = xor_words n d x XOR u64_at d n"
  by (simp add: xor_words_def)

lemma xor_words_acc: "xor_words n d x = x XOR xor_words n d 0"
proof (induction n)
  case 0
  then show ?case by (simp add: xor_words_def)
next
  case (Suc n)
  then show ?case unfolding xor_words_Suc by (metis xor.assoc)
qed

lemma xor_words_take: "8 * n \<le> m \<Longrightarrow> xor_words n (take m d) x = xor_words n d x"
proof (induction n)
  case (Suc n)
  then show ?case by (simp add: xor_words_Suc u64_at_take)
qed (simp add: xor_words_def)

definition derive_seed :: "bytes \<Rightarrow> bytes \<Rightarrow> u64" where
  "derive_seed k d =
     NOT EC2B_CONST XOR u64_at (scrambleKey (take 16 k)) 0 XOR u64_at (scrambleKey (take 16 k)) 1
       XOR xor_words 256 d 0"

text \<open>A consistent object: seed and xorpad are the ones its key and data give.\<close>

definition ec2b_ok :: "ec2b \<Rightarrow> bool" where
  "ec2b_ok e \<longleftrightarrow> 16 \<le> length (ec_key e) \<and> 2048 \<le> length (ec_data e)
     \<and> ec_seed e = derive_seed (ec_key e) (ec_data e) \<and> ec_xorpad e = seed_pad (ec_seed e)"

lemma deriveXor_eq:
  assumes "mt_ok s" "16 \<le> length (ec_key e)" "2048 \<le> length (ec_data e)"
  obtains s' where "deriveXor e s =
      Some (e\<lparr>ec_seed := derive_seed (ec_key e) (ec_data e),
              ec_xorpad := seed_pad (derive_seed (ec_key e) (ec_data e))\<rparr>, s')" "mt_ok s'"
proof -
  let ?k = "scrambleKey (take 16 (ec_key e))"
  have seed: "xor_words 256 (take 2048 (ec_data e)) (NOT EC2B_CONST XOR u64_at ?k 0 XOR u64_at ?k 1) =
      derive_seed (ec_key e) (ec_data e)"
    unfolding derive_seed_def by (subst xor_words_acc) (simp add: xor_words_take xor.assoc)
  obtain s' where "full_xorpad (derive_seed (ec_key e) (ec_data e)) s =
      (seed_pad (derive_seed (ec_key e) (ec_data e)), s')" "mt_ok s'"
    using full_xorpad_eq [OF assms(1)] .
  note pad = this
  have "deriveXor e s = Some (e\<lparr>ec_seed := derive_seed (ec_key e) (ec_data e),
      ec_xorpad := seed_pad (derive_seed (ec_key e) (ec_data e))\<rparr>, s')"
    by (simp only: deriveXor_def c_str_read_long [OF assms(2)] c_str_read_long [OF assms(3)]
        prod.case option.case Let_def seed pad(1))
  with that pad(2) show ?thesis by blast
qed

lemma deriveXor_ok:
  assumes "deriveXor e s = Some (e', s')" "mt_ok s" "16 \<le> length (ec_key e)" "2048 \<le> length (ec_data e)"
  shows "ec2b_ok e' \<and> mt_ok s' \<and> ec_key e' = ec_key e \<and> ec_data e' = ec_data e"
proof -
  obtain t where "deriveXor e s = Some (e\<lparr>ec_seed := derive_seed (ec_key e) (ec_data e),
      ec_xorpad := seed_pad (derive_seed (ec_key e) (ec_data e))\<rparr>, t)" "mt_ok t"
    using deriveXor_eq [OF assms(2-4)] .
  with assms show ?thesis by (auto simp: ec2b_ok_def)
qed

lemma derive_seed_take: "derive_seed (take 16 k) (take 2048 d) = derive_seed k d"
  by (simp add: derive_seed_def xor_words_take)

lemma xor_cancel_cross:
  fixes a :: u64
  shows "NOT a XOR ((((- 1 XOR d) XOR k) XOR a) XOR x) XOR k XOR d = x"
  by (rule bit_word_eqI) (auto simp: bit_simps)

lemma derive_seed_put:
  assumes "length k = 16" "x = (((xor_words 256 d (- 1) XOR u64_at k 1) XOR EC2B_CONST) XOR seed)"
  shows "derive_seed (unscrambleKey (put_u64 0 x k)) d = seed"
proof -
  have len: "length (put_u64 0 x k) = 16" using assms(1) by (simp add: length_put_u64)
  then have "scrambleKey (take 16 (unscrambleKey (put_u64 0 x k))) = put_u64 0 x k"
    by (simp add: cipher.len_inv cipher.inv_right)
  moreover have "u64_at (put_u64 0 x k) 0 = x" "u64_at (put_u64 0 x k) 1 = u64_at k 1"
    using assms(1) by (simp_all add: u64_at_put_same u64_at_put_other)
  moreover have "x = ((((- 1 XOR xor_words 256 d 0) XOR u64_at k 1) XOR EC2B_CONST) XOR seed)"
    unfolding assms(2) by (subst xor_words_acc) (rule refl)
  ultimately show ?thesis
    unfolding derive_seed_def by (simp only: xor_cancel_cross)
qed

section \<open>Every method leaves a consistent object\<close>

definition known_method :: "u32 \<Rightarrow> bool" where
  "known_method m \<longleftrightarrow> m \<in> {SEED_FROM_OBJECT, SEED_FROM_RAND, SEED_FROM_SEED, SEED_FROM_SEED_MT,
     SEED_FROM_SEED_XOR, SEED_FROM_ZERO} \<or> const_high_byte m"

definition rnd_ok :: "bytes \<times> bytes \<Rightarrow> bool" where
  "rnd_ok r \<longleftrightarrow> length (fst r) = 16 \<and> length (snd r) = 2048"

lemma fill_from_ok:
  assumes "random_source nxt ok" "ok s"
  obtains k d s' where "fill_from nxt s = Some (k, d, s')" "length k = 16" "length d = 2048" "ok s'"
proof -
  obtain ks s1 where k: "draw nxt 2 s = Some (ks, s1)" "length ks = 2" "ok s1"
    using random_source.draw_ok [OF assms, of 2] by blast
  obtain ds s2 where d: "draw nxt 256 s1 = Some (ds, s2)" "length ds = 256" "ok s2"
    using random_source.draw_ok [OF assms(1) k(3), of 256] by blast
  from k d that [of "words_of ks" "words_of ds" s2] show ?thesis
    by (simp add: fill_from_def length_words_of)
qed

text \<open>When the \<open>switch\<close> fails an assertion: no key and data to keep, or the all-zero generator.\<close>

definition method_refused :: "u32 \<Rightarrow> ec2b \<Rightarrow> bool" where
  "method_refused m e \<longleftrightarrow>
     m = SEED_FROM_OBJECT \<and> (length (ec_key e) < 16 \<or> length (ec_data e) < 2048)
     \<or> m = SEED_FROM_SEED_XOR \<and> ec_seed e = 0"

definition buffers_ok :: "bytes \<times> bytes \<times> bytes \<times> mt_state \<Rightarrow> bool" where
  "buffers_ok r = (case r of (k, d, d', s') \<Rightarrow>
     length k = 16 \<and> d = take 2048 d' \<and> 2048 \<le> length d' \<and> mt_ok s')"

lemma fill_xoshiro_zero: "fill_from rand_xoshiro256 [0, 0, 0, 0] = None"
  using xoshiro_defined [of "[0, 0, 0, 0]"] by (simp add: fill_from_def numeral_2_eq_2)

lemma seed_buffers_ok:
  assumes "known_method m" "rnd_ok rnd" "mt_ok s" "\<not> method_refused m e"
  shows "\<exists>r. seed_buffers m rnd raw e s = Some r \<and> buffers_ok r"
proof -
  consider "m = SEED_FROM_OBJECT" | "m = SEED_FROM_RAND" | "m = SEED_FROM_SEED \<or> m = SEED_FROM_SEED_MT"
    | "m = SEED_FROM_SEED_XOR" | "m = SEED_FROM_ZERO"
    | "m \<notin> {SEED_FROM_OBJECT, SEED_FROM_RAND, SEED_FROM_SEED, SEED_FROM_SEED_MT, SEED_FROM_SEED_XOR,
        SEED_FROM_ZERO}" "const_high_byte m"
    using assms(1) by (auto simp: known_method_def)
  then show ?thesis
  proof cases
    case 3
    obtain k d s' where f: "fill_from genrand_next (init_genrand64 (ec_seed e) s) = Some (k, d, s')"
      "length k = 16" "length d = 2048" "mt_ok s'"
      using fill_from_ok [OF mt.random_source_axioms mt_ok_init [OF assms(3)]] .
    have "m \<noteq> SEED_FROM_OBJECT" "m \<noteq> SEED_FROM_RAND" using 3 by (auto simp: seed_methods)
    with 3 f show ?thesis by (simp add: seed_buffers_def buffers_ok_def)
  next
    case 4
    with assms(4) have "xoshiro_ok [ec_seed e, 0, 0, 0]" by (auto simp: method_refused_def xoshiro_ok_def)
    then obtain k d s' where f: "fill_from rand_xoshiro256 [ec_seed e, 0, 0, 0] = Some (k, d, s')"
      "length k = 16" "length d = 2048"
      using fill_from_ok [OF xo.random_source_axioms] by metis
    with 4 assms(3) show ?thesis by (simp add: seed_buffers_def buffers_ok_def seed_methods)
  qed (use assms in \<open>auto simp: seed_buffers_def buffers_ok_def seed_methods rnd_ok_def method_refused_def\<close>)
qed

lemma seed_buffers_refused:
  assumes "method_refused m e"
  shows "seed_buffers m rnd raw e s = None"
  using assms fill_xoshiro_zero by (auto simp: method_refused_def seed_buffers_def seed_methods)

lemma getFromSeed_ok:
  assumes "known_method m" "rnd_ok rnd" "mt_ok s" "\<not> method_refused m e"
    and pad: "ec_xorpad e = seed_pad (ec_seed e)"
  obtains e' s' where "getFromSeed m rnd raw e s = Some (e', s')" "ec2b_ok e'" "ec_seed e' = ec_seed e"
    "ec_xorpad e' = ec_xorpad e" "mt_ok s'"
proof -
  obtain k d d' s' where r: "seed_buffers m rnd raw e s = Some (k, d, d', s')"
      "length k = 16" "d = take 2048 d'" "2048 \<le> length d'" "mt_ok s'"
    using seed_buffers_ok [OF assms(1-4), of raw] by (auto simp: buffers_ok_def)
  let ?x = "((xor_words 256 d (- 1) XOR u64_at k 1) XOR EC2B_CONST) XOR ec_seed e"
  let ?e = "e\<lparr>ec_key := unscrambleKey (put_u64 0 ?x k), ec_data := d'\<rparr>"
  have g: "getFromSeed m rnd raw e s = Some (?e, s')" using r(1) by (simp add: getFromSeed_def Let_def)
  have len: "length (unscrambleKey (put_u64 0 ?x k)) = 16"
    using r(2) by (simp add: cipher.len_inv length_put_u64)
  have "derive_seed (unscrambleKey (put_u64 0 ?x k)) d' = ec_seed e"
    using derive_seed_put [OF r(2) refl, of d "ec_seed e"] derive_seed_take [of _ d'] len r(3)
    by (metis order_refl take_all)
  with len r(4) pad have "ec2b_ok ?e" by (simp add: ec2b_ok_def)
  with g r(5) that show ?thesis by simp
qed

lemma setSeed_ok:
  assumes "known_method m" "rnd_ok rnd" "mt_ok s" "\<not> method_refused m (e\<lparr>ec_seed := seed\<rparr>)"
  obtains e' s' where "setSeed seed m rnd raw e s = Some (e', s')" "ec2b_ok e'" "ec_seed e' = seed" "mt_ok s'"
proof -
  obtain t where t: "full_xorpad seed s = (seed_pad seed, t)" "mt_ok t" using full_xorpad_eq [OF assms(3)] .
  have "\<not> method_refused m (e\<lparr>ec_seed := seed, ec_xorpad := seed_pad seed\<rparr>)"
    using assms(4) by (simp add: method_refused_def)
  then obtain e' s' where g:
    "getFromSeed m rnd raw (e\<lparr>ec_seed := seed, ec_xorpad := seed_pad seed\<rparr>) t = Some (e', s')"
    "ec2b_ok e'" "ec_seed e' = seed" "mt_ok s'"
    by (rule getFromSeed_ok [OF assms(1,2) t(2), where raw = raw]) auto
  show ?thesis by (rule that [OF _ g(2-4)]) (simp add: setSeed_def t(1) g(1))
qed

lemma setSeed_refused:
  assumes "method_refused m (e\<lparr>ec_seed := seed\<rparr>)"
  shows "setSeed seed m rnd raw e s = None"
proof -
  obtain pad t where "full_xorpad seed s = (pad, t)" by fastforce
  moreover have "method_refused m (e\<lparr>ec_seed := seed, ec_xorpad := pad\<rparr>)"
    using assms by (simp add: method_refused_def)
  ultimately show ?thesis by (simp add: setSeed_def getFromSeed_def seed_buffers_refused)
qed

section \<open>Objects that can arise\<close>

text \<open>
  Every constructor and every setter, with any arguments and at any state of the shared generator. An object
  is empty when it was made of a null pointer or of a file that cannot be opened; its last seeding is sound with
  the methods the header names, and garbled with any other, for which the code takes over what an
  uninitialised buffer held. \<open>raw\<close> is that buffer.
\<close>

datatype ec2b_kind = Empty | Sound | Garbled

inductive ec2b_reach :: "ec2b_kind \<Rightarrow> ec2b \<Rightarrow> bool" where
  of_null: "ec2b_of_buffer None u s = Some (e, s') \<Longrightarrow> ec2b_reach Empty e"
| of_no_file: "ec2b_of_file None u s = Some (e, s') \<Longrightarrow> ec2b_reach Empty e"
| of_method: "mt_ok s \<Longrightarrow> rnd_ok rnd \<Longrightarrow> rnd_ok raw \<Longrightarrow> ec2b_of_method m rnd raw u s = Some (e, s') \<Longrightarrow> ec2b_reach Sound e"
| of_buffer: "mt_ok s \<Longrightarrow> ec2b_of_buffer (Some b) u s = Some (e, s') \<Longrightarrow> ec2b_reach Sound e"
| of_file: "mt_ok s \<Longrightarrow> ec2b_of_file (Some c) u s = Some (e, s') \<Longrightarrow> ec2b_reach Sound e"
| of_key_data: "mt_ok s \<Longrightarrow> ec2b_of_key_data k d u s = Some (e, s') \<Longrightarrow> ec2b_reach Sound e"
| of_seed: "mt_ok s \<Longrightarrow> rnd_ok rnd \<Longrightarrow> rnd_ok raw \<Longrightarrow> ec2b_of_seed v m rnd raw s = Some (e, s') \<Longrightarrow>
    ec2b_reach (if known_method m then Sound else Garbled) e"
| set_key: "ec2b_reach t e0 \<Longrightarrow> mt_ok s \<Longrightarrow> setKey k e0 s = Some (e, s') \<Longrightarrow> ec2b_reach Sound e"
| set_data: "ec2b_reach t e0 \<Longrightarrow> mt_ok s \<Longrightarrow> setData d e0 s = Some (e, s') \<Longrightarrow> ec2b_reach Sound e"
| set_seed: "ec2b_reach t e0 \<Longrightarrow> mt_ok s \<Longrightarrow> rnd_ok rnd \<Longrightarrow> rnd_ok raw \<Longrightarrow>
    setSeed v m rnd raw e0 s = Some (e, s') \<Longrightarrow> ec2b_reach (if known_method m then Sound else Garbled) e"

text \<open>The setter without a method keeps the key and the data; what \<open>getrandom\<close> would give does not matter to it.\<close>

lemma setSeed_object_eq: "setSeed_object v e s = setSeed v SEED_FROM_OBJECT rnd raw e s"
  by (simp add: setSeed_object_def setSeed_def getFromSeed_def seed_buffers_def split_def)

definition ec2b_inv :: "ec2b_kind \<Rightarrow> ec2b \<Rightarrow> bool" where
  "ec2b_inv t e =
     (case t of
        Empty \<Rightarrow> ec_key e = [] \<and> ec_data e = [] \<and> ec_xorpad e = []
      | Sound \<Rightarrow> ec2b_ok e
      | Garbled \<Rightarrow> length (ec_key e) = 16 \<and> (ec_data e = [] \<or> 2048 \<le> length (ec_data e)) \<and> ec_xorpad e = seed_pad (ec_seed e))"

lemma ec2b_inv_sizes:
  "ec2b_inv t e \<Longrightarrow> ec_key e = [] \<or> 16 \<le> length (ec_key e)" "ec2b_inv t e \<Longrightarrow> ec_data e = [] \<or> 2048 \<le> length (ec_data e)"
  by (cases t; simp add: ec2b_inv_def ec2b_ok_def)+

lemma deriveXor_empty: "ec_key e = [] \<or> ec_data e = [] \<Longrightarrow> deriveXor e s = None"
  by (auto simp: deriveXor_def c_str_read_def split: option.split)

lemma setSeed_reach:
  assumes "setSeed v m rnd raw e0 s = Some (e, s')" "mt_ok s" "rnd_ok rnd" "rnd_ok raw"
    "ec_data e0 = [] \<or> 2048 \<le> length (ec_data e0)"
  shows "ec2b_inv (if known_method m then Sound else Garbled) e"
proof (cases "known_method m")
  case True
  show ?thesis
  proof (cases "method_refused m (e0\<lparr>ec_seed := v\<rparr>)")
    case True
    with assms(1) show ?thesis by (simp add: setSeed_refused)
  next
    case False
    obtain e' t where "setSeed v m rnd raw e0 s = Some (e', t)" "ec2b_ok e'"
      using setSeed_ok [OF True assms(3,2) False] .
    with assms(1) True show ?thesis by (simp add: ec2b_inv_def)
  qed
next
  case False
  obtain t where t: "full_xorpad v s = (seed_pad v, t)" using full_xorpad_eq [OF assms(2)] .
  have "seed_buffers m rnd raw (e0\<lparr>ec_seed := v, ec_xorpad := seed_pad v\<rparr>) t = Some (fst raw, snd raw, ec_data e0, t)"
    using False by (simp add: seed_buffers_def known_method_def)
  with assms(1) t obtain x where "e = e0\<lparr>ec_seed := v, ec_xorpad := seed_pad v, ec_key := unscrambleKey (put_u64 0 x (fst raw))\<rparr>"
    by (auto simp: setSeed_def getFromSeed_def Let_def)
  moreover have "length (unscrambleKey (put_u64 0 x (fst raw))) = 16"
    using assms(4) by (simp add: rnd_ok_def cipher.len_inv length_put_u64)
  ultimately show ?thesis using False assms(5) by (simp add: ec2b_inv_def)
qed

lemma struct_reach:
  assumes "ec2b_of_struct b u s = Some (e, s')" "mt_ok s" "0x81c \<le> length b"
  shows "ec2b_ok e"
proof -
  from assms(1) have "deriveXor ((blank u)\<lparr>ec_key := piece 8 16 b, ec_data := piece 28 2048 b\<rparr>) s = Some (e, s')"
    by (simp add: ec2b_of_struct_def split: if_splits)
  from deriveXor_ok [OF this assms(2)] assms(3) show ?thesis by (simp add: length_piece)
qed

lemma deriveXor_makes_ok:
  "deriveXor e0 s = Some (e, s') \<Longrightarrow> mt_ok s \<Longrightarrow> 16 \<le> length (ec_key e0) \<Longrightarrow> 2048 \<le> length (ec_data e0) \<Longrightarrow> ec2b_ok e"
  by (simp add: deriveXor_ok)

lemma ec2b_reach_inv: "ec2b_reach t e \<Longrightarrow> ec2b_inv t e"
proof (induction rule: ec2b_reach.induct)
  case (of_method s rnd raw m u e s')
  obtain k d where "deriveXor ((blank u)\<lparr>ec_key := k, ec_data := d\<rparr>) s = Some (e, s')"
      "length k = 16" "length d = 2048"
    using of_method(2-4) by (auto simp: ec2b_of_method_def rnd_ok_def split: prod.splits if_splits)
  from deriveXor_makes_ok [OF this(1) of_method(1)] this(2,3) show ?case by (simp add: ec2b_inv_def)
next
  case (of_buffer s b u e s')
  then show ?case by (auto simp: ec2b_inv_def ec2b_of_buffer_def intro: struct_reach split: if_splits)
next
  case (of_file s c u e s')
  then have "ec2b_ok e" by (intro struct_reach [of "take 0x81c (c @ replicate 0x81c 0)" u s e s']) (simp_all add: ec2b_of_file_def)
  then show ?case by (simp add: ec2b_inv_def)
next
  case (of_key_data s k d u e s')
  then have "ec2b_ok e" by (intro deriveXor_makes_ok [of _ s e s']) (auto simp: ec2b_of_key_data_def split: if_splits)
  then show ?case by (simp add: ec2b_inv_def)
next
  case (of_seed s rnd raw v m e s')
  then show ?case by (intro setSeed_reach [of v m rnd raw "blank 0" s e s']) (simp_all add: ec2b_of_seed_def blank_def)
next
  case (set_key t e0 s k e s')
  then have "ec_data (e0\<lparr>ec_key := k\<rparr>) = [] \<or> 2048 \<le> length (ec_data e0)" "16 \<le> length k"
    and d: "deriveXor (e0\<lparr>ec_key := k\<rparr>) s = Some (e, s')"
    using ec2b_inv_sizes(2) [of t e0] by (auto simp: setKey_def split: if_splits)
  then have "2048 \<le> length (ec_data e0)" using deriveXor_empty [of "e0\<lparr>ec_key := k\<rparr>" s] by auto
  with deriveXor_makes_ok [OF d set_key.hyps(2)] \<open>16 \<le> length k\<close> show ?case by (simp add: ec2b_inv_def)
next
  case (set_data t e0 s d e s')
  then have "ec_key (e0\<lparr>ec_data := d\<rparr>) = [] \<or> 16 \<le> length (ec_key e0)" "2048 \<le> length d"
    and x: "deriveXor (e0\<lparr>ec_data := d\<rparr>) s = Some (e, s')"
    using ec2b_inv_sizes(1) [of t e0] by (auto simp: setData_def split: if_splits)
  then have "16 \<le> length (ec_key e0)" using deriveXor_empty [of "e0\<lparr>ec_data := d\<rparr>" s] by auto
  with deriveXor_makes_ok [OF x set_data.hyps(2)] \<open>2048 \<le> length d\<close> show ?case by (simp add: ec2b_inv_def)
next
  case (set_seed t e0 s rnd raw v m e s')
  from setSeed_reach [OF this(5,2-4) ec2b_inv_sizes(2) [OF set_seed.IH]] show ?case .
qed (auto simp: ec2b_inv_def ec2b_of_buffer_def ec2b_of_file_def blank_def)

lemma ec2b_reach_ok: "ec2b_reach Sound e \<Longrightarrow> ec2b_ok e"
  using ec2b_reach_inv [of Sound e] by (simp add: ec2b_inv_def)

section \<open>The structure and back\<close>

lemma ec2b_struct_ok:
  assumes "ec2b_ok e"
  shows "ec2b_struct e = Some (store_le 4 (htobe32 0x45633262) @ store_le 4 (16 :: u32) @ take 16 (ec_key e) @
     store_le 4 (2048 :: u32) @ take 2048 (ec_data e))"
  using assms by (simp add: ec2b_struct_def c_str_read_long ec2b_ok_def)

lemma struct_pieces:
  assumes "length a = 4" "length b = 4" "length k = 16" "length c = 4" "length d = 2048"
    and buf: "buf = a @ b @ k @ c @ d"
  shows "piece 0 4 buf = a" "piece 4 4 buf = b" "piece 8 16 buf = k" "piece 24 4 buf = c"
    "piece 28 2048 buf = d" "length buf = 0x81c"
  using assms(1-5) unfolding buf piece_def by simp_all

lemma ec2b_struct_round_trip:
  assumes "ec2b_ok e" "mt_ok s"
  obtains b e' s' where "ec2b_struct e = Some b" "length b = 0x81c"
    "ec2b_of_buffer (Some b) u s = Some (e', s')" "ec_key e' = take 16 (ec_key e)"
    "ec_data e' = take 2048 (ec_data e)" "ec_seed e' = ec_seed e" "ec_xorpad e' = ec_xorpad e" "ec2b_ok e'"
proof -
  have len: "16 \<le> length (ec_key e)" "2048 \<le> length (ec_data e)" using assms(1) by (auto simp: ec2b_ok_def)
  let ?b = "store_le 4 (htobe32 0x45633262) @ store_le 4 (16 :: u32) @ take 16 (ec_key e) @
     store_le 4 (2048 :: u32) @ take 2048 (ec_data e)"
  have p: "piece 0 4 ?b = store_le 4 (htobe32 0x45633262)" "piece 4 4 ?b = store_le 4 (16 :: u32)"
    "piece 8 16 ?b = take 16 (ec_key e)" "piece 24 4 ?b = store_le 4 (2048 :: u32)"
    "piece 28 2048 ?b = take 2048 (ec_data e)" "length ?b = 0x81c"
    by (rule struct_pieces [OF _ _ _ _ _ refl]; use len in simp)+
  let ?e = "(blank u)\<lparr>ec_key := take 16 (ec_key e), ec_data := take 2048 (ec_data e)\<rparr>"
  obtain s' where d: "deriveXor ?e s = Some (?e\<lparr>ec_seed := derive_seed (ec_key ?e) (ec_data ?e),
      ec_xorpad := seed_pad (derive_seed (ec_key ?e) (ec_data ?e))\<rparr>, s')"
    using deriveXor_eq [of s ?e] assms(2) len by fastforce
  have seed: "derive_seed (ec_key ?e) (ec_data ?e) = ec_seed e"
    using assms(1) by (simp add: derive_seed_take ec2b_ok_def)
  have "ec2b_of_buffer (Some ?b) u s = deriveXor ?e s"
    unfolding ec2b_of_buffer_def ec2b_of_struct_def option.case p load_store_le by (simp add: load_store_le)
  then have e': "ec2b_of_buffer (Some ?b) u s = Some (?e\<lparr>ec_seed := ec_seed e, ec_xorpad := seed_pad (ec_seed e)\<rparr>, s')"
    unfolding d seed .
  show ?thesis
    by (rule that [OF ec2b_struct_ok [OF assms(1)] p(6) e'])
      (use assms(1) len seed in \<open>auto simp: ec2b_ok_def\<close>)
qed


section \<open>The xorpad that is drawn twice\<close>

lemma genrand_list_first:
  "genrand_list (Suc n) s = (r # rs, s2) \<Longrightarrow> fst (genrand64_int64 s) = r \<and> fst (genrand_list n (snd (genrand64_int64 s))) = rs"
  by (auto simp: genrand_list_Suc Let_def split: prod.splits)

lemma genrand_seeded_first:
  assumes "length (mt s) = NN"
  shows "fst (genrand64_int64 (init_genrand64 seed s)) = mt_output seed 0"
    and "fst (genrand_list n (snd (genrand64_int64 (init_genrand64 seed s)))) = map (\<lambda>i. mt_output seed (Suc i)) [0..<n]"
proof -
  obtain l s2 where l: "genrand_list (Suc n) (init_genrand64 seed s) = (l, s2)" by fastforce
  then have "l = map (mt_output seed) [0..<Suc n]" using genrand_list_seeded [OF assms, of "Suc n" seed] by simp
  then have "l = mt_output seed 0 # map (\<lambda>i. mt_output seed (Suc i)) [0..<n]"
    by (simp only: upt_conv_Cons [of 0 "Suc n"] list.map zero_less_Suc map_Suc_upt [symmetric] map_map o_def)
  with l show "fst (genrand64_int64 (init_genrand64 seed s)) = mt_output seed 0"
    "fst (genrand_list n (snd (genrand64_int64 (init_genrand64 seed s)))) = map (\<lambda>i. mt_output seed (Suc i)) [0..<n]"
    using genrand_list_first by auto
qed

lemma genXorpad_reroll:
  assumes "mt_ok s"
  shows "fst (genXorpadFromSeed seed (Some buf) True be s) =
    Some (words_of (map (\<lambda>i. if be then htobe64 (mt_output (mt_output seed 0) (Suc i)) else mt_output (mt_output seed 0) (Suc i))
           [0..<length buf div 8]) @ drop (8 * (length buf div 8)) buf)"
proof -
  have ok: "mt_ok (snd (genrand64_int64 (init_genrand64 seed s)))" by (simp add: mt_ok_genrand mt_ok_init assms)
  show ?thesis
    using genrand_seeded_first(2) [OF mt_ok_length [OF ok], of "length buf div 8" "mt_output seed 0"]
    by (simp add: genXorpadFromSeed_def Let_def split_def xorpad_loop_eq o_def
        genrand_seeded_first(1) [OF mt_ok_length [OF assms]])
qed

end
