(* ===== verification/Text_Codec.thy ===== *)
theory Text_Codec
  imports Yagips_Prelude
begin

unbundle bit_operations_syntax

text \<open>
  The text codecs of \<open>src/util.cpp\<close>: \<open>b64enc\<close>, \<open>b64dec\<close>, \<open>hexenc\<close> and \<open>hexdec\<close>. A \<open>std::string\<close> is the
  list of its bytes; the pair of the index \<open>i\<close> and the remaining size \<open>isz\<close> is the list of the bytes
  still ahead, as everywhere in this development, and the string \<open>ret\<close> is the list written so far.
  The labels \<open>idx0\<close> to \<open>idx3\<close> of a decoder become one function each. C's \<open>char\<close> is signed: a byte is
  sign-extended to an \<open>int\<close> before it is shifted.
\<close>

section \<open>Base 64, encoding\<close>

definition b64tbl :: bytes where
  "b64tbl = map of_char
     ''ABCDEFGHIJKLMNOPQRSTUVWXYZabcdefghijklmnopqrstuvwxyz0123456789+/''"

definition b64pad :: u8 where "b64pad = of_char (CHR ''='')"

definition sext :: "u8 \<Rightarrow> u32" where "sext b = signed b"

definition b64chr :: "u32 \<Rightarrow> u8" where
  "b64chr t = b64tbl ! unat (t AND 0x3f)"

fun b64enc_loop :: "bytes \<Rightarrow> bytes \<Rightarrow> bytes" where
  "b64enc_loop [] ret = ret"
| "b64enc_loop [a] ret =
     ret @ [b64chr (signed_drop_bit 2 (sext a)), b64chr (push_bit 4 (sext a)), b64pad, b64pad]"
| "b64enc_loop [a, b] ret =
     ret @ [b64chr (signed_drop_bit 2 (sext a)),
            b64chr (push_bit 4 (sext a) OR signed_drop_bit 4 (sext b)),
            b64chr (push_bit 2 (sext b)), b64pad]"
| "b64enc_loop (a # b # c # rest) ret =
     b64enc_loop rest
       (ret @ [b64chr (signed_drop_bit 2 (sext a)),
               b64chr (push_bit 4 (sext a) OR signed_drop_bit 4 (sext b)),
               b64chr (push_bit 2 (sext b) OR signed_drop_bit 6 (sext c)),
               b64chr (sext c)])"

definition b64enc :: "bytes \<Rightarrow> bytes" where
  "b64enc s = b64enc_loop s []"

section \<open>Base 64, decoding\<close>

definition b64itbl :: "int list" where
  "b64itbl =
    [-1, -1, -1, -1, -1, -1, -1, -1, -1, -1, -1, -1, -1, -1, -1, -1,
     -1, -1, -1, -1, -1, -1, -1, -1, -1, -1, -1, -1, -1, -1, -1, -1,
     -1, -1, -1, -1, -1, -1, -1, -1, -1, -1, -1, 62, -1, -1, -1, 63,
     52, 53, 54, 55, 56, 57, 58, 59, 60, 61, -1, -1, -1, -1, -1, -1,
     -1,  0,  1,  2,  3,  4,  5,  6,  7,  8,  9, 10, 11, 12, 13, 14,
     15, 16, 17, 18, 19, 20, 21, 22, 23, 24, 25, -1, -1, -1, -1, -1,
     -1, 26, 27, 28, 29, 30, 31, 32, 33, 34, 35, 36, 37, 38, 39, 40,
     41, 42, 43, 44, 45, 46, 47, 48, 49, 50, 51, -1, -1, -1, -1, -1]"

text \<open>
  What the code finds out about one character: above 128, the index 128 just past the table, outside
  the alphabet, or a value.
\<close>

datatype b64_class = High | PastTable | Foreign | Sextet u8

definition b64class :: "u8 \<Rightarrow> b64_class" where
  "b64class t =
     (if unat t > 128 then High
      else if unat t = 128 then PastTable
      else if b64itbl ! unat t = -1 then Foreign
      else Sextet (word_of_int (b64itbl ! unat t) AND 0x3f))"

text \<open>
  The decoder is at one of its four labels. \<^term>\<open>None\<close> is an access out of bounds: the table is one
  entry short, and at \<open>idx1\<close> the code does not look at the remaining size after it has skipped a
  foreign character, so that at the end of the string it reads the terminating 0, which is foreign
  too, and then past the string.
\<close>

datatype b64_label = Idx0 | Idx1 | Idx2 | Idx3

primrec b64dec_loop :: "bytes \<Rightarrow> b64_label \<Rightarrow> u8 \<Rightarrow> bytes \<Rightarrow> bytes option" where
  "b64dec_loop [] l e ret = (if l = Idx1 then None else Some ret)"
| "b64dec_loop (t # rest) l e ret =
     (case b64class t of
        PastTable \<Rightarrow> None
      | High \<Rightarrow> if rest = [] then Some ret else b64dec_loop rest l e ret
      | Foreign \<Rightarrow> if rest = [] \<and> l \<noteq> Idx1 then Some ret else b64dec_loop rest l e ret
      | Sextet v \<Rightarrow>
          (case l of
             Idx0 \<Rightarrow>
               let e = push_bit 2 v
               in if rest = [] then Some (ret @ [e]) else b64dec_loop rest Idx1 e ret
           | Idx1 \<Rightarrow>
               let ret = ret @ [e OR drop_bit 4 v]; e = push_bit 4 v
               in if rest = [] then Some (ret @ [e]) else b64dec_loop rest Idx2 e ret
           | Idx2 \<Rightarrow>
               let ret = ret @ [e OR drop_bit 2 v]; e = push_bit 6 v
               in if rest = [] then Some (ret @ [e]) else b64dec_loop rest Idx3 e ret
           | Idx3 \<Rightarrow> b64dec_loop rest Idx0 e (ret @ [e OR v])))"

definition b64dec :: "bytes \<Rightarrow> bytes option" where
  "b64dec s = b64dec_loop s Idx0 0 []"

section \<open>Hexadecimal\<close>

definition hexchr :: "u8 \<Rightarrow> u8" where
  "hexchr t = (if unat t + 0x30 > 0x39 then t - 10 + of_char (CHR ''a'') else t + of_char (CHR ''0''))"

fun hexenc_loop :: "bytes \<Rightarrow> bytes \<Rightarrow> bytes" where
  "hexenc_loop [] ret = ret"
| "hexenc_loop (b # rest) ret =
     hexenc_loop rest
       (ret @ [hexchr (ucast (signed_drop_bit 4 (sext b) AND 0xf)), hexchr (ucast (sext b AND 0xf))])"

definition hexenc :: "bytes \<Rightarrow> bytes" where
  "hexenc s = hexenc_loop s []"

text \<open>The value of a digit, \<^term>\<open>None\<close> where the code skips the character.\<close>

definition hexval :: "u8 \<Rightarrow> u8 option" where
  "hexval t =
     (if t < of_char (CHR ''0'') \<or> t > of_char (CHR ''f'') then None
      else let t = (if of_char (CHR ''a'') \<le> t then t - 0x20 else t)
           in if t > of_char (CHR ''F'') then None
              else let t = (if t > of_char (CHR ''9'') then t - 7 else t);
                       t = t - of_char (CHR ''0'')
                   in if t > 16 then None else Some t)"

datatype hex_label = HexIdx0 | HexIdx1

primrec hexdec_loop :: "bytes \<Rightarrow> hex_label \<Rightarrow> u8 \<Rightarrow> bytes \<Rightarrow> bytes" where
  "hexdec_loop [] l e ret = ret"
| "hexdec_loop (t # rest) l e ret =
     (case hexval t of
        None \<Rightarrow> hexdec_loop rest l e ret
      | Some v \<Rightarrow>
          (case l of
             HexIdx0 \<Rightarrow>
               let e = push_bit 4 v
               in if rest = [] then ret @ [e] else hexdec_loop rest HexIdx1 e ret
           | HexIdx1 \<Rightarrow> hexdec_loop rest HexIdx0 e (ret @ [e OR v])))"

definition hexdec :: "bytes \<Rightarrow> bytes" where
  "hexdec s = hexdec_loop s HexIdx0 0 []"

section \<open>Bits of the shifted bytes\<close>

lemma less_8_cases:
  assumes "n < LENGTH(8)"
  obtains "n = 0" | "n = Suc 0" | "n = 2" | "n = 3" | "n = 4" | "n = 5" | "n = 6" | "n = 7"
  using assms by fastforce

lemma bit_sext: "bit (sext b) n \<longleftrightarrow> n < 32 \<and> bit b (min 7 n)"
  by (auto simp: sext_def bit_simps min_def)

lemma bit_asr_sext: "bit (signed_drop_bit k (sext b)) n \<longleftrightarrow> n < 32 \<and> bit b (min 7 (k + n))"
  by (auto simp: bit_simps bit_sext min_def)

lemma masks: "(0x3f :: u32) = mask 6" "(0xf :: u32) = mask 4" "(3 :: u8) = mask 2" "(15 :: u8) = mask 4"
  by (simp_all add: mask_eq_exp_minus_1)

lemmas sext_bits = bit_push_bit_iff bit_drop_bit_eq bit_unsigned_iff bit_and_iff bit_or_iff
  bit_mask_iff bit_asr_sext bit_sext if_distrib [of "\<lambda>x. bit x _"]

section \<open>What a round trip through base 64 gives\<close>

text \<open>
  The reference: the string itself, but a byte from 128 on sets the low bits of the byte before it in
  its group of three, because the sign bits of the shifted \<open>char\<close> reach into the shared sextet.
\<close>

definition smear :: "nat \<Rightarrow> u8 \<Rightarrow> u8 \<Rightarrow> u8" where
  "smear k a b = (if bit b 7 then a OR mask k else a)"

fun b64_smeared :: "bytes \<Rightarrow> bytes" where
  "b64_smeared (a # b # c # rest) = smear 2 a b # smear 4 b c # c # b64_smeared rest"
| "b64_smeared [a, b] = [smear 2 a b, b]"
| "b64_smeared s = s"

lemma b64class_chr_table:
  "list_all (\<lambda>n. b64class (b64tbl ! n) = Sextet (of_nat n)) [0..<64]"
  by code_simp

lemma b64class_pad [codec_simps]: "b64class b64pad = Foreign"
  by code_simp

lemma sextet_lt: "unat (t AND 0x3f :: u32) < 64"
proof -
  have "unat (t AND 0x3f) = take_bit 6 (unat t)"
    unfolding masks take_bit_eq_mask [symmetric] by (rule unsigned_take_bit_eq)
  then show ?thesis using take_bit_nat_less_exp [of 6 "unat t"] by simp
qed

lemma b64class_chr [codec_simps]: "b64class (b64chr t) = Sextet (ucast (t AND 0x3f))"
proof -
  have "b64class (b64tbl ! unat (t AND 0x3f)) = Sextet (of_nat (unat (t AND 0x3f)))"
    using b64class_chr_table sextet_lt [of t] by (simp add: list_all_iff)
  then show ?thesis by (simp only: b64chr_def of_nat_unat)
qed

lemma b64chr_in_alphabet: "b64chr t \<in> set b64tbl"
proof -
  have "length b64tbl = 64" by code_simp
  then show ?thesis using sextet_lt [of t] by (simp only: b64chr_def nth_mem)
qed

lemma b64_byte0 [codec_simps]:
  "push_bit 2 (ucast (signed_drop_bit 2 (sext a) AND 0x3f)) OR
     drop_bit 4 (ucast ((push_bit 4 (sext a) OR signed_drop_bit 4 (sext b)) AND 0x3f)) = smear 2 a b"
  unfolding masks smear_def by (rule bit_word_eqI, erule less_8_cases) (simp_all add: sext_bits)

lemma b64_byte0_last [codec_simps]:
  "push_bit 2 (ucast (signed_drop_bit 2 (sext a) AND 0x3f)) OR
     drop_bit 4 (ucast (push_bit 4 (sext a) AND 0x3f)) = a"
  unfolding masks by (rule bit_word_eqI, erule less_8_cases) (simp_all add: sext_bits)

lemma b64_byte1 [codec_simps]:
  "push_bit 4 (ucast ((push_bit 4 (sext a) OR signed_drop_bit 4 (sext b)) AND 0x3f)) OR
     drop_bit 2 (ucast ((push_bit 2 (sext b) OR signed_drop_bit 6 (sext c)) AND 0x3f)) = smear 4 b c"
  unfolding masks smear_def by (rule bit_word_eqI, erule less_8_cases) (simp_all add: sext_bits)

lemma b64_byte1_last [codec_simps]:
  "push_bit 4 (ucast ((push_bit 4 (sext a) OR signed_drop_bit 4 (sext b)) AND 0x3f)) OR
     drop_bit 2 (ucast (push_bit 2 (sext b) AND 0x3f)) = b"
  unfolding masks by (rule bit_word_eqI, erule less_8_cases) (simp_all add: sext_bits)

lemma b64_byte2 [codec_simps]:
  "push_bit 6 (ucast ((push_bit 2 (sext b) OR signed_drop_bit 6 (sext c)) AND 0x3f)) OR
     ucast (sext c AND 0x3f) = c"
  unfolding masks by (rule bit_word_eqI, erule less_8_cases) (simp_all add: sext_bits)

lemma b64enc_loop_append: "b64enc_loop s ret = ret @ b64enc_loop s []"
proof (induction s arbitrary: ret rule: b64_smeared.induct)
  case (1 a b c rest)
  show ?case unfolding b64enc_loop.simps 1 [of "ret @ _"] 1 [of "[] @ _"] by simp
qed simp_all

lemma b64enc_loop_group:
  "b64enc_loop (a # b # c # rest) [] =
     b64chr (signed_drop_bit 2 (sext a)) # b64chr (push_bit 4 (sext a) OR signed_drop_bit 4 (sext b)) #
     b64chr (push_bit 2 (sext b) OR signed_drop_bit 6 (sext c)) # b64chr (sext c) # b64enc_loop rest []"
  by (subst b64enc_loop.simps, subst b64enc_loop_append) simp

lemma b64dec_enc_loop: "b64dec_loop (b64enc_loop s []) Idx0 e ret = Some (ret @ b64_smeared s)"
proof (induction s arbitrary: e ret rule: b64_smeared.induct)
  case (1 a b c rest)
  then show ?case by (simp add: codec_simps b64enc_loop_group del: b64enc_loop.simps(4))
qed (simp_all add: codec_simps)

lemma b64_round_trip: "b64dec (b64enc s) = Some (b64_smeared s)"
  by (simp add: b64dec_def b64enc_def b64dec_enc_loop)

text \<open>Encoding what was decoded gives the same text: the smeared bits are the ones the encoder sets.\<close>

lemma b64chr_cong:
  assumes "\<And>n. n < 6 \<Longrightarrow> bit t n = bit u n"
  shows "b64chr t = b64chr u"
proof -
  have "t AND 0x3f = u AND 0x3f"
    using assms unfolding masks by (intro bit_word_eqI) (auto simp: bit_and_iff bit_mask_iff)
  then show ?thesis by (simp only: b64chr_def)
qed

lemma bit_smear: "bit (smear k a b) n \<longleftrightarrow> bit a n \<or> (bit b 7 \<and> n < k \<and> n < 8)"
  by (auto simp: smear_def bit_simps dest: bit_imp_le_length)

lemma less_6_cases:
  assumes "n < (6::nat)"
  obtains "n = 0" | "n = Suc 0" | "n = 2" | "n = 3" | "n = 4" | "n = 5"
  using assms by fastforce

lemma b64_sextets_smeared:
  "b64chr (signed_drop_bit 2 (sext (smear 2 a b))) = b64chr (signed_drop_bit 2 (sext a))"
  "b64chr (push_bit 4 (sext (smear 2 a b)) OR signed_drop_bit 4 (sext (smear 4 b c))) =
     b64chr (push_bit 4 (sext a) OR signed_drop_bit 4 (sext b))"
  "b64chr (push_bit 4 (sext (smear 2 a b)) OR signed_drop_bit 4 (sext b)) =
     b64chr (push_bit 4 (sext a) OR signed_drop_bit 4 (sext b))"
  "b64chr (push_bit 2 (sext (smear 4 b c)) OR signed_drop_bit 6 (sext c)) =
     b64chr (push_bit 2 (sext b) OR signed_drop_bit 6 (sext c))"
  by (rule b64chr_cong, erule less_6_cases; simp add: sext_bits bit_smear, blast?)+

lemma b64enc_smeared: "b64enc (b64_smeared s) = b64enc s"
  unfolding b64enc_def
proof (induction s rule: b64_smeared.induct)
  case (1 a b c rest)
  then show ?case by (simp add: b64enc_loop_group b64_sextets_smeared del: b64enc_loop.simps(4))
qed (simp_all add: b64_sextets_smeared)
lemma smear_7bit: "\<not> bit b 7 \<Longrightarrow> smear k a b = a"
  by (simp add: smear_def)

lemma b64_smeared_7bit: "\<forall>b \<in> set s. \<not> bit b 7 \<Longrightarrow> b64_smeared s = s"
  by (induction s rule: b64_smeared.induct) (simp_all add: smear_7bit)

lemma b64_alphabet: "set (b64enc s) \<subseteq> set b64tbl \<union> {b64pad}"
proof -
  have "set (b64enc_loop s []) \<subseteq> set b64tbl \<union> {b64pad}"
    by (induction s rule: b64_smeared.induct)
      (simp_all add: b64chr_in_alphabet subset_insertI2 b64enc_loop_group del: b64enc_loop.simps(4))
  then show ?thesis by (simp add: b64enc_def)
qed

lemma b64_length: "length (b64enc s) = 4 * ((length s + 2) div 3)"
proof -
  have "length (b64enc_loop s []) = 4 * ((length s + 2) div 3)"
  proof (induction s rule: b64_smeared.induct)
    case (1 a b c rest)
    have "(length (a # b # c # rest) + 2) div 3 = Suc ((length rest + 2) div 3)"
      using div_add_self2 [of 3 "length rest + 2"] by (simp add: ac_simps)
    with 1 show ?case by (simp add: b64enc_loop_group del: b64enc_loop.simps(4))
  qed simp_all
  then show ?thesis by (simp add: b64enc_def)
qed

section \<open>What a round trip through hexadecimal gives\<close>

lemma hexval_chr_table: "list_all (\<lambda>n. hexval (hexchr (of_nat n)) = Some (of_nat n)) [0..<16]"
  by code_simp

lemma unat_lt_u8: "unat (b :: u8) < 256"
  using unsigned_less [of b, where ?'a = nat] by simp

lemma hexval_chr [codec_simps]: "unat v < 16 \<Longrightarrow> hexval (hexchr v) = Some v"
proof -
  assume "unat v < 16"
  then have "hexval (hexchr (of_nat (unat v))) = Some (of_nat (unat v))"
    using hexval_chr_table by (simp add: list_all_iff)
  then show ?thesis by (simp add: of_nat_unat)
qed

lemma nibble_high: "(ucast (signed_drop_bit 4 (sext b) AND 0xf) :: u8) = drop_bit 4 b"
  unfolding masks by (rule bit_word_eqI, erule less_8_cases) (auto simp add: sext_bits dest: bit_imp_le_length)

lemma nibble_low: "(ucast (sext b AND 0xf) :: u8) = b AND mask 4"
  unfolding masks by (rule bit_word_eqI, erule less_8_cases) (simp_all add: sext_bits)

lemma nibbles: "push_bit 4 (drop_bit 4 b) OR (b AND mask 4) = (b :: u8)"
  by (rule bit_word_eqI, erule less_8_cases) (simp_all add: sext_bits)


lemma nibble_lt: "unat (drop_bit 4 b :: u8) < 16" "unat (b AND mask 4 :: u8) < 16"
proof -
  have "unat (b AND mask 4 :: u8) = take_bit 4 (unat b)"
    unfolding take_bit_eq_mask [symmetric] by (rule unsigned_take_bit_eq)
  then show "unat (b AND mask 4 :: u8) < 16" using take_bit_nat_less_exp [of 4 "unat b"] by simp
  show "unat (drop_bit 4 b :: u8) < 16"
    unfolding unat_drop_bit_eq drop_bit_eq_div [where ?'a = nat]
    using unat_lt_u8 [of b] by (intro less_mult_imp_div_less) simp
qed

lemma hexenc_loop_append: "hexenc_loop s ret = ret @ hexenc_loop s []"
proof (induction s arbitrary: ret)
  case (Cons b s)
  show ?case unfolding hexenc_loop.simps Cons [of "ret @ _"] Cons [of "[] @ _"] by simp
qed simp

lemma hexdec_enc_loop: "hexdec_loop (hexenc_loop s []) HexIdx0 e ret = ret @ s"
proof (induction s arbitrary: e ret)
  case (Cons b s)
  have "hexenc_loop (b # s) [] = hexchr (drop_bit 4 b) # hexchr (b AND mask 4) # hexenc_loop s []"
    by (simp add: nibble_high nibble_low) (subst hexenc_loop_append, simp)
  with Cons show ?case by (simp add: codec_simps nibble_lt nibbles)
qed simp

lemma hex_round_trip: "hexdec (hexenc s) = s"
  by (simp add: hexdec_def hexenc_def hexdec_enc_loop)

lemma hexenc_length: "length (hexenc s) = 2 * length s"
proof -
  have "length (hexenc_loop s ret) = length ret + 2 * length s" for ret
    by (induction s ret rule: hexenc_loop.induct) simp_all
  then show ?thesis by (simp add: hexenc_def)
qed

lemma hexdec_loop_length:
  "2 * length (hexdec_loop s l e ret) \<le> 2 * length ret + length s + (if l = HexIdx0 then 1 else 2)"
proof (induction s arbitrary: l e ret)
  case (Cons t s)
  show ?case
  proof (cases "hexval t")
    case None
    then show ?thesis using Cons [of l e ret] by simp
  next
    case (Some v)
    then show ?thesis
      using Cons [of HexIdx1 "push_bit 4 v" ret] Cons [of HexIdx0 e "ret @ [e OR v]"] by (cases l) (auto simp: Let_def)
  qed
qed simp

lemma hexdec_length: "length (hexdec s) \<le> (length s + 1) div 2"
  using hexdec_loop_length [of s HexIdx0 0 "[]"] by (simp add: hexdec_def)

section \<open>When base-64 decoding leaves its buffers\<close>

definition is_sextet :: "u8 \<Rightarrow> bool" where
  "is_sextet t \<longleftrightarrow> (case b64class t of Sextet v \<Rightarrow> True | _ \<Rightarrow> False)"

fun label_index :: "b64_label \<Rightarrow> nat" where
  "label_index Idx0 = 0" | "label_index Idx1 = 1" | "label_index Idx2 = 2" | "label_index Idx3 = 3"

lemma b64class_7bit: "unat t < 128 \<Longrightarrow> b64class t = Foreign \<or> (\<exists>v. b64class t = Sextet v)"
  by (auto simp: b64class_def)

lemma label_cases_mod: "label_index l mod 4 = Suc 0 \<longleftrightarrow> l = Idx1"
  by (cases l) auto

lemma b64dec_loop_None:
  assumes "\<forall>t \<in> set s. unat t < 128"
  shows "b64dec_loop s l e ret = None \<longleftrightarrow>
    (label_index l + length (filter is_sextet s)) mod 4 = 1 \<and> (s \<noteq> [] \<longrightarrow> \<not> is_sextet (last s))"
  using assms
proof (induction s arbitrary: l e ret)
  case Nil
  show ?case by (simp add: label_cases_mod)
next
  case (Cons t s)
  from Cons.prems have s: "\<forall>t \<in> set s. unat t < 128" and t: "unat t < 128" by auto
  note IH = Cons.IH [OF s]
  consider "b64class t = Foreign" "\<not> is_sextet t" | v where "b64class t = Sextet v" "is_sextet t"
    using b64class_7bit [OF t] by (auto simp: is_sextet_def)
  then show ?case
  proof cases
    case 1
    then show ?thesis by (cases "s = []") (auto simp: IH label_cases_mod)
  next
    case 2
    show ?thesis
    proof (cases "s = []")
      case True
      with 2 show ?thesis by (cases l) (auto simp: Let_def)
    next
      case False
      with 2 show ?thesis by (cases l) (simp_all add: Let_def IH)
    qed
  qed
qed

end
