(* ===== verification/Mt_Accesses.thy ===== *)
theory Mt_Accesses
  imports Mt19937 "HOL-Library.Monad_Syntax"
begin

unbundle bit_operations_syntax

text \<open>
  \<open>src/mt19937-64.c\<close> once more, with every access to an array checked: an index outside the array is
  \<^term>\<open>None\<close>. The indices are computed as in the code, as numbers with a sign. The lemmas show that no access
  fails, and that the operations of theory \<open>Mt19937\<close>, which do not check, compute the same.
\<close>

section \<open>Checked accesses\<close>

definition rd :: "int \<Rightarrow> 'a list \<Rightarrow> 'a option" where
  "rd i m = (if 0 \<le> i \<and> i < int (length m) then Some (m ! nat i) else None)"

definition wr :: "int \<Rightarrow> 'a \<Rightarrow> 'a list \<Rightarrow> 'a list option" where
  "wr i v m = (if 0 \<le> i \<and> i < int (length m) then Some (m[nat i := v]) else None)"

primrec loop_over :: "('i \<Rightarrow> 's \<Rightarrow> 's option) \<Rightarrow> 'i list \<Rightarrow> 's \<Rightarrow> 's option" where
  "loop_over f [] s = Some s"
| "loop_over f (i # is) s = do { s' \<leftarrow> f i s; loop_over f is s' }"

lemma rd_in: "i < length m \<Longrightarrow> rd (int i) m = Some (m ! i)"
  by (simp add: rd_def)

lemma wr_in: "i < length m \<Longrightarrow> wr (int i) v m = Some (m[i := v])"
  by (simp add: wr_def)

lemma rd_before: "1 \<le> i \<Longrightarrow> i \<le> length m \<Longrightarrow> rd (int i - 1) m = Some (m ! (i - 1))"
  using rd_in [of "i - 1" m] by (simp add: of_nat_diff)

lemma loop_over_fold:
  assumes "\<And>i m. i \<in> set is \<Longrightarrow> length m = n \<Longrightarrow> f i m = Some (g i m)" "\<And>i m. length (g i m) = length m" "length m = n"
  shows "loop_over f is m = Some (fold g is m)"
  using assms by (induction "is" arbitrary: m) auto

section \<open>Seeding\<close>

definition checked_seed_step :: "nat \<Rightarrow> u64 list \<Rightarrow> u64 list option" where
  "checked_seed_step i m = do {
     p \<leftarrow> rd (int i - 1) m;
     wr (int i) (6364136223846793005 * (p XOR drop_bit 62 p) + of_nat i) m
   }"

definition checked_init :: "u64 \<Rightarrow> mt_state \<Rightarrow> mt_state option" where
  "checked_init seed s = do {
     m \<leftarrow> wr 0 seed (mt s);
     m \<leftarrow> loop_over checked_seed_step [1..<NN] m;
     Some \<lparr>mt = m, mti = NN\<rparr>
   }"

definition checked_wrap :: "nat \<Rightarrow> u64 list \<Rightarrow> (nat \<times> u64 list) option" where
  "checked_wrap i m =
     (if NN \<le> i then do { x \<leftarrow> rd (int NN - 1) m; m \<leftarrow> wr 0 x m; Some (1, m) } else Some (i, m))"

fun checked_loop1 :: "nat \<Rightarrow> u64 list \<Rightarrow> nat \<Rightarrow> nat \<Rightarrow> u64 list \<Rightarrow> (nat \<times> u64 list) option" where
  "checked_loop1 0 key i j m = Some (i, m)"
| "checked_loop1 (Suc k) key i j m = do {
     x \<leftarrow> rd (int i) m;
     p \<leftarrow> rd (int i - 1) m;
     w \<leftarrow> rd (int j) key;
     m \<leftarrow> wr (int i) ((x XOR ((p XOR drop_bit 62 p) * 3935559000370003845)) + w + of_nat j) m;
     (i, m) \<leftarrow> checked_wrap (i + 1) m;
     checked_loop1 k key i (if length key \<le> j + 1 then 0 else j + 1) m
   }"

fun checked_loop2 :: "nat \<Rightarrow> nat \<Rightarrow> u64 list \<Rightarrow> u64 list option" where
  "checked_loop2 0 i m = Some m"
| "checked_loop2 (Suc k) i m = do {
     x \<leftarrow> rd (int i) m;
     p \<leftarrow> rd (int i - 1) m;
     m \<leftarrow> wr (int i) ((x XOR ((p XOR drop_bit 62 p) * 2862933555777941757)) - of_nat i) m;
     (i, m) \<leftarrow> checked_wrap (i + 1) m;
     checked_loop2 k i m
   }"

definition checked_init_by_array :: "u64 list \<Rightarrow> mt_state \<Rightarrow> mt_state option" where
  "checked_init_by_array key s = do {
     s \<leftarrow> checked_init 19650218 s;
     (i, m) \<leftarrow> checked_loop1 (max NN (length key)) key 1 0 (mt s);
     m \<leftarrow> checked_loop2 (NN - 1) i m;
     m \<leftarrow> wr 0 (push_bit 63 1) m;
     Some (s\<lparr>mt := m\<rparr>)
   }"

section \<open>The next number\<close>

definition checked_regen_at :: "int \<Rightarrow> int \<Rightarrow> int \<Rightarrow> u64 list \<Rightarrow> u64 list option" where
  "checked_regen_at i j k m = do {
     a \<leftarrow> rd i m;
     b \<leftarrow> rd j m;
     let x = (a AND UM) OR (b AND LM);
     c \<leftarrow> rd k m;
     g \<leftarrow> rd (int (unat (x AND 1))) mag01;
     wr i (c XOR drop_bit 1 x XOR g) m
   }"

definition checked_regen :: "u64 list \<Rightarrow> u64 list option" where
  "checked_regen m = do {
     m \<leftarrow> loop_over (\<lambda>i. checked_regen_at (int i) (int i + 1) (int i + int MM)) [0..<NN - MM] m;
     m \<leftarrow> loop_over (\<lambda>i. checked_regen_at (int i) (int i + 1) (int i + (int MM - int NN))) [NN - MM..<NN - 1] m;
     checked_regen_at (int NN - 1) 0 (int MM - 1) m
   }"

definition checked_genrand :: "mt_state \<Rightarrow> (u64 \<times> mt_state) option" where
  "checked_genrand s = do {
     s \<leftarrow> (if NN \<le> mti s
          then do {
            s \<leftarrow> (if mti s = NN + 1 then checked_init 5489 s else Some s);
            m \<leftarrow> checked_regen (mt s);
            Some (s\<lparr>mt := m, mti := 0\<rparr>)
          }
          else Some s);
     x \<leftarrow> rd (int (mti s)) (mt s);
     Some (temper x, s\<lparr>mti := mti s + 1\<rparr>)
   }"

section \<open>No access fails\<close>

lemma checked_seed_step_eq: "1 \<le> i \<Longrightarrow> i < NN \<Longrightarrow> length m = NN \<Longrightarrow> checked_seed_step i m = Some (seed_step i m)"
  by (simp add: checked_seed_step_def seed_step_def rd_before wr_in mix62_def)

lemma checked_init_eq:
  assumes "mt_ok s"
  shows "checked_init seed s = Some (init_genrand64 seed s)"
proof -
  have len: "length (mt s) = NN" using assms by (simp add: mt_ok_def)
  then have "wr 0 seed (mt s) = Some ((mt s)[0 := seed])" using wr_in [of 0 "mt s" seed] by (simp add: NN_def)
  moreover have "loop_over checked_seed_step [1..<NN] ((mt s)[0 := seed]) = Some (fold seed_step [1..<NN] ((mt s)[0 := seed]))"
    by (rule loop_over_fold [where n = NN]) (simp_all add: checked_seed_step_eq len)
  ultimately show ?thesis by (simp add: checked_init_def init_genrand64_def)
qed

lemma checked_wrap_eq: "length m = NN \<Longrightarrow> checked_wrap i m = Some (array_wrap i m)"
  using rd_before [of NN m] wr_in [of 0 m] by (simp add: checked_wrap_def array_wrap_def NN_def)

lemma checked_loop1_eq:
  "1 \<le> i \<Longrightarrow> i < NN \<Longrightarrow> length m = NN \<Longrightarrow> checked_loop1 k key i j m = array_loop1 k key i j m"
proof (induction k arbitrary: i j m)
  case (Suc k)
  show ?case
  proof (cases "length key \<le> j")
    case True
    then have "rd (int j) key = None" by (simp add: rd_def)
    with True Suc.prems show ?thesis by (simp add: rd_in rd_before)
  next
    case False
    let ?m = "m[i := (m ! i XOR (mix62 (m ! (i - 1)) * 3935559000370003845)) + key ! j + of_nat j]"
    obtain i1 m1 where w: "array_wrap (i + 1) ?m = (i1, m1)" by fastforce
    have "1 \<le> i1" "i1 < NN" "length m1 = NN"
      using array_wrap_index [OF w Suc.prems(2)] length_array_wrap [OF w] Suc.prems(3) by simp_all
    note IH = Suc.IH [OF this]
    have "checked_wrap (i + 1) ?m = Some (i1, m1)" using checked_wrap_eq [of ?m "i + 1"] w Suc.prems(3) by simp
    then show ?thesis
      using Suc.prems False w IH by (simp add: rd_in rd_before wr_in mix62_def)
  qed
qed simp

lemma checked_loop2_eq:
  "1 \<le> i \<Longrightarrow> i < NN \<Longrightarrow> length m = NN \<Longrightarrow> checked_loop2 k i m = Some (array_loop2 k i m)"
proof (induction k arbitrary: i m)
  case (Suc k)
  let ?m = "m[i := (m ! i XOR (mix62 (m ! (i - 1)) * 2862933555777941757)) - of_nat i]"
  obtain i1 m1 where w: "array_wrap (i + 1) ?m = (i1, m1)" by fastforce
  have "1 \<le> i1" "i1 < NN" "length m1 = NN"
    using array_wrap_index [OF w Suc.prems(2)] length_array_wrap [OF w] Suc.prems(3) by simp_all
  note IH = Suc.IH [OF this]
  have "checked_wrap (i + 1) ?m = Some (i1, m1)" using checked_wrap_eq [of ?m "i + 1"] w Suc.prems(3) by simp
  then show ?case
    using Suc.prems w IH by (simp add: rd_in rd_before wr_in mix62_def)
qed simp

lemma checked_init_by_array_eq:
  assumes "mt_ok s"
  shows "checked_init_by_array key s = init_by_array64 key s"
proof -
  let ?s = "init_genrand64 19650218 s"
  have len: "length (mt ?s) = NN" using mt_ok_init [OF assms] by (simp add: mt_ok_def)
  have l1: "checked_loop1 n key 1 0 (mt ?s) = array_loop1 n key 1 0 (mt ?s)" for n
    by (rule checked_loop1_eq) (simp_all add: len NN_def)
  show ?thesis
  proof (cases "array_loop1 (max NN (length key)) key 1 0 (mt ?s)")
    case None
    then show ?thesis
      by (simp add: checked_init_by_array_def init_by_array64_def checked_init_eq [OF assms] l1 Let_def del: One_nat_def)
  next
    case (Some r)
    obtain i m where r: "r = (i, m)" by (cases r)
    have "length m = NN" "1 \<le> i" "i < NN"
      using array_loop1_ok [OF Some [unfolded r]] len by (simp_all add: NN_def)
    note l2 = checked_loop2_eq [OF this(2,3,1), of "NN - 1"]
    have "wr 0 v (array_loop2 (NN - 1) i m) = Some ((array_loop2 (NN - 1) i m)[0 := v])" for v
      using wr_in [of 0 "array_loop2 (NN - 1) i m" v] \<open>length m = NN\<close> by (simp add: NN_def)
    then show ?thesis
      by (simp add: checked_init_by_array_def init_by_array64_def checked_init_eq [OF assms] l1 Some r l2 Let_def del: One_nat_def)
  qed
qed

lemma checked_regen_at_eq:
  assumes "i < length m" "j < length m" "k < length m"
  shows "checked_regen_at (int i) (int j) (int k) m = Some (regen_at i j k m)"
proof -
  have "rd (int (unat (x AND 1))) mag01 = Some (mag01 ! unat (x AND 1))" for x :: u64
    using rd_in [of "unat (x AND 1)" mag01] by (simp add: mag01_def and_one_eq unat_mod)
  then show ?thesis
    using assms by (simp add: checked_regen_at_def regen_at_def rd_in wr_in Let_def)
qed

lemma checked_regen_eq:
  assumes "length m = NN"
  shows "checked_regen m = Some (regen m)"
proof -
  have 1: "loop_over (\<lambda>i. checked_regen_at (int i) (int i + 1) (int i + int MM)) [0..<NN - MM] m
      = Some (fold (\<lambda>i. regen_at i (i + 1) (i + MM)) [0..<NN - MM] m)"
  proof (rule loop_over_fold [where n = NN])
    fix i and m :: "u64 list" assume "i \<in> set [0..<NN - MM]" "length m = NN"
    then have "i < NN - MM" "length m = NN" unfolding set_upt atLeastLessThan_iff by blast+
    then show "checked_regen_at (int i) (int i + 1) (int i + int MM) m = Some (regen_at i (i + 1) (i + MM) m)"
      using checked_regen_at_eq [of i m "i + 1" "i + MM"] by (simp add: mt_consts add.commute)
  qed (simp_all add: assms)
  have 2: "loop_over (\<lambda>i. checked_regen_at (int i) (int i + 1) (int i + (int MM - int NN))) [NN - MM..<NN - 1] m1
      = Some (fold (\<lambda>i. regen_at i (i + 1) (i - (NN - MM))) [NN - MM..<NN - 1] m1)" if "length m1 = NN" for m1
  proof (rule loop_over_fold [where n = NN])
    fix i and m :: "u64 list" assume "i \<in> set [NN - MM..<NN - 1]" "length m = NN"
    then have i: "NN - MM \<le> i" "i < NN - 1" "length m = NN" unfolding set_upt atLeastLessThan_iff by blast+
    then have "int (i - (NN - MM)) = int i + (int MM - int NN)" by (simp add: mt_consts of_nat_diff)
    with i show "checked_regen_at (int i) (int i + 1) (int i + (int MM - int NN)) m = Some (regen_at i (i + 1) (i - (NN - MM)) m)"
      using checked_regen_at_eq [of i m "i + 1" "i - (NN - MM)"] by (simp add: mt_consts add.commute)
  qed (simp_all add: that)
  have 3: "checked_regen_at (int NN - 1) 0 (int MM - 1) m2 = Some (regen_at (NN - 1) 0 (MM - 1) m2)" if "length m2 = NN" for m2
    using checked_regen_at_eq [of "NN - 1" m2 0 "MM - 1"] that by (simp add: mt_consts)
  show ?thesis
    by (simp add: checked_regen_def regen_def 1 2 3 length_fold_update assms del: One_nat_def)
qed

lemma checked_genrand_eq:
  assumes "mt_ok s"
  shows "checked_genrand s = Some (genrand64_int64 s)"
proof -
  have len: "length (mt s) = NN" using assms by (simp add: mt_ok_def)
  have init: "checked_init 5489 s = Some (init_genrand64 5489 s)" "length (mt (init_genrand64 5489 s)) = NN"
    using checked_init_eq [OF assms] mt_ok_init [OF assms] by (simp_all add: mt_ok_def)
  have first: "rd 0 (regen m) = Some (regen m ! 0)" if "length m = NN" for m
    using rd_in [of 0 "regen m"] that by (simp add: NN_def)
  show ?thesis
    by (auto simp: checked_genrand_def genrand64_int64_def init checked_regen_eq len first rd_in not_le Let_def)
qed

end
