(* ===== verification/Crypto_Properties.thy ===== *)
theory Crypto_Properties
  imports Ec2b_Props Text_Codec Mt_Accesses
begin

unbundle bit_operations_syntax

text \<open>
  The properties of the generators, of the text codecs and of the seed container: theories \<open>Mt19937\<close>,
  \<open>Xoshiro\<close>, \<open>Text_Codec\<close>, \<open>Ec2b_Cipher\<close> and \<open>Ec2b\<close>.
\<close>

section \<open>The seed container\<close>

text \<open>
  Whatever an object holds, \<open>setSeed\<close> with any method the header names fails an assertion exactly
  when there is no key and data to keep or when the xoshiro generator would start from zero; otherwise
  it returns an object whose key and data derive that very seed again, with the xorpad of the seed.
\<close>

theorem set_seed_consistent:
  assumes "mt_ok s" "known_method m" "rnd_ok rnd"
  shows "let refused = (m = SEED_FROM_OBJECT \<and> (length (ec_key obj) < 16 \<or> length (ec_data obj) < 2048)
                        \<or> m = SEED_FROM_SEED_XOR \<and> v = 0)
         in case setSeed v m rnd raw obj s of
              None \<Rightarrow> refused
            | Some (obj', s') \<Rightarrow> \<not> refused \<and> ec_seed obj' = v
                \<and> derive_seed (ec_key obj') (ec_data obj') = v \<and> ec_xorpad obj' = seed_pad v \<and> mt_ok s'"
proof (cases "method_refused m (obj\<lparr>ec_seed := v\<rparr>)")
  case True
  then show ?thesis using setSeed_refused [OF True, of rnd raw s] by (simp add: method_refused_def Let_def)
next
  case False
  then obtain e1 s1 where "setSeed v m rnd raw obj s = Some (e1, s1)" "ec2b_ok e1" "ec_seed e1 = v" "mt_ok s1"
    by (rule setSeed_ok [OF assms(2,3,1), where raw = raw]) auto
  with False show ?thesis by (simp add: method_refused_def ec2b_ok_def Let_def)
qed

theorem set_seed_consistent_witness:
  "\<exists>obj' s'. setSeed 7 SEED_FROM_SEED (replicate 16 0, replicate 2048 0) ([], []) (blank 0) mt_boot = Some (obj', s')
     \<and> derive_seed (ec_key obj') (ec_data obj') = 7"
proof -
  have "known_method SEED_FROM_SEED" "rnd_ok (replicate 16 0, replicate 2048 0)"
    by (simp_all add: known_method_def rnd_ok_def)
  from set_seed_consistent [OF mt_ok_boot this, of "blank 0" 7 "([], [])"] show ?thesis
    by (simp add: Let_def seed_methods blank_def split: option.splits prod.splits)
qed

text \<open>
  \<open>scrambleKey\<close> and \<open>unscrambleKey\<close> are inverse to each other on every 16-byte key: the table-driven
  rounds, each written out layer by layer in the code, undo one another in reverse order.
\<close>

theorem scramble_round_trip:
  assumes "length k = 16"
  shows "unscrambleKey (scrambleKey k) = k \<and> scrambleKey (unscrambleKey k) = k
    \<and> length (scrambleKey k) = 16 \<and> length (unscrambleKey k) = 16"
  using assms by (simp add: cipher.len cipher.len_inv cipher.inv_left cipher.inv_right)

theorem scramble_round_trip_witness: "unscrambleKey (scrambleKey (replicate 16 7)) = replicate 16 7"
  using scramble_round_trip [of "replicate 16 7"] by simp

text \<open>
  C38. What every object holds that constructors and any sequence of setters give, whatever their arguments and
  whatever state the shared generator was in at each call. An object made of a null pointer or of a file that
  cannot be opened has no key, data and xorpad. An object whose last call was any other constructor, \<open>setKey\<close>,
  \<open>setData\<close> or a seeding with a method that the header names has at least 16 bytes of key and 2048 of data, the
  seed that they derive, and the 4096-byte xorpad of that seed; this also holds when the object was empty or
  garbled before. After a seeding with any other method only the xorpad goes with the seed.
\<close>

theorem ec2b_objects_consistent:
  assumes "ec2b_reach kind obj"
  shows "case kind of
      Empty \<Rightarrow> ec_key obj = [] \<and> ec_data obj = [] \<and> ec_xorpad obj = []
    | Sound \<Rightarrow> 16 \<le> length (ec_key obj) \<and> 2048 \<le> length (ec_data obj)
        \<and> ec_seed obj = derive_seed (ec_key obj) (ec_data obj)
        \<and> ec_xorpad obj = seed_pad (ec_seed obj) \<and> length (ec_xorpad obj) = 4096
    | Garbled \<Rightarrow> length (ec_key obj) = 16 \<and> ec_xorpad obj = seed_pad (ec_seed obj)
        \<and> (ec_data obj = [] \<or> 2048 \<le> length (ec_data obj))"
  using ec2b_reach_inv [OF assms] by (cases kind) (simp_all add: ec2b_inv_def ec2b_ok_def length_seed_pad)

text \<open>An object made of a null pointer, then seeded with an unknown method, then given a seed and a method of the header.\<close>

theorem ec2b_objects_consistent_witness:
  "\<exists>e1 e2 e3. ec2b_of_buffer None 9 mt_boot = Some (e1, mt_boot) \<and> ec_key e1 = []
     \<and> ec2b_reach Garbled e2 \<and> ec_data e2 = [] \<and> ec2b_reach Sound e3 \<and> ec_seed e3 = 7
     \<and> derive_seed (ec_key e3) (ec_data e3) = 7"
proof -
  let ?rnd = "(replicate 16 (0 :: u8), replicate 2048 (0 :: u8))"
  have rnd: "rnd_ok ?rnd" by (simp add: rnd_ok_def)
  have known: "known_method SEED_FROM_SEED" "\<not> known_method 99"
    by (simp_all add: known_method_def const_high_byte_def seed_methods)
  have null: "ec2b_of_buffer None 9 mt_boot = Some (blank 9, mt_boot)" by (simp add: ec2b_of_buffer_def)
  note empty = ec2b_reach.of_null [OF null]
  obtain s2 where pad: "full_xorpad 5 mt_boot = (seed_pad 5, s2)" using full_xorpad_eq [OF mt_ok_boot] .
  obtain e2 s3 where garbled: "setSeed 5 99 ?rnd ?rnd (blank 9) mt_boot = Some (e2, s3)" "ec_data e2 = []"
    by (auto simp: setSeed_def pad getFromSeed_def seed_buffers_def const_high_byte_def seed_methods blank_def Let_def)
  from ec2b_reach.set_seed [OF empty mt_ok_boot rnd rnd garbled(1)] known(2) have g: "ec2b_reach Garbled e2" by simp
  have "\<not> method_refused SEED_FROM_SEED (e2\<lparr>ec_seed := 7\<rparr>)" by (simp add: method_refused_def seed_methods)
  then obtain e3 s4 where s: "setSeed 7 SEED_FROM_SEED ?rnd ?rnd e2 mt_boot = Some (e3, s4)" "ec_seed e3 = 7"
    by (rule setSeed_ok [OF known(1) rnd mt_ok_boot, where raw = ?rnd]) auto
  from ec2b_reach.set_seed [OF g mt_ok_boot rnd rnd s(1)] known(1) have "ec2b_reach Sound e3" by simp
  with null ec2b_objects_consistent [OF empty] ec2b_objects_consistent [OF this] g garbled(2) s(2) show ?thesis by auto
qed

text \<open>
  The binary structure carries the object: a consistent object converts to \<open>0x81c\<close> bytes, and the
  constructor that reads those bytes accepts them and gives an object with the same seed and xorpad.
\<close>

theorem ec2b_struct_carries:
  assumes "ec2b_reach Sound obj" "mt_ok s"
  shows "\<exists>b obj' s'. ec2b_struct obj = Some b \<and> length b = 0x81c
    \<and> ec2b_of_buffer (Some b) u s = Some (obj', s')
    \<and> ec_key obj' = take 16 (ec_key obj) \<and> ec_data obj' = take 2048 (ec_data obj)
    \<and> ec_seed obj' = ec_seed obj \<and> ec_xorpad obj' = ec_xorpad obj"
  by (rule ec2b_struct_round_trip [OF ec2b_reach_ok [OF assms(1)] assms(2), of u]) blast

theorem ec2b_struct_carries_witness:
  "\<exists>obj b. ec2b_reach Sound obj \<and> ec2b_struct obj = Some b \<and> length b = 0x81c"
proof -
  let ?rnd = "(replicate 16 (0 :: u8), replicate 2048 (0 :: u8))"
  have "known_method SEED_FROM_RAND" "rnd_ok ?rnd" "\<not> method_refused SEED_FROM_RAND ((blank 0)\<lparr>ec_seed := 7\<rparr>)"
    by (simp_all add: known_method_def rnd_ok_def method_refused_def seed_methods)
  then obtain e s where s: "setSeed 7 SEED_FROM_RAND ?rnd ?rnd (blank 0) mt_boot = Some (e, s)"
    by (rule setSeed_ok [OF _ _ mt_ok_boot, where raw = ?rnd]) auto
  have k: "known_method SEED_FROM_RAND" by (simp add: known_method_def)
  have "ec2b_reach (if known_method SEED_FROM_RAND then Sound else Garbled) e"
    by (rule ec2b_reach.of_seed [OF mt_ok_boot, of ?rnd ?rnd 7])
      (use s in \<open>simp_all add: rnd_ok_def ec2b_of_seed_def\<close>)
  then have "ec2b_reach Sound e" by (simp only: k if_True)
  with ec2b_struct_carries [OF this mt_ok_boot] show ?thesis by blast
qed

text \<open>
  \<open>genXorpadFromSeed\<close> writes every whole 8-byte word of the buffer and nothing behind the last: the
  words are the numbers of the Mersenne twister for the seed, or with \<open>reroll\<close> those for its first
  number with one skipped, in host byte order or with \<open>be\<close> most significant byte first.
\<close>

theorem xorpad_contents:
  assumes "mt_ok s"
  shows "let n = length buf div 8;
             num = (\<lambda>i. if reroll then mt_output (mt_output seed 0) (Suc i) else mt_output seed i);
             image = (\<lambda>i. if be then rev (store_le 8 (num i)) else store_le 8 (num i))
         in fst (genXorpadFromSeed seed (Some buf) reroll be s)
              = Some (concat (map image [0..<n]) @ drop (8 * n) buf)"
proof (cases reroll)
  case True
  then show ?thesis
    using genXorpad_reroll [OF assms, of seed buf be]
    by (simp add: words_of_def Let_def o_def if_distrib [of "store_le 8"] store_htobe cong: if_cong)
next
  case False
  then show ?thesis
    using genXorpad_plain [OF assms, of seed buf be]
    by (simp add: words_of_def Let_def o_def if_distrib [of "store_le 8"] store_htobe cong: if_cong)
qed

theorem xorpad_contents_witness:
  "fst (genXorpadFromSeed 5 (Some [1, 2, 3]) False False mt_boot) = Some [1, 2, 3]"
  using xorpad_contents [OF mt_ok_boot, of "[1, 2, 3]" False 5 False] by (simp add: Let_def)

section \<open>The generators\<close>

text \<open>
  C39. The Mersenne twister refines its recurrence: the numbers returned after seeding are the tempered
  words that follow the seeded window in the sequence, wherever the in-place regeneration falls and
  whatever the state was before; a program that never seeds gets those of seed 5489.
\<close>

theorem mt_stream_equals_recurrence:
  assumes "mt_ok s"
  shows "fst (genrand_list n (init_genrand64 seed s)) = map (mt_output seed) [0..<n]
    \<and> fst (genrand_list n mt_boot) = map (mt_output 5489) [0..<n]"
  using assms by (simp add: genrand_list_seeded mt_ok_length genrand_list_boot)

theorem mt_stream_equals_recurrence_witness:
  "fst (genrand_list 400 (init_genrand64 7 mt_boot)) = map (mt_output 7) [0..<400]"
  using mt_stream_equals_recurrence [OF mt_ok_boot, of 400 7] by simp

text \<open>
  C40. No access of the Mersenne twister leaves an array. From any state of its type, which is 312 words and
  an index between 0 and 313, seeding, seeding by an array and drawing a number with every index checked, also
  those below 0 that an unsigned index would hide, give what they give without the checks; the state keeps its
  type, and after a number was drawn the index is between 1 and 312. Seeding by an array reads out of bounds
  exactly for an empty array.
\<close>

theorem mt_state_type:
  assumes "mt_ok s"
  shows "checked_init seed s = Some (init_genrand64 seed s) \<and> mt_ok (init_genrand64 seed s)
    \<and> checked_genrand s = Some (genrand64_int64 s) \<and> mt_ok (snd (genrand64_int64 s))
    \<and> 1 \<le> mti (snd (genrand64_int64 s)) \<and> mti (snd (genrand64_int64 s)) \<le> NN
    \<and> checked_init_by_array ks s = init_by_array64 ks s
    \<and> (case init_by_array64 ks s of None \<Rightarrow> ks = [] | Some s' \<Rightarrow> ks \<noteq> [] \<and> mt_ok s')"
  using assms genrand_index [OF assms] mt_ok_init_by_array [OF assms, of ks] init_by_array_defined [of ks s]
    checked_init_eq [OF assms] checked_genrand_eq [OF assms] checked_init_by_array_eq [OF assms]
  by (auto simp: mt_ok_init mt_ok_genrand split: option.splits)

theorem mt_state_type_witness:
  "mti (snd (genrand64_int64 mt_boot)) \<le> NN \<and> checked_init_by_array [1, 2] mt_boot \<noteq> None"
  using mt_state_type [OF mt_ok_boot, of 0 "[1, 2]"] by (auto split: option.splits)

text \<open>
  Tempering loses nothing: two states of the twister's window that give the same number hold the
  same word.
\<close>

theorem temper_injective: "temper x = temper y \<longleftrightarrow> x = y"
  using temper_inj by blast

text \<open>
  The xoshiro step is injective on the states, so it never reaches the all-zero state from another
  one: the assertion fails on the first call, from the all-zero state, or never.
\<close>

theorem xoshiro_never_stops:
  assumes "length s = 4" "length s' = 4"
  shows "(xoshiro_step s = xoshiro_step s' \<longleftrightarrow> s = s')
    \<and> (draw rand_xoshiro256 (Suc n) s = None \<longleftrightarrow> s = [0, 0, 0, 0])"
proof
  show "xoshiro_step s = xoshiro_step s' \<longleftrightarrow> s = s'" using xoshiro_step_inj [OF assms] by blast
  show "draw rand_xoshiro256 (Suc n) s = None \<longleftrightarrow> s = [0, 0, 0, 0]"
    using xo.draw_defined [of s "Suc n"] xoshiro_defined [OF assms(1)] assms(1)
    by (auto simp: xoshiro_ok_def simp del: draw.simps) (simp add: draw.simps)
qed

theorem xoshiro_never_stops_witness: "draw rand_xoshiro256 (Suc 9) [1, 0, 0, 0] \<noteq> None"
  using xoshiro_never_stops [of "[1, 0, 0, 0]" "[1, 0, 0, 0]" 9] by simp

section \<open>The text codecs\<close>

text \<open>
  What decoding an encoded string gives, exactly: the string, but a byte from 128 on sets the low
  two bits (as second byte of a group of three) or four bits (as third) of the byte before it. So the
  pair is a round trip on 7-bit text only.
\<close>

theorem base64_round_trip:
  "b64dec (b64enc s) = Some (b64_smeared s) \<and> length (b64enc s) = 4 * ((length s + 2) div 3)
     \<and> set (b64enc s) \<subseteq> set b64tbl \<union> {b64pad}"
  using b64_alphabet [of s] by (simp add: b64_round_trip b64_length)

text \<open>
  On 7-bit characters \<open>b64dec\<close> reads past its input exactly when the text leaves one sextet over after
  the groups of four and ends in a character outside the alphabet, as in \<open>QQQQQ=\<close>.
\<close>

theorem base64_decode_bounds:
  assumes "\<forall>t \<in> set s. unat t < 128"
  shows "b64dec s = None \<longleftrightarrow>
    length (filter is_sextet s) mod 4 = 1 \<and> \<not> is_sextet (last s)"
  using b64dec_loop_None [OF assms, of Idx0 0 "[]"] by (cases "s = []") (auto simp: b64dec_def)

theorem base64_decode_bounds_witness: "b64dec [81, 61] = None"
proof -
  have "is_sextet 81" "\<not> is_sextet 61" by code_simp+
  then show ?thesis using base64_decode_bounds [of "[81, 61]"] by simp
qed

text \<open>Hexadecimal is a round trip on every string, of twice its length.\<close>

theorem hex_round_trip_all: "hexdec (hexenc s) = s \<and> length (hexenc s) = 2 * length s
    \<and> length (hexdec s) \<le> (length s + 1) div 2"
  using hexdec_length [of s] by (simp add: hex_round_trip hexenc_length)

end
