(* ===== verification/Packet.thy ===== *)
theory Packet
  imports Host_Memory
begin

unbundle bit_operations_syntax

text \<open>
  The class \<open>Packet\<close> of \<open>src/packet.cpp\<close>: the framing of the messages that travel inside KCP. A frame
  is a magic number, the opcode, the size of the header in 16 bits and of the data in 32, all most
  significant byte first, then header, data and a second magic number. What goes wrong in C++ beyond
  a return code is a fault: an exception nobody catches or an access out of bounds.
\<close>

section \<open>The object\<close>

definition PACKET_MAGIC1 :: u16 where "PACKET_MAGIC1 = 0x4567"
definition PACKET_MAGIC2 :: u16 where "PACKET_MAGIC2 = 0x89ab"

text \<open>
  \<open>pk_raw\<close> is the buffer that \<open>rawpkt_buf\<close> points to with its size \<open>rawpkt_sz\<close>, \<^term>\<open>None\<close> for the
  null pointer.
\<close>

record packet =
  pk_opcode :: u16
  pk_header :: bytes
  pk_data :: bytes
  pk_raw :: "bytes option"
  pk_dispatch :: bool

definition new_packet :: "u16 \<Rightarrow> packet" where
  "new_packet opc = \<lparr>pk_opcode = opc, pk_header = [], pk_data = [], pk_raw = None, pk_dispatch = False\<rparr>"

section \<open>Parsing\<close>

text \<open>\<open>be16toh(((unsigned short*) buf)[i])\<close>.\<close>

definition be16_at :: "bytes \<Rightarrow> nat \<Rightarrow> u16" where
  "be16_at buf i = htobe16 (load_le (piece (2 * i) 2 buf))"

text \<open>
  The data size: the high half is promoted to \<open>int\<close> before it is shifted, so that the \<open>size_t\<close> is
  sign-extended from 32 bits.
\<close>

definition data_size :: "u16 \<Rightarrow> u16 \<Rightarrow> u64" where
  "data_size hi lo = signed (push_bit 16 (ucast hi) OR ucast lo :: u32)"

text \<open>
  \<open>assign\<close> throws above the largest size a string can have, far below any size that has its top bit set.
\<close>

definition str_max :: u64 where "str_max = 0x7fffffffffffffff"

definition packet_parse :: "bytes option \<Rightarrow> packet \<Rightarrow> cpp_fault + int \<times> packet" where
  "packet_parse b p =
     (case b of
        None \<Rightarrow> Inr (-1, p)
      | Some buf \<Rightarrow>
          let sz = of_nat (length buf) :: u64
          in if sz < 10 then Inr (-1, p)
             else if be16_at buf 0 \<noteq> PACKET_MAGIC1 then Inr (-1, p)
             else
               let p = p\<lparr>pk_opcode := be16_at buf 1\<rparr>;
                   hdr_sz = ucast (be16_at buf 2) :: u64
               in if sz < hdr_sz + 10 then Inr (-1, p)
                  else
                    let data_sz = data_size (be16_at buf 3) (be16_at buf 4)
                    in if sz < data_sz + hdr_sz + 12 then Inr (-1, p)
                       else
                         let pos = data_sz + hdr_sz + 10
                         in if length buf \<le> unat pos \<or> length buf \<le> unat (pos + 1)
                            then Inl Out_of_bounds
                            else if (push_bit 8 (ucast (buf ! unat pos)) OR ucast (buf ! unat (pos + 1)) :: u16)
                                    \<noteq> PACKET_MAGIC2
                            then Inr (-1, p)
                            else if str_max < data_sz then Inl Length_error
                            else Inr (0, p\<lparr>pk_header := piece 10 (unat hdr_sz) buf,
                                           pk_data := piece (unat hdr_sz + 10) (unat data_sz) buf,
                                           pk_raw := Some buf\<rparr>))"

section \<open>Building\<close>

text \<open>
  The bytes \<open>build\<close> writes from \<open>buf\<close> on. The 16-bit fields take the sizes modulo their width; header
  and data are copied in full.
\<close>

definition frame :: "packet \<Rightarrow> bytes" where
  "frame p =
     store_le 2 (htobe16 PACKET_MAGIC1) @
     store_le 2 (htobe16 (pk_opcode p)) @
     store_le 2 (htobe16 (of_nat (length (pk_header p)))) @
     store_le 2 (htobe16 (of_nat (length (pk_data p) div 2 ^ 16))) @
     store_le 2 (htobe16 (of_nat (length (pk_data p) mod 2 ^ 16))) @
     pk_header p @ pk_data p @
     [ucast (drop_bit 8 PACKET_MAGIC2), ucast (PACKET_MAGIC2 AND 0xff)]"

text \<open>
  \<open>build(buf, sz)\<close>: \<open>buf\<close> is the buffer with all the room it has; the code does not know its size and
  a frame that does not fit is written past its end. Returned are the code, the buffer and \<open>*sz\<close>.
\<close>

definition packet_build :: "packet \<Rightarrow> bytes option \<Rightarrow> bool \<Rightarrow> cpp_fault + int \<times> bytes option \<times> nat option" where
  "packet_build p b has_sz =
     (case b of
        None \<Rightarrow> Inr (-1, None, None)
      | Some buf \<Rightarrow>
          if \<not> has_sz then Inr (-1, b, None)
          else if length buf < length (frame p) then Inl Out_of_bounds
          else Inr (0, Some (frame p @ drop (length (frame p)) buf), Some (12 + length (pk_header p) + length (pk_data p))))"

text \<open>\<open>build()\<close>: back into the buffer the packet was parsed from.\<close>

definition packet_rebuild :: "packet \<Rightarrow> cpp_fault + int \<times> packet" where
  "packet_rebuild p =
     (case pk_raw p of
        None \<Rightarrow> Inr (-1, p)
      | Some raw \<Rightarrow>
          (case packet_build p (Some raw) True of
             Inl f \<Rightarrow> Inl f
           | Inr (r, b, sz) \<Rightarrow> Inr (r, p\<lparr>pk_raw := map_option (take (the sz)) b\<rparr>)))"

text \<open>
  \<open>buildHeader\<close>: \<open>ser\<close> is what serialising the header message for a sequence number and the time gives,
  \<^term>\<open>None\<close> when it fails.
\<close>

definition buildHeader :: "(u32 \<Rightarrow> u64 \<Rightarrow> bytes option) \<Rightarrow> u64 \<Rightarrow> u32 \<Rightarrow> packet \<Rightarrow> bytes \<times> packet" where
  "buildHeader ser now seq p =
     (if pk_header p \<noteq> [] \<and> seq = 0 then (pk_header p, p)
      else let p = (case ser seq now of Some h \<Rightarrow> p\<lparr>pk_header := h\<rparr> | None \<Rightarrow> p)
           in (pk_header p, p))"

section \<open>Accessors\<close>

definition setHeader :: "bytes \<Rightarrow> packet \<Rightarrow> packet" where "setHeader h p = p\<lparr>pk_header := h\<rparr>"
definition setPacketData :: "bytes \<Rightarrow> packet \<Rightarrow> packet" where "setPacketData d p = p\<lparr>pk_data := d\<rparr>"
definition setOpcode :: "u16 \<Rightarrow> packet \<Rightarrow> packet" where "setOpcode opc p = p\<lparr>pk_opcode := opc\<rparr>"
definition getBuffer :: "packet \<Rightarrow> bytes option \<times> nat" where
  "getBuffer p = (pk_raw p, case pk_raw p of None \<Rightarrow> 0 | Some b \<Rightarrow> length b)"
definition setUseDispatchKey :: "u32 \<Rightarrow> packet \<Rightarrow> packet" where
  "setUseDispatchKey i p = p\<lparr>pk_dispatch := (i \<noteq> 0)\<rparr>"
definition clearUseDispatchKey :: "packet \<Rightarrow> packet" where
  "clearUseDispatchKey p = p\<lparr>pk_dispatch := False\<rparr>"

section \<open>A frame is read back\<close>

lemma length_frame: "length (frame p) = 12 + length (pk_header p) + length (pk_data p)"
  by (simp add: frame_def)

lemma frame_pieces:
  assumes "length a = 2" "length b = 2" "length c = 2" "length d = 2" "length e = 2"
    and buf: "buf = a @ b @ c @ d @ e @ rest"
  shows "piece 0 2 buf = a" "piece 2 2 buf = b" "piece 4 2 buf = c" "piece 6 2 buf = d" "piece 8 2 buf = e"
    "drop 10 buf = rest"
  using assms(1-5) unfolding buf piece_def by (simp_all add: numeral_eq_Suc)

lemma be16_store: "htobe16 (load_le (store_le 2 (htobe16 w))) = w"
  by (simp add: load_store_le htobe_twice)

lemma frame_fields:
  assumes "buf = frame p @ tail"
  shows "be16_at buf 0 = PACKET_MAGIC1" "be16_at buf 1 = pk_opcode p"
    "be16_at buf 2 = of_nat (length (pk_header p))"
    "be16_at buf 3 = of_nat (length (pk_data p) div 2 ^ 16)"
    "be16_at buf 4 = of_nat (length (pk_data p) mod 2 ^ 16)"
    "drop 10 buf = pk_header p @ pk_data p @ [0x89, 0xab] @ tail"
proof -
  have m: "[ucast (drop_bit 8 PACKET_MAGIC2), ucast (PACKET_MAGIC2 AND 0xff)] = [0x89, 0xab :: u8]" by code_simp
  note f = frame_pieces [OF _ _ _ _ _ assms [unfolded frame_def m, simplified append_assoc]]
  show "be16_at buf 0 = PACKET_MAGIC1" "be16_at buf 1 = pk_opcode p"
    "be16_at buf 2 = of_nat (length (pk_header p))"
    "be16_at buf 3 = of_nat (length (pk_data p) div 2 ^ 16)"
    "be16_at buf 4 = of_nat (length (pk_data p) mod 2 ^ 16)"
    using f by (simp_all add: be16_at_def be16_store)
  show "drop 10 buf = pk_header p @ pk_data p @ [0x89, 0xab] @ tail" using f by simp
qed

lemma data_size_small:
  assumes "n < 2 ^ 31"
  shows "data_size (of_nat (n div 2 ^ 16)) (of_nat (n mod 2 ^ 16)) = of_nat n"
proof -
  have "push_bit 16 (ucast (of_nat (n div 2 ^ 16) :: u16)) OR ucast (of_nat (n mod 2 ^ 16) :: u16) = (of_nat n :: u32)"
    unfolding drop_bit_eq_div [of 16 n, symmetric] take_bit_eq_mod [of 16 n, symmetric]
    by (rule bit_word_eqI) (auto simp: bit_simps)
  moreover have "signed (of_nat n :: u32) = (of_nat n :: u64)"
  proof -
    have "sint (of_nat n :: u32) = int n"
      using assms by (simp add: sint_small unat_of_nat_u32)
    then show ?thesis by (metis of_int_of_nat_eq of_int_sint)
  qed
  ultimately show ?thesis by (simp add: data_size_def)
qed


lemma unat_of_nat_u64: "n < 2 ^ 64 \<Longrightarrow> unat (of_nat n :: u64) = n"
  by (simp add: unsigned_of_nat take_bit_nat_eq_self)

lemma piece_drop: "piece (m + n) k bs = piece n k (drop m bs)"
  by (simp add: piece_def add.commute)

lemma le_of_nat_u64: "m < 2 ^ 64 \<Longrightarrow> n < 2 ^ 64 \<Longrightarrow> (of_nat m :: u64) < of_nat n \<longleftrightarrow> m < n"
  by (simp add: word_less_nat_alt unat_of_nat_u64)

lemma parse_frame:
  assumes h: "length (pk_header p) < 2 ^ 16" and d: "length (pk_data p) < 2 ^ 31" and t: "length tail < 2 ^ 31"
    and buf: "buf = frame p @ tail"
  shows "packet_parse (Some buf) q =
    Inr (0, q\<lparr>pk_opcode := pk_opcode p, pk_header := pk_header p, pk_data := pk_data p, pk_raw := Some buf\<rparr>)"
proof -
  let ?h = "length (pk_header p)" and ?d = "length (pk_data p)"
  note f = frame_fields [OF buf]
  have len: "length buf = 12 + ?h + ?d + length tail" by (simp add: buf length_frame)
  then have small: "length buf < 2 ^ 64" using h d t by simp
  have hs: "(ucast (be16_at buf 2) :: u64) = of_nat ?h"
    using h by (simp add: f(3) unsigned_of_nat take_bit_nat_eq_self)
  have ds: "data_size (be16_at buf 3) (be16_at buf 4) = of_nat ?d"
    unfolding f(4,5) by (rule data_size_small [OF d])
  have nlt: "\<not> (of_nat (length buf) :: u64) < of_nat m" if "m \<le> length buf" for m
    using that small by (simp add: le_of_nat_u64)
  have n10: "\<not> (of_nat (length buf) :: u64) < 10" using nlt [of 10] len by simp
  have nh: "\<not> (of_nat (length buf) :: u64) < of_nat ?h + 10" using nlt [of "?h + 10"] len by simp
  have nd: "\<not> (of_nat (length buf) :: u64) < of_nat ?d + of_nat ?h + 12" using nlt [of "?d + ?h + 12"] len by simp
  have pos: "unat (of_nat ?d + of_nat ?h + 10 :: u64) = ?d + ?h + 10"
    "unat (of_nat ?d + of_nat ?h + 10 + 1 :: u64) = ?d + ?h + 11"
    using unat_of_nat_u64 [of "?d + ?h + 10"] unat_of_nat_u64 [of "?d + ?h + 11"] h d
    by (simp_all add: ac_simps)
  have at: "buf ! (10 + i) = (pk_header p @ pk_data p @ [0x89, 0xab] @ tail) ! i" for i
    using arg_cong [OF f(6), of "\<lambda>l. l ! i"] len by simp
  have m: "buf ! (?d + ?h + 10) = 0x89" "buf ! (?d + ?h + 11) = 0xab"
    using at [of "?h + ?d"] at [of "?h + ?d + 1"] by (simp_all add: nth_append ac_simps)
  have max: "\<not> str_max < of_nat ?d"
    using d by (simp add: str_max_def word_less_nat_alt unat_of_nat_u64)
  have hp: "piece 10 ?h buf = pk_header p"
    using piece_drop [of 10 0 ?h buf] by (simp add: f(6) piece_def [of 0])
  have dp: "piece (?h + 10) ?d buf = pk_data p"
    using piece_drop [of 10 ?h ?d buf] by (simp add: f(6) piece_def [of ?h] add.commute)
  have magic: "(push_bit 8 (ucast (0x89 :: u8)) OR ucast (0xab :: u8) :: u16) = PACKET_MAGIC2" by code_simp
  show ?thesis
    unfolding packet_parse_def option.case Let_def hs ds pos m magic f(1,2)
    using n10 nh nd len max h d
    by (simp add: hp dp unat_of_nat_u64)
qed

section \<open>What parsing can do\<close>

text \<open>
  Below 2 GiB of claimed data the sum of the sizes does not wrap, and no access leaves the buffer. From
  there on it does: the smallest frame that claims \<open>0xffffffff\<close> bytes of data passes the size checks.
\<close>

definition claimed :: "bytes \<Rightarrow> nat" where
  "claimed buf = unat (be16_at buf 3) * 2 ^ 16 + unat (be16_at buf 4)"

lemma claimed_div_mod:
  "claimed buf div 2 ^ 16 = unat (be16_at buf 3)" "claimed buf mod 2 ^ 16 = unat (be16_at buf 4)"
  using unsigned_less [of "be16_at buf 4", where ?'a = nat] by (simp_all add: claimed_def)

lemma data_size_claimed:
  assumes "claimed buf < 2 ^ 31"
  shows "data_size (be16_at buf 3) (be16_at buf 4) = of_nat (claimed buf)"
  using data_size_small [OF assms] unfolding claimed_div_mod by (simp add: of_nat_unat)

lemma be16_piece: "2 * i + 2 \<le> length buf \<Longrightarrow> store_le 2 (htobe16 (be16_at buf i)) = piece (2 * i) 2 buf"
  by (simp add: be16_at_def htobe_twice store_load_le length_piece)

lemma take_split_five:
  "buf = piece 0 2 buf @ piece 2 2 buf @ piece 4 2 buf @ piece 6 2 buf @ piece 8 2 buf @ drop 10 buf"
proof -
  have step: "drop n bs = piece n 2 bs @ drop (n + 2) bs" for n and bs :: bytes
    unfolding piece_def by (metis add.commute append_take_drop_id drop_drop)
  have "buf = piece 0 2 buf @ drop 2 buf" by (simp add: piece_def)
  also have "drop 2 buf = piece 2 2 buf @ drop 4 buf" using step [of 2 buf] by simp
  also have "drop 4 buf = piece 4 2 buf @ drop 6 buf" using step [of 4 buf] by simp
  also have "drop 6 buf = piece 6 2 buf @ drop 8 buf" using step [of 6 buf] by simp
  also have "drop 8 buf = piece 8 2 buf @ drop 10 buf" using step [of 8 buf] by simp
  finally show ?thesis .
qed

lemma magic2_bytes:
  "(push_bit 8 (ucast (a :: u8)) OR ucast (b :: u8) :: u16) = PACKET_MAGIC2 \<Longrightarrow> a = 0x89 \<and> b = 0xab"
proof
  assume eq: "(push_bit 8 (ucast a) OR ucast b :: u16) = PACKET_MAGIC2"
  have "a = ucast (drop_bit 8 (push_bit 8 (ucast a) OR ucast b :: u16))"
    by (rule bit_word_eqI) (auto simp: bit_simps dest: bit_imp_le_length)
  also have "\<dots> = 0x89" unfolding eq by code_simp
  finally show "a = 0x89" .
  have "b = ucast (push_bit 8 (ucast a) OR ucast b :: u16)"
    by (rule bit_word_eqI) (auto simp: bit_simps dest: bit_imp_le_length)
  also have "\<dots> = 0xab" unfolding eq by code_simp
  finally show "b = 0xab" .
qed

text \<open>
  With a claim below 2 GiB the checks of \<open>parse\<close> compare the true sizes: a buffer is refused, or it
  starts with the frame of the packet that is returned.
\<close>

lemma parse_small:
  assumes c: "claimed buf < 2 ^ 31" and l: "length buf < 2 ^ 63"
  shows "\<exists>q'. packet_parse (Some buf) q = Inr (-1, q') \<or>
    packet_parse (Some buf) q = Inr (0, q') \<and>
      (\<exists>tail. buf = frame q' @ tail) \<and> length (pk_header q') < 2 ^ 16 \<and> length (pk_data q') < 2 ^ 31"
proof -
  let ?h = "unat (be16_at buf 2)" and ?d = "claimed buf" and ?n = "length buf"
  have h: "?h < 2 ^ 16" using unsigned_less [of "be16_at buf 2", where ?'a = nat] by simp
  have hs: "(ucast (be16_at buf 2) :: u64) = of_nat ?h" by (simp add: of_nat_unat)
  note ds = data_size_claimed [OF c]
  have lt: "(of_nat ?n :: u64) < of_nat m \<longleftrightarrow> ?n < m" if "m < 2 ^ 64" for m
    using that l by (simp add: le_of_nat_u64)
  have l10: "(of_nat ?n :: u64) < 10 \<longleftrightarrow> ?n < 10" using lt [of 10] by simp
  have lh: "(of_nat ?n :: u64) < of_nat ?h + 10 \<longleftrightarrow> ?n < ?h + 10" using lt [of "?h + 10"] h by simp
  have ld: "(of_nat ?n :: u64) < of_nat ?d + of_nat ?h + 12 \<longleftrightarrow> ?n < ?d + ?h + 12"
    using lt [of "?d + ?h + 12"] h c by simp
  have pos: "unat (of_nat ?d + of_nat ?h + 10 :: u64) = ?d + ?h + 10"
    "unat (of_nat ?d + of_nat ?h + 10 + 1 :: u64) = ?d + ?h + 11"
    using unat_of_nat_u64 [of "?d + ?h + 10"] unat_of_nat_u64 [of "?d + ?h + 11"] h c by (simp_all add: ac_simps)
  have max: "\<not> str_max < of_nat ?d" and ud: "unat (of_nat ?d :: u64) = ?d" and uh: "unat (of_nat ?h :: u64) = ?h"
    using c h by (simp_all add: str_max_def word_less_nat_alt unat_of_nat_u64)
  let ?q = "q\<lparr>pk_opcode := be16_at buf 1, pk_header := piece 10 ?h buf, pk_data := piece (?h + 10) ?d buf,
      pk_raw := Some buf\<rparr>"
  let ?m = "push_bit 8 (ucast (buf ! (?d + ?h + 10))) OR ucast (buf ! (?d + ?h + 11)) :: u16"
  have parse: "packet_parse (Some buf) q =
      (if ?n < 10 \<or> be16_at buf 0 \<noteq> PACKET_MAGIC1 then Inr (-1, q)
       else if ?n < ?d + ?h + 12 \<or> ?m \<noteq> PACKET_MAGIC2 then Inr (-1, q\<lparr>pk_opcode := be16_at buf 1\<rparr>)
       else Inr (0, ?q))"
    unfolding packet_parse_def option.case Let_def hs ds pos l10 lh ld ud uh using max by auto
  show ?thesis
  proof (cases "10 \<le> ?n \<and> be16_at buf 0 = PACKET_MAGIC1 \<and> ?d + ?h + 12 \<le> ?n \<and> ?m = PACKET_MAGIC2")
    case False
    then show ?thesis unfolding parse by auto
  next
    case True
    then have n: "?d + ?h + 12 \<le> ?n" "10 \<le> ?n" by auto
    have lens: "length (piece 10 ?h buf) = ?h" "length (piece (?h + 10) ?d buf) = ?d"
      using n by (simp_all add: length_piece)
    have fields: "store_le 2 (htobe16 PACKET_MAGIC1) = piece 0 2 buf"
      "store_le 2 (htobe16 (be16_at buf 1)) = piece 2 2 buf"
      "store_le 2 (htobe16 (of_nat ?h)) = piece 4 2 buf"
      "store_le 2 (htobe16 (of_nat (?d div 2 ^ 16))) = piece 6 2 buf"
      "store_le 2 (htobe16 (of_nat (?d mod 2 ^ 16))) = piece 8 2 buf"
      unfolding claimed_div_mod
      using be16_piece [of 0 buf] be16_piece [of 1 buf] be16_piece [of 2 buf] be16_piece [of 3 buf]
        be16_piece [of 4 buf] n True by (simp_all add: of_nat_unat)
    have m: "ucast (drop_bit 8 PACKET_MAGIC2) = (0x89 :: u8)" "ucast (PACKET_MAGIC2 AND 0xff) = (0xab :: u8)"
      by code_simp+
    have mb: "buf ! (?d + ?h + 10) = 0x89" "buf ! (?d + ?h + 11) = 0xab"
      using magic2_bytes True by auto
    have dd: "drop (?d + ?h + 10) buf = 0x89 # 0xab # drop (?d + ?h + 12) buf"
      using n mb Cons_nth_drop_Suc [of "?d + ?h + 10" buf] Cons_nth_drop_Suc [of "?d + ?h + 11" buf]
      by (simp add: numeral_eq_Suc)
    have body: "drop 10 buf = piece 10 ?h buf @ piece (?h + 10) ?d buf @ drop (?d + ?h + 10) buf"
      unfolding piece_def using append_take_drop_id [of ?h "drop 10 buf"]
        append_take_drop_id [of ?d "drop (?h + 10) buf"] by (simp add: ac_simps)
    have sel: "pk_opcode ?q = be16_at buf 1" "pk_header ?q = piece 10 ?h buf" "pk_data ?q = piece (?h + 10) ?d buf"
      by simp_all
    have "buf = frame ?q @ drop (?d + ?h + 12) buf"
      by (subst take_split_five)
        (simp only: frame_def sel lens fields m body dd append_assoc append_Cons append_Nil)
    moreover have "packet_parse (Some buf) q = Inr (0, ?q)" unfolding parse using True by auto
    ultimately show ?thesis using lens h c by (intro exI [of _ ?q]) auto
  qed
qed

text \<open>The frame of twelve bytes that ends the server: one header byte, a claim of \<open>0xffffffff\<close>.\<close>

definition fatal_frame :: bytes where
  "fatal_frame = [0x45, 0x67, 0, 1, 0, 1, 0xff, 0xff, 0xff, 0xff, 0x89, 0xab]"

lemma fatal_frame_throws: "packet_parse (Some fatal_frame) (new_packet 0) = Inl Length_error"
  by code_simp

section \<open>Building into a buffer\<close>

lemma packet_build_ok:
  "length (frame p) \<le> length buf \<Longrightarrow>
   packet_build p (Some buf) True = Inr (0, Some (frame p @ drop (length (frame p)) buf), Some (length (frame p)))"
  by (simp add: packet_build_def length_frame)

end
