(* ===== verification/Session.thy ===== *)
theory Session
  imports Packet Ec2b Kcp_Link Kcp_Invariant
begin

unbundle bit_operations_syntax

text \<open>
  \<open>src/kcpsession.cpp\<close> and \<open>src/session.cpp\<close>: the session of one client on top of its KCP control
  block. What a session writes to the socket is the list of the datagrams it returns; what arrives on
  the socket is pushed by the game server (\<open>pushToKcp\<close>). The message handlers of the server are an
  argument of the session loop.
\<close>

section \<open>The KCP session\<close>

text \<open>The pointers to the game server and the client's address are set once and never null afterwards.\<close>

record kcp_session =
  ks_kcp :: ikcpcb
  ks_next :: u32

definition kcp_session_new ::
  "(nat \<Rightarrow> bool) \<Rightarrow> bool \<Rightarrow> u64 \<Rightarrow> bool \<Rightarrow> bool \<Rightarrow> u64 \<Rightarrow> cpp_fault + kcp_session" where
  "kcp_session_new mal mtu_mal sid has_client has_gs itv =
     (if \<not> has_gs then Inl Invalid_argument
      else if \<not> has_client then Inl Invalid_argument
      else case ikcp_create mal sid of
             None \<Rightarrow> Inl Runtime_error
           | Some k \<Rightarrow>
               let k = snd (ikcp_nodelay k 1 (sint (ucast itv :: i32)) 2 1);
                   k = snd (ikcp_setmtu mtu_mal k 1400);
                   k = snd (ikcp_wndsize k 256 256)
               in Inr \<lparr>ks_kcp = k\<lparr>logmask := 0\<rparr>, ks_next = 0\<rparr>)"

definition ks_send :: "(nat \<Rightarrow> ikcpseg option) \<Rightarrow> bytes option \<Rightarrow> kcp_session \<Rightarrow> int \<times> kcp_session" where
  "ks_send mal buf ks =
     (case buf of
        None \<Rightarrow> (-1, ks)
      | Some b \<Rightarrow> let (r, k) = ikcp_send mal (ks_kcp ks) (Some b) (int (length b)) in (r, ks\<lparr>ks_kcp := k\<rparr>))"

definition ks_recv :: "int \<Rightarrow> kcp_session \<Rightarrow> int \<times> bytes \<times> kcp_session" where
  "ks_recv len ks =
     (let (r, out, k) = ikcp_recv (ks_kcp ks) True len in (r, out, ks\<lparr>ks_kcp := k\<rparr>))"

definition pushToKcp :: "ikcpseg \<Rightarrow> bytes option \<Rightarrow> kcp_session \<Rightarrow> (int \<times> kcp_session) option" where
  "pushToKcp junk buf ks =
     (case buf of
        None \<Rightarrow> Some (-1, ks)
      | Some d \<Rightarrow> map_option (\<lambda>(r, k). (r, ks\<lparr>ks_kcp := k\<rparr>)) (ikcp_input junk (ks_kcp ks) d))"

definition getSessionId :: "kcp_session \<Rightarrow> u64" where
  "getSessionId ks = conv (ks_kcp ks)"

definition ks_update :: "ikcpseg \<Rightarrow> u32 \<Rightarrow> kcp_session \<Rightarrow> bytes list \<times> kcp_session" where
  "ks_update junk ms ks =
     (let nxt = ikcp_check (ks_kcp ks) (ks_next ks);
          (out, k) = (if nxt \<le> ks_next ks then ikcp_update junk (ks_kcp ks) (ks_next ks) else ([], ks_kcp ks))
      in (out, \<lparr>ks_kcp = k, ks_next = ks_next ks + ms\<rparr>))"

text \<open>\<open>update()\<close> without an argument takes the game server's interval.\<close>

definition ks_update_default :: "ikcpseg \<Rightarrow> u64 \<Rightarrow> kcp_session \<Rightarrow> bytes list \<times> kcp_session" where
  "ks_update_default junk itv ks = ks_update junk (ucast itv) ks"

section \<open>The session\<close>

definition S_ERROR :: int where "S_ERROR = -3"
definition S_FINISHED :: int where "S_FINISHED = -2"
definition S_TIMEOUT :: int where "S_TIMEOUT = -1"
definition S_NOT_CONNECTED :: int where "S_NOT_CONNECTED = 0"
definition S_TOKEN_WAIT :: int where "S_TOKEN_WAIT = 1"
definition S_ACTIVE :: int where "S_ACTIVE = 4"

record session =
  ss_kcp :: "kcp_session option"
  ss_player :: bool
  ss_state :: int
  ss_secret :: bool
  ss_seq :: u32
  ss_seed :: u64
  ss_ping :: u64
  ss_key :: bytes

text \<open>\<open>raw\<close> holds the members the constructor does not set.\<close>

definition session_new ::
  "(nat \<Rightarrow> bool) \<Rightarrow> bool \<Rightarrow> u64 \<Rightarrow> bool \<Rightarrow> bool \<Rightarrow> u64 \<Rightarrow> u64 \<Rightarrow> session \<Rightarrow> cpp_fault + session" where
  "session_new mal mtu_mal sid has_sock has_gs itv now raw =
     (case kcp_session_new mal mtu_mal sid has_sock has_gs itv of
        Inl f \<Rightarrow> Inl f
      | Inr ks \<Rightarrow> Inr (raw\<lparr>ss_kcp := Some ks, ss_player := False, ss_secret := False, ss_seq := 10,
                            ss_state := S_TOKEN_WAIT, ss_ping := now\<rparr>))"

text \<open>The handshake structure, all fields most significant byte first.\<close>

definition handshake :: "u32 \<Rightarrow> u64 \<Rightarrow> u32 \<Rightarrow> u32 \<Rightarrow> bytes" where
  "handshake magic1 sid cmd magic2 =
     store_le 4 (htobe32 magic1) @ store_le 4 (htobe32 (ucast (sid AND 0xffffffff))) @
     store_le 4 (htobe32 (ucast (drop_bit 32 sid))) @ store_le 4 (htobe32 cmd) @ store_le 4 (htobe32 magic2)"

definition session_close :: "u32 \<Rightarrow> session \<Rightarrow> bytes list \<times> session" where
  "session_close reason s =
     (let out = (case ss_kcp s of
                   None \<Rightarrow> []
                 | Some ks \<Rightarrow> [handshake 0x194 (getSessionId ks) reason 0x19419494])
      in (out, s\<lparr>ss_kcp := None, ss_player := False, ss_state := S_NOT_CONNECTED\<rparr>))"

definition generateSessionKey :: "u64 \<Rightarrow> session \<Rightarrow> mt_state \<Rightarrow> session \<times> mt_state" where
  "generateSessionKey rnd s m =
     (let (key, m') = genXorpadFromSeed rnd (Some (take 4096 (ss_key s))) False True m
      in (s\<lparr>ss_seed := rnd, ss_key := the key\<rparr>, m'))"

definition setUseSecretKey :: "u32 \<Rightarrow> session \<Rightarrow> session" where
  "setUseSecretKey i s = s\<lparr>ss_secret := (i \<noteq> 0)\<rparr>"

definition setLastPingTime :: "u64 \<Rightarrow> session \<Rightarrow> session" where
  "setLastPingTime t s = s\<lparr>ss_ping := t\<rparr>"

definition setSeq :: "u32 \<Rightarrow> session \<Rightarrow> session" where
  "setSeq n s = s\<lparr>ss_seq := n\<rparr>"

definition nextSeq :: "session \<Rightarrow> u32 \<times> session" where
  "nextSeq s = (ss_seq s + 1, s\<lparr>ss_seq := ss_seq s + 1\<rparr>)"

definition setState :: "int \<Rightarrow> session \<Rightarrow> session" where
  "setState i s = s\<lparr>ss_state := i\<rparr>"

text \<open>\<open>HyvCryptXor\<close> of \<open>src/crypt.cpp\<close>.\<close>

definition HyvCryptXor :: "bytes \<Rightarrow> bytes \<Rightarrow> nat \<Rightarrow> bytes" where
  "HyvCryptXor ibuf kbuf klen = map (\<lambda>i. ibuf ! i XOR kbuf ! (i mod klen)) [0..<length ibuf]"

text \<open>
  \<open>sendPacket\<close>: \<open>buf\<close> is the static buffer of 4096 bytes with what it held before, \<open>dispatch\<close> the
  dispatch key if there is one.
\<close>

definition send_key :: "bytes option \<Rightarrow> packet \<Rightarrow> session \<Rightarrow> bytes option" where
  "send_key dispatch p s = (if \<not> pk_dispatch p \<and> ss_secret s then Some (ss_key s) else dispatch)"

definition crypt :: "bytes option \<Rightarrow> bytes \<Rightarrow> bytes" where
  "crypt key b = (case key of Some k \<Rightarrow> HyvCryptXor b k 4096 | None \<Rightarrow> b)"

definition sendPacket ::
  "(nat \<Rightarrow> ikcpseg option) \<Rightarrow> bytes option \<Rightarrow> bytes \<Rightarrow> packet \<Rightarrow> session \<Rightarrow> cpp_fault + int \<times> session" where
  "sendPacket mal dispatch buf p s =
     (case packet_build p (Some buf) True of
        Inl f \<Rightarrow> Inl f
      | Inr (r, b, sz) \<Rightarrow>
          if r < 0 then Inr (-1, s)
          else
            let msg = crypt (send_key dispatch p s) (take (the sz) (the b))
            in case ss_kcp s of
                 None \<Rightarrow> Inl Null_pointer
               | Some ks \<Rightarrow>
                   let (r, ks') = ks_send mal (Some msg) ks
                   in Inr (if r < 0 then -1 else 0, s\<lparr>ss_kcp := Some ks'\<rparr>))"

section \<open>Dispatch by opcode\<close>

definition PingReq :: u16 where "PingReq = 5"
definition GetPlayerTokenReq :: u16 where "GetPlayerTokenReq = 101"
definition PlayerLoginReq :: u16 where "PlayerLoginReq = 103"
definition EnterSceneReadyReq :: u16 where "EnterSceneReadyReq = 282"
definition SceneInitFinishReq :: u16 where "SceneInitFinishReq = 204"
definition GetPlayerBlacklistReq :: u16 where "GetPlayerBlacklistReq = 4039"
definition EvtAiSyncCombatThreatInfoNotify :: u16 where "EvtAiSyncCombatThreatInfoNotify = 352"

text \<open>
  The handlers parse and build protobuf messages and are arguments; they return a code and the session,
  into which what they sent is queued.
\<close>

type_synonym handler = "session \<Rightarrow> bytes \<Rightarrow> bytes \<Rightarrow> int \<times> session"

record handlers =
  h_ping :: handler
  h_token :: handler
  h_login :: handler
  h_scene_ready :: handler
  h_scene_init :: handler
  h_blacklist :: handler

definition processPacket :: "handlers \<Rightarrow> session \<Rightarrow> packet \<Rightarrow> int \<times> bool \<times> session" where
  "processPacket hs s p =
     (let opc = pk_opcode p; h = pk_header p; d = pk_data p;
          run = (\<lambda>f. let (r, s') = f s h d in (r, True, s'))
      in if opc = PingReq then run (h_ping hs)
         else if opc = GetPlayerTokenReq then run (h_token hs)
         else if opc = PlayerLoginReq then run (h_login hs)
         else if opc = EnterSceneReadyReq then run (h_scene_ready hs)
         else if opc = SceneInitFinishReq then run (h_scene_init hs)
         else if opc = GetPlayerBlacklistReq then run (h_blacklist hs)
         else if opc = EvtAiSyncCombatThreatInfoNotify then (0, True, s)
         else (- int (unat opc), False, s))"

section \<open>The session loop\<close>

text \<open>
  The state of \<open>SessionMain\<close>: the session and the locals that outlive an iteration, the packet object
  and the pointer to the key. An iteration ends by going on, by the \<open>break\<close> or by the return after a
  ping timeout. The loop keeps the KCP pointer it read at the start: once the session is closed, using
  it is a fault.
\<close>

datatype loop_end = Again | Broken | Timed_out

record session_loop =
  sl_session :: session
  sl_packet :: packet
  sl_key :: "bytes option"

definition receive_key :: "bytes option \<Rightarrow> session \<Rightarrow> bytes option \<Rightarrow> bytes option" where
  "receive_key dispatch s key =
     (if ss_secret s then Some (ss_key s)
      else case dispatch of Some d \<Rightarrow> Some d | None \<Rightarrow> key)"

definition session_input ::
  "handlers \<Rightarrow> bytes option \<Rightarrow> session_loop \<Rightarrow> cpp_fault + bool \<times> session_loop" where
  "session_input hs dispatch l =
     (case ss_kcp (sl_session l) of
        None \<Rightarrow> Inl Null_pointer
      | Some ks \<Rightarrow>
          let (r, out, ks') = ks_recv (16 * 1024) ks;
              s = (sl_session l)\<lparr>ss_kcp := Some ks'\<rparr>;
              l = l\<lparr>sl_session := s\<rparr>
          in if r < 0 then Inr (False, l)
             else
               let key = receive_key dispatch s (sl_key l);
                   l = l\<lparr>sl_key := key\<rparr>
               in case packet_parse (Some (crypt key out)) (sl_packet l) of
                    Inl f \<Rightarrow> Inl f
                  | Inr (pr, p) \<Rightarrow>
                      let l = l\<lparr>sl_packet := p\<rparr>
                      in if pr < 0 then Inr (False, l)
                         else
                           let (ret, valid, s') = processPacket hs s p
                           in Inr (valid \<and> ret < 0 \<and> ss_state s' \<le> S_NOT_CONNECTED, l\<lparr>sl_session := s'\<rparr>))"

definition session_step ::
  "handlers \<Rightarrow> bytes option \<Rightarrow> ikcpseg \<Rightarrow> u64 \<Rightarrow> session_loop \<Rightarrow> cpp_fault + loop_end \<times> bytes list \<times> session_loop" where
  "session_step hs dispatch junk now l =
     (case session_input hs dispatch l of
        Inl f \<Rightarrow> Inl f
      | Inr (True, l) \<Rightarrow> Inr (Broken, [], l)
      | Inr (False, l) \<Rightarrow>
          (case ss_kcp (sl_session l) of
             None \<Rightarrow> Inl Null_pointer
           | Some ks \<Rightarrow>
               let (out, ks') = ks_update junk 50 ks;
                   s = (sl_session l)\<lparr>ss_kcp := Some ks'\<rparr>
               in if ss_ping s + 30 * 1000 < now
                  then let (bye, s) = session_close 10 s in Inr (Timed_out, out @ bye, l\<lparr>sl_session := s\<rparr>)
                  else Inr (Again, out, l\<lparr>sl_session := s\<rparr>)))"

text \<open>
  The loop over what happens outside: before each iteration the game server pushes datagrams, and the
  clock shows a time.
\<close>

definition push_all :: "ikcpseg \<Rightarrow> bytes list \<Rightarrow> session \<Rightarrow> session" where
  "push_all junk ds s =
     fold (\<lambda>d s. case ss_kcp s of
                    None \<Rightarrow> s
                  | Some ks \<Rightarrow>
                      (case pushToKcp junk (Some d) ks of
                         None \<Rightarrow> s
                       | Some (_, ks') \<Rightarrow> s\<lparr>ss_kcp := Some ks'\<rparr>)) ds s"

fun SessionMain ::
  "handlers \<Rightarrow> bytes option \<Rightarrow> ikcpseg \<Rightarrow> (bytes list \<times> u64) list \<Rightarrow> session_loop
     \<Rightarrow> cpp_fault + bytes list \<times> session_loop" where
  "SessionMain hs dispatch junk [] l = Inr ([], l)"
| "SessionMain hs dispatch junk ((ds, now) # world) l =
     (let l = l\<lparr>sl_session := push_all junk ds (sl_session l)\<rparr>
      in if ss_state (sl_session l) \<le> S_NOT_CONNECTED
         then let (bye, s) = session_close 3 (sl_session l) in Inr (bye, l\<lparr>sl_session := s\<rparr>)
         else case session_step hs dispatch junk now l of
                Inl f \<Rightarrow> Inl f
              | Inr (Timed_out, out, l') \<Rightarrow> Inr (out, l')
              | Inr (Broken, out, l') \<Rightarrow>
                  let (bye, s) = session_close 3 (sl_session l') in Inr (out @ bye, l'\<lparr>sl_session := s\<rparr>)
              | Inr (Again, out, l') \<Rightarrow>
                  (case SessionMain hs dispatch junk world l' of
                     Inl f \<Rightarrow> Inl f
                   | Inr (out', l'') \<Rightarrow> Inr (out @ out', l'')))"

end
