(* ===== verification/Session_Props.thy ===== *)
theory Session_Props
  imports Session Ec2b_Props
begin

unbundle bit_operations_syntax

text \<open>
  What a session promises: encryption is its own inverse, what \<open>sendPacket\<close> does on every branch, the
  way of one packet from \<open>sendPacket\<close> of one session to the handler of the other, the state of a new
  session, and how the session loop ends.
\<close>

section \<open>Encryption is undone by itself\<close>

lemma HyvCryptXor_twice: "HyvCryptXor (HyvCryptXor b k n) k n = b"
  by (rule nth_equalityI) (simp_all add: HyvCryptXor_def xor.assoc)

lemma length_HyvCryptXor: "length (HyvCryptXor b k n) = length b"
  by (simp add: HyvCryptXor_def)

lemma crypt_twice: "crypt key (crypt key b) = b"
  by (simp add: crypt_def HyvCryptXor_twice split: option.splits)

lemma length_crypt: "length (crypt key b) = length b"
  by (simp add: crypt_def length_HyvCryptXor split: option.splits)

section \<open>Sending a packet\<close>

lemma sendPacket_eq:
  assumes "length buf = 4096"
  shows "sendPacket mal dispatch buf p s =
    (if 4096 < length (frame p) then Inl Out_of_bounds
     else case ss_kcp s of
            None \<Rightarrow> Inl Null_pointer
          | Some ks \<Rightarrow>
              let (r, ks') = ks_send mal (Some (crypt (send_key dispatch p s) (frame p))) ks
              in Inr (if r < 0 then -1 else 0, s\<lparr>ss_kcp := Some ks'\<rparr>))"
proof (cases "4096 < length (frame p)")
  case True
  with assms show ?thesis by (simp add: sendPacket_def packet_build_def)
next
  case False
  with assms have b: "packet_build p (Some buf) True =
      Inr (0, Some (frame p @ drop (length (frame p)) buf), Some (length (frame p)))"
    by (intro packet_build_ok) simp
  show ?thesis unfolding sendPacket_def b using False by (cases "ss_kcp s") (simp_all add: Let_def)
qed

lemma push_all_kcp:
  "ss_kcp s = Some ks \<Longrightarrow>
   push_all junk ds s = s\<lparr>ss_kcp := Some (ks\<lparr>ks_kcp := input_all junk ds (ks_kcp ks)\<rparr>)\<rparr>"
proof (induction ds arbitrary: s ks)
  case Nil
  then show ?case by (simp add: push_all_def input_all_def)
next
  case (Cons d ds)
  show ?case
  proof (cases "ikcp_input junk (ks_kcp ks) d")
    case None
    then show ?thesis using Cons by (simp add: push_all_def input_all_def pushToKcp_def)
  next
    case (Some r)
    obtain c k where r: "r = (c, k)" by fastforce
    have "push_all junk (d # ds) s = push_all junk ds (s\<lparr>ss_kcp := Some (ks\<lparr>ks_kcp := k\<rparr>)\<rparr>)"
      using Cons.prems Some r by (simp add: push_all_def pushToKcp_def)
    also have "\<dots> = s\<lparr>ss_kcp := Some (ks\<lparr>ks_kcp := input_all junk ds k\<rparr>)\<rparr>"
      using Cons.IH [of "s\<lparr>ss_kcp := Some (ks\<lparr>ks_kcp := k\<rparr>)\<rparr>" "ks\<lparr>ks_kcp := k\<rparr>"] by simp
    finally show ?thesis using Some r by (simp add: input_all_def)
  qed
qed

section \<open>From one session to the other\<close>

text \<open>
  A sender with nothing under way and room for three segments, the most a packet of 4096 bytes needs,
  and a receiver that expects its next segment.
\<close>

definition idle_sender :: "ikcpcb \<Rightarrow> bool" where
  "idle_sender k \<longleftrightarrow> mtu k = 1400 \<and> mss k = 1372 \<and> stream k = 0 \<and> snd_queue k = [] \<and> snd_buf k = []
     \<and> snd_una k = snd_nxt k \<and> updated k \<noteq> 0 \<and> unat (ackcount k) < 2 ^ 31 \<and> unat (snd_wnd k) < 2 ^ 31
     \<and> 3 \<le> unat (flush_window k)"

definition idle_receiver :: "ikcpcb \<Rightarrow> ikcpcb \<Rightarrow> bool" where
  "idle_receiver k1 k2 \<longleftrightarrow> conv k2 = conv k1 \<and> rcv_inv k2 \<and> rcv_queue k2 = [] \<and> rcv_buf k2 = []
     \<and> rcv_nxt k2 = snd_nxt k1 \<and> 3 \<le> unat (rcv_wnd k2)"

lemma frag_count_packet: "n \<le> 4096 \<Longrightarrow> frag_count 1372 n \<le> 3"
  using div_le_mono [of "n + 1372 - 1" "4096 + 1371" 1372] by (auto simp: frag_count_def)

lemma packet_delivery_kcp:
  assumes mal: "\<And>i. mal i = Some (blk i)"
    and send: "sendPacket mal d1 buf p s1 = Inr (r, s1')" "length buf = 4096" "ss_kcp s1 = Some ks1"
      "idle_sender (ks_kcp ks1)"
    and outs: "outs = fst (ikcp_flush j1 (ks_kcp (the (ss_kcp s1'))))" and ix: "set ix = {..<length outs}"
    and recv: "idle_receiver (ks_kcp ks1) k2"
  shows "\<exists>k'. ikcp_recv (input_all j2 (map (nth outs) ix) k2) True (16 * 1024) =
      (int (length (frame p)), crypt (send_key d1 p s1) (frame p), k')"
proof -
  let ?k = "ks_kcp ks1" and ?b = "crypt (send_key d1 p s1) (frame p)"
  have fit: "length (frame p) \<le> 4096" using send(1) unfolding sendPacket_eq [OF send(2)] by (auto split: if_splits)
  have s1': "ks_kcp (the (ss_kcp s1')) = snd (ikcp_send mal ?k (Some ?b) (int (length ?b)))"
    using send(1) fit unfolding sendPacket_eq [OF send(2)] send(3)
    by (auto simp: ks_send_def Let_def split: prod.splits)
  have len: "length ?b = length (frame p)" by (rule length_crypt)
  have f: "frag_count (unat (mss ?k)) (length ?b) \<le> 3"
    using send(4) fit len frag_count_packet [of "length ?b"] by (simp add: idle_sender_def)
  have "\<exists>k'. ikcp_recv (input_all j2 (map (nth outs) ix) k2) True (16 * 1024) = (int (length ?b), ?b, k')"
    by (rule message_arrives [OF mal, where ?k1.0 = ?k and ?j1.0 = j1])
      (use send(4) recv fit len f ix in \<open>auto simp: idle_sender_def idle_receiver_def outs s1'\<close>)
  then show ?thesis by (simp only: len)
qed

text \<open>What an iteration of the receiving session does with the message.\<close>

lemma packet_delivery:
  assumes mal: "\<And>i. mal i = Some (blk i)"
    and send: "sendPacket mal d1 buf p s1 = Inr (r, s1')" "length buf = 4096" "ss_kcp s1 = Some ks1"
      "idle_sender (ks_kcp ks1)"
    and outs: "outs = fst (ikcp_flush j1 (ks_kcp (the (ss_kcp s1'))))" and ix: "set ix = {..<length outs}"
    and recv: "ss_kcp (sl_session l) = Some ks2" "idle_receiver (ks_kcp ks1) (ks_kcp ks2)"
    and key: "receive_key d2 (sl_session l) (sl_key l) = send_key d1 p s1"
  shows "\<exists>k' q. pk_opcode q = pk_opcode p \<and> pk_header q = pk_header p \<and> pk_data q = pk_data p \<and>
    session_input hs d2 (l\<lparr>sl_session := push_all j2 (map (nth outs) ix) (sl_session l)\<rparr>) =
      (let s = (sl_session l)\<lparr>ss_kcp := Some (ks2\<lparr>ks_kcp := k'\<rparr>)\<rparr>;
           (ret, valid, s') = processPacket hs s q
       in Inr (valid \<and> ret < 0 \<and> ss_state s' \<le> S_NOT_CONNECTED,
               \<lparr>sl_session = s', sl_packet = q, sl_key = send_key d1 p s1\<rparr>))"
proof -
  have fit: "length (frame p) \<le> 4096" using send(1) unfolding sendPacket_eq [OF send(2)] by (auto split: if_splits)
  let ?s = "sl_session l" and ?msg = "crypt (send_key d1 p s1) (frame p)"
  obtain k' where k': "ikcp_recv (input_all j2 (map (nth outs) ix) (ks_kcp ks2)) True (16 * 1024) =
      (int (length (frame p)), ?msg, k')"
    using packet_delivery_kcp [OF mal send outs ix recv(2)] by blast
  then have rd: "ks_recv 16384 (ks2\<lparr>ks_kcp := input_all j2 (map (nth outs) ix) (ks_kcp ks2)\<rparr>) =
      (int (length (frame p)), ?msg, ks2\<lparr>ks_kcp := k'\<rparr>)"
    by (simp add: ks_recv_def)
  let ?q = "(sl_packet l)\<lparr>pk_opcode := pk_opcode p, pk_header := pk_header p, pk_data := pk_data p,
      pk_raw := Some (frame p)\<rparr>"
  have "packet_parse (Some (crypt (send_key d1 p s1) ?msg)) (sl_packet l) = Inr (0, ?q)"
    unfolding crypt_twice by (rule parse_frame [of p "[]"]) (use fit in \<open>simp_all add: length_frame\<close>)
  moreover have "receive_key d2 (?s\<lparr>ss_kcp := x\<rparr>) (sl_key l) = send_key d1 p s1" for x
    unfolding key [symmetric] receive_key_def by simp
  ultimately have "session_input hs d2 (l\<lparr>sl_session := push_all j2 (map (nth outs) ix) ?s\<rparr>) =
      (let s = ?s\<lparr>ss_kcp := Some (ks2\<lparr>ks_kcp := k'\<rparr>)\<rparr>;
           (ret, valid, s') = processPacket hs s ?q
       in Inr (valid \<and> ret < 0 \<and> ss_state s' \<le> S_NOT_CONNECTED,
               \<lparr>sl_session = s', sl_packet = ?q, sl_key = send_key d1 p s1\<rparr>))"
    unfolding push_all_kcp [OF recv(1)] session_input_def
    by (simp add: rd Let_def split: prod.splits)
  then show ?thesis by (intro exI [of _ k'] exI [of _ ?q]) simp
qed

section \<open>A new session\<close>

text \<open>The control block of a new session, and after its first tick.\<close>

lemma kcp_session_new_reach:
  assumes "kcp_session_new mal mm sid c g itv = Inr ks"
  shows "kcp_reach (mtu (ks_kcp ks)) (ks_kcp ks)"
proof -
  obtain k where k: "ikcp_create mal sid = Some k"
    "ks_kcp ks = (snd (ikcp_wndsize (snd (ikcp_setmtu mm (snd (ikcp_nodelay k 1 (sint (ucast itv :: i32)) 2 1)) 1400)) 256 256))\<lparr>logmask := 0\<rparr>"
    using assms by (auto simp: kcp_session_new_def Let_def split: if_splits option.splits)
  let ?k1 = "snd (ikcp_nodelay k 1 (sint (ucast itv :: i32)) 2 1)"
  let ?k3 = "snd (ikcp_wndsize (snd (ikcp_setmtu mm ?k1 1400)) 256 256)"
  have "logmask ?k3 = 0"
    using k(1) by (auto simp: ikcp_create_def ikcp_nodelay_def ikcp_setmtu_def ikcp_wndsize_def Let_def split: if_splits)
  then have "ks_kcp ks = ?k3" unfolding k(2) by simp
  obtain r k2 where k2: "ikcp_setmtu mm ?k1 1400 = (r, k2)" by fastforce
  have "snd_queue ?k1 = [] \<and> snd_buf ?k1 = []"
    using k(1) by (auto simp: ikcp_create_def ikcp_nodelay_def Let_def split: if_splits)
  then have "mtu_bound (mtu k) k2 = mtu k2"
    using k2 by (auto simp: mtu_bound_def ikcp_setmtu_def split: if_splits)
  moreover have "kcp_reach (mtu_bound (mtu k) k2) k2"
    by (rule kcp_reach.setmtu [where m = 1400, OF kcp_reach.set_nodelay [OF kcp_reach.create [OF k(1)]]]) (use k2 in simp)
  ultimately have "kcp_reach (mtu k2) k2" by simp
  then have "kcp_reach (mtu k2) (snd (ikcp_wndsize k2 256 256))"
    using kcp_reach.wndsize [where sw = 256 and rw = 256] by fastforce
  moreover have "mtu (snd (ikcp_wndsize k2 256 256)) = mtu k2" by (simp add: ikcp_wndsize_def Let_def)
  ultimately show ?thesis using k2 \<open>ks_kcp ks = ?k3\<close> by simp
qed

section \<open>The control block of a new session\<close>

definition fresh_kcp :: "u64 \<Rightarrow> u32 \<Rightarrow> ikcpcb" where
  "fresh_kcp sid itv =
     (the (ikcp_create (\<lambda>_. True) sid))\<lparr>nodelay := 1, rx_minrto := IKCP_RTO_NDL, interval := itv,
        fastresend := 2, nocwnd := 1, snd_wnd := 256, rcv_wnd := 256\<rparr>"

definition session_interval :: "u64 \<Rightarrow> u32" where
  "session_interval itv =
     (if 0 \<le> sint (ucast itv :: i32) then word_of_int (clamp_interval (sint (ucast itv :: i32))) else 100)"

lemma kcp_session_new_eq:
  assumes "kcp_session_new mal mm sid c g itv = Inr ks"
  shows "ks = \<lparr>ks_kcp = fresh_kcp sid (session_interval itv), ks_next = 0\<rparr>"
proof -
  have "mal 0" "mal (Suc 0)" "g" "c"
    using assms by (auto simp: kcp_session_new_def ikcp_create_def split: if_splits)
  then have "ikcp_create mal sid = ikcp_create (\<lambda>_. True) sid" by (simp add: ikcp_create_def)
  with assms \<open>g\<close> \<open>c\<close> show ?thesis
    by (cases mm; cases "0 \<le> sint (ucast itv :: i32)")
      (auto simp: kcp_session_new_def fresh_kcp_def ikcp_create_def ikcp_nodelay_def ikcp_setmtu_def
        ikcp_wndsize_def session_interval_def Let_def ikcp_consts imax_def)
qed

lemma flush_move_empty: "snd_queue k = [] \<Longrightarrow> flush_move w wnd k = k"
  by (subst flush_move.simps) simp

lemma flush_fresh:
  "ikcp_flush junk ((fresh_kcp sid itv)\<lparr>updated := 1, ts_flush := itv\<rparr>) =
     ([], (fresh_kcp sid itv)\<lparr>updated := 1, ts_flush := itv, cwnd := 1, incr := 1372\<rparr>)"
  by (simp add: ikcp_flush_def Let_def fresh_kcp_def ikcp_create_def ikcp_consts
      flush_probe_timer_def flush_probes_def flush_window_def flush_cwnd_def flush_move_empty imin_def
      ikcp_output_def)

lemma fresh_fields:
  "updated (fresh_kcp sid itv) = 0" "current (fresh_kcp sid itv) = 0" "interval (fresh_kcp sid itv) = itv"
  "(fresh_kcp sid itv)\<lparr>current := 0\<rparr> = fresh_kcp sid itv"
  by (simp_all add: fresh_kcp_def ikcp_create_def)

lemma fresh_update:
  "ikcp_update junk (fresh_kcp sid itv) 0 =
     ([], (fresh_kcp sid itv)\<lparr>updated := 1, ts_flush := itv, cwnd := 1, incr := 1372\<rparr>)"
proof -
  have "itimediff 0 0 = 0" by (simp add: itimediff_def)
  then show ?thesis by (simp add: ikcp_update_def Let_def fresh_fields flush_fresh)
qed

lemma ks_tick_fresh:
  assumes "kcp_session_new mal mm sid c g itv = Inr ks"
  shows "idle_sender (ks_kcp (snd (ks_update junk ms ks)))"
    and "fst (ks_update junk ms ks) = []"
    and "idle_receiver (ks_kcp (snd (ks_update junk ms ks))) (ks_kcp ks)"
proof -
  let ?k = "fresh_kcp sid (session_interval itv)"
  note ks = kcp_session_new_eq [OF assms]
  let ?k' = "?k\<lparr>updated := 1, ts_flush := session_interval itv, cwnd := 1, incr := 1372\<rparr>"
  have "ikcp_check ?k 0 = 0" by (simp add: ikcp_check_def fresh_kcp_def ikcp_create_def)
  then have u: "ks_update junk ms ks =
      ([], \<lparr>ks_kcp = ?k', ks_next = ms\<rparr>)"
    by (simp add: ks_update_def ks fresh_update Let_def)
  show "fst (ks_update junk ms ks) = []" by (simp add: u)
  show "idle_sender (ks_kcp (snd (ks_update junk ms ks)))"
    by (simp add: u idle_sender_def fresh_kcp_def ikcp_create_def ikcp_consts flush_window_def imin_def Let_def)
  have "rcv_inv (ks_kcp ks)"
    using kcp_reach_inv [OF kcp_session_new_reach [OF assms]] by (simp add: kcp_inv_def)
  then show "idle_receiver (ks_kcp (snd (ks_update junk ms ks))) (ks_kcp ks)"
    unfolding u idle_receiver_def by (simp add: ks fresh_kcp_def ikcp_create_def)
qed

section \<open>How an iteration of the loop ends\<close>

lemma processPacket_valid:
  "processPacket hs s p = (r, False, s') \<Longrightarrow> s' = s \<and> r = - int (unat (pk_opcode p))"
  by (auto simp: processPacket_def Let_def split: if_splits prod.splits)

lemma session_close_state:
  "ss_kcp (snd (session_close reason s)) = None" "ss_state (snd (session_close reason s)) = 0"
  "\<not> ss_player (snd (session_close reason s))"
  by (simp_all add: session_close_def Let_def S_NOT_CONNECTED_def)

lemma session_step_cases:
  assumes "session_step hs d junk now l = Inr (e, out, l')"
  shows "case e of
      Broken \<Rightarrow> out = [] \<and> ss_state (sl_session l') \<le> 0
    | Timed_out \<Rightarrow> ss_kcp (sl_session l') = None \<and> ss_state (sl_session l') = 0 \<and> out \<noteq> [] \<and> length (last out) = 20
    | Again \<Rightarrow> ss_kcp (sl_session l') \<noteq> None \<and> now \<le> ss_ping (sl_session l') + 30000"
proof -
  obtain b l1 where i: "session_input hs d l = Inr (b, l1)"
    using assms by (auto simp: session_step_def split: sum.splits prod.splits bool.splits)
  show ?thesis
  proof (cases b)
    case True
    with i have "ss_state (sl_session l1) \<le> 0"
      by (auto simp: session_input_def S_NOT_CONNECTED_def Let_def
          split: option.splits sum.splits prod.splits if_splits)
    with True i assms show ?thesis by (simp add: session_step_def)
  next
    case False
    with i assms show ?thesis
      by (auto simp: session_step_def session_close_def handshake_def Let_def not_less S_NOT_CONNECTED_def
          split: option.splits prod.splits if_splits)
  qed
qed

section \<open>A silent peer\<close>

text \<open>Flushing and the tick of a session leave alone what waits for the reader, and the session's number.\<close>

lemma flush_keeps_reader:
  "rcv_queue (snd (ikcp_flush junk k)) = rcv_queue k" "conv (snd (ikcp_flush junk k)) = conv k"
proof -
  have m: "rcv_queue (flush_move w wnd k) = rcv_queue k" "conv (flush_move w wnd k) = conv k" for w wnd k
    by (induction w wnd k rule: flush_move.induct; subst flush_move.simps; auto split: list.splits)+
  have c: "conv (flush_cwnd w r ch lo k) = conv k" "conv (flush_probe_timer k) = conv k" for w r ch lo k
    by (simp_all add: flush_cwnd_def flush_probe_timer_def Let_def)
  show "rcv_queue (snd (ikcp_flush junk k)) = rcv_queue k" "conv (snd (ikcp_flush junk k)) = conv k"
    by (simp_all add: ikcp_flush_def Let_def m c flush_cwnd_rest flush_probe_rest split: prod.splits)
qed

lemma ks_update_keeps_reader:
  "rcv_queue (ks_kcp (snd (ks_update junk ms ks))) = rcv_queue (ks_kcp ks)"
  "conv (ks_kcp (snd (ks_update junk ms ks))) = conv (ks_kcp ks)"
proof -
  have "rcv_queue (snd (ikcp_update junk k now)) = rcv_queue k \<and> conv (snd (ikcp_update junk k now)) = conv k" for k now
    by (simp add: ikcp_update_def Let_def flush_keeps_reader split: prod.splits)
  then show "rcv_queue (ks_kcp (snd (ks_update junk ms ks))) = rcv_queue (ks_kcp ks)"
    "conv (ks_kcp (snd (ks_update junk ms ks))) = conv (ks_kcp ks)"
    by (simp_all add: ks_update_def Let_def split_def)
qed

definition farewell :: "u32 \<Rightarrow> kcp_session \<Rightarrow> bytes" where
  "farewell reason ks = handshake 0x194 (conv (ks_kcp ks)) reason 0x19419494"

definition shut :: "session_loop \<Rightarrow> session_loop" where
  "shut l = l\<lparr>sl_session := (sl_session l)\<lparr>ss_kcp := None, ss_player := False, ss_state := 0\<rparr>\<rparr>"

lemma same_loop: "ss_kcp (sl_session l) = Some ks \<Longrightarrow> l\<lparr>sl_session := (sl_session l)\<lparr>ss_kcp := Some ks\<rparr>\<rparr> = l"
  by (cases l; cases "sl_session l") simp

text \<open>An iteration with nothing to read only ticks the control block and looks at the clock.\<close>

lemma session_step_silent:
  assumes "ss_kcp (sl_session l) = Some ks" "rcv_queue (ks_kcp ks) = []"
  shows "session_step hs d junk now l =
    (let (out, ks') = ks_update junk 50 ks
     in if ss_ping (sl_session l) + 30000 < now then Inr (Timed_out, out @ [farewell 10 ks], shut l)
        else Inr (Again, out, l\<lparr>sl_session := (sl_session l)\<lparr>ss_kcp := Some ks'\<rparr>\<rparr>))"
proof -
  have "ks_recv 16384 ks = (-1, [], ks)"
    using assms(2) by (simp add: ks_recv_def ikcp_recv_def)
  then have "session_input hs d l = Inr (False, l)"
    using assms(1) same_loop [OF assms(1)] by (simp add: session_input_def Let_def)
  then show ?thesis
    using ks_update_keeps_reader(2) [of junk 50 ks] assms(1)
    by (cases "ks_update junk 50 ks")
      (simp add: session_step_def session_close_def farewell_def shut_def getSessionId_def S_NOT_CONNECTED_def Let_def)
qed

lemma SessionMain_closed:
  assumes "ss_kcp (sl_session l) = Some ks" "ss_state (sl_session l) \<le> 0"
  shows "SessionMain hs d junk (([], now) # world) l = Inr ([farewell 3 ks], shut l)"
proof -
  have "l\<lparr>sl_session := push_all junk [] (sl_session l)\<rparr> = l" by (simp add: push_all_def)
  then show ?thesis
    using assms by (simp add: session_close_def farewell_def shut_def getSessionId_def S_NOT_CONNECTED_def Let_def)
qed

lemma SessionMain_silent:
  assumes "ss_kcp (sl_session l) = Some ks" "rcv_queue (ks_kcp ks) = []" "0 < ss_state (sl_session l)"
    "\<forall>t\<in>set ts. t \<le> ss_ping (sl_session l) + 30000"
  shows "\<exists>out ks'. rcv_queue (ks_kcp ks') = [] \<and> conv (ks_kcp ks') = conv (ks_kcp ks) \<and>
    (\<forall>world. SessionMain hs d junk (map (Pair []) ts @ world) l =
      (case SessionMain hs d junk world (l\<lparr>sl_session := (sl_session l)\<lparr>ss_kcp := Some ks'\<rparr>\<rparr>) of
         Inl f \<Rightarrow> Inl f | Inr (out', l') \<Rightarrow> Inr (out @ out', l')))"
  using assms
proof (induction ts arbitrary: l ks)
  case Nil
  then show ?case
    by (intro exI [of _ "[]"] exI [of _ ks]) (simp add: same_loop split: sum.splits prod.splits)
next
  case (Cons t ts)
  obtain o1 k1 where u: "ks_update junk 50 ks = (o1, k1)" by fastforce
  let ?l = "l\<lparr>sl_session := (sl_session l)\<lparr>ss_kcp := Some k1\<rparr>\<rparr>"
  have keep: "rcv_queue (ks_kcp k1) = []" "conv (ks_kcp k1) = conv (ks_kcp ks)"
    using ks_update_keeps_reader [of junk 50 ks] u Cons.prems(2) by simp_all
  have st: "session_step hs d junk t l = Inr (Again, o1, ?l)"
    using session_step_silent [OF Cons.prems(1,2)] Cons.prems(4) u by (simp add: not_less)
  have "l\<lparr>sl_session := push_all junk [] (sl_session l)\<rparr> = l" by (simp add: push_all_def)
  then have run: "SessionMain hs d junk (([], t) # world) l =
      (case SessionMain hs d junk world ?l of Inl f \<Rightarrow> Inl f | Inr (out', l') \<Rightarrow> Inr (o1 @ out', l'))" for world
    using Cons.prems(3) st by (simp add: S_NOT_CONNECTED_def)
  have "\<exists>out ks'. rcv_queue (ks_kcp ks') = [] \<and> conv (ks_kcp ks') = conv (ks_kcp k1) \<and>
    (\<forall>world. SessionMain hs d junk (map (Pair []) ts @ world) ?l =
      (case SessionMain hs d junk world (?l\<lparr>sl_session := (sl_session ?l)\<lparr>ss_kcp := Some ks'\<rparr>\<rparr>) of
         Inl f \<Rightarrow> Inl f | Inr (out', l') \<Rightarrow> Inr (out @ out', l')))"
    using Cons.prems(3,4) keep by (intro Cons.IH) simp_all
  then obtain out ks' where r: "rcv_queue (ks_kcp ks') = []" "conv (ks_kcp ks') = conv (ks_kcp k1)"
    "\<And>world. SessionMain hs d junk (map (Pair []) ts @ world) ?l =
      (case SessionMain hs d junk world (?l\<lparr>sl_session := (sl_session ?l)\<lparr>ss_kcp := Some ks'\<rparr>\<rparr>) of
         Inl f \<Rightarrow> Inl f | Inr (out', l') \<Rightarrow> Inr (out @ out', l'))" by blast
  show ?case
    by (intro exI [of _ "o1 @ out"] exI [of _ ks'])
      (use r keep in \<open>simp add: run del: SessionMain.simps split: sum.splits prod.splits\<close>)
qed

end
