(* ===== verification/Net_Properties.thy ===== *)
theory Net_Properties
  imports Session_Props
begin

unbundle bit_operations_syntax

text \<open>
  The properties of the packet framing and of the session on top of KCP: theories \<open>Packet\<close> and
  \<open>Session\<close>.
\<close>

section \<open>Concrete sessions for the witnesses\<close>

definition blank_seg :: ikcpseg where
  "blank_seg = \<lparr>seg_conv = 0, seg_cmd = 0, seg_frg = 0, seg_wnd = 0, seg_ts = 0, seg_sn = 0, seg_una = 0,
     seg_len = 0, seg_resendts = 0, seg_rto = 0, seg_fastack = 0, seg_xmit = 0, seg_data = []\<rparr>"

definition sample_session :: "kcp_session \<Rightarrow> session" where
  "sample_session ks = \<lparr>ss_kcp = Some ks, ss_player = False, ss_state = S_TOKEN_WAIT, ss_secret = False,
     ss_seq = 10, ss_seed = 0, ss_ping = 0, ss_key = replicate 4096 0\<rparr>"

definition sample_handlers :: handlers where
  "sample_handlers = (let f = (\<lambda>s h d. (0, s)) in \<lparr>h_ping = f, h_token = f, h_login = f, h_scene_ready = f,
     h_scene_init = f, h_blacklist = f\<rparr>)"

definition sample_packet :: packet where
  "sample_packet = (new_packet 5)\<lparr>pk_header := [1, 2], pk_data := [3, 4, 5]\<rparr>"

definition sample_loop :: "kcp_session \<Rightarrow> session_loop" where
  "sample_loop ks = \<lparr>sl_session = sample_session ks, sl_packet = new_packet 0, sl_key = None\<rparr>"

lemma sample_ks: "\<exists>ks. kcp_session_new (\<lambda>_. True) True 7 True True 100 = Inr ks"
  by (simp add: kcp_session_new_def ikcp_create_def Let_def)

lemma sample_timeout:
  assumes "kcp_session_new (\<lambda>_. True) True 7 True True 100 = Inr ks"
  shows "\<exists>out l'. session_step sample_handlers None blank_seg 40000 (sample_loop ks) = Inr (Timed_out, out, l')"
proof -
  have "ikcp_recv (fresh_kcp 7 (session_interval 100)) True 16384 = (-1, [], fresh_kcp 7 (session_interval 100))"
    by (simp add: ikcp_recv_def fresh_kcp_def ikcp_create_def)
  then have "session_input sample_handlers None (sample_loop ks) = Inr (False, sample_loop ks)"
    by (simp add: session_input_def sample_loop_def sample_session_def ks_recv_def kcp_session_new_eq [OF assms] Let_def)
  then show ?thesis
    by (cases "ks_update blank_seg 50 ks")
      (simp add: session_step_def sample_loop_def sample_session_def session_close_def Let_def)
qed

section \<open>Packets between sessions\<close>

text \<open>
  C16. A packet given to \<open>sendPacket\<close> reaches the other side's handler: when the sending session is
  idle and the receiving one waits for its next segment, both use the same key, and the datagrams of
  the next flush arrive in any order and number (each at least once), the iteration of the receiving
  loop decrypts, parses and dispatches a packet with the same opcode, header and data. The frame, the
  encryption, the fragmentation into KCP segments and their reassembly are those of the code.
\<close>

theorem packet_reaches_handler:
  assumes "\<And>i. mal i = Some (blk i)"
    and "sendPacket mal d1 buf p s1 = Inr (r, s1')" "length buf = 4096" "ss_kcp s1 = Some ks1"
      "idle_sender (ks_kcp ks1)"
    and "outs = fst (ikcp_flush j1 (ks_kcp (the (ss_kcp s1'))))" "set ix = {..<length outs}"
    and "ss_kcp (sl_session l) = Some ks2" "idle_receiver (ks_kcp ks1) (ks_kcp ks2)"
    and "receive_key d2 (sl_session l) (sl_key l) = send_key d1 p s1"
  shows "\<exists>k' q. pk_opcode q = pk_opcode p \<and> pk_header q = pk_header p \<and> pk_data q = pk_data p \<and>
    session_input hs d2 (l\<lparr>sl_session := push_all j2 (map (nth outs) ix) (sl_session l)\<rparr>) =
      (let s = (sl_session l)\<lparr>ss_kcp := Some (ks2\<lparr>ks_kcp := k'\<rparr>)\<rparr>;
           (ret, valid, s') = processPacket hs s q
       in Inr (valid \<and> ret < 0 \<and> ss_state s' \<le> S_NOT_CONNECTED,
               \<lparr>sl_session = s', sl_packet = q, sl_key = send_key d1 p s1\<rparr>))"
  by (rule packet_delivery [OF assms])

theorem packet_reaches_handler_witness:
  "\<exists>ks ks1 r s1' l'. kcp_session_new (\<lambda>_. True) True 7 True True 100 = Inr ks
     \<and> ks1 = snd (ks_update blank_seg 50 ks)
     \<and> sendPacket (\<lambda>_. Some blank_seg) None (replicate 4096 0) sample_packet (sample_session ks1) = Inr (r, s1')
     \<and> session_input sample_handlers None ((sample_loop ks)\<lparr>sl_session := push_all blank_seg
          (fst (ikcp_flush blank_seg (ks_kcp (the (ss_kcp s1'))))) (sample_session ks)\<rparr>) = Inr (False, l')
     \<and> pk_data (sl_packet l') = [3, 4, 5]"
proof -
  obtain ks where ks: "kcp_session_new (\<lambda>_. True) True 7 True True 100 = Inr ks" using sample_ks by blast
  let ?ks1 = "snd (ks_update blank_seg 50 ks)"
  note idle = ks_tick_fresh [OF ks, of blank_seg 50]
  let ?snd = "sendPacket (\<lambda>_. Some blank_seg) None (replicate 4096 0) sample_packet (sample_session ?ks1)"
  have len: "length (replicate 4096 (0 :: u8)) = 4096" by simp
  have fr: "length (frame sample_packet) = 17" by (simp add: length_frame sample_packet_def new_packet_def)
  obtain r s1' where snd: "?snd = Inr (r, s1')"
    unfolding sendPacket_eq [OF len] fr by (cases "ks_send (\<lambda>_. Some blank_seg)
      (Some (crypt (send_key None sample_packet (sample_session ?ks1)) (frame sample_packet))) ?ks1")
      (auto simp: sample_session_def)
  let ?o = "fst (ikcp_flush blank_seg (ks_kcp (the (ss_kcp s1'))))"
  have m: "map (nth ?o) [0..<length ?o] = ?o" by (rule map_nth)
  have k: "ss_kcp (sample_session ?ks1) = Some ?ks1" "ss_kcp (sl_session (sample_loop ks)) = Some ks"
    "receive_key None (sl_session (sample_loop ks)) (sl_key (sample_loop ks)) =
      send_key None sample_packet (sample_session ?ks1)" "sl_session (sample_loop ks) = sample_session ks"
    by (simp_all add: sample_session_def sample_loop_def receive_key_def send_key_def)
  have ix: "set [0..<length ?o] = {..<length ?o}" by auto
  have "\<exists>k' q. pk_opcode q = pk_opcode sample_packet \<and> pk_header q = pk_header sample_packet \<and>
      pk_data q = pk_data sample_packet \<and>
      session_input sample_handlers None ((sample_loop ks)\<lparr>sl_session := push_all blank_seg ?o (sample_session ks)\<rparr>) =
      (let s = (sample_session ks)\<lparr>ss_kcp := Some (ks\<lparr>ks_kcp := k'\<rparr>)\<rparr>;
           (ret, valid, s') = processPacket sample_handlers s q
       in Inr (valid \<and> ret < 0 \<and> ss_state s' \<le> S_NOT_CONNECTED,
               \<lparr>sl_session = s', sl_packet = q, sl_key = send_key None sample_packet (sample_session ?ks1)\<rparr>))"
    using packet_reaches_handler [OF refl snd len k(1) idle(1) refl ix k(2) idle(3) k(3), where hs = sample_handlers
        and ?j2.0 = blank_seg] unfolding m k(4) .
  then obtain k' q where q: "pk_opcode q = 5" "pk_data q = [3, 4, 5]" and i:
    "session_input sample_handlers None ((sample_loop ks)\<lparr>sl_session := push_all blank_seg ?o (sample_session ks)\<rparr>) =
      (let s = (sample_session ks)\<lparr>ss_kcp := Some (ks\<lparr>ks_kcp := k'\<rparr>)\<rparr>;
           (ret, valid, s') = processPacket sample_handlers s q
       in Inr (valid \<and> ret < 0 \<and> ss_state s' \<le> S_NOT_CONNECTED,
               \<lparr>sl_session = s', sl_packet = q, sl_key = send_key None sample_packet (sample_session ?ks1)\<rparr>))"
    by (auto simp: sample_packet_def new_packet_def)
  have "processPacket sample_handlers s q = (0, True, s)" for s
    by (simp add: processPacket_def q PingReq_def sample_handlers_def Let_def)
  with i have "session_input sample_handlers None ((sample_loop ks)\<lparr>sl_session := push_all blank_seg ?o (sample_session ks)\<rparr>) =
      Inr (False, \<lparr>sl_session = (sample_session ks)\<lparr>ss_kcp := Some (ks\<lparr>ks_kcp := k'\<rparr>)\<rparr>, sl_packet = q,
        sl_key = send_key None sample_packet (sample_session ?ks1)\<rparr>)"
    by (simp add: Let_def)
  with ks snd q(2) show ?thesis by fastforce
qed

text \<open>
  Framing is exact: below 2 GiB of claimed data, \<open>parse\<close> never faults; it accepts a buffer exactly
  when the buffer starts with the frame \<open>build\<close> writes for some packet with a header below 64 KiB, and
  returns that packet's opcode, header and data.
\<close>

theorem packet_framing_exact:
  assumes "claimed buf < 2 ^ 31" "length buf < 2 ^ 63"
  shows "case packet_parse (Some buf) q of
      Inl f \<Rightarrow> False
    | Inr (r, q') \<Rightarrow>
        (if r = 0 then (\<exists>tail. buf = frame q' @ tail) \<and> length (pk_header q') < 2 ^ 16
         else r = -1 \<and> \<not> (\<exists>p tail. buf = frame p @ tail \<and> length (pk_header p) < 2 ^ 16
                            \<and> length (pk_data p) < 2 ^ 31 \<and> length tail < 2 ^ 31))"
proof -
  obtain q' where q': "packet_parse (Some buf) q = Inr (-1, q') \<or>
    packet_parse (Some buf) q = Inr (0, q') \<and>
      (\<exists>tail. buf = frame q' @ tail) \<and> length (pk_header q') < 2 ^ 16 \<and> length (pk_data q') < 2 ^ 31"
    using parse_small [OF assms] by blast
  moreover have "fst (projr (packet_parse (Some buf) q)) = 0"
    if "buf = frame p @ tail" "length (pk_header p) < 2 ^ 16" "length (pk_data p) < 2 ^ 31" "length tail < 2 ^ 31" for p tail
    using parse_frame [OF that(2-4,1), of q] by simp
  ultimately show ?thesis by force
qed

theorem packet_framing_exact_witness:
  "\<exists>q'. packet_parse (Some (frame sample_packet)) (new_packet 0) = Inr (0, q')
     \<and> (\<exists>tail. frame sample_packet = frame q' @ tail)"
proof -
  have "claimed (frame sample_packet) < 2 ^ 31"
    using frame_fields(4,5) [of "frame sample_packet" sample_packet "[]"]
    by (simp add: claimed_def sample_packet_def new_packet_def)
  moreover have "length (frame sample_packet) < 2 ^ 63"
    by (simp add: length_frame sample_packet_def new_packet_def)
  ultimately have c: "case packet_parse (Some (frame sample_packet)) (new_packet 0) of Inl f \<Rightarrow> False
    | Inr (r, q') \<Rightarrow>
        (if r = 0 then (\<exists>tail. frame sample_packet = frame q' @ tail) \<and> length (pk_header q') < 2 ^ 16
         else r = -1 \<and> \<not> (\<exists>p tail. frame sample_packet = frame p @ tail \<and> length (pk_header p) < 2 ^ 16
                            \<and> length (pk_data p) < 2 ^ 31 \<and> length tail < 2 ^ 31))"
    by (rule packet_framing_exact)
  obtain q' where "packet_parse (Some (frame sample_packet)) (new_packet 0) = Inr (0, q')"
    using parse_frame [of sample_packet "[]"] by (simp add: sample_packet_def new_packet_def)
  with c have "\<exists>tail. frame sample_packet = frame q' @ tail" by simp
  with \<open>packet_parse _ _ = _\<close> show ?thesis by blast
qed

text \<open>
  \<open>sendPacket\<close> on every branch: a frame above the 4096 bytes of its static buffer is written past
  the end of it, a closed session is a null pointer, and otherwise the frame, encrypted with the
  session key or the dispatch key, goes to \<open>ikcp_send\<close> and the code is 0 or -1 as that succeeds.
\<close>

theorem send_packet_outcome:
  assumes "length buf = 4096"
  shows "sendPacket mal dispatch buf p s =
    (if 4096 < 12 + length (pk_header p) + length (pk_data p) then Inl Out_of_bounds
     else case ss_kcp s of
            None \<Rightarrow> Inl Null_pointer
          | Some ks \<Rightarrow>
              let msg = crypt (if \<not> pk_dispatch p \<and> ss_secret s then Some (ss_key s) else dispatch) (frame p);
                  (r, k) = ikcp_send mal (ks_kcp ks) (Some msg) (int (length msg))
              in Inr (if r < 0 then -1 else 0, s\<lparr>ss_kcp := Some (ks\<lparr>ks_kcp := k\<rparr>)\<rparr>))"
  unfolding sendPacket_eq [OF assms] length_frame
  by (simp add: ks_send_def send_key_def Let_def split: option.splits prod.splits)

theorem send_packet_outcome_witness:
  "\<exists>ks. sendPacket (\<lambda>_. None) None (replicate 4096 0) (sample_packet\<lparr>pk_data := replicate 4083 0\<rparr>) (sample_session ks)
     = Inl Out_of_bounds"
  using send_packet_outcome [of "replicate 4096 0" "\<lambda>_. None" None "sample_packet\<lparr>pk_data := replicate 4083 0\<rparr>"]
  by (simp add: sample_packet_def new_packet_def)

section \<open>Sessions\<close>

text \<open>
  A new session is sound and ready: its control block satisfies the invariant of every reachable
  one, carries the session id, has windows of 256, and after the first tick of the loop, which sends
  nothing, it can send a packet that a peer with the same id can receive.
\<close>

theorem new_session_ready:
  assumes "session_new mal mm sid c g itv now raw = Inr s"
  shows "\<exists>ks. ss_kcp s = Some ks \<and> kcp_inv (mtu (ks_kcp ks)) (ks_kcp ks) \<and> getSessionId ks = sid
    \<and> snd_wnd (ks_kcp ks) = 256 \<and> rcv_wnd (ks_kcp ks) = 256 \<and> ss_state s = S_TOKEN_WAIT \<and> ss_ping s = now
    \<and> fst (ks_update junk ms ks) = []
    \<and> idle_sender (ks_kcp (snd (ks_update junk ms ks)))
    \<and> idle_receiver (ks_kcp (snd (ks_update junk ms ks))) (ks_kcp ks)"
proof -
  obtain ks where ks: "kcp_session_new mal mm sid c g itv = Inr ks" "ss_kcp s = Some ks"
    "ss_state s = S_TOKEN_WAIT" "ss_ping s = now"
    using assms by (auto simp: session_new_def split: sum.splits)
  have "kcp_inv (mtu (ks_kcp ks)) (ks_kcp ks)" by (rule kcp_reach_inv [OF kcp_session_new_reach [OF ks(1)]])
  moreover have "getSessionId ks = sid" "snd_wnd (ks_kcp ks) = 256" "rcv_wnd (ks_kcp ks) = 256"
    unfolding kcp_session_new_eq [OF ks(1)] by (simp_all add: getSessionId_def fresh_kcp_def ikcp_create_def)
  ultimately show ?thesis using ks(2-4) ks_tick_fresh [OF ks(1), of junk ms] by blast
qed

theorem new_session_ready_witness:
  "\<exists>s ks. session_new (\<lambda>_. True) True 7 True True 100 5 (sample_session ks) = Inr s \<and> ss_ping s = 5"
proof -
  obtain ks where "kcp_session_new (\<lambda>_. True) True 7 True True 100 = Inr ks" using sample_ks by blast
  then obtain s where s: "session_new (\<lambda>_. True) True 7 True True 100 5 (sample_session ks) = Inr s"
    by (simp add: session_new_def)
  with new_session_ready [OF s, of blank_seg 50] show ?thesis by blast
qed

text \<open>
  How an iteration of the session loop ends: it breaks off silently only when a handler left the
  session disconnected; it times out, with the session closed and a farewell datagram of 20 bytes as
  the last one sent, or goes on with the connection alive and a ping within the last 30 seconds.
\<close>

theorem session_iteration_outcome:
  assumes "session_step hs d junk now l = Inr (e, out, l')"
  shows "case e of
      Broken \<Rightarrow> out = [] \<and> ss_state (sl_session l') \<le> 0
    | Timed_out \<Rightarrow> ss_kcp (sl_session l') = None \<and> ss_state (sl_session l') = 0 \<and> out \<noteq> [] \<and> length (last out) = 20
    | Again \<Rightarrow> ss_kcp (sl_session l') \<noteq> None \<and> now \<le> ss_ping (sl_session l') + 30000"
  by (rule session_step_cases [OF assms])

theorem session_iteration_outcome_witness:
  "\<exists>ks out l'. session_step sample_handlers None blank_seg 40000 (sample_loop ks) = Inr (Timed_out, out, l')
     \<and> ss_kcp (sl_session l') = None"
proof -
  obtain ks where ks: "kcp_session_new (\<lambda>_. True) True 7 True True 100 = Inr ks" using sample_ks by blast
  then obtain out l' where st: "session_step sample_handlers None blank_seg 40000 (sample_loop ks) = Inr (Timed_out, out, l')"
    using sample_timeout by blast
  with session_iteration_outcome [OF st] show ?thesis by auto
qed

text \<open>
  C17. The session loop with a peer that has gone silent (nothing waits in its receive queue and no
  datagram arrives any more), whatever the handlers and the keys. A session that is no longer connected
  reads and updates nothing: it is closed at once, with the farewell of reason 3. A connected one goes on
  with the same state as long as each look at the clock finds the last ping at most 30000 ms back, and at
  the first later look it is closed: the loop returns there whatever would come after, the session is
  disconnected with its control block and player gone, and the last datagram sent is the farewell of
  reason 10 with the session's own number.
\<close>

theorem session_loop_ends:
  assumes "ss_kcp (sl_session l) = Some ks" "rcv_queue (ks_kcp ks) = []"
    and "\<forall>t\<in>set ts. t \<le> ss_ping (sl_session l) + 30000" "ss_ping (sl_session l) + 30000 < now"
  shows "if ss_state (sl_session l) \<le> 0
    then \<forall>t later. SessionMain hs d junk (([], t) # later) l = Inr ([farewell 3 ks], shut l)
    else (\<exists>out ks'. SessionMain hs d junk (map (Pair []) ts) l =
              Inr (out, l\<lparr>sl_session := (sl_session l)\<lparr>ss_kcp := Some ks'\<rparr>\<rparr>))
      \<and> (\<exists>out. \<forall>later. SessionMain hs d junk (map (Pair []) ts @ ([], now) # later) l =
              Inr (out @ [farewell 10 ks], shut l))"
proof (cases "ss_state (sl_session l) \<le> 0")
  case True
  with SessionMain_closed [OF assms(1)] show ?thesis by simp
next
  case False
  obtain out ks' where r: "rcv_queue (ks_kcp ks') = []" "conv (ks_kcp ks') = conv (ks_kcp ks)"
    "\<And>world. SessionMain hs d junk (map (Pair []) ts @ world) l =
      (case SessionMain hs d junk world (l\<lparr>sl_session := (sl_session l)\<lparr>ss_kcp := Some ks'\<rparr>\<rparr>) of
         Inl f \<Rightarrow> Inl f | Inr (out', l') \<Rightarrow> Inr (out @ out', l'))"
    using SessionMain_silent [OF assms(1,2) _ assms(3)] False by (metis not_le)
  let ?l = "l\<lparr>sl_session := (sl_session l)\<lparr>ss_kcp := Some ks'\<rparr>\<rparr>"
  obtain o2 k2 where u: "ks_update junk 50 ks' = (o2, k2)" by fastforce
  have "farewell 10 ks' = farewell 10 ks" "shut ?l = shut l" using r(2) by (simp_all add: farewell_def shut_def)
  then have "session_step hs d junk now ?l = Inr (Timed_out, o2 @ [farewell 10 ks], shut l)"
    using session_step_silent [of ?l ks' hs d junk now] r(1) u assms(4) by simp
  moreover have "?l\<lparr>sl_session := push_all junk [] (sl_session ?l)\<rparr> = ?l" by (simp add: push_all_def)
  ultimately have "SessionMain hs d junk (([], now) # later) ?l = Inr (o2 @ [farewell 10 ks], shut l)" for later
    using False by (simp add: S_NOT_CONNECTED_def)
  then have "\<exists>out. \<forall>later. SessionMain hs d junk (map (Pair []) ts @ ([], now) # later) l = Inr (out @ [farewell 10 ks], shut l)"
    by (intro exI [of _ "out @ o2"]) (simp add: r(3))
  moreover have "SessionMain hs d junk (map (Pair []) ts) l = Inr (out, ?l)"
    using r(3) [of "[]"] by simp
  ultimately show ?thesis using False by auto
qed

theorem session_loop_ends_witness:
  "\<exists>ks out. SessionMain sample_handlers None blank_seg [([], 20000), ([], 30000), ([], 40000), ([[1]], 0)] (sample_loop ks) =
     Inr (out @ [farewell 10 ks], shut (sample_loop ks))"
proof -
  obtain ks where ks: "kcp_session_new (\<lambda>_. True) True 7 True True 100 = Inr ks" using sample_ks by blast
  have "rcv_queue (ks_kcp ks) = []" "ss_kcp (sl_session (sample_loop ks)) = Some ks"
    "ss_ping (sl_session (sample_loop ks)) = 0" "ss_state (sl_session (sample_loop ks)) = 1"
    by (simp_all add: kcp_session_new_eq [OF ks] fresh_kcp_def ikcp_create_def sample_loop_def sample_session_def S_TOKEN_WAIT_def)
  with session_loop_ends [of "sample_loop ks" ks "[20000, 30000]" 40000 sample_handlers None blank_seg]
  show ?thesis by auto
qed

text \<open>
  \<open>generateSessionKey\<close> stores the 512 numbers the Mersenne twister gives for the drawn seed, each most
  significant byte first, whatever key was there and whatever state the twister was in.
\<close>

theorem session_key_contents:
  assumes "mt_ok m" "length (ss_key s) = 4096"
  shows "ss_key (fst (generateSessionKey rnd s m)) =
      concat (map (\<lambda>i. rev (store_le 8 (mt_output rnd i))) [0..<512])
    \<and> ss_seed (fst (generateSessionKey rnd s m)) = rnd \<and> length (ss_key (fst (generateSessionKey rnd s m))) = 4096"
proof -
  have "concat (map (\<lambda>i. rev (store_le 8 (mt_output rnd i))) [0..<512]) =
      words_of (map (\<lambda>i. htobe64 (mt_output rnd i)) [0..<512])"
    by (simp add: words_of_def o_def store_htobe)
  then show ?thesis
    using assms(2) genXorpad_plain [OF assms(1), of rnd "take 4096 (ss_key s)" True]
    by (simp add: generateSessionKey_def length_words_of)
qed

theorem session_key_contents_witness:
  "\<exists>ks. length (ss_key (fst (generateSessionKey 9 (sample_session ks) mt_boot))) = 4096"
proof -
  have "length (ss_key (sample_session ks)) = 4096" for ks by (simp add: sample_session_def)
  from session_key_contents [OF mt_ok_boot this, of 9] show ?thesis by blast
qed

end
