(* ===== verification/Gameserver.thy ===== *)
theory Gameserver
  imports Session_Props
begin

unbundle bit_operations_syntax

text \<open>
  \<open>src/gameserver.cpp\<close>: the UDP server in front of the sessions. It holds the table of the sessions,
  gives each datagram to the session it belongs to, closes sessions on request and admits new clients
  by a handshake. What it sends is the list of the datagrams an operation returns.
\<close>

section \<open>The server object\<close>

text \<open>
  The socket is open or not; \<open>gs_list\<close> is the array behind \<open>sessionList\<close>, with \<open>maxSessions\<close> entries
  when it is allocated.
\<close>

type_synonym slots = "session option list"

record gameserver =
  gs_open :: bool
  gs_interval :: u64
  gs_max :: u32
  gs_list :: "slots option"

definition gameserver_new :: gameserver where
  "gameserver_new = \<lparr>gs_open = False, gs_interval = 100, gs_max = 10, gs_list = None\<rparr>"

text \<open>\<open>start\<close>: whether \<open>socket\<close>, \<open>bind\<close> and \<open>malloc\<close> succeed are arguments.\<close>

definition gs_start :: "bool \<Rightarrow> bool \<Rightarrow> bool \<Rightarrow> gameserver \<Rightarrow> int \<times> gameserver" where
  "gs_start socket_ok bind_ok malloc_ok gs =
     (if \<not> socket_ok then (-1, gs\<lparr>gs_open := False\<rparr>)
      else if \<not> bind_ok then (-1, gs\<lparr>gs_open := False\<rparr>)
      else if \<not> malloc_ok then (-1, gs\<lparr>gs_open := False, gs_list := None\<rparr>)
      else (0, gs\<lparr>gs_open := True, gs_list := Some (replicate (unat (gs_max gs)) None)\<rparr>))"

text \<open>Closing and deleting a session: the destructor closes once more, with nothing left to send.\<close>

definition session_delete :: "session \<Rightarrow> bytes list" where
  "session_delete s = fst (session_close 12 s)"

definition gs_stop :: "gameserver \<Rightarrow> bytes list \<times> gameserver" where
  "gs_stop gs =
     (let out = (case gs_list gs of
                   None \<Rightarrow> []
                 | Some l \<Rightarrow> concat (map (\<lambda>e. case e of
                     None \<Rightarrow> []
                   | Some s \<Rightarrow> let (o1, s') = session_close 6 s in o1 @ session_delete s') l))
      in (out, gs\<lparr>gs_open := False, gs_list := None\<rparr>))"

definition setKcpInterval :: "u64 \<Rightarrow> gameserver \<Rightarrow> gameserver" where
  "setKcpInterval i gs = gs\<lparr>gs_interval := i\<rparr>"

definition setMaxSessions :: "u32 \<Rightarrow> gameserver \<Rightarrow> gameserver" where
  "setMaxSessions i gs = (if gs_list gs \<noteq> None then gs else gs\<lparr>gs_max := i\<rparr>)"

definition getSession :: "nat \<Rightarrow> gameserver \<Rightarrow> cpp_fault + session option" where
  "getSession i gs =
     (case gs_list gs of
        None \<Rightarrow> Inr None
      | Some l \<Rightarrow> if i < length l then Inr (l ! i) else Inl Out_of_bounds)"

text \<open>The lookups do not check for empty entries.\<close>

primrec session_by_id :: "u64 \<Rightarrow> slots \<Rightarrow> cpp_fault + session option" where
  "session_by_id sid [] = Inr None"
| "session_by_id sid (e # es) =
     (case e of
        None \<Rightarrow> Inl Null_pointer
      | Some s \<Rightarrow>
          (case ss_kcp s of
             None \<Rightarrow> session_by_id sid es
           | Some ks \<Rightarrow> if getSessionId ks = sid then Inr (Some s) else session_by_id sid es))"

definition getSessionById :: "u64 \<Rightarrow> gameserver \<Rightarrow> cpp_fault + session option" where
  "getSessionById sid gs = (case gs_list gs of None \<Rightarrow> Inr None | Some l \<Rightarrow> session_by_id sid l)"

section \<open>The socket\<close>

text \<open>\<open>ret\<close> is what \<open>sendto\<close> and \<open>recvfrom\<close> return: a negative number, or bytes.\<close>

definition gs_send :: "int \<Rightarrow> bool \<Rightarrow> bytes option \<Rightarrow> gameserver \<Rightarrow> int" where
  "gs_send ret has_client msg gs =
     (if \<not> has_client then 0
      else if msg = None then 0
      else if \<not> gs_open gs then 0
      else if ret < 0 then -1 else ret)"

definition gs_recv :: "bytes option \<Rightarrow> nat \<Rightarrow> gameserver \<Rightarrow> bytes" where
  "gs_recv d sz gs =
     (if \<not> gs_open gs then []
      else case d of None \<Rightarrow> [] | Some b \<Rightarrow> take sz b)"

section \<open>Session ids in a datagram\<close>

definition hs_word :: "nat \<Rightarrow> bytes \<Rightarrow> u32" where
  "hs_word i pkt = load_le (piece (4 * i) 4 pkt)"

definition hs_sid :: "bytes \<Rightarrow> u64" where
  "hs_sid pkt = push_bit 32 (ucast (htobe32 (hs_word 2 pkt))) OR ucast (htobe32 (hs_word 1 pkt))"

definition is_shutdown :: "bytes \<Rightarrow> bool" where
  "is_shutdown pkt = (hs_word 0 pkt = htobe32 0x194 \<and> hs_word 4 pkt = htobe32 0x19419494)"

definition is_hello :: "bytes \<Rightarrow> bool" where
  "is_hello pkt = (hs_word 0 pkt = htobe32 0xff \<and> hs_word 3 pkt = htobe32 1234567890 \<and> hs_word 4 pkt = htobe32 0xffffffff)"

section \<open>Looking for the session of a datagram\<close>

text \<open>
  The loop over the sessions: \<open>sid\<close> is the variable the code compares with, which the first session
  that does not match overwrites. \<open>pkt\<close> are the bytes received, \<open>buf\<close> is the buffer they are at the front of, in
  which the words of the handshake structure are read. Returned are whether the loop broke off, what was sent
  and the sessions.
\<close>

primrec find_session ::
  "ikcpseg \<Rightarrow> bytes \<Rightarrow> bytes \<Rightarrow> u64 \<Rightarrow> slots \<Rightarrow> cpp_fault + bool \<times> bytes list \<times> slots" where
  "find_session junk pkt buf sid [] = Inr (False, [], [])"
| "find_session junk pkt buf sid (e # es) =
     (let skip = (\<lambda>r. map_sum id (\<lambda>(hit, out, es'). (hit, out, e # es')) r)
      in case e of
           None \<Rightarrow> skip (find_session junk pkt buf sid es)
         | Some s \<Rightarrow>
             if ss_state s < S_NOT_CONNECTED then skip (find_session junk pkt buf sid es)
             else case ss_kcp s of
                    None \<Rightarrow> skip (find_session junk pkt buf sid es)
                  | Some ks \<Rightarrow>
                      if getSessionId ks = sid
                      then (case pushToKcp junk (Some pkt) ks of
                              None \<Rightarrow> Inl Out_of_bounds
                            | Some (_, ks') \<Rightarrow> Inr (True, [], Some (s\<lparr>ss_kcp := Some ks'\<rparr>) # es))
                      else
                        let sid = hs_sid buf
                        in if getSessionId ks \<noteq> sid
                              \<and> (sid AND 0xffffffff \<noteq> ucast (htobe32 (hs_word 1 buf)) \<and> htobe32 (hs_word 2 buf) \<noteq> 0)
                           then skip (find_session junk pkt buf sid es)
                           else if is_shutdown buf
                           then let (out, s') = session_close (htobe32 (hs_word 3 buf)) s
                                in Inr (True, out, Some s' # es)
                           else skip (find_session junk pkt buf sid es))"

section \<open>Looking for a free entry\<close>

text \<open>
  What the \<open>switch\<close> does with the session at an entry: leave it, delete it, or close it with a reason
  and look at it again, counting a try or not.
\<close>

datatype slot_action = Leave | Delete | Retry u32 nat

definition slot_action :: "int \<Rightarrow> slot_action" where
  "slot_action st =
     (if st = S_NOT_CONNECTED then Delete
      else if st = S_TIMEOUT then Retry 10 1
      else if st = S_ERROR then Retry 12 1
      else if st = S_FINISHED then Retry 3 0
      else Leave)"

definition to_close :: "slots \<Rightarrow> nat" where
  "to_close l = length (filter (\<lambda>e. case e of None \<Rightarrow> False | Some s \<Rightarrow> ss_state s < 0) l)"

lemma to_close_less:
  assumes "i < length l" "l ! i = Some s" "ss_state s < 0" "0 \<le> ss_state s'"
  shows "to_close (l[i := Some s']) < to_close l"
proof -
  have l: "l = take i l @ Some s # drop (Suc i) l" using assms(1,2) by (metis id_take_nth_drop)
  have l': "l[i := Some s'] = take i l @ Some s' # drop (Suc i) l" using assms(1) by (rule upd_conv_take_nth_drop)
  have "to_close (take i l @ Some s' # drop (Suc i) l) < to_close (take i l @ Some s # drop (Suc i) l)"
    using assms(3,4) by (simp add: to_close_def)
  then show ?thesis using l l' by simp
qed

text \<open>
  The loop: \<open>i\<close> and \<open>tries\<close> are its variables. Looking again is \<open>i--\<close> followed by the \<open>i++\<close> of the loop; in
  between, after five tries, the entry before is deleted.
\<close>

function free_slot :: "u32 \<Rightarrow> u32 \<Rightarrow> nat \<Rightarrow> slots \<Rightarrow> cpp_fault + bytes list \<times> u32 \<times> slots" where
  "free_slot mx i tries l =
     (if mx \<le> i then Inr ([], i, l)
      else if length l \<le> unat i then Inl Out_of_bounds
      else case l ! unat i of
             None \<Rightarrow> Inr ([], i, l)
           | Some s \<Rightarrow>
               (case slot_action (ss_state s) of
                  Leave \<Rightarrow> free_slot mx (i + 1) tries l
                | Delete \<Rightarrow> Inr (session_delete s, i, l[unat i := None])
                | Retry reason n \<Rightarrow>
                    let (out, s') = session_close reason s;
                        l' = l[unat i := Some s']
                    in if 5 \<le> tries + n
                       then if length l' \<le> unat (i - 1) then Inl Out_of_bounds
                            else case l' ! unat (i - 1) of
                                   None \<Rightarrow> Inr (out, i - 1, l'[unat (i - 1) := None])
                                 | Some t \<Rightarrow> Inr (out @ session_delete t, i - 1, l'[unat (i - 1) := None])
                       else map_sum id (\<lambda>(o', r). (out @ o', r)) (free_slot mx i (tries + n) l')))"
  by pat_completeness auto

termination
proof (relation "measures [\<lambda>(mx, i, tries, l). unat mx - unat i, \<lambda>(mx, i, tries, l). to_close l]", goal_cases)
  case 1
  show ?case by simp
next
  case (2 mx i tries l s)
  then show ?case using word_suc [of i mx] by (auto simp: word_less_nat_alt not_le)
next
  case (3 mx i tries l s reason n)
  then show ?case
    by (auto simp: not_le slot_action_def session_close_def S_NOT_CONNECTED_def S_TIMEOUT_def S_ERROR_def
      S_FINISHED_def Let_def intro!: to_close_less split: if_splits)
qed

declare free_slot.simps [simp del]

section \<open>A datagram arrives\<close>

text \<open>
  What the rest of the system gives while a datagram is handled: the number \<open>getrandom\<close> draws, what
  \<open>sendto\<close> returns for the reply, whether the allocations of a new session succeed, the time, and the
  memory it is made of. \<open>ge_junk\<close> is the memory of a segment KCP allocates, \<open>ge_rest\<close> what the static receive buffer
  holds behind the datagram. Everything is sent to the address the datagram came from or, for a session, to that of
  its client; addresses are not part of the model.
\<close>

record gs_env =
  ge_rnd :: u64
  ge_sent :: int
  ge_mal :: "nat \<Rightarrow> bool"
  ge_mtu :: bool
  ge_now :: u64
  ge_raw :: session
  ge_junk :: ikcpseg
  ge_rest :: bytes

text \<open>
  A new client: the reply with its session id goes out first; then an entry is searched. Returned are
  what is sent, the sessions and the entry whose session thread is started.
\<close>

definition accept_client ::
  "gs_env \<Rightarrow> gameserver \<Rightarrow> slots \<Rightarrow> cpp_fault + bytes list \<times> slots \<times> nat option" where
  "accept_client e gs l =
     (let sid = ge_rnd e;
          reply = handshake 0x145 sid 1234567890 0x14514545
      in if gs_send (ge_sent e) True (Some reply) gs < 20 then Inr ([], l, None)
         else case free_slot (gs_max gs) 0 0 l of
                Inl f \<Rightarrow> Inl f
              | Inr (out, i, l') \<Rightarrow>
                  if gs_max gs \<le> i then Inr (reply # out @ [handshake 0x194 sid 5 0x19419494], l', None)
                  else if length l' \<le> unat i then Inl Out_of_bounds
                  else case session_new (ge_mal e) (ge_mtu e) sid True True (gs_interval gs) (ge_now e) (ge_raw e) of
                         Inl f \<Rightarrow> Inl f
                       | Inr s \<Rightarrow> Inr (reply # out, l'[unat i := Some s], Some (unat i)))"

definition gs_datagram ::
  "gs_env \<Rightarrow> gameserver \<Rightarrow> bytes \<Rightarrow> slots \<Rightarrow> cpp_fault + bytes list \<times> slots \<times> nat option" where
  "gs_datagram e gs pkt l =
     (let buf = pkt @ ge_rest e
      in if length pkt < 20 then Inr ([], l, None)
      else case find_session (ge_junk e) pkt buf (u64_at buf 0) l of
             Inl f \<Rightarrow> Inl f
           | Inr (True, out, l') \<Rightarrow> Inr (out, l', None)
           | Inr (False, out, l') \<Rightarrow>
               if is_hello buf then map_sum id (\<lambda>(o', r). (out @ o', r)) (accept_client e gs l')
               else Inr (out, l', None))"

text \<open>
  One iteration of the receive loop: \<open>ready\<close> is what \<open>select\<close> says, \<open>d\<close> the datagram the socket holds
  (\<^term>\<open>None\<close> when \<open>recvfrom\<close> fails), cut to the 16 KiB of the buffer.
\<close>

definition gs_iteration ::
  "gs_env \<Rightarrow> bool \<Rightarrow> bytes option \<Rightarrow> gameserver \<Rightarrow> cpp_fault + bytes list \<times> gameserver \<times> nat option" where
  "gs_iteration e ready d gs =
     (if \<not> gs_open gs \<or> \<not> ready then Inr ([], gs, None)
      else case gs_list gs of
             None \<Rightarrow> Inl Null_pointer
           | Some l \<Rightarrow>
               map_sum id (\<lambda>(out, l', t). (out, gs\<lparr>gs_list := Some l'\<rparr>, t))
                 (gs_datagram e gs (gs_recv d (16 * 1024) gs) l))"

text \<open>
  \<open>GameserverMain\<close> until \<open>GameserverSignal\<close> is set: each round names what the session threads made of the
  sessions meanwhile, the environment and the datagram. At the end the server stops. Before the socket is set up,
  the array of the threads is allocated and the server object is made, whose constructor may throw.
\<close>

type_synonym gs_round = "(slots \<Rightarrow> slots) \<times> gs_env \<times> bool \<times> bytes option"

fun gs_loop :: "gs_round list \<Rightarrow> gameserver \<Rightarrow> cpp_fault + bytes list \<times> gameserver" where
  "gs_loop [] gs = Inr (gs_stop gs)"
| "gs_loop ((threads, e, ready, d) # rounds) gs =
     (case gs_iteration e ready d (gs\<lparr>gs_list := map_option threads (gs_list gs)\<rparr>) of
        Inl f \<Rightarrow> Inl f
      | Inr (out, gs', _) \<Rightarrow> map_sum id (\<lambda>(o', gs''). (out @ o', gs'')) (gs_loop rounds gs'))"

definition GameserverMain ::
  "bool \<Rightarrow> bool \<Rightarrow> bool \<Rightarrow> bool \<Rightarrow> bool \<Rightarrow> gs_round list \<Rightarrow> cpp_fault + int \<times> bytes list" where
  "GameserverMain threads_ok new_ok socket_ok bind_ok malloc_ok rounds =
     (if \<not> threads_ok then Inr (-1, [])
      else if \<not> new_ok then Inr (-1, [])
      else
        let (r, gs) = gs_start socket_ok bind_ok malloc_ok (setMaxSessions 1 gameserver_new)
        in if r < 0 then Inr (-1, [])
           else map_sum id (\<lambda>(out, gs'). (0, out)) (gs_loop rounds gs))"

section \<open>Which entry is taken\<close>

text \<open>
  The loop takes the first entry without a session in play and takes leave of the session there. Which states
  are in play and with which reason a client is taken leave of is said here anew, by the numbers of the
  states; the loop closes at most the session it replaces, and never gets to five tries.
\<close>

definition in_play :: "session option \<Rightarrow> bool" where
  "in_play e = (case e of None \<Rightarrow> False | Some s \<Rightarrow> ss_state s \<noteq> 0 \<and> ss_state s \<noteq> -1 \<and> ss_state s \<noteq> -2 \<and> ss_state s \<noteq> -3)"

definition parting_reason :: "int \<Rightarrow> u32" where
  "parting_reason st = (if st = -1 then 10 else if st = -2 then 3 else 12)"

definition goodbye :: "session option \<Rightarrow> bytes list" where
  "goodbye e =
     (case e of
        None \<Rightarrow> []
      | Some s \<Rightarrow> (case ss_kcp s of
          None \<Rightarrow> []
        | Some ks \<Rightarrow> [handshake 0x194 (getSessionId ks) (parting_reason (ss_state s)) 0x19419494]))"

definition first_free :: "slots \<Rightarrow> nat" where
  "first_free l = length (takeWhile in_play l)"

lemma slot_table:
  "slot_action (ss_state s) = Leave \<longleftrightarrow> in_play (Some s)"
  "slot_action (ss_state s) = Delete \<Longrightarrow> goodbye (Some s) = session_delete s"
  "slot_action (ss_state s) = Retry r n \<Longrightarrow> goodbye (Some s) = fst (session_close r s)"
  by (auto simp: slot_action_def in_play_def goodbye_def parting_reason_def session_delete_def session_close_def Let_def
      S_NOT_CONNECTED_def S_TIMEOUT_def S_ERROR_def S_FINISHED_def split: if_splits option.split)

lemma retry_few: "slot_action st = Retry r n \<Longrightarrow> n \<le> 1"
  by (auto simp: slot_action_def split: if_splits)

lemma closed_deleted: "session_delete (snd (session_close r s)) = []"
  "slot_action (ss_state (snd (session_close r s))) = Delete"
  by (simp_all add: session_delete_def session_close_def slot_action_def S_NOT_CONNECTED_def Let_def)

lemma drop_nth_cons: "i < length l \<Longrightarrow> drop i l = l ! i # drop (Suc i) l"
  by (rule Cons_nth_drop_Suc [symmetric])

lemma free_slot_at:
  assumes len: "length l = unat mx" and "i \<le> mx"
  shows "free_slot mx i 0 l =
    (let j = unat i + first_free (drop (unat i) l)
     in if j < length l then Inr (goodbye (l ! j), of_nat j, l[j := None]) else Inr ([], mx, l))"
  using assms(2)
proof (induction "unat mx - unat i" arbitrary: i)
  case 0
  then have "i = mx" by (simp add: word_le_nat_alt word_unat_eq_iff)
  then show ?case by (subst free_slot.simps) (simp add: len first_free_def Let_def)
next
  case (Suc d)
  then have less: "i < mx" by (simp add: word_less_nat_alt)
  then have il: "unat i < length l" by (simp add: len word_less_nat_alt)
  have here: "\<not> mx \<le> i" "\<not> length l \<le> unat i" using less il by simp_all
  show ?case
  proof (cases "in_play (l ! unat i)")
    case True
    then obtain s where s: "l ! unat i = Some s" by (auto simp: in_play_def split: option.splits)
    with True have leave: "slot_action (ss_state s) = Leave" by (simp add: slot_table)
    have "d = unat mx - unat (i + 1)" "i + 1 \<le> mx"
      using Suc(2) less word_suc [OF less] by (simp_all add: word_le_nat_alt word_less_nat_alt)
    from Suc(1) [OF this] True show ?thesis
      unfolding free_slot.simps [of mx i 0 l] using here s leave word_suc [OF less]
      by (simp add: drop_nth_cons [OF il] first_free_def Let_def)
  next
    case False
    then have j: "first_free (drop (unat i) l) = 0" by (simp add: drop_nth_cons [OF il] first_free_def)
    have "free_slot mx i 0 l = Inr (goodbye (l ! unat i), i, l[unat i := None])"
    proof (cases "l ! unat i")
      case None
      then show ?thesis
        unfolding free_slot.simps [of mx i 0 l] using here by (simp add: goodbye_def) (metis list_update_id)
    next
      case (Some s)
      show ?thesis
      proof (cases "slot_action (ss_state s)")
        case Leave
        then show ?thesis using False Some by (simp add: slot_table)
      next
        case Delete
        then show ?thesis
          unfolding free_slot.simps [of mx i 0 l] using here Some slot_table(2) [of s] by simp
      next
        case (Retry reason n)
        obtain out s' where c: "session_close reason s = (out, s')" by (cases "session_close reason s")
        have "free_slot mx i n (l[unat i := Some s']) = Inr ([], i, l[unat i := None])"
          using here il closed_deleted [of reason s] c by (subst free_slot.simps) simp
        then show ?thesis
          unfolding free_slot.simps [of mx i 0 l] using here Some Retry c retry_few [OF Retry] slot_table(3) [OF Retry]
          by simp
      qed
    qed
    then show ?thesis using il by (simp add: j Let_def of_nat_unat del: free_slot.simps)
  qed
qed

lemma free_slot_eq:
  assumes "length l = unat mx"
  shows "free_slot mx 0 0 l =
    (if first_free l < length l then Inr (goodbye (l ! first_free l), of_nat (first_free l), l[first_free l := None])
     else Inr ([], mx, l))"
  using free_slot_at [OF assms, of 0] by (simp add: Let_def)

end
