(* ===== verification/Gameserver_Props.thy ===== *)
theory Gameserver_Props
  imports Gameserver
begin

unbundle bit_operations_syntax

text \<open>
  Lemmas about the receive loop of the game server: which session a datagram is for, which entry a new
  client gets, and that no iteration faults.
\<close>

section \<open>Which session gets a datagram\<close>

text \<open>
  The words of the handshake structure lie in the datagram when it is long enough; what the buffer holds behind
  it does not matter.
\<close>

lemma hs_word_front: "20 \<le> length pkt \<Longrightarrow> i \<le> 4 \<Longrightarrow> hs_word i (pkt @ x) = hs_word i pkt"
  by (simp add: hs_word_def piece_def)

lemma u64_front: "20 \<le> length pkt \<Longrightarrow> u64_at (pkt @ x) 0 = u64_at pkt 0"
  by (simp add: u64_at_def piece_def)

lemma header_front:
  assumes "20 \<le> length pkt"
  shows "is_shutdown (pkt @ x) = is_shutdown pkt" "is_hello (pkt @ x) = is_hello pkt" "hs_sid (pkt @ x) = hs_sid pkt"
  using assms by (simp_all add: is_shutdown_def is_hello_def hs_sid_def hs_word_front)

definition connected :: "session option \<Rightarrow> bool" where
  "connected e = (case e of None \<Rightarrow> False | Some s \<Rightarrow> S_NOT_CONNECTED \<le> ss_state s \<and> ss_kcp s \<noteq> None)"

definition has_id :: "u64 \<Rightarrow> session option \<Rightarrow> bool" where
  "has_id v e = (connected e \<and> getSessionId (the (ss_kcp (the e))) = v)"

text \<open>A session after it was given a datagram, and after it was closed.\<close>

definition received_by :: "ikcpseg \<Rightarrow> bytes \<Rightarrow> session option \<Rightarrow> session option" where
  "received_by junk pkt e =
     map_option (\<lambda>s. s\<lparr>ss_kcp := map_option (\<lambda>ks. ks\<lparr>ks_kcp := snd (the (ikcp_input junk (ks_kcp ks) pkt))\<rparr>) (ss_kcp s)\<rparr>) e"

definition closed_by_client :: "session option \<Rightarrow> session option" where
  "closed_by_client e = map_option (\<lambda>s. s\<lparr>ss_kcp := None, ss_player := False, ss_state := S_NOT_CONNECTED\<rparr>) e"

text \<open>
  The test that should skip a session with another id compares the id of the datagram with itself, so
  that it never skips.
\<close>

lemma sid_test_never:
  "hs_sid pkt AND 0xffffffff = ucast (htobe32 (hs_word 1 pkt))"
proof (rule bit_word_eqI)
  fix n assume "n < LENGTH(64)"
  have m: "(0xffffffff :: u64) = mask 32" by (simp add: mask_eq_exp_minus_1)
  show "bit (hs_sid pkt AND 0xffffffff) n = bit (ucast (htobe32 (hs_word 1 pkt)) :: u64) n"
    unfolding m hs_sid_def by (auto simp: bit_simps dest: bit_imp_le_length)
qed

lemma hello_not_shutdown: "is_hello pkt \<Longrightarrow> \<not> is_shutdown pkt"
proof
  assume "is_hello pkt" "is_shutdown pkt"
  then have "htobe32 (htobe32 0xff) = htobe32 (htobe32 0x194)" by (simp add: is_hello_def is_shutdown_def)
  then show False by (simp add: htobe_twice)
qed

lemma pushToKcp_safe:
  "pushToKcp junk (Some d) ks = Some (fst (the (ikcp_input junk (ks_kcp ks) d)), ks\<lparr>ks_kcp := snd (the (ikcp_input junk (ks_kcp ks) d))\<rparr>)"
  using ikcp_input_safe [of junk "ks_kcp ks" d] by (auto simp: pushToKcp_def)

lemma find_session_skip:
  "\<not> connected e \<Longrightarrow> find_session junk pkt buf sid (e # es) =
     map_sum id (\<lambda>(hit, out, es'). (hit, out, e # es')) (find_session junk pkt buf sid es)"
  by (auto simp: connected_def Let_def split: option.splits)

lemma find_session_at:
  assumes "connected e"
  shows "find_session junk pkt buf sid (e # es) =
    (if has_id sid e then Inr (True, [], received_by junk pkt e # es)
     else if is_shutdown buf
     then Inr (True, [handshake 0x194 (getSessionId (the (ss_kcp (the e)))) (htobe32 (hs_word 3 buf)) 0x19419494],
               closed_by_client e # es)
     else map_sum id (\<lambda>(hit, out, es'). (hit, out, e # es')) (find_session junk pkt buf (hs_sid buf) es))"
  using assms
  by (auto simp: connected_def has_id_def received_by_def closed_by_client_def sid_test_never pushToKcp_safe
      session_close_def Let_def split: option.splits)

text \<open>The place of the first entry with a property.\<close>

primrec first_index :: "('a \<Rightarrow> bool) \<Rightarrow> 'a list \<Rightarrow> nat option" where
  "first_index P [] = None"
| "first_index P (x # xs) = (if P x then Some 0 else map_option Suc (first_index P xs))"

lemma first_index_Some: "first_index P xs = Some i \<Longrightarrow> i < length xs \<and> P (xs ! i) \<and> (\<forall>j<i. \<not> P (xs ! j))"
proof (induction xs arbitrary: i)
  case (Cons x xs)
  then show ?case by (cases i) (auto simp: less_Suc_eq_0_disj split: if_splits)
qed simp

text \<open>
  Once a session did not match, the later ones are compared with the id of the handshake structure; the first
  one connected is compared with the id at the front, and closed by any shutdown message.
\<close>

lemma find_session_later:
  assumes "\<not> is_shutdown buf"
  shows "find_session junk pkt buf (hs_sid buf) l =
    (case first_index (has_id (hs_sid buf)) l of
       None \<Rightarrow> Inr (False, [], l)
     | Some i \<Rightarrow> Inr (True, [], l[i := received_by junk pkt (l ! i)]))"
proof (induction l)
  case (Cons e es)
  show ?case
  proof (cases "connected e")
    case True
    then show ?thesis using Cons assms by (auto simp: find_session_at split: option.split simp del: find_session.simps)
  next
    case False
    then have "\<not> has_id (hs_sid buf) e" by (simp add: has_id_def)
    then show ?thesis using Cons False by (auto simp: find_session_skip split: option.split simp del: find_session.simps)
  qed
qed simp

lemma find_session_eq:
  "find_session junk pkt buf sid l =
    (case first_index connected l of
       None \<Rightarrow> Inr (False, [], l)
     | Some i \<Rightarrow>
         if has_id sid (l ! i) then Inr (True, [], l[i := received_by junk pkt (l ! i)])
         else if is_shutdown buf
         then Inr (True, [handshake 0x194 (getSessionId (the (ss_kcp (the (l ! i))))) (htobe32 (hs_word 3 buf)) 0x19419494],
                   l[i := closed_by_client (l ! i)])
         else case first_index (has_id (hs_sid buf)) (drop (Suc i) l) of
                None \<Rightarrow> Inr (False, [], l)
              | Some j \<Rightarrow> Inr (True, [], l[Suc i + j := received_by junk pkt (l ! (Suc i + j))]))"
proof (induction l)
  case (Cons e es)
  show ?case
  proof (cases "connected e")
    case True
    then show ?thesis
      by (auto simp: find_session_at find_session_later split: option.split simp del: find_session.simps
          dest!: first_index_Some)
  next
    case False
    then show ?thesis using Cons
      by (auto simp: find_session_skip split: option.split simp del: find_session.simps)
  qed
qed simp

lemma find_session_miss:
  assumes "\<forall>s ks. Some s \<in> set l \<and> ss_kcp s = Some ks \<longrightarrow> getSessionId ks \<noteq> sid \<and> getSessionId ks \<noteq> hs_sid buf"
    "\<not> is_shutdown buf"
  shows "find_session junk pkt buf sid l = Inr (False, [], l)"
proof -
  have none: "\<not> has_id sid e \<and> \<not> has_id (hs_sid buf) e" if "e \<in> set l" for e
    using assms(1) that by (cases e) (fastforce simp: has_id_def connected_def)+
  have "first_index (has_id (hs_sid buf)) (drop k l) = None" for k
    using first_index_Some [of "has_id (hs_sid buf)" "drop k l"] none
    by (cases "first_index (has_id (hs_sid buf)) (drop k l)") (auto dest: in_set_dropD nth_mem)
  then show ?thesis
    using none assms(2) by (auto simp: find_session_eq split: option.split dest!: first_index_Some nth_mem)
qed

lemma find_session_total:
  "\<exists>hit out l'. find_session junk pkt buf sid l = Inr (hit, out, l') \<and> length l' = length l"
  by (auto simp: find_session_eq split: option.split)

section \<open>New clients\<close>

lemma unat_of_nat_less: "n < unat (m :: u32) \<Longrightarrow> unat (of_nat n :: u32) = n"
  by (metis le_unat_uoi less_imp_le)

lemma first_free_le: "first_free l \<le> length l"
  by (simp add: first_free_def length_takeWhile_le)

lemma accept_client_eq:
  assumes "length l = unat (gs_max gs)"
  shows "accept_client e gs l =
    (let reply = handshake 0x145 (ge_rnd e) 1234567890 0x14514545; j = first_free l
     in if gs_send (ge_sent e) True (Some reply) gs < 20 then Inr ([], l, None)
        else if j = length l then Inr ([reply, handshake 0x194 (ge_rnd e) 5 0x19419494], l, None)
        else case session_new (ge_mal e) (ge_mtu e) (ge_rnd e) True True (gs_interval gs) (ge_now e) (ge_raw e) of
               Inl f \<Rightarrow> Inl f
             | Inr s \<Rightarrow> Inr (reply # goodbye (l ! j), l[j := Some s], Some j))"
proof (cases "first_free l < length l")
  case True
  then have "unat (of_nat (first_free l) :: u32) = first_free l" using assms by (simp add: unat_of_nat_less)
  moreover from this True assms have "\<not> gs_max gs \<le> of_nat (first_free l)"
    by (simp add: word_le_nat_alt)
  ultimately show ?thesis using True
    by (auto simp: accept_client_def free_slot_eq [OF assms] Let_def split: sum.splits)
next
  case False
  then have "first_free l = length l" using first_free_le [of l] by simp
  then show ?thesis by (simp add: accept_client_def free_slot_eq [OF assms] Let_def)
qed

lemma session_new_ok: "\<exists>s. session_new (\<lambda>_. True) mm sid True True itv now raw = Inr s"
  by (simp add: session_new_def kcp_session_new_def ikcp_create_def Let_def)

section \<open>The loop never faults\<close>

lemma gs_iteration_total:
  assumes "gs_list gs = Some l" "length l = unat (gs_max gs)" "ge_mal e = (\<lambda>_. True)"
  shows "\<exists>out l' t. gs_iteration e ready d gs = Inr (out, gs\<lparr>gs_list := Some l'\<rparr>, t) \<and> length l' = length l"
proof -
  have acc: "\<exists>out l2 t. accept_client e gs l1 = Inr (out, l2, t) \<and> length l2 = length l" if "length l1 = length l" for l1
    using session_new_ok [of "ge_mtu e" "ge_rnd e" "gs_interval gs" "ge_now e" "ge_raw e"] assms(2,3) that
    by (auto simp: accept_client_eq Let_def)
  have "\<exists>out l' t. gs_datagram e gs pkt l = Inr (out, l', t) \<and> length l' = length l" for pkt
  proof -
    obtain hit o1 l1 where f: "find_session (ge_junk e) pkt (pkt @ ge_rest e) (u64_at (pkt @ ge_rest e) 0) l = Inr (hit, o1, l1)"
      "length l1 = length l"
      using find_session_total by blast
    show ?thesis using acc [OF f(2)] f by (cases hit) (auto simp: gs_datagram_def Let_def)
  qed
  then obtain out l' t where d: "gs_datagram e gs (gs_recv d (16 * 1024) gs) l = Inr (out, l', t)" "length l' = length l"
    by blast
  show ?thesis
  proof (cases "\<not> gs_open gs \<or> \<not> ready")
    case True
    then show ?thesis using assms(1) by (intro exI [of _ "[]"] exI [of _ l]) (simp add: gs_iteration_def)
  next
    case False
    then show ?thesis using assms(1) d by (intro exI [of _ out] exI [of _ l']) (simp add: gs_iteration_def)
  qed
qed

lemma gs_loop_total:
  assumes "\<forall>(threads, e, ready, d) \<in> set rounds. (\<forall>l. length (threads l) = length l) \<and> ge_mal e = (\<lambda>_. True)"
    and "gs_list gs = Some l" "length l = unat (gs_max gs)"
  shows "\<exists>out gs'. gs_loop rounds gs = Inr (out, gs') \<and> \<not> gs_open gs' \<and> gs_list gs' = None"
  using assms
proof (induction rounds arbitrary: gs l)
  case Nil
  show ?case by (simp add: gs_stop_def Let_def)
next
  case (Cons r rounds)
  obtain threads e ready d where r: "r = (threads, e, ready, d)" by (cases r)
  have t: "length (threads l) = length l" "ge_mal e = (\<lambda>_. True)" using Cons.prems(1) by (auto simp: r)
  let ?gs = "gs\<lparr>gs_list := map_option threads (gs_list gs)\<rparr>"
  obtain out l' u where i: "gs_iteration e ready d ?gs = Inr (out, ?gs\<lparr>gs_list := Some l'\<rparr>, u)" "length l' = length l"
    using gs_iteration_total [of ?gs "threads l" e ready d] Cons.prems(2,3) t by auto
  have "\<exists>out gs'. gs_loop rounds (?gs\<lparr>gs_list := Some l'\<rparr>) = Inr (out, gs') \<and> \<not> gs_open gs' \<and> gs_list gs' = None"
    by (rule Cons.IH [of _ l']) (use Cons.prems i(2) t in auto)
  then show ?case using i(1) by (auto simp: r)
qed

end
