(* ===== verification/Server_Properties.thy ===== *)
theory Server_Properties
  imports Gameserver_Props
begin

unbundle bit_operations_syntax

text \<open>
  The properties of the game server's receive loop: theory \<open>Gameserver\<close>.
\<close>

section \<open>A concrete server for the witnesses\<close>

definition blank_segment :: ikcpseg where
  "blank_segment = \<lparr>seg_conv = 0, seg_cmd = 0, seg_frg = 0, seg_wnd = 0, seg_ts = 0, seg_sn = 0, seg_una = 0,
     seg_len = 0, seg_resendts = 0, seg_rto = 0, seg_fastack = 0, seg_xmit = 0, seg_data = []\<rparr>"

definition blank_session :: session where
  "blank_session = \<lparr>ss_kcp = None, ss_player = False, ss_state = 0, ss_secret = False, ss_seq = 0,
     ss_seed = 0, ss_ping = 0, ss_key = replicate 4096 0\<rparr>"

definition sample_env :: gs_env where
  "sample_env = \<lparr>ge_rnd = 7, ge_sent = 20, ge_mal = (\<lambda>_. True), ge_mtu = True, ge_now = 1000,
     ge_raw = blank_session, ge_junk = blank_segment, ge_rest = []\<rparr>"

definition sample_server :: gameserver where
  "sample_server = \<lparr>gs_open = True, gs_interval = 100, gs_max = 1, gs_list = Some [None]\<rparr>"

definition hello :: bytes where
  "hello = handshake 0xff 0 1234567890 0xffffffff"

lemma hs_word_handshake:
  "hs_word 0 (handshake a sid b c) = htobe32 a"
  "hs_word 1 (handshake a sid b c) = htobe32 (ucast (sid AND 0xffffffff))"
  "hs_word 2 (handshake a sid b c) = htobe32 (ucast (drop_bit 32 sid))"
  "hs_word 3 (handshake a sid b c) = htobe32 b"
  "hs_word 4 (handshake a sid b c) = htobe32 c"
  by (simp_all add: hs_word_def handshake_def piece_def load_store_le)

lemma length_handshake: "length (handshake a sid b c) = 20"
  by (simp add: handshake_def)

section \<open>Routing\<close>

text \<open>
  C26. What a datagram does to a table of sessions of any size, whatever the buffer holds behind it. Shorter
  than a handshake it is dropped. Otherwise the first connected session decides: if the first eight bytes are its
  id, it gets the datagram; if they are not and the datagram is a shutdown message, this session is closed and
  its client is told, whatever id the message carries. If it is neither, the datagram goes to the first later
  session whose id the handshake structure has at its place, not the one at the front; when there is none, or no
  session is connected, a greeting is answered like a new client's, and anything else changes nothing.
  Every session but the one named stays as it was.
\<close>

theorem datagram_routing:
  "gs_datagram e gs pkt l =
    (let given = (\<lambda>i. Inr ([], l[i := received_by (ge_junk e) pkt (l ! i)], None));
         unclaimed = (if is_hello pkt then accept_client e gs l else Inr ([], l, None))
     in if length pkt < 20 then Inr ([], l, None)
        else case first_index connected l of
               None \<Rightarrow> unclaimed
             | Some i \<Rightarrow>
                 if has_id (u64_at pkt 0) (l ! i) then given i
                 else if is_shutdown pkt
                 then Inr ([handshake 0x194 (getSessionId (the (ss_kcp (the (l ! i))))) (htobe32 (hs_word 3 pkt)) 0x19419494],
                           l[i := closed_by_client (l ! i)], None)
                 else case first_index (has_id (hs_sid pkt)) (drop (Suc i) l) of
                        None \<Rightarrow> unclaimed
                      | Some j \<Rightarrow> given (Suc i + j))"
proof (cases "length pkt < 20")
  case False
  then have front: "is_shutdown (pkt @ ge_rest e) = is_shutdown pkt" "is_hello (pkt @ ge_rest e) = is_hello pkt"
    "hs_sid (pkt @ ge_rest e) = hs_sid pkt" "u64_at (pkt @ ge_rest e) 0 = u64_at pkt 0"
    "hs_word 3 (pkt @ ge_rest e) = hs_word 3 pkt"
    by (simp_all add: header_front u64_front hs_word_front)
  have "map_sum id (\<lambda>(o', r). ([] @ o', r)) x = x" for x :: "cpp_fault + bytes list \<times> slots \<times> nat option"
    by (cases x) auto
  then show ?thesis
    using False by (simp add: gs_datagram_def Let_def find_session_eq front split: option.split)
qed (simp add: gs_datagram_def Let_def)

text \<open>Two sessions: a shutdown message for the second one closes the first.\<close>

theorem datagram_routing_witness:
  "\<exists>s t. session_new (\<lambda>_. True) True 7 True True 100 1000 blank_session = Inr s
     \<and> session_new (\<lambda>_. True) True 8 True True 100 1000 blank_session = Inr t
     \<and> gs_datagram sample_env sample_server (handshake 0x194 8 4 0x19419494) [Some s, Some t] =
         Inr ([handshake 0x194 7 4 0x19419494],
              [Some (s\<lparr>ss_kcp := None, ss_player := False, ss_state := S_NOT_CONNECTED\<rparr>), Some t], None)"
proof -
  obtain s t where s: "session_new (\<lambda>_. True) True 7 True True 100 1000 blank_session = Inr s"
    and t: "session_new (\<lambda>_. True) True 8 True True 100 1000 blank_session = Inr t"
    using session_new_ok by meson
  obtain ks where ks: "kcp_session_new (\<lambda>_. True) True 7 True True 100 = Inr ks" "ss_kcp s = Some ks" "ss_state s = 1"
    using s by (auto simp: session_new_def S_TOKEN_WAIT_def split: sum.splits)
  have id: "getSessionId ks = 7"
    by (simp add: kcp_session_new_eq [OF ks(1)] getSessionId_def fresh_kcp_def ikcp_create_def)
  let ?pkt = "handshake 0x194 8 4 0x19419494"
  have "u64_at ?pkt 0 \<noteq> 7" by (simp add: handshake_def) code_simp
  moreover have "connected (Some s)" by (simp add: connected_def ks S_NOT_CONNECTED_def)
  ultimately have "first_index connected [Some s, Some t] = Some 0" "\<not> has_id (u64_at ?pkt 0) (Some s)"
    by (auto simp: has_id_def ks id)
  then have "gs_datagram sample_env sample_server ?pkt [Some s, Some t] =
         Inr ([handshake 0x194 7 4 0x19419494],
              [Some (s\<lparr>ss_kcp := None, ss_player := False, ss_state := S_NOT_CONNECTED\<rparr>), Some t], None)"
    by (simp add: datagram_routing length_handshake is_shutdown_def hs_word_handshake htobe_twice id ks(2)
        closed_by_client_def)
  with s t show ?thesis by blast
qed

section \<open>Admission\<close>

text \<open>
  C27. Admission of a new client to a table of any size: a greeting that no session's id matches is
  answered with the drawn session id; if the answer went out, the first entry without a session in play
  takes a new session with that id. In play is a session in any state but disconnected (0), timed out
  (-1), finished (-2) and failed (-3); the client of a session replaced that still has its control block is taken leave
  of with reason 10 when it timed out, 3 when it finished and 12 otherwise. With every entry in play the
  client is sent a refusal, with reason 5, and no session changes. All other entries stay as they are.
\<close>

theorem client_admission:
  assumes "20 \<le> length pkt" "is_hello pkt" "length l = unat (gs_max gs)"
    and "\<forall>s ks. Some s \<in> set l \<and> ss_kcp s = Some ks \<longrightarrow> getSessionId ks \<notin> {u64_at pkt 0, hs_sid pkt}"
  shows "gs_datagram e gs pkt l =
    (let reply = handshake 0x145 (ge_rnd e) 1234567890 0x14514545; j = first_free l
     in if gs_send (ge_sent e) True (Some reply) gs < 20 then Inr ([], l, None)
        else if j = length l then Inr ([reply, handshake 0x194 (ge_rnd e) 5 0x19419494], l, None)
        else case session_new (ge_mal e) (ge_mtu e) (ge_rnd e) True True (gs_interval gs) (ge_now e) (ge_raw e) of
               Inl f \<Rightarrow> Inl f
             | Inr s \<Rightarrow> Inr (reply # goodbye (l ! j), l[j := Some s], Some j))"
proof -
  note front = header_front [OF assms(1)] u64_front [OF assms(1)]
  have "find_session (ge_junk e) pkt (pkt @ ge_rest e) (u64_at pkt 0) l = Inr (False, [], l)"
    using assms(4) hello_not_shutdown [OF assms(2)] by (intro find_session_miss) (auto simp: front)
  moreover have "map_sum id (\<lambda>(o', r). ([] @ o', r)) x = x" for x :: "cpp_fault + bytes list \<times> slots \<times> nat option"
    by (cases x) auto
  ultimately have "gs_datagram e gs pkt l = accept_client e gs l"
    using assms(1,2) by (simp add: gs_datagram_def front Let_def)
  then show ?thesis by (simp only: accept_client_eq [OF assms(3)])
qed

theorem client_admission_witness:
  "\<exists>s. gs_datagram sample_env sample_server hello [None] =
     Inr ([handshake 0x145 7 1234567890 0x14514545], [Some s], Some 0) \<and> ss_state s = S_TOKEN_WAIT"
proof -
  obtain s where s: "session_new (\<lambda>_. True) True 7 True True 100 1000 blank_session = Inr s"
    using session_new_ok by blast
  have st: "ss_state s = S_TOKEN_WAIT" using s by (auto simp: session_new_def split: sum.splits)
  have "is_hello hello" by (simp add: is_hello_def hello_def hs_word_handshake)
  with client_admission [of hello "[None]" sample_server sample_env]
  have "gs_datagram sample_env sample_server hello [None] =
      Inr ([handshake 0x145 7 1234567890 0x14514545], [Some s], Some 0)"
    by (simp add: hello_def length_handshake sample_server_def sample_env_def gs_send_def first_free_def in_play_def
        goodbye_def s Let_def)
  with st show ?thesis by blast
qed

section \<open>The loop goes on\<close>

text \<open>
  C28. No datagram stops the server: whatever arrives and whatever the session threads do to the sessions
  in between, as long as the memory for new sessions is there, the receive loop reads inside the
  datagrams and inside the table, and \<open>GameserverMain\<close> returns 0 after it was signalled, or -1 when the
  array of the threads, the server object or the socket cannot be set up.
\<close>

theorem server_survives:
  assumes "\<forall>(threads, e, ready, d) \<in> set rounds. (\<forall>l. length (threads l) = length l) \<and> ge_mal e = (\<lambda>_. True)"
  shows "\<exists>out. GameserverMain threads_ok new_ok socket_ok bind_ok malloc_ok rounds =
    Inr (if threads_ok \<and> new_ok \<and> socket_ok \<and> bind_ok \<and> malloc_ok then 0 else -1, out)"
proof (cases "threads_ok \<and> new_ok \<and> socket_ok \<and> bind_ok \<and> malloc_ok")
  case True
  let ?gs = "snd (gs_start True True True (setMaxSessions 1 gameserver_new))"
  have "\<exists>out gs'. gs_loop rounds ?gs = Inr (out, gs') \<and> \<not> gs_open gs' \<and> gs_list gs' = None"
    by (rule gs_loop_total [OF assms, of _ "[None]"])
      (simp_all add: gs_start_def setMaxSessions_def gameserver_new_def)
  then show ?thesis using True by (auto simp: GameserverMain_def gs_start_def Let_def)
next
  case False
  then show ?thesis by (auto simp: GameserverMain_def gs_start_def Let_def)
qed

theorem server_survives_witness:
  "\<exists>out. GameserverMain True True True True True [(id, sample_env, True, Some hello), (id, sample_env, True, Some [1, 2])] = Inr (0, out)"
  using server_survives [of "[(id, sample_env, True, Some hello), (id, sample_env, True, Some [1, 2])]" True True True True True]
  by (simp add: sample_env_def)

end
