(* ===== verification/Item.thy ===== *)
theory Item
  imports Host_Memory "HOL-Library.AList"
begin

unbundle bit_operations_syntax

text \<open>
  Items: \<open>src/item.cpp\<close> and \<open>include/item.h\<close>. An item is a structure that ends in a union, modelled as the
  bytes it has in memory, so that what the code writes past its end shows; it is read from and written
  to a message.
\<close>

section \<open>Fields of a structure in memory\<close>

definition get_le :: "nat \<Rightarrow> nat \<Rightarrow> bytes \<Rightarrow> 'a::len word" where
  "get_le off n bs = load_le (piece off n bs)"

definition put_le :: "nat \<Rightarrow> nat \<Rightarrow> 'a::len word \<Rightarrow> bytes \<Rightarrow> bytes" where
  "put_le off n w bs = take off bs @ store_le n w @ drop (off + n) bs"

lemma length_put_le [simp]: "off + n \<le> length bs \<Longrightarrow> length (put_le off n w bs) = length bs"
  by (simp add: put_le_def)

lemma get_put_same:
  fixes w :: "'a::len word"
  assumes "off + n \<le> length bs" "LENGTH('a) \<le> 8 * n"
  shows "get_le off n (put_le off n w bs) = w"
  using assms by (simp add: get_le_def put_le_def piece_def load_store_le)

lemma piece_put_below: "o2 + m \<le> off \<Longrightarrow> off \<le> length bs \<Longrightarrow> piece o2 m (put_le off n w bs) = piece o2 m bs"
  by (simp add: piece_def put_le_def drop_take min_absorb1 le_diff_conv2 add.commute)

lemma piece_put_above: "off + n \<le> o2 \<Longrightarrow> off + n \<le> length bs \<Longrightarrow> piece o2 m (put_le off n w bs) = piece o2 m bs"
  by (simp add: piece_def put_le_def)

lemma get_put_other:
  assumes "o2 + m \<le> off \<or> off + n \<le> o2" "off + n \<le> length bs"
  shows "get_le o2 m (put_le off n w bs) = get_le o2 m bs"
  using assms by (auto simp: get_le_def piece_put_below piece_put_above)

section \<open>The messages\<close>

text \<open>
  The messages of \<open>src/proto/define.proto\<close> an item is stored and sent as. A map field is the list of
  its entries in the order of iteration.
\<close>

record pb_delete =
  pd_has_config :: bool
  pd_date :: "u32 option"

record pb_material =
  pm_count :: u32
  pm_delete :: "pb_delete option"

record pb_reliquary =
  pr_level :: u32
  pr_exp :: u32
  pr_promote :: u32
  pr_main :: u32
  pr_append :: "u32 list"

record pb_weapon =
  pw_level :: u32
  pw_exp :: u32
  pw_promote :: u32
  pw_affixes :: "(u32 \<times> u32) list"

datatype pb_equip_detail = No_equip | Reliquary pb_reliquary | Weapon pb_weapon
datatype pb_item_detail = No_detail | Material pb_material | Equip bool pb_equip_detail

record pb_item =
  pi_id :: u32
  pi_guid :: u64
  pi_detail :: pb_item_detail

section \<open>The item in memory\<close>

text \<open>
  \<open>struct Item\<close> ends in a union of 16 bytes: an artifact, a weapon or a material. The first two end in
  an array without a size, whose entries lie in what is left of the 16 bytes: at 10 for the artifact's
  sub-stats of 4 bytes, at 12 for the weapon's affixes. An entry beyond is past the end of the item.
\<close>

definition ITEM_MATERIAL :: u32 where "ITEM_MATERIAL = 0"
definition ITEM_ARTIFACT :: u32 where "ITEM_ARTIFACT = 1"
definition ITEM_WEAPON :: u32 where "ITEM_WEAPON = 2"

record item =
  it_id :: u32
  it_type :: u32
  it_guid :: u64
  it_data :: bytes

text \<open>Both constructors without a message set the id only; \<open>raw\<close> is the memory of the object.\<close>

definition item_new :: "u32 \<Rightarrow> item \<Rightarrow> item" where
  "item_new i raw = raw\<lparr>it_id := i\<rparr>"

definition item_default :: "item \<Rightarrow> item" where
  "item_default raw = item_new 0 raw"

definition sub_id :: "nat \<Rightarrow> bytes \<Rightarrow> u16" where "sub_id j d = get_le (10 + 4 * j) 2 d"
definition sub_count :: "nat \<Rightarrow> bytes \<Rightarrow> u16" where "sub_count j d = get_le (12 + 4 * j) 2 d"

section \<open>From a message\<close>

text \<open>
  The sub-stats of an artifact are counted: \<open>k\<close> entries are in use. A sub-stat takes the low 16 bits of
  its id; 0 is ignored.
\<close>

fun add_substats :: "u32 list \<Rightarrow> nat \<Rightarrow> bytes \<Rightarrow> cpp_fault + nat \<times> bytes" where
  "add_substats [] k d = Inr (k, d)"
| "add_substats (p # ps) k d =
     (let s = ucast p :: u16
      in case List.find (\<lambda>j. sub_id j d = s) [0..<k] of
           Some j \<Rightarrow> add_substats ps k (put_le (12 + 4 * j) 2 (sub_count j d + 1) d)
         | None \<Rightarrow>
             if s = 0 then add_substats ps k d
             else if length d < 14 + 4 * k then Inl Out_of_bounds
             else add_substats ps (k + 1) (put_le (12 + 4 * k) 2 (1 :: u16) (put_le (10 + 4 * k) 2 s d)))"

fun add_affixes :: "(u32 \<times> u32) list \<Rightarrow> nat \<Rightarrow> u32 \<Rightarrow> bytes \<Rightarrow> cpp_fault + nat \<times> u32 \<times> bytes" where
  "add_affixes [] i k d = Inr (i, k, d)"
| "add_affixes ((a, r) # as) i k d =
     (if length d < 16 + 4 * i then Inl Out_of_bounds
      else add_affixes as (i + 1) (max k r) (put_le (12 + 4 * i) 4 a d))"

definition material_data :: "pb_material \<Rightarrow> bytes \<Rightarrow> bytes" where
  "material_data m d =
     (let d = put_le 0 4 (pm_count m) d
      in case pm_delete m of
           Some del \<Rightarrow>
             (if pd_has_config del
              then case pd_date del of Some t \<Rightarrow> put_le 8 8 (ucast t :: u64) d | None \<Rightarrow> d
              else d)
         | None \<Rightarrow> d)"

definition artifact_data :: "bool \<Rightarrow> pb_reliquary \<Rightarrow> bytes \<Rightarrow> cpp_fault + bytes" where
  "artifact_data locked r d =
     (let d = put_le 4 1 (if locked then 1 else 0 :: u8) d;
          d = put_le 5 1 (ucast (pr_level r) :: u8) d;
          d = put_le 0 4 (pr_exp r) d;
          d = put_le 6 2 (ucast (pr_main r) :: u16) d
      in case add_substats (pr_append r) 0 d of
           Inl f \<Rightarrow> Inl f
         | Inr (k, d) \<Rightarrow> Inr (put_le 8 2 (of_nat k :: u16) d))"

definition weapon_data :: "bool \<Rightarrow> pb_weapon \<Rightarrow> bytes \<Rightarrow> cpp_fault + bytes" where
  "weapon_data locked w d =
     (let d = put_le 4 1 (if locked then 1 else 0 :: u8) d;
          d = put_le 5 1 (ucast (pw_level w) :: u8) d;
          d = put_le 0 4 (pw_exp w) d;
          d = put_le 6 1 (ucast (pw_promote w) :: u8) d
      in case add_affixes (pw_affixes w) 0 0 d of
           Inl f \<Rightarrow> Inl f
         | Inr (i, k, d) \<Rightarrow> Inr (put_le 7 1 (ucast k :: u8) (put_le 8 4 (of_nat i :: u32) d)))"

definition item_of_pb :: "pb_item \<Rightarrow> item \<Rightarrow> cpp_fault + item" where
  "item_of_pb pb raw =
     (let it = raw\<lparr>it_id := pi_id pb, it_guid := pi_guid pb\<rparr>
      in case pi_detail pb of
           No_detail \<Rightarrow> Inr it
         | Material m \<Rightarrow> Inr (it\<lparr>it_type := ITEM_MATERIAL, it_data := material_data m (it_data it)\<rparr>)
         | Equip locked No_equip \<Rightarrow> Inr it
         | Equip locked (Reliquary r) \<Rightarrow>
             map_sum id (\<lambda>d. it\<lparr>it_type := ITEM_ARTIFACT, it_data := d\<rparr>) (artifact_data locked r (it_data it))
         | Equip locked (Weapon w) \<Rightarrow>
             map_sum id (\<lambda>d. it\<lparr>it_type := ITEM_WEAPON, it_data := d\<rparr>) (weapon_data locked w (it_data it)))"

section \<open>To a message\<close>

fun read_substats :: "nat list \<Rightarrow> bytes \<Rightarrow> cpp_fault + u32 list" where
  "read_substats [] d = Inr []"
| "read_substats (i # is) d =
     (if length d < 14 + 4 * i then Inl Out_of_bounds
      else map_sum id (\<lambda>ids. replicate (unat (sub_count i d)) (ucast (sub_id i d)) @ ids) (read_substats is d))"

fun read_affixes :: "nat list \<Rightarrow> (u32 \<times> u32) list \<Rightarrow> bytes \<Rightarrow> cpp_fault + (u32 \<times> u32) list" where
  "read_affixes [] m d = Inr m"
| "read_affixes (i # is) m d =
     (if length d < 16 + 4 * i then Inl Out_of_bounds
      else read_affixes is (AList.update (get_le (12 + 4 * i) 4 d) (ucast (get_le 7 1 d :: u8)) m) d)"

definition material_pb :: "bytes \<Rightarrow> pb_material" where
  "material_pb d =
     (let t = get_le 8 8 d :: u64
      in \<lparr>pm_count = get_le 0 4 d,
          pm_delete = (if t \<noteq> 0 then Some \<lparr>pd_has_config = True, pd_date = Some (ucast t)\<rparr> else None)\<rparr>)"

definition item_to_pb :: "item \<Rightarrow> cpp_fault + pb_item" where
  "item_to_pb it =
     (let d = it_data it;
          ret = (\<lambda>det. \<lparr>pi_id = it_id it, pi_guid = it_guid it, pi_detail = det\<rparr>);
          locked = (get_le 4 1 d :: u8) \<noteq> 0;
          level = (get_le 5 1 d :: u8)
      in if it_type it = ITEM_MATERIAL then Inr (ret (Material (material_pb d)))
         else if it_type it = ITEM_ARTIFACT
         then map_sum id (\<lambda>ids. ret (Equip locked (Reliquary
                \<lparr>pr_level = ucast level, pr_exp = get_le 0 4 d, pr_promote = ucast level div 4,
                 pr_main = ucast (get_le 6 2 d :: u16), pr_append = ids\<rparr>)))
                (read_substats [0..<unat (get_le 8 2 d :: u16)] d)
         else if it_type it = ITEM_WEAPON
         then map_sum id (\<lambda>afs. ret (Equip locked (Weapon
                \<lparr>pw_level = ucast level, pw_exp = get_le 0 4 d, pw_promote = ucast (get_le 6 1 d :: u8),
                 pw_affixes = afs\<rparr>)))
                (read_affixes [0..<unat (get_le 8 4 d :: u32)] [] d)
         else Inr (ret No_detail))"

end
