(* ===== verification/Avatar.thy ===== *)
theory Avatar
  imports Item
begin

unbundle bit_operations_syntax

text \<open>
  Avatars: \<open>src/avatar.cpp\<close> and \<open>include/avatar.h\<close>, with the lookups of the game data they need
  (\<open>src/data/avatar_data.cpp\<close>, \<open>src/data/avatar_skill_depot_data.cpp\<close>).
\<close>

section \<open>Game data an avatar looks up\<close>

record avatar_ent =
  ad_id :: u32
  ad_skill_depot :: u32

record depot_ent =
  sd_id :: u32
  sd_constellations :: "u32 list"

text \<open>The \<open>operator[]\<close> of both tables: the first entry with an id, or the null pointer.\<close>

definition avatar_by_id :: "avatar_ent list \<Rightarrow> u32 \<Rightarrow> avatar_ent option" where
  "avatar_by_id tbl i = List.find (\<lambda>e. ad_id e = i) tbl"

definition depot_by_id :: "depot_ent list \<Rightarrow> u32 \<Rightarrow> depot_ent option" where
  "depot_by_id tbl i = List.find (\<lambda>e. sd_id e = i) tbl"

section \<open>The object\<close>

text \<open>
  A pointer to an item is an address, \<^term>\<open>None\<close> the null pointer; what lies at an address is looked up
  in the memory of the environment, which also has the game data and what the database gives for the
  owner: the search of an item by its guid in the owner's inventory.
\<close>

type_synonym addr = nat

record avatar_env =
  ae_item :: "addr \<Rightarrow> item option"
  ae_owner :: "u32 \<Rightarrow> (u64 \<Rightarrow> addr option) option"
  ae_avatars :: "avatar_ent list"
  ae_depots :: "depot_ent list"
  ae_now :: u64

record avatar =
  av_id :: u32
  av_guid :: u64
  av_weapon :: "addr option"
  av_artifacts :: "addr option list"
  av_set_equips :: bool
  av_equip_guids :: "u64 list"
  av_level :: u32
  av_exp :: u32
  av_ascension :: u32
  av_hp :: u32
  av_costume :: u32
  av_wings :: u32
  av_friendship :: u32
  av_friendship_exp :: u32
  av_talents :: "u32 list"
  av_constellation :: u32
  av_born :: u64
  av_depot_id :: u32
  av_full :: u32
  av_full_cd :: u32
  av_energy :: u32
  av_data :: "avatar_ent option"
  av_depot :: "depot_ent option"

text \<open>The message an avatar is sent and stored as, with the fields the code sets and reads.\<close>

record pb_avatar =
  pa_id :: u32
  pa_guid :: u64
  pa_life_state :: u32
  pa_equips :: "u64 list"
  pa_talents :: "u32 list"
  pa_depot :: u32
  pa_fetter_level :: u32
  pa_fetter_exp :: u32
  pa_wings :: u32
  pa_born :: u32

section \<open>Construction\<close>

text \<open>\<open>raw\<close> holds the members a constructor does not set.\<close>

definition avatar_default :: "avatar_env \<Rightarrow> avatar \<Rightarrow> avatar" where
  "avatar_default env raw =
     raw\<lparr>av_born := ae_now env, av_level := 1, av_exp := 0, av_friendship := 1, av_friendship_exp := 0,
         av_constellation := 0, av_ascension := 0, av_wings := 14001, av_talents := replicate 3 1,
         av_energy := 0, av_weapon := None, av_artifacts := replicate 5 None, av_set_equips := False,
         av_equip_guids := []\<rparr>"

definition avatar_of_id :: "avatar_env \<Rightarrow> u32 \<Rightarrow> avatar \<Rightarrow> cpp_fault + avatar" where
  "avatar_of_id env i raw =
     (case avatar_by_id (ae_avatars env) i of
        None \<Rightarrow> Inl Null_pointer
      | Some d \<Rightarrow>
          let dep = ad_skill_depot d
          in Inr (raw\<lparr>av_data := Some d, av_depot_id := dep, av_depot := depot_by_id (ae_depots env) dep,
               av_born := ae_now env, av_id := i, av_level := 1, av_exp := 0, av_friendship := 1,
               av_friendship_exp := 0, av_constellation := 0, av_ascension := 0, av_wings := 14001,
               av_talents := replicate 3 1, av_energy := 0, av_weapon := None,
               av_artifacts := replicate 5 None, av_set_equips := False, av_equip_guids := []\<rparr>))"

definition avatar_of_pb :: "avatar_env \<Rightarrow> pb_avatar \<Rightarrow> avatar \<Rightarrow> avatar" where
  "avatar_of_pb env pb raw =
     raw\<lparr>av_id := pa_id pb, av_depot_id := pa_depot pb,
         av_data := avatar_by_id (ae_avatars env) (pa_id pb),
         av_depot := depot_by_id (ae_depots env) (pa_depot pb),
         av_guid := pa_guid pb, av_born := ucast (pa_born pb), av_wings := pa_wings pb,
         av_friendship := pa_fetter_level pb,
         av_friendship_exp := (if 10 \<le> pa_fetter_level pb then 6325 else pa_fetter_exp pb),
         av_constellation := of_nat (length (pa_talents pb)),
         av_equip_guids := pa_equips pb, av_set_equips := False\<rparr>"

section \<open>Equipment\<close>

definition item_read :: "avatar_env \<Rightarrow> addr option \<Rightarrow> cpp_fault + item" where
  "item_read env p =
     (case p of
        None \<Rightarrow> Inl Null_pointer
      | Some a \<Rightarrow> (case ae_item env a of None \<Rightarrow> Inl Dangling | Some it \<Rightarrow> Inr it))"

definition setWeapon :: "avatar_env \<Rightarrow> addr option \<Rightarrow> avatar \<Rightarrow> cpp_fault + int \<times> avatar" where
  "setWeapon env w a =
     (case item_read env w of
        Inl f \<Rightarrow> Inl f
      | Inr it \<Rightarrow> if it_type it \<noteq> ITEM_WEAPON then Inr (-1, a) else Inr (0, a\<lparr>av_weapon := w\<rparr>))"

definition setWeaponIfNull :: "avatar_env \<Rightarrow> addr option \<Rightarrow> avatar \<Rightarrow> cpp_fault + int \<times> avatar" where
  "setWeaponIfNull env w a = (if av_weapon a \<noteq> None then Inr (0, a) else setWeapon env w a)"

definition setArtifact :: "avatar_env \<Rightarrow> addr option \<Rightarrow> u32 \<Rightarrow> avatar \<Rightarrow> cpp_fault + int \<times> avatar" where
  "setArtifact env p idx a =
     (if 5 \<le> idx then Inr (-1, a)
      else case item_read env p of
             Inl f \<Rightarrow> Inl f
           | Inr it \<Rightarrow>
               if it_type it \<noteq> ITEM_ARTIFACT then Inr (-1, a)
               else Inr (0, a\<lparr>av_artifacts := (av_artifacts a)[unat idx := p]\<rparr>))"

definition setArtifactIfNull :: "avatar_env \<Rightarrow> addr option \<Rightarrow> u32 \<Rightarrow> avatar \<Rightarrow> cpp_fault + int \<times> avatar" where
  "setArtifactIfNull env p idx a =
     (if 5 \<le> idx then Inr (-1, a)
      else if av_artifacts a ! unat idx \<noteq> None then Inr (0, a)
      else setArtifact env p idx a)"

text \<open>The slot is the tens digit of the artifact's id, less one; a digit 0 gives a slot far too high.\<close>

definition artifact_slot :: "item \<Rightarrow> u32" where
  "artifact_slot it = (it_id it mod 100) div 10 - 1"

definition setArtifact_auto :: "avatar_env \<Rightarrow> addr option \<Rightarrow> avatar \<Rightarrow> cpp_fault + int \<times> avatar" where
  "setArtifact_auto env p a =
     (case item_read env p of Inl f \<Rightarrow> Inl f | Inr it \<Rightarrow> setArtifact env p (artifact_slot it) a)"

definition setArtifactIfNull_auto :: "avatar_env \<Rightarrow> addr option \<Rightarrow> avatar \<Rightarrow> cpp_fault + int \<times> avatar" where
  "setArtifactIfNull_auto env p a =
     (case item_read env p of Inl f \<Rightarrow> Inl f | Inr it \<Rightarrow> setArtifactIfNull env p (artifact_slot it) a)"

text \<open>\<open>setArtifacts\<close> checks all five before it stores one.\<close>

fun all_artifacts :: "avatar_env \<Rightarrow> addr option list \<Rightarrow> cpp_fault + bool" where
  "all_artifacts env [] = Inr True"
| "all_artifacts env (p # ps) =
     (case item_read env p of
        Inl f \<Rightarrow> Inl f
      | Inr it \<Rightarrow> if it_type it \<noteq> ITEM_ARTIFACT then Inr False else all_artifacts env ps)"

definition setArtifacts :: "avatar_env \<Rightarrow> addr option list \<Rightarrow> avatar \<Rightarrow> cpp_fault + int \<times> avatar" where
  "setArtifacts env ps a =
     (case all_artifacts env (take 5 ps) of
        Inl f \<Rightarrow> Inl f
      | Inr False \<Rightarrow> Inr (-1, a)
      | Inr True \<Rightarrow> Inr (0, a\<lparr>av_artifacts := take 5 ps\<rparr>))"

text \<open>
  \<open>loadEquips\<close>: the equipment is found by the guids the avatar was stored with, once the owner is known.
  The codes of the setters are ignored.
\<close>

definition getOwner :: "avatar_env \<Rightarrow> avatar \<Rightarrow> (u64 \<Rightarrow> addr option) option" where
  "getOwner env a = (if drop_bit 32 (av_guid a) = 0 then None else ae_owner env (ucast (drop_bit 32 (av_guid a))))"

fun equip_all :: "avatar_env \<Rightarrow> (u64 \<Rightarrow> addr option) \<Rightarrow> u64 list \<Rightarrow> avatar \<Rightarrow> cpp_fault + avatar" where
  "equip_all env bag [] a = Inr a"
| "equip_all env bag (g # gs) a =
     (case bag g of
        None \<Rightarrow> equip_all env bag gs a
      | Some t \<Rightarrow>
          (case item_read env (Some t) of
             Inl f \<Rightarrow> Inl f
           | Inr it \<Rightarrow>
               let r = (if it_type it = ITEM_WEAPON then setWeaponIfNull env (Some t) a
                        else if it_type it = ITEM_ARTIFACT then setArtifactIfNull_auto env (Some t) a
                        else Inr (0, a))
               in (case r of Inl f \<Rightarrow> Inl f | Inr (_, a') \<Rightarrow> equip_all env bag gs a')))"

definition loadEquips :: "avatar_env \<Rightarrow> avatar \<Rightarrow> cpp_fault + avatar" where
  "loadEquips env a =
     (case getOwner env a of
        None \<Rightarrow> Inr a
      | Some bag \<Rightarrow> map_sum id (\<lambda>a. a\<lparr>av_set_equips := True\<rparr>) (equip_all env bag (av_equip_guids a) a))"

definition with_equips :: "avatar_env \<Rightarrow> avatar \<Rightarrow> cpp_fault + avatar" where
  "with_equips env a = (if av_set_equips a then Inr a else loadEquips env a)"

definition equip_id :: "avatar_env \<Rightarrow> addr option \<Rightarrow> cpp_fault + u16" where
  "equip_id env p = (if p = None then Inr 0 else map_sum id (\<lambda>it. ucast (it_id it)) (item_read env p))"

definition getWeaponId :: "avatar_env \<Rightarrow> avatar \<Rightarrow> cpp_fault + u16 \<times> avatar" where
  "getWeaponId env a =
     (case with_equips env a of
        Inl f \<Rightarrow> Inl f
      | Inr a' \<Rightarrow> map_sum id (\<lambda>i. (i, a')) (equip_id env (av_weapon a')))"

definition getWeapon :: "avatar_env \<Rightarrow> avatar \<Rightarrow> cpp_fault + addr option \<times> avatar" where
  "getWeapon env a = map_sum id (\<lambda>a'. (av_weapon a', a')) (with_equips env a)"

definition getArtifactId :: "avatar_env \<Rightarrow> u32 \<Rightarrow> avatar \<Rightarrow> cpp_fault + u16 \<times> avatar" where
  "getArtifactId env i a =
     (case with_equips env a of
        Inl f \<Rightarrow> Inl f
      | Inr a' \<Rightarrow>
          if length (av_artifacts a') \<le> unat i then Inl Out_of_bounds
          else map_sum id (\<lambda>n. (n, a')) (equip_id env (av_artifacts a' ! unat i)))"

definition getArtifact :: "avatar_env \<Rightarrow> u32 \<Rightarrow> avatar \<Rightarrow> cpp_fault + addr option \<times> avatar" where
  "getArtifact env i a =
     (case with_equips env a of
        Inl f \<Rightarrow> Inl f
      | Inr a' \<Rightarrow>
          if length (av_artifacts a') \<le> unat i then Inl Out_of_bounds
          else Inr (av_artifacts a' ! unat i, a'))"

definition getArtifacts :: "avatar_env \<Rightarrow> avatar \<Rightarrow> cpp_fault + addr option list \<times> avatar" where
  "getArtifacts env a = map_sum id (\<lambda>a'. (av_artifacts a', a')) (with_equips env a)"

text \<open>\<open>getArtifactIds\<close> does not load the equipment first.\<close>

fun equip_ids :: "avatar_env \<Rightarrow> addr option list \<Rightarrow> cpp_fault + u16 list" where
  "equip_ids env [] = Inr []"
| "equip_ids env (p # ps) =
     (case equip_id env p of Inl f \<Rightarrow> Inl f | Inr i \<Rightarrow> map_sum id ((#) i) (equip_ids env ps))"

definition getArtifactIds :: "avatar_env \<Rightarrow> avatar \<Rightarrow> cpp_fault + u16 list" where
  "getArtifactIds env a = equip_ids env (av_artifacts a)"

section \<open>Identity and owner\<close>

definition getUid :: "avatar \<Rightarrow> u32" where "getUid a = ucast (drop_bit 32 (av_guid a))"

definition setId :: "avatar_env \<Rightarrow> u32 \<Rightarrow> u32 \<Rightarrow> avatar \<Rightarrow> cpp_fault + avatar" where
  "setId env i recalc a =
     (let a = a\<lparr>av_id := i\<rparr>
      in if recalc = 0 then Inr a
         else let a = a\<lparr>av_data := avatar_by_id (ae_avatars env) i\<rparr>
              in case av_data a of
                   None \<Rightarrow> Inl Null_pointer
                 | Some d \<Rightarrow>
                     let dep = ad_skill_depot d
                     in Inr (a\<lparr>av_depot_id := dep, av_depot := depot_by_id (ae_depots env) dep\<rparr>))"

definition setAvatarData :: "avatar_env \<Rightarrow> u32 \<Rightarrow> avatar \<Rightarrow> avatar" where
  "setAvatarData env i a = a\<lparr>av_data := avatar_by_id (ae_avatars env) i\<rparr>"

definition setAvatarEntry :: "avatar_ent option \<Rightarrow> avatar \<Rightarrow> avatar" where
  "setAvatarEntry d a = a\<lparr>av_data := d\<rparr>"

definition setGuid :: "u64 \<Rightarrow> avatar \<Rightarrow> avatar" where
  "setGuid g a =
     (let a = (if ucast (getUid a) \<noteq> drop_bit 32 g then a\<lparr>av_set_equips := False\<rparr> else a)
      in a\<lparr>av_guid := g\<rparr>)"

definition setUid :: "u32 \<Rightarrow> avatar \<Rightarrow> avatar" where
  "setUid u a =
     a\<lparr>av_guid := (av_guid a AND 0xffffffff) OR push_bit 32 (ucast u), av_set_equips := False\<rparr>"

definition setSkillDepotId_data :: "avatar_env \<Rightarrow> avatar \<Rightarrow> cpp_fault + u32 \<times> avatar" where
  "setSkillDepotId_data env a =
     (case av_data a of
        None \<Rightarrow> Inl Null_pointer
      | Some d \<Rightarrow>
          let dep = ad_skill_depot d
          in Inr (dep, a\<lparr>av_depot_id := dep, av_depot := depot_by_id (ae_depots env) dep\<rparr>))"

definition setSkillDepotId :: "avatar_env \<Rightarrow> u32 \<Rightarrow> avatar \<Rightarrow> u32 \<times> avatar" where
  "setSkillDepotId env i a = (i, a\<lparr>av_depot_id := i, av_depot := depot_by_id (ae_depots env) i\<rparr>)"

section \<open>Values\<close>

definition clamp :: "u32 \<Rightarrow> u32 \<Rightarrow> u32 \<Rightarrow> u32" where
  "clamp lo hi x = (if x < lo then lo else if hi < x then hi else x)"

text \<open>Adding a signed amount: the sum wraps, and one whose top bit is set becomes 0.\<close>

definition add_signed :: "u32 \<Rightarrow> i32 \<Rightarrow> u32" where
  "add_signed x n = (if sint (x + n) < 0 then 0 else x + n)"

definition setLevel :: "u32 \<Rightarrow> avatar \<Rightarrow> avatar" where "setLevel l a = a\<lparr>av_level := clamp 1 90 l\<rparr>"
definition setLevel_exp :: "u32 \<Rightarrow> u32 \<Rightarrow> avatar \<Rightarrow> avatar" where
  "setLevel_exp l set_exp a = a\<lparr>av_level := clamp 1 90 l\<rparr>"
definition setExp :: "u32 \<Rightarrow> avatar \<Rightarrow> avatar" where "setExp e a = a\<lparr>av_exp := e\<rparr>"
definition setExp_recalc :: "u32 \<Rightarrow> u32 \<Rightarrow> avatar \<Rightarrow> avatar" where "setExp_recalc e recalc a = a\<lparr>av_exp := e\<rparr>"
definition addExp :: "i32 \<Rightarrow> avatar \<Rightarrow> u32 \<times> avatar" where
  "addExp n a = (let e = add_signed (av_exp a) n in (e, a\<lparr>av_exp := e\<rparr>))"

definition setAscension :: "u32 \<Rightarrow> avatar \<Rightarrow> avatar" where
  "setAscension n a = a\<lparr>av_ascension := (if 6 < n then 6 else n)\<rparr>"
definition ascend :: "avatar \<Rightarrow> int \<times> avatar" where
  "ascend a =
     (if 6 \<le> av_ascension a then (-1, a)
      else let n = av_ascension a + 1 in (int (unat n), a\<lparr>av_ascension := n\<rparr>))"

definition setCurHp :: "u32 \<Rightarrow> avatar \<Rightarrow> avatar" where "setCurHp h a = a\<lparr>av_hp := h\<rparr>"
definition addCurHp :: "i32 \<Rightarrow> avatar \<Rightarrow> u32 \<times> avatar" where
  "addCurHp n a = (let h = add_signed (av_hp a) n in (h, a\<lparr>av_hp := h\<rparr>))"
definition setCostume :: "u32 \<Rightarrow> avatar \<Rightarrow> int \<times> avatar" where "setCostume c a = (0, a\<lparr>av_costume := c\<rparr>)"
definition setWings :: "u32 \<Rightarrow> avatar \<Rightarrow> int \<times> avatar" where "setWings w a = (0, a\<lparr>av_wings := w\<rparr>)"

definition setFriendship :: "u32 \<Rightarrow> avatar \<Rightarrow> avatar" where
  "setFriendship f a = a\<lparr>av_friendship := clamp 1 10 f\<rparr>"
definition setFriendship_recalc :: "u32 \<Rightarrow> u32 \<Rightarrow> avatar \<Rightarrow> avatar" where
  "setFriendship_recalc f recalc a = a\<lparr>av_friendship := clamp 1 10 f\<rparr>"
definition setFriendshipExp :: "u32 \<Rightarrow> avatar \<Rightarrow> avatar" where "setFriendshipExp e a = a\<lparr>av_friendship_exp := e\<rparr>"
definition setFriendshipExp_recalc :: "u32 \<Rightarrow> u32 \<Rightarrow> avatar \<Rightarrow> avatar" where
  "setFriendshipExp_recalc e recalc a = a\<lparr>av_friendship_exp := e\<rparr>"

text \<open>A negative friendship experience resets the other experience, as the code has it.\<close>

definition addFriendshipExp :: "i32 \<Rightarrow> avatar \<Rightarrow> u32 \<times> avatar" where
  "addFriendshipExp n a =
     (let e = av_friendship_exp a + n;
          a = a\<lparr>av_friendship_exp := e\<rparr>
      in (e, if sint e < 0 then a\<lparr>av_exp := 0\<rparr> else a))"

text \<open>\<open>setTalentLevels\<close> clamps the caller's array as well; it is returned.\<close>

definition setTalentLevels :: "u32 list \<Rightarrow> avatar \<Rightarrow> u32 list \<times> avatar" where
  "setTalentLevels t a =
     (let t = map (clamp 1 15) (take 3 t) @ drop 3 t in (t, a\<lparr>av_talents := take 3 t\<rparr>))"

definition getTalentLevel :: "u32 \<Rightarrow> avatar \<Rightarrow> u32" where
  "getTalentLevel i a = (if 3 \<le> i then 0 else av_talents a ! unat i)"

definition setTalentLevel :: "u32 \<Rightarrow> u32 \<Rightarrow> avatar \<Rightarrow> int \<times> avatar" where
  "setTalentLevel l i a =
     (if 3 \<le> i then (-1, a) else (0, a\<lparr>av_talents := (av_talents a)[unat i := clamp 1 15 l]\<rparr>))"

definition addTalentLevel :: "u32 \<Rightarrow> avatar \<Rightarrow> int \<times> avatar" where
  "addTalentLevel i a =
     (if 3 \<le> i then (-1, a)
      else if 15 \<le> av_talents a ! unat i + 1 then (-1, a)
      else let l = av_talents a ! unat i + 1
           in (int (unat l), a\<lparr>av_talents := (av_talents a)[unat i := l]\<rparr>))"

definition setConstellation :: "u32 \<Rightarrow> avatar \<Rightarrow> avatar" where
  "setConstellation c a = a\<lparr>av_constellation := (if 6 < c then 6 else c)\<rparr>"
definition addConstellation :: "avatar \<Rightarrow> int \<times> avatar" where
  "addConstellation a =
     (if 6 \<le> av_constellation a then (-1, a)
      else let n = av_constellation a + 1 in (int (unat n), a\<lparr>av_constellation := n\<rparr>))"

definition setBornTime :: "u64 \<Rightarrow> avatar \<Rightarrow> avatar" where "setBornTime t a = a\<lparr>av_born := t\<rparr>"
definition newBornTime :: "avatar_env \<Rightarrow> avatar \<Rightarrow> u64 \<times> avatar" where
  "newBornTime env a = (ae_now env, a\<lparr>av_born := ae_now env\<rparr>)"

definition setFullness :: "u32 \<Rightarrow> avatar \<Rightarrow> avatar" where "setFullness f a = a\<lparr>av_full := f\<rparr>"
definition addFullness :: "i32 \<Rightarrow> avatar \<Rightarrow> u32 \<times> avatar" where
  "addFullness n a = (let f = add_signed (av_full a) n in (f, a\<lparr>av_full := f\<rparr>))"
definition setFullnessCd :: "u32 \<Rightarrow> avatar \<Rightarrow> avatar" where "setFullnessCd f a = a\<lparr>av_full_cd := f\<rparr>"
definition addFullnessCd :: "i32 \<Rightarrow> avatar \<Rightarrow> u32 \<times> avatar" where
  "addFullnessCd n a = (let f = add_signed (av_full_cd a) n in (f, a\<lparr>av_full_cd := f\<rparr>))"
definition setEnergy :: "u32 \<Rightarrow> avatar \<Rightarrow> avatar" where "setEnergy e a = a\<lparr>av_energy := e\<rparr>"
definition addEnergy :: "i32 \<Rightarrow> avatar \<Rightarrow> u32 \<times> avatar" where
  "addEnergy n a = (let e = add_signed (av_energy a) n in (e, a\<lparr>av_energy := e\<rparr>))"

section \<open>To a message\<close>

text \<open>The guids of what is worn, the weapon first.\<close>

fun worn_guids :: "avatar_env \<Rightarrow> addr option list \<Rightarrow> cpp_fault + u64 list" where
  "worn_guids env [] = Inr []"
| "worn_guids env (p # ps) =
     (if p = None then worn_guids env ps
      else case item_read env p of
             Inl f \<Rightarrow> Inl f
           | Inr it \<Rightarrow> map_sum id ((#) (it_guid it)) (worn_guids env ps))"

definition constellation_skills :: "avatar \<Rightarrow> cpp_fault + u32 list" where
  "constellation_skills a =
     (if av_constellation a = 0 then Inr []
      else case av_depot a of
             None \<Rightarrow> Inl Null_pointer
           | Some dep \<Rightarrow>
               if length (sd_constellations dep) < unat (av_constellation a) then Inl Out_of_bounds
               else Inr (take (unat (av_constellation a)) (sd_constellations dep)))"

text \<open>The conversion of a constant avatar; the other one loads the equipment first.\<close>

definition avatar_to_pb_const :: "avatar_env \<Rightarrow> avatar \<Rightarrow> cpp_fault + pb_avatar" where
  "avatar_to_pb_const env a =
     (case worn_guids env (av_weapon a # av_artifacts a) of
        Inl f \<Rightarrow> Inl f
      | Inr gs \<Rightarrow>
          map_sum id (\<lambda>ts. \<lparr>pa_id = av_id a, pa_guid = av_guid a, pa_life_state = 1, pa_equips = gs,
              pa_talents = ts, pa_depot = av_depot_id a, pa_fetter_level = av_friendship a,
              pa_fetter_exp = (if av_friendship a < 10 then av_friendship_exp a else 0),
              pa_wings = av_wings a, pa_born = ucast (av_born a)\<rparr>)
            (constellation_skills a))"

definition avatar_to_pb :: "avatar_env \<Rightarrow> avatar \<Rightarrow> cpp_fault + pb_avatar \<times> avatar" where
  "avatar_to_pb env a =
     (case with_equips env a of
        Inl f \<Rightarrow> Inl f
      | Inr a' \<Rightarrow> map_sum id (\<lambda>pb. (pb, a')) (avatar_to_pb_const env a'))"

end
