(* ===== verification/Team.thy ===== *)
theory Team
  imports Avatar
begin

unbundle bit_operations_syntax

text \<open>
  Teams of avatars: \<open>src/team.cpp\<close> and \<open>include/team.h\<close>.
\<close>

section \<open>The object\<close>

text \<open>
  A team holds pointers to avatars; what they point to is looked up in the memory \<open>mem\<close>. Erasing an
  element in a loop that then increments the same iterator is undefined: a fault.
\<close>

type_synonym avatar_memory = "addr \<Rightarrow> avatar option"

record team =
  tm_name :: bytes
  tm_avatars :: "addr option list"

record pb_team =
  pt_guids :: "u64 list"
  pt_name :: bytes

definition team_new :: team where
  "team_new = \<lparr>tm_name = [], tm_avatars = []\<rparr>"

definition avatar_guid :: "avatar_memory \<Rightarrow> addr option \<Rightarrow> cpp_fault + u64" where
  "avatar_guid mem p =
     (case p of
        None \<Rightarrow> Inl Null_pointer
      | Some x \<Rightarrow> (case mem x of None \<Rightarrow> Inl Dangling | Some a \<Rightarrow> Inr (av_guid a)))"

section \<open>Conversion\<close>

text \<open>\<open>look\<close> is the player's search of an avatar by guid; what it does not find is stored as a null pointer.\<close>

definition team_of_pb :: "(u64 \<Rightarrow> addr option) \<Rightarrow> pb_team \<Rightarrow> team" where
  "team_of_pb look pb = \<lparr>tm_name = pt_name pb, tm_avatars = map look (pt_guids pb)\<rparr>"

fun team_guids :: "avatar_memory \<Rightarrow> addr option list \<Rightarrow> cpp_fault + u64 list" where
  "team_guids mem [] = Inr []"
| "team_guids mem (p # ps) =
     (if p = None then team_guids mem ps
      else case avatar_guid mem p of
             Inl f \<Rightarrow> Inl f
           | Inr g \<Rightarrow> map_sum id ((#) g) (team_guids mem ps))"

definition team_to_pb :: "avatar_memory \<Rightarrow> team \<Rightarrow> cpp_fault + pb_team" where
  "team_to_pb mem t = map_sum id (\<lambda>gs. \<lparr>pt_guids = gs, pt_name = tm_name t\<rparr>) (team_guids mem (tm_avatars t))"

definition setName :: "bytes \<Rightarrow> team \<Rightarrow> team" where "setName n t = t\<lparr>tm_name := n\<rparr>"
definition setAvatars :: "addr option list \<Rightarrow> team \<Rightarrow> team" where "setAvatars l t = t\<lparr>tm_avatars := l\<rparr>"

section \<open>Adding\<close>

text \<open>The loop looks for the avatar and counts: whether it was found, and the count.\<close>

fun team_scan :: "avatar_memory \<Rightarrow> addr \<Rightarrow> addr option list \<Rightarrow> nat \<Rightarrow> cpp_fault + bool \<times> nat" where
  "team_scan mem a [] n = Inr (False, n)"
| "team_scan mem a (p # ps) n =
     (if p = None then Inl Invalid_iterator
      else if p = Some a then Inr (True, n)
      else case (avatar_guid mem p, avatar_guid mem (Some a)) of
             (Inr g, Inr h) \<Rightarrow> if g = h then Inr (True, n) else team_scan mem a ps (n + 1)
           | (Inl f, _) \<Rightarrow> Inl f
           | (_, Inl f) \<Rightarrow> Inl f)"

definition team_addAvatar :: "avatar_memory \<Rightarrow> addr option \<Rightarrow> team \<Rightarrow> cpp_fault + int \<times> team" where
  "team_addAvatar mem a t =
     (case a of
        None \<Rightarrow> Inr (-1, t)
      | Some x \<Rightarrow>
          (case team_scan mem x (tm_avatars t) 0 of
             Inl f \<Rightarrow> Inl f
           | Inr (found, n) \<Rightarrow>
               if found then Inr (int n, t)
               else if 4 \<le> n then Inr (-1, t)
               else Inr (int n + 1, t\<lparr>tm_avatars := tm_avatars t @ [a]\<rparr>)))"

section \<open>Removing\<close>

text \<open>Each loop goes on after the first element it erases, with an iterator to the erased element.\<close>

fun del_loop :: "(addr option \<Rightarrow> nat \<Rightarrow> cpp_fault + bool) \<Rightarrow> addr option list \<Rightarrow> nat \<Rightarrow> cpp_fault + unit" where
  "del_loop hit [] n = Inr ()"
| "del_loop hit (p # ps) n =
     (if p = None then Inl Invalid_iterator
      else case hit p n of
             Inl f \<Rightarrow> Inl f
           | Inr True \<Rightarrow> Inl Invalid_iterator
           | Inr False \<Rightarrow> del_loop hit ps (n + 1))"

definition team_delAvatar :: "avatar_memory \<Rightarrow> addr option \<Rightarrow> team \<Rightarrow> cpp_fault + team" where
  "team_delAvatar mem a t =
     (case a of
        None \<Rightarrow> Inr t
      | Some x \<Rightarrow>
          map_sum id (\<lambda>_. t)
            (del_loop (\<lambda>p n. if p = a then Inr True
                             else case (avatar_guid mem p, avatar_guid mem a) of
                                    (Inr g, Inr h) \<Rightarrow> Inr (g = h)
                                  | (Inl f, _) \<Rightarrow> Inl f
                                  | (_, Inl f) \<Rightarrow> Inl f) (tm_avatars t) 0))"

definition team_delAvatar_index :: "u32 \<Rightarrow> team \<Rightarrow> cpp_fault + team" where
  "team_delAvatar_index i t =
     map_sum id (\<lambda>_. t) (del_loop (\<lambda>p n. Inr (of_nat n = i)) (tm_avatars t) 0)"

definition team_delAvatar_guid :: "avatar_memory \<Rightarrow> u64 \<Rightarrow> team \<Rightarrow> cpp_fault + team" where
  "team_delAvatar_guid mem g t =
     map_sum id (\<lambda>_. t) (del_loop (\<lambda>p n. map_sum id (\<lambda>h. h = g) (avatar_guid mem p)) (tm_avatars t) 0)"

section \<open>Looking up and replacing\<close>

definition team_getAvatar_index :: "u32 \<Rightarrow> team \<Rightarrow> addr option" where
  "team_getAvatar_index i t = (if unat i < length (tm_avatars t) then tm_avatars t ! unat i else None)"

fun team_find :: "avatar_memory \<Rightarrow> u64 \<Rightarrow> addr option list \<Rightarrow> cpp_fault + addr option" where
  "team_find mem g [] = Inr None"
| "team_find mem g (p # ps) =
     (case avatar_guid mem p of
        Inl f \<Rightarrow> Inl f
      | Inr h \<Rightarrow> if h = g then Inr p else team_find mem g ps)"

definition team_getAvatar_guid :: "avatar_memory \<Rightarrow> u64 \<Rightarrow> team \<Rightarrow> cpp_fault + addr option" where
  "team_getAvatar_guid mem g t = team_find mem g (tm_avatars t)"

fun team_replace :: "addr option \<Rightarrow> nat \<Rightarrow> addr option list \<Rightarrow> cpp_fault + addr option list option" where
  "team_replace a i [] = Inr None"
| "team_replace a i (p # ps) =
     (if p = None then Inl Invalid_iterator
      else case i of
             0 \<Rightarrow> Inr (Some (a # ps))
           | Suc j \<Rightarrow> map_sum id (map_option ((#) p)) (team_replace a j ps))"

definition team_setAvatar :: "addr option \<Rightarrow> u32 \<Rightarrow> team \<Rightarrow> cpp_fault + int \<times> team" where
  "team_setAvatar a i t =
     (case team_replace a (unat i) (tm_avatars t) of
        Inl f \<Rightarrow> Inl f
      | Inr None \<Rightarrow> Inr (-1, t)
      | Inr (Some l) \<Rightarrow> Inr (sint i, t\<lparr>tm_avatars := l\<rparr>))"

definition team_size :: "team \<Rightarrow> nat" where "team_size t = length (tm_avatars t)"

section \<open>Comparing\<close>

text \<open>
  The loop of \<open>operator==\<close> for lists of the same length that differ: the elements are never the same
  objects, as one list is a copy; its first iterator takes two steps where the second takes one.
\<close>

fun team_eq_loop :: "avatar_memory \<Rightarrow> addr option list \<Rightarrow> addr option list \<Rightarrow> cpp_fault + bool" where
  "team_eq_loop mem (x # xs) (y # ys) =
     (case (avatar_guid mem x, avatar_guid mem y) of
        (Inr g, Inr h) \<Rightarrow>
          if g \<noteq> h then Inr False
          else (case xs of
                  [] \<Rightarrow> Inr False
                | _ # xs' \<Rightarrow> team_eq_loop mem xs' ys)
      | (Inl f, _) \<Rightarrow> Inl f
      | (_, Inl f) \<Rightarrow> Inl f)"
| "team_eq_loop mem _ _ = Inl Invalid_iterator"

definition team_eq :: "avatar_memory \<Rightarrow> team \<Rightarrow> team \<Rightarrow> cpp_fault + bool" where
  "team_eq mem t u =
     (if tm_name t \<noteq> tm_name u then Inr False
      else if tm_avatars t = tm_avatars u then Inr True
      else if length (tm_avatars t) \<noteq> length (tm_avatars u) then Inr False
      else team_eq_loop mem (tm_avatars t) (tm_avatars u))"

definition team_neq :: "avatar_memory \<Rightarrow> team \<Rightarrow> team \<Rightarrow> cpp_fault + bool" where
  "team_neq mem t u = map_sum id Not (team_eq mem t u)"

section \<open>Members\<close>

text \<open>A sound team: at most four avatars, all of them there, with different guids.\<close>

definition guid_of :: "avatar_memory \<Rightarrow> addr option \<Rightarrow> u64" where
  "guid_of mem p = av_guid (the (mem (the p)))"

definition member_ok :: "avatar_memory \<Rightarrow> addr option \<Rightarrow> bool" where
  "member_ok mem p = (case p of None \<Rightarrow> False | Some x \<Rightarrow> mem x \<noteq> None)"

definition team_ok :: "avatar_memory \<Rightarrow> team \<Rightarrow> bool" where
  "team_ok mem t \<longleftrightarrow> length (tm_avatars t) \<le> 4 \<and> list_all (member_ok mem) (tm_avatars t) \<and>
     distinct (map (guid_of mem) (tm_avatars t))"

lemma avatar_guid_ok: "member_ok mem p \<Longrightarrow> avatar_guid mem p = Inr (guid_of mem p)"
  by (auto simp: member_ok_def avatar_guid_def guid_of_def split: option.splits)

definition find_index :: "('a \<Rightarrow> bool) \<Rightarrow> 'a list \<Rightarrow> nat" where
  "find_index P l = length (takeWhile (\<lambda>x. \<not> P x) l)"

lemma find_index_simps [simp]:
  "find_index P [] = 0" "find_index P (x # xs) = (if P x then 0 else Suc (find_index P xs))"
  by (simp_all add: find_index_def)

lemma find_index_less: "find_index P l < length l \<longleftrightarrow> (\<exists>x\<in>set l. P x)"
  by (induction l) auto

lemma find_index_none: "\<forall>x\<in>set l. \<not> P x \<Longrightarrow> find_index P l = length l"
  by (induction l) auto

lemma team_scan_ok:
  assumes "list_all (member_ok mem) l" "member_ok mem (Some a)"
  shows "team_scan mem a l n =
    (let i = find_index (\<lambda>p. guid_of mem p = guid_of mem (Some a)) l in Inr (i < length l, n + i))"
  using assms(1)
proof (induction l arbitrary: n)
  case (Cons p ps)
  then have "p \<noteq> None" by (cases p) (simp_all add: member_ok_def)
  with Cons show ?case
    by (auto simp: avatar_guid_ok assms(2) Let_def)
qed (simp add: Let_def)

text \<open>Adding an avatar: its position if the team has its guid already, -1 for a full team, or the new size.\<close>

lemma team_add_outcome:
  assumes "team_ok mem t" "mem x = Some av"
  shows "let same = (\<lambda>p. guid_of mem p = av_guid av); l = tm_avatars t
         in team_addAvatar mem (Some x) t =
           Inr (if \<exists>p\<in>set l. same p then (int (find_index same l), t)
                else if length l = 4 then (-1, t)
                else (int (length l) + 1, t\<lparr>tm_avatars := l @ [Some x]\<rparr>))"
    and "\<And>r t'. team_addAvatar mem (Some x) t = Inr (r, t') \<Longrightarrow> team_ok mem t'"
proof -
  have m: "member_ok mem (Some x)" "guid_of mem (Some x) = av_guid av"
    using assms(2) by (simp_all add: member_ok_def guid_of_def)
  have ok: "list_all (member_ok mem) (tm_avatars t)" "length (tm_avatars t) \<le> 4"
    using assms(1) by (simp_all add: team_ok_def)
  let ?same = "\<lambda>p. guid_of mem p = av_guid av"
  have s: "team_scan mem x (tm_avatars t) 0 =
      Inr (find_index ?same (tm_avatars t) < length (tm_avatars t), find_index ?same (tm_avatars t))"
    using team_scan_ok [OF ok(1) m(1), of 0] by (simp add: m(2) Let_def)
  show 1: "let same = (\<lambda>p. guid_of mem p = av_guid av); l = tm_avatars t
         in team_addAvatar mem (Some x) t =
           Inr (if \<exists>p\<in>set l. same p then (int (find_index same l), t)
                else if length l = 4 then (-1, t)
                else (int (length l) + 1, t\<lparr>tm_avatars := l @ [Some x]\<rparr>))"
    using ok(2) by (auto simp: team_addAvatar_def s Let_def find_index_less find_index_none)
  show "team_ok mem t'" if "team_addAvatar mem (Some x) t = Inr (r, t')" for r t'
    using 1 that assms(1) m ok(2) by (auto simp: Let_def team_ok_def m(2) image_iff split: if_splits)
qed

text \<open>Equality holds exactly for the same name and the same pointers.\<close>

lemma team_eq_loop_never: "team_eq_loop mem xs ys \<noteq> Inr True"
  by (induction mem xs ys rule: team_eq_loop.induct) (auto split: sum.splits list.splits)

lemma team_eq_true: "team_eq mem t u = Inr True \<longleftrightarrow> t = u"
  using team_eq_loop_never [of mem "tm_avatars t" "tm_avatars u"] by (cases t; cases u) (auto simp: team_eq_def)

text \<open>Removing a member never succeeds; removing what is not there does nothing.\<close>

lemma team_delete_outcome:
  assumes "list_all (member_ok mem) (tm_avatars t)" "mem x = Some av"
  shows "team_delAvatar mem (Some x) t =
    (if \<exists>p\<in>set (tm_avatars t). guid_of mem p = av_guid av then Inl Invalid_iterator else Inr t)"
proof -
  have m: "member_ok mem (Some x)" "guid_of mem (Some x) = av_guid av"
    using assms(2) by (simp_all add: member_ok_def guid_of_def)
  let ?hit = "\<lambda>p (n :: nat). if p = Some x then Inr True
       else case (avatar_guid mem p, avatar_guid mem (Some x)) of
              (Inr g, Inr h) \<Rightarrow> Inr (g = h) | (Inl f, _) \<Rightarrow> Inl f | (_, Inl f) \<Rightarrow> Inl f"
  have "del_loop ?hit l n = (if \<exists>p\<in>set l. guid_of mem p = av_guid av then Inl Invalid_iterator else Inr ())"
    if "list_all (member_ok mem) l" for l n
    using that
  proof (induction l arbitrary: n)
    case (Cons p ps)
    then have "p \<noteq> None" by (cases p) (simp_all add: member_ok_def)
    with Cons show ?case by (auto simp: avatar_guid_ok m split: bool.splits)
  qed simp
  from this [OF assms(1)] show ?thesis by (simp add: team_delAvatar_def)
qed

end
