(* ===== verification/Player.thy ===== *)
theory Player
  imports Team
begin

unbundle bit_operations_syntax

text \<open>
  The player of \<open>src/player.cpp\<close>: its avatars, teams and items.
\<close>

section \<open>Lists whose elements have addresses\<close>

text \<open>
  A \<open>std::list\<close> keeps its elements where they are: an element is its address with its value. Appending
  allocates an address, which is an argument.
\<close>

definition find_node :: "('a \<Rightarrow> bool) \<Rightarrow> (addr \<times> 'a) list \<Rightarrow> addr option" where
  "find_node P l = map_option fst (List.find (\<lambda>(_, x). P x) l)"

fun replace_node :: "('a \<Rightarrow> bool) \<Rightarrow> 'a \<Rightarrow> (addr \<times> 'a) list \<Rightarrow> (addr \<times> 'a) list option" where
  "replace_node P v [] = None"
| "replace_node P v ((p, x) # l) =
     (if P x then Some ((p, v) # l) else map_option ((#) (p, x)) (replace_node P v l))"

fun erase_node :: "('a \<Rightarrow> bool) \<Rightarrow> (addr \<times> 'a) list \<Rightarrow> (addr \<times> 'a) list option" where
  "erase_node P [] = None"
| "erase_node P ((p, x) # l) =
     (if P x then Some l else map_option ((#) (p, x)) (erase_node P l))"

text \<open>The value with a key, and writing one: in place if the key is there, else at the end.\<close>

definition value_at :: "('a \<Rightarrow> 'k) \<Rightarrow> 'k \<Rightarrow> (addr \<times> 'a) list \<Rightarrow> 'a option" where
  "value_at key k l = map_option snd (List.find (\<lambda>(_, x). key x = k) l)"

definition put_node :: "('a \<Rightarrow> 'k) \<Rightarrow> 'a \<Rightarrow> addr \<Rightarrow> (addr \<times> 'a) list \<Rightarrow> (addr \<times> 'a) list" where
  "put_node key v new l =
     (case replace_node (\<lambda>x. key x = key v) v l of Some l' \<Rightarrow> l' | None \<Rightarrow> l @ [(new, v)])"

section \<open>The object\<close>

definition PROP_PLAYER_LEVEL :: u32 where "PROP_PLAYER_LEVEL = 10013"
definition PROP_PLAYER_EXP :: u32 where "PROP_PLAYER_EXP = 10014"
definition PROP_PLAYER_HCOIN :: u32 where "PROP_PLAYER_HCOIN = 10015"
definition PROP_PLAYER_SCOIN :: u32 where "PROP_PLAYER_SCOIN = 10016"
definition PROP_PLAYER_WORLD_LEVEL :: u32 where "PROP_PLAYER_WORLD_LEVEL = 10019"
definition PROP_PLAYER_RESIN :: u32 where "PROP_PLAYER_RESIN = 10020"
definition PROP_PLAYER_MCOIN :: u32 where "PROP_PLAYER_MCOIN = 10025"
definition PROP_PLAYER_LEGENDARY_KEY :: u32 where "PROP_PLAYER_LEGENDARY_KEY = 10027"
definition PROP_PLAYER_LEGENDARY_DAILY_TASK_NUM :: u32 where "PROP_PLAYER_LEGENDARY_DAILY_TASK_NUM = 10041"

text \<open>
  The session of a player is its state, its id and its seed, \<^term>\<open>None\<close> for no session. World, scene
  and position are not part of the model.
\<close>

record player_session =
  ps_state :: int
  ps_kcp :: bool
  ps_id :: u64
  ps_seed :: u64

record player =
  pl_aid :: "u32 option"
  pl_uid :: u32
  pl_session :: "player_session option"
  pl_teams :: "(addr \<times> team) list"
  pl_avatars :: "(addr \<times> avatar) list"
  pl_items :: "(addr \<times> item) list"
  pl_cur_team :: u32
  pl_cur_avatar :: "addr option"
  pl_scene :: u32
  pl_tp :: u32
  pl_next :: u32
  pl_world :: u32
  pl_ar :: u32
  pl_ar_exp :: u64
  pl_name :: bytes
  pl_signature :: bytes
  pl_namecard :: u32
  pl_pfp :: u32
  pl_props :: "u32 \<rightharpoonup> u64"
  pl_openstates :: "u32 list"

definition avatars_at :: "player \<Rightarrow> avatar_memory" where
  "avatars_at pl = map_of (pl_avatars pl)"

section \<open>Avatars\<close>

definition getAvatarById :: "u32 \<Rightarrow> player \<Rightarrow> addr option" where
  "getAvatarById i pl = find_node (\<lambda>a. av_id a = i) (pl_avatars pl)"

definition getAvatarByGuid :: "u64 \<Rightarrow> player \<Rightarrow> addr option" where
  "getAvatarByGuid g pl = find_node (\<lambda>a. av_guid a = g) (pl_avatars pl)"

text \<open>The current avatar of a player that may change it is searched anew, by the guid of the one pointed to.\<close>

definition getCurAvatar :: "player \<Rightarrow> cpp_fault + addr option" where
  "getCurAvatar pl = map_sum id (\<lambda>g. getAvatarByGuid g pl) (avatar_guid (avatars_at pl) (pl_cur_avatar pl))"

text \<open>An argument that is not constant is changed as well; it is returned.\<close>

definition setAvatar :: "addr \<Rightarrow> u64 \<Rightarrow> avatar \<Rightarrow> player \<Rightarrow> int \<times> avatar \<times> player" where
  "setAvatar new g a pl =
     (let a = setGuid g a in (0, a, pl\<lparr>pl_avatars := put_node av_guid a new (pl_avatars pl)\<rparr>))"

definition setAvatar_const :: "addr \<Rightarrow> u64 \<Rightarrow> avatar \<Rightarrow> player \<Rightarrow> int \<times> player" where
  "setAvatar_const new g a pl =
     (if av_guid a \<noteq> g then (-1, pl)
      else (0, pl\<lparr>pl_avatars := put_node av_guid a new (pl_avatars pl)\<rparr>))"

definition updateAvatar :: "avatar \<Rightarrow> player \<Rightarrow> int \<times> player" where
  "updateAvatar a pl =
     (case replace_node (\<lambda>x. av_guid x = av_guid a) a (pl_avatars pl) of
        Some l \<Rightarrow> (0, pl\<lparr>pl_avatars := l\<rparr>)
      | None \<Rightarrow> (-1, pl))"

definition addAvatar :: "addr \<Rightarrow> avatar option \<Rightarrow> player \<Rightarrow> int \<times> avatar option \<times> player" where
  "addAvatar new a pl =
     (case a of
        None \<Rightarrow> (-1, None, pl)
      | Some a \<Rightarrow>
          let (a, pl) = (if av_guid a AND 0xffffffff = 0
                         then (setGuid (ucast (pl_next pl)) a, pl\<lparr>pl_next := pl_next pl + 1\<rparr>) else (a, pl));
              a = (if getUid a = 0 then setUid (pl_uid pl) a else a)
          in (0, Some a, pl\<lparr>pl_avatars := pl_avatars pl @ [(new, a)]\<rparr>))"

definition addAvatar_const :: "addr \<Rightarrow> avatar option \<Rightarrow> player \<Rightarrow> int \<times> player" where
  "addAvatar_const new a pl =
     (case a of
        None \<Rightarrow> (-1, pl)
      | Some a \<Rightarrow> (0, pl\<lparr>pl_avatars := pl_avatars pl @ [(new, a)]\<rparr>))"

text \<open>
  The variants that make the avatar themselves read \<open>avatars.end()\<close> to return its address.
\<close>

definition addAvatar_new :: "bool \<Rightarrow> player \<Rightarrow> cpp_fault + int \<times> player" where
  "addAvatar_new has_out pl = (if \<not> has_out then Inr (-1, pl) else Inl Invalid_iterator)"

definition addAvatar_new_id :: "avatar_env \<Rightarrow> u32 \<Rightarrow> bool \<Rightarrow> avatar \<Rightarrow> player \<Rightarrow> cpp_fault + int \<times> player" where
  "addAvatar_new_id env i has_out raw pl =
     (if \<not> has_out then Inr (-1, pl)
      else case avatar_of_id env i raw of
             Inl f \<Rightarrow> Inl f
           | Inr a \<Rightarrow> Inl Invalid_iterator)"

definition del_avatar :: "(avatar \<Rightarrow> bool) \<Rightarrow> player \<Rightarrow> int \<times> player" where
  "del_avatar P pl =
     (case erase_node P (pl_avatars pl) of
        Some l \<Rightarrow> (0, pl\<lparr>pl_avatars := l\<rparr>)
      | None \<Rightarrow> (-1, pl))"

definition delAvatar_id :: "u32 \<Rightarrow> player \<Rightarrow> int \<times> player" where
  "delAvatar_id i = del_avatar (\<lambda>a. av_id a = i)"

definition delAvatar_guid :: "u64 \<Rightarrow> player \<Rightarrow> int \<times> player" where
  "delAvatar_guid g = del_avatar (\<lambda>a. av_guid a = g)"

definition delAvatar :: "avatar_memory \<Rightarrow> addr option \<Rightarrow> player \<Rightarrow> cpp_fault + int \<times> player" where
  "delAvatar mem a pl =
     (if a = None then Inr (0, pl)
      else if pl_avatars pl = [] then Inr (-1, pl)
      else map_sum id (\<lambda>g. delAvatar_guid g pl) (avatar_guid mem a))"

definition swapToAvatar :: "addr option \<Rightarrow> player \<Rightarrow> int \<times> player" where
  "swapToAvatar a pl = (if a = None then (-1, pl) else (0, pl\<lparr>pl_cur_avatar := a\<rparr>))"

definition swapToAvatar_id :: "u32 \<Rightarrow> player \<Rightarrow> int \<times> player" where
  "swapToAvatar_id i pl = swapToAvatar (getAvatarById i pl) pl"

definition swapToAvatar_guid :: "u64 \<Rightarrow> player \<Rightarrow> int \<times> player" where
  "swapToAvatar_guid g pl = swapToAvatar (getAvatarByGuid g pl) pl"

section \<open>Teams\<close>

definition getAvatarTeam :: "u32 \<Rightarrow> player \<Rightarrow> addr option" where
  "getAvatarTeam i pl =
     (if length (pl_teams pl) \<le> unat i then None else Some (fst (pl_teams pl ! unat i)))"

definition getCurAvatarTeam :: "player \<Rightarrow> addr option" where
  "getCurAvatarTeam pl = getAvatarTeam (pl_cur_team pl) pl"

definition swapToTeam_index :: "u32 \<Rightarrow> player \<Rightarrow> int \<times> player" where
  "swapToTeam_index i pl =
     (if length (pl_teams pl) \<le> unat i then (-1, pl) else (sint (pl_cur_team pl), pl\<lparr>pl_cur_team := i\<rparr>))"

text \<open>The team to swap to is one of the player's own, by its address, or one equal to it; \<open>t\<close> is what it points to.\<close>

fun team_index :: "avatar_memory \<Rightarrow> addr \<Rightarrow> team \<Rightarrow> (addr \<times> team) list \<Rightarrow> nat \<Rightarrow> cpp_fault + nat option" where
  "team_index mem p t [] n = Inr None"
| "team_index mem p t ((q, u) # l) n =
     (if p = q then Inr (Some n)
      else case team_eq mem t u of
             Inl f \<Rightarrow> Inl f
           | Inr True \<Rightarrow> Inr (Some n)
           | Inr False \<Rightarrow> team_index mem p t l (n + 1))"

definition swapToTeam :: "addr \<Rightarrow> team \<Rightarrow> player \<Rightarrow> cpp_fault + int \<times> player" where
  "swapToTeam p t pl =
     map_sum id (\<lambda>r. case r of
         None \<Rightarrow> (-1, pl)
       | Some n \<Rightarrow> (sint (pl_cur_team pl), pl\<lparr>pl_cur_team := of_nat n\<rparr>))
       (team_index (avatars_at pl) p t (pl_teams pl) 0)"

definition addAvatarTeam :: "addr \<Rightarrow> team option \<Rightarrow> player \<Rightarrow> int \<times> player" where
  "addAvatarTeam new t pl =
     (case t of
        None \<Rightarrow> (-1, pl)
      | Some t \<Rightarrow> (0, pl\<lparr>pl_teams := pl_teams pl @ [(new, t)]\<rparr>))"

definition addAvatarTeam_of :: "addr \<Rightarrow> bytes \<Rightarrow> addr option list \<Rightarrow> player \<Rightarrow> int \<times> player" where
  "addAvatarTeam_of new n avs pl = addAvatarTeam new (Some (setAvatars avs (setName n team_new))) pl"

definition addAvatarTeam_name :: "addr \<Rightarrow> bytes \<Rightarrow> player \<Rightarrow> int \<times> player" where
  "addAvatarTeam_name new n pl = addAvatarTeam new (Some (setName n team_new)) pl"

text \<open>\<open>addAvatarTeam()\<close> names the team \<open>New Team\<close>.\<close>

definition addAvatarTeam_default :: "addr \<Rightarrow> player \<Rightarrow> int \<times> player" where
  "addAvatarTeam_default new pl =
     addAvatarTeam_name new [0x4e, 0x65, 0x77, 0x20, 0x54, 0x65, 0x61, 0x6d] pl"

definition setAvatarTeam :: "team \<Rightarrow> u32 \<Rightarrow> player \<Rightarrow> int \<times> player" where
  "setAvatarTeam t i pl =
     (if unat i < length (pl_teams pl)
      then (0, pl\<lparr>pl_teams := (pl_teams pl)[unat i := (fst (pl_teams pl ! unat i), t)]\<rparr>)
      else (-1, pl))"

definition setAvatarTeam_of :: "bytes \<Rightarrow> addr option list \<Rightarrow> u32 \<Rightarrow> player \<Rightarrow> int \<times> player" where
  "setAvatarTeam_of n avs i pl = setAvatarTeam (setAvatars avs (setName n team_new)) i pl"

definition delAvatarTeam :: "u32 \<Rightarrow> player \<Rightarrow> int \<times> player" where
  "delAvatarTeam i pl =
     (if unat i < length (pl_teams pl)
      then (0, pl\<lparr>pl_teams := take (unat i) (pl_teams pl) @ drop (unat i + 1) (pl_teams pl)\<rparr>)
      else (-1, pl))"

text \<open>Adding to and removing from a team, given by its address among the player's teams.\<close>

definition with_team :: "(team \<Rightarrow> cpp_fault + int \<times> team) \<Rightarrow> addr \<Rightarrow> player \<Rightarrow> cpp_fault + int \<times> player" where
  "with_team f p pl =
     (case map_of (pl_teams pl) p of
        None \<Rightarrow> Inl Dangling
      | Some t \<Rightarrow>
          map_sum id (\<lambda>(r, t'). (r, pl\<lparr>pl_teams := map (\<lambda>(q, u). if q = p then (q, t') else (q, u)) (pl_teams pl)\<rparr>))
            (f t))"

definition addAvatarToTeam :: "addr option \<Rightarrow> addr option \<Rightarrow> player \<Rightarrow> cpp_fault + int \<times> player" where
  "addAvatarToTeam a team pl =
     (case team of
        None \<Rightarrow> Inr (-1, pl)
      | Some p \<Rightarrow> if a = None then Inr (-1, pl) else with_team (team_addAvatar (avatars_at pl) a) p pl)"

definition addAvatarToTeam_id :: "u32 \<Rightarrow> addr option \<Rightarrow> player \<Rightarrow> cpp_fault + int \<times> player" where
  "addAvatarToTeam_id i team pl = addAvatarToTeam (getAvatarById i pl) team pl"

definition addAvatarToTeam_guid :: "u64 \<Rightarrow> addr option \<Rightarrow> player \<Rightarrow> cpp_fault + int \<times> player" where
  "addAvatarToTeam_guid g team pl = addAvatarToTeam (getAvatarByGuid g pl) team pl"

definition removeAvatarFromTeam :: "addr option \<Rightarrow> addr option \<Rightarrow> player \<Rightarrow> cpp_fault + int \<times> player" where
  "removeAvatarFromTeam a team pl =
     (case team of
        None \<Rightarrow> Inr (0, pl)
      | Some p \<Rightarrow>
          if a = None then Inr (0, pl)
          else with_team (\<lambda>t. map_sum id (\<lambda>t'. (0, t')) (team_delAvatar (avatars_at pl) a t)) p pl)"

definition removeAvatarFromTeam_id :: "u32 \<Rightarrow> addr option \<Rightarrow> player \<Rightarrow> cpp_fault + int \<times> player" where
  "removeAvatarFromTeam_id i team pl = removeAvatarFromTeam (getAvatarById i pl) team pl"

definition removeAvatarFromTeam_guid :: "u64 \<Rightarrow> addr option \<Rightarrow> player \<Rightarrow> cpp_fault + int \<times> player" where
  "removeAvatarFromTeam_guid g team pl = removeAvatarFromTeam (getAvatarByGuid g pl) team pl"

section \<open>Items\<close>

definition getItemById :: "u32 \<Rightarrow> player \<Rightarrow> addr option" where
  "getItemById i pl = find_node (\<lambda>x. it_id x = i) (pl_items pl)"

definition getItemByGuid :: "u64 \<Rightarrow> player \<Rightarrow> addr option" where
  "getItemByGuid g pl = find_node (\<lambda>x. it_guid x = g) (pl_items pl)"

definition setItem :: "addr \<Rightarrow> u64 \<Rightarrow> item \<Rightarrow> player \<Rightarrow> int \<times> item \<times> player" where
  "setItem new g x pl =
     (let x = x\<lparr>it_guid := g\<rparr> in (0, x, pl\<lparr>pl_items := put_node it_guid x new (pl_items pl)\<rparr>))"

definition setItem_const :: "addr \<Rightarrow> u64 \<Rightarrow> item \<Rightarrow> player \<Rightarrow> int \<times> player" where
  "setItem_const new g x pl =
     (if it_guid x \<noteq> g then (-1, pl) else (0, pl\<lparr>pl_items := put_node it_guid x new (pl_items pl)\<rparr>))"

definition updateItem :: "item \<Rightarrow> player \<Rightarrow> int \<times> player" where
  "updateItem x pl =
     (case replace_node (\<lambda>y. it_guid y = it_guid x) x (pl_items pl) of
        Some l \<Rightarrow> (0, pl\<lparr>pl_items := l\<rparr>)
      | None \<Rightarrow> (-1, pl))"

text \<open>An item without an owner takes the player's uid as its whole guid, then the next low half.\<close>

definition addItem :: "addr \<Rightarrow> item option \<Rightarrow> player \<Rightarrow> int \<times> item option \<times> player" where
  "addItem new x pl =
     (case x of
        None \<Rightarrow> (-1, None, pl)
      | Some x \<Rightarrow>
          let x = (if drop_bit 32 (it_guid x) = 0 then x\<lparr>it_guid := push_bit 32 (ucast (pl_uid pl))\<rparr> else x);
              (x, pl) = (if it_guid x AND 0xffffffff = 0
                         then (x\<lparr>it_guid := it_guid x OR ucast (pl_next pl)\<rparr>, pl\<lparr>pl_next := pl_next pl + 1\<rparr>)
                         else (x, pl))
          in (0, Some x, pl\<lparr>pl_items := pl_items pl @ [(new, x)]\<rparr>))"

definition addItem_const :: "addr \<Rightarrow> item option \<Rightarrow> player \<Rightarrow> int \<times> player" where
  "addItem_const new x pl =
     (case x of
        None \<Rightarrow> (-1, pl)
      | Some x \<Rightarrow> (0, pl\<lparr>pl_items := pl_items pl @ [(new, x)]\<rparr>))"

definition addItem_new :: "bool \<Rightarrow> player \<Rightarrow> cpp_fault + int \<times> player" where
  "addItem_new has_out pl = (if \<not> has_out then Inr (-1, pl) else Inl Invalid_iterator)"

definition del_item :: "(item \<Rightarrow> bool) \<Rightarrow> player \<Rightarrow> int \<times> player" where
  "del_item P pl =
     (case erase_node P (pl_items pl) of
        Some l \<Rightarrow> (0, pl\<lparr>pl_items := l\<rparr>)
      | None \<Rightarrow> (-1, pl))"

definition delItem_id :: "u32 \<Rightarrow> player \<Rightarrow> int \<times> player" where "delItem_id i = del_item (\<lambda>x. it_id x = i)"
definition delItem_guid :: "u64 \<Rightarrow> player \<Rightarrow> int \<times> player" where "delItem_guid g = del_item (\<lambda>x. it_guid x = g)"
definition delItem :: "item option \<Rightarrow> player \<Rightarrow> int \<times> player" where
  "delItem x pl = (case x of None \<Rightarrow> (0, pl) | Some x \<Rightarrow> delItem_guid (it_guid x) pl)"

end
