(* ===== verification/Player_State.thy ===== *)
theory Player_State
  imports Player
begin

unbundle bit_operations_syntax

text \<open>
  The rest of \<open>src/player.cpp\<close>: open states, numeric properties, construction, and what is stored in and
  loaded from the database.
\<close>

section \<open>Open states\<close>

definition OPEN_STATE_COND_PLAYER_LEVEL :: u32 where "OPEN_STATE_COND_PLAYER_LEVEL = 0"
definition S_LOGIN_WAIT :: int where "S_LOGIN_WAIT = 2"

record openstate_ent =
  os_id :: u32
  os_default :: u32
  os_conds :: "(u32 \<times> u32) list"

text \<open>
  What the client is told: one state with its value, or all open states. Serialising and sending the
  messages is not part of the model.
\<close>

datatype notice = State_change u32 u32 | State_update "u32 list"

definition listening :: "player \<Rightarrow> bool" where
  "listening pl = (case pl_session pl of None \<Rightarrow> False | Some s \<Rightarrow> S_LOGIN_WAIT \<le> ps_state s)"

definition getOpenstate :: "u32 \<Rightarrow> player \<Rightarrow> u32" where
  "getOpenstate st pl = (if st \<in> set (pl_openstates pl) then 1 else 0)"

definition setOpenstate :: "u32 \<Rightarrow> int \<Rightarrow> player \<Rightarrow> notice list \<times> player" where
  "setOpenstate st notify pl =
     (if st \<in> set (pl_openstates pl) then ([], pl)
      else (if notify \<noteq> 0 \<and> listening pl then [State_change st 1] else [],
            pl\<lparr>pl_openstates := pl_openstates pl @ [st]\<rparr>))"

text \<open>Clearing a state that is set goes on with the iterator it has erased.\<close>

definition clearOpenstate :: "u32 \<Rightarrow> int \<Rightarrow> player \<Rightarrow> cpp_fault + notice list \<times> player" where
  "clearOpenstate st notify pl =
     (if st \<in> set (pl_openstates pl) then Inl Invalid_iterator
      else Inr (if notify \<noteq> 0 \<and> listening pl then [State_change st 0] else [], pl))"

text \<open>The states that the data opens for an adventure rank.\<close>

definition open_entry :: "openstate_ent \<Rightarrow> player \<Rightarrow> player" where
  "open_entry e pl =
     (if os_default e \<noteq> 0 then snd (setOpenstate (os_id e) 0 pl)
      else fold (\<lambda>(ty, v) pl. if ty = OPEN_STATE_COND_PLAYER_LEVEL \<and> v \<le> pl_ar pl
                              then snd (setOpenstate (os_id e) 0 pl) else pl) (take 2 (os_conds e)) pl)"

definition updateOpenstates :: "openstate_ent list option \<Rightarrow> int \<Rightarrow> player \<Rightarrow> notice list \<times> player" where
  "updateOpenstates data notify pl =
     (case data of
        None \<Rightarrow> ([], pl)
      | Some es \<Rightarrow>
          let pl = fold open_entry es pl
          in (if notify \<noteq> 0 \<and> listening pl then [State_update (pl_openstates pl)] else [], pl))"

section \<open>Properties of the player\<close>

definition getProp :: "u32 \<Rightarrow> player \<Rightarrow> u64" where
  "getProp p pl =
     (if p = PROP_PLAYER_LEVEL then ucast (pl_ar pl)
      else if p = PROP_PLAYER_EXP then pl_ar_exp pl
      else if p = PROP_PLAYER_WORLD_LEVEL then ucast (pl_world pl)
      else case pl_props pl p of Some v \<Rightarrow> v | None \<Rightarrow> 0)"

definition setProp :: "u32 \<Rightarrow> u64 \<Rightarrow> player \<Rightarrow> player" where
  "setProp p v pl =
     (let pl = (if p = PROP_PLAYER_LEVEL then pl\<lparr>pl_ar := ucast v\<rparr>
                else if p = PROP_PLAYER_EXP then pl\<lparr>pl_ar_exp := v\<rparr>
                else if p = PROP_PLAYER_WORLD_LEVEL then pl\<lparr>pl_world := ucast v\<rparr>
                else pl)
      in pl\<lparr>pl_props := (pl_props pl)(p \<mapsto> v)\<rparr>)"

section \<open>Construction and storage\<close>

text \<open>\<open>raw\<close> holds the members a constructor does not set, \<open>data\<close> the open-state table.\<close>

definition player_default :: "openstate_ent list option \<Rightarrow> player \<Rightarrow> player" where
  "player_default data raw =
     snd (updateOpenstates data 0
       (raw\<lparr>pl_aid := None, pl_session := None, pl_cur_avatar := None, pl_cur_team := 0, pl_tp := 0,
            pl_next := 1, pl_ar := 1, pl_ar_exp := 0, pl_world := 0, pl_scene := 3,
            pl_teams := [], pl_avatars := [], pl_items := [], pl_openstates := [], pl_name := [],
            pl_signature := [],
            pl_props := [PROP_PLAYER_LEVEL \<mapsto> 1, PROP_PLAYER_EXP \<mapsto> 0, PROP_PLAYER_WORLD_LEVEL \<mapsto> 0,
              PROP_PLAYER_HCOIN \<mapsto> 0, PROP_PLAYER_SCOIN \<mapsto> 0, PROP_PLAYER_MCOIN \<mapsto> 0,
              PROP_PLAYER_RESIN \<mapsto> 160, PROP_PLAYER_LEGENDARY_KEY \<mapsto> 0,
              PROP_PLAYER_LEGENDARY_DAILY_TASK_NUM \<mapsto> 0]\<rparr>))"

text \<open>The message a player is stored as, with the fields the code sets and reads.\<close>

record pb_player =
  pp_uid :: u32
  pp_aid :: u32
  pp_session_id :: u32
  pp_session_seed :: u64
  pp_expire :: u64
  pp_next :: u32
  pp_name :: bytes
  pp_signature :: bytes
  pp_pfp :: u32
  pp_namecard :: u32
  pp_ar :: u32
  pp_ar_exp :: u64
  pp_world :: u32
  pp_teams :: "pb_team list"
  pp_cur_team :: u32
  pp_cur_avatar :: u64
  pp_props :: "u32 \<rightharpoonup> u64"
  pp_scene :: u32
  pp_open_states :: "u32 list"

text \<open>
  Loading: \<open>account\<close> finds the account, \<open>sessions\<close> a session by id; it is looked for when the stored time
  has passed. Teams and the current avatar are not read.
\<close>

definition player_of_pb ::
  "openstate_ent list option \<Rightarrow> (u32 \<Rightarrow> u32 option) \<Rightarrow> (u64 \<Rightarrow> player_session option) \<Rightarrow> u64 \<Rightarrow> pb_player \<Rightarrow> player \<Rightarrow> player" where
  "player_of_pb data account sessions now pb raw =
     snd (updateOpenstates data 0
       (raw\<lparr>pl_uid := pp_uid pb, pl_aid := account (pp_aid pb),
            pl_session := (if sint (pp_expire pb) < sint now then sessions (ucast (pp_session_id pb)) else None),
            pl_tp := 1, pl_scene := pp_scene pb, pl_world := pp_world pb, pl_ar := pp_ar pb,
            pl_ar_exp := pp_ar_exp pb, pl_name := pp_name pb, pl_signature := pp_signature pb,
            pl_namecard := pp_namecard pb, pl_pfp := pp_pfp pb, pl_next := pp_next pb,
            pl_teams := [], pl_avatars := [], pl_items := [],
            pl_props := (pp_props pb)(PROP_PLAYER_LEVEL \<mapsto> ucast (pp_ar pb), PROP_PLAYER_EXP \<mapsto> pp_ar_exp pb,
              PROP_PLAYER_WORLD_LEVEL \<mapsto> ucast (pp_world pb)),
            pl_openstates := pp_open_states pb\<rparr>))"

fun teams_to_pb :: "avatar_memory \<Rightarrow> team list \<Rightarrow> cpp_fault + pb_team list" where
  "teams_to_pb mem [] = Inr []"
| "teams_to_pb mem (t # ts) =
     (case team_to_pb mem t of Inl f \<Rightarrow> Inl f | Inr p \<Rightarrow> map_sum id ((#) p) (teams_to_pb mem ts))"

text \<open>Saving: a message starts with zeros and empty lists.\<close>

definition player_to_pb :: "u64 \<Rightarrow> player \<Rightarrow> cpp_fault + pb_player" where
  "player_to_pb now pl =
     (let mem = avatars_at pl;
          live = (case pl_session pl of None \<Rightarrow> None | Some s \<Rightarrow> if ps_kcp s then Some s else None)
      in case teams_to_pb mem (map snd (pl_teams pl)) of
           Inl f \<Rightarrow> Inl f
         | Inr ts \<Rightarrow>
             map_sum id (\<lambda>cur. \<lparr>pp_uid = pl_uid pl,
                 pp_aid = (case pl_aid pl of None \<Rightarrow> 0 | Some a \<Rightarrow> a),
                 pp_session_id = (case live of None \<Rightarrow> 0 | Some s \<Rightarrow> ucast (ps_id s)),
                 pp_session_seed = (case live of None \<Rightarrow> 0 | Some s \<Rightarrow> ps_seed s),
                 pp_expire = (case live of None \<Rightarrow> 0 | Some s \<Rightarrow> now + 3 * 60 * 60),
                 pp_next = pl_next pl, pp_name = pl_name pl, pp_signature = pl_signature pl,
                 pp_pfp = pl_pfp pl, pp_namecard = pl_namecard pl, pp_ar = pl_ar pl,
                 pp_ar_exp = pl_ar_exp pl, pp_world = pl_world pl, pp_teams = ts,
                 pp_cur_team = pl_cur_team pl, pp_cur_avatar = cur,
                 pp_props = (\<lambda>k. case pl_props pl k of
                     None \<Rightarrow> None
                   | Some v \<Rightarrow> Some (if k = PROP_PLAYER_LEVEL then ucast (pl_ar pl)
                                   else if k = PROP_PLAYER_EXP then pl_ar_exp pl
                                   else if k = PROP_PLAYER_WORLD_LEVEL then ucast (pl_world pl)
                                   else v)),
                 pp_scene = pl_scene pl, pp_open_states = pl_openstates pl\<rparr>)
               (case pl_cur_avatar pl of None \<Rightarrow> Inr 0 | Some a \<Rightarrow> avatar_guid mem (Some a)))"

text \<open>
  The inventory is loaded entry by entry for all numbers given out so far. An entry is an avatar, an item
  or neither; \<open>new\<close> gives the addresses, \<open>raw_a\<close> and \<open>raw_i\<close> the memory the objects are made in.
\<close>

datatype entry = Avatar_entry pb_avatar | Item_entry pb_item | Empty_entry

fun load_entries ::
  "avatar_env \<Rightarrow> (u64 \<Rightarrow> entry option) \<Rightarrow> (u64 \<Rightarrow> addr) \<Rightarrow> avatar \<Rightarrow> item \<Rightarrow> u64 list \<Rightarrow> player \<Rightarrow> cpp_fault + player" where
  "load_entries env db new raw_a raw_i [] pl = Inr pl"
| "load_entries env db new raw_a raw_i (i # is) pl =
     (let g = push_bit 32 (ucast (pl_uid pl)) OR i
      in case db g of
           None \<Rightarrow> load_entries env db new raw_a raw_i is pl
         | Some Empty_entry \<Rightarrow> load_entries env db new raw_a raw_i is pl
         | Some (Avatar_entry pb) \<Rightarrow>
             load_entries env db new raw_a raw_i is (snd (addAvatar_const (new g) (Some (avatar_of_pb env pb raw_a)) pl))
         | Some (Item_entry pb) \<Rightarrow>
             (case item_of_pb pb raw_i of
                Inl f \<Rightarrow> Inl f
              | Inr it \<Rightarrow> load_entries env db new raw_a raw_i is (snd (addItem_const (new g) (Some it) pl))))"

definition loadInventoryAndAvatars ::
  "avatar_env \<Rightarrow> (u64 \<Rightarrow> entry option) \<Rightarrow> (u64 \<Rightarrow> addr) \<Rightarrow> avatar \<Rightarrow> item \<Rightarrow> player \<Rightarrow> cpp_fault + int \<times> player" where
  "loadInventoryAndAvatars env db new raw_a raw_i pl =
     map_sum id (\<lambda>pl. (0, pl)) (load_entries env db new raw_a raw_i (map of_nat [0..<unat (pl_next pl)]) pl)"

section \<open>Small accessors\<close>

definition setAccount :: "u32 option \<Rightarrow> player \<Rightarrow> player" where "setAccount a pl = pl\<lparr>pl_aid := a\<rparr>"
definition setPlayerUid :: "u32 \<Rightarrow> player \<Rightarrow> player" where "setPlayerUid u pl = pl\<lparr>pl_uid := u\<rparr>"
definition setTpToken :: "u32 \<Rightarrow> player \<Rightarrow> player" where "setTpToken t pl = pl\<lparr>pl_tp := t\<rparr>"

end
