(* ===== verification/Avatar_Props.thy ===== *)
theory Avatar_Props
  imports Avatar
begin

unbundle bit_operations_syntax

text \<open>
  Lemmas about avatars: the ranges of their values under every operation, and storing an avatar.
\<close>

section \<open>The ranges of an avatar's values\<close>

definition avatar_ok :: "avatar \<Rightarrow> bool" where
  "avatar_ok a \<longleftrightarrow>
     length (av_artifacts a) = 5 \<and> length (av_talents a) = 3 \<and> (\<forall>t\<in>set (av_talents a). 1 \<le> t \<and> t \<le> 15) \<and>
     1 \<le> av_level a \<and> av_level a \<le> 90 \<and> av_ascension a \<le> 6 \<and>
     1 \<le> av_friendship a \<and> av_friendship a \<le> 10 \<and> av_constellation a \<le> 6"

text \<open>Every avatar the constructors without a message give and any calls make of it.\<close>

inductive avatar_reach :: "avatar_env \<Rightarrow> avatar \<Rightarrow> bool" for env where
  default: "avatar_reach env (avatar_default env raw)"
| of_id: "avatar_of_id env i raw = Inr a \<Longrightarrow> avatar_reach env a"
| weapon: "avatar_reach env a \<Longrightarrow> setWeapon env w a = Inr (r, a') \<Longrightarrow> avatar_reach env a'"
| weapon_null: "avatar_reach env a \<Longrightarrow> setWeaponIfNull env w a = Inr (r, a') \<Longrightarrow> avatar_reach env a'"
| artifact: "avatar_reach env a \<Longrightarrow> setArtifact env w i a = Inr (r, a') \<Longrightarrow> avatar_reach env a'"
| artifact_null: "avatar_reach env a \<Longrightarrow> setArtifactIfNull env w i a = Inr (r, a') \<Longrightarrow> avatar_reach env a'"
| artifact_auto: "avatar_reach env a \<Longrightarrow> setArtifact_auto env w a = Inr (r, a') \<Longrightarrow> avatar_reach env a'"
| artifact_null_auto: "avatar_reach env a \<Longrightarrow> setArtifactIfNull_auto env w a = Inr (r, a') \<Longrightarrow> avatar_reach env a'"
| artifacts: "avatar_reach env a \<Longrightarrow> 5 \<le> length ps \<Longrightarrow> setArtifacts env ps a = Inr (r, a') \<Longrightarrow> avatar_reach env a'"
| equips: "avatar_reach env a \<Longrightarrow> with_equips env a = Inr a' \<Longrightarrow> avatar_reach env a'"
| id: "avatar_reach env a \<Longrightarrow> setId env i n a = Inr a' \<Longrightarrow> avatar_reach env a'"
| data: "avatar_reach env a \<Longrightarrow> avatar_reach env (setAvatarData env i a)"
| entry: "avatar_reach env a \<Longrightarrow> avatar_reach env (setAvatarEntry d a)"
| guid: "avatar_reach env a \<Longrightarrow> avatar_reach env (setGuid g a)"
| uid: "avatar_reach env a \<Longrightarrow> avatar_reach env (setUid u a)"
| depot_data: "avatar_reach env a \<Longrightarrow> setSkillDepotId_data env a = Inr (r, a') \<Longrightarrow> avatar_reach env a'"
| depot: "avatar_reach env a \<Longrightarrow> avatar_reach env (snd (setSkillDepotId env i a))"
| level: "avatar_reach env a \<Longrightarrow> avatar_reach env (setLevel_exp l n a)"
| exp: "avatar_reach env a \<Longrightarrow> avatar_reach env (setExp_recalc e n a)"
| add_exp: "avatar_reach env a \<Longrightarrow> avatar_reach env (snd (addExp e a))"
| ascension: "avatar_reach env a \<Longrightarrow> avatar_reach env (setAscension n a)"
| ascend: "avatar_reach env a \<Longrightarrow> avatar_reach env (snd (ascend a))"
| hp: "avatar_reach env a \<Longrightarrow> avatar_reach env (setCurHp h a)"
| add_hp: "avatar_reach env a \<Longrightarrow> avatar_reach env (snd (addCurHp n a))"
| costume: "avatar_reach env a \<Longrightarrow> avatar_reach env (snd (setCostume c a))"
| wings: "avatar_reach env a \<Longrightarrow> avatar_reach env (snd (setWings w a))"
| friendship: "avatar_reach env a \<Longrightarrow> avatar_reach env (setFriendship_recalc f n a)"
| friendship_exp: "avatar_reach env a \<Longrightarrow> avatar_reach env (setFriendshipExp_recalc e n a)"
| add_friendship_exp: "avatar_reach env a \<Longrightarrow> avatar_reach env (snd (addFriendshipExp n a))"
| talents: "avatar_reach env a \<Longrightarrow> 3 \<le> length t \<Longrightarrow> avatar_reach env (snd (setTalentLevels t a))"
| talent: "avatar_reach env a \<Longrightarrow> avatar_reach env (snd (setTalentLevel l i a))"
| add_talent: "avatar_reach env a \<Longrightarrow> avatar_reach env (snd (addTalentLevel i a))"
| constellation: "avatar_reach env a \<Longrightarrow> avatar_reach env (setConstellation c a)"
| add_constellation: "avatar_reach env a \<Longrightarrow> avatar_reach env (snd (addConstellation a))"
| born: "avatar_reach env a \<Longrightarrow> avatar_reach env (setBornTime t a)"
| new_born: "avatar_reach env a \<Longrightarrow> avatar_reach env (snd (newBornTime env a))"
| full: "avatar_reach env a \<Longrightarrow> avatar_reach env (setFullness f a)"
| add_full: "avatar_reach env a \<Longrightarrow> avatar_reach env (snd (addFullness n a))"
| full_cd: "avatar_reach env a \<Longrightarrow> avatar_reach env (setFullnessCd f a)"
| add_full_cd: "avatar_reach env a \<Longrightarrow> avatar_reach env (snd (addFullnessCd n a))"
| energy: "avatar_reach env a \<Longrightarrow> avatar_reach env (setEnergy e a)"
| add_energy: "avatar_reach env a \<Longrightarrow> avatar_reach env (snd (addEnergy n a))"

named_theorems avatar_defs \<open>operations of an avatar, to be unfolded\<close>

lemmas [avatar_defs] =
  setWeapon_def setWeaponIfNull_def setArtifact_def setArtifactIfNull_def setArtifact_auto_def
  setArtifactIfNull_auto_def setArtifacts_def setId_def setAvatarData_def setAvatarEntry_def setGuid_def
  setUid_def setSkillDepotId_data_def setSkillDepotId_def setLevel_exp_def setExp_recalc_def addExp_def
  setAscension_def ascend_def setCurHp_def addCurHp_def setCostume_def setWings_def setFriendship_recalc_def
  setFriendshipExp_recalc_def addFriendshipExp_def setTalentLevels_def setTalentLevel_def addTalentLevel_def
  setConstellation_def addConstellation_def setBornTime_def newBornTime_def setFullness_def addFullness_def
  setFullnessCd_def addFullnessCd_def setEnergy_def addEnergy_def

text \<open>Writing a field without a range keeps the ranges; writing one with a range is a condition on the value.\<close>

lemma avatar_ok_other [simp]:
  "avatar_ok (a\<lparr>av_id := x0\<rparr>) = avatar_ok a"
  "avatar_ok (a\<lparr>av_guid := x1\<rparr>) = avatar_ok a"
  "avatar_ok (a\<lparr>av_weapon := x2\<rparr>) = avatar_ok a"
  "avatar_ok (a\<lparr>av_set_equips := x3\<rparr>) = avatar_ok a"
  "avatar_ok (a\<lparr>av_equip_guids := x4\<rparr>) = avatar_ok a"
  "avatar_ok (a\<lparr>av_exp := x5\<rparr>) = avatar_ok a"
  "avatar_ok (a\<lparr>av_hp := x6\<rparr>) = avatar_ok a"
  "avatar_ok (a\<lparr>av_costume := x7\<rparr>) = avatar_ok a"
  "avatar_ok (a\<lparr>av_wings := x8\<rparr>) = avatar_ok a"
  "avatar_ok (a\<lparr>av_friendship_exp := x9\<rparr>) = avatar_ok a"
  "avatar_ok (a\<lparr>av_born := x10\<rparr>) = avatar_ok a"
  "avatar_ok (a\<lparr>av_depot_id := x11\<rparr>) = avatar_ok a"
  "avatar_ok (a\<lparr>av_full := x12\<rparr>) = avatar_ok a"
  "avatar_ok (a\<lparr>av_full_cd := x13\<rparr>) = avatar_ok a"
  "avatar_ok (a\<lparr>av_energy := x14\<rparr>) = avatar_ok a"
  "avatar_ok (a\<lparr>av_data := x15\<rparr>) = avatar_ok a"
  "avatar_ok (a\<lparr>av_depot := x16\<rparr>) = avatar_ok a"
  by (simp_all add: avatar_ok_def)

lemma avatar_ok_range:
  "avatar_ok a \<Longrightarrow> 1 \<le> l \<Longrightarrow> l \<le> 90 \<Longrightarrow> avatar_ok (a\<lparr>av_level := l\<rparr>)"
  "avatar_ok a \<Longrightarrow> n \<le> 6 \<Longrightarrow> avatar_ok (a\<lparr>av_ascension := n\<rparr>)"
  "avatar_ok a \<Longrightarrow> 1 \<le> f \<Longrightarrow> f \<le> 10 \<Longrightarrow> avatar_ok (a\<lparr>av_friendship := f\<rparr>)"
  "avatar_ok a \<Longrightarrow> c \<le> 6 \<Longrightarrow> avatar_ok (a\<lparr>av_constellation := c\<rparr>)"
  "avatar_ok a \<Longrightarrow> length ps = 5 \<Longrightarrow> avatar_ok (a\<lparr>av_artifacts := ps\<rparr>)"
  "avatar_ok a \<Longrightarrow> length ts = 3 \<Longrightarrow> \<forall>t\<in>set ts. 1 \<le> t \<and> t \<le> 15 \<Longrightarrow> avatar_ok (a\<lparr>av_talents := ts\<rparr>)"
  by (simp_all add: avatar_ok_def)

lemma avatar_ok_lengths: "avatar_ok a \<Longrightarrow> length (av_artifacts a) = 5" "avatar_ok a \<Longrightarrow> length (av_talents a) = 3"
  by (simp_all add: avatar_ok_def)

lemma clamp_range: "lo \<le> hi \<Longrightarrow> lo \<le> clamp lo hi x \<and> clamp lo hi x \<le> hi"
  by (auto simp: clamp_def not_less)

lemmas clamp_ge = clamp_range [THEN conjunct1] and clamp_le = clamp_range [THEN conjunct2]

lemma word_inc_bound: "\<not> 6 \<le> (x :: u32) \<Longrightarrow> x + 1 \<le> 6"
  by (metis inc_le not_le)

lemma talent_inc: "1 \<le> (x :: u32) \<Longrightarrow> x \<le> 15 \<Longrightarrow> \<not> 15 \<le> x + 1 \<Longrightarrow> 1 \<le> x + 1 \<and> x + 1 \<le> 15"
  by (auto simp: word_le_nat_alt unat_word_ariths)

lemma set_weapon_ok: "avatar_ok a \<Longrightarrow> setWeapon env w a = Inr (r, a') \<Longrightarrow> avatar_ok a'"
  by (auto simp: setWeapon_def split: sum.splits if_splits)

lemma set_artifact_ok: "avatar_ok a \<Longrightarrow> setArtifact env w i a = Inr (r, a') \<Longrightarrow> avatar_ok a'"
  by (auto simp: setArtifact_def avatar_ok_lengths intro: avatar_ok_range split: sum.splits if_splits)

lemma set_artifact_null_ok: "avatar_ok a \<Longrightarrow> setArtifactIfNull env w i a = Inr (r, a') \<Longrightarrow> avatar_ok a'"
  by (auto simp: setArtifactIfNull_def dest: set_artifact_ok split: if_splits)

lemma set_artifact_auto_ok:
  "avatar_ok a \<Longrightarrow> setArtifact_auto env w a = Inr (r, a') \<Longrightarrow> avatar_ok a'"
  "avatar_ok a \<Longrightarrow> setArtifactIfNull_auto env w a = Inr (r, a') \<Longrightarrow> avatar_ok a'"
  by (auto simp: setArtifact_auto_def setArtifactIfNull_auto_def dest: set_artifact_ok set_artifact_null_ok
      split: sum.splits)

lemma set_weapon_null_ok: "avatar_ok a \<Longrightarrow> setWeaponIfNull env w a = Inr (r, a') \<Longrightarrow> avatar_ok a'"
  by (auto simp: setWeaponIfNull_def dest: set_weapon_ok split: if_splits)

lemma equip_all_ok: "avatar_ok a \<Longrightarrow> equip_all env bag gs a = Inr a' \<Longrightarrow> avatar_ok a'"
proof (induction env bag gs a rule: equip_all.induct)
  case (2 env bag g gs a)
  then show ?case
    by (auto simp: Let_def split: option.splits sum.splits if_splits
        dest: set_weapon_null_ok set_artifact_auto_ok)
qed simp

lemma with_equips_ok: "avatar_ok a \<Longrightarrow> with_equips env a = Inr a' \<Longrightarrow> avatar_ok a'"
proof -
  assume "avatar_ok a" "with_equips env a = Inr a'"
  then show ?thesis
    by (auto simp: with_equips_def loadEquips_def map_sum_def dest: equip_all_ok split: if_splits option.splits sum.splits)
qed

lemma avatar_new_ok: "avatar_ok (avatar_default env raw)" "avatar_of_id env i raw = Inr a \<Longrightarrow> avatar_ok a"
  by (auto simp: avatar_ok_def avatar_default_def avatar_of_id_def Let_def split: option.splits)

lemma set_artifacts_ok:
  "avatar_ok a \<Longrightarrow> 5 \<le> length ps \<Longrightarrow> setArtifacts env ps a = Inr (r, a') \<Longrightarrow> avatar_ok a'"
  by (auto simp: setArtifacts_def intro: avatar_ok_range split: sum.splits bool.splits)

lemma set_talent_ok: "avatar_ok a \<Longrightarrow> 1 \<le> l \<Longrightarrow> l \<le> 15 \<Longrightarrow> avatar_ok (a\<lparr>av_talents := (av_talents a)[i := l]\<rparr>)"
  by (rule avatar_ok_range) (auto simp: avatar_ok_def dest!: subsetD [OF set_update_subset_insert])

lemma add_talent_ok: "avatar_ok a \<Longrightarrow> avatar_ok (snd (addTalentLevel i a))"
proof (cases "3 \<le> i \<or> 15 \<le> av_talents a ! unat i + 1")
  case False
  assume ok: "avatar_ok a"
  have "unat i < 3" using False by (simp add: word_le_nat_alt)
  then have "av_talents a ! unat i \<in> set (av_talents a)" using ok by (simp add: avatar_ok_lengths)
  then have "1 \<le> av_talents a ! unat i \<and> av_talents a ! unat i \<le> 15" using ok by (simp add: avatar_ok_def)
  with False ok talent_inc [of "av_talents a ! unat i"] show ?thesis
    by (auto simp: addTalentLevel_def Let_def intro!: set_talent_ok)
qed (auto simp: addTalentLevel_def)

lemma avatar_reach_ok: "avatar_reach env a \<Longrightarrow> avatar_ok a"
proof (induction rule: avatar_reach.induct)
  case (talents a t)
  then have "length (map (clamp 1 15) (take 3 t)) = 3" by simp
  with talents show ?case
    by (simp add: setTalentLevels_def Let_def) (rule avatar_ok_range(6), simp_all add: clamp_ge clamp_le del: One_nat_def)
next
  case (talent a l i)
  then show ?case by (auto simp: setTalentLevel_def clamp_ge clamp_le intro: set_talent_ok)
next
  case (id a i n a')
  then show ?case by (auto simp: setId_def Let_def split: if_splits option.splits)
next
  case (depot_data a r a')
  then show ?case by (auto simp: setSkillDepotId_data_def Let_def split: option.splits)
next
  case (ascension a n)
  then show ?case by (auto simp: setAscension_def not_less intro: avatar_ok_range)
next
  case (constellation a n)
  then show ?case by (auto simp: setConstellation_def not_less intro: avatar_ok_range)
next
  case (add_friendship_exp a n)
  then show ?case by (simp add: addFriendshipExp_def Let_def)
next
  case (guid a n)
  then show ?case by (simp add: setGuid_def Let_def)
next
  case (weapon a w r a')
  from weapon.IH weapon.hyps(2) show ?case by (rule set_weapon_ok)
next
  case (weapon_null a w r a')
  from weapon_null.IH weapon_null.hyps(2) show ?case by (rule set_weapon_null_ok)
next
  case (artifact a w i r a')
  from artifact.IH artifact.hyps(2) show ?case by (rule set_artifact_ok)
next
  case (artifact_null a w i r a')
  from artifact_null.IH artifact_null.hyps(2) show ?case by (rule set_artifact_null_ok)
next
  case (artifact_auto a w r a')
  from artifact_auto.IH artifact_auto.hyps(2) show ?case by (rule set_artifact_auto_ok(1))
next
  case (artifact_null_auto a w r a')
  from artifact_null_auto.IH artifact_null_auto.hyps(2) show ?case by (rule set_artifact_auto_ok(2))
next
  case (artifacts a ps r a')
  from artifacts.IH artifacts.hyps(2,3) show ?case by (rule set_artifacts_ok)
next
  case (equips a a')
  from equips.IH equips.hyps(2) show ?case by (rule with_equips_ok)
next
  case (of_id i raw a)
  then show ?case by (rule avatar_new_ok)
next
  case (add_talent a i)
  then show ?case by (simp add: add_talent_ok)
qed (simp_all add: avatar_new_ok avatar_defs Let_def clamp_ge clamp_le avatar_ok_range word_inc_bound
    del: One_nat_def)

section \<open>Storing and loading\<close>

definition worn_valid :: "avatar_env \<Rightarrow> addr option list \<Rightarrow> bool" where
  "worn_valid env ps = list_all (\<lambda>p. case p of None \<Rightarrow> True | Some x \<Rightarrow> ae_item env x \<noteq> None) ps"

definition guids_at :: "avatar_env \<Rightarrow> addr option list \<Rightarrow> u64 list" where
  "guids_at env ps = map (\<lambda>x. it_guid (the (ae_item env x))) (map the (filter (\<lambda>p. p \<noteq> None) ps))"

lemma worn_guids_valid: "worn_valid env ps \<Longrightarrow> worn_guids env ps = Inr (guids_at env ps)"
  by (induction ps) (auto simp: worn_valid_def guids_at_def item_read_def split: option.splits)

lemma constellations_read:
  assumes "avatar_ok a" "av_depot a = Some dep" "length (sd_constellations dep) = 6"
  shows "constellation_skills a = Inr (take (unat (av_constellation a)) (sd_constellations dep))"
proof -
  have "unat (av_constellation a) \<le> 6" using assms(1) by (simp add: avatar_ok_def word_le_nat_alt)
  then show ?thesis using assms by (auto simp: constellation_skills_def)
qed

lemma avatar_stored:
  assumes "avatar_ok a" "av_depot a = Some dep" "length (sd_constellations dep) = 6"
    "worn_valid env (av_weapon a # av_artifacts a)"
  shows "\<exists>pb. avatar_to_pb_const env a = Inr pb \<and> avatar_of_pb env pb raw =
    raw\<lparr>av_id := av_id a, av_depot_id := av_depot_id a,
        av_data := avatar_by_id (ae_avatars env) (av_id a),
        av_depot := depot_by_id (ae_depots env) (av_depot_id a),
        av_guid := av_guid a, av_born := take_bit 32 (av_born a), av_wings := av_wings a,
        av_friendship := av_friendship a,
        av_friendship_exp := (if av_friendship a = 10 then 6325 else av_friendship_exp a),
        av_constellation := av_constellation a,
        av_equip_guids := guids_at env (av_weapon a # av_artifacts a), av_set_equips := False\<rparr>"
proof -
  have n: "unat (av_constellation a) \<le> 6" "av_friendship a \<le> 10"
    using assms(1) by (simp_all add: avatar_ok_def word_le_nat_alt)
  have c: "(of_nat (min (length (sd_constellations dep)) (unat (av_constellation a))) :: u32) = av_constellation a"
    using n(1) assms(3) by (simp add: min_absorb2 of_nat_unat)
  have f: "10 \<le> av_friendship a \<longleftrightarrow> av_friendship a = 10" using n(2) by auto
  have b: "(ucast (ucast (av_born a) :: u32) :: u64) = take_bit 32 (av_born a)"
    by (rule bit_word_eqI) (auto simp: bit_simps)
  let ?pb = "\<lparr>pa_id = av_id a, pa_guid = av_guid a, pa_life_state = 1,
      pa_equips = guids_at env (av_weapon a # av_artifacts a),
      pa_talents = take (unat (av_constellation a)) (sd_constellations dep), pa_depot = av_depot_id a,
      pa_fetter_level = av_friendship a,
      pa_fetter_exp = (if av_friendship a < 10 then av_friendship_exp a else 0),
      pa_wings = av_wings a, pa_born = ucast (av_born a)\<rparr>"
  have 1: "avatar_to_pb_const env a = Inr ?pb"
    by (simp only: avatar_to_pb_const_def worn_guids_valid [OF assms(4)] constellations_read [OF assms(1-3)]
      sum.case map_sum.simps)
  have e: "(if 10 \<le> av_friendship a then 6325 else if av_friendship a < 10 then av_friendship_exp a else 0) =
      (if av_friendship a = 10 then 6325 else av_friendship_exp a)"
    using f by (simp add: not_le [symmetric])
  have "avatar_of_pb env ?pb raw = raw\<lparr>av_id := av_id a, av_depot_id := av_depot_id a,
        av_data := avatar_by_id (ae_avatars env) (av_id a),
        av_depot := depot_by_id (ae_depots env) (av_depot_id a),
        av_guid := av_guid a, av_born := take_bit 32 (av_born a), av_wings := av_wings a,
        av_friendship := av_friendship a,
        av_friendship_exp := (if av_friendship a = 10 then 6325 else av_friendship_exp a),
        av_constellation := av_constellation a,
        av_equip_guids := guids_at env (av_weapon a # av_artifacts a), av_set_equips := False\<rparr>"
    unfolding avatar_of_pb_def pb_avatar.simps length_take c b e ..
  with 1 show ?thesis by blast
qed

end
