(* ===== verification/Player_Props.thy ===== *)
theory Player_Props
  imports Player_State Avatar_Props
begin

unbundle bit_operations_syntax

text \<open>
  Lemmas about players: the contract their avatars and items share, open states, and the numbers that
  avatars and items get.
\<close>

section \<open>Lists with addresses\<close>

lemma replace_node_some:
  "replace_node P v l = (if \<exists>(p, x)\<in>set l. P x
     then Some (let i = find_index (\<lambda>(p, x). P x) l in l[i := (fst (l ! i), v)]) else None)"
  by (induction P v l rule: replace_node.induct) (auto simp: Let_def)

lemma erase_node_some:
  "erase_node P l = (if \<exists>(p, x)\<in>set l. P x
     then Some (let i = find_index (\<lambda>(p, x). P x) l in take i l @ drop (Suc i) l) else None)"
  by (induction P l rule: erase_node.induct) (auto simp: Let_def)

lemma value_at_Cons: "value_at key k ((p, x) # l) = (if key x = k then Some x else value_at key k l)"
  by (simp add: value_at_def)

lemma value_at_Nil: "value_at key k [] = None"
  by (simp add: value_at_def)

lemma value_at_key: "value_at key k l = Some v \<Longrightarrow> key v = k"
  by (induction l) (auto simp: value_at_Cons value_at_Nil split: if_splits)

lemma value_at_none: "value_at key k l = None \<longleftrightarrow> (\<forall>(p, x)\<in>set l. key x \<noteq> k)"
proof (induction l)
  case (Cons y l)
  then show ?case by (cases y) (auto simp: value_at_Cons)
qed (simp add: value_at_Nil)

lemma value_at_append: "value_at key k (l @ l') = (case value_at key k l of None \<Rightarrow> value_at key k l' | Some v \<Rightarrow> Some v)"
  by (induction l) (auto simp: value_at_Cons value_at_Nil)

lemma value_at_replace:
  "replace_node (\<lambda>x. key x = key v) v l = Some l' \<Longrightarrow>
    value_at key k l' = (if k = key v then Some v else value_at key k l)"
  by (induction "\<lambda>x. key x = key v" v l arbitrary: l' rule: replace_node.induct)
    (auto simp: value_at_Cons split: if_splits)

lemma replace_none: "replace_node P v l = None \<longleftrightarrow> (\<forall>(p, x)\<in>set l. \<not> P x)"
  by (induction P v l rule: replace_node.induct) auto

lemma value_at_put: "value_at key k (put_node key v new l) = (if k = key v then Some v else value_at key k l)"
proof (cases "replace_node (\<lambda>x. key x = key v) v l")
  case None
  then have "value_at key (key v) l = None" by (simp add: value_at_none replace_none)
  with None show ?thesis by (auto simp: put_node_def value_at_append value_at_Cons value_at_Nil split: option.splits)
next
  case (Some l')
  then show ?thesis by (simp add: put_node_def value_at_replace [OF Some])
qed

lemma value_at_erase:
  "erase_node (\<lambda>x. key x = k') l = Some l' \<Longrightarrow> k \<noteq> k' \<Longrightarrow> value_at key k l' = value_at key k l"
  by (induction "\<lambda>x. key x = k'" l arbitrary: l' rule: erase_node.induct)
    (auto simp: value_at_Cons split: if_splits)

section \<open>Stores with keys\<close>

text \<open>
  What the avatars and the items of a player have in common: a store is searched by a key, a value is
  put under its own key, and a key can be removed.
\<close>

locale keyed_store =
  fixes lookup :: "'k \<Rightarrow> 's \<Rightarrow> 'v option"
    and put :: "'v \<Rightarrow> 's \<Rightarrow> 's"
    and remove :: "'k \<Rightarrow> 's \<Rightarrow> 's"
    and key :: "'v \<Rightarrow> 'k"
  assumes lookup_put: "lookup k (put v s) = (if k = key v then Some v else lookup k s)"
    and lookup_remove: "k \<noteq> k' \<Longrightarrow> lookup k (remove k' s) = lookup k s"
    and lookup_key: "lookup k s = Some v \<Longrightarrow> key v = k"
begin

lemma put_put: "key v = key w \<Longrightarrow> lookup k (put w (put v s)) = lookup k (put w s)"
  by (simp add: lookup_put)

lemma put_commute: "key v \<noteq> key w \<Longrightarrow> lookup k (put w (put v s)) = lookup k (put v (put w s))"
  by (simp add: lookup_put)

lemma put_back: "lookup k s = Some v \<Longrightarrow> lookup k' (put v s) = lookup k' s"
  using lookup_key [of k s v] by (simp add: lookup_put)

text \<open>After a sequence of puts, a key has the last value put under it.\<close>

lemma lookup_puts:
  "lookup k (fold put vs s) =
     (case List.find (\<lambda>v. key v = k) (rev vs) of Some v \<Rightarrow> Some v | None \<Rightarrow> lookup k s)"
  by (induction vs rule: rev_induct) (auto simp: lookup_put)

end

lemma player_puts:
  "pl_avatars (snd (setAvatar_const new (av_guid a) a pl)) = put_node av_guid a new (pl_avatars pl)"
  "pl_items (snd (setItem_const new (it_guid x) x pl)) = put_node it_guid x new (pl_items pl)"
  by (simp_all add: setAvatar_const_def setItem_const_def)

lemma value_at_erased:
  "k \<noteq> k' \<Longrightarrow> value_at key k (case erase_node (\<lambda>x. key x = k') l of Some l' \<Rightarrow> l' | None \<Rightarrow> l) = value_at key k l"
  by (simp add: value_at_erase split: option.split)

lemma player_removes:
  "pl_avatars (snd (delAvatar_guid g pl)) =
     (case erase_node (\<lambda>x. av_guid x = g) (pl_avatars pl) of Some l' \<Rightarrow> l' | None \<Rightarrow> pl_avatars pl)"
  "pl_items (snd (delItem_guid g pl)) =
     (case erase_node (\<lambda>x. it_guid x = g) (pl_items pl) of Some l' \<Rightarrow> l' | None \<Rightarrow> pl_items pl)"
  by (simp_all add: delAvatar_guid_def del_avatar_def delItem_guid_def del_item_def split: option.split)

interpretation avs: keyed_store "\<lambda>g pl. value_at av_guid g (pl_avatars pl)"
  "\<lambda>a pl. snd (setAvatar_const new (av_guid a) a pl)" "\<lambda>g pl. snd (delAvatar_guid g pl)" av_guid
  for new
  by (unfold_locales, unfold player_puts player_removes) (fact value_at_put value_at_erased value_at_key)+

interpretation its: keyed_store "\<lambda>g pl. value_at it_guid g (pl_items pl)"
  "\<lambda>x pl. snd (setItem_const new (it_guid x) x pl)" "\<lambda>g pl. snd (delItem_guid g pl)" it_guid
  for new
  by (unfold_locales, unfold player_puts player_removes) (fact value_at_put value_at_erased value_at_key)+

section \<open>Open states\<close>

definition opens :: "openstate_ent \<Rightarrow> u32 \<Rightarrow> bool" where
  "opens e rank \<longleftrightarrow> os_default e \<noteq> 0 \<or>
     (\<exists>(ty, v)\<in>set (take 2 (os_conds e)). ty = OPEN_STATE_COND_PLAYER_LEVEL \<and> v \<le> rank)"


definition add_state :: "u32 \<Rightarrow> player \<Rightarrow> player" where
  "add_state st pl = snd (setOpenstate st 0 pl)"

lemma add_state_fields:
  "set (pl_openstates (add_state st pl)) = insert st (set (pl_openstates pl))"
  "distinct (pl_openstates (add_state st pl)) = distinct (pl_openstates pl)"
  "pl_ar (add_state st pl) = pl_ar pl"
  "\<exists>l. add_state st pl = pl\<lparr>pl_openstates := l\<rparr>"
  by (auto simp: add_state_def setOpenstate_def intro: exI [of _ "pl_openstates pl"])

lemma open_conds:
  fixes st :: u32
  shows "let pl' = fold (\<lambda>(ty, v) pl. if ty = OPEN_STATE_COND_PLAYER_LEVEL \<and> v \<le> pl_ar pl then add_state st pl else pl) cs pl
     in set (pl_openstates pl') = (if \<exists>(ty, v)\<in>set cs. ty = OPEN_STATE_COND_PLAYER_LEVEL \<and> v \<le> pl_ar pl
          then insert st (set (pl_openstates pl)) else set (pl_openstates pl))
        \<and> (distinct (pl_openstates pl') = distinct (pl_openstates pl)) \<and> (\<exists>l. pl' = pl\<lparr>pl_openstates := l\<rparr>)"
proof (induction cs arbitrary: pl)
  case Nil
  show ?case by (auto simp: Let_def intro: exI [of _ "pl_openstates pl"])
next
  case (Cons c cs)
  obtain ty v where c: "c = (ty, v)" by (cases c)
  obtain l where l: "add_state st pl = pl\<lparr>pl_openstates := l\<rparr>" using add_state_fields(4) by blast
  show ?case
  proof (cases "ty = OPEN_STATE_COND_PLAYER_LEVEL \<and> v \<le> pl_ar pl")
    case True
    with Cons [of "add_state st pl"] show ?thesis
      unfolding Let_def add_state_fields c by (auto simp: l)
  next
    case False
    with Cons [of pl] show ?thesis unfolding Let_def c by auto
  qed
qed

lemma open_entry_outcome:
  "set (pl_openstates (open_entry e pl)) =
     (if opens e (pl_ar pl) then insert (os_id e) (set (pl_openstates pl)) else set (pl_openstates pl))"
  "distinct (pl_openstates (open_entry e pl)) = distinct (pl_openstates pl)"
  "\<exists>l. open_entry e pl = pl\<lparr>pl_openstates := l\<rparr>"
  using open_conds [of "os_id e" "take 2 (os_conds e)" pl] add_state_fields [of "os_id e" pl]
  unfolding open_entry_def opens_def Let_def add_state_def by simp_all

lemma open_entries_outcome:
  "let pl' = fold open_entry es pl
   in set (pl_openstates pl') = set (pl_openstates pl) \<union> {os_id e |e. e \<in> set es \<and> opens e (pl_ar pl)}
      \<and> (distinct (pl_openstates pl') = distinct (pl_openstates pl)) \<and> (\<exists>l. pl' = pl\<lparr>pl_openstates := l\<rparr>)"
proof (induction es arbitrary: pl)
  case Nil
  show ?case by (auto simp: Let_def intro: exI [of _ "pl_openstates pl"])
next
  case (Cons e es)
  obtain l where l: "open_entry e pl = pl\<lparr>pl_openstates := l\<rparr>" using open_entry_outcome(3) by blast
  show ?case
    using Cons [of "open_entry e pl"] open_entry_outcome(1,2) [of e pl]
    unfolding Let_def fold_Cons o_apply by (auto simp: l)
qed

section \<open>Numbers of avatars and items\<close>

text \<open>
  The counter of a player gives out numbers; a guid made with it has the player's uid in the high half and
  the number in the low half. A caller may also bring an avatar or an item with a guid of its own. \<open>F\<close> is the
  set of the guids brought: all others of a sound player are pairwise different and made with a number below
  the counter.
\<close>

definition low_half :: "u64 \<Rightarrow> u64" where "low_half g = g AND 0xffffffff"

definition guids :: "player \<Rightarrow> u64 list" where
  "guids pl = map (av_guid o snd) (pl_avatars pl) @ map (it_guid o snd) (pl_items pl)"

definition own_guids :: "u64 set \<Rightarrow> player \<Rightarrow> u64 list" where
  "own_guids F pl = filter (\<lambda>g. g \<notin> F) (guids pl)"

definition guid_ok :: "player \<Rightarrow> u64 \<Rightarrow> bool" where
  "guid_ok pl g \<longleftrightarrow> drop_bit 32 g = ucast (pl_uid pl) \<and> low_half g < ucast (pl_next pl)"

definition player_ok :: "u64 set \<Rightarrow> player \<Rightarrow> bool" where
  "player_ok F pl \<longleftrightarrow> distinct (own_guids F pl) \<and> list_all (guid_ok pl) (own_guids F pl)"

definition guid_with :: "u32 \<Rightarrow> u32 \<Rightarrow> u64" where
  "guid_with uid n = push_bit 32 (ucast uid) OR ucast n"

lemma mask32: "(0xffffffff :: u64) = mask 32"
  by (simp add: mask_eq_exp_minus_1)

lemma guid_with_halves: "low_half (guid_with u n) = ucast n" "drop_bit 32 (guid_with u n) = ucast u"
  unfolding low_half_def guid_with_def mask32
  by (rule bit_word_eqI, auto simp: bit_simps dest: bit_imp_le_length)+

lemma guid_set: "av_guid (setUid u (setGuid (ucast (n :: u32)) a)) = guid_with u n"
  unfolding setUid_def setGuid_def Let_def guid_with_def mask32
  by (rule bit_word_eqI) (auto simp: bit_simps dest: bit_imp_le_length)

lemma uid_small: "getUid (setGuid (ucast (n :: u32)) a) = 0"
  unfolding getUid_def setGuid_def Let_def
  by (rule bit_word_eqI) (auto simp: bit_simps dest: bit_imp_le_length)

text \<open>The next number is not in use, and one more is given out.\<close>

lemma next_number:
  assumes ok: "player_ok F pl" and n: "pl_next pl < 0xffffffff"
  shows "guid_with (pl_uid pl) (pl_next pl) \<notin> F \<Longrightarrow> guid_with (pl_uid pl) (pl_next pl) \<notin> set (guids pl)"
    "guid_ok pl g \<Longrightarrow> guid_ok (pl\<lparr>pl_next := pl_next pl + 1\<rparr>) g"
    "guid_ok (pl\<lparr>pl_next := pl_next pl + 1\<rparr>) (guid_with (pl_uid pl) (pl_next pl))"
proof -
  have up: "unat (ucast x :: u64) = unat x" for x :: u32
    using unat_lt_u32 [of x] by (simp add: unsigned_ucast_eq take_bit_nat_eq_self)
  have inc: "unat (pl_next pl + 1) = Suc (unat (pl_next pl))"
    using n by (simp add: word_less_nat_alt unat_word_ariths)
  show "guid_with (pl_uid pl) (pl_next pl) \<notin> F \<Longrightarrow> guid_with (pl_uid pl) (pl_next pl) \<notin> set (guids pl)"
    using ok guid_with_halves(1) [of "pl_uid pl" "pl_next pl"]
    by (auto simp: player_ok_def own_guids_def guid_ok_def list_all_iff)
  show "guid_ok (pl\<lparr>pl_next := pl_next pl + 1\<rparr>) (guid_with (pl_uid pl) (pl_next pl))"
    by (simp add: guid_ok_def guid_with_halves word_less_nat_alt up inc)
  show "guid_ok pl g \<Longrightarrow> guid_ok (pl\<lparr>pl_next := pl_next pl + 1\<rparr>) g"
    by (simp add: guid_ok_def word_less_nat_alt up inc)
qed

text \<open>Only the guids, the uid and the counter matter; guids may leave, and those brought may be any.\<close>

lemma guid_ok_cong: "pl_uid pl' = pl_uid pl \<Longrightarrow> pl_next pl' = pl_next pl \<Longrightarrow> guid_ok pl' g = guid_ok pl g"
  by (simp add: guid_ok_def)

lemma player_ok_less:
  assumes "player_ok F pl" "pl_uid pl' = pl_uid pl" "pl_next pl' = pl_next pl" "F \<subseteq> F'"
    "set (own_guids F' pl') \<subseteq> set (own_guids F pl)" "distinct (own_guids F' pl')"
  shows "player_ok F' pl'"
  using assms guid_ok_cong [OF assms(2,3)] by (auto simp: player_ok_def list_all_iff)

lemma player_ok_same:
  assumes "player_ok F pl" "pl_uid pl' = pl_uid pl" "pl_next pl' = pl_next pl" "guids pl' = guids pl"
  shows "player_ok F pl'"
  using assms by (intro player_ok_less [OF assms(1-3)]) (simp_all add: own_guids_def player_ok_def)

lemma own_insert: "own_guids (insert g F) pl = filter (\<lambda>x. x \<noteq> g) (own_guids F pl)"
  by (simp add: own_guids_def conj_commute)

text \<open>A guid that is brought joins those brought; the list may hold it any number of times.\<close>

lemma brought_ok:
  assumes "player_ok F pl" "pl_uid pl' = pl_uid pl" "pl_next pl' = pl_next pl"
    "filter (\<lambda>x. x \<noteq> g) (guids pl') = filter (\<lambda>x. x \<noteq> g) (guids pl)"
  shows "player_ok (insert g F) pl'"
proof (rule player_ok_less [OF assms(1-3)])
  have "own_guids (insert g F) pl' = own_guids (insert g F) pl"
    using arg_cong [OF assms(4), of "filter (\<lambda>x. x \<notin> F)"] by (simp add: own_guids_def conj_commute)
  then show "set (own_guids (insert g F) pl') \<subseteq> set (own_guids F pl)" "distinct (own_guids (insert g F) pl')"
    using assms(1) by (auto simp: own_insert player_ok_def)
qed auto

lemma counted_ok:
  assumes ok: "player_ok F pl" and n: "pl_next pl < 0xffffffff"
    and "pl_uid pl' = pl_uid pl" "pl_next pl' = pl_next pl + 1"
    and split: "guids pl = xs @ ys" "guids pl' = xs @ guid_with (pl_uid pl) (pl_next pl) # ys"
  shows "player_ok F pl'"
proof -
  let ?g = "guid_with (pl_uid pl) (pl_next pl)"
  have g: "guid_ok pl' h \<longleftrightarrow> guid_ok (pl\<lparr>pl_next := pl_next pl + 1\<rparr>) h" for h
    using assms(3,4) by (simp add: guid_ok_def)
  have own: "own_guids F pl = filter (\<lambda>g. g \<notin> F) xs @ filter (\<lambda>g. g \<notin> F) ys"
    "own_guids F pl' = filter (\<lambda>g. g \<notin> F) xs @ (if ?g \<in> F then [] else [?g]) @ filter (\<lambda>g. g \<notin> F) ys"
    using split by (simp_all add: own_guids_def)
  have new: "?g \<notin> F \<Longrightarrow> ?g \<notin> set (own_guids F pl)"
    using next_number(1) [OF ok n] by (auto simp: own_guids_def)
  show ?thesis
    using ok new next_number(2,3) [OF ok n] unfolding player_ok_def g list_all_iff own by auto
qed

section \<open>Calls that number, bring, change and remove\<close>

lemma add_avatar_ok:
  assumes "player_ok F pl" "pl_next pl < 0xffffffff" "low_half (av_guid a) = 0"
  shows "player_ok F (snd (snd (addAvatar new (Some a) pl)))"
    "\<exists>a'. addAvatar new (Some a) pl = (0, Some a', snd (snd (addAvatar new (Some a) pl)))
       \<and> av_guid a' = guid_with (pl_uid pl) (pl_next pl)"
proof -
  let ?a = "setUid (pl_uid pl) (setGuid (ucast (pl_next pl)) a)"
  have eq: "addAvatar new (Some a) pl =
      (0, Some ?a, pl\<lparr>pl_next := pl_next pl + 1, pl_avatars := pl_avatars pl @ [(new, ?a)]\<rparr>)"
    using assms(3) by (simp add: addAvatar_def Let_def low_half_def uid_small)
  show "player_ok F (snd (snd (addAvatar new (Some a) pl)))"
    unfolding eq by (rule counted_ok [OF assms(1,2)]) (simp_all add: guids_def guid_set)
  show "\<exists>a'. addAvatar new (Some a) pl = (0, Some a', snd (snd (addAvatar new (Some a) pl)))
       \<and> av_guid a' = guid_with (pl_uid pl) (pl_next pl)"
    unfolding eq by (simp add: guid_set)
qed

lemma owner_low: "(push_bit 32 (ucast (u :: u32)) :: u64) AND 0xffffffff = 0"
  unfolding mask32 by (rule bit_word_eqI) (auto simp: bit_simps)

lemma add_item_ok:
  assumes "player_ok F pl" "pl_next pl < 0xffffffff" "drop_bit 32 (it_guid x) = 0"
  shows "player_ok F (snd (snd (addItem new (Some x) pl)))"
    "\<exists>x'. addItem new (Some x) pl = (0, Some x', snd (snd (addItem new (Some x) pl)))
       \<and> it_guid x' = guid_with (pl_uid pl) (pl_next pl)"
proof -
  let ?x = "x\<lparr>it_guid := guid_with (pl_uid pl) (pl_next pl)\<rparr>"
  have eq: "addItem new (Some x) pl =
      (0, Some ?x, pl\<lparr>pl_next := pl_next pl + 1, pl_items := pl_items pl @ [(new, ?x)]\<rparr>)"
    using assms(3) by (simp add: addItem_def Let_def owner_low guid_with_def)
  show "player_ok F (snd (snd (addItem new (Some x) pl)))"
    unfolding eq by (rule counted_ok [OF assms(1,2), where ys = "[]"]) (simp_all add: guids_def)
  show "\<exists>x'. addItem new (Some x) pl = (0, Some x', snd (snd (addItem new (Some x) pl)))
       \<and> it_guid x' = guid_with (pl_uid pl) (pl_next pl)"
    unfolding eq by simp
qed

text \<open>
  An avatar with a number of its own keeps it; an item with an owner of its own keeps that, and takes the next
  number when it has none.
\<close>

lemma bring_avatar_ok:
  assumes "player_ok F pl" "low_half (av_guid a) \<noteq> 0" "addAvatar new (Some a) pl = (r, Some a', pl')"
  shows "player_ok (insert (av_guid a') F) pl'"
  using assms(2,3) by (intro brought_ok [OF assms(1)]) (auto simp: addAvatar_def low_half_def guids_def Let_def)

lemma bring_item_ok:
  assumes "player_ok F pl" "drop_bit 32 (it_guid x) \<noteq> 0" "low_half (it_guid x) = 0 \<longrightarrow> pl_next pl < 0xffffffff"
    "addItem new (Some x) pl = (r, Some x', pl')"
  shows "player_ok (insert (it_guid x') F) pl'"
proof (cases "low_half (it_guid x) = 0")
  case True
  then have n: "pl_next pl < 0xffffffff" using assms(3) by simp
  have "player_ok F (pl\<lparr>pl_next := pl_next pl + 1\<rparr>)"
    using assms(1) next_number(2) [OF assms(1) n] by (auto simp: player_ok_def own_guids_def guids_def list_all_iff)
  moreover have "pl' = pl\<lparr>pl_next := pl_next pl + 1, pl_items := pl_items pl @ [(new, x')]\<rparr>"
    using assms(2,4) True by (auto simp: addItem_def low_half_def Let_def)
  ultimately show ?thesis by (intro brought_ok [of F "pl\<lparr>pl_next := pl_next pl + 1\<rparr>"]) (simp_all add: guids_def)
next
  case False
  then show ?thesis
    using assms(2,4) by (intro brought_ok [OF assms(1)]) (auto simp: addItem_def low_half_def guids_def Let_def)
qed

lemma put_node_others:
  "filter (\<lambda>x. x \<noteq> key v) (map (key o snd) (put_node key v new l)) = filter (\<lambda>x. x \<noteq> key v) (map (key o snd) l)"
proof -
  have "replace_node (\<lambda>x. key x = key v) v l = Some l' \<Longrightarrow>
      filter (\<lambda>x. x \<noteq> key v) (map (key o snd) l') = filter (\<lambda>x. x \<noteq> key v) (map (key o snd) l)" for l'
    by (induction "\<lambda>x. key x = key v" v l arbitrary: l' rule: replace_node.induct) (auto split: if_splits)
  then show ?thesis by (auto simp: put_node_def split: option.split)
qed

lemma brought_avatars_ok:
  assumes "player_ok F pl"
  shows "player_ok (insert (av_guid a) F) (snd (addAvatar_const new (Some a) pl))"
    "player_ok (insert g F) (snd (snd (setAvatar new g a pl)))"
    "player_ok (insert g F) (snd (setAvatar_const new g a pl))"
proof -
  have put: "player_ok (insert (av_guid b) F) (pl\<lparr>pl_avatars := put_node av_guid b new (pl_avatars pl)\<rparr>)" for b
    by (rule brought_ok [OF assms]) (simp_all add: guids_def put_node_others)
  show "player_ok (insert (av_guid a) F) (snd (addAvatar_const new (Some a) pl))"
    by (rule brought_ok [OF assms]) (simp_all add: addAvatar_const_def guids_def)
  show "player_ok (insert g F) (snd (snd (setAvatar new g a pl)))"
    using put [of "setGuid g a"] by (simp add: setAvatar_def setGuid_def Let_def)
  show "player_ok (insert g F) (snd (setAvatar_const new g a pl))"
    using put [of a] brought_ok [OF assms refl refl refl, of g] by (auto simp: setAvatar_const_def)
qed

lemma brought_items_ok:
  assumes "player_ok F pl"
  shows "player_ok (insert (it_guid x) F) (snd (addItem_const new (Some x) pl))"
    "player_ok (insert g F) (snd (snd (setItem new g x pl)))"
    "player_ok (insert g F) (snd (setItem_const new g x pl))"
proof -
  have put: "player_ok (insert (it_guid y) F) (pl\<lparr>pl_items := put_node it_guid y new (pl_items pl)\<rparr>)" for y
    by (rule brought_ok [OF assms]) (simp_all add: guids_def put_node_others)
  show "player_ok (insert (it_guid x) F) (snd (addItem_const new (Some x) pl))"
    by (rule brought_ok [OF assms]) (simp_all add: addItem_const_def guids_def)
  show "player_ok (insert g F) (snd (snd (setItem new g x pl)))"
    using put [of "x\<lparr>it_guid := g\<rparr>"] by (simp add: setItem_def Let_def)
  show "player_ok (insert g F) (snd (setItem_const new g x pl))"
    using put [of x] brought_ok [OF assms refl refl refl, of g] by (auto simp: setItem_const_def)
qed

lemma erase_node_less:
  "erase_node P l = Some l' \<Longrightarrow> set (filter R (map f l')) \<subseteq> set (filter R (map f l))
     \<and> (distinct (filter R (map f l)) \<longrightarrow> distinct (filter R (map f l')))"
proof (induction P l arbitrary: l' rule: erase_node.induct)
  case (2 P p x l)
  show ?case
  proof (cases "P x")
    case False
    with 2(2) obtain m where m: "erase_node P l = Some m" "l' = (p, x) # m" by auto
    from 2(1) [OF False m(1)] show ?thesis unfolding m(2) by auto
  qed (use 2(2) in auto)
qed simp

lemma del_ok:
  assumes "player_ok F pl"
  shows "player_ok F (snd (del_avatar P pl))" "player_ok F (snd (del_item Q pl))"
proof -
  have d: "distinct (own_guids F pl)" using assms by (simp add: player_ok_def)
  show "player_ok F (snd (del_avatar P pl))"
  proof (cases "erase_node P (pl_avatars pl)")
    case (Some l')
    note l = erase_node_less [OF Some, of "\<lambda>g. g \<notin> F" "av_guid o snd"]
    have "set (own_guids F (pl\<lparr>pl_avatars := l'\<rparr>)) \<subseteq> set (own_guids F pl)" "distinct (own_guids F (pl\<lparr>pl_avatars := l'\<rparr>))"
      using l d by (auto simp: own_guids_def guids_def)
    then have "player_ok F (pl\<lparr>pl_avatars := l'\<rparr>)" by (intro player_ok_less [OF assms]) simp_all
    with Some show ?thesis by (simp add: del_avatar_def)
  qed (use assms in \<open>simp add: del_avatar_def\<close>)
  show "player_ok F (snd (del_item Q pl))"
  proof (cases "erase_node Q (pl_items pl)")
    case (Some l')
    note l = erase_node_less [OF Some, of "\<lambda>g. g \<notin> F" "it_guid o snd"]
    have "set (own_guids F (pl\<lparr>pl_items := l'\<rparr>)) \<subseteq> set (own_guids F pl)" "distinct (own_guids F (pl\<lparr>pl_items := l'\<rparr>))"
      using l d by (auto simp: own_guids_def guids_def)
    then have "player_ok F (pl\<lparr>pl_items := l'\<rparr>)" by (intro player_ok_less [OF assms]) simp_all
    with Some show ?thesis by (simp add: del_item_def)
  qed (use assms in \<open>simp add: del_item_def\<close>)
qed

lemma replace_same_keys:
  "replace_node (\<lambda>x. key x = key v) v l = Some l' \<Longrightarrow> map (key o snd) l' = map (key o snd) l"
  by (induction "\<lambda>x. key x = key v" v l arbitrary: l' rule: replace_node.induct) (auto split: if_splits)

section \<open>Every player\<close>

lemma update_states_fields:
  "\<exists>l. snd (updateOpenstates data n pl) = pl\<lparr>pl_openstates := l\<rparr>"
proof (cases data)
  case None
  then show ?thesis by (auto simp: updateOpenstates_def intro: exI [of _ "pl_openstates pl"])
next
  case (Some es)
  then show ?thesis using open_entries_outcome [of es pl] by (simp add: updateOpenstates_def Let_def)
qed

text \<open>
  The players that a new player or one read from a stored message becomes, by any calls: adding an avatar or an
  item that has the counter number it, or with a guid that it brings; setting one under a guid; removing; giving
  the player another uid, from where on all guids it has are brought; and every call that leaves the guids,
  the uid and the counter alone. The counter is not used up.
\<close>

inductive player_reach :: "u64 set \<Rightarrow> player \<Rightarrow> bool" where
  new: "player_reach {} (setPlayerUid u (player_default data raw))"
| stored: "player_reach {} (player_of_pb data account sessions now pb raw)"
| add_avatar: "player_reach F pl \<Longrightarrow> pl_next pl < 0xffffffff \<Longrightarrow> low_half (av_guid a) = 0 \<Longrightarrow>
    player_reach F (snd (snd (addAvatar new (Some a) pl)))"
| add_item: "player_reach F pl \<Longrightarrow> pl_next pl < 0xffffffff \<Longrightarrow> drop_bit 32 (it_guid x) = 0 \<Longrightarrow>
    player_reach F (snd (snd (addItem new (Some x) pl)))"
| bring_avatar: "player_reach F pl \<Longrightarrow> low_half (av_guid a) \<noteq> 0 \<Longrightarrow> addAvatar new (Some a) pl = (r, Some a', pl') \<Longrightarrow>
    player_reach (insert (av_guid a') F) pl'"
| bring_item: "player_reach F pl \<Longrightarrow> drop_bit 32 (it_guid x) \<noteq> 0 \<Longrightarrow>
    low_half (it_guid x) = 0 \<longrightarrow> pl_next pl < 0xffffffff \<Longrightarrow> addItem new (Some x) pl = (r, Some x', pl') \<Longrightarrow>
    player_reach (insert (it_guid x') F) pl'"
| bring_avatar_const: "player_reach F pl \<Longrightarrow> player_reach (insert (av_guid a) F) (snd (addAvatar_const new (Some a) pl))"
| bring_item_const: "player_reach F pl \<Longrightarrow> player_reach (insert (it_guid x) F) (snd (addItem_const new (Some x) pl))"
| set_avatar: "player_reach F pl \<Longrightarrow> player_reach (insert g F) (snd (snd (setAvatar new g a pl)))"
| set_avatar_const: "player_reach F pl \<Longrightarrow> player_reach (insert g F) (snd (setAvatar_const new g a pl))"
| set_item: "player_reach F pl \<Longrightarrow> player_reach (insert g F) (snd (snd (setItem new g x pl)))"
| set_item_const: "player_reach F pl \<Longrightarrow> player_reach (insert g F) (snd (setItem_const new g x pl))"
| del_avatar: "player_reach F pl \<Longrightarrow> player_reach F (snd (del_avatar P pl))"
| del_item: "player_reach F pl \<Longrightarrow> player_reach F (snd (del_item Q pl))"
| set_uid: "player_reach F pl \<Longrightarrow> player_reach (F \<union> set (guids pl)) (setPlayerUid u pl)"
| other: "player_reach F pl \<Longrightarrow> pl_uid pl' = pl_uid pl \<Longrightarrow> pl_next pl' = pl_next pl \<Longrightarrow> guids pl' = guids pl \<Longrightarrow>
    player_reach F pl'"

lemma player_empty_ok: "pl_avatars pl = [] \<Longrightarrow> pl_items pl = [] \<Longrightarrow> player_ok F pl"
  by (simp add: player_ok_def own_guids_def guids_def)

lemma player_start_ok:
  "player_ok {} (setPlayerUid u (player_default data raw))" "player_ok {} (player_of_pb data account sessions now pb raw)"
proof -
  have "pl_avatars (snd (updateOpenstates d n q)) = pl_avatars q \<and> pl_items (snd (updateOpenstates d n q)) = pl_items q" for d n q
    using update_states_fields [of d n q] by auto
  then show "player_ok {} (setPlayerUid u (player_default data raw))" "player_ok {} (player_of_pb data account sessions now pb raw)"
    by (simp_all add: player_empty_ok setPlayerUid_def player_default_def player_of_pb_def)
qed

lemma player_reach_ok: "player_reach F pl \<Longrightarrow> player_ok F pl"
proof (induction rule: player_reach.induct)
  case (set_uid F pl u)
  have "own_guids (F \<union> set (guids pl)) (setPlayerUid u pl) = []"
    by (auto simp: own_guids_def guids_def setPlayerUid_def filter_empty_conv)
  then show ?case by (simp add: player_ok_def)
qed (auto intro: player_start_ok add_avatar_ok add_item_ok bring_avatar_ok bring_item_ok brought_avatars_ok brought_items_ok
    del_ok player_ok_same)

text \<open>The other calls of a player leave its guids, its uid and its counter alone.\<close>

lemma player_other:
  assumes "player_reach F pl" "\<exists>ts ct ca tp os ar ae w m aid. pl' = pl\<lparr>pl_teams := ts, pl_cur_team := ct, pl_cur_avatar := ca,
      pl_tp := tp, pl_openstates := os, pl_ar := ar, pl_ar_exp := ae, pl_world := w, pl_props := m, pl_aid := aid\<rparr>"
  shows "player_reach F pl'"
  using assms(2) by (intro player_reach.other [OF assms(1)]) (auto simp: guids_def)

lemma player_other_calls:
  assumes "player_reach F pl"
  shows "player_reach F (snd (updateAvatar a pl))" "player_reach F (snd (updateItem x pl))"
    "player_reach F (snd (swapToAvatar p pl))" "player_reach F (snd (swapToTeam_index i pl))"
    "player_reach F (snd (addAvatarTeam new t pl))" "player_reach F (snd (setAvatarTeam t' i pl))"
    "player_reach F (snd (delAvatarTeam i pl))" "player_reach F (snd (setOpenstate st n pl))"
    "player_reach F (snd (updateOpenstates data n pl))" "player_reach F (setProp k v pl)"
    "player_reach F (setTpToken tk pl)" "player_reach F (setAccount acc pl)"
proof -
  show "player_reach F (snd (updateAvatar a pl))" "player_reach F (snd (updateItem x pl))"
    by (rule player_reach.other [OF assms];
        auto simp: updateAvatar_def updateItem_def guids_def replace_same_keys split: option.split)+
  have up: "pl_uid (snd (updateOpenstates d n q)) = pl_uid q" "pl_next (snd (updateOpenstates d n q)) = pl_next q"
    "guids (snd (updateOpenstates d n q)) = guids q" for d n q
    using update_states_fields [of d n q] by (auto simp: guids_def)
  show "player_reach F (snd (updateOpenstates data n pl))" by (rule player_reach.other [OF assms]) (simp_all add: up)
qed (rule player_reach.other [OF assms];
    auto simp: swapToAvatar_def swapToTeam_index_def addAvatarTeam_def setAvatarTeam_def delAvatarTeam_def setOpenstate_def
      setProp_def setTpToken_def setAccount_def guids_def Let_def split: option.split)+

lemma player_team_calls:
  assumes "player_reach F pl"
  shows "swapToTeam p t pl = Inr (r, pl') \<Longrightarrow> player_reach F pl'"
    "addAvatarToTeam q tm pl = Inr (r, pl') \<Longrightarrow> player_reach F pl'"
    "removeAvatarFromTeam q tm pl = Inr (r, pl') \<Longrightarrow> player_reach F pl'"
  by (rule player_reach.other [OF assms];
      auto simp: swapToTeam_def addAvatarToTeam_def removeAvatarFromTeam_def with_team_def map_sum_def guids_def
        split: option.splits if_splits sum.splits)+

text \<open>Loading brings the guids that were stored.\<close>

lemma load_reach:
  "load_entries env db new raw_a raw_i is pl = Inr pl' \<Longrightarrow> player_reach F pl \<Longrightarrow>
     \<exists>F'. player_reach F' pl' \<and> F' \<subseteq> F \<union> set (guids pl') \<and> set (guids pl) \<subseteq> set (guids pl')"
proof (induction env db new raw_a raw_i "is" pl arbitrary: F rule: load_entries.induct)
  case (2 env db new raw_a raw_i i "is" pl)
  let ?g = "push_bit 32 (ucast (pl_uid pl)) OR i"
  show ?case
  proof (cases "db ?g")
    case None
    with 2 show ?thesis by simp
  next
    case (Some e)
    show ?thesis
    proof (cases e)
      case (Avatar_entry pb)
      let ?a = "avatar_of_pb env pb raw_a" and ?pl = "snd (addAvatar_const (new ?g) (Some (avatar_of_pb env pb raw_a)) pl)"
      have "\<exists>F'. player_reach F' pl' \<and> F' \<subseteq> insert (av_guid ?a) F \<union> set (guids pl') \<and> set (guids ?pl) \<subseteq> set (guids pl')"
        by (rule "2.IH"(2) [OF refl Some Avatar_entry]) (use "2.prems" Some Avatar_entry in \<open>simp_all add: player_reach.bring_avatar_const\<close>)
      moreover have "set (guids ?pl) = insert (av_guid ?a) (set (guids pl))" by (auto simp: addAvatar_const_def guids_def)
      ultimately show ?thesis by auto
    next
      case (Item_entry pb)
      then obtain it where it: "item_of_pb pb raw_i = Inr it" using "2.prems"(1) Some by (simp split: sum.splits)
      let ?pl = "snd (addItem_const (new ?g) (Some it) pl)"
      have "\<exists>F'. player_reach F' pl' \<and> F' \<subseteq> insert (it_guid it) F \<union> set (guids pl') \<and> set (guids ?pl) \<subseteq> set (guids pl')"
        by (rule "2.IH"(3) [OF refl Some Item_entry it]) (use "2.prems" Some Item_entry it in \<open>simp_all add: player_reach.bring_item_const\<close>)
      moreover have "set (guids ?pl) = insert (it_guid it) (set (guids pl))" by (auto simp: addItem_const_def guids_def)
      ultimately show ?thesis by auto
    next
      case Empty_entry
      with 2 Some show ?thesis by simp
    qed
  qed
qed auto

lemma player_load:
  assumes "player_reach F pl" "loadInventoryAndAvatars env db new raw_a raw_i pl = Inr (r, pl')"
  shows "\<exists>F'. player_reach F' pl' \<and> F' \<subseteq> F \<union> set (guids pl')"
proof -
  have "load_entries env db new raw_a raw_i (map of_nat [0..<unat (pl_next pl)]) pl = Inr pl'"
    using assms(2) by (auto simp: loadInventoryAndAvatars_def map_sum_def split: sum.splits)
  from load_reach [OF this assms(1)] show ?thesis by blast
qed

end
