(* ===== verification/Item_Props.thy ===== *)
theory Item_Props
  imports Item
begin

unbundle bit_operations_syntax

text \<open>
  Lemmas about items: reading back a field, and what a message becomes when it is read into an item and
  written again.
\<close>

lemma put_put_same:
  assumes "off + n \<le> length bs"
  shows "put_le off n w (put_le off n v bs) = put_le off n w bs"
  using assms by (simp add: put_le_def)

lemma put_get_same:
  assumes "off + n \<le> length bs" "8 * n \<le> LENGTH('a::len)"
  shows "put_le off n (get_le off n bs :: 'a word) bs = bs"
proof -
  have "store_le n (get_le off n bs :: 'a word) = piece off n bs"
    using assms by (simp add: get_le_def store_load_le length_piece)
  then show ?thesis by (simp add: put_le_def piece_def add.commute flip: drop_drop)
qed

section \<open>There and back\<close>

definition sub_ids :: "u32 list \<Rightarrow> u16 list" where
  "sub_ids ps = filter (\<lambda>s. s \<noteq> 0) (map ucast ps)"

lemma sub_id_one: "List.find (\<lambda>j. sub_id j d = s) [0..<Suc 0] = (if sub_id 0 d = s then Some 0 else None)"
  by simp

lemma add_substats_one:
  assumes "length d = 16" "sub_id 0 d = s" "s \<noteq> 0"
  shows "add_substats ps 1 d =
    (if \<forall>x\<in>set (sub_ids ps). x = s
     then Inr (1, put_le 12 2 (sub_count 0 d + of_nat (length (sub_ids ps))) d) else Inl Out_of_bounds)"
  using assms
proof (induction ps arbitrary: d)
  case Nil
  then show ?case by (simp add: sub_ids_def sub_count_def put_get_same)
next
  case (Cons p ps)
  let ?d = "put_le 12 2 (sub_count 0 d + 1) d"
  have d: "length ?d = 16" "sub_id 0 ?d = s"
    using Cons.prems by (simp_all add: sub_id_def get_put_other)
  have c: "sub_count 0 (put_le 12 2 c d) = c" for c
    using Cons.prems by (simp add: sub_count_def get_put_same)
  show ?case
    using Cons.IH [OF d(1,2) Cons.prems(3)] Cons.IH [OF Cons.prems] Cons.prems
    by (auto simp: sub_id_one Let_def sub_ids_def c put_put_same ac_simps)
qed

lemma add_substats_all:
  assumes "length d = 16"
  shows "add_substats ps 0 d =
    (case sub_ids ps of
       [] \<Rightarrow> Inr (0, d)
     | s # ss \<Rightarrow> if \<forall>x\<in>set ss. x = s
                then Inr (1, put_le 12 2 (of_nat (length (s # ss)) :: u16) (put_le 10 2 s d)) else Inl Out_of_bounds)"
proof (induction ps)
  case Nil
  show ?case by (simp add: sub_ids_def)
next
  case (Cons p ps)
  let ?s = "ucast p :: u16" and ?d = "put_le 12 2 (1 :: u16) (put_le 10 2 (ucast p :: u16) d)"
  show ?case
  proof (cases "?s = 0")
    case True
    then have "sub_ids (p # ps) = sub_ids ps" by (simp add: sub_ids_def)
    with Cons True show ?thesis by (simp add: Let_def)
  next
    case False
    have d: "length ?d = 16" "sub_id 0 ?d = ?s" "sub_count 0 ?d = 1"
      using assms by (simp_all add: sub_id_def sub_count_def get_put_other get_put_same)
    have ids: "sub_ids (p # ps) = ?s # sub_ids ps" using False by (simp add: sub_ids_def)
    from add_substats_one [OF d(1,2) False, of ps] False show ?thesis
      by (simp add: Let_def ids assms d(3) put_put_same add.commute)
  qed
qed

text \<open>What an item's message becomes after it was read into an item and written again.\<close>

definition item_canon :: "u64 \<Rightarrow> pb_item_detail \<Rightarrow> pb_item_detail option" where
  "item_canon raw_time det =
     (case det of
        Material m \<Rightarrow>
          let t = (case pm_delete m of
                     Some del \<Rightarrow> (case (pd_has_config del, pd_date del) of
                         (True, Some t) \<Rightarrow> ucast t
                       | _ \<Rightarrow> raw_time)
                   | None \<Rightarrow> raw_time)
          in Some (Material (m\<lparr>pm_delete := if t = 0 then None
                                           else Some \<lparr>pd_has_config = True, pd_date = Some (ucast t)\<rparr>\<rparr>))
      | Equip locked (Reliquary r) \<Rightarrow>
          let ids = sub_ids (pr_append r); lv = take_bit 8 (pr_level r)
          in if card (set ids) \<le> 1
             then Some (Equip locked (Reliquary (r\<lparr>pr_level := lv, pr_promote := lv div 4,
                    pr_main := take_bit 16 (pr_main r),
                    pr_append := replicate (length ids mod 2 ^ 16) (ucast (hd ids))\<rparr>)))
             else None
      | Equip locked (Weapon w) \<Rightarrow>
          (case pw_affixes w of
             [] \<Rightarrow> Some (Equip locked (Weapon (w\<lparr>pw_level := take_bit 8 (pw_level w), pw_promote := take_bit 8 (pw_promote w)\<rparr>)))
           | [(a, r)] \<Rightarrow> Some (Equip locked (Weapon (w\<lparr>pw_level := take_bit 8 (pw_level w),
                            pw_promote := take_bit 8 (pw_promote w), pw_affixes := [(a, take_bit 8 r)]\<rparr>)))
           | _ \<Rightarrow> None)
      | det \<Rightarrow> Some det)"

lemma ucast_ucast_take: "(ucast (ucast (w :: u32) :: u8) :: u32) = take_bit 8 w"
  "(ucast (ucast (w :: u32) :: u16) :: u32) = take_bit 16 w"
  "(ucast (ucast (w :: u32) :: u64) :: u32) = w"
  by (rule bit_word_eqI, auto simp: bit_simps)+

lemma card_le_one: "card (set (s # ss)) \<le> 1 \<longleftrightarrow> (\<forall>x\<in>set ss. x = s)"
proof
  assume "card (set (s # ss)) \<le> 1"
  then have "card (set (s # ss)) = 1" by (metis One_nat_def card_gt_0_iff empty_iff finite_set le_antisym less_eq_Suc_le list.set_intros(1))
  then obtain y where "set (s # ss) = {y}" by (auto simp: card_1_singleton_iff)
  then show "\<forall>x\<in>set ss. x = s" by auto
next
  assume "\<forall>x\<in>set ss. x = s"
  then have e: "set (s # ss) = {s}" by auto
  show "card (set (s # ss)) \<le> 1" unfolding e by simp
qed

lemmas mem_simps = get_put_same get_put_other put_put_same

lemma material_round:
  assumes "length d = 16"
  shows "Some (Material (material_pb (material_data m d))) = item_canon (get_le 8 8 d) (Material m)"
  using assms
  by (cases m)
    (auto simp: material_pb_def material_data_def item_canon_def mem_simps Let_def ucast_ucast_take
      split: option.splits bool.splits)

lemma read_substats_one:
  assumes "length d = 16"
  shows "read_substats [0..<Suc 0] d = Inr (replicate (unat (sub_count 0 d)) (ucast (sub_id 0 d)))"
  using assms by simp

lemma unat_of_nat_u16: "unat (of_nat n :: u16) = n mod 2 ^ 16"
  by (simp add: unsigned_of_nat take_bit_eq_mod)

lemma artifact_round:
  assumes "length d = 16"
  shows "(case artifact_data locked r d of
      Inl f \<Rightarrow> f = Out_of_bounds \<and> item_canon t (Equip locked (Reliquary r)) = None
    | Inr d' \<Rightarrow> \<forall>i g. map_sum id Some (map_sum id pi_detail (item_to_pb \<lparr>it_id = i, it_type = ITEM_ARTIFACT, it_guid = g, it_data = d'\<rparr>)) =
        Inr (item_canon t (Equip locked (Reliquary r))))"
proof -
  define d0 where "d0 = put_le 6 2 (ucast (pr_main r) :: u16) (put_le 0 4 (pr_exp r)
    (put_le 5 1 (ucast (pr_level r) :: u8) (put_le 4 1 (if locked then 1 else 0 :: u8) d)))"
  have len: "length d0 = 16" using assms by (simp add: d0_def)
  have g: "get_le 4 1 d0 = (if locked then 1 else 0 :: u8)" "get_le 5 1 d0 = (ucast (pr_level r) :: u8)"
    "get_le 0 4 d0 = pr_exp r" "get_le 6 2 d0 = (ucast (pr_main r) :: u16)"
    using assms by (simp_all add: d0_def mem_simps)
  have a: "artifact_data locked r d = (case add_substats (pr_append r) 0 d0 of
      Inl f \<Rightarrow> Inl f | Inr (k, d) \<Rightarrow> Inr (put_le 8 2 (of_nat k :: u16) d))"
    by (simp only: artifact_data_def Let_def d0_def)
  have upd: "r\<lparr>pr_level := lv, pr_promote := pr, pr_main := mn, pr_append := ap\<rparr> =
      \<lparr>pr_level = lv, pr_exp = pr_exp r, pr_promote = pr, pr_main = mn, pr_append = ap\<rparr>" for lv pr mn ap
    by (cases r) simp
  note simps = item_to_pb_def Let_def ITEM_ARTIFACT_def ITEM_MATERIAL_def item_canon_def ucast_ucast_take
    g [simplified] len mem_simps
  show ?thesis
  proof (cases "sub_ids (pr_append r)")
    case Nil
    then show ?thesis unfolding a add_substats_all [OF len] by (simp add: simps upd)
  next
    case (Cons s ss)
    show ?thesis
    proof (cases "\<forall>x\<in>set ss. x = s")
      case True
      then have "card (set (s # ss)) \<le> 1" by (simp only: card_le_one)
      with True show ?thesis unfolding a add_substats_all [OF len] Cons
        by (simp add: simps upd Cons sub_id_def sub_count_def unat_of_nat_u16 del: of_nat_Suc)
    next
      case False
      then have "\<not> card (set (s # ss)) \<le> 1" by (simp only: card_le_one) simp
      with False show ?thesis unfolding a add_substats_all [OF len] Cons by (simp add: simps Cons)
    qed
  qed
qed


lemma add_affixes_two: "length d = 16 \<Longrightarrow> add_affixes (x # y # as) 0 k d = Inl Out_of_bounds"
  by (cases x; cases y) simp

lemma weapon_round:
  assumes "length d = 16"
  shows "(case weapon_data locked w d of
      Inl f \<Rightarrow> f = Out_of_bounds \<and> item_canon t (Equip locked (Weapon w)) = None
    | Inr d' \<Rightarrow> \<forall>i g. map_sum id Some (map_sum id pi_detail (item_to_pb \<lparr>it_id = i, it_type = ITEM_WEAPON, it_guid = g, it_data = d'\<rparr>)) =
        Inr (item_canon t (Equip locked (Weapon w))))"
proof -
  define d0 where "d0 = put_le 6 1 (ucast (pw_promote w) :: u8) (put_le 0 4 (pw_exp w)
    (put_le 5 1 (ucast (pw_level w) :: u8) (put_le 4 1 (if locked then 1 else 0 :: u8) d)))"
  have len: "length d0 = 16" using assms by (simp add: d0_def)
  have g: "get_le 4 1 d0 = (if locked then 1 else 0 :: u8)" "get_le 5 1 d0 = (ucast (pw_level w) :: u8)"
    "get_le 0 4 d0 = pw_exp w" "get_le 6 1 d0 = (ucast (pw_promote w) :: u8)"
    using assms by (simp_all add: d0_def mem_simps)
  have a: "weapon_data locked w d = (case add_affixes (pw_affixes w) 0 0 d0 of
      Inl f \<Rightarrow> Inl f | Inr (i, k, d) \<Rightarrow> Inr (put_le 7 1 (ucast k :: u8) (put_le 8 4 (of_nat i :: u32) d)))"
    by (simp only: weapon_data_def Let_def d0_def)
  note simps = item_to_pb_def Let_def ITEM_ARTIFACT_def ITEM_MATERIAL_def ITEM_WEAPON_def item_canon_def
    ucast_ucast_take g [simplified] len mem_simps
  show ?thesis
  proof (cases "pw_affixes w")
    case Nil
    then show ?thesis unfolding a by (cases w) (simp add: simps)
  next
    case (Cons x as)
    obtain af r where x: "x = (af, r)" by (cases x)
    show ?thesis
    proof (cases as)
      case Nil
      with Cons show ?thesis unfolding a x by (cases w) (simp add: simps x)
    next
      case (Cons y bs)
      with \<open>pw_affixes w = x # as\<close> show ?thesis unfolding a
        by (simp add: simps add_affixes_two del: add_affixes.simps)
    qed
  qed
qed

lemma item_to_pb_head: "item_to_pb it = Inr p \<Longrightarrow> p = \<lparr>pi_id = it_id it, pi_guid = it_guid it, pi_detail = pi_detail p\<rparr>"
  by (auto simp: item_to_pb_def Let_def map_sum_def split: if_splits sum.splits)

lemma item_from_detail:
  assumes "map_sum id Some (map_sum id pi_detail (item_to_pb it)) = Inr (Some det)"
  shows "item_to_pb it = Inr \<lparr>pi_id = it_id it, pi_guid = it_guid it, pi_detail = det\<rparr>"
  using assms item_to_pb_head [of it] by (cases "item_to_pb it") auto

lemma item_back_equip:
  assumes "item_of_pb pb raw =
      map_sum id (\<lambda>d. raw\<lparr>it_id := pi_id pb, it_guid := pi_guid pb, it_type := ty, it_data := d\<rparr>) res"
    and "case res of
        Inl f \<Rightarrow> f = Out_of_bounds \<and> canon = None
      | Inr d \<Rightarrow> \<forall>i g. map_sum id Some (map_sum id pi_detail (item_to_pb \<lparr>it_id = i, it_type = ty, it_guid = g, it_data = d\<rparr>)) = Inr canon"
  shows "case item_of_pb pb raw of
      Inl f \<Rightarrow> f = Out_of_bounds \<and> canon = None
    | Inr it \<Rightarrow> \<exists>det. canon = Some det \<and> item_to_pb it = Inr (pb\<lparr>pi_detail := det\<rparr>)"
proof (cases res)
  case (Inl f)
  with assms show ?thesis by simp
next
  case (Inr d)
  let ?it = "\<lparr>it_id = pi_id pb, it_type = ty, it_guid = pi_guid pb, it_data = d\<rparr>"
  have it: "raw\<lparr>it_id := pi_id pb, it_guid := pi_guid pb, it_type := ty, it_data := d\<rparr> = ?it" by (cases raw) simp
  have upd: "pb\<lparr>pi_detail := det\<rparr> = \<lparr>pi_id = pi_id pb, pi_guid = pi_guid pb, pi_detail = det\<rparr>" for det by (cases pb) simp
  have c: "map_sum id Some (map_sum id pi_detail (item_to_pb ?it)) = Inr canon" using assms(2) Inr by simp
  then obtain det where det: "canon = Some det" by (cases "item_to_pb ?it") auto
  from item_from_detail [OF c [unfolded det]] show ?thesis
    unfolding assms(1) Inr by (simp add: it upd det)
qed

lemma item_back:
  assumes len: "length (it_data raw) = 16" and "pi_detail pb \<noteq> No_detail" "\<And>locked. pi_detail pb \<noteq> Equip locked No_equip"
  shows "case item_of_pb pb raw of
      Inl f \<Rightarrow> f = Out_of_bounds \<and> item_canon (get_le 8 8 (it_data raw)) (pi_detail pb) = None
    | Inr it \<Rightarrow> \<exists>det. item_canon (get_le 8 8 (it_data raw)) (pi_detail pb) = Some det
        \<and> item_to_pb it = Inr (pb\<lparr>pi_detail := det\<rparr>)"
proof (cases "pi_detail pb")
  case (Material m)
  have upd: "pb\<lparr>pi_detail := det\<rparr> = \<lparr>pi_id = pi_id pb, pi_guid = pi_guid pb, pi_detail = det\<rparr>" for det by (cases pb) simp
  show ?thesis
    using material_round [OF len, of m, symmetric] by (simp add: Material item_of_pb_def item_to_pb_def Let_def upd)
next
  case (Equip locked e)
  show ?thesis
  proof (cases e)
    case (Reliquary r)
    show ?thesis unfolding Equip Reliquary
      by (intro item_back_equip [OF _ artifact_round [OF len]]) (simp add: Equip Reliquary item_of_pb_def Let_def)
  next
    case (Weapon w)
    show ?thesis unfolding Equip Weapon
      by (intro item_back_equip [OF _ weapon_round [OF len]]) (simp add: Equip Weapon item_of_pb_def Let_def)
  next
    case No_equip
    with assms(3) [of locked] Equip show ?thesis by simp
  qed
qed (use assms in simp)

end
