(* ===== verification/Enum_Tables.thy ===== *)
theory Enum_Tables
  imports Yagips_Prelude
begin

text \<open>
  The tables that give the names of the data files their numbers: \<open>src/enum.c\<close>, the enumerations of
  \<open>include/enum\<close> with their tables of \<open>src/enum\<close>, and the ranges of the player's properties in
  \<open>src/prop.c\<close>.
\<close>

section \<open>Looking up a name\<close>

text \<open>A table is the array up to its last entry; reading past that is \<^term>\<open>None\<close>.\<close>

type_synonym enum_decl = "(string \<times> u32) list"
type_synonym enum_tbl = "(u32 \<times> string option) list"

fun enumToInt :: "string \<Rightarrow> enum_tbl \<Rightarrow> u32 option" where
  "enumToInt str [] = None"
| "enumToInt str ((i, name) # tbl) =
     (if i = -1 then Some (-1)
      else if name = Some str then Some i
      else enumToInt str tbl)"

text \<open>The macro \<open>ENUM(x)\<close>: the value of the constant, and its name as a string.\<close>

definition ENUM :: "enum_decl \<Rightarrow> string \<Rightarrow> u32 \<times> string option" where
  "ENUM decl x = (the (map_of decl x), Some x)"

section \<open>The enumerations and their tables\<close>

definition item_qualities :: enum_decl where
  "item_qualities = [
     (''QUALITY_NONE'', 0), (''QUALITY_WHITE'', 1), (''QUALITY_GREEN'', 2), (''QUALITY_BLUE'', 3),
     (''QUALITY_PURPLE'', 4), (''QUALITY_ORANGE'', 5), (''QUALITY_ORANGE_SP'', 105)]"

definition weapon_types :: enum_decl where
  "weapon_types = [
     (''WEAPON_NONE'', 0), (''WEAPON_SWORD_ONE_HAND'', 1), (''WEAPON_CROSSBOW'', 2), (''WEAPON_STAFF'', 3),
     (''WEAPON_DOUBLE_DAGGER'', 4), (''WEAPON_KATANA'', 5), (''WEAPON_SHURIKEN'', 6), (''WEAPON_STICK'', 7),
     (''WEAPON_SPEAR'', 8), (''WEAPON_SHIELD_SMALL'', 9), (''WEAPON_CATALYST'', 10),
     (''WEAPON_CLAYMORE'', 11), (''WEAPON_BOW'', 12), (''WEAPON_POLE'', 13)]"

definition ItemQualityTbl :: enum_tbl where
  "ItemQualityTbl = map (ENUM item_qualities) [
     ''QUALITY_NONE'', ''QUALITY_WHITE'', ''QUALITY_GREEN'', ''QUALITY_BLUE'', ''QUALITY_PURPLE'',
     ''QUALITY_ORANGE'', ''QUALITY_ORANGE_SP''] @ [(-1, None)]"

definition WeaponTypeTbl :: enum_tbl where
  "WeaponTypeTbl = map (ENUM weapon_types) [
     ''WEAPON_NONE'', ''WEAPON_SWORD_ONE_HAND'', ''WEAPON_CROSSBOW'', ''WEAPON_STAFF'',
     ''WEAPON_DOUBLE_DAGGER'', ''WEAPON_KATANA'', ''WEAPON_SHURIKEN'', ''WEAPON_STICK'', ''WEAPON_SPEAR'',
     ''WEAPON_SHIELD_SMALL'', ''WEAPON_CATALYST'', ''WEAPON_CLAYMORE'', ''WEAPON_BOW'', ''WEAPON_POLE''] @ [(-1, None)]"

definition fight_props :: enum_decl where
  "fight_props = [
     (''FIGHT_PROP_NONE'', 0), (''FIGHT_PROP_BASE_HP'', 1), (''FIGHT_PROP_HP'', 2),
     (''FIGHT_PROP_HP_PERCENT'', 3), (''FIGHT_PROP_BASE_ATTACK'', 4), (''FIGHT_PROP_ATTACK'', 5),
     (''FIGHT_PROP_ATTACK_PERCENT'', 6), (''FIGHT_PROP_BASE_DEFENSE'', 7), (''FIGHT_PROP_DEFENSE'', 8),
     (''FIGHT_PROP_DEFENSE_PERCENT'', 9), (''FIGHT_PROP_BASE_SPEED'', 10),
     (''FIGHT_PROP_SPEED_PERCENT'', 11), (''FIGHT_PROP_HP_MP_PERCENT'', 12),
     (''FIGHT_PROP_ATTACK_MP_PERCENT'', 13), (''FIGHT_PROP_CRITICAL'', 20),
     (''FIGHT_PROP_ANTI_CRITICAL'', 21), (''FIGHT_PROP_CRITICAL_HURT'', 22),
     (''FIGHT_PROP_CHARGE_EFFICIENCY'', 23), (''FIGHT_PROP_ADD_HURT'', 24), (''FIGHT_PROP_SUB_HURT'', 25),
     (''FIGHT_PROP_HEAL_ADD'', 26), (''FIGHT_PROP_HEALED_ADD'', 27), (''FIGHT_PROP_ELEMENT_MASTERY'', 28),
     (''FIGHT_PROP_PHYSICAL_SUB_HURT'', 29), (''FIGHT_PROP_PHYSICAL_ADD_HURT'', 30),
     (''FIGHT_PROP_DEFENCE_IGNORE_RATIO'', 31), (''FIGHT_PROP_DEFENCE_IGNORE_DELTA'', 32),
     (''FIGHT_PROP_FIRE_ADD_HURT'', 40), (''FIGHT_PROP_ELEC_ADD_HURT'', 41),
     (''FIGHT_PROP_WATER_ADD_HURT'', 42), (''FIGHT_PROP_GRASS_ADD_HURT'', 43),
     (''FIGHT_PROP_WIND_ADD_HURT'', 44), (''FIGHT_PROP_ROCK_ADD_HURT'', 45),
     (''FIGHT_PROP_ICE_ADD_HURT'', 46), (''FIGHT_PROP_HIT_HEAD_ADD_HURT'', 47),
     (''FIGHT_PROP_FIRE_SUB_HURT'', 50), (''FIGHT_PROP_ELEC_SUB_HURT'', 51),
     (''FIGHT_PROP_WATER_SUB_HURT'', 52), (''FIGHT_PROP_GRASS_SUB_HURT'', 53),
     (''FIGHT_PROP_WIND_SUB_HURT'', 54), (''FIGHT_PROP_ROCK_SUB_HURT'', 55),
     (''FIGHT_PROP_ICE_SUB_HURT'', 56), (''FIGHT_PROP_EFFECT_HIT'', 60), (''FIGHT_PROP_EFFECT_RESIST'', 61),
     (''FIGHT_PROP_FREEZE_RESIST'', 62), (''FIGHT_PROP_TORPOR_RESIST'', 63),
     (''FIGHT_PROP_DIZZY_RESIST'', 64), (''FIGHT_PROP_FREEZE_SHORTEN'', 65),
     (''FIGHT_PROP_TORPOR_SHORTEN'', 66), (''FIGHT_PROP_DIZZY_SHORTEN'', 67),
     (''FIGHT_PROP_MAX_FIRE_ENERGY'', 70), (''FIGHT_PROP_MAX_ELEC_ENERGY'', 71),
     (''FIGHT_PROP_MAX_WATER_ENERGY'', 72), (''FIGHT_PROP_MAX_GRASS_ENERGY'', 73),
     (''FIGHT_PROP_MAX_WIND_ENERGY'', 74), (''FIGHT_PROP_MAX_ICE_ENERGY'', 75),
     (''FIGHT_PROP_MAX_ROCK_ENERGY'', 76), (''FIGHT_PROP_SKILL_CD_MINUS_RATIO'', 80),
     (''FIGHT_PROP_SHIELD_COST_MINUS_RATIO'', 81), (''FIGHT_PROP_CUR_FIRE_ENERGY'', 1000),
     (''FIGHT_PROP_CUR_ELEC_ENERGY'', 1001), (''FIGHT_PROP_CUR_WATER_ENERGY'', 1002),
     (''FIGHT_PROP_CUR_GRASS_ENERGY'', 1003), (''FIGHT_PROP_CUR_WIND_ENERGY'', 1004),
     (''FIGHT_PROP_CUR_ICE_ENERGY'', 1005), (''FIGHT_PROP_CUR_ROCK_ENERGY'', 1006),
     (''FIGHT_PROP_CUR_HP'', 1010), (''FIGHT_PROP_MAX_HP'', 2000), (''FIGHT_PROP_CUR_ATTACK'', 2001),
     (''FIGHT_PROP_CUR_DEFENSE'', 2002), (''FIGHT_PROP_CUR_SPEED'', 2003),
     (''FIGHT_PROP_NONEXTRA_ATTACK'', 3000), (''FIGHT_PROP_NONEXTRA_DEFENSE'', 3001),
     (''FIGHT_PROP_NONEXTRA_CRITICAL'', 3002), (''FIGHT_PROP_NONEXTRA_ANTI_CRITICAL'', 3003),
     (''FIGHT_PROP_NONEXTRA_CRITICAL_HURT'', 3004), (''FIGHT_PROP_NONEXTRA_CHARGE_EFFICIENCY'', 3005),
     (''FIGHT_PROP_NONEXTRA_ELEMENT_MASTERY'', 3006), (''FIGHT_PROP_NONEXTRA_PHYSICAL_SUB_HURT'', 3007),
     (''FIGHT_PROP_NONEXTRA_FIRE_ADD_HURT'', 3008), (''FIGHT_PROP_NONEXTRA_ELEC_ADD_HURT'', 3009),
     (''FIGHT_PROP_NONEXTRA_WATER_ADD_HURT'', 3010), (''FIGHT_PROP_NONEXTRA_GRASS_ADD_HURT'', 3011),
     (''FIGHT_PROP_NONEXTRA_WIND_ADD_HURT'', 3012), (''FIGHT_PROP_NONEXTRA_ROCK_ADD_HURT'', 3013),
     (''FIGHT_PROP_NONEXTRA_ICE_ADD_HURT'', 3014), (''FIGHT_PROP_NONEXTRA_FIRE_SUB_HURT'', 3015),
     (''FIGHT_PROP_NONEXTRA_ELEC_SUB_HURT'', 3016), (''FIGHT_PROP_NONEXTRA_WATER_SUB_HURT'', 3017),
     (''FIGHT_PROP_NONEXTRA_GRASS_SUB_HURT'', 3018), (''FIGHT_PROP_NONEXTRA_WIND_SUB_HURT'', 3019),
     (''FIGHT_PROP_NONEXTRA_ROCK_SUB_HURT'', 3020), (''FIGHT_PROP_NONEXTRA_ICE_SUB_HURT'', 3021),
     (''FIGHT_PROP_NONEXTRA_SKILL_CD_MINUS_RATIO'', 3022),
     (''FIGHT_PROP_NONEXTRA_SHIELD_COST_MINUS_RATIO'', 3023),
     (''FIGHT_PROP_NONEXTRA_PHYSICAL_ADD_HURT'', 3024)]"

definition FightPropTbl :: enum_tbl where
  "FightPropTbl = map (ENUM fight_props) [
     ''FIGHT_PROP_NONE'', ''FIGHT_PROP_BASE_HP'', ''FIGHT_PROP_HP'', ''FIGHT_PROP_HP_PERCENT'',
     ''FIGHT_PROP_BASE_ATTACK'', ''FIGHT_PROP_ATTACK'', ''FIGHT_PROP_ATTACK_PERCENT'',
     ''FIGHT_PROP_BASE_DEFENSE'', ''FIGHT_PROP_DEFENSE'', ''FIGHT_PROP_DEFENSE_PERCENT'',
     ''FIGHT_PROP_BASE_SPEED'', ''FIGHT_PROP_SPEED_PERCENT'', ''FIGHT_PROP_HP_MP_PERCENT'',
     ''FIGHT_PROP_ATTACK_MP_PERCENT'', ''FIGHT_PROP_CRITICAL'', ''FIGHT_PROP_ANTI_CRITICAL'',
     ''FIGHT_PROP_CRITICAL_HURT'', ''FIGHT_PROP_CHARGE_EFFICIENCY'', ''FIGHT_PROP_ADD_HURT'',
     ''FIGHT_PROP_SUB_HURT'', ''FIGHT_PROP_HEAL_ADD'', ''FIGHT_PROP_HEALED_ADD'',
     ''FIGHT_PROP_ELEMENT_MASTERY'', ''FIGHT_PROP_PHYSICAL_SUB_HURT'', ''FIGHT_PROP_PHYSICAL_ADD_HURT'',
     ''FIGHT_PROP_DEFENCE_IGNORE_RATIO'', ''FIGHT_PROP_DEFENCE_IGNORE_DELTA'', ''FIGHT_PROP_FIRE_ADD_HURT'',
     ''FIGHT_PROP_ELEC_ADD_HURT'', ''FIGHT_PROP_WATER_ADD_HURT'', ''FIGHT_PROP_GRASS_ADD_HURT'',
     ''FIGHT_PROP_WIND_ADD_HURT'', ''FIGHT_PROP_ROCK_ADD_HURT'', ''FIGHT_PROP_ICE_ADD_HURT'',
     ''FIGHT_PROP_HIT_HEAD_ADD_HURT'', ''FIGHT_PROP_FIRE_SUB_HURT'', ''FIGHT_PROP_ELEC_SUB_HURT'',
     ''FIGHT_PROP_WATER_SUB_HURT'', ''FIGHT_PROP_GRASS_SUB_HURT'', ''FIGHT_PROP_WIND_SUB_HURT'',
     ''FIGHT_PROP_ROCK_SUB_HURT'', ''FIGHT_PROP_ICE_SUB_HURT'', ''FIGHT_PROP_EFFECT_HIT'',
     ''FIGHT_PROP_EFFECT_RESIST'', ''FIGHT_PROP_FREEZE_RESIST'', ''FIGHT_PROP_TORPOR_RESIST'',
     ''FIGHT_PROP_DIZZY_RESIST'', ''FIGHT_PROP_FREEZE_SHORTEN'', ''FIGHT_PROP_TORPOR_SHORTEN'',
     ''FIGHT_PROP_DIZZY_SHORTEN'', ''FIGHT_PROP_MAX_FIRE_ENERGY'', ''FIGHT_PROP_MAX_ELEC_ENERGY'',
     ''FIGHT_PROP_MAX_WATER_ENERGY'', ''FIGHT_PROP_MAX_GRASS_ENERGY'', ''FIGHT_PROP_MAX_WIND_ENERGY'',
     ''FIGHT_PROP_MAX_ICE_ENERGY'', ''FIGHT_PROP_MAX_ROCK_ENERGY'', ''FIGHT_PROP_SKILL_CD_MINUS_RATIO'',
     ''FIGHT_PROP_SHIELD_COST_MINUS_RATIO'', ''FIGHT_PROP_CUR_FIRE_ENERGY'', ''FIGHT_PROP_CUR_ELEC_ENERGY'',
     ''FIGHT_PROP_CUR_WATER_ENERGY'', ''FIGHT_PROP_CUR_GRASS_ENERGY'', ''FIGHT_PROP_CUR_WIND_ENERGY'',
     ''FIGHT_PROP_CUR_ICE_ENERGY'', ''FIGHT_PROP_CUR_ROCK_ENERGY'', ''FIGHT_PROP_CUR_HP'',
     ''FIGHT_PROP_MAX_HP'', ''FIGHT_PROP_CUR_ATTACK'', ''FIGHT_PROP_CUR_DEFENSE'', ''FIGHT_PROP_CUR_SPEED'',
     ''FIGHT_PROP_NONEXTRA_ATTACK'', ''FIGHT_PROP_NONEXTRA_DEFENSE'', ''FIGHT_PROP_NONEXTRA_CRITICAL'',
     ''FIGHT_PROP_NONEXTRA_ANTI_CRITICAL'', ''FIGHT_PROP_NONEXTRA_CRITICAL_HURT'',
     ''FIGHT_PROP_NONEXTRA_CHARGE_EFFICIENCY'', ''FIGHT_PROP_NONEXTRA_ELEMENT_MASTERY'',
     ''FIGHT_PROP_NONEXTRA_PHYSICAL_SUB_HURT'', ''FIGHT_PROP_NONEXTRA_FIRE_ADD_HURT'',
     ''FIGHT_PROP_NONEXTRA_ELEC_ADD_HURT'', ''FIGHT_PROP_NONEXTRA_WATER_ADD_HURT'',
     ''FIGHT_PROP_NONEXTRA_GRASS_ADD_HURT'', ''FIGHT_PROP_NONEXTRA_WIND_ADD_HURT'',
     ''FIGHT_PROP_NONEXTRA_ROCK_ADD_HURT'', ''FIGHT_PROP_NONEXTRA_ICE_ADD_HURT'',
     ''FIGHT_PROP_NONEXTRA_FIRE_SUB_HURT'', ''FIGHT_PROP_NONEXTRA_ELEC_SUB_HURT'',
     ''FIGHT_PROP_NONEXTRA_WATER_SUB_HURT'', ''FIGHT_PROP_NONEXTRA_GRASS_SUB_HURT'',
     ''FIGHT_PROP_NONEXTRA_WIND_SUB_HURT'', ''FIGHT_PROP_NONEXTRA_ROCK_SUB_HURT'',
     ''FIGHT_PROP_NONEXTRA_ICE_SUB_HURT'', ''FIGHT_PROP_NONEXTRA_SKILL_CD_MINUS_RATIO'',
     ''FIGHT_PROP_NONEXTRA_SHIELD_COST_MINUS_RATIO'', ''FIGHT_PROP_NONEXTRA_PHYSICAL_ADD_HURT''] @ [(-1, None)]"

definition grow_curves :: enum_decl where
  "grow_curves = [
     (''GROW_CURVE_NONE'', 0), (''GROW_CURVE_HP'', 1), (''GROW_CURVE_ATTACK'', 2),
     (''GROW_CURVE_STAMINA'', 3), (''GROW_CURVE_STRIKE'', 4), (''GROW_CURVE_ANTI_STRIKE'', 5),
     (''GROW_CURVE_ANTI_STRIKE1'', 6), (''GROW_CURVE_ANTI_STRIKE2'', 7), (''GROW_CURVE_ANTI_STRIKE3'', 8),
     (''GROW_CURVE_STRIKE_HURT'', 9), (''GROW_CURVE_ELEMENT'', 10), (''GROW_CURVE_KILL_EXP'', 11),
     (''GROW_CURVE_DEFENSE'', 12), (''GROW_CURVE_ATTACK_BOMB'', 13), (''GROW_CURVE_HP_LITTLEMONSTER'', 14),
     (''GROW_CURVE_ELEMENT_MASTERY'', 15), (''GROW_CURVE_PROGRESSION'', 16), (''GROW_CURVE_DEFENDING'', 17),
     (''GROW_CURVE_MHP'', 18), (''GROW_CURVE_MATK'', 19), (''GROW_CURVE_TOWERATK'', 20),
     (''GROW_CURVE_HP_S5'', 21), (''GROW_CURVE_HP_S4'', 22), (''GROW_CURVE_HP_2'', 23),
     (''GROW_CURVE_ATTACK_S5'', 31), (''GROW_CURVE_ATTACK_S4'', 32), (''GROW_CURVE_ATTACK_S3'', 33),
     (''GROW_CURVE_STRIKE_S5'', 34), (''GROW_CURVE_DEFENSE_S5'', 41), (''GROW_CURVE_DEFENSE_S4'', 42),
     (''GROW_CURVE_ATTACK_101'', 1101), (''GROW_CURVE_ATTACK_102'', 1102), (''GROW_CURVE_ATTACK_103'', 1103),
     (''GROW_CURVE_ATTACK_104'', 1104), (''GROW_CURVE_ATTACK_105'', 1105), (''GROW_CURVE_ATTACK_201'', 1201),
     (''GROW_CURVE_ATTACK_202'', 1202), (''GROW_CURVE_ATTACK_203'', 1203), (''GROW_CURVE_ATTACK_204'', 1204),
     (''GROW_CURVE_ATTACK_205'', 1205), (''GROW_CURVE_ATTACK_301'', 1301), (''GROW_CURVE_ATTACK_302'', 1302),
     (''GROW_CURVE_ATTACK_303'', 1303), (''GROW_CURVE_ATTACK_304'', 1304), (''GROW_CURVE_ATTACK_305'', 1305),
     (''GROW_CURVE_CRITICAL_101'', 2101), (''GROW_CURVE_CRITICAL_102'', 2102),
     (''GROW_CURVE_CRITICAL_103'', 2103), (''GROW_CURVE_CRITICAL_104'', 2104),
     (''GROW_CURVE_CRITICAL_105'', 2105), (''GROW_CURVE_CRITICAL_201'', 2201),
     (''GROW_CURVE_CRITICAL_202'', 2202), (''GROW_CURVE_CRITICAL_203'', 2203),
     (''GROW_CURVE_CRITICAL_204'', 2204), (''GROW_CURVE_CRITICAL_205'', 2205),
     (''GROW_CURVE_CRITICAL_301'', 2301), (''GROW_CURVE_CRITICAL_302'', 2302),
     (''GROW_CURVE_CRITICAL_303'', 2303), (''GROW_CURVE_CRITICAL_304'', 2304),
     (''GROW_CURVE_CRITICAL_305'', 2305)]"

definition GrowCurveTbl :: enum_tbl where
  "GrowCurveTbl = map (ENUM grow_curves) [
     ''GROW_CURVE_NONE'', ''GROW_CURVE_HP'', ''GROW_CURVE_ATTACK'', ''GROW_CURVE_STAMINA'',
     ''GROW_CURVE_STRIKE'', ''GROW_CURVE_ANTI_STRIKE'', ''GROW_CURVE_ANTI_STRIKE1'',
     ''GROW_CURVE_ANTI_STRIKE2'', ''GROW_CURVE_ANTI_STRIKE3'', ''GROW_CURVE_STRIKE_HURT'',
     ''GROW_CURVE_ELEMENT'', ''GROW_CURVE_KILL_EXP'', ''GROW_CURVE_DEFENSE'', ''GROW_CURVE_ATTACK_BOMB'',
     ''GROW_CURVE_HP_LITTLEMONSTER'', ''GROW_CURVE_ELEMENT_MASTERY'', ''GROW_CURVE_PROGRESSION'',
     ''GROW_CURVE_DEFENDING'', ''GROW_CURVE_MHP'', ''GROW_CURVE_MATK'', ''GROW_CURVE_TOWERATK'',
     ''GROW_CURVE_HP_S5'', ''GROW_CURVE_HP_S4'', ''GROW_CURVE_HP_2'', ''GROW_CURVE_ATTACK_S5'',
     ''GROW_CURVE_ATTACK_S4'', ''GROW_CURVE_ATTACK_S3'', ''GROW_CURVE_STRIKE_S5'', ''GROW_CURVE_DEFENSE_S5'',
     ''GROW_CURVE_DEFENSE_S4'', ''GROW_CURVE_ATTACK_101'', ''GROW_CURVE_ATTACK_102'',
     ''GROW_CURVE_ATTACK_103'', ''GROW_CURVE_ATTACK_104'', ''GROW_CURVE_ATTACK_105'',
     ''GROW_CURVE_ATTACK_201'', ''GROW_CURVE_ATTACK_202'', ''GROW_CURVE_ATTACK_203'',
     ''GROW_CURVE_ATTACK_204'', ''GROW_CURVE_ATTACK_205'', ''GROW_CURVE_ATTACK_301'',
     ''GROW_CURVE_ATTACK_302'', ''GROW_CURVE_ATTACK_303'', ''GROW_CURVE_ATTACK_304'',
     ''GROW_CURVE_ATTACK_305'', ''GROW_CURVE_CRITICAL_101'', ''GROW_CURVE_CRITICAL_102'',
     ''GROW_CURVE_CRITICAL_103'', ''GROW_CURVE_CRITICAL_104'', ''GROW_CURVE_CRITICAL_105'',
     ''GROW_CURVE_CRITICAL_201'', ''GROW_CURVE_CRITICAL_202'', ''GROW_CURVE_CRITICAL_203'',
     ''GROW_CURVE_CRITICAL_204'', ''GROW_CURVE_CRITICAL_205'', ''GROW_CURVE_CRITICAL_301'',
     ''GROW_CURVE_CRITICAL_302'', ''GROW_CURVE_CRITICAL_303'', ''GROW_CURVE_CRITICAL_304'',
     ''GROW_CURVE_CRITICAL_305''] @ [(-1, None)]"

definition openstate_conds :: enum_decl where
  "openstate_conds = [
     (''OPEN_STATE_COND_PLAYER_LEVEL'', 0), (''OPEN_STATE_COND_QUEST'', 1),
     (''OPEN_STATE_OFFERING_LEVEL'', 2), (''OPEN_STATE_CITY_REPUTATION_LEVEL'', 3),
     (''OPEN_STATE_COND_PARENT_QUEST'', 4)]"

definition OpenStateCondTbl :: enum_tbl where
  "OpenStateCondTbl = map (ENUM openstate_conds) [
     ''OPEN_STATE_COND_PLAYER_LEVEL'', ''OPEN_STATE_COND_QUEST'', ''OPEN_STATE_OFFERING_LEVEL'',
     ''OPEN_STATE_CITY_REPUTATION_LEVEL'', ''OPEN_STATE_COND_PARENT_QUEST''] @ [(-1, None)]"

section \<open>Ranges of the player's properties\<close>

record prop_range =
  pr_id :: u32
  pr_name :: string
  pr_min :: u64
  pr_max :: u64

definition player_prop_ids :: enum_decl where
  "player_prop_ids = [
     (''PROP_NONE'', 0), (''PROP_EXP'', 1001), (''PROP_BREAK_LEVEL'', 1002), (''PROP_SATIATION_VAL'', 1003),
     (''PROP_SATIATION_PENALTY_TIME'', 1004), (''PROP_LEVEL'', 4001),
     (''PROP_LAST_CHANGE_AVATAR_TIME'', 10001), (''PROP_MAX_SPRING_VOLUME'', 10002),
     (''PROP_CUR_SPRING_VOLUME'', 10003), (''PROP_IS_SPRING_AUTO_USE'', 10004),
     (''PROP_SPRING_AUTO_USE_PERCENT'', 10005), (''PROP_IS_FLYABLE'', 10006),
     (''PROP_IS_WEATHER_LOCKED'', 10007), (''PROP_IS_GAME_TIME_LOCKED'', 10008),
     (''PROP_IS_TRANSFERABLE'', 10009), (''PROP_MAX_STAMINA'', 10010), (''PROP_CUR_PERSIST_STAMINA'', 10011),
     (''PROP_CUR_TEMPORARY_STAMINA'', 10012), (''PROP_PLAYER_LEVEL'', 10013), (''PROP_PLAYER_EXP'', 10014),
     (''PROP_PLAYER_HCOIN'', 10015), (''PROP_PLAYER_SCOIN'', 10016),
     (''PROP_PLAYER_MP_SETTING_TYPE'', 10017), (''PROP_IS_MP_MODE_AVAILABLE'', 10018),
     (''PROP_PLAYER_WORLD_LEVEL'', 10019), (''PROP_PLAYER_RESIN'', 10020),
     (''PROP_PLAYER_WAIT_SUB_HCOIN'', 10022), (''PROP_PLAYER_WAIT_SUB_SCOIN'', 10023),
     (''PROP_IS_ONLY_MP_WITH_PS_PLAYER'', 10024), (''PROP_PLAYER_MCOIN'', 10025),
     (''PROP_PLAYER_WAIT_SUB_MCOIN'', 10026), (''PROP_PLAYER_LEGENDARY_KEY'', 10027),
     (''PROP_IS_HAS_FIRST_SHARE'', 10028), (''PROP_PLAYER_FORGE_POINT'', 10029),
     (''PROP_CUR_CLIMATE_METER'', 10035), (''PROP_CUR_CLIMATE_TYPE'', 10036),
     (''PROP_CUR_CLIMATE_AREA_ID'', 10037), (''PROP_CUR_CLIMATE_AREA_CLIMATE_TYPE'', 10038),
     (''PROP_PLAYER_WORLD_LEVEL_LIMIT'', 10039), (''PROP_PLAYER_WORLD_LEVEL_ADJUST_CD'', 10040),
     (''PROP_PLAYER_LEGENDARY_DAILY_TASK_NUM'', 10041)]"

definition PROP_MINMAX :: "string \<Rightarrow> u64 \<Rightarrow> u64 \<Rightarrow> prop_range" where
  "PROP_MINMAX name lo hi =
     \<lparr>pr_id = the (map_of player_prop_ids name), pr_name = name, pr_min = lo, pr_max = hi\<rparr>"

definition PROP_ANY :: "string \<Rightarrow> prop_range" where
  "PROP_ANY name = PROP_MINMAX name 0x8000000000000000 0x7fffffffffffffff"

definition PROP_MIN :: "string \<Rightarrow> u64 \<Rightarrow> prop_range" where
  "PROP_MIN name lo = PROP_MINMAX name lo 0x7fffffffffffffff"

definition PlayerProps :: "prop_range list" where
  "PlayerProps = [
     PROP_ANY ''PROP_NONE'', PROP_MIN ''PROP_EXP'' 0, PROP_ANY ''PROP_BREAK_LEVEL'', PROP_ANY ''PROP_SATIATION_VAL'',
     PROP_ANY ''PROP_SATIATION_PENALTY_TIME'', PROP_MINMAX ''PROP_LEVEL'' 0 90,
     PROP_ANY ''PROP_LAST_CHANGE_AVATAR_TIME'', PROP_MINMAX ''PROP_MAX_SPRING_VOLUME'' 0 8500000,
     PROP_MIN ''PROP_CUR_SPRING_VOLUME'' 1, PROP_ANY ''PROP_IS_SPRING_AUTO_USE'',
     PROP_MINMAX ''PROP_SPRING_AUTO_USE_PERCENT'' 0 100, PROP_ANY ''PROP_IS_FLYABLE'',
     PROP_ANY ''PROP_IS_WEATHER_LOCKED'', PROP_ANY ''PROP_IS_GAME_TIME_LOCKED'', PROP_ANY ''PROP_IS_TRANSFERABLE'',
     PROP_MINMAX ''PROP_MAX_STAMINA'' 0 24000, PROP_MIN ''PROP_CUR_PERSIST_STAMINA'' 1,
     PROP_ANY ''PROP_CUR_TEMPORARY_STAMINA'', PROP_MINMAX ''PROP_PLAYER_LEVEL'' 1 60,
     PROP_MIN ''PROP_PLAYER_EXP'' 0, PROP_ANY ''PROP_PLAYER_HCOIN'', PROP_ANY ''PROP_PLAYER_SCOIN'',
     PROP_MINMAX ''PROP_PLAYER_MP_SETTING_TYPE'' 0 2, PROP_MINMAX ''PROP_IS_MP_MODE_AVAILABLE'' 0 1,
     PROP_MINMAX ''PROP_PLAYER_WORLD_LEVEL'' 0 9, PROP_MINMAX ''PROP_PLAYER_RESIN'' 0 2000,
     PROP_ANY ''PROP_PLAYER_WAIT_SUB_HCOIN'', PROP_ANY ''PROP_PLAYER_WAIT_SUB_SCOIN'',
     PROP_ANY ''PROP_IS_ONLY_MP_WITH_PS_PLAYER'', PROP_ANY ''PROP_PLAYER_MCOIN'',
     PROP_ANY ''PROP_PLAYER_WAIT_SUB_MCOIN'', PROP_MINMAX ''PROP_PLAYER_LEGENDARY_KEY'' 0 3,
     PROP_ANY ''PROP_IS_HAS_FIRST_SHARE'', PROP_MINMAX ''PROP_PLAYER_FORGE_POINT'' 0 300000,
     PROP_ANY ''PROP_CUR_CLIMATE_METER'', PROP_ANY ''PROP_CUR_CLIMATE_TYPE'', PROP_ANY ''PROP_CUR_CLIMATE_AREA_ID'',
     PROP_ANY ''PROP_CUR_CLIMATE_AREA_CLIMATE_TYPE'', PROP_MINMAX ''PROP_PLAYER_WORLD_LEVEL_LIMIT'' 0 9,
     PROP_ANY ''PROP_PLAYER_WORLD_LEVEL_ADJUST_CD'', PROP_ANY ''PROP_PLAYER_LEGENDARY_DAILY_TASK_NUM'']"

section \<open>The tables agree with the enumerations\<close>

definition enum_value :: "enum_decl \<Rightarrow> string \<Rightarrow> u32" where
  "enum_value decl s = (case map_of decl s of Some i \<Rightarrow> i | None \<Rightarrow> -1)"

lemma enumToInt_append:
  "\<forall>x\<in>set ns. fst (f x) \<noteq> -1 \<and> snd (f x) = Some x \<Longrightarrow>
    enumToInt s (map f ns @ tbl) = (if s \<in> set ns then Some (fst (f s)) else enumToInt s tbl)"
proof (induction ns)
  case (Cons n ns)
  obtain i m where f: "f n = (i, m)" by (cases "f n")
  with Cons show ?case by auto
qed simp

text \<open>A table that lists the names of an enumeration finds each of them, and nothing else.\<close>

lemma enum_table:
  assumes "\<forall>i\<in>set (map snd decl). i \<noteq> -1"
  shows "enumToInt s (map (ENUM decl) (map fst decl) @ [(-1, None)]) = Some (enum_value decl s)"
proof -
  have "fst (ENUM decl x) \<noteq> -1 \<and> snd (ENUM decl x) = Some x" if x: "x \<in> set (map fst decl)" for x
  proof -
    obtain i where i: "map_of decl x = Some i" using x by (metis map_of_eq_None_iff not_Some_eq set_map)
    then have "i \<in> set (map snd decl)" by (force dest: map_of_SomeD)
    with assms have "i \<noteq> -1" by blast
    with i show ?thesis by (simp add: ENUM_def)
  qed
  then have "enumToInt s (map (ENUM decl) (map fst decl) @ [(-1, None)]) =
      (if s \<in> set (map fst decl) then Some (fst (ENUM decl s)) else enumToInt s [(-1, None)])"
    by (intro enumToInt_append) blast
  also have "\<dots> = Some (enum_value decl s)"
  proof (cases "map_of decl s")
    case None
    then have "s \<notin> set (map fst decl)" by (simp add: map_of_eq_None_iff)
    with None show ?thesis by (simp add: enum_value_def)
  next
    case (Some i)
    then have "s \<in> set (map fst decl)" by (force dest: map_of_SomeD)
    with Some show ?thesis by (simp add: enum_value_def ENUM_def)
  qed
  finally show ?thesis .
qed

lemma item_quality_tbl: "ItemQualityTbl = map (ENUM item_qualities) (map fst item_qualities) @ [(-1, None)]"
  unfolding ItemQualityTbl_def by (simp only: arg_cong [OF item_qualities_def, of "map fst"] list.map fst_conv)

lemma weapon_type_tbl: "WeaponTypeTbl = map (ENUM weapon_types) (map fst weapon_types) @ [(-1, None)]"
  unfolding WeaponTypeTbl_def by (simp only: arg_cong [OF weapon_types_def, of "map fst"] list.map fst_conv)

lemma fight_prop_tbl: "FightPropTbl = map (ENUM fight_props) (map fst fight_props) @ [(-1, None)]"
  unfolding FightPropTbl_def by (simp only: arg_cong [OF fight_props_def, of "map fst"] list.map fst_conv)

lemma grow_curve_tbl: "GrowCurveTbl = map (ENUM grow_curves) (map fst grow_curves) @ [(-1, None)]"
  unfolding GrowCurveTbl_def by (simp only: arg_cong [OF grow_curves_def, of "map fst"] list.map fst_conv)

lemma openstate_cond_tbl: "OpenStateCondTbl = map (ENUM openstate_conds) (map fst openstate_conds) @ [(-1, None)]"
  unfolding OpenStateCondTbl_def by (simp only: arg_cong [OF openstate_conds_def, of "map fst"] list.map fst_conv)

text \<open>No value is the end mark, and no two names of an enumeration have the same value.\<close>

lemma enum_values_ok:
  "\<forall>i\<in>set (map snd item_qualities). i \<noteq> -1" "\<forall>i\<in>set (map snd weapon_types). i \<noteq> -1"
  "\<forall>i\<in>set (map snd fight_props). i \<noteq> -1" "\<forall>i\<in>set (map snd grow_curves). i \<noteq> -1"
  "\<forall>i\<in>set (map snd openstate_conds). i \<noteq> -1"
  by (simp_all add: item_qualities_def weapon_types_def fight_props_def grow_curves_def openstate_conds_def)

lemma enum_values_distinct:
  "distinct (map snd item_qualities)" "distinct (map snd weapon_types)" "distinct (map snd fight_props)"
  "distinct (map snd grow_curves)" "distinct (map snd openstate_conds)"
  by (simp_all add: item_qualities_def weapon_types_def fight_props_def grow_curves_def openstate_conds_def)

text \<open>The ranges are given for every property, in the order of the enumeration, and none is empty.\<close>

lemma player_props_ok:
  "map pr_name PlayerProps = map fst player_prop_ids"
  "\<forall>p\<in>set PlayerProps. sint (pr_min p) \<le> sint (pr_max p)"
proof -
  show "map pr_name PlayerProps = map fst player_prop_ids"
    by (simp only: PlayerProps_def player_prop_ids_def PROP_ANY_def PROP_MIN_def PROP_MINMAX_def list.map
        prop_range.simps fst_conv)
  have "list_all (\<lambda>p. sint (pr_min p) \<le> sint (pr_max p)) PlayerProps"
    by (simp only: PlayerProps_def PROP_ANY_def PROP_MIN_def PROP_MINMAX_def list.pred_inject prop_range.simps) simp
  then show "\<forall>p\<in>set PlayerProps. sint (pr_min p) \<le> sint (pr_max p)" by (simp only: list_all_iff)
qed

end
