(* ===== verification/Game_Properties.thy ===== *)
theory Game_Properties
  imports Player_Props Item_Props Enum_Tables
begin

unbundle bit_operations_syntax

text \<open>
  The properties of the game state: enumerations, items, avatars, teams and players.
\<close>

section \<open>Concrete values for the witnesses\<close>

definition blank_item :: item where
  "blank_item = \<lparr>it_id = 0, it_type = 0, it_guid = 0, it_data = replicate 16 0\<rparr>"

definition blank_avatar :: avatar where
  "blank_avatar = \<lparr>av_id = 0, av_guid = 0, av_weapon = None, av_artifacts = [], av_set_equips = False,
     av_equip_guids = [], av_level = 0, av_exp = 0, av_ascension = 0, av_hp = 0, av_costume = 0, av_wings = 0,
     av_friendship = 0, av_friendship_exp = 0, av_talents = [], av_constellation = 0, av_born = 0,
     av_depot_id = 0, av_full = 0, av_full_cd = 0, av_energy = 0, av_data = None, av_depot = None\<rparr>"

definition sample_depot :: depot_ent where
  "sample_depot = \<lparr>sd_id = 2901, sd_constellations = [291, 292, 293, 294, 295, 296]\<rparr>"

definition sample_world :: avatar_env where
  "sample_world = \<lparr>ae_item = (\<lambda>_. None), ae_owner = (\<lambda>_. None),
     ae_avatars = [\<lparr>ad_id = 10000029, ad_skill_depot = 2901\<rparr>], ae_depots = [sample_depot], ae_now = 1700000000\<rparr>"

definition blank_player :: player where
  "blank_player = \<lparr>pl_aid = None, pl_uid = 0, pl_session = None, pl_teams = [], pl_avatars = [], pl_items = [],
     pl_cur_team = 0, pl_cur_avatar = None, pl_scene = 0, pl_tp = 0, pl_next = 0, pl_world = 0, pl_ar = 0,
     pl_ar_exp = 0, pl_name = [], pl_signature = [], pl_namecard = 0, pl_pfp = 0, pl_props = Map.empty,
     pl_openstates = []\<rparr>"

section \<open>Enumerations\<close>

text \<open>
  Each table of names agrees with its enumeration: \<open>enumToInt\<close> gives for every name of the
  enumeration the value the header gives it, and -1 for any other string; it never reads past the table.
\<close>

theorem enum_tables_complete:
  "enumToInt s ItemQualityTbl = Some (enum_value item_qualities s)
   \<and> enumToInt s WeaponTypeTbl = Some (enum_value weapon_types s)
   \<and> enumToInt s FightPropTbl = Some (enum_value fight_props s)
   \<and> enumToInt s GrowCurveTbl = Some (enum_value grow_curves s)
   \<and> enumToInt s OpenStateCondTbl = Some (enum_value openstate_conds s)"
  unfolding item_quality_tbl weapon_type_tbl fight_prop_tbl grow_curve_tbl openstate_cond_tbl
  using enum_values_ok [THEN enum_table] by blast

section \<open>Items\<close>

text \<open>
  C32. An item made from a message and turned into a message again: a message with more than one kind of
  sub-stat, or more than one affix, is written past the end of the item; any other comes back with its
  levels and ids cut to the width the item has for them, the sub-stats gathered, the promotion level
  computed, and a time to expire that is the message's, or else what the memory held before.
\<close>

theorem item_round_trip:
  assumes "length (it_data raw) = 16" "pi_detail pb \<noteq> No_detail" "\<And>locked. pi_detail pb \<noteq> Equip locked No_equip"
  shows "case item_of_pb pb raw of
      Inl f \<Rightarrow> f = Out_of_bounds \<and> item_canon (get_le 8 8 (it_data raw)) (pi_detail pb) = None
    | Inr it \<Rightarrow> \<exists>det. item_canon (get_le 8 8 (it_data raw)) (pi_detail pb) = Some det
        \<and> item_to_pb it = Inr (pb\<lparr>pi_detail := det\<rparr>)"
  by (rule item_back [OF assms])

theorem item_round_trip_witness:
  "\<exists>it. item_of_pb \<lparr>pi_id = 14502, pi_guid = 7, pi_detail = Equip True (Weapon
       \<lparr>pw_level = 90, pw_exp = 5, pw_promote = 6, pw_affixes = [(1145024, 5)]\<rparr>)\<rparr> blank_item = Inr it
     \<and> item_to_pb it = Inr \<lparr>pi_id = 14502, pi_guid = 7, pi_detail = Equip True (Weapon
       \<lparr>pw_level = 90, pw_exp = 5, pw_promote = 6, pw_affixes = [(1145024, 5)]\<rparr>)\<rparr>"
proof -
  let ?w = "\<lparr>pw_level = 90, pw_exp = 5, pw_promote = 6, pw_affixes = [(1145024, 5)]\<rparr> :: pb_weapon"
  let ?pb = "\<lparr>pi_id = 14502, pi_guid = 7, pi_detail = Equip True (Weapon ?w)\<rparr>"
  have t: "take_bit 8 (90 :: u32) = 90" "take_bit 8 (6 :: u32) = 6" "take_bit 8 (5 :: u32) = 5" by simp_all
  have c: "item_canon t (Equip True (Weapon ?w)) = Some (Equip True (Weapon ?w))" for t
    by (simp add: item_canon_def)
  show ?thesis
    using item_round_trip [of blank_item ?pb] by (auto simp: blank_item_def c split: sum.splits)
qed

section \<open>Avatars\<close>

text \<open>
  C33. An avatar survives storing: whatever calls made it of a new one, its values are in their ranges;
  if its skill depot is known and what it wears exists, it is turned into a message, and the avatar made
  of that message has its id, guid, skill depot, wings, friendship and constellations again, the guids of
  what it wore, and the time it was made in 32 bits; friendship experience at the last level is the
  constant the code has for it.
\<close>

theorem avatar_survives_storing:
  assumes "avatar_reach env a" "av_depot a = Some dep" "length (sd_constellations dep) = 6"
    "worn_valid env (av_weapon a # av_artifacts a)"
  shows "avatar_ok a \<and> (\<exists>pb. avatar_to_pb_const env a = Inr pb \<and> avatar_of_pb env pb raw =
    raw\<lparr>av_id := av_id a, av_depot_id := av_depot_id a,
        av_data := avatar_by_id (ae_avatars env) (av_id a),
        av_depot := depot_by_id (ae_depots env) (av_depot_id a),
        av_guid := av_guid a, av_born := take_bit 32 (av_born a), av_wings := av_wings a,
        av_friendship := av_friendship a,
        av_friendship_exp := (if av_friendship a = 10 then 6325 else av_friendship_exp a),
        av_constellation := av_constellation a,
        av_equip_guids := guids_at env (av_weapon a # av_artifacts a), av_set_equips := False\<rparr>)"
  using avatar_reach_ok [OF assms(1)] avatar_stored [OF avatar_reach_ok [OF assms(1)] assms(2-4)] by blast

theorem avatar_survives_storing_witness:
  "\<exists>a pb. avatar_of_id sample_world 10000029 blank_avatar = Inr a \<and> avatar_to_pb_const sample_world a = Inr pb
     \<and> av_depot_id (avatar_of_pb sample_world pb blank_avatar) = 2901"
proof -
  obtain a where a: "avatar_of_id sample_world 10000029 blank_avatar = Inr a" "av_depot a = Some sample_depot"
    "av_depot_id a = 2901" "av_weapon a = None" "av_artifacts a = replicate 5 None"
    by (simp add: avatar_of_id_def sample_world_def avatar_by_id_def depot_by_id_def sample_depot_def Let_def)
  have "worn_valid sample_world (av_weapon a # av_artifacts a)"
    by (simp add: a(4,5) worn_valid_def eval_nat_numeral)
  then obtain pb where "avatar_to_pb_const sample_world a = Inr pb"
    "av_depot_id (avatar_of_pb sample_world pb blank_avatar) = 2901"
    using avatar_survives_storing [OF avatar_reach.of_id [OF a(1)] a(2), where raw = blank_avatar]
    by (auto simp: sample_depot_def a(3))
  with a(1) show ?thesis by blast
qed

section \<open>Teams\<close>

text \<open>
  Adding an avatar to a sound team (at most four avatars, with different guids): it gives the
  position of the avatar that already has the guid, -1 when the team is full, or the new size; and the
  team stays sound.
\<close>

theorem team_membership:
  assumes "team_ok mem t" "mem x = Some av"
  shows "\<exists>r t'. team_addAvatar mem (Some x) t = Inr (r, t') \<and> team_ok mem t' \<and>
    (let same = (\<lambda>p. guid_of mem p = av_guid av); l = tm_avatars t
     in (r, t') = (if \<exists>p\<in>set l. same p then (int (find_index same l), t)
                   else if length l = 4 then (-1, t)
                   else (int (length l) + 1, t\<lparr>tm_avatars := l @ [Some x]\<rparr>)))"
proof -
  let ?same = "\<lambda>p. guid_of mem p = av_guid av"
  let ?res = "if \<exists>p\<in>set (tm_avatars t). ?same p then (int (find_index ?same (tm_avatars t)), t)
      else if length (tm_avatars t) = 4 then (-1, t)
      else (int (length (tm_avatars t)) + 1, t\<lparr>tm_avatars := tm_avatars t @ [Some x]\<rparr>)"
  have eq: "team_addAvatar mem (Some x) t = Inr ?res"
    using team_add_outcome(1) [OF assms] by (simp only: Let_def)
  obtain r t' where res: "?res = (r, t')" by (rule prod.exhaust)
  have add: "team_addAvatar mem (Some x) t = Inr (r, t')" unfolding eq res ..
  from add team_add_outcome(2) [OF assms add] res [symmetric] show ?thesis unfolding Let_def by blast
qed

theorem team_membership_witness:
  "\<exists>r t'. team_addAvatar (\<lambda>_. Some blank_avatar) (Some 1) team_new = Inr (r, t') \<and> r = 1"
  using team_membership [of "\<lambda>_. Some blank_avatar" team_new 1 blank_avatar]
  by (auto simp: team_ok_def team_new_def Let_def)

section \<open>Players\<close>

text \<open>
  C34. The numbers of a player's avatars and items, for a new player or one read from a stored message and any
  calls on it: adding, setting, changing and removing avatars and items in the variants for constant and for
  changeable arguments, loading the inventory, another uid, and all calls that leave these alone. \<open>F\<close> is the set
  of the guids that callers brought themselves, as \<open>onLogin\<close> does for its avatar and its weapon and loading for
  all that was stored. All other guids are pairwise different, have the uid in the high half and a number
  given out before in the low half. The next avatar without a number, and the next item without an owner, get
  the next number, which no avatar or item has unless a caller brought it; the counter then moves on.
\<close>

theorem player_numbers:
  assumes "player_reach F pl" "pl_next pl < 0xffffffff" "low_half (av_guid a) = 0" "drop_bit 32 (it_guid x) = 0"
  shows "distinct (own_guids F pl) \<and> list_all (guid_ok pl) (own_guids F pl)
    \<and> (guid_with (pl_uid pl) (pl_next pl) \<notin> F \<longrightarrow> guid_with (pl_uid pl) (pl_next pl) \<notin> set (guids pl))
    \<and> (\<exists>a' pl'. addAvatar new (Some a) pl = (0, Some a', pl') \<and> av_guid a' = guid_with (pl_uid pl) (pl_next pl)
         \<and> pl_next pl' = pl_next pl + 1 \<and> player_reach F pl')
    \<and> (\<exists>x' pl'. addItem new (Some x) pl = (0, Some x', pl') \<and> it_guid x' = guid_with (pl_uid pl) (pl_next pl)
         \<and> pl_next pl' = pl_next pl + 1 \<and> player_reach F pl')"
proof -
  have ok: "player_ok F pl" by (rule player_reach_ok [OF assms(1)])
  have "pl_next (snd (snd (addAvatar new (Some a) pl))) = pl_next pl + 1"
    "pl_next (snd (snd (addItem new (Some x) pl))) = pl_next pl + 1"
    using assms(3,4) owner_low [of "pl_uid pl"] by (simp_all add: addAvatar_def addItem_def low_half_def Let_def)
  moreover have "distinct (own_guids F pl) \<and> list_all (guid_ok pl) (own_guids F pl)" using ok by (simp add: player_ok_def)
  ultimately show ?thesis
    using next_number(1) [OF ok assms(2)] add_avatar_ok(2) [OF ok assms(2,3), of new] add_item_ok(2) [OF ok assms(2,4), of new]
      player_reach.add_avatar [OF assms(1-3), of new] player_reach.add_item [OF assms(1,2,4), of new]
    by blast
qed

text \<open>A new player is given one avatar with a guid of its own, as \<open>onLogin\<close> does, then one that is numbered.\<close>

theorem player_numbers_witness:
  "\<exists>pl a pl'. addAvatar_const 4 (Some (blank_avatar\<lparr>av_guid := guid_with 10001 0xd0d0c0\<rparr>))
       (setPlayerUid 10001 (player_default None blank_player)) = (0, pl)
     \<and> addAvatar 5 (Some blank_avatar) pl = (0, Some a, pl')
     \<and> guids pl' = [guid_with 10001 0xd0d0c0, guid_with 10001 1] \<and> distinct (own_guids {guid_with 10001 0xd0d0c0} pl')"
proof -
  let ?pl0 = "setPlayerUid 10001 (player_default None blank_player)"
  let ?b = "blank_avatar\<lparr>av_guid := guid_with 10001 0xd0d0c0\<rparr>"
  define pl where "pl = snd (addAvatar_const 4 (Some ?b) ?pl0)"
  have add: "addAvatar_const 4 (Some ?b) ?pl0 = (0, pl)" by (simp add: pl_def addAvatar_const_def)
  have pl: "pl_next pl = 1" "pl_uid pl = 10001" "guids pl = [guid_with 10001 0xd0d0c0]" "pl_items pl = []"
    by (simp_all add: pl_def addAvatar_const_def setPlayerUid_def player_default_def updateOpenstates_def guids_def)
  have reach: "player_reach {guid_with 10001 0xd0d0c0} pl"
    using player_reach.bring_avatar_const [OF player_reach.new, of ?b 4 10001 None blank_player] by (simp add: pl_def)
  have zero: "low_half (av_guid blank_avatar) = 0" "drop_bit 32 (it_guid blank_item) = 0"
    by (simp_all add: blank_avatar_def blank_item_def low_half_def)
  obtain a pl' where a: "addAvatar 5 (Some blank_avatar) pl = (0, Some a, pl')" "av_guid a = guid_with 10001 1"
    "player_reach {guid_with 10001 0xd0d0c0} pl'" "pl_next pl' = 2"
    using player_numbers [OF reach _ zero, of 5] by (auto simp: pl)
  have "distinct (own_guids {guid_with 10001 0xd0d0c0} pl')"
    using player_numbers [OF a(3) _ zero, of 5] by (simp add: a(4))
  moreover have "guids pl' = guids pl @ [av_guid a]"
    using a(1) pl(4) zero(1) by (auto simp: addAvatar_def guids_def low_half_def Let_def)
  ultimately show ?thesis using add a(1,2) pl(3) by auto
qed

text \<open>
  The open states after \<open>updateOpenstates\<close>: those that were open before, and those of the data that
  are open by default or from the player's adventure rank on; a state without doubles stays without, and
  nothing else of the player changes.
\<close>

theorem open_states_updated:
  "let pl' = snd (updateOpenstates (Some es) n pl)
   in (getOpenstate st pl' = 1) = (getOpenstate st pl = 1 \<or> (\<exists>e. e \<in> set es \<and> os_id e = st \<and> opens e (pl_ar pl)))
    \<and> (distinct (pl_openstates pl') = distinct (pl_openstates pl))
    \<and> pl' = pl\<lparr>pl_openstates := pl_openstates pl'\<rparr>"
proof -
  let ?pl = "fold open_entry es pl"
  have pl: "snd (updateOpenstates (Some es) n pl) = ?pl" by (simp add: updateOpenstates_def Let_def)
  obtain l where l: "?pl = pl\<lparr>pl_openstates := l\<rparr>" using open_entries_outcome [of es pl] by (auto simp: Let_def)
  have "set (pl_openstates ?pl) = set (pl_openstates pl) \<union> {os_id e |e. e \<in> set es \<and> opens e (pl_ar pl)}"
    "distinct (pl_openstates ?pl) = distinct (pl_openstates pl)"
    using open_entries_outcome [of es pl] by (simp_all add: Let_def)
  then show ?thesis unfolding pl Let_def getOpenstate_def by (auto simp: l)
qed

end
