(* ===== verification/C_String.thy ===== *)
theory C_String
  imports Yagips_Prelude
begin

text \<open>
  C strings and the functions of \<open>string.h\<close> and \<open>stdlib.h\<close> the sign-on code uses. A \<open>char*\<close> that ends in a
  0 byte is the list of the bytes of its array; the functions look at it up to the first 0.
\<close>

section \<open>Literals and C strings\<close>

definition lit :: "string \<Rightarrow> bytes" where
  "lit s = map of_char s"

definition c_str :: "bytes \<Rightarrow> bytes" where
  "c_str s = takeWhile (\<lambda>b. b \<noteq> 0) s"

definition strcmp_eq :: "bytes \<Rightarrow> bytes \<Rightarrow> bool" where
  "strcmp_eq s t \<longleftrightarrow> c_str s = c_str t"

definition strncmp_eq :: "bytes \<Rightarrow> bytes \<Rightarrow> nat \<Rightarrow> bool" where
  "strncmp_eq s t n \<longleftrightarrow> take n (c_str s) = take n (c_str t)"

lemma c_str_plain: "0 \<notin> set s \<Longrightarrow> c_str s = s"
  by (auto simp: c_str_def takeWhile_eq_all_conv)

lemma c_str_twice [simp]: "c_str (c_str s) = c_str s"
  by (rule c_str_plain) (auto simp: c_str_def dest: set_takeWhileD)

lemma c_str_Nil [simp]: "c_str [] = []"
  by (simp add: c_str_def)

lemma c_str_length: "length (c_str s) \<le> length s"
  by (simp add: c_str_def length_takeWhile_le)

section \<open>Numbers\<close>

text \<open>
  \<open>strtoul\<close>: white space, a sign, for base 0 and 16 a prefix, then digits. The number is read at 64 bits,
  cut off at its greatest value when there are too many digits and negated when there is a minus; with
  no digit nothing is read at all. The result is the value, the number of characters read and whether
  \<open>errno\<close> becomes \<open>ERANGE\<close>.
\<close>

definition is_space :: "u8 \<Rightarrow> bool" where
  "is_space c \<longleftrightarrow> c = 32 \<or> 9 \<le> c \<and> c \<le> 13"

definition digit_value :: "u8 \<Rightarrow> nat" where
  "digit_value c =
     (if of_char (CHR ''0'') \<le> c \<and> c \<le> of_char (CHR ''9'') then unat c - 48
      else if of_char (CHR ''a'') \<le> c \<and> c \<le> of_char (CHR ''z'') then unat c - 87
      else if of_char (CHR ''A'') \<le> c \<and> c \<le> of_char (CHR ''Z'') then unat c - 55
      else 99)"

definition digits :: "nat \<Rightarrow> bytes \<Rightarrow> bytes" where
  "digits base s = takeWhile (\<lambda>c. digit_value c < base) s"

definition digits_value :: "nat \<Rightarrow> bytes \<Rightarrow> nat" where
  "digits_value base ds = foldl (\<lambda>v c. base * v + digit_value c) 0 ds"

definition strtoul_sign :: "bytes \<Rightarrow> bool \<times> bytes" where
  "strtoul_sign s =
     (if s \<noteq> [] \<and> hd s = of_char (CHR ''-'') then (True, tl s)
      else if s \<noteq> [] \<and> hd s = of_char (CHR ''+'') then (False, tl s)
      else (False, s))"

definition strtoul_base :: "nat \<Rightarrow> bytes \<Rightarrow> nat \<times> bytes" where
  "strtoul_base base s =
     (if (base = 0 \<or> base = 16) \<and> (\<exists>x \<in> {lit ''0x'', lit ''0X''}. take 2 s = x) \<and> digits 16 (drop 2 s) \<noteq> []
      then (16, drop 2 s)
      else if base = 0 \<and> s \<noteq> [] \<and> hd s = of_char (CHR ''0'') then (8, s)
      else if base = 0 then (10, s)
      else (base, s))"

definition strtoul :: "bytes \<Rightarrow> nat \<Rightarrow> u64 \<times> nat \<times> bool" where
  "strtoul str base =
     (let s = dropWhile is_space (c_str str);
          (neg, s) = strtoul_sign s;
          (b, s) = strtoul_base base s;
          ds = digits b s;
          v = digits_value b ds
      in if ds = [] then (0, 0, False)
         else if 2 ^ 64 \<le> v then (-1, length (c_str str) - length s + length ds, True)
         else (if neg then - of_nat v else of_nat v, length (c_str str) - length s + length ds, False))"

text \<open>Decimal numbers of \<open>printf\<close>.\<close>

fun decimal :: "nat \<Rightarrow> bytes" where
  "decimal n = (if n < 10 then [of_nat (48 + n)] else decimal (n div 10) @ [of_nat (48 + n mod 10)])"

declare decimal.simps [simp del]

lemma digit_code: "m < 10 \<Longrightarrow> unat (of_nat (48 + m) :: u8) = 48 + m"
  by (simp add: unsigned_of_nat take_bit_nat_eq_self del: of_nat_add)

lemma decimal_digits: "\<forall>c \<in> set (decimal n). 48 \<le> unat c \<and> unat c \<le> 57"
proof (induction n rule: decimal.induct)
  case (1 n)
  show ?case using 1 digit_code by (subst decimal.simps) (auto simp del: of_nat_add)
qed

lemma decimal_not_Nil: "decimal n \<noteq> []"
  by (subst decimal.simps) simp

lemma digit_value_digit: "48 \<le> unat c \<Longrightarrow> unat c \<le> 57 \<Longrightarrow> digit_value c = unat c - 48"
  by (simp add: digit_value_def word_le_nat_alt)

text \<open>A decimal number is read back as it was printed.\<close>

lemma digits_value_append: "digits_value b (xs @ ys) = foldl (\<lambda>v c. b * v + digit_value c) (digits_value b xs) ys"
  by (simp add: digits_value_def)

lemma digits_value_decimal: "digits_value 10 (decimal n) = n"
proof (induction n rule: decimal.induct)
  case (1 n)
  have d: "digit_value (of_nat (48 + m)) = m" if "m < 10" for m
    using that by (simp add: digit_value_digit digit_code del: of_nat_add)
  show ?case
  proof (cases "n < 10")
    case True
    then show ?thesis using d by (subst decimal.simps) (simp add: digits_value_def del: of_nat_add)
  next
    case False
    then have "digits_value 10 (decimal n) = 10 * (n div 10) + n mod 10"
      using 1 d by (subst decimal.simps) (simp add: digits_value_append del: of_nat_add)
    then show ?thesis by simp
  qed
qed

lemma digits_decimal:
  assumes "rest = [] \<or> 10 \<le> digit_value (hd rest)"
  shows "digits 10 (decimal n @ rest) = decimal n"
proof -
  have "\<forall>c \<in> set (decimal n). digit_value c < 10"
    using decimal_digits [of n] digit_value_digit by fastforce
  then have "digits 10 (decimal n @ rest) = decimal n @ digits 10 rest" by (simp add: digits_def takeWhile_append2)
  moreover have "digits 10 rest = []" using assms by (cases rest) (simp_all add: digits_def)
  ultimately show ?thesis by simp
qed

text \<open>A decimal number is also what \<open>strtoul\<close> reads when it finds the base itself.\<close>

lemma decimal_first: "0 < n \<Longrightarrow> 49 \<le> unat (hd (decimal n))"
proof (induction n rule: decimal.induct)
  case (1 n)
  show ?case
  proof (cases "n < 10")
    case True
    then show ?thesis using 1(2) by (subst decimal.simps) (simp add: digit_code del: of_nat_add)
  next
    case False
    then show ?thesis using 1 decimal_not_Nil [of "n div 10"] by (subst decimal.simps) (simp add: hd_append)
  qed
qed

lemma strtoul_decimal:
  assumes "0 < n" "n < 2 ^ 64"
  shows "strtoul (decimal n) 0 = (of_nat n, length (decimal n), False)"
proof -
  obtain c cs where d: "decimal n = c # cs" using decimal_not_Nil by (cases "decimal n") auto
  have c: "49 \<le> unat c" "unat c \<le> 57" using decimal_first [OF assms(1)] decimal_digits [of n] d by auto
  have "0 \<notin> set (decimal n)" using decimal_digits [of n] by fastforce
  then have s: "c_str (decimal n) = decimal n" by (rule c_str_plain)
  have "\<not> is_space c" "c \<noteq> of_char (CHR ''-'')" "c \<noteq> of_char (CHR ''+'')" "c \<noteq> of_char (CHR ''0'')"
    using c by (auto simp: is_space_def word_le_nat_alt)
  moreover have "take 2 (decimal n) \<notin> {lit ''0x'', lit ''0X''}"
    using c d by (auto simp: lit_def)
  ultimately have b: "dropWhile is_space (decimal n) = decimal n" "strtoul_sign (decimal n) = (False, decimal n)"
    "strtoul_base 0 (decimal n) = (10, decimal n)"
    using d by (auto simp: strtoul_sign_def strtoul_base_def)
  have "digits 10 (decimal n) = decimal n" using digits_decimal [of "[]" n] by simp
  then show ?thesis
    using assms(2) decimal_not_Nil [of n] by (simp add: strtoul_def s b digits_value_decimal Let_def)
qed

end
