(* ===== verification/Account.thy ===== *)
theory Account
  imports Text_Codec Host_Memory C_String
begin

text \<open>
  The accounts of \<open>src/account.cpp\<close> and the message they are stored as. \<open>raw\<close> holds the members the
  constructors do not set, \<open>rnd\<close> the bytes \<open>getrandom\<close> writes, \<open>now\<close> the time.
\<close>

section \<open>An account and its message\<close>

record account =
  ac_username :: bytes
  ac_password :: bytes
  ac_device :: bytes
  ac_email :: bytes
  ac_real_name :: bytes
  ac_id_number :: bytes
  ac_auth :: bytes
  ac_combo :: bytes
  ac_binder :: bytes
  ac_aid :: u32
  ac_guest :: u32
  ac_auth_ts :: u64
  ac_binder_ts :: u64
  ac_session :: "nat option"
  ac_permissions :: "u32 list"

record pb_account =
  pc_id :: u32
  pc_username :: bytes
  pc_email :: bytes
  pc_password :: bytes
  pc_combo :: bytes
  pc_auth :: bytes
  pc_auth_ts :: u64
  pc_device :: bytes
  pc_guest :: bool
  pc_reserved :: u32
  pc_permissions :: "u32 list"
  pc_real_name :: bytes
  pc_id_number :: bytes
  pc_bind :: bytes
  pc_bind_ts :: u64

definition account_default :: "account \<Rightarrow> account" where
  "account_default raw =
     raw\<lparr>ac_username := [], ac_password := [], ac_device := [], ac_email := [], ac_real_name := [],
         ac_id_number := [], ac_auth := [], ac_combo := [], ac_binder := [], ac_session := None,
         ac_permissions := []\<rparr>"

definition account_of_pb :: "pb_account \<Rightarrow> account" where
  "account_of_pb p =
     \<lparr>ac_username = pc_username p, ac_password = pc_password p, ac_device = pc_device p,
      ac_email = pc_email p, ac_real_name = pc_real_name p, ac_id_number = pc_id_number p,
      ac_auth = b64enc (pc_auth p), ac_combo = hexenc (pc_combo p), ac_binder = b64enc (pc_bind p),
      ac_aid = pc_id p, ac_guest = (if pc_guest p then 1 else 0), ac_auth_ts = pc_auth_ts p,
      ac_binder_ts = pc_bind_ts p, ac_session = None, ac_permissions = pc_permissions p\<rparr>"

text \<open>The guest flag and the reserved uid are not written; a token that \<open>b64dec\<close> reads past is a fault.\<close>

definition account_to_pb :: "account \<Rightarrow> cpp_fault + pb_account" where
  "account_to_pb a =
     (case (b64dec (ac_auth a), b64dec (ac_binder a)) of
        (Some auth, Some bnd) \<Rightarrow>
          Inr \<lparr>pc_id = ac_aid a, pc_username = ac_username a, pc_email = ac_email a,
               pc_password = ac_password a, pc_combo = hexdec (ac_combo a), pc_auth = auth,
               pc_auth_ts = ac_auth_ts a, pc_device = ac_device a, pc_guest = False, pc_reserved = 0,
               pc_permissions = ac_permissions a, pc_real_name = ac_real_name a,
               pc_id_number = ac_id_number a, pc_bind = bnd, pc_bind_ts = ac_binder_ts a\<rparr>
      | _ \<Rightarrow> Inl Out_of_bounds)"

section \<open>Members\<close>

definition setAccountId :: "u32 \<Rightarrow> account \<Rightarrow> account" where "setAccountId i a = a\<lparr>ac_aid := i\<rparr>"
definition setUsername :: "bytes \<Rightarrow> account \<Rightarrow> account" where "setUsername u a = a\<lparr>ac_username := u\<rparr>"
definition setDeviceId :: "bytes \<Rightarrow> account \<Rightarrow> account" where "setDeviceId d a = a\<lparr>ac_device := d\<rparr>"
definition setPasswordHash :: "bytes \<Rightarrow> account \<Rightarrow> account" where "setPasswordHash p a = a\<lparr>ac_password := p\<rparr>"
definition setEmail :: "bytes \<Rightarrow> account \<Rightarrow> account" where "setEmail e a = a\<lparr>ac_email := e\<rparr>"
definition setRealName :: "bytes \<Rightarrow> account \<Rightarrow> account" where "setRealName r a = a\<lparr>ac_real_name := r\<rparr>"
definition setIdNumber :: "bytes \<Rightarrow> account \<Rightarrow> account" where "setIdNumber i a = a\<lparr>ac_id_number := i\<rparr>"
definition setAuthToken :: "bytes \<Rightarrow> account \<Rightarrow> account" where "setAuthToken t a = a\<lparr>ac_auth := t\<rparr>"
definition setComboToken :: "bytes \<Rightarrow> account \<Rightarrow> account" where "setComboToken t a = a\<lparr>ac_combo := t\<rparr>"
definition setBinderToken :: "bytes \<Rightarrow> account \<Rightarrow> account" where "setBinderToken t a = a\<lparr>ac_binder := t\<rparr>"

definition setAuthTokenTimestamp :: "u64 \<Rightarrow> account \<Rightarrow> account" where
  "setAuthTokenTimestamp t a = a\<lparr>ac_auth_ts := t\<rparr>"

definition setBinderTokenTimestamp :: "u64 \<Rightarrow> account \<Rightarrow> account" where
  "setBinderTokenTimestamp t a = a\<lparr>ac_binder_ts := t\<rparr>"

text \<open>This getter returns the other time.\<close>

definition getBinderTokenTimestamp :: "account \<Rightarrow> u64" where
  "getBinderTokenTimestamp a = ac_auth_ts a"

definition isGuest :: "account \<Rightarrow> u32" where "isGuest a = (if ac_guest a \<noteq> 0 then 1 else 0)"
definition setIsGuest :: "u32 \<Rightarrow> account \<Rightarrow> account" where "setIsGuest g a = a\<lparr>ac_guest := if g \<noteq> 0 then 1 else 0\<rparr>"
definition setAccountSession :: "nat option \<Rightarrow> account \<Rightarrow> account" where "setAccountSession s a = a\<lparr>ac_session := s\<rparr>"

section \<open>Tokens\<close>

definition getNewAuthToken :: "bytes \<Rightarrow> u64 \<Rightarrow> account \<Rightarrow> bytes \<times> account" where
  "getNewAuthToken rnd now a =
     (let a = a\<lparr>ac_auth := b64enc (take 24 rnd), ac_auth_ts := now\<rparr> in (ac_auth a, a))"

definition getNewComboToken :: "bytes \<Rightarrow> account \<Rightarrow> bytes \<times> account" where
  "getNewComboToken rnd a = (let a = a\<lparr>ac_combo := hexenc (take 16 rnd)\<rparr> in (ac_combo a, a))"

definition getNewBinderToken :: "bytes \<Rightarrow> u64 \<Rightarrow> account \<Rightarrow> bytes \<times> account" where
  "getNewBinderToken rnd now a =
     (let a = a\<lparr>ac_binder := b64enc (take 6 rnd), ac_binder_ts := now\<rparr> in (ac_binder a, a))"

section \<open>Permissions\<close>

definition setPermissions :: "u32 list \<Rightarrow> account \<Rightarrow> account" where "setPermissions l a = a\<lparr>ac_permissions := l\<rparr>"
definition clearPermissions :: "account \<Rightarrow> account" where "clearPermissions a = a\<lparr>ac_permissions := []\<rparr>"
definition addPermission :: "u32 \<Rightarrow> account \<Rightarrow> account" where "addPermission p a = a\<lparr>ac_permissions := ac_permissions a @ [p]\<rparr>"

text \<open>A permission that is found is erased, and the loop goes on from the erased node.\<close>

definition removePermission :: "u32 \<Rightarrow> account \<Rightarrow> cpp_fault + account" where
  "removePermission p a = (if p \<in> set (ac_permissions a) then Inl Invalid_iterator else Inr a)"

primrec has_permission :: "u32 \<Rightarrow> u32 list \<Rightarrow> u32" where
  "has_permission p [] = 0"
| "has_permission p (q # qs) = (if q = p then 1 else has_permission p qs)"

definition hasPermission :: "u32 \<Rightarrow> account \<Rightarrow> u32" where
  "hasPermission p a = has_permission p (ac_permissions a)"

section \<open>What storing keeps\<close>

text \<open>The tokens the code gives an account: none, or the encoding of some bytes.\<close>

definition tokens_ok :: "account \<Rightarrow> bool" where
  "tokens_ok a \<longleftrightarrow> ac_auth a \<in> range b64enc \<and> ac_combo a \<in> range hexenc \<and> ac_binder a \<in> range b64enc"

lemma b64enc_dec:
  assumes "t \<in> range b64enc"
  obtains x where "b64dec t = Some x" "b64enc x = t"
  using assms b64_round_trip b64enc_smeared by blast

lemma hexenc_dec: "t \<in> range hexenc \<Longrightarrow> hexenc (hexdec t) = t"
  using hex_round_trip by (metis imageE)

lemma tokens_ok_default: "tokens_ok (account_default raw)"
  unfolding tokens_ok_def
  by (intro conjI range_eqI [where x = "[]"]) (simp_all add: account_default_def b64enc_def hexenc_def)

lemma tokens_ok_of_pb: "tokens_ok (account_of_pb p)"
  by (simp add: tokens_ok_def account_of_pb_def)

lemma tokens_ok_new:
  "tokens_ok a \<Longrightarrow> tokens_ok (snd (getNewAuthToken rnd now a))"
  "tokens_ok a \<Longrightarrow> tokens_ok (snd (getNewComboToken rnd a))"
  "tokens_ok a \<Longrightarrow> tokens_ok (snd (getNewBinderToken rnd now a))"
  by (simp_all add: tokens_ok_def getNewAuthToken_def getNewComboToken_def getNewBinderToken_def)

text \<open>An account with such tokens comes back from its message as it was, but for the guest flag and the session.\<close>

lemma account_stored:
  assumes "tokens_ok a"
  obtains p where "account_to_pb a = Inr p" "account_of_pb p = a\<lparr>ac_guest := 0, ac_session := None\<rparr>"
    "pc_id p = ac_aid a" "pc_username p = ac_username a" "pc_device p = ac_device a"
proof -
  obtain x where x: "b64dec (ac_auth a) = Some x" "b64enc x = ac_auth a"
    using assms b64enc_dec unfolding tokens_ok_def by blast
  obtain y where y: "b64dec (ac_binder a) = Some y" "b64enc y = ac_binder a"
    using assms b64enc_dec unfolding tokens_ok_def by blast
  have "hexenc (hexdec (ac_combo a)) = ac_combo a" using assms hexenc_dec unfolding tokens_ok_def by blast
  with x y show ?thesis using that by (simp add: account_to_pb_def account_of_pb_def)
qed

end
