(* ===== verification/Db_Gate.thy ===== *)
theory Db_Gate
  imports Account Player_State
begin

text \<open>
  The storage layer of \<open>src/dbgate.cpp\<close>: accounts, players and inventory entries under keys of 32-bit
  words in network order, in a LevelDB database. The database and the generated protobuf codecs are not
  part of the sources: they are the functions of \<open>store_lib\<close>, over a database state of any type, and
  \<open>store_laws\<close> is what their documentation promises.
\<close>

section \<open>The libraries\<close>

text \<open>
  \<open>sl_get\<close> gives the empty string for a key that is not there, \<open>sl_put\<close> and \<open>sl_delete\<close> whether they
  succeeded; \<open>sl_iterate\<close> is the order of an iterator. A codec fails with \<^term>\<open>None\<close>.
\<close>

record next_ids =
  ni_aid :: u32
  ni_uid :: u32
  ni_gacha :: u32
  ni_mail :: u32

record 'd store_lib =
  sl_get :: "bytes \<Rightarrow> 'd \<Rightarrow> bytes"
  sl_put :: "bytes \<Rightarrow> bytes \<Rightarrow> 'd \<Rightarrow> bool \<times> 'd"
  sl_delete :: "bytes \<Rightarrow> 'd \<Rightarrow> bool \<times> 'd"
  sl_iterate :: "'d \<Rightarrow> (bytes \<times> bytes) list"
  ser_ids :: "next_ids \<Rightarrow> bytes option"
  parse_ids :: "bytes \<Rightarrow> next_ids option"
  ser_account :: "pb_account \<Rightarrow> bytes option"
  parse_account :: "bytes \<Rightarrow> pb_account option"
  ser_player :: "pb_player \<Rightarrow> bytes option"
  parse_player :: "bytes \<Rightarrow> pb_player option"
  ser_entry :: "entry \<Rightarrow> bytes option"
  parse_entry :: "bytes \<Rightarrow> entry option"

section \<open>Keys and low-level access\<close>

definition INVENTORY :: u32 where "INVENTORY = 0"
definition ACCOUNT :: u32 where "ACCOUNT = 1"
definition PLAYER :: u32 where "PLAYER = 2"

definition ldb_key :: "u32 list \<Rightarrow> bytes" where
  "ldb_key ws = concat (map (\<lambda>w. store_le 4 (htobe32 w)) ws)"

definition key_type :: "bytes \<Rightarrow> u32 option" where
  "key_type k = map_option load_le (c_str_read k 4)"

record 'd dbgate =
  dg_db :: 'd
  dg_ids :: next_ids

definition getLdbObject :: "'d store_lib \<Rightarrow> bytes \<Rightarrow> 'd dbgate \<Rightarrow> bytes" where
  "getLdbObject L k g = sl_get L k (dg_db g)"

definition setLdbObject :: "'d store_lib \<Rightarrow> bytes \<Rightarrow> bytes \<Rightarrow> 'd dbgate \<Rightarrow> int \<times> 'd dbgate" where
  "setLdbObject L k v g = (let (ok, d) = sl_put L k v (dg_db g) in (if ok then 0 else -1, g\<lparr>dg_db := d\<rparr>))"

definition delLdbObject :: "'d store_lib \<Rightarrow> bytes \<Rightarrow> 'd dbgate \<Rightarrow> int \<times> 'd dbgate" where
  "delLdbObject L k g = (let (ok, d) = sl_delete L k (dg_db g) in (if ok then 0 else -1, g\<lparr>dg_db := d\<rparr>))"

section \<open>Opening and closing\<close>

definition dbgate_load :: "'d store_lib \<Rightarrow> 'd dbgate \<Rightarrow> int \<times> 'd dbgate" where
  "dbgate_load L g =
     (let val = getLdbObject L (lit ''nextID'') g
      in if val = [] then (0, g)
         else case parse_ids L val of None \<Rightarrow> (-1, g) | Some ids \<Rightarrow> (0, g\<lparr>dg_ids := ids\<rparr>))"

definition dbgate_save :: "'d store_lib \<Rightarrow> 'd dbgate \<Rightarrow> int \<times> 'd dbgate" where
  "dbgate_save L g =
     (case ser_ids L (dg_ids g) of None \<Rightarrow> (-1, g) | Some val \<Rightarrow> setLdbObject L (lit ''nextID'') val g)"

definition no_ids :: next_ids where
  "no_ids = \<lparr>ni_aid = 0, ni_uid = 0, ni_gacha = 0, ni_mail = 0\<rparr>"

definition dbgate_new :: "'d store_lib \<Rightarrow> 'd option \<Rightarrow> cpp_fault + 'd dbgate" where
  "dbgate_new L opened =
     (case opened of
        None \<Rightarrow> Inl Runtime_error
      | Some d \<Rightarrow> Inr (snd (dbgate_load L \<lparr>dg_db = d, dg_ids = no_ids\<rparr>)))"

definition dbgate_delete :: "'d store_lib \<Rightarrow> 'd dbgate \<Rightarrow> 'd" where
  "dbgate_delete L g = dg_db (snd (dbgate_save L g))"

section \<open>Accounts\<close>

definition getAccountByAid :: "'d store_lib \<Rightarrow> u32 \<Rightarrow> 'd dbgate \<Rightarrow> account option" where
  "getAccountByAid L aid g =
     (let val = getLdbObject L (ldb_key [ACCOUNT, aid]) g
      in if val = [] then None else map_option account_of_pb (parse_account L val))"

text \<open>
  The searches by a member walk over all keys; each compares one member of the stored message, a
  \<open>std::string\<close>, with a C string.
\<close>

fun search_accounts ::
  "'d store_lib \<Rightarrow> (pb_account \<Rightarrow> bool) \<Rightarrow> (bytes \<times> bytes) list \<Rightarrow> cpp_fault + account option" where
  "search_accounts L hit [] = Inr None"
| "search_accounts L hit ((k, v) # es) =
     (case key_type k of
        None \<Rightarrow> Inl Out_of_bounds
      | Some t \<Rightarrow>
          if t \<noteq> htobe32 ACCOUNT then search_accounts L hit es
          else case parse_account L v of
                 None \<Rightarrow> search_accounts L hit es
               | Some p \<Rightarrow> if hit p then Inr (Some (account_of_pb p)) else search_accounts L hit es)"

definition getAccountBy ::
  "'d store_lib \<Rightarrow> (pb_account \<Rightarrow> bytes) \<Rightarrow> bytes option \<Rightarrow> 'd dbgate \<Rightarrow> cpp_fault + account option" where
  "getAccountBy L member arg g =
     (case arg of
        None \<Rightarrow> Inr None
      | Some s \<Rightarrow> search_accounts L (\<lambda>p. member p = c_str s) (sl_iterate L (dg_db g)))"

definition getAccountByUsername :: "'d store_lib \<Rightarrow> bytes option \<Rightarrow> 'd dbgate \<Rightarrow> cpp_fault + account option" where
  "getAccountByUsername L = getAccountBy L pc_username"

definition getAccountByAuthToken :: "'d store_lib \<Rightarrow> bytes option \<Rightarrow> 'd dbgate \<Rightarrow> cpp_fault + account option" where
  "getAccountByAuthToken L = getAccountBy L pc_auth"

definition getAccountByComboToken :: "'d store_lib \<Rightarrow> bytes option \<Rightarrow> 'd dbgate \<Rightarrow> cpp_fault + account option" where
  "getAccountByComboToken L = getAccountBy L pc_combo"

definition getAccountByBinderToken :: "'d store_lib \<Rightarrow> bytes option \<Rightarrow> 'd dbgate \<Rightarrow> cpp_fault + account option" where
  "getAccountByBinderToken L = getAccountBy L pc_bind"

definition getAccountByDeviceId :: "'d store_lib \<Rightarrow> bytes option \<Rightarrow> 'd dbgate \<Rightarrow> cpp_fault + account option" where
  "getAccountByDeviceId L = getAccountBy L pc_device"

definition saveAccount :: "'d store_lib \<Rightarrow> account \<Rightarrow> 'd dbgate \<Rightarrow> cpp_fault + int \<times> 'd dbgate" where
  "saveAccount L a g =
     map_sum id (\<lambda>p. case ser_account L p of
         None \<Rightarrow> (-1, g)
       | Some val \<Rightarrow> setLdbObject L (ldb_key [ACCOUNT, ac_aid a]) val g) (account_to_pb a)"

definition deleteAccount :: "'d store_lib \<Rightarrow> account \<Rightarrow> 'd dbgate \<Rightarrow> int \<times> 'd dbgate" where
  "deleteAccount L a g = delLdbObject L (ldb_key [ACCOUNT, ac_aid a]) g"

text \<open>The first free id from a given one on; the loop does not end when every id is taken.\<close>

partial_function (option) free_id :: "(u32 \<Rightarrow> bool) \<Rightarrow> u32 \<Rightarrow> u32 option" where
  "free_id taken i = (if taken i then free_id taken (i + 1) else Some i)"

text \<open>\<^term>\<open>None\<close> is the loop that does not end.\<close>

definition createAccount ::
  "'d store_lib \<Rightarrow> account \<Rightarrow> bytes option \<Rightarrow> 'd dbgate \<Rightarrow> (cpp_fault + account \<times> 'd dbgate) option" where
  "createAccount L raw username g =
     (case getAccountByUsername L username g of
        Inl f \<Rightarrow> Some (Inl f)
      | Inr (Some a) \<Rightarrow> Some (Inr (a, g))
      | Inr None \<Rightarrow>
          (let aid = (if ni_aid (dg_ids g) = 0 then 1 else ni_aid (dg_ids g))
           in case free_id (\<lambda>i. getLdbObject L (ldb_key [ACCOUNT, i]) g \<noteq> []) aid of
                None \<Rightarrow> None
              | Some aid \<Rightarrow>
                  let g = g\<lparr>dg_ids := (dg_ids g)\<lparr>ni_aid := aid\<rparr>\<rparr>;
                      a = setAccountId aid (account_default raw);
                      a = (case username of
                             Some u \<Rightarrow> setIsGuest 0 (setUsername (c_str u) a)
                           | None \<Rightarrow> setIsGuest 1 a)
                  in Some (case saveAccount L a g of
                             Inl f \<Rightarrow> Inl f
                           | Inr (_, g) \<Rightarrow> Inr (a, snd (dbgate_save L g)))))"

section \<open>Players\<close>

text \<open>What loading a player needs of the rest: open states, sessions, the time and the memory of the object.\<close>

record player_env =
  pe_states :: "openstate_ent list option"
  pe_sessions :: "u64 \<Rightarrow> player_session option"
  pe_now :: u64
  pe_raw :: player

definition load_player :: "'d store_lib \<Rightarrow> player_env \<Rightarrow> 'd dbgate \<Rightarrow> pb_player \<Rightarrow> player" where
  "load_player L env g p =
     player_of_pb (pe_states env) (\<lambda>aid. map_option ac_aid (getAccountByAid L aid g)) (pe_sessions env)
       (pe_now env) p (pe_raw env)"

definition getPlayerByUid :: "'d store_lib \<Rightarrow> player_env \<Rightarrow> u32 \<Rightarrow> 'd dbgate \<Rightarrow> player option" where
  "getPlayerByUid L env uid g =
     (let val = getLdbObject L (ldb_key [PLAYER, uid]) g
      in if val = [] then None else map_option (load_player L env g) (parse_player L val))"

fun search_players ::
  "'d store_lib \<Rightarrow> u32 \<Rightarrow> (bytes \<times> bytes) list \<Rightarrow> cpp_fault + pb_player option" where
  "search_players L aid [] = Inr None"
| "search_players L aid ((k, v) # es) =
     (case key_type k of
        None \<Rightarrow> Inl Out_of_bounds
      | Some t \<Rightarrow>
          if t \<noteq> htobe32 PLAYER then search_players L aid es
          else case parse_player L v of
                 None \<Rightarrow> search_players L aid es
               | Some p \<Rightarrow> if pp_aid p = aid then Inr (Some p) else search_players L aid es)"

definition getPlayerByAid :: "'d store_lib \<Rightarrow> player_env \<Rightarrow> u32 \<Rightarrow> 'd dbgate \<Rightarrow> cpp_fault + player option" where
  "getPlayerByAid L env aid g =
     map_sum id (map_option (load_player L env g)) (search_players L aid (sl_iterate L (dg_db g)))"

definition getPlayerByAccount :: "'d store_lib \<Rightarrow> player_env \<Rightarrow> account \<Rightarrow> 'd dbgate \<Rightarrow> cpp_fault + player option" where
  "getPlayerByAccount L env a g = getPlayerByAid L env (ac_aid a) g"

definition getAccountByUid :: "'d store_lib \<Rightarrow> player_env \<Rightarrow> u32 \<Rightarrow> 'd dbgate \<Rightarrow> account option" where
  "getAccountByUid L env uid g =
     (case getPlayerByUid L env uid g of
        None \<Rightarrow> None
      | Some pl \<Rightarrow> (case pl_aid pl of None \<Rightarrow> None | Some aid \<Rightarrow> getAccountByAid L aid g))"

definition savePlayer :: "'d store_lib \<Rightarrow> u64 \<Rightarrow> player \<Rightarrow> 'd dbgate \<Rightarrow> cpp_fault + int \<times> 'd dbgate" where
  "savePlayer L now pl g =
     map_sum id (\<lambda>p. case ser_player L p of
         None \<Rightarrow> (-1, g)
       | Some val \<Rightarrow> setLdbObject L (ldb_key [PLAYER, pl_uid pl]) val g) (player_to_pb now pl)"

definition deletePlayer :: "'d store_lib \<Rightarrow> player \<Rightarrow> 'd dbgate \<Rightarrow> int \<times> 'd dbgate" where
  "deletePlayer L pl g = delLdbObject L (ldb_key [PLAYER, pl_uid pl]) g"

definition newPlayer :: "'d store_lib \<Rightarrow> player_env \<Rightarrow> 'd dbgate \<Rightarrow> (cpp_fault + player \<times> 'd dbgate) option" where
  "newPlayer L env g =
     (let uid = (if ni_uid (dg_ids g) = 0 then 1 else ni_uid (dg_ids g))
      in case free_id (\<lambda>i. getLdbObject L (ldb_key [PLAYER, i]) g \<noteq> []) uid of
           None \<Rightarrow> None
         | Some uid \<Rightarrow>
             let g = g\<lparr>dg_ids := (dg_ids g)\<lparr>ni_uid := uid\<rparr>\<rparr>;
                 pl = setPlayerUid uid (player_default (pe_states env) (pe_raw env))
             in Some (case savePlayer L (pe_now env) pl g of
                        Inl f \<Rightarrow> Inl f
                      | Inr (_, g) \<Rightarrow> Inr (pl, snd (dbgate_save L g))))"

section \<open>Inventory entries\<close>

definition inventory_key :: "u64 \<Rightarrow> bytes" where
  "inventory_key guid = ldb_key [INVENTORY, ucast (drop_bit 32 guid), ucast guid]"

definition getInventoryEntry :: "'d store_lib \<Rightarrow> u64 \<Rightarrow> 'd dbgate \<Rightarrow> entry option" where
  "getInventoryEntry L guid g =
     (let val = getLdbObject L (inventory_key guid) g in if val = [] then None else parse_entry L val)"

definition setInventoryEntry :: "'d store_lib \<Rightarrow> entry \<Rightarrow> 'd dbgate \<Rightarrow> cpp_fault + int \<times> 'd dbgate" where
  "setInventoryEntry L ent g =
     (case ent of
        Empty_entry \<Rightarrow> Inl Assertion_failed
      | _ \<Rightarrow>
          let guid = (case ent of Avatar_entry a \<Rightarrow> pa_guid a | Item_entry i \<Rightarrow> pi_guid i)
          in Inr (case ser_entry L ent of
                    None \<Rightarrow> (-1, g)
                  | Some val \<Rightarrow> setLdbObject L (inventory_key guid) val g))"

text \<open>
  The getters of one kind use the entry without a look whether there is one, and both ask for an avatar:
  the getter of items gives the item of an entry that holds an avatar, an empty one.
\<close>

definition empty_pb_item :: pb_item where
  "empty_pb_item = \<lparr>pi_id = 0, pi_guid = 0, pi_detail = No_detail\<rparr>"

definition getAvatarPbByGuid :: "'d store_lib \<Rightarrow> u64 \<Rightarrow> 'd dbgate \<Rightarrow> cpp_fault + pb_avatar option" where
  "getAvatarPbByGuid L guid g =
     (case getInventoryEntry L guid g of
        None \<Rightarrow> Inl Null_pointer
      | Some (Avatar_entry a) \<Rightarrow> Inr (Some a)
      | Some _ \<Rightarrow> Inr None)"

definition getItemPbByGuid :: "'d store_lib \<Rightarrow> u64 \<Rightarrow> 'd dbgate \<Rightarrow> cpp_fault + pb_item option" where
  "getItemPbByGuid L guid g =
     (case getInventoryEntry L guid g of
        None \<Rightarrow> Inl Null_pointer
      | Some (Avatar_entry a) \<Rightarrow> Inr (Some empty_pb_item)
      | Some _ \<Rightarrow> Inr None)"

definition db_getAvatarByGuid ::
  "'d store_lib \<Rightarrow> avatar_env \<Rightarrow> avatar \<Rightarrow> u64 \<Rightarrow> 'd dbgate \<Rightarrow> cpp_fault + avatar option" where
  "db_getAvatarByGuid L env raw guid g =
     map_sum id (map_option (\<lambda>p. avatar_of_pb env p raw)) (getAvatarPbByGuid L guid g)"

definition db_getItemByGuid :: "'d store_lib \<Rightarrow> item \<Rightarrow> u64 \<Rightarrow> 'd dbgate \<Rightarrow> cpp_fault + item option" where
  "db_getItemByGuid L raw guid g =
     (case getItemPbByGuid L guid g of
        Inl f \<Rightarrow> Inl f
      | Inr None \<Rightarrow> Inr None
      | Inr (Some p) \<Rightarrow> map_sum id Some (item_of_pb p raw))"

definition saveAvatarPb :: "'d store_lib \<Rightarrow> pb_avatar \<Rightarrow> 'd dbgate \<Rightarrow> cpp_fault + int \<times> 'd dbgate" where
  "saveAvatarPb L p g = setInventoryEntry L (Avatar_entry p) g"

definition saveAvatar :: "'d store_lib \<Rightarrow> avatar_env \<Rightarrow> avatar \<Rightarrow> 'd dbgate \<Rightarrow> cpp_fault + int \<times> 'd dbgate" where
  "saveAvatar L env a g = (case avatar_to_pb_const env a of Inl f \<Rightarrow> Inl f | Inr p \<Rightarrow> saveAvatarPb L p g)"

definition saveItemPb :: "'d store_lib \<Rightarrow> pb_item \<Rightarrow> 'd dbgate \<Rightarrow> cpp_fault + int \<times> 'd dbgate" where
  "saveItemPb L p g = setInventoryEntry L (Item_entry p) g"

definition saveItem :: "'d store_lib \<Rightarrow> item \<Rightarrow> 'd dbgate \<Rightarrow> cpp_fault + int \<times> 'd dbgate" where
  "saveItem L i g = (case item_to_pb i of Inl f \<Rightarrow> Inl f | Inr p \<Rightarrow> saveItemPb L p g)"

definition deleteByGuid :: "'d store_lib \<Rightarrow> u64 \<Rightarrow> 'd dbgate \<Rightarrow> int \<times> 'd dbgate" where
  "deleteByGuid L guid g = delLdbObject L (inventory_key guid) g"

definition deleteAvatar :: "'d store_lib \<Rightarrow> avatar \<Rightarrow> 'd dbgate \<Rightarrow> int \<times> 'd dbgate" where
  "deleteAvatar L a g = deleteByGuid L (av_guid a) g"

definition deleteItem :: "'d store_lib \<Rightarrow> item \<Rightarrow> 'd dbgate \<Rightarrow> int \<times> 'd dbgate" where
  "deleteItem L i g = deleteByGuid L (it_guid i) g"

section \<open>Saving a player whole\<close>

fun save_avatars :: "'d store_lib \<Rightarrow> avatar_env \<Rightarrow> avatar list \<Rightarrow> 'd dbgate \<Rightarrow> cpp_fault + 'd dbgate" where
  "save_avatars L env [] g = Inr g"
| "save_avatars L env (a # as) g =
     (case saveAvatar L env a g of Inl f \<Rightarrow> Inl f | Inr (_, g) \<Rightarrow> save_avatars L env as g)"

fun save_items :: "'d store_lib \<Rightarrow> item list \<Rightarrow> 'd dbgate \<Rightarrow> cpp_fault + 'd dbgate" where
  "save_items L [] g = Inr g"
| "save_items L (i # is) g =
     (case saveItem L i g of Inl f \<Rightarrow> Inl f | Inr (_, g) \<Rightarrow> save_items L is g)"

definition saveInventoryAndAvatars :: "'d store_lib \<Rightarrow> avatar_env \<Rightarrow> player \<Rightarrow> 'd dbgate \<Rightarrow> cpp_fault + int \<times> 'd dbgate" where
  "saveInventoryAndAvatars L env pl g =
     (case save_avatars L env (map snd (pl_avatars pl)) g of
        Inl f \<Rightarrow> Inl f
      | Inr g \<Rightarrow> map_sum id (\<lambda>g. (0, g)) (save_items L (map snd (pl_items pl)) g))"

definition saveToDb :: "'d store_lib \<Rightarrow> avatar_env \<Rightarrow> u64 \<Rightarrow> player \<Rightarrow> 'd dbgate \<Rightarrow> cpp_fault + int \<times> 'd dbgate" where
  "saveToDb L env now pl g =
     (case saveInventoryAndAvatars L env pl g of Inl f \<Rightarrow> Inl f | Inr (_, g) \<Rightarrow> savePlayer L now pl g)"

definition loadFromDb_uid :: "'d store_lib \<Rightarrow> player_env \<Rightarrow> u32 \<Rightarrow> 'd dbgate \<Rightarrow> player \<Rightarrow> int \<times> player" where
  "loadFromDb_uid L env uid g pl =
     (case getPlayerByUid L env uid g of None \<Rightarrow> (-1, pl) | Some new \<Rightarrow> (0, new))"

definition loadFromDb :: "'d store_lib \<Rightarrow> player_env \<Rightarrow> 'd dbgate \<Rightarrow> player \<Rightarrow> int \<times> player" where
  "loadFromDb L env g pl = loadFromDb_uid L env (pl_uid pl) g pl"

end
