(* ===== verification/Dispatch.thy ===== *)
theory Dispatch
  imports Db_Gate
begin

text \<open>
  The account services of the dispatch server, \<open>src/dispatch.cpp\<close>: \<open>handleLogin\<close>, \<open>handleVerify\<close>,
  \<open>handleCombo\<close>, \<open>handleActionTicket\<close>, \<open>handleBindRealname\<close> and \<open>handleClientLog\<close>. They read a JSON document
  with the json-c library, which is an argument like the database: \<open>json_lib\<close>, over a type of JSON values.
  A reply is the string the handler returns.
\<close>

section \<open>The JSON library\<close>

text \<open>
  A member may be absent or null; a null value is a null pointer in json-c. New values are printed by
  \<open>json_object_to_json_string_ext\<close> as one object.
\<close>

datatype jnew = J_uint u64 | J_int int | J_bool bool | J_str bytes | J_null

record 'j json_lib =
  jl_parse :: "bytes \<Rightarrow> 'j option"
  jl_is_object :: "'j \<Rightarrow> bool"
  jl_member :: "'j \<Rightarrow> string \<Rightarrow> 'j option option"
  jl_string :: "'j \<Rightarrow> bytes"
  jl_string_len :: "'j \<Rightarrow> nat"
  jl_boolean :: "'j \<Rightarrow> bool"
  jl_int :: "'j \<Rightarrow> u32"
  jl_print :: "(string \<times> jnew) list \<Rightarrow> bytes"

definition get_string :: "'j json_lib \<Rightarrow> 'j option \<Rightarrow> bytes option" where
  "get_string J v = map_option (jl_string J) v"

definition get_boolean :: "'j json_lib \<Rightarrow> 'j option \<Rightarrow> bool" where
  "get_boolean J v = (case v of None \<Rightarrow> False | Some j \<Rightarrow> jl_boolean J j)"

definition get_int :: "'j json_lib \<Rightarrow> 'j option \<Rightarrow> u32" where
  "get_int J v = (case v of None \<Rightarrow> 0 | Some j \<Rightarrow> jl_int J j)"

text \<open>A string member that may be missing: absent and null both give a null pointer.\<close>

definition opt_string :: "'j json_lib \<Rightarrow> 'j \<Rightarrow> string \<Rightarrow> bytes option" where
  "opt_string J j k = (case jl_member J j k of None \<Rightarrow> None | Some v \<Rightarrow> get_string J v)"

definition opt_boolean :: "'j json_lib \<Rightarrow> 'j \<Rightarrow> string \<Rightarrow> bool" where
  "opt_boolean J j k = (case jl_member J j k of None \<Rightarrow> False | Some v \<Rightarrow> get_boolean J v)"

definition opt_int :: "'j json_lib \<Rightarrow> 'j \<Rightarrow> string \<Rightarrow> u32" where
  "opt_int J j k = (case jl_member J j k of None \<Rightarrow> 0 | Some v \<Rightarrow> get_int J v)"

section \<open>Replies\<close>

definition reply :: "string \<Rightarrow> string \<Rightarrow> bytes" where
  "reply code message = lit (''{\"retcode\":'' @ code @ '',\"message\":\"'' @ message @ ''\"}'')"

definition refused :: "string \<Rightarrow> bytes" where "refused = reply ''-101''"
definition failed :: "string \<Rightarrow> bytes" where "failed = reply ''-103''"

text \<open>The end of the reply of a login and of a verification.\<close>

definition account_reply :: "'j json_lib \<Rightarrow> (string \<times> jnew) list \<Rightarrow> bytes" where
  "account_reply J fs =
     lit ''{\"retcode\":0,\"message\":\"ok\",\"data\":{\"account\":'' @ jl_print J fs @
     lit '',\"device_grant_required\":false,\"realname_operation\":0,\"realperson_required\":false,\"safe_mobile_required\":false}}''"

definition data_reply :: "'j json_lib \<Rightarrow> (string \<times> jnew) list \<Rightarrow> bytes" where
  "data_reply J fs = lit ''{\"retcode\":0,\"message\":\"ok\",\"data\":'' @ jl_print J fs @ lit ''}''"

section \<open>A request\<close>

text \<open>
  What surrounds a request: the libraries, whether the tokeners and the reply object can be allocated,
  the bytes of \<open>getrandom\<close>, and the time.
\<close>

record ('j, 'd) web =
  wb_json :: "'j json_lib"
  wb_store :: "'d store_lib"
  wb_tokener :: bool
  wb_tokener2 :: bool
  wb_object :: bool
  wb_random :: bytes
  wb_now :: u64

definition parse_request ::
  "('j, 'd) web \<Rightarrow> bytes \<times> bytes \<times> bytes \<times> bytes \<Rightarrow> bytes option \<Rightarrow> bytes + 'j" where
  "parse_request W msgs post =
     (case msgs of (no_post, no_tokener, no_json, no_object) \<Rightarrow>
       (case post of
          None \<Rightarrow> Inl no_post
        | Some s \<Rightarrow>
            if \<not> wb_tokener W then Inl no_tokener
            else case jl_parse (wb_json W) (c_str s) of
                   None \<Rightarrow> Inl no_json
                 | Some j \<Rightarrow> if jl_is_object (wb_json W) j then Inr j else Inl no_object))"

definition login_messages :: "bytes \<times> bytes \<times> bytes \<times> bytes" where
  "login_messages =
     (failed ''Login failure: `post` is NULL'', failed ''Login failure: unable to allocate JSON tokener'',
      refused ''Login failure: error parsing JSON data'', refused ''Login failure: JSON data is not an object'')"

definition no_object_message :: bytes where
  "no_object_message = failed ''Login failure: unable to allocate JSON object''"

section \<open>Login\<close>

text \<open>The account a login names: a guest by its device, another by its name.\<close>

definition login_account ::
  "('j, 'd) web \<Rightarrow> 'j \<Rightarrow> bool \<Rightarrow> bytes option \<Rightarrow> 'd dbgate \<Rightarrow> cpp_fault + bytes + account" where
  "login_account W j guest device g =
     (if guest then
        (case device of
           None \<Rightarrow> Inr (Inl (refused ''Device ID is null''))
         | Some d \<Rightarrow>
             if c_str d = [] then Inr (Inl (refused ''Device ID is empty''))
             else case getAccountByDeviceId (wb_store W) (Some d) g of
                    Inl f \<Rightarrow> Inl f
                  | Inr None \<Rightarrow> Inr (Inl (refused ''Device ID does not exist''))
                  | Inr (Some a) \<Rightarrow> Inr (Inr a))
      else
        (case jl_member (wb_json W) j ''account'' of
           None \<Rightarrow> Inr (Inl (refused ''Username is not set''))
         | Some v \<Rightarrow>
             (case get_string (wb_json W) v of
                None \<Rightarrow> Inr (Inl (refused ''Username is null''))
              | Some u \<Rightarrow>
                  if c_str u = [] then Inr (Inl (refused ''Username is empty''))
                  else case getAccountByUsername (wb_store W) (Some u) g of
                         Inl f \<Rightarrow> Inl f
                       | Inr None \<Rightarrow> Inr (Inl (refused ''Username does not exist''))
                       | Inr (Some a) \<Rightarrow> Inr (Inr a))))"

text \<open>The password has to be there; it is not compared with anything.\<close>

definition handleLogin :: "('j, 'd) web \<Rightarrow> bytes option \<Rightarrow> 'd dbgate \<Rightarrow> cpp_fault + bytes \<times> 'd dbgate" where
  "handleLogin W post g =
     (case parse_request W login_messages post of
        Inl r \<Rightarrow> Inr (r, g)
      | Inr j \<Rightarrow>
          let J = wb_json W;
              guest = opt_boolean J j ''is_guest'';
              device = opt_string J j ''device_id''
          in case login_account W j guest device g of
               Inl f \<Rightarrow> Inl f
             | Inr (Inl r) \<Rightarrow> Inr (r, g)
             | Inr (Inr a) \<Rightarrow>
                 (case jl_member J j ''password'' of
                    None \<Rightarrow> Inr (refused ''Password is not set'', g)
                  | Some v \<Rightarrow>
                      (case get_string J v of
                         None \<Rightarrow> Inr (refused ''Password is null'', g)
                       | Some password \<Rightarrow>
                           let (token, a) = getNewAuthToken (wb_random W) (wb_now W) a;
                               a = (case device of None \<Rightarrow> a | Some d \<Rightarrow> setDeviceId (c_str d) a)
                           in case saveAccount (wb_store W) a g of
                                Inl f \<Rightarrow> Inl f
                              | Inr (_, g) \<Rightarrow>
                                  if \<not> wb_object W then Inr (no_object_message, g)
                                  else if guest
                                  then Inr (data_reply J [(''uid'', J_uint (ucast (ac_aid a))), (''account_type'', J_uint 0)], g)
                                  else Inr (account_reply J
                                         [(''uid'', J_uint (ucast (ac_aid a))), (''name'', J_str (c_str (ac_username a))),
                                          (''email'', J_str (c_str (ac_email a))), (''is_email_verify'', J_bool False),
                                          (''token'', J_str (c_str token)), (''country'', J_str (lit ''ZZ'')),
                                          (''area_code'', J_null)], g))))"

section \<open>Verification\<close>

text \<open>A token member: it must be there and not empty.\<close>

definition token_member :: "'j json_lib \<Rightarrow> 'j \<Rightarrow> string \<Rightarrow> string \<Rightarrow> bytes + bytes" where
  "token_member J j k what =
     (case jl_member J j k of
        None \<Rightarrow> Inl (refused (what @ '' is not set''))
      | Some v \<Rightarrow>
          (case get_string J v of
             None \<Rightarrow> Inl (refused (what @ '' is null''))
           | Some t \<Rightarrow> if c_str t = [] then Inl (refused (what @ '' is empty'')) else Inr (c_str t)))"

text \<open>The account with an id and the current token, as \<open>handleVerify\<close> and \<open>handleActionTicket\<close> check it.\<close>

definition check_token :: "('j, 'd) web \<Rightarrow> 'j \<Rightarrow> string \<Rightarrow> string \<Rightarrow> 'd dbgate \<Rightarrow> bytes + bytes \<times> account" where
  "check_token W j id_key token_key g =
     (case jl_member (wb_json W) j id_key of
        None \<Rightarrow> Inl (refused ''Account ID is not set'')
      | Some v \<Rightarrow>
          (case token_member (wb_json W) j token_key ''Token'' of
             Inl r \<Rightarrow> Inl r
           | Inr token \<Rightarrow>
               (case getAccountByAid (wb_store W) (get_int (wb_json W) v) g of
                  None \<Rightarrow> Inl (refused ''Account ID does not exist'')
                | Some a \<Rightarrow>
                    if strcmp_eq token (ac_auth a) then Inr (token, a)
                    else Inl (refused ''Cached token does not match''))))"

definition handleVerify :: "('j, 'd) web \<Rightarrow> bytes option \<Rightarrow> 'd dbgate \<Rightarrow> bytes" where
  "handleVerify W post g =
     (case parse_request W login_messages post of
        Inl r \<Rightarrow> r
      | Inr j \<Rightarrow>
          (case check_token W j ''uid'' ''token'' g of
             Inl r \<Rightarrow> r
           | Inr (token, a) \<Rightarrow>
               if \<not> wb_object W then no_object_message
               else account_reply (wb_json W)
                 [(''uid'', J_uint (ucast (opt_int (wb_json W) j ''uid''))), (''name'', J_str (c_str (ac_username a))),
                  (''email'', J_str (c_str (ac_email a))), (''is_email_verify'', J_bool False),
                  (''token'', J_str token), (''country'', J_str (lit ''ZZ'')), (''area_code'', J_null)]))"

section \<open>The token of the game client\<close>

text \<open>
  The text of \<open>data\<close> is a JSON document of its own, as long as \<open>json_object_get_string_len\<close> says, which is 0
  for a value that is not a string.
\<close>

definition combo_data :: "('j, 'd) web \<Rightarrow> 'j \<Rightarrow> bytes + 'j" where
  "combo_data W j =
     (case jl_member (wb_json W) j ''data'' of
        Some (Some v) \<Rightarrow>
          if \<not> wb_tokener2 W then Inl (failed ''Login failure: unable to allocate JSON tokener'')
          else (case jl_parse (wb_json W) (take (jl_string_len (wb_json W) v) (jl_string (wb_json W) v)) of
                  None \<Rightarrow> Inl (refused ''Login failure: error parsing JSON data'')
                | Some d \<Rightarrow>
                    if jl_is_object (wb_json W) d then Inr d
                    else Inl (refused ''Login failure: JSON data is not an object''))
      | _ \<Rightarrow> Inl (refused ''Account data is not set''))"

text \<open>The device is read from the account data as a whole: it is the text of that document.\<close>

definition combo_check :: "('j, 'd) web \<Rightarrow> 'j \<Rightarrow> 'j \<Rightarrow> 'd dbgate \<Rightarrow> bytes + account" where
  "combo_check W j d g =
     (case jl_member (wb_json W) d ''uid'' of
        None \<Rightarrow> Inl (refused ''Account ID is not set'')
      | Some v \<Rightarrow>
          let J = wb_json W;
              device = (case jl_member J j ''device'' of None \<Rightarrow> None | Some _ \<Rightarrow> Some (jl_string J d));
              guest = opt_boolean J d ''guest'';
              token = opt_string J d ''token'';
              given = (if guest then
                         (case device of
                            None \<Rightarrow> Some (refused ''Device ID is null'')
                          | Some dv \<Rightarrow> if c_str dv = [] then Some (refused ''Device ID is empty'') else None)
                       else
                         (case token of
                            None \<Rightarrow> Some (refused ''Token is null'')
                          | Some t \<Rightarrow> if c_str t = [] then Some (refused ''Token is empty'') else None))
          in case given of
               Some r \<Rightarrow> Inl r
             | None \<Rightarrow>
                 (case getAccountByAid (wb_store W) (get_int J v) g of
                    None \<Rightarrow> Inl (refused ''Account ID does not exist'')
                  | Some a \<Rightarrow>
                      if \<not> guest \<and> \<not> strcmp_eq (the token) (ac_auth a)
                      then Inl (refused ''Cached token does not match'') else Inr a))"

definition handleCombo :: "('j, 'd) web \<Rightarrow> bytes option \<Rightarrow> 'd dbgate \<Rightarrow> cpp_fault + bytes \<times> 'd dbgate" where
  "handleCombo W post g =
     (case parse_request W login_messages post of
        Inl r \<Rightarrow> Inr (r, g)
      | Inr j \<Rightarrow>
          (case combo_data W j of
             Inl r \<Rightarrow> Inr (r, g)
           | Inr d \<Rightarrow>
               (case combo_check W j d g of
                  Inl r \<Rightarrow> Inr (r, g)
                | Inr a \<Rightarrow>
                    let J = wb_json W; guest = opt_boolean J d ''guest'';
                        (combo, a) = getNewComboToken (wb_random W) a
                    in case saveAccount (wb_store W) a g of
                         Inl f \<Rightarrow> Inl f
                       | Inr (_, g) \<Rightarrow>
                           if \<not> wb_object W then Inr (no_object_message, g)
                           else Inr (data_reply J
                             [(''combo_token'', J_str (c_str combo)), (''open_id'', J_uint (ucast (opt_int J d ''uid''))),
                              (''account_type'', J_int (if guest then 0 else 1)),
                              (''data'', J_str (lit (if guest then ''{\"guest\":true}'' else ''{\"guest\":false}''))),
                              (''fatigue_remind'', J_null), (''heartbeat'', J_bool False)], g))))"

section \<open>Tickets\<close>

definition handleActionTicket :: "('j, 'd) web \<Rightarrow> bytes option \<Rightarrow> 'd dbgate \<Rightarrow> cpp_fault + bytes \<times> 'd dbgate" where
  "handleActionTicket W post g =
     (case parse_request W login_messages post of
        Inl r \<Rightarrow> Inr (r, g)
      | Inr j \<Rightarrow>
          (case check_token W j ''account_id'' ''game_token'' g of
             Inl r \<Rightarrow> Inr (r, g)
           | Inr (_, a) \<Rightarrow>
               let (ticket, a) = getNewBinderToken (wb_random W) (wb_now W) a;
                   r = lit ''{\"retcode\":0,\"message\":\"ok\",\"data\":{\"ticket\":\"'' @ ticket @ lit ''\"}}''
               in map_sum id (\<lambda>(_, g). (r, g)) (saveAccount (wb_store W) a g)))"

text \<open>
  The names are cut to empty strings; \<open>json_object_new_string\<close> takes the length of its argument, so that a
  name that is missing is a null pointer used.
\<close>

definition handleBindRealname :: "('j, 'd) web \<Rightarrow> bytes option \<Rightarrow> 'd dbgate \<Rightarrow> cpp_fault + bytes \<times> 'd dbgate" where
  "handleBindRealname W post g =
     (case parse_request W login_messages post of
        Inl r \<Rightarrow> Inr (r, g)
      | Inr j \<Rightarrow>
          (case token_member (wb_json W) j ''action_ticket'' ''Binder token'' of
             Inl r \<Rightarrow> Inr (r, g)
           | Inr ticket \<Rightarrow>
               (case b64dec ticket of
                  None \<Rightarrow> Inl Out_of_bounds
                | Some bnd \<Rightarrow>
                    (case getAccountByBinderToken (wb_store W) (Some bnd) g of
                       Inl f \<Rightarrow> Inl f
                     | Inr None \<Rightarrow> Inr (refused ''Binder token is invalid or account does not exist'', g)
                     | Inr (Some a) \<Rightarrow>
                         let J = wb_json W;
                             realname = map_option (\<lambda>_. []) (opt_string J j ''realname'');
                             id_number = map_option (\<lambda>_. []) (opt_string J j ''identity_card'');
                             a = setBinderTokenTimestamp 0 a
                         in case saveAccount (wb_store W) a g of
                              Inl f \<Rightarrow> Inl f
                            | Inr (_, g) \<Rightarrow>
                                if \<not> wb_object W then Inr (no_object_message, g)
                                else case (realname, id_number) of
                                       (Some r, Some i) \<Rightarrow>
                                         Inr (data_reply J
                                           [(''name'', J_str (c_str (ac_username a))), (''email'', J_str (c_str (ac_email a))),
                                            (''realname'', J_str r), (''identity_card'', J_str i)], g)
                                     | _ \<Rightarrow> Inl Null_pointer))))"

section \<open>The log of the clients\<close>

definition log_messages :: "bytes \<times> bytes \<times> bytes \<times> bytes" where
  "log_messages =
     (reply ''-1'' ''Error: `post` is NULL'', reply ''-1'' ''Error: unable to allocate JSON tokener'',
      reply ''-1'' ''Error parsing JSON data'', reply ''-1'' ''Error: JSON data is not an object'')"

text \<open>The line for the error stream: address, message, codes and kind; a message without a kind loses the address.\<close>

definition handleClientLog ::
  "('j, 'd) web \<Rightarrow> bytes option \<Rightarrow> bytes \<times> (bytes \<times> bytes \<times> u32 \<times> u32 \<times> u32 \<times> bytes option) option" where
  "handleClientLog W post =
     (case parse_request W log_messages post of
        Inl r \<Rightarrow> (r, None)
      | Inr j \<Rightarrow>
          let J = wb_json W;
              ip = opt_string J j ''clientIp''; kind = opt_string J j ''logType'';
              uid = opt_int J j ''uid''; ec = opt_int J j ''errorCodeToPlatform''; sub = opt_int J j ''subErrorCode'';
              msg = opt_string J j ''logStr''
          in if jl_member J j ''logStr'' = None \<and> ec = 0 then (reply ''-1'' ''Error: logStr is not set'', None)
             else if ec = 0 \<and> msg = None then (reply ''-1'' ''Error: logStr is null'', None)
             else if ec = 0 \<and> c_str (the msg) = [] then (reply ''-1'' ''Error: logStr is empty'', None)
             else
               let msg = (case msg of None \<Rightarrow> lit ''<null>'' | Some m \<Rightarrow> c_str m);
                   ip = (case ip of None \<Rightarrow> lit ''<null>'' | Some i \<Rightarrow> c_str i);
                   ip = (if kind = None then lit ''Unspecified'' else ip)
               in (reply ''0'' ''ok'', Some (ip, msg, - ec, sub, uid, kind)))"

end
