(* ===== verification/Region_Config.thy ===== *)
theory Region_Config
  imports C_String
begin

text \<open>
  The configuration of the region (\<open>include/runconfig.h\<close>), as the dispatch server and the answer to a login
  use it. A null string is \<^term>\<open>None\<close>. In \<open>rg_urls\<close> are the nine addresses in the order of the code:
  feedback, bulletin, handbook, community, user centre, privacy policy, account binding, keys and payment.
\<close>

section \<open>The configuration\<close>

record region_entry =
  re_name :: "bytes option"
  re_type :: "bytes option"
  re_title :: "bytes option"
  re_url :: "bytes option"
  re_version :: "bytes option"

record res_config =
  rc_resource_url :: "bytes option"
  rc_data_url :: "bytes option"
  rc_resource_bak :: "bytes option"
  rc_resource_next :: "bytes option"
  rc_data_bak :: "bytes option"
  rc_resource_suffix :: "bytes option"
  rc_data_suffix :: "bytes option"
  rc_silence_suffix :: "bytes option"
  rc_branch :: "bytes option"
  rc_script_version :: "bytes option"
  rc_res_version :: u32
  rc_data_version :: u32
  rc_silence_version :: u32
  rc_resource_res :: "bytes option"
  rc_data_res :: "bytes option"
  rc_silence_res :: "bytes option"
  rc_relogin :: bool
  rc_total_size :: "bytes option"

record stop_server =
  st_start :: u64
  st_end :: u64
  st_url :: "bytes option"
  st_msg :: "bytes option"

record region_config =
  rg_ip :: "bytes option"
  rg_port :: u16
  rg_is_domain :: bool
  rg_urls :: "bytes option list"
  rg_res :: "res_config option"
  rg_next :: "res_config option"
  rg_biz :: "bytes option"
  rg_area :: "bytes option"
  rg_update_url :: "bytes option"
  rg_custom :: "bytes option"
  rg_client_custom :: "bytes option"
  rg_send :: u32
  rg_stop :: "stop_server option"

section \<open>Versions in messages\<close>

text \<open>An empty field of a message is the empty string.\<close>

record pb_version =
  pv_version :: u32
  pv_suffix :: bytes
  pv_md5 :: bytes
  pv_branch :: bytes
  pv_total :: bytes
  pv_relogin :: bool
  pv_script :: bytes

definition text_of :: "bytes option \<Rightarrow> bytes" where
  "text_of s = (case s of None \<Rightarrow> [] | Some b \<Rightarrow> c_str b)"

definition version_message :: "res_config \<Rightarrow> bytes \<Rightarrow> pb_version" where
  "version_message c script =
     \<lparr>pv_version = rc_res_version c, pv_suffix = text_of (rc_resource_suffix c), pv_md5 = text_of (rc_resource_res c),
      pv_branch = text_of (rc_branch c), pv_total = text_of (rc_total_size c), pv_relogin = rc_relogin c, pv_script = script\<rparr>"

end
