(* ===== verification/Login.thy ===== *)
theory Login
  imports Db_Gate Session Region_Config
begin

text \<open>
  How a game client signs on to a session: \<open>handleGetPlayerTokenReq\<close> of \<open>src/packets/player_token.cpp\<close> and
  \<open>handlePlayerLoginReq\<close> of \<open>src/packets/player_login.cpp\<close>. The protobuf messages of the protocol are read
  and written by functions of the environment.
\<close>

section \<open>A connection\<close>

text \<open>A session together with the player and the account its pointers lead to.\<close>

record connection =
  cn_session :: session
  cn_player :: "player option"
  cn_account :: "account option"

text \<open>What a handler leaves: its return value, datagrams sent, the uids whose session is closed with 4, and the state.\<close>

record 'd handled =
  hd_ret :: int
  hd_out :: "bytes list"
  hd_kicked :: "u32 list"
  hd_conn :: connection
  hd_gate :: "'d dbgate"

definition close_with :: "u32 \<Rightarrow> connection \<Rightarrow> 'd dbgate \<Rightarrow> 'd handled" where
  "close_with reason c g =
     (let (out, s) = session_close reason (cn_session c)
      in \<lparr>hd_ret = -1, hd_out = out, hd_kicked = [], hd_conn = \<lparr>cn_session = s, cn_player = None, cn_account = None\<rparr>,
          hd_gate = g\<rparr>)"

definition give_up :: "connection \<Rightarrow> 'd dbgate \<Rightarrow> 'd handled" where
  "give_up c g = \<lparr>hd_ret = -1, hd_out = [], hd_kicked = [], hd_conn = c, hd_gate = g\<rparr>"

section \<open>Who is in the game\<close>

text \<open>\<open>Gameserver::getSessionByUid\<close>: the first session whose player has the uid; entries are not checked for being empty.\<close>

primrec session_by_uid :: "u32 \<Rightarrow> connection option list \<Rightarrow> cpp_fault + connection option" where
  "session_by_uid uid [] = Inr None"
| "session_by_uid uid (e # es) =
     (case e of
        None \<Rightarrow> Inl Null_pointer
      | Some c \<Rightarrow>
          (case cn_player c of
             None \<Rightarrow> session_by_uid uid es
           | Some pl \<Rightarrow> if pl_uid pl = uid then Inr (Some c) else session_by_uid uid es))"

definition getSessionByUid :: "u32 \<Rightarrow> connection option list option \<Rightarrow> cpp_fault + connection option" where
  "getSessionByUid uid slots = (case slots of None \<Rightarrow> Inr None | Some l \<Rightarrow> session_by_uid uid l)"

section \<open>The environment\<close>

text \<open>
  The fields of the answers that are not constants, the parsers and the serialisers of the messages, what
  loading players needs, the session table, the time in milliseconds, the number drawn for the
  session key, and what \<open>sendPacket\<close> uses.
\<close>

record token_rsp =
  tr_uid :: u32
  tr_token :: bytes
  tr_seed :: u64
  tr_cmd_buffer :: bytes

record pb_login =
  lw_data_version :: u32
  lw_suffix :: bytes
  lw_md5 :: bytes
  lw_silence_version :: u32
  lw_silence_suffix :: bytes
  lw_silence_md5 :: bytes
  lw_relogin :: bool
  lw_res :: "pb_version option"
  lw_next_url :: bytes
  lw_next :: "pb_version option"

record 'd login_env =
  le_store :: "'d store_lib"
  le_players :: player_env
  le_avatars :: avatar_env
  le_token_req :: "bytes \<Rightarrow> (bytes \<times> bytes) option"
  le_token_rsp :: "token_rsp \<Rightarrow> bytes option"
  le_login_req :: "bytes \<Rightarrow> bytes option"
  le_login_rsp :: "pb_login \<Rightarrow> bytes option"
  le_config :: "region_config option"
  le_sessions :: "connection option list option"
  le_ms :: u64
  le_header :: "u32 \<Rightarrow> u64 \<Rightarrow> bytes option"
  le_seed :: u64
  le_secret :: bytes
  le_malloc :: "nat \<Rightarrow> ikcpseg option"
  le_dispatch :: "bytes option"
  le_buffer :: bytes

section \<open>GetPlayerTokenReq\<close>

definition GetPlayerTokenRsp :: u16 where "GetPlayerTokenRsp = 102"
definition PlayerLoginRsp :: u16 where "PlayerLoginRsp = 104"

text \<open>
  The account a request names and proves: the id is a number in text, and the stored token has to be a
  prefix of the one sent. A refusal is a reason to close the session with.
\<close>

definition token_account :: "'d store_lib \<Rightarrow> bytes \<Rightarrow> bytes \<Rightarrow> 'd dbgate \<Rightarrow> u32 + u32 \<times> account" where
  "token_account L aid_str token g =
     (let (v, used, _) = strtoul aid_str 0
      in if used = 0 then Inl 12
         else case getAccountByAid L (ucast v) g of
                None \<Rightarrow> Inl 7
              | Some a \<Rightarrow>
                  if ac_combo a = [] then Inl 8
                  else if \<not> strncmp_eq (ac_combo a) token (length (ac_combo a)) then Inl 7
                  else Inr (ucast v, a))"

text \<open>
  The player of an account, a new one with that account if it has none. \<^term>\<open>None\<close> is the search for a uid
  that does not end.
\<close>

definition account_player ::
  "'d login_env \<Rightarrow> u32 \<Rightarrow> account \<Rightarrow> 'd dbgate \<Rightarrow> (cpp_fault + player \<times> u32 list \<times> 'd dbgate) option" where
  "account_player E aid a g =
     (case getPlayerByAid (le_store E) (le_players E) aid g of
        Inl f \<Rightarrow> Some (Inl f)
      | Inr (Some pl) \<Rightarrow>
          Some (map_sum id (\<lambda>old. (pl, if old = None then [] else [pl_uid pl], g))
            (getSessionByUid (pl_uid pl) (le_sessions E)))
      | Inr None \<Rightarrow>
          (case newPlayer (le_store E) (le_players E) g of
             None \<Rightarrow> None
           | Some (Inl f) \<Rightarrow> Some (Inl f)
           | Some (Inr (pl, g)) \<Rightarrow>
               let pl = setAccount (Some (ac_aid a)) pl
               in Some (map_sum id (\<lambda>(_, g). (pl, [], g))
                    (saveToDb (le_store E) (le_avatars E) (pe_now (le_players E)) pl g))))"

definition answer_token ::
  "'d login_env \<Rightarrow> mt_state \<Rightarrow> connection \<Rightarrow> account \<Rightarrow> player \<Rightarrow> u32 list \<Rightarrow> 'd dbgate \<Rightarrow> cpp_fault + 'd handled \<times> mt_state" where
  "answer_token E m c a pl kicked g =
     (let s = (cn_session c)\<lparr>ss_player := True\<rparr>;
          (s, m) = generateSessionKey (le_seed E) s m;
          s = setState S_LOGIN_WAIT (setUseSecretKey 1 s);
          rsp = \<lparr>tr_uid = pl_uid pl, tr_token = ac_combo a, tr_seed = ss_seed s, tr_cmd_buffer = take 32 (le_secret E)\<rparr>;
          done = (\<lambda>r s. (\<lparr>hd_ret = r, hd_out = [], hd_kicked = kicked,
                          hd_conn = \<lparr>cn_session = s, cn_player = Some pl, cn_account = Some a\<rparr>, hd_gate = g\<rparr>, m))
      in case le_token_rsp E rsp of
           None \<Rightarrow> Inr (done (-1) s)
         | Some data \<Rightarrow>
             let (seq, s) = nextSeq s;
                 p = snd (buildHeader (le_header E) (le_ms E) seq (new_packet GetPlayerTokenRsp));
                 p = setUseDispatchKey 1 (setPacketData data p)
             in map_sum id (\<lambda>(r, s). done r s) (sendPacket (le_malloc E) (le_dispatch E) (le_buffer E) p s))"

definition handleGetPlayerTokenReq ::
  "'d login_env \<Rightarrow> bytes \<Rightarrow> connection \<Rightarrow> 'd dbgate \<Rightarrow> mt_state \<Rightarrow> (cpp_fault + 'd handled \<times> mt_state) option" where
  "handleGetPlayerTokenReq E data c g m =
     (if ss_state (cn_session c) \<noteq> S_TOKEN_WAIT then Some (Inr (give_up c g, m))
      else case le_token_req E data of
             None \<Rightarrow> Some (Inr (give_up c g, m))
           | Some (aid_str, token) \<Rightarrow>
               (case token_account (le_store E) aid_str token g of
                  Inl reason \<Rightarrow> Some (Inr (close_with reason c g, m))
                | Inr (aid, a) \<Rightarrow>
                    (case account_player E aid a g of
                       None \<Rightarrow> None
                     | Some (Inl f) \<Rightarrow> Some (Inl f)
                     | Some (Inr (pl, kicked, g)) \<Rightarrow> Some (answer_token E m c a pl kicked g))))"

section \<open>PlayerLoginReq\<close>

text \<open>
  The answer carries the versions of the configuration; \<open>le_config\<close> is its region part, \<^term>\<open>None\<close> when it or
  the configuration is missing.
\<close>

definition no_versions :: pb_login where
  "no_versions =
     \<lparr>lw_data_version = 0, lw_suffix = [], lw_md5 = [], lw_silence_version = 0, lw_silence_suffix = [],
      lw_silence_md5 = [], lw_relogin = False, lw_res = None, lw_next_url = [], lw_next = None\<rparr>"

definition login_res :: "res_config option \<Rightarrow> pb_login \<Rightarrow> pb_login" where
  "login_res c r =
     (case c of
        None \<Rightarrow> r
      | Some c \<Rightarrow>
          r\<lparr>lw_data_version := rc_data_version c, lw_suffix := text_of (rc_data_suffix c),
            lw_md5 := text_of (rc_data_res c), lw_silence_version := rc_silence_version c,
            lw_silence_suffix := text_of (rc_silence_suffix c), lw_silence_md5 := text_of (rc_silence_res c),
            lw_relogin := rc_relogin c, lw_res := Some ((version_message c [])\<lparr>pv_relogin := False\<rparr>)\<rparr>)"

definition login_next :: "res_config option \<Rightarrow> pb_login \<Rightarrow> pb_login" where
  "login_next c r =
     (case c of
        None \<Rightarrow> r
      | Some c \<Rightarrow> r\<lparr>lw_next_url := text_of (rc_resource_url c),
                    lw_next := Some (version_message c (text_of (rc_script_version c)))\<rparr>)"

definition login_answer :: "region_config option \<Rightarrow> pb_login" where
  "login_answer cf =
     (case cf of None \<Rightarrow> no_versions | Some cf \<Rightarrow> login_next (rg_next cf) (login_res (rg_res cf) no_versions))"

text \<open>\<open>on_login\<close> is \<open>Player::onLogin\<close>.\<close>

definition handlePlayerLoginReq ::
  "'d login_env \<Rightarrow> (connection \<Rightarrow> cpp_fault + connection) \<Rightarrow> bytes \<Rightarrow> connection \<Rightarrow> 'd dbgate \<Rightarrow> cpp_fault + 'd handled" where
  "handlePlayerLoginReq E on_login data c g =
     (if ss_state (cn_session c) \<noteq> S_LOGIN_WAIT then Inr (give_up c g)
      else case le_login_req E data of
             None \<Rightarrow> Inr (give_up c g)
           | Some token \<Rightarrow>
               (case cn_account c of
                  None \<Rightarrow> Inr (close_with 7 c g)
                | Some a \<Rightarrow>
                    if ac_combo a = [] then Inr (close_with 8 c g)
                    else if \<not> strncmp_eq (ac_combo a) token (length (ac_combo a)) then Inr (close_with 7 c g)
                    else if cn_player c = None then Inr (close_with 12 c g)
                    else
                      case le_login_rsp E (login_answer (le_config E)) of
                        None \<Rightarrow> Inr (give_up c g)
                      | Some rsp \<Rightarrow>
                          let p = snd (buildHeader (le_header E) (le_ms E) 1 (new_packet PlayerLoginRsp));
                              p = setUseDispatchKey 1 (setPacketData rsp p);
                              leave = (\<lambda>r c. \<lparr>hd_ret = r, hd_out = [], hd_kicked = [], hd_conn = c, hd_gate = g\<rparr>)
                          in case sendPacket (le_malloc E) (le_dispatch E) (le_buffer E) p (cn_session c) of
                               Inl f \<Rightarrow> Inl f
                             | Inr (r, s) \<Rightarrow>
                                 if r = 0 then map_sum id (leave r) (on_login (c\<lparr>cn_session := s\<rparr>))
                                 else Inr (leave r (c\<lparr>cn_session := s\<rparr>))))"

end
