(* ===== verification/Db_Props.thy ===== *)
theory Db_Props
  imports Db_Gate
begin

unbundle bit_operations_syntax

text \<open>
  What the storage layer promises: the laws of the libraries below it, a sound database, and the
  account layer as a map from account ids to messages.
\<close>

section \<open>Keys\<close>

lemma htobe32_inj: "htobe32 a = htobe32 b \<longleftrightarrow> a = b"
  by (metis htobe_twice(2))

lemma store_word_inj: "store_le 4 (htobe32 a) = store_le 4 (htobe32 b) \<longleftrightarrow> a = b"
  by (metis htobe32_inj load_store_le [of _ 4] len_of_numeral_defs(2,3) order_refl htobe_twice(2)
      store_htobe(2) htobe32_def rev_rev_ident)

lemma ldb_key_inj: "ldb_key (a # as) = ldb_key (b # bs) \<longleftrightarrow> a = b \<and> ldb_key as = ldb_key bs"
  by (simp add: ldb_key_def store_word_inj append_eq_append_conv)

lemma ldb_key_Nil [simp]: "ldb_key [] = []" by (simp add: ldb_key_def)

lemma length_ldb_key: "length (ldb_key ws) = 4 * length ws"
  by (induction ws) (simp_all add: ldb_key_def)

lemma key_type_key: "key_type (ldb_key (a # as)) = Some (htobe32 a)"
proof -
  have "take 4 (ldb_key (a # as)) = store_le 4 (htobe32 a)" by (simp add: ldb_key_def)
  then show ?thesis
    by (simp add: key_type_def c_str_read_long length_ldb_key load_store_le)
qed

lemma key_types: "htobe32 ACCOUNT \<noteq> htobe32 PLAYER" "htobe32 ACCOUNT \<noteq> htobe32 INVENTORY"
  by (simp_all only: htobe32_inj ACCOUNT_def PLAYER_def INVENTORY_def) simp_all

lemma ids_key_type: "key_type (lit ''nextID'') = Some 0x7478656e" "length (lit ''nextID'') = 6"
  by code_simp+

lemma account_type_value: "htobe32 ACCOUNT = 0x1000000"
  by code_simp

section \<open>The laws of the libraries\<close>

text \<open>
  The database answers with what was last put under a key and its iterator shows what is there. Writing
  succeeds, and no key is listed with an empty value: a database that is full or was written to by another
  program is outside the properties that rest on these laws. A message of an account with an id is not empty and is read back when its strings are
  valid text, as protobuf demands of \<open>string\<close> fields; \<open>u\<close> says which strings are.
\<close>

definition texts_ok :: "(bytes \<Rightarrow> bool) \<Rightarrow> pb_account \<Rightarrow> bool" where
  "texts_ok u p \<longleftrightarrow> list_all u [pc_username p, pc_email p, pc_password p, pc_device p, pc_real_name p, pc_id_number p]"

definition store_laws :: "(bytes \<Rightarrow> bool) \<Rightarrow> 'd store_lib \<Rightarrow> bool" where
  "store_laws u L \<longleftrightarrow>
     (\<forall>k v d. fst (sl_put L k v d)
        \<and> (\<forall>k'. sl_get L k' (snd (sl_put L k v d)) = (if k' = k then v else sl_get L k' d)))
   \<and> (\<forall>k d. fst (sl_delete L k d)
        \<and> (\<forall>k'. sl_get L k' (snd (sl_delete L k d)) = (if k' = k then [] else sl_get L k' d)))
   \<and> (\<forall>d k v. (k, v) \<in> set (sl_iterate L d) \<longleftrightarrow> v \<noteq> [] \<and> sl_get L k d = v)
   \<and> (\<forall>p. texts_ok u p \<and> pc_id p \<noteq> 0 \<longrightarrow>
        (\<exists>b. ser_account L p = Some b \<and> b \<noteq> [] \<and> parse_account L b = Some p))"

section \<open>The account layer as a map\<close>

definition stored :: "'d store_lib \<Rightarrow> 'd dbgate \<Rightarrow> u32 \<Rightarrow> pb_account option" where
  "stored L g aid =
     (let v = getLdbObject L (ldb_key [ACCOUNT, aid]) g in if v = [] then None else parse_account L v)"

text \<open>
  A sound database: keys are long enough to have a type, and what has the type of an account is a
  message under the key of its id.
\<close>

definition db_sound :: "(bytes \<Rightarrow> bool) \<Rightarrow> 'd store_lib \<Rightarrow> 'd dbgate \<Rightarrow> bool" where
  "db_sound u L g \<longleftrightarrow>
     (\<forall>(k, v) \<in> set (sl_iterate L (dg_db g)).
        3 \<le> length k \<and>
        (key_type k = Some (htobe32 ACCOUNT) \<longrightarrow>
           (\<exists>p. parse_account L v = Some p \<and> k = ldb_key [ACCOUNT, pc_id p] \<and> pc_id p \<noteq> 0 \<and> texts_ok u p)))"

lemma lookup_stored: "getAccountByAid L aid g = map_option account_of_pb (stored L g aid)"
  by (simp add: getAccountByAid_def stored_def Let_def)

lemma stored_sound:
  assumes "store_laws u L" "db_sound u L g" "stored L g aid = Some p"
  shows "pc_id p = aid" "aid \<noteq> 0" "texts_ok u p" "(ldb_key [ACCOUNT, aid], getLdbObject L (ldb_key [ACCOUNT, aid]) g) \<in> set (sl_iterate L (dg_db g))"
proof -
  let ?v = "getLdbObject L (ldb_key [ACCOUNT, aid]) g"
  have v: "?v \<noteq> []" "parse_account L ?v = Some p" using assms(3) by (auto simp: stored_def Let_def split: if_splits)
  then show mem: "(ldb_key [ACCOUNT, aid], ?v) \<in> set (sl_iterate L (dg_db g))"
    using assms(1) by (simp add: store_laws_def getLdbObject_def)
  then have "ldb_key [ACCOUNT, aid] = ldb_key [ACCOUNT, pc_id p] \<and> pc_id p \<noteq> 0 \<and> texts_ok u p"
    using assms(2) v(2) by (fastforce simp: db_sound_def key_type_key)
  then show "pc_id p = aid" "aid \<noteq> 0" "texts_ok u p" by (auto simp: ldb_key_inj)
qed

text \<open>A search by a member: it never reads outside a key, finds an account that has the value, and misses none.\<close>

lemma search_outcome:
  assumes "\<forall>(k, v) \<in> set es. 3 \<le> length k"
  shows "\<exists>r. search_accounts L hit es = Inr r \<and>
    (case r of
       None \<Rightarrow> \<forall>(k, v) \<in> set es. key_type k = Some (htobe32 ACCOUNT) \<longrightarrow> (\<forall>p. parse_account L v = Some p \<longrightarrow> \<not> hit p)
     | Some a \<Rightarrow> \<exists>(k, v) \<in> set es. key_type k = Some (htobe32 ACCOUNT)
                   \<and> (\<exists>p. parse_account L v = Some p \<and> hit p \<and> a = account_of_pb p))"
  using assms
proof (induction es)
  case (Cons e es)
  obtain k v where e: "e = (k, v)" by (rule prod.exhaust)
  have "3 \<le> length k" using Cons.prems e by simp
  then obtain t where t: "key_type k = Some t"
    by (cases "key_type k") (auto simp: key_type_def c_str_read_def split: if_splits)
  have rest: "\<forall>(k, v) \<in> set es. 3 \<le> length k" using Cons.prems by simp
  show ?case
    using t Cons.IH [OF rest] by (cases "parse_account L v") (auto simp: e split: option.splits)
qed simp

lemma find_outcome:
  assumes "store_laws u L" "db_sound u L g"
  shows "\<exists>r. getAccountBy L m (Some s) g = Inr r \<and>
    (case r of
       None \<Rightarrow> \<forall>aid p. stored L g aid = Some p \<longrightarrow> m p \<noteq> c_str s
     | Some a \<Rightarrow> \<exists>aid p. stored L g aid = Some p \<and> m p = c_str s \<and> a = account_of_pb p)"
proof -
  let ?es = "sl_iterate L (dg_db g)"
  have len: "\<forall>(k, v) \<in> set ?es. 3 \<le> length k" using assms(2) by (auto simp: db_sound_def)
  obtain r where r: "getAccountBy L m (Some s) g = Inr r"
    "case r of
       None \<Rightarrow> \<forall>(k, v) \<in> set ?es. key_type k = Some (htobe32 ACCOUNT) \<longrightarrow> (\<forall>p. parse_account L v = Some p \<longrightarrow> m p \<noteq> c_str s)
     | Some a \<Rightarrow> \<exists>(k, v) \<in> set ?es. key_type k = Some (htobe32 ACCOUNT)
                   \<and> (\<exists>p. parse_account L v = Some p \<and> m p = c_str s \<and> a = account_of_pb p)"
    using search_outcome [OF len, of L "\<lambda>p. m p = c_str s"] by (auto simp: getAccountBy_def)
  have "case r of
       None \<Rightarrow> \<forall>aid p. stored L g aid = Some p \<longrightarrow> m p \<noteq> c_str s
     | Some a \<Rightarrow> \<exists>aid p. stored L g aid = Some p \<and> m p = c_str s \<and> a = account_of_pb p"
  proof (cases r)
    case None
    then show ?thesis
      using r(2) stored_sound(4) [OF assms]
      by (fastforce simp: key_type_key stored_def Let_def split: if_splits)
  next
    case (Some a)
    then obtain k v p where kv: "(k, v) \<in> set ?es" "key_type k = Some (htobe32 ACCOUNT)" "parse_account L v = Some p"
      "m p = c_str s" "a = account_of_pb p" using r(2) by auto
    have "k = ldb_key [ACCOUNT, pc_id p]" using kv(1-3) assms(2) by (fastforce simp: db_sound_def)
    moreover have "v \<noteq> []" "sl_get L k (dg_db g) = v" using assms(1) kv(1) by (auto simp: store_laws_def)
    ultimately have "stored L g (pc_id p) = Some p" using kv(3) by (simp add: stored_def getLdbObject_def)
    then show ?thesis using Some kv(4,5) by auto
  qed
  with r(1) show ?thesis by blast
qed

section \<open>Writing\<close>

lemma put_outcome:
  assumes "store_laws u L"
  obtains d where "setLdbObject L k v g = (0, g\<lparr>dg_db := d\<rparr>)"
    "\<And>k'. getLdbObject L k' (g\<lparr>dg_db := d\<rparr>) = (if k' = k then v else getLdbObject L k' g)"
proof
  let ?d = "snd (sl_put L k v (dg_db g))"
  have "fst (sl_put L k v (dg_db g))"
    and get: "sl_get L k' ?d = (if k' = k then v else sl_get L k' (dg_db g))" for k'
    using assms by (simp_all add: store_laws_def)
  then show "setLdbObject L k v g = (0, g\<lparr>dg_db := ?d\<rparr>)"
    by (simp add: setLdbObject_def case_prod_beta)
  show "getLdbObject L k' (g\<lparr>dg_db := ?d\<rparr>) = (if k' = k then v else getLdbObject L k' g)" for k'
    using get by (simp add: getLdbObject_def)
qed

text \<open>Putting keeps the database sound when what is put is.\<close>

lemma put_sound:
  assumes "store_laws u L" "db_sound u L g"
    "\<And>k'. getLdbObject L k' (g\<lparr>dg_db := d\<rparr>) = (if k' = k then v else getLdbObject L k' g)"
    "3 \<le> length k"
    "key_type k = Some (htobe32 ACCOUNT) \<Longrightarrow>
       \<exists>p. parse_account L v = Some p \<and> k = ldb_key [ACCOUNT, pc_id p] \<and> pc_id p \<noteq> 0 \<and> texts_ok u p"
  shows "db_sound u L (g\<lparr>dg_db := d\<rparr>)"
proof -
  have it: "(k', v') \<in> set (sl_iterate L d) \<longleftrightarrow> v' \<noteq> [] \<and> sl_get L k' d = v'"
    "(k', v') \<in> set (sl_iterate L (dg_db g)) \<longleftrightarrow> v' \<noteq> [] \<and> sl_get L k' (dg_db g) = v'" for k' v'
    using assms(1) by (simp_all add: store_laws_def)
  have get: "sl_get L k' d = (if k' = k then v else sl_get L k' (dg_db g))" for k'
    using assms(3) by (simp add: getLdbObject_def)
  show ?thesis
    using assms(2,4,5) unfolding db_sound_def Ball_def split_paired_all case_prod_conv it
    by (auto simp: get it split: if_splits)
qed

lemma other_key:
  assumes "key_type k \<noteq> Some (htobe32 ACCOUNT)"
  shows "k \<noteq> ldb_key [ACCOUNT, aid]"
  using assms key_type_key by blast

text \<open>Saving an account is an update of the map, and touches no other key.\<close>

definition storable :: "(bytes \<Rightarrow> bool) \<Rightarrow> account \<Rightarrow> bool" where
  "storable u a \<longleftrightarrow> tokens_ok a \<and> ac_aid a \<noteq> 0 \<and>
     list_all u [ac_username a, ac_email a, ac_password a, ac_device a, ac_real_name a, ac_id_number a]"

lemma save_outcome:
  assumes "store_laws u L" "db_sound u L g" "storable u a"
  obtains p g' where "saveAccount L a g = Inr (0, g')" "account_to_pb a = Inr p"
    "account_of_pb p = a\<lparr>ac_guest := 0, ac_session := None\<rparr>"
    "stored L g' = (stored L g)(ac_aid a \<mapsto> p)" "db_sound u L g'" "dg_ids g' = dg_ids g"
    "\<And>k. k \<noteq> ldb_key [ACCOUNT, ac_aid a] \<Longrightarrow> getLdbObject L k g' = getLdbObject L k g"
proof -
  obtain p where p: "account_to_pb a = Inr p" "account_of_pb p = a\<lparr>ac_guest := 0, ac_session := None\<rparr>"
    using account_stored assms(3) by (metis storable_def)
  have ok: "texts_ok u p" "pc_id p = ac_aid a"
    using p(1) assms(3) by (auto simp: account_to_pb_def texts_ok_def storable_def split: option.splits)
  have "ac_aid a \<noteq> 0" using assms(3) by (simp add: storable_def)
  then obtain b where b: "ser_account L p = Some b" "b \<noteq> []" "parse_account L b = Some p"
    using assms(1) ok by (auto simp: store_laws_def)
  let ?k = "ldb_key [ACCOUNT, ac_aid a]"
  obtain d where d: "setLdbObject L ?k b g = (0, g\<lparr>dg_db := d\<rparr>)"
    "\<And>k'. getLdbObject L k' (g\<lparr>dg_db := d\<rparr>) = (if k' = ?k then b else getLdbObject L k' g)"
    using put_outcome [OF assms(1)] by blast
  have "db_sound u L (g\<lparr>dg_db := d\<rparr>)"
    using put_sound [OF assms(1,2) d(2)] b(3) ok \<open>ac_aid a \<noteq> 0\<close> by (auto simp: length_ldb_key)
  moreover have "stored L (g\<lparr>dg_db := d\<rparr>) = (stored L g)(ac_aid a \<mapsto> p)"
    using b(2,3) by (auto simp: stored_def d(2) ldb_key_inj fun_eq_iff)
  moreover have "saveAccount L a g = Inr (0, g\<lparr>dg_db := d\<rparr>)" using p(1) b(1) d(1) by (simp add: saveAccount_def)
  ultimately show ?thesis using that [of "g\<lparr>dg_db := d\<rparr>" p] p d(2) by simp
qed

text \<open>Putting under another key leaves the map alone.\<close>

lemma put_other:
  assumes "store_laws u L" "db_sound u L g" "3 \<le> length k" "key_type k \<noteq> Some (htobe32 ACCOUNT)"
    "setLdbObject L k v g = (r, g')"
  shows "r = 0" "stored L g' = stored L g" "db_sound u L g'" "dg_ids g' = dg_ids g"
proof -
  obtain d where d: "setLdbObject L k v g = (0, g\<lparr>dg_db := d\<rparr>)"
    "\<And>k'. getLdbObject L k' (g\<lparr>dg_db := d\<rparr>) = (if k' = k then v else getLdbObject L k' g)"
    using put_outcome [OF assms(1)] by blast
  then have g': "r = 0" "g' = g\<lparr>dg_db := d\<rparr>" using assms(5) by simp_all
  show "r = 0" by (rule g')
  show "stored L g' = stored L g"
    using other_key [OF assms(4)] by (auto simp: stored_def g'(2) d(2) fun_eq_iff)
  show "db_sound u L g'"
    unfolding g'(2) by (rule put_sound [OF assms(1,2) d(2) assms(3)]) (use assms(4) in simp)
  show "dg_ids g' = dg_ids g" by (simp add: g'(2))
qed

lemma save_ids_outcome:
  assumes "store_laws u L" "db_sound u L g"
  shows "stored L (snd (dbgate_save L g)) = stored L g" "db_sound u L (snd (dbgate_save L g))"
proof -
  have k: "3 \<le> length (lit ''nextID'')" "key_type (lit ''nextID'') \<noteq> Some (htobe32 ACCOUNT)"
    by (simp_all add: ids_key_type account_type_value)
  show "stored L (snd (dbgate_save L g)) = stored L g" "db_sound u L (snd (dbgate_save L g))"
    using put_other [OF assms k] by (auto simp: dbgate_save_def assms(2) prod_eq_iff split: option.splits)
qed

section \<open>Free ids\<close>

text \<open>The search for a free id ends when there is one; the id is free.\<close>

lemma free_id_ok:
  assumes "\<not> taken j"
  obtains i where "free_id taken s = Some i" "\<not> taken i"
proof -
  have "\<exists>n. \<not> taken (s + of_nat n)" using assms by (intro exI [where x = "unat (j - s)"]) (simp add: of_nat_unat)
  then obtain n where n: "\<not> taken (s + of_nat n)" by blast
  have "\<exists>i. free_id taken s = Some i \<and> \<not> taken i"
    using n
  proof (induction n arbitrary: s)
    case 0
    then show ?case by (simp add: free_id.simps)
  next
    case (Suc n)
    have "\<exists>i. free_id taken (s + 1) = Some i \<and> \<not> taken i" by (rule Suc.IH) (use Suc.prems in \<open>simp add: ac_simps\<close>)
    then show ?case by (cases "taken s") (simp_all add: free_id.simps [of taken s])
  qed
  then show ?thesis using that by blast
qed

end
