(* ===== verification/Sign_On.thy ===== *)
theory Sign_On
  imports Dispatch Login Db_Props
begin

unbundle bit_operations_syntax

text \<open>
  Signing on, from the login at the dispatch server to the token request of the game client: what each
  step accepts, and that a user who exists gets through all of them.
\<close>

section \<open>Replies and strings\<close>

text \<open>A reply that hands something out starts otherwise than a refusal.\<close>

lemma refusal_not_reply [simp]:
  "refused x \<noteq> account_reply J fs" "refused x \<noteq> data_reply J fs" "failed x \<noteq> account_reply J fs"
  "failed x \<noteq> data_reply J fs" "no_object_message \<noteq> account_reply J fs" "no_object_message \<noteq> data_reply J fs"
  by (auto simp: refused_def failed_def reply_def account_reply_def data_reply_def no_object_message_def lit_def
    dest: arg_cong [where f = "\<lambda>l. l ! 11"])

lemma hexchr_not_0: "unat v < 16 \<Longrightarrow> hexchr v \<noteq> 0"
proof
  assume v: "unat v < 16" "hexchr v = 0"
  have "hexval 0 = None" by code_simp
  with hexval_chr [OF v(1)] v(2) show False by simp
qed

lemma hexenc_not_0: "0 \<notin> set (hexenc s)"
proof -
  have "0 \<notin> set (hexenc_loop s [])"
  proof (induction s)
    case (Cons b s)
    have "hexenc_loop (b # s) [] = hexchr (drop_bit 4 b) # hexchr (b AND mask 4) # hexenc_loop s []"
      by (simp add: nibble_high nibble_low) (subst hexenc_loop_append, simp)
    then show ?case using Cons hexchr_not_0 [OF nibble_lt(1)] hexchr_not_0 [OF nibble_lt(2)] by auto
  qed simp
  then show ?thesis by (simp add: hexenc_def)
qed

lemma c_str_tokens [simp]: "c_str (b64enc s) = b64enc s" "c_str (hexenc s) = hexenc s"
proof -
  have "0 \<notin> set b64tbl \<union> {b64pad}" by code_simp
  then have "0 \<notin> set (b64enc s)" using b64_alphabet [of s] by blast
  then show "c_str (b64enc s) = b64enc s" by (rule c_str_plain)
  show "c_str (hexenc s) = hexenc s" by (rule c_str_plain [OF hexenc_not_0])
qed

section \<open>Requests\<close>

text \<open>A post that is a JSON object, with memory for the reply.\<close>

definition request :: "('j, 'd) web \<Rightarrow> bytes option \<Rightarrow> 'j \<Rightarrow> bool" where
  "request W post j \<longleftrightarrow> wb_tokener W \<and> wb_tokener2 W \<and> wb_object W
     \<and> (\<exists>s. post = Some s \<and> jl_parse (wb_json W) (c_str s) = Some j) \<and> jl_is_object (wb_json W) j"

lemma request_parsed: "request W post j \<Longrightarrow> parse_request W msgs post = Inr j"
  by (cases msgs) (auto simp: request_def parse_request_def)

text \<open>A string member with a text in it.\<close>

definition says :: "'j json_lib \<Rightarrow> 'j \<Rightarrow> string \<Rightarrow> bytes \<Rightarrow> bool" where
  "says J j k s \<longleftrightarrow> (\<exists>v. jl_member J j k = Some (Some v) \<and> c_str (jl_string J v) = s)"

definition says_id :: "'j json_lib \<Rightarrow> 'j \<Rightarrow> string \<Rightarrow> u32 \<Rightarrow> bool" where
  "says_id J j k aid \<longleftrightarrow> (\<exists>v. jl_member J j k = Some v \<and> get_int J v = aid)"

lemma token_member_ok: "token_member J j k what = Inr t \<longleftrightarrow> says J j k t \<and> t \<noteq> []"
  by (auto simp: token_member_def says_def get_string_def split: option.splits)

lemma says_once: "says J j k s \<Longrightarrow> says J j k t \<Longrightarrow> s = t"
  by (auto simp: says_def)

lemma token_member_refuses: "token_member J j k what = Inl r \<Longrightarrow> says J j k t \<Longrightarrow> t = []"
  using token_member_ok [of J j k what t] by auto

lemma stored_lookup:
  "getAccountByAid L aid g = Some a \<longleftrightarrow> (\<exists>p. stored L g aid = Some p \<and> a = account_of_pb p)"
  by (auto simp: lookup_stored)

text \<open>What a token check accepts: exactly the token of the account with that id.\<close>

lemma check_token_exact:
  "check_token W j idk tk g = Inr (t, a) \<longleftrightarrow>
     (\<exists>aid p. says_id (wb_json W) j idk aid \<and> stored (wb_store W) g aid = Some p \<and> a = account_of_pb p
        \<and> says (wb_json W) j tk t \<and> t \<noteq> [] \<and> t = b64enc (pc_auth p))"
proof -
  have "c_str t = t" if "says (wb_json W) j tk t" for t using that by (auto simp: says_def)
  moreover have "ac_auth (account_of_pb p) = b64enc (pc_auth p)" for p by (simp add: account_of_pb_def)
  ultimately show ?thesis
    unfolding check_token_def says_id_def lookup_stored strcmp_eq_def
    by (auto simp: token_member_ok split: option.splits sum.splits dest: token_member_refuses says_once)
qed

section \<open>The steps\<close>

lemma login_outcome:
  assumes "store_laws u (wb_store W)" "db_sound u (wb_store W) g" "request W post j"
    "\<not> opt_boolean (wb_json W) j ''is_guest''" "says (wb_json W) j ''account'' name" "name \<noteq> []"
    "says (wb_json W) j ''password'' password"
    "\<And>d. says (wb_json W) j ''device_id'' d \<Longrightarrow> u d"
    "stored (wb_store W) g aid\<^sub>0 = Some p\<^sub>0" "pc_username p\<^sub>0 = name"
  obtains aid p p' fs g' where
    "stored (wb_store W) g aid = Some p" "pc_username p = name"
    "handleLogin W post g = Inr (account_reply (wb_json W) fs, g')"
    "(''uid'', J_uint (ucast aid)) \<in> set fs" "(''token'', J_str (b64enc (take 24 (wb_random W)))) \<in> set fs"
    "stored (wb_store W) g' = (stored (wb_store W) g)(aid \<mapsto> p')" "pc_username p' = name"
    "b64enc (pc_auth p') = b64enc (take 24 (wb_random W))" "db_sound u (wb_store W) g'"
proof -
  let ?L = "wb_store W" and ?J = "wb_json W"
  obtain v where v: "jl_member ?J j ''account'' = Some (Some v)" "c_str (jl_string ?J v) = name"
    using assms(5) by (auto simp: says_def)
  obtain w where w: "jl_member ?J j ''password'' = Some (Some w)" using assms(7) by (auto simp: says_def)
  obtain r where r: "getAccountByUsername ?L (Some (jl_string ?J v)) g = Inr r"
    "case r of None \<Rightarrow> \<forall>aid p. stored ?L g aid = Some p \<longrightarrow> pc_username p \<noteq> c_str (jl_string ?J v)
     | Some a \<Rightarrow> \<exists>aid p. stored ?L g aid = Some p \<and> pc_username p = c_str (jl_string ?J v) \<and> a = account_of_pb p"
    using find_outcome [OF assms(1,2), of pc_username "jl_string ?J v"] by (auto simp: getAccountByUsername_def)
  obtain aid p where p: "r = Some (account_of_pb p)" "stored ?L g aid = Some p" "pc_username p = name"
    using r(2) v(2) assms(9,10) by (cases r) auto
  note sp = stored_sound [OF assms(1,2) p(2)]
  define device where "device = opt_string ?J j ''device_id''"
  define a where "a = (case device of None \<Rightarrow> snd (getNewAuthToken (wb_random W) (wb_now W) (account_of_pb p))
     | Some d \<Rightarrow> setDeviceId (c_str d) (snd (getNewAuthToken (wb_random W) (wb_now W) (account_of_pb p))))"
  have a: "ac_aid a = aid" "ac_username a = name" "ac_auth a = b64enc (take 24 (wb_random W))"
    using sp(1) p(3) by (simp_all add: a_def setDeviceId_def getNewAuthToken_def account_of_pb_def split: option.splits)
  have "u (c_str d)" if "device = Some d" for d
    using that assms(8) by (auto simp: device_def opt_string_def get_string_def says_def split: option.splits)
  then have "storable u a"
    using sp a tokens_ok_of_pb [of p]
    by (auto simp: storable_def texts_ok_def tokens_ok_def a_def setDeviceId_def getNewAuthToken_def account_of_pb_def
        split: option.splits)
  then obtain p' g' where s: "saveAccount ?L a g = Inr (0, g')" "account_of_pb p' = a\<lparr>ac_guest := 0, ac_session := None\<rparr>"
    "stored ?L g' = (stored ?L g)(aid \<mapsto> p')" "db_sound u ?L g'"
    using save_outcome [OF assms(1,2)] a(1) by metis
  have "pc_username p' = ac_username (account_of_pb p')" "b64enc (pc_auth p') = ac_auth (account_of_pb p')"
    by (simp_all add: account_of_pb_def)
  then have p': "pc_username p' = name" "b64enc (pc_auth p') = b64enc (take 24 (wb_random W))"
    using s(2) a by simp_all
  have "login_account W j False device g = Inr (Inr (account_of_pb p))"
    using v r(1) p(1) assms(6) by (simp add: login_account_def get_string_def)
  then have "\<exists>fs. handleLogin W post g = Inr (account_reply ?J fs, g') \<and> (''uid'', J_uint (ucast aid)) \<in> set fs
      \<and> (''token'', J_str (b64enc (take 24 (wb_random W)))) \<in> set fs"
    using assms(3,4) w s(1) a
    by (auto simp: handleLogin_def request_parsed [OF assms(3)] Let_def device_def [symmetric] get_string_def
        getNewAuthToken_def request_def case_prod_beta a_def split: option.splits)
  with p s p' show ?thesis using that by blast
qed

lemma b64enc_Nil [simp]: "b64enc x = [] \<longleftrightarrow> x = []"
proof
  have "length (b64enc x) = 4 * ((length x + 2) div 3)" by (rule b64_length)
  then show "x = []" if "b64enc x = []" using that by (cases x) auto
qed (simp add: b64enc_def)

text \<open>A verification is positive exactly for the current token of an account that has one.\<close>

lemma verify_exact:
  assumes "request W post j"
  shows "(\<exists>fs. handleVerify W post g = account_reply (wb_json W) fs) \<longleftrightarrow>
    (\<exists>aid p. says_id (wb_json W) j ''uid'' aid \<and> stored (wb_store W) g aid = Some p \<and> pc_auth p \<noteq> []
       \<and> says (wb_json W) j ''token'' (b64enc (pc_auth p)))"
proof -
  have "check_token W j ''uid'' ''token'' g = Inl r \<Longrightarrow> r \<noteq> account_reply J fs" for r J fs
    by (auto simp: check_token_def token_member_def split: option.splits sum.splits if_splits)
  then have "(\<exists>fs. handleVerify W post g = account_reply (wb_json W) fs) \<longleftrightarrow>
      (\<exists>t a. check_token W j ''uid'' ''token'' g = Inr (t, a))"
    using assms by (auto simp: handleVerify_def request_parsed [OF assms] request_def split: sum.splits)
  also have "\<dots> \<longleftrightarrow> (\<exists>aid p. says_id (wb_json W) j ''uid'' aid \<and> stored (wb_store W) g aid = Some p
      \<and> b64enc (pc_auth p) \<noteq> [] \<and> says (wb_json W) j ''token'' (b64enc (pc_auth p)))"
    unfolding check_token_exact by blast
  finally show ?thesis by simp
qed

text \<open>
  What the combo step accepts: a guest flag in the account data together with a device, for any account,
  or else the account's token.
\<close>

definition combo_proof :: "('j, 'd) web \<Rightarrow> 'j \<Rightarrow> 'j \<Rightarrow> pb_account \<Rightarrow> bool" where
  "combo_proof W j d p \<longleftrightarrow>
     (if opt_boolean (wb_json W) d ''guest''
      then jl_member (wb_json W) j ''device'' \<noteq> None \<and> c_str (jl_string (wb_json W) d) \<noteq> []
      else pc_auth p \<noteq> [] \<and> says (wb_json W) d ''token'' (b64enc (pc_auth p)))"

lemma combo_check_exact:
  "combo_check W j d g = Inr a \<longleftrightarrow>
     (\<exists>aid p. says_id (wb_json W) d ''uid'' aid \<and> stored (wb_store W) g aid = Some p \<and> a = account_of_pb p
        \<and> combo_proof W j d p)"
proof -
  have "ac_auth (account_of_pb p) = b64enc (pc_auth p)" for p by (simp add: account_of_pb_def)
  then show ?thesis
    unfolding combo_check_def says_id_def lookup_stored combo_proof_def says_def strcmp_eq_def Let_def
    by (auto simp: opt_string_def get_string_def split: option.splits if_splits)
qed

lemma combo_outcome:
  assumes "store_laws u (wb_store W)" "db_sound u (wb_store W) g" "request W post j" "combo_data W j = Inr d"
    "says_id (wb_json W) d ''uid'' aid" "stored (wb_store W) g aid = Some p" "combo_proof W j d p"
  obtains fs p' g' where
    "handleCombo W post g = Inr (data_reply (wb_json W) fs, g')"
    "(''combo_token'', J_str (hexenc (take 16 (wb_random W)))) \<in> set fs"
    "stored (wb_store W) g' = (stored (wb_store W) g)(aid \<mapsto> p')"
    "hexenc (pc_combo p') = hexenc (take 16 (wb_random W))" "b64enc (pc_auth p') = b64enc (pc_auth p)"
    "db_sound u (wb_store W) g'"
proof -
  let ?L = "wb_store W"
  note sp = stored_sound [OF assms(1,2,6)]
  define a where "a = snd (getNewComboToken (wb_random W) (account_of_pb p))"
  have a: "ac_aid a = aid" "ac_combo a = hexenc (take 16 (wb_random W))" "ac_auth a = b64enc (pc_auth p)"
    using sp(1) by (simp_all add: a_def getNewComboToken_def account_of_pb_def)
  have "storable u a"
    using sp a tokens_ok_of_pb [of p]
    by (auto simp: storable_def texts_ok_def tokens_ok_def a_def getNewComboToken_def account_of_pb_def)
  then obtain p' g' where s: "saveAccount ?L a g = Inr (0, g')" "account_of_pb p' = a\<lparr>ac_guest := 0, ac_session := None\<rparr>"
    "stored ?L g' = (stored ?L g)(aid \<mapsto> p')" "db_sound u ?L g'"
    using save_outcome [OF assms(1,2)] a(1) by metis
  have "hexenc (pc_combo p') = ac_combo (account_of_pb p')" "b64enc (pc_auth p') = ac_auth (account_of_pb p')"
    by (simp_all add: account_of_pb_def)
  then have p': "hexenc (pc_combo p') = hexenc (take 16 (wb_random W))" "b64enc (pc_auth p') = b64enc (pc_auth p)"
    using s(2) a by simp_all
  have "combo_check W j d g = Inr (account_of_pb p)"
    unfolding combo_check_exact using assms(5-7) by blast
  then have "\<exists>fs. handleCombo W post g = Inr (data_reply (wb_json W) fs, g')
      \<and> (''combo_token'', J_str (hexenc (take 16 (wb_random W)))) \<in> set fs"
    using assms(3,4) s(1)
    by (auto simp: handleCombo_def request_parsed [OF assms(3)] Let_def getNewComboToken_def request_def a_def)
  with s p' show ?thesis using that by blast
qed

lemma combo_refused:
  assumes "request W post j" "handleCombo W post g = Inr (data_reply (wb_json W) fs, g')"
  obtains d aid p where "combo_data W j = Inr d" "says_id (wb_json W) d ''uid'' aid"
    "stored (wb_store W) g aid = Some p" "combo_proof W j d p"
proof -
  have r: "combo_data W j = Inl r \<Longrightarrow> r \<noteq> data_reply J fs" "combo_check W j d g = Inl r \<Longrightarrow> r \<noteq> data_reply J fs" for r d J fs
    by (auto simp: combo_data_def combo_check_def Let_def split: option.splits if_splits)
  obtain d where d: "combo_data W j = Inr d"
    using assms(2) r(1) by (cases "combo_data W j") (auto simp: handleCombo_def request_parsed [OF assms(1)])
  obtain a where "combo_check W j d g = Inr a"
    using assms(2) r(2) d by (cases "combo_check W j d g") (auto simp: handleCombo_def request_parsed [OF assms(1)])
  with d show ?thesis using that unfolding combo_check_exact by blast
qed

text \<open>What the game server accepts: a number in front, and the stored token in front of the one sent.\<close>

lemma hexenc_Nil [simp]: "hexenc x = [] \<longleftrightarrow> x = []"
  using hexenc_length [of x] by (metis length_0_conv mult_eq_0_iff zero_neq_numeral)

lemma token_account_exact:
  "token_account L aid_str token g = Inr (aid, a) \<longleftrightarrow>
     (\<exists>v n e p. strtoul aid_str 0 = (v, n, e) \<and> n \<noteq> 0 \<and> aid = ucast v \<and> stored L g aid = Some p \<and> a = account_of_pb p
        \<and> pc_combo p \<noteq> [] \<and> take (2 * length (pc_combo p)) (c_str token) = hexenc (pc_combo p))"
proof -
  obtain v n e where s: "strtoul aid_str 0 = (v, n, e)" by (metis prod.exhaust)
  have t: "strncmp_eq (hexenc x) token (length (hexenc x)) \<longleftrightarrow> take (2 * length x) (c_str token) = hexenc x" for x
    by (auto simp: strncmp_eq_def hexenc_length)
  have c: "ac_combo (account_of_pb p) = hexenc (pc_combo p)" for p by (simp add: account_of_pb_def)
  show ?thesis
    unfolding token_account_def s lookup_stored by (auto simp: c t split: option.splits)
qed

lemma combo_accepted:
  assumes "stored L g aid = Some p" "hexenc (pc_combo p) = combo" "combo \<noteq> []"
    "strtoul aid_str 0 = (v, n, e)" "n \<noteq> 0" "ucast v = aid"
  shows "token_account L aid_str combo g = Inr (aid, account_of_pb p)"
  unfolding token_account_exact using assms by (auto simp flip: hexenc_length)

section \<open>Tickets\<close>

text \<open>A text without a character of the alphabet decodes to nothing.\<close>

lemma b64dec_foreign:
  assumes "\<forall>t \<in> set s. b64class t = Foreign"
  shows "b64dec s = Some []"
proof -
  have "b64dec_loop s Idx0 e [] = Some []" for e using assms by (induction s) auto
  then show ?thesis by (simp add: b64dec_def)
qed

lemma bind_foreign:
  assumes "store_laws u (wb_store W)" "db_sound u (wb_store W) g" "request W post j"
    "says (wb_json W) j ''action_ticket'' ticket" "ticket \<noteq> []" "\<forall>t \<in> set ticket. b64class t = Foreign"
    "says (wb_json W) j ''realname'' r" "says (wb_json W) j ''identity_card'' i"
    "stored (wb_store W) g aid\<^sub>0 = Some p\<^sub>0" "pc_bind p\<^sub>0 = []"
  obtains aid p fs g' where "stored (wb_store W) g aid = Some p" "pc_bind p = []"
    "handleBindRealname W post g = Inr (data_reply (wb_json W) fs, g')"
    "(''name'', J_str (c_str (pc_username p))) \<in> set fs" "(''email'', J_str (c_str (pc_email p))) \<in> set fs"
proof -
  let ?L = "wb_store W" and ?J = "wb_json W"
  obtain q where q: "getAccountByBinderToken ?L (Some []) g = Inr q"
    "case q of None \<Rightarrow> \<forall>aid p. stored ?L g aid = Some p \<longrightarrow> pc_bind p \<noteq> c_str []
     | Some a \<Rightarrow> \<exists>aid p. stored ?L g aid = Some p \<and> pc_bind p = c_str [] \<and> a = account_of_pb p"
    using find_outcome [OF assms(1,2), of pc_bind "[]"] by (auto simp: getAccountByBinderToken_def)
  obtain aid p where p: "q = Some (account_of_pb p)" "stored ?L g aid = Some p" "pc_bind p = []"
    using q(2) assms(9,10) by (cases q) auto
  note sp = stored_sound [OF assms(1,2) p(2)]
  define a where "a = setBinderTokenTimestamp 0 (account_of_pb p)"
  have "storable u a"
    using sp tokens_ok_of_pb [of p]
    by (auto simp: storable_def texts_ok_def tokens_ok_def a_def setBinderTokenTimestamp_def account_of_pb_def)
  then obtain g' where s: "saveAccount ?L a g = Inr (0, g')" using save_outcome [OF assms(1,2)] by metis
  have t: "token_member ?J j ''action_ticket'' ''Binder token'' = Inr ticket"
    using assms(4,5) by (simp add: token_member_ok)
  obtain r' i' where "opt_string ?J j ''realname'' = Some r'" "opt_string ?J j ''identity_card'' = Some i'"
    using assms(7,8) by (auto simp: says_def opt_string_def get_string_def)
  then have "\<exists>fs. handleBindRealname W post g = Inr (data_reply ?J fs, g')
      \<and> (''name'', J_str (c_str (pc_username p))) \<in> set fs \<and> (''email'', J_str (c_str (pc_email p))) \<in> set fs"
    using assms(3) t b64dec_foreign [OF assms(6)] q(1) p(1) s
    by (auto simp: handleBindRealname_def request_parsed [OF assms(3)] Let_def request_def a_def
        setBinderTokenTimestamp_def account_of_pb_def)
  with p show ?thesis using that by blast
qed

section \<open>New accounts\<close>

lemma ids_irrelevant [simp]:
  "stored L (g\<lparr>dg_ids := x\<rparr>) = stored L g" "db_sound u L (g\<lparr>dg_ids := x\<rparr>) = db_sound u L g"
  by (simp_all add: stored_def db_sound_def getLdbObject_def fun_eq_iff)

text \<open>The id a new account gets is the first free one; there is one when any id from the counter on is free.\<close>

lemma free_id_least:
  assumes "\<not> taken j" "s \<le> j"
  obtains i where "free_id taken s = Some i" "\<not> taken i" "s \<le> i" "i \<le> j"
proof -
  have "\<exists>i. free_id taken s = Some i \<and> \<not> taken i \<and> s \<le> i \<and> i \<le> j"
    using assms
  proof (induction "unat j - unat s" arbitrary: s rule: less_induct)
    case less
    show ?case
    proof (cases "taken s")
      case True
      then have "s < j" using less.prems by (metis order_le_less)
      then have "unat (s + 1) = Suc (unat s)" by (rule word_suc)
      then have "s + 1 \<le> j" "s \<le> s + 1" "unat j - unat (s + 1) < unat j - unat s"
        using \<open>s < j\<close> by (simp_all add: word_le_nat_alt word_less_nat_alt)
      moreover from this obtain i where "free_id taken (s + 1) = Some i" "\<not> taken i" "s + 1 \<le> i" "i \<le> j"
        using less.hyps [of "s + 1"] less.prems(1) by blast
      ultimately show ?thesis using True by (auto simp: free_id.simps [of taken s])
    next
      case False
      then show ?thesis using less.prems by (auto simp: free_id.simps [of taken s])
    qed
  qed
  then show ?thesis using that by blast
qed

lemma create_outcome:
  assumes "store_laws u L" "db_sound u L g" "u (c_str name)" "u []"
    "first = (if ni_aid (dg_ids g) = 0 then 1 else ni_aid (dg_ids g))"
    "first \<le> j" "getLdbObject L (ldb_key [ACCOUNT, j]) g = []"
    "\<forall>aid p. stored L g aid = Some p \<longrightarrow> pc_username p \<noteq> c_str name"
  obtains aid a p g' where
    "createAccount L raw (Some name) g = Some (Inr (a, g'))" "first \<le> aid" "stored L g aid = None"
    "stored L g' = (stored L g)(aid \<mapsto> p)" "account_of_pb p = a\<lparr>ac_session := None\<rparr>" "pc_username p = c_str name"
    "ac_aid a = aid" "db_sound u L g'"
proof -
  let ?taken = "\<lambda>i. getLdbObject L (ldb_key [ACCOUNT, i]) g \<noteq> []"
  have no: "getAccountByUsername L (Some name) g = Inr None"
  proof -
    obtain r where r: "getAccountByUsername L (Some name) g = Inr r"
      "case r of None \<Rightarrow> \<forall>aid p. stored L g aid = Some p \<longrightarrow> pc_username p \<noteq> c_str name
       | Some a \<Rightarrow> \<exists>aid p. stored L g aid = Some p \<and> pc_username p = c_str name \<and> a = account_of_pb p"
      using find_outcome [OF assms(1,2), of pc_username name] by (auto simp: getAccountByUsername_def)
    then show ?thesis using assms(8) by (cases r) auto
  qed
  obtain aid where aid: "free_id ?taken first = Some aid" "\<not> ?taken aid" "first \<le> aid"
    using free_id_least [of ?taken j first] assms(6,7) by auto
  have "first \<noteq> 0" using assms(5) by simp
  then have nz: "aid \<noteq> 0" using aid(3) word_coorder.extremum_unique by blast
  define g1 where "g1 = g\<lparr>dg_ids := (dg_ids g)\<lparr>ni_aid := aid\<rparr>\<rparr>"
  define a where "a = setIsGuest 0 (setUsername (c_str name) (setAccountId aid (account_default raw)))"
  have a: "ac_aid a = aid" "ac_username a = c_str name" "ac_guest a = 0" "ac_session a = None"
    by (simp_all add: a_def setIsGuest_def setUsername_def setAccountId_def account_default_def)
  have "tokens_ok a"
    using tokens_ok_default [of raw] by (simp add: a_def tokens_ok_def setIsGuest_def setUsername_def setAccountId_def)
  moreover have "list_all u [ac_email a, ac_password a, ac_device a, ac_real_name a, ac_id_number a]"
    using assms(4) by (simp add: a_def setIsGuest_def setUsername_def setAccountId_def account_default_def)
  ultimately have "storable u a" using a nz assms(3) by (simp add: storable_def)
  moreover have s1: "db_sound u L g1" using assms(2) by (simp add: g1_def)
  ultimately obtain p g2 where s: "saveAccount L a g1 = Inr (0, g2)" "account_of_pb p = a\<lparr>ac_guest := 0, ac_session := None\<rparr>"
    "stored L g2 = (stored L g1)(aid \<mapsto> p)" "db_sound u L g2"
    using save_outcome [OF assms(1)] a(1) by metis
  have "a\<lparr>ac_guest := 0, ac_session := None\<rparr> = a\<lparr>ac_session := None\<rparr>" using a(3) by simp
  moreover have "pc_username p = ac_username (account_of_pb p)" by (simp add: account_of_pb_def)
  moreover have "stored L g aid = None" using aid(2) by (simp add: stored_def Let_def)
  moreover have "createAccount L raw (Some name) g = Some (Inr (a, snd (dbgate_save L g2)))"
    using no aid(1) s(1) assms(5) by (simp add: createAccount_def Let_def g1_def a_def)
  ultimately show ?thesis
    using that [of a "snd (dbgate_save L g2)" aid p] aid(3) a s save_ids_outcome [OF assms(1) s(4)]
    by (simp add: g1_def)
qed

lemma create_existing:
  assumes "store_laws u L" "db_sound u L g" "stored L g aid\<^sub>0 = Some p\<^sub>0" "pc_username p\<^sub>0 = c_str name"
  obtains aid p where "stored L g aid = Some p" "pc_username p = c_str name"
    "createAccount L raw (Some name) g = Some (Inr (account_of_pb p, g))"
proof -
  obtain r where r: "getAccountByUsername L (Some name) g = Inr r"
    "case r of None \<Rightarrow> \<forall>aid p. stored L g aid = Some p \<longrightarrow> pc_username p \<noteq> c_str name
     | Some a \<Rightarrow> \<exists>aid p. stored L g aid = Some p \<and> pc_username p = c_str name \<and> a = account_of_pb p"
    using find_outcome [OF assms(1,2), of pc_username name] by (auto simp: getAccountByUsername_def)
  then obtain aid p where "stored L g aid = Some p" "pc_username p = c_str name" "r = Some (account_of_pb p)"
    using assms(3,4) by (cases r) auto
  with r(1) show ?thesis using that by (auto simp: createAccount_def)
qed

end
