(* ===== verification/Sample_Store.thy ===== *)
theory Sample_Store
  imports Sign_On "HOL-Library.AList"
begin

text \<open>
  Concrete libraries for the witnesses: a database that is an association list, a codec of accounts
  that writes each field byte by byte behind a mark, and a JSON library over a small type of documents.
  They satisfy the laws.
\<close>

section \<open>A codec of accounts\<close>

definition enc_field :: "bytes \<Rightarrow> bytes" where
  "enc_field f = concat (map (\<lambda>b. [1, b]) f) @ [0]"

fun dec_field :: "bytes \<Rightarrow> (bytes \<times> bytes) option" where
  "dec_field (m # b # r) = (if m = 0 then Some ([], b # r) else map_option (apfst ((#) b)) (dec_field r))"
| "dec_field [m] = (if m = 0 then Some ([], []) else None)"
| "dec_field [] = None"

fun dec_all :: "nat \<Rightarrow> bytes \<Rightarrow> bytes list option" where
  "dec_all 0 s = Some []"
| "dec_all (Suc n) s = (case dec_field s of None \<Rightarrow> None | Some (f, r) \<Rightarrow> map_option ((#) f) (dec_all n r))"

fun words4 :: "bytes \<Rightarrow> u32 list" where
  "words4 (a # b # c # d # r) = load_le [a, b, c, d] # words4 r"
| "words4 _ = []"

lemma dec_enc_field [simp]: "dec_field (enc_field f @ r) = Some (f, r)"
proof (induction f)
  case Nil
  then show ?case by (cases r) (simp_all add: enc_field_def)
next
  case (Cons b f)
  then show ?case by (simp add: enc_field_def)
qed

lemma dec_enc_all: "dec_all (length fs) (concat (map enc_field fs)) = Some fs"
  by (induction fs) simp_all

lemma store_le_4: "store_le 4 (w :: u32) = [ucast w, ucast (drop_bit 8 w), ucast (drop_bit 16 w), ucast (drop_bit 24 w)]"
  by (simp add: store_le_def upt_rec)

lemma words4_store: "words4 (concat (map (store_le 4) ws)) = ws"
proof (induction ws)
  case (Cons w ws)
  have "words4 (store_le 4 w @ r) = load_le (store_le 4 w) # words4 r" for r by (simp add: store_le_4)
  then show ?case using Cons by (simp add: load_store_le)
qed simp

definition sample_fields :: "pb_account \<Rightarrow> bytes list" where
  "sample_fields p =
     [store_le 4 (pc_id p), pc_username p, pc_email p, pc_password p, pc_combo p, pc_auth p,
      store_le 8 (pc_auth_ts p), pc_device p, if pc_guest p then [1] else [], store_le 4 (pc_reserved p),
      concat (map (store_le 4) (pc_permissions p)), pc_real_name p, pc_id_number p, pc_bind p,
      store_le 8 (pc_bind_ts p)]"

definition sample_ser :: "pb_account \<Rightarrow> bytes option" where
  "sample_ser p = Some (concat (map enc_field (sample_fields p)))"

definition sample_parse :: "bytes \<Rightarrow> pb_account option" where
  "sample_parse b =
     map_option (\<lambda>fs.
       \<lparr>pc_id = load_le (fs ! 0), pc_username = fs ! 1, pc_email = fs ! 2, pc_password = fs ! 3,
        pc_combo = fs ! 4, pc_auth = fs ! 5, pc_auth_ts = load_le (fs ! 6), pc_device = fs ! 7,
        pc_guest = (fs ! 8 \<noteq> []), pc_reserved = load_le (fs ! 9), pc_permissions = words4 (fs ! 10),
        pc_real_name = fs ! 11, pc_id_number = fs ! 12, pc_bind = fs ! 13, pc_bind_ts = load_le (fs ! 14)\<rparr>)
       (dec_all 15 b)"

lemma sample_codec: "\<exists>b. sample_ser p = Some b \<and> b \<noteq> [] \<and> sample_parse b = Some p"
proof -
  have "length (sample_fields p) = 15" by (simp add: sample_fields_def)
  then have d: "dec_all 15 (concat (map enc_field (sample_fields p))) = Some (sample_fields p)"
    using dec_enc_all [of "sample_fields p"] by simp
  have "sample_parse (concat (map enc_field (sample_fields p))) = Some p"
    unfolding sample_parse_def d by (simp add: sample_fields_def load_store_le words4_store)
  moreover have "concat (map enc_field (sample_fields p)) \<noteq> []" by (simp add: sample_fields_def enc_field_def)
  ultimately show ?thesis by (simp add: sample_ser_def)
qed

section \<open>A database\<close>

type_synonym sample_db = "(bytes \<times> bytes) list"

definition sample_get :: "bytes \<Rightarrow> sample_db \<Rightarrow> bytes" where
  "sample_get k d = (case map_of d k of None \<Rightarrow> [] | Some v \<Rightarrow> v)"

definition sample_lib :: "sample_db store_lib" where
  "sample_lib =
     \<lparr>sl_get = sample_get, sl_put = (\<lambda>k v d. (True, (k, v) # d)),
      sl_delete = (\<lambda>k d. (True, (k, []) # d)),
      sl_iterate = (\<lambda>d. filter (\<lambda>e. snd e \<noteq> []) (AList.clearjunk d)),
      ser_ids = (\<lambda>_. Some [1]), parse_ids = (\<lambda>_. None),
      ser_account = sample_ser, parse_account = sample_parse,
      ser_player = (\<lambda>_. None), parse_player = (\<lambda>_. None), ser_entry = (\<lambda>_. None), parse_entry = (\<lambda>_. None)\<rparr>"

lemma sample_laws: "store_laws (\<lambda>_. True) sample_lib"
  unfolding store_laws_def
proof (intro conjI allI impI)
  fix k v k' and d :: sample_db
  show "fst (sl_put sample_lib k v d)" "fst (sl_delete sample_lib k d)"
    "sl_get sample_lib k' (snd (sl_put sample_lib k v d)) = (if k' = k then v else sl_get sample_lib k' d)"
    "sl_get sample_lib k' (snd (sl_delete sample_lib k d)) = (if k' = k then [] else sl_get sample_lib k' d)"
    by (simp_all add: sample_lib_def sample_get_def)
next
  fix d :: sample_db and k v
  have "(k, v) \<in> set (AList.clearjunk d) \<longleftrightarrow> map_of d k = Some v"
    by (metis distinct_clearjunk map_of_clearjunk map_of_eq_Some_iff)
  then show "(k, v) \<in> set (sl_iterate sample_lib d) \<longleftrightarrow> v \<noteq> [] \<and> sl_get sample_lib k d = v"
    by (auto simp: sample_lib_def sample_get_def split: option.splits)
next
  fix p
  show "\<exists>b. ser_account sample_lib p = Some b \<and> b \<noteq> [] \<and> parse_account sample_lib b = Some p"
    using sample_codec [of p] by (simp add: sample_lib_def)
qed

definition empty_gate :: "sample_db dbgate" where
  "empty_gate = \<lparr>dg_db = [], dg_ids = no_ids\<rparr>"

lemma empty_gate_sound: "db_sound u sample_lib empty_gate" "stored sample_lib empty_gate = Map.empty"
  by (simp_all add: db_sound_def empty_gate_def sample_lib_def stored_def getLdbObject_def sample_get_def fun_eq_iff)

text \<open>A database with one account, as saving it in the empty one leaves it.\<close>

definition blank_account :: account where
  "blank_account =
     \<lparr>ac_username = [], ac_password = [], ac_device = [], ac_email = [], ac_real_name = [], ac_id_number = [],
      ac_auth = [], ac_combo = [], ac_binder = [], ac_aid = 0, ac_guest = 0, ac_auth_ts = 0, ac_binder_ts = 0,
      ac_session = None, ac_permissions = []\<rparr>"

definition alice :: account where
  "alice = setUsername (lit ''alice'') (setAccountId 7 blank_account)"

lemma alice_saved:
  obtains g p where "saveAccount sample_lib alice empty_gate = Inr (0, g)" "db_sound (\<lambda>_. True) sample_lib g"
    "stored sample_lib g = [7 \<mapsto> p]" "pc_username p = lit ''alice''" "pc_bind p = []"
proof -
  have e: "[] \<in> range b64enc" "[] \<in> range hexenc"
    by (rule range_eqI [where x = "[]"], simp add: b64enc_def hexenc_def)+
  have al: "ac_aid alice = 7" "ac_username alice = lit ''alice''" "ac_binder alice = []" "ac_auth alice = []"
    by (simp_all add: alice_def setUsername_def setAccountId_def blank_account_def)
  have "storable (\<lambda>_. True) alice"
    using e by (simp add: storable_def tokens_ok_def alice_def setUsername_def setAccountId_def blank_account_def)
  then obtain p g where s: "saveAccount sample_lib alice empty_gate = Inr (0, g)" "account_to_pb alice = Inr p"
    "stored sample_lib g = (stored sample_lib empty_gate)(ac_aid alice \<mapsto> p)" "db_sound (\<lambda>_. True) sample_lib g"
    using save_outcome [OF sample_laws empty_gate_sound(1)] by metis
  have "b64dec [] = Some []" by (simp add: b64dec_def)
  then have "pc_username p = lit ''alice''" "pc_bind p = []"
    using s(2) al by (auto simp: account_to_pb_def)
  with s show ?thesis using that by (simp add: empty_gate_sound al)
qed

section \<open>A JSON library\<close>

datatype doc = D_obj "(string \<times> doc) list" | D_str bytes | D_num u32 | D_bool bool

definition sample_json :: "(bytes \<times> doc) list \<Rightarrow> doc json_lib" where
  "sample_json texts =
     \<lparr>jl_parse = map_of texts,
      jl_is_object = (\<lambda>d. case d of D_obj _ \<Rightarrow> True | _ \<Rightarrow> False),
      jl_member = (\<lambda>d k. case d of D_obj ms \<Rightarrow> map_option Some (map_of ms k) | _ \<Rightarrow> None),
      jl_string = (\<lambda>d. case d of D_str s \<Rightarrow> s | _ \<Rightarrow> lit ''{...}''),
      jl_string_len = (\<lambda>d. case d of D_str s \<Rightarrow> length s | _ \<Rightarrow> 0),
      jl_boolean = (\<lambda>d. case d of D_bool b \<Rightarrow> b | _ \<Rightarrow> False),
      jl_int = (\<lambda>d. case d of D_num n \<Rightarrow> n | _ \<Rightarrow> 0),
      jl_print = (\<lambda>fs. lit ''{...}'')\<rparr>"

definition sample_web :: "(bytes \<times> doc) list \<Rightarrow> (doc, sample_db) web" where
  "sample_web texts =
     \<lparr>wb_json = sample_json texts, wb_store = sample_lib, wb_tokener = True, wb_tokener2 = True, wb_object = True,
      wb_random = replicate 24 0xa5, wb_now = 1700000000\<rparr>"

lemmas sample_web_simps = sample_web_def sample_json_def request_def says_def says_id_def opt_boolean_def
  get_boolean_def get_int_def c_str_def lit_def

end
