(* ===== verification/Sign_On_Properties.thy ===== *)
theory Sign_On_Properties
  imports Sample_Store
begin

text \<open>
  The properties of accounts and of signing on, from the login at the dispatch server to the game
  server's check of the token.
\<close>

section \<open>Everyone who exists can sign on\<close>

text \<open>
  C18. A user who exists signs on: in a sound database the login with a name and any password gives a
  token; a verification with that token, by then or later requests, is positive; the combo step with it
  gives a second token; and the game server accepts that one for the account. The tokens are 24 and 16
  random bytes in text, and survive being stored although base 64 does not give back every byte.
\<close>

theorem sign_on_complete:
  fixes W :: "('j, 'd) web"
  assumes "store_laws u (wb_store W)" "db_sound u (wb_store W) g" "request W post j"
    "\<not> opt_boolean (wb_json W) j ''is_guest''" "says (wb_json W) j ''account'' name" "name \<noteq> []"
    "says (wb_json W) j ''password'' password" "\<And>d. says (wb_json W) j ''device_id'' d \<Longrightarrow> u d"
    "stored (wb_store W) g aid\<^sub>0 = Some p\<^sub>0" "pc_username p\<^sub>0 = name" "wb_random W \<noteq> []"
  shows "\<exists>aid p token g1 fs. stored (wb_store W) g aid = Some p \<and> pc_username p = name
    \<and> handleLogin W post g = Inr (account_reply (wb_json W) fs, g1)
    \<and> (''uid'', J_uint (ucast aid)) \<in> set fs \<and> (''token'', J_str token) \<in> set fs
    \<and> (\<forall>(V :: ('j, 'd) web) post j. wb_store V = wb_store W \<and> request V post j
         \<and> says_id (wb_json V) j ''uid'' aid \<and> says (wb_json V) j ''token'' token
         \<longrightarrow> (\<exists>fs. handleVerify V post g1 = account_reply (wb_json V) fs))
    \<and> (\<forall>(V :: ('j, 'd) web) post j d. wb_store V = wb_store W \<and> wb_random V \<noteq> [] \<and> request V post j
         \<and> combo_data V j = Inr d \<and> says_id (wb_json V) d ''uid'' aid \<and> says (wb_json V) d ''token'' token
         \<and> \<not> opt_boolean (wb_json V) d ''guest''
         \<longrightarrow> (\<exists>combo g2 fs. handleCombo V post g1 = Inr (data_reply (wb_json V) fs, g2)
                \<and> (''combo_token'', J_str combo) \<in> set fs
                \<and> (\<forall>aid_str v n e. strtoul aid_str 0 = (v, n, e) \<and> n \<noteq> 0 \<and> ucast v = aid
                     \<longrightarrow> (\<exists>a. token_account (wb_store W) aid_str combo g2 = Inr (aid, a)))))"
proof -
  let ?token = "b64enc (take 24 (wb_random W))"
  obtain aid p p' fs g1 where l: "stored (wb_store W) g aid = Some p" "pc_username p = name"
    "handleLogin W post g = Inr (account_reply (wb_json W) fs, g1)"
    "(''uid'', J_uint (ucast aid)) \<in> set fs" "(''token'', J_str ?token) \<in> set fs"
    "stored (wb_store W) g1 = (stored (wb_store W) g)(aid \<mapsto> p')" "pc_username p' = name"
    "b64enc (pc_auth p') = ?token" "db_sound u (wb_store W) g1"
    using login_outcome [OF assms(1-10)] by metis
  have p': "stored (wb_store W) g1 aid = Some p'" using l(6) by simp
  have "b64enc (pc_auth p') \<noteq> []" using l(8) assms(11) by simp
  then have ne: "pc_auth p' \<noteq> []" by simp
  have verify: "\<exists>fs. handleVerify V post g1 = account_reply (wb_json V) fs"
    if "wb_store V = wb_store W" "request V post j" "says_id (wb_json V) j ''uid'' aid"
      "says (wb_json V) j ''token'' ?token" for V :: "('j, 'd) web" and post j
    unfolding verify_exact [OF that(2)] using that(1,3,4) p' ne l(8) by auto
  have combo: "\<exists>combo g2 fs. handleCombo V post g1 = Inr (data_reply (wb_json V) fs, g2)
      \<and> (''combo_token'', J_str combo) \<in> set fs
      \<and> (\<forall>aid_str v n e. strtoul aid_str 0 = (v, n, e) \<and> n \<noteq> 0 \<and> ucast v = aid
           \<longrightarrow> (\<exists>a. token_account (wb_store W) aid_str combo g2 = Inr (aid, a)))"
    if V: "wb_store V = wb_store W" "wb_random V \<noteq> []" "request V post j" "combo_data V j = Inr d"
      "says_id (wb_json V) d ''uid'' aid" "says (wb_json V) d ''token'' ?token" "\<not> opt_boolean (wb_json V) d ''guest''"
    for V :: "('j, 'd) web" and post j d
  proof -
    have "combo_proof V j d p'" using V(6,7) ne l(8) by (simp add: combo_proof_def)
    then obtain fs2 p2 g2 where c: "handleCombo V post g1 = Inr (data_reply (wb_json V) fs2, g2)"
      "(''combo_token'', J_str (hexenc (take 16 (wb_random V)))) \<in> set fs2"
      "stored (wb_store V) g2 = (stored (wb_store V) g1)(aid \<mapsto> p2)"
      "hexenc (pc_combo p2) = hexenc (take 16 (wb_random V))"
      using combo_outcome [of u V g1 post j d aid p'] V(3-5) V(1) assms(1) l(9) p' by metis
    have "stored (wb_store W) g2 aid = Some p2" "hexenc (take 16 (wb_random V)) \<noteq> []"
      using c(3) V(1,2) by simp_all
    with c(1,2,4) combo_accepted show ?thesis by blast
  qed
  show ?thesis
    by (intro exI conjI, rule l(1), rule l(2), rule l(3), rule l(4), rule l(5))
      (intro allI impI, elim conjE, rule verify, assumption+, intro allI impI, elim conjE, rule combo, assumption+)
qed

definition login_texts :: "(bytes \<times> doc) list" where
  "login_texts = [(lit ''login'', D_obj [(''account'', D_str (lit ''alice'')), (''password'', D_str (lit ''x''))])]"

theorem sign_on_complete_witness:
  "\<exists>g fs g1. saveAccount sample_lib alice empty_gate = Inr (0, g)
     \<and> handleLogin (sample_web login_texts) (Some (lit ''login'')) g = Inr (account_reply (sample_json login_texts) fs, g1)
     \<and> (''uid'', J_uint 7) \<in> set fs"
proof -
  obtain g p where g: "saveAccount sample_lib alice empty_gate = Inr (0, g)" "db_sound (\<lambda>_. True) sample_lib g"
    "stored sample_lib g = [7 \<mapsto> p]" "pc_username p = lit ''alice''" by (rule alice_saved)
  let ?W = "sample_web login_texts"
  let ?j = "D_obj [(''account'', D_str (lit ''alice'')), (''password'', D_str (lit ''x''))]"
  have c: "c_str (lit ''login'') = lit ''login''" "c_str (lit ''alice'') = lit ''alice''" "lit ''alice'' \<noteq> []" by code_simp+
  have "request ?W (Some (lit ''login'')) ?j" by (simp add: request_def sample_web_def sample_json_def login_texts_def c)
  moreover have "\<not> opt_boolean (wb_json ?W) ?j ''is_guest''" by (simp add: opt_boolean_def sample_web_def sample_json_def)
  moreover have "says (wb_json ?W) ?j ''account'' (lit ''alice'')" "says (wb_json ?W) ?j ''password'' (c_str (lit ''x''))"
    by (simp_all add: says_def sample_web_def sample_json_def c)
  moreover have "wb_store ?W = sample_lib" "wb_json ?W = sample_json login_texts" "wb_random ?W \<noteq> []"
    by (simp_all add: sample_web_def)
  ultimately obtain aid q fs g1 where "stored sample_lib g aid = Some q"
    "handleLogin ?W (Some (lit ''login'')) g = Inr (account_reply (sample_json login_texts) fs, g1)"
    "(''uid'', J_uint (ucast aid)) \<in> set fs"
    using sign_on_complete [of "\<lambda>_. True" ?W g "Some (lit ''login'')" ?j "lit ''alice''" "c_str (lit ''x'')" 7 p]
      sample_laws g(2-4) c(3) by auto
  moreover from this g(3) have "aid = 7" by (auto split: if_splits)
  ultimately show ?thesis using g(1) by auto
qed

section \<open>Who is let through\<close>

text \<open>
  C19. What each gate lets through, exactly. A verification is positive for the current token of the
  account and nothing else. The combo step gives out a token for the current token of the account, or
  when the account data carries the guest flag and the request a device: then for any account there is,
  without any token. The game server accepts a request whose number is the account's id and whose token
  starts with the stored one.
\<close>

theorem sign_on_gates:
  assumes "store_laws u (wb_store W)" "db_sound u (wb_store W) g" "request W post j"
  shows "((\<exists>fs. handleVerify W post g = account_reply (wb_json W) fs) \<longleftrightarrow>
      (\<exists>aid p. says_id (wb_json W) j ''uid'' aid \<and> stored (wb_store W) g aid = Some p \<and> pc_auth p \<noteq> []
         \<and> says (wb_json W) j ''token'' (b64enc (pc_auth p))))
    \<and> ((\<exists>fs g'. handleCombo W post g = Inr (data_reply (wb_json W) fs, g')) \<longleftrightarrow>
      (\<exists>d aid p. combo_data W j = Inr d \<and> says_id (wb_json W) d ''uid'' aid \<and> stored (wb_store W) g aid = Some p
         \<and> (if opt_boolean (wb_json W) d ''guest''
            then jl_member (wb_json W) j ''device'' \<noteq> None \<and> c_str (jl_string (wb_json W) d) \<noteq> []
            else pc_auth p \<noteq> [] \<and> says (wb_json W) d ''token'' (b64enc (pc_auth p)))))
    \<and> (token_account (wb_store W) aid_str token g = Inr (aid, a) \<longleftrightarrow>
      (\<exists>v n e p. strtoul aid_str 0 = (v, n, e) \<and> n \<noteq> 0 \<and> aid = ucast v \<and> stored (wb_store W) g aid = Some p
         \<and> a = account_of_pb p \<and> pc_combo p \<noteq> []
         \<and> take (2 * length (pc_combo p)) (c_str token) = hexenc (pc_combo p)))"
proof (intro conjI)
  show "(\<exists>fs g'. handleCombo W post g = Inr (data_reply (wb_json W) fs, g')) \<longleftrightarrow>
      (\<exists>d aid p. combo_data W j = Inr d \<and> says_id (wb_json W) d ''uid'' aid \<and> stored (wb_store W) g aid = Some p
         \<and> (if opt_boolean (wb_json W) d ''guest''
            then jl_member (wb_json W) j ''device'' \<noteq> None \<and> c_str (jl_string (wb_json W) d) \<noteq> []
            else pc_auth p \<noteq> [] \<and> says (wb_json W) d ''token'' (b64enc (pc_auth p))))"
    unfolding combo_proof_def [symmetric]
    using combo_outcome [OF assms] combo_refused [OF assms(3)] by metis
qed (rule verify_exact [OF assms(3)], rule token_account_exact)

definition guest_texts :: "(bytes \<times> doc) list" where
  "guest_texts =
     [(lit ''combo'', D_obj [(''device'', D_str (lit ''d'')), (''data'', D_str (lit ''inner''))]),
      (lit ''inner'', D_obj [(''uid'', D_num 7), (''guest'', D_bool True)])]"

theorem sign_on_gates_witness:
  "\<exists>g fs g'. saveAccount sample_lib alice empty_gate = Inr (0, g)
     \<and> handleCombo (sample_web guest_texts) (Some (lit ''combo'')) g = Inr (data_reply (sample_json guest_texts) fs, g')"
proof -
  obtain g p where g: "saveAccount sample_lib alice empty_gate = Inr (0, g)" "db_sound (\<lambda>_. True) sample_lib g"
    "stored sample_lib g = [7 \<mapsto> p]" by (rule alice_saved)
  let ?W = "sample_web guest_texts"
  let ?j = "D_obj [(''device'', D_str (lit ''d'')), (''data'', D_str (lit ''inner''))]"
  let ?d = "D_obj [(''uid'', D_num 7), (''guest'', D_bool True)]"
  have c: "c_str (lit ''combo'') = lit ''combo''" "lit ''inner'' \<noteq> lit ''combo''" "c_str (lit ''{...}'') \<noteq> []"
    by code_simp+
  have W: "wb_store ?W = sample_lib" "wb_json ?W = sample_json guest_texts" "wb_tokener2 ?W" by (simp_all add: sample_web_def)
  have "request ?W (Some (lit ''combo'')) ?j"
    by (simp add: request_def sample_web_def sample_json_def guest_texts_def c)
  moreover have "combo_data ?W ?j = Inr ?d"
    using c(2) by (simp add: combo_data_def sample_web_def sample_json_def guest_texts_def)
  moreover have "says_id (wb_json ?W) ?d ''uid'' 7" "opt_boolean (wb_json ?W) ?d ''guest''"
    "jl_member (wb_json ?W) ?j ''device'' \<noteq> None" "c_str (jl_string (wb_json ?W) ?d) \<noteq> []"
    using c(3) by (simp_all add: W says_id_def opt_boolean_def get_boolean_def get_int_def sample_json_def)
  ultimately have "\<exists>fs g'. handleCombo ?W (Some (lit ''combo'')) g = Inr (data_reply (wb_json ?W) fs, g')"
    using sign_on_gates [of "\<lambda>_. True" ?W g "Some (lit ''combo'')" ?j "[]" "[]" 0 blank_account] sample_laws g(2,3) W(1)
    by fastforce
  with g(1) W(2) show ?thesis by auto
qed

section \<open>Tickets\<close>

text \<open>
  C21. A ticket without a single character of the base 64 alphabet is taken for the ticket of the first
  account that has none, and the answer holds the name and the address of that account.
\<close>

theorem empty_ticket_accepted:
  assumes "store_laws u (wb_store W)" "db_sound u (wb_store W) g" "request W post j"
    "says (wb_json W) j ''action_ticket'' ticket" "ticket \<noteq> []" "\<forall>t \<in> set ticket. b64class t = Foreign"
    "says (wb_json W) j ''realname'' r" "says (wb_json W) j ''identity_card'' i"
    "stored (wb_store W) g aid\<^sub>0 = Some p\<^sub>0" "pc_bind p\<^sub>0 = []"
  shows "\<exists>aid p fs g'. stored (wb_store W) g aid = Some p \<and> pc_bind p = []
    \<and> handleBindRealname W post g = Inr (data_reply (wb_json W) fs, g')
    \<and> (''name'', J_str (c_str (pc_username p))) \<in> set fs \<and> (''email'', J_str (c_str (pc_email p))) \<in> set fs"
  using bind_foreign [OF assms] by metis

definition ticket_texts :: "(bytes \<times> doc) list" where
  "ticket_texts =
     [(lit ''bind'', D_obj [(''action_ticket'', D_str (lit ''='')), (''realname'', D_str (lit ''x'')),
        (''identity_card'', D_str (lit ''y''))])]"

theorem empty_ticket_accepted_witness:
  "\<exists>g fs g'. saveAccount sample_lib alice empty_gate = Inr (0, g)
     \<and> handleBindRealname (sample_web ticket_texts) (Some (lit ''bind'')) g = Inr (data_reply (sample_json ticket_texts) fs, g')
     \<and> (''name'', J_str (lit ''alice'')) \<in> set fs"
proof -
  obtain g p where g: "saveAccount sample_lib alice empty_gate = Inr (0, g)" "db_sound (\<lambda>_. True) sample_lib g"
    "stored sample_lib g = [7 \<mapsto> p]" "pc_username p = lit ''alice''" "pc_bind p = []" by (rule alice_saved)
  let ?W = "sample_web ticket_texts"
  let ?j = "D_obj [(''action_ticket'', D_str (lit ''='')), (''realname'', D_str (lit ''x'')), (''identity_card'', D_str (lit ''y''))]"
  have c: "c_str (lit ''bind'') = lit ''bind''" "c_str (lit ''='') = lit ''=''" "lit ''='' \<noteq> []"
    "\<forall>t \<in> set (lit ''=''). b64class t = Foreign" "c_str (lit ''alice'') = lit ''alice''" by code_simp+
  have W: "wb_store ?W = sample_lib" "wb_json ?W = sample_json ticket_texts" by (simp_all add: sample_web_def)
  have "request ?W (Some (lit ''bind'')) ?j"
    by (simp add: request_def sample_web_def sample_json_def ticket_texts_def c)
  moreover have "says (wb_json ?W) ?j ''action_ticket'' (lit ''='')" "says (wb_json ?W) ?j ''realname'' (c_str (lit ''x''))"
    "says (wb_json ?W) ?j ''identity_card'' (c_str (lit ''y''))"
    by (simp_all add: says_def W sample_json_def c)
  ultimately obtain aid q fs g' where "stored sample_lib g aid = Some q"
    "handleBindRealname ?W (Some (lit ''bind'')) g = Inr (data_reply (sample_json ticket_texts) fs, g')"
    "(''name'', J_str (c_str (pc_username q))) \<in> set fs"
    using empty_ticket_accepted [of "\<lambda>_. True" ?W g "Some (lit ''bind'')" ?j "lit ''=''" "c_str (lit ''x'')"
        "c_str (lit ''y'')" 7 p] sample_laws g(2,3,5) c(3,4) W by auto
  moreover from this g(3) have "q = p" by (auto split: if_splits)
  ultimately show ?thesis using g(1,4) c(5) by auto
qed

section \<open>Accounts\<close>

text \<open>
  C22. Creating an account in a sound database, when some id from the counter on is free, always returns.
  If the name is taken it gives the account that has it and changes nothing; otherwise it gives a new
  account with that name under an id that was free, stores it, leaves every other account as it was, and
  the database is sound.
\<close>

theorem account_creation:
  assumes "store_laws u L" "db_sound u L g" "u (c_str name)" "u []"
    "(if ni_aid (dg_ids g) = 0 then 1 else ni_aid (dg_ids g)) \<le> j" "getLdbObject L (ldb_key [ACCOUNT, j]) g = []"
  shows "\<exists>a g'. createAccount L raw (Some name) g = Some (Inr (a, g')) \<and> ac_username a = c_str name
    \<and> db_sound u L g'
    \<and> (if \<exists>aid p. stored L g aid = Some p \<and> pc_username p = c_str name
       then g' = g \<and> (\<exists>aid p. stored L g aid = Some p \<and> a = account_of_pb p)
       else stored L g (ac_aid a) = None
          \<and> (\<exists>p. stored L g' = (stored L g)(ac_aid a \<mapsto> p) \<and> account_of_pb p = a\<lparr>ac_session := None\<rparr>))"
proof (cases "\<exists>aid p. stored L g aid = Some p \<and> pc_username p = c_str name")
  case True
  then obtain aid p where "stored L g aid = Some p" "pc_username p = c_str name"
    "createAccount L raw (Some name) g = Some (Inr (account_of_pb p, g))"
    using create_existing [OF assms(1,2)] by metis
  moreover then have "ac_username (account_of_pb p) = c_str name" by (simp add: account_of_pb_def)
  ultimately show ?thesis using True assms(2) by auto
next
  case False
  then obtain aid a p g' where c: "createAccount L raw (Some name) g = Some (Inr (a, g'))" "stored L g aid = None"
    "stored L g' = (stored L g)(aid \<mapsto> p)" "account_of_pb p = a\<lparr>ac_session := None\<rparr>" "pc_username p = c_str name"
    "ac_aid a = aid" "db_sound u L g'"
    using create_outcome [OF assms(1-4) refl assms(5,6), of raw] by metis
  have "ac_username a = ac_username (account_of_pb p)" using c(4) by simp
  then have "ac_username a = c_str name" using c(5) by (simp add: account_of_pb_def)
  with c False show ?thesis by auto
qed

theorem account_creation_witness:
  "\<exists>a g'. createAccount sample_lib blank_account (Some (lit ''bob'')) empty_gate = Some (Inr (a, g'))
     \<and> ac_username a = lit ''bob''"
proof -
  have "c_str (lit ''bob'') = lit ''bob''" by code_simp
  moreover have "getLdbObject sample_lib (ldb_key [ACCOUNT, 1]) empty_gate = []"
    by (simp add: getLdbObject_def sample_lib_def sample_get_def empty_gate_def)
  moreover have "(if ni_aid (dg_ids empty_gate) = 0 then 1 else ni_aid (dg_ids empty_gate)) \<le> 1"
    by (simp add: empty_gate_def no_ids_def)
  ultimately show ?thesis
    using account_creation [OF sample_laws empty_gate_sound(1),
        where name = "lit ''bob''" and j = 1 and raw = blank_account] by auto
qed

text \<open>
  C23. An account that the code made is stored and read back as it was, with its three tokens, but without
  its guest flag and its session: the tokens of 24, 16 and 6 bytes the code draws keep their text whatever
  the bytes are, although decoding base 64 does not give the bytes back.
\<close>

theorem account_round_trip:
  assumes "tokens_ok a"
  shows "\<exists>p. account_to_pb (snd (getNewBinderToken z t (snd (getNewComboToken y (snd (getNewAuthToken x s a)))))) = Inr p
    \<and> account_of_pb p = a\<lparr>ac_auth := b64enc (take 24 x), ac_auth_ts := s, ac_combo := hexenc (take 16 y),
        ac_binder := b64enc (take 6 z), ac_binder_ts := t, ac_guest := 0, ac_session := None\<rparr>"
proof -
  let ?a = "snd (getNewBinderToken z t (snd (getNewComboToken y (snd (getNewAuthToken x s a)))))"
  have "tokens_ok ?a" by (intro tokens_ok_new assms)
  then obtain p where p: "account_to_pb ?a = Inr p" "account_of_pb p = ?a\<lparr>ac_guest := 0, ac_session := None\<rparr>"
    using account_stored by metis
  have "?a = a\<lparr>ac_auth := b64enc (take 24 x), ac_auth_ts := s, ac_combo := hexenc (take 16 y),
      ac_binder := b64enc (take 6 z), ac_binder_ts := t\<rparr>"
    by (simp add: getNewAuthToken_def getNewComboToken_def getNewBinderToken_def)
  with p show ?thesis by simp
qed

theorem account_round_trip_witness:
  "\<exists>p. account_to_pb (snd (getNewBinderToken [4] 2 (snd (getNewComboToken [3] (snd (getNewAuthToken [200] 1 (account_default blank_account))))))) = Inr p
     \<and> ac_auth (account_of_pb p) = b64enc [200]"
  using account_round_trip [OF tokens_ok_default, of "[4]" 2 "[3]" "[200]" 1 blank_account] by auto

end
