(* ===== verification/Http_Parser.thy ===== *)
theory Http_Parser
  imports C_String Host_Memory
begin

text \<open>
  The parser of HTTP requests and responses in \<open>src/http.c\<close> (picohttpparser), in the portable build without
  SSE 4.2, where \<open>findchar_fast\<close> returns its argument. A pointer into the buffer is what the buffer holds from there
  to its end; a token is such a pointer with a length. Reading or passing the end of the buffer is
  \<open>Overrun\<close>; \<open>*ret = r; return NULL\<close> is \<open>Refused r\<close>.
\<close>

section \<open>Results and characters\<close>

datatype 'a scan = Overrun | Refused int | Reached 'a

fun scan_bind :: "'a scan \<Rightarrow> ('a \<Rightarrow> 'b scan) \<Rightarrow> 'b scan" where
  "scan_bind Overrun f = Overrun"
| "scan_bind (Refused r) f = Refused r"
| "scan_bind (Reached x) f = f x"

definition IS_PRINTABLE_ASCII :: "u8 \<Rightarrow> bool" where
  "IS_PRINTABLE_ASCII c \<longleftrightarrow> (ucast c :: u32) - 0x20 < 0x5f"

text \<open>The test behind it: a control character other than a tab, or DEL.\<close>

definition is_ctl :: "u8 \<Rightarrow> bool" where
  "is_ctl c \<longleftrightarrow> (c < 0x20 \<and> c \<noteq> 9) \<or> c = 0x7f"

definition is_blank :: "u8 \<Rightarrow> bool" where
  "is_blank c \<longleftrightarrow> c = 32 \<or> c = 9"

definition token_char_map :: "nat list" where
  "token_char_map =
     [0,0,0,0,0,0,0,0,0,0,0,0,0,0,0,0,0,0,0,0,0,0,0,0,0,0,0,0,0,0,0,0,
      0,1,0,1,1,1,1,1,0,0,1,1,0,1,1,0,1,1,1,1,1,1,1,1,1,1,0,0,0,0,0,0,
      0,1,1,1,1,1,1,1,1,1,1,1,1,1,1,1,1,1,1,1,1,1,1,1,1,1,1,0,0,0,1,1,
      1,1,1,1,1,1,1,1,1,1,1,1,1,1,1,1,1,1,1,1,1,1,1,1,1,1,1,0,1,0,1,0,
      0,0,0,0,0,0,0,0,0,0,0,0,0,0,0,0,0,0,0,0,0,0,0,0,0,0,0,0,0,0,0,0,
      0,0,0,0,0,0,0,0,0,0,0,0,0,0,0,0,0,0,0,0,0,0,0,0,0,0,0,0,0,0,0,0,
      0,0,0,0,0,0,0,0,0,0,0,0,0,0,0,0,0,0,0,0,0,0,0,0,0,0,0,0,0,0,0,0,
      0,0,0,0,0,0,0,0,0,0,0,0,0,0,0,0,0,0,0,0,0,0,0,0,0,0,0,0,0,0,0,0]"

definition token_char :: "u8 \<Rightarrow> bool" where
  "token_char c \<longleftrightarrow> token_char_map ! unat c \<noteq> 0"

section \<open>Expected characters\<close>

text \<open>\<open>EXPECT_CHAR\<close> tests for the end first, \<open>EXPECT_CHAR_NO_CHECK\<close> does not.\<close>

fun EXPECT_CHAR :: "u8 \<Rightarrow> bytes \<Rightarrow> bytes scan" where
  "EXPECT_CHAR ch [] = Refused (-2)"
| "EXPECT_CHAR ch (c # buf) = (if c \<noteq> ch then Refused (-1) else Reached buf)"

fun expect_text :: "bytes \<Rightarrow> bytes \<Rightarrow> bytes scan" where
  "expect_text [] buf = Reached buf"
| "expect_text (ch # t) [] = Overrun"
| "expect_text (ch # t) (c # buf) = (if c \<noteq> ch then Refused (-1) else expect_text t buf)"

text \<open>A line end that must be at the pointer, which is not compared with the end of the buffer.\<close>

fun line_end :: "bytes \<Rightarrow> bytes scan" where
  "line_end [] = Overrun"
| "line_end (c # buf) =
     (if c = 13 then EXPECT_CHAR 10 buf else if c = 10 then Reached buf else Refused (-1))"

text \<open>\<open>PARSE_INT\<close>: one digit, times a weight. A \<open>char\<close> is signed.\<close>

fun PARSE_INT :: "int \<Rightarrow> bytes \<Rightarrow> (int \<times> bytes) scan" where
  "PARSE_INT mul [] = Overrun"
| "PARSE_INT mul (c # buf) =
     (if sint c < 48 \<or> 57 < sint c then Refused (-1) else Reached (mul * (sint c - 48), buf))"

definition PARSE_INT_3 :: "bytes \<Rightarrow> (int \<times> bytes) scan" where
  "PARSE_INT_3 buf =
     scan_bind (PARSE_INT 100 buf) (\<lambda>(a, buf).
     scan_bind (PARSE_INT 10 buf) (\<lambda>(b, buf).
     scan_bind (PARSE_INT 1 buf) (\<lambda>(c, buf). Reached (a + b + c, buf))))"

text \<open>\<open>do { ++buf; CHECK_EOF(); } while (*buf == ' ')\<close>\<close>

fun skip_spaces :: "bytes \<Rightarrow> bytes scan" where
  "skip_spaces [] = Overrun"
| "skip_spaces [c] = Refused (-2)"
| "skip_spaces (c # d # buf) = (if d = 32 then skip_spaces (d # buf) else Reached (d # buf))"

section \<open>Tokens\<close>

text \<open>The length so far is counted.\<close>

fun advance_token :: "nat \<Rightarrow> bytes \<Rightarrow> (nat \<times> bytes) scan" where
  "advance_token n [] = Refused (-2)"
| "advance_token n (c # buf) =
     (if c = 32 then Reached (n, c # buf)
      else if \<not> IS_PRINTABLE_ASCII c \<and> (c < 0x20 \<or> c = 0x7f) then Refused (-1)
      else advance_token (n + 1) buf)"

fun token_loop :: "u8 \<Rightarrow> nat \<Rightarrow> bytes \<Rightarrow> (nat \<times> bytes) scan" where
  "token_loop next_char n [] = Refused (-2)"
| "token_loop next_char n (c # buf) =
     (if c = next_char then Reached (n, c # buf)
      else if \<not> token_char c then Refused (-1)
      else token_loop next_char (n + 1) buf)"

type_synonym token = "bytes \<times> nat"

definition parse_token :: "u8 \<Rightarrow> bytes \<Rightarrow> (token \<times> bytes) scan" where
  "parse_token next_char buf = scan_bind (token_loop next_char 0 buf) (\<lambda>(n, rest). Reached ((buf, n), rest))"

definition ADVANCE_TOKEN :: "bytes \<Rightarrow> (token \<times> bytes) scan" where
  "ADVANCE_TOKEN buf = scan_bind (advance_token 0 buf) (\<lambda>(n, rest). Reached ((buf, n), rest))"

text \<open>
  \<open>get_token_to_eol\<close>: eight characters at a time while there are as many, each of them compared once; the one that is
  not printable is looked at again. The rest goes one by one. \<open>do_its\<close> gives the pointer after its \<open>DOIT\<close>s and
  whether it was left for a character that is not printable.
\<close>

fun do_its :: "nat \<Rightarrow> bytes \<Rightarrow> (bool \<times> bytes) scan" where
  "do_its 0 buf = Reached (False, buf)"
| "do_its (Suc k) [] = Overrun"
| "do_its (Suc k) (c # buf) = (if \<not> IS_PRINTABLE_ASCII c then Reached (True, c # buf) else do_its k buf)"

lemma do_its_shorter:
  "do_its k buf = Reached (f, r) \<Longrightarrow> length r \<le> length buf \<and> (f \<longrightarrow> r \<noteq> []) \<and> (\<not> f \<longrightarrow> length r = length buf - k)"
  by (induction k buf rule: do_its.induct) (auto split: if_splits)

function eol_fast :: "bytes \<Rightarrow> (bool \<times> bytes) scan" where
  "eol_fast buf =
     (if length buf < 8 then Reached (False, buf)
      else case do_its 8 buf of
             Overrun \<Rightarrow> Overrun
           | Refused r \<Rightarrow> Refused r
           | Reached (False, buf) \<Rightarrow> eol_fast buf
           | Reached (True, buf) \<Rightarrow>
               (case buf of
                  [] \<Rightarrow> Overrun
                | c # rest \<Rightarrow> if is_ctl c then Reached (True, buf) else eol_fast rest))"
  by pat_completeness auto
termination
  by (relation "measure length") (auto dest!: do_its_shorter)

declare eol_fast.simps [simp del]

fun eol_slow :: "bytes \<Rightarrow> bytes scan" where
  "eol_slow [] = Refused (-2)"
| "eol_slow (c # buf) =
     (if \<not> IS_PRINTABLE_ASCII c \<and> is_ctl c then Reached (c # buf) else eol_slow buf)"

fun found_ctl :: "bytes \<Rightarrow> bytes \<Rightarrow> (token \<times> bytes) scan" where
  "found_ctl start [] = Overrun"
| "found_ctl start (c # buf) =
     (if c = 13
      then scan_bind (EXPECT_CHAR 10 buf) (\<lambda>buf. Reached ((start, length start - length buf - 2), buf))
      else if c = 10 then Reached ((start, length start - length (c # buf)), buf)
      else Refused (-1))"

definition get_token_to_eol :: "bytes \<Rightarrow> (token \<times> bytes) scan" where
  "get_token_to_eol buf =
     scan_bind (scan_bind (eol_fast buf) (\<lambda>(found, r). if found then Reached r else eol_slow r)) (found_ctl buf)"

section \<open>The end of the head\<close>

text \<open>Two line ends in a row. The count is of the line ends just passed.\<close>

fun complete_loop :: "nat \<Rightarrow> bytes \<Rightarrow> bytes scan" where
  "complete_loop ret_cnt [] = Refused (-2)"
| "complete_loop ret_cnt (c # buf) =
     (if c = 13
      then (case buf of
              [] \<Rightarrow> Refused (-2)
            | d # buf \<Rightarrow>
                if d \<noteq> 10 then Refused (-1)
                else if ret_cnt + 1 = 2 then Reached buf else complete_loop (ret_cnt + 1) buf)
      else if c = 10 then (if ret_cnt + 1 = 2 then Reached buf else complete_loop (ret_cnt + 1) buf)
      else complete_loop 0 buf)"

definition is_complete :: "bytes \<Rightarrow> nat \<Rightarrow> bytes scan" where
  "is_complete buf last_len =
     (if last_len < 3 then complete_loop 0 buf
      else if length buf < last_len - 3 then Overrun
      else complete_loop 0 (drop (last_len - 3) buf))"

section \<open>Version and headers\<close>

definition parse_http_version :: "bytes \<Rightarrow> (int \<times> bytes) scan" where
  "parse_http_version buf =
     (if length buf < 9 then Refused (-2)
      else scan_bind (expect_text (lit ''HTTP/1.'') buf) (PARSE_INT 1))"

record phr_header =
  ph_name :: "token option"
  ph_value :: token

text \<open>Blanks at the end do not belong to the value.\<close>

fun trimmed :: "bytes \<Rightarrow> nat \<Rightarrow> nat" where
  "trimmed v 0 = 0"
| "trimmed v (Suc n) = (if is_blank (v ! n) then trimmed v n else Suc n)"

fun skip_blanks :: "bytes \<Rightarrow> bytes scan" where
  "skip_blanks [] = Refused (-2)"
| "skip_blanks (c # buf) = (if is_blank c then skip_blanks buf else Reached (c # buf))"

fun after_colon :: "token \<Rightarrow> bytes \<Rightarrow> (token option \<times> bytes) scan" where
  "after_colon name [] = Overrun"
| "after_colon name (c # buf) = scan_bind (skip_blanks buf) (\<lambda>buf. Reached (Some name, buf))"

text \<open>The name; a line that begins with a blank continues the one before and has none.\<close>

definition header_name :: "bool \<Rightarrow> bytes \<Rightarrow> (token option \<times> bytes) scan" where
  "header_name first buf =
     (case buf of
        [] \<Rightarrow> Overrun
      | c # _ \<Rightarrow>
          if \<not> (\<not> first \<and> is_blank c)
          then scan_bind (parse_token 58 buf) (\<lambda>(name, buf).
                 if snd name = 0 then Refused (-1) else after_colon name buf)
          else Reached (None, buf))"

definition header_line :: "bool \<Rightarrow> bytes \<Rightarrow> (phr_header \<times> bytes) scan" where
  "header_line first buf =
     scan_bind (header_name first buf) (\<lambda>(name, buf).
     scan_bind (get_token_to_eol buf) (\<lambda>((v, len), buf).
     Reached (\<lparr>ph_name = name, ph_value = (v, trimmed v len)\<rparr>, buf)))"

text \<open>What is left is shorter.\<close>

lemma scan_bind_Reached: "scan_bind m f = Reached y \<longleftrightarrow> (\<exists>x. m = Reached x \<and> f x = Reached y)"
  by (cases m) simp_all

lemma expect_char_left: "EXPECT_CHAR ch buf = Reached r \<Longrightarrow> buf = ch # r"
  by (cases buf) (auto split: if_splits)

lemma token_loop_left: "token_loop ch n buf = Reached (m, r) \<Longrightarrow> length r \<le> length buf"
  by (induction ch n buf rule: token_loop.induct) (auto split: if_splits)

lemma skip_blanks_left: "skip_blanks buf = Reached r \<Longrightarrow> length r \<le> length buf"
  by (induction buf) (auto split: if_splits)

lemma eol_fast_left: "eol_fast buf = Reached (f, r) \<Longrightarrow> length r \<le> length buf"
proof (induction buf rule: eol_fast.induct)
  case (1 buf)
  then show ?case
    by (subst (asm) (3) eol_fast.simps)
      (fastforce split: if_splits scan.splits bool.splits list.splits dest: do_its_shorter)
qed

lemma eol_slow_left: "eol_slow buf = Reached r \<Longrightarrow> length r \<le> length buf"
  by (induction buf) (auto split: if_splits)

lemma token_to_eol_left: "get_token_to_eol buf = Reached (t, r) \<Longrightarrow> length r < length buf"
proof -
  have "length r < length b" if "found_ctl s b = Reached (t, r)" for s b
    using that by (cases b) (auto simp: scan_bind_Reached dest: expect_char_left split: if_splits)
  then show "length r < length buf" if "get_token_to_eol buf = Reached (t, r)"
    using that
    by (auto simp: get_token_to_eol_def scan_bind_Reached dest!: eol_fast_left eol_slow_left split: if_splits)
      (meson order_less_le_trans order_trans)+
qed

lemma after_colon_left: "after_colon name buf = Reached (n, r) \<Longrightarrow> length r \<le> length buf"
  by (cases buf) (auto simp: scan_bind_Reached dest: skip_blanks_left)

lemma header_name_left: "header_name first buf = Reached (n, r) \<Longrightarrow> length r \<le> length buf"
  by (cases buf) (auto simp: header_name_def parse_token_def scan_bind_Reached simp del: token_loop.simps
      dest!: token_loop_left after_colon_left split: if_split_asm)

lemma header_line_left: "header_line first buf = Reached (h, r) \<Longrightarrow> length r < length buf"
  unfolding header_line_def scan_bind_Reached
  by (auto dest!: token_to_eol_left header_name_left simp: scan_bind_Reached)

function parse_headers :: "nat \<Rightarrow> phr_header list \<Rightarrow> bytes \<Rightarrow> (phr_header list \<times> bytes) scan" where
  "parse_headers max_headers hs buf =
     (case buf of
        [] \<Rightarrow> Refused (-2)
      | c # rest \<Rightarrow>
          if c = 13 then scan_bind (EXPECT_CHAR 10 rest) (\<lambda>rest. Reached (hs, rest))
          else if c = 10 then Reached (hs, rest)
          else if length hs = max_headers then Refused (-1)
          else case header_line (hs = []) buf of
                 Overrun \<Rightarrow> Overrun
               | Refused r \<Rightarrow> Refused r
               | Reached (h, rest) \<Rightarrow> parse_headers max_headers (hs @ [h]) rest)"
  by pat_completeness auto
termination
  by (relation "measure (\<lambda>(_, _, buf). length buf)") (auto dest: header_line_left)

declare parse_headers.simps [simp del]

section \<open>Requests\<close>

text \<open>What the parameters point to; they are set as far as parsing has come.\<close>

record request_out =
  rq_method :: "token option"
  rq_path :: "token option"
  rq_minor :: int
  rq_headers :: "phr_header list"

definition no_request :: request_out where
  "no_request = \<lparr>rq_method = None, rq_path = None, rq_minor = -1, rq_headers = []\<rparr>"

fun after :: "'a scan \<Rightarrow> request_out \<Rightarrow> ('a \<Rightarrow> request_out \<times> 'b scan) \<Rightarrow> request_out \<times> 'b scan" where
  "after Overrun q f = (q, Overrun)"
| "after (Refused r) q f = (q, Refused r)"
| "after (Reached x) q f = f x"

fun skip_empty_line :: "bytes \<Rightarrow> bytes scan" where
  "skip_empty_line [] = Refused (-2)"
| "skip_empty_line (c # buf) =
     (if c = 13 then EXPECT_CHAR 10 buf else if c = 10 then Reached buf else Reached (c # buf))"

definition http_parse_request :: "nat \<Rightarrow> bytes \<Rightarrow> request_out \<times> bytes scan" where
  "http_parse_request max_headers buf =
     (let q = no_request
      in after (skip_empty_line buf) q (\<lambda>buf.
         after (parse_token 32 buf) q (\<lambda>(meth, buf).
         let q = q\<lparr>rq_method := Some meth\<rparr>
         in after (skip_spaces buf) q (\<lambda>buf.
         after (ADVANCE_TOKEN buf) q (\<lambda>(path, buf).
         let q = q\<lparr>rq_path := Some path\<rparr>
         in after (skip_spaces buf) q (\<lambda>buf.
         if snd meth = 0 \<or> snd path = 0 then (q, Refused (-1))
         else after (parse_http_version buf) q (\<lambda>(minor, buf).
         let q = q\<lparr>rq_minor := minor\<rparr>
         in after (line_end buf) q (\<lambda>buf.
         after (parse_headers max_headers [] buf) q (\<lambda>(hs, buf).
         (q\<lparr>rq_headers := hs\<rparr>, Reached buf))))))))))"

text \<open>
  The result is the number of characters consumed, as an \<open>int\<close>. With \<open>last_len\<close> the request is not parsed before
  its head is complete. The array of headers is that of a call that succeeds.
\<close>

definition consumed :: "bytes \<Rightarrow> bytes \<Rightarrow> int" where
  "consumed buf rest = sint (of_nat (length buf - length rest) :: i32)"

definition phr_parse_request :: "bytes \<Rightarrow> nat \<Rightarrow> nat \<Rightarrow> cpp_fault + int \<times> request_out" where
  "phr_parse_request buf max_headers last_len =
     (case (if last_len \<noteq> 0 then is_complete buf last_len else Reached buf) of
        Overrun \<Rightarrow> Inl Out_of_bounds
      | Refused r \<Rightarrow> Inr (r, no_request)
      | Reached _ \<Rightarrow>
          (case http_parse_request max_headers buf of
             (q, Overrun) \<Rightarrow> Inl Out_of_bounds
           | (q, Refused r) \<Rightarrow> Inr (r, q)
           | (q, Reached rest) \<Rightarrow> Inr (consumed buf rest, q)))"

section \<open>Responses and headers alone\<close>

text \<open>The parameters of a call that succeeds.\<close>

record response_out =
  rs_minor :: int
  rs_status :: int
  rs_msg :: token
  rs_headers :: "phr_header list"

text \<open>\<open>do { ++*msg; --*msg_len; } while (**msg == ' ')\<close>\<close>

fun strip_msg :: "bytes \<Rightarrow> nat \<Rightarrow> token scan" where
  "strip_msg [] n = Overrun"
| "strip_msg [c] n = Overrun"
| "strip_msg (c # d # p) n = (if d = 32 then strip_msg (d # p) (n - 1) else Reached (d # p, n - 1))"

definition status_msg :: "token \<Rightarrow> token scan" where
  "status_msg t =
     (let (p, n) = t
      in if n = 0 then Reached (p, n)
         else case p of
                [] \<Rightarrow> Overrun
              | c # _ \<Rightarrow> if c = 32 then strip_msg p n else Refused (-1))"

definition parse_response :: "nat \<Rightarrow> bytes \<Rightarrow> (response_out \<times> bytes) scan" where
  "parse_response max_headers buf =
     scan_bind (parse_http_version buf) (\<lambda>(minor, buf).
     scan_bind (case buf of [] \<Rightarrow> Overrun | c # _ \<Rightarrow> if c \<noteq> 32 then Refused (-1) else skip_spaces buf) (\<lambda>buf.
     if length buf < 4 then Refused (-2)
     else scan_bind (PARSE_INT_3 buf) (\<lambda>(status, buf).
     scan_bind (get_token_to_eol buf) (\<lambda>(t, buf).
     scan_bind (status_msg t) (\<lambda>msg.
     scan_bind (parse_headers max_headers [] buf) (\<lambda>(hs, buf).
     Reached (\<lparr>rs_minor = minor, rs_status = status, rs_msg = msg, rs_headers = hs\<rparr>, buf)))))))"

definition phr_code :: "bytes \<Rightarrow> nat \<Rightarrow> ('a \<times> bytes) scan \<Rightarrow> cpp_fault + int \<times> 'a option" where
  "phr_code buf last_len m =
     (case (if last_len \<noteq> 0 then is_complete buf last_len else Reached buf) of
        Overrun \<Rightarrow> Inl Out_of_bounds
      | Refused r \<Rightarrow> Inr (r, None)
      | Reached _ \<Rightarrow>
          (case m of
             Overrun \<Rightarrow> Inl Out_of_bounds
           | Refused r \<Rightarrow> Inr (r, None)
           | Reached (x, rest) \<Rightarrow> Inr (consumed buf rest, Some x)))"

definition phr_parse_response :: "bytes \<Rightarrow> nat \<Rightarrow> nat \<Rightarrow> cpp_fault + int \<times> response_out option" where
  "phr_parse_response buf max_headers last_len = phr_code buf last_len (parse_response max_headers buf)"

definition phr_parse_headers :: "bytes \<Rightarrow> nat \<Rightarrow> nat \<Rightarrow> cpp_fault + int \<times> phr_header list option" where
  "phr_parse_headers buf max_headers last_len = phr_code buf last_len (parse_headers max_headers [] buf)"

end
