(* ===== verification/Http_Server.thy ===== *)
theory Http_Server
  imports Dispatch Http_Parser
begin

text \<open>
  The HTTP side of the dispatch server, \<open>DispatchServerMain\<close> of \<open>src/dispatch.cpp\<close>: reading a request into
  the static buffer with the parser of theory \<open>Http_Parser\<close>, choosing what answers it, building the response and
  sending it. The two region queries are arguments.
\<close>

section \<open>Reading a request\<close>

definition buf_len :: nat where "buf_len = 16 * 1024"
definition hdr_cnt :: nat where "hdr_cnt = 128"

text \<open>
  What \<open>recv\<close> gives: some bytes, no more than there is room for; the end of the connection; an error,
  after which the loop tries again. The parser sees the whole buffer, also what earlier requests left in
  it, and the length before the last bytes; it gives a code and sets the pointers. \<open>Answer\<close> and \<open>Parsed\<close> hold
  what it left.
\<close>

datatype received = Bytes bytes | Closed | Failed

datatype reading = Waiting | Gone | Answer nat request_out bytes | Parsed int request_out nat bytes

definition put_bytes :: "nat \<Rightarrow> bytes \<Rightarrow> bytes \<Rightarrow> bytes" where
  "put_bytes off bs buf = take off buf @ bs @ drop (off + length bs) buf"

fun read_request :: "received list \<Rightarrow> nat \<Rightarrow> bytes \<Rightarrow> cpp_fault + reading" where
  "read_request [] n buf = Inr Waiting"
| "read_request (Closed # es) n buf = Inr Gone"
| "read_request (Failed # es) n buf = read_request es n buf"
| "read_request (Bytes b # es) n buf =
     (let b = take (buf_len - n) b;
          buf = put_bytes n b buf;
          len = n + length b
      in if b = [] then Inr Gone
         else case phr_parse_request buf hdr_cnt n of
                Inl f \<Rightarrow> Inl f
              | Inr (code, q) \<Rightarrow>
                  if -1 \<le> code then Inr (Parsed code q len buf)
                  else if code < -2 then Inr (Answer 500 q buf)
                  else if buf_len \<le> len then Inr (Answer 413 q buf)
                  else read_request es len buf)"

section \<open>What answers\<close>

definition sdkEndpoints :: "string list" where
  "sdkEndpoints =
     [''/query_region_list'', ''/query_cur_region'', ''/session/new'', ''/session/verify'', ''/session/combo'',
      ''/binder/ticket'', ''/binder/verify'', ''/gacha/details'', ''/gacha/history'', ''/redeem'', ''/gm'', ''/stat'',
      ''/player/'', ''/set-player/'', ''/admin'', ''/log'']"

definition SDK_ENDPOINT_CNT :: nat where "SDK_ENDPOINT_CNT = 16"

fun first_endpoint :: "bytes \<Rightarrow> nat \<Rightarrow> string list \<Rightarrow> nat option" where
  "first_endpoint path i [] = None"
| "first_endpoint path i (e # es) =
     (if strncmp_eq path (lit e) (length (lit e)) then Some i else first_endpoint path (i + 1) es)"

text \<open>\<open>meth\<close> and \<open>path\<close> point into the buffer: they are what is in it from there on.\<close>

definition is_method :: "bytes \<Rightarrow> string \<Rightarrow> bool" where
  "is_method meth m = strncmp_eq meth (lit m) (length m)"

definition http_status :: "bytes \<Rightarrow> bytes \<Rightarrow> nat" where
  "http_status meth path =
     (if is_method meth ''OPTIONS'' then 1204
      else if \<not> (is_method meth ''GET'' \<or> is_method meth ''POST'' \<or> is_method meth ''HEAD'') then 405
      else if strncmp_eq path (lit ''/ '') 2 \<or> strncmp_eq path (lit ''/?'') 2
      then (if is_method meth ''POST'' then 403 else 200)
      else if strncmp_eq path (lit ''/generate_204'') 13 \<or> strncmp_eq path (lit ''/gen_204'') 8 then 204
      else case first_endpoint path 0 sdkEndpoints of
             Some i \<Rightarrow> i
           | None \<Rightarrow> if strncmp_eq path (lit ''/'') 1 then 404 else 400)"

text \<open>A pointer the parser set into \<open>buf\<close>, when the buffer has become \<open>now\<close>.\<close>

definition pointee :: "bytes \<Rightarrow> bytes \<Rightarrow> token \<Rightarrow> bytes" where
  "pointee buf now t = drop (length buf - length (fst t)) now"

text \<open>
  After the read loop: a parse error is a bad request; otherwise a 0 is written behind the request, which
  is behind the buffer when the request fills it, and the body of a POST is what follows the head. The status goes
  with what the answer looks at: \<open>meth\<close>, which may be a null pointer, the minor version and the body.
\<close>

record task =
  tk_status :: nat
  tk_meth :: "bytes option"
  tk_minor :: int
  tk_body :: "bytes option"

definition accept_request :: "reading \<Rightarrow> cpp_fault + task option" where
  "accept_request r =
     (case r of
        Waiting \<Rightarrow> Inr None
      | Gone \<Rightarrow> Inr None
      | Answer s q buf \<Rightarrow>
          Inr (Some \<lparr>tk_status = s, tk_meth = map_option (pointee buf buf) (rq_method q), tk_minor = rq_minor q, tk_body = None\<rparr>)
      | Parsed code q n buf \<Rightarrow>
          if code < 0
          then Inr (Some \<lparr>tk_status = 400, tk_meth = map_option (pointee buf buf) (rq_method q), tk_minor = rq_minor q, tk_body = None\<rparr>)
          else if buf_len \<le> n then Inl Out_of_bounds
          else
            let now = buf[n := 0]
            in case (rq_method q, rq_path q) of
                 (Some m, Some p) \<Rightarrow>
                   let meth = pointee buf now m; path = pointee buf now p
                   in Inr (Some \<lparr>tk_status = http_status meth path, tk_meth = Some meth, tk_minor = rq_minor q,
                        tk_body = (if is_method meth ''POST'' then Some (drop (nat code) now) else None)\<rparr>)
               | _ \<Rightarrow> Inl Null_pointer)"

section \<open>The answer\<close>

text \<open>Reason phrase, content and kind, and extra header lines. \<open>pkg\<close> is the name of the package.\<close>

record content =
  ct_reason :: string
  ct_mime :: string
  ct_body :: bytes
  ct_extra :: bytes

definition json_content :: "string \<Rightarrow> bytes \<Rightarrow> content" where
  "json_content reason body = \<lparr>ct_reason = reason, ct_mime = ''application/json'', ct_body = body, ct_extra = []\<rparr>"

definition text_content :: "string \<Rightarrow> bytes \<Rightarrow> content" where
  "text_content reason body = \<lparr>ct_reason = reason, ct_mime = ''text/plain'', ct_body = body, ct_extra = []\<rparr>"

definition allow_header :: bytes where
  "allow_header = lit ''Allow: GET, HEAD, POST, OPTIONS'' @ [13, 10]"

definition generic_content :: "string \<Rightarrow> nat \<Rightarrow> content" where
  "generic_content pkg s =
     (if s = 403 then json_content ''Forbidden'' (reply ''-1'' ''Permission denied'')
      else if s = 204 then text_content ''No Content'' []
      else if s = 1204 then (text_content ''No Content'' [])\<lparr>ct_extra := allow_header\<rparr>
      else if s = 405 then (json_content ''Method Not Allowed'' (reply ''-1'' ''HTTP method not allowed''))\<lparr>ct_extra := allow_header\<rparr>
      else if s = 500 then json_content ''Internal Server Error'' (reply ''-1'' ''Internal server error'')
      else if s = 413 then json_content ''Content Too Large'' (reply ''-1'' ''Request too big'')
      else if s = 200 then text_content ''OK'' (lit (''hi from '' @ pkg @ '' dispatch server'') @ [10])
      else json_content ''Not Found'' (reply ''-10'' ''No such endpoint''))"

text \<open>The region queries give a message, the second with a signature.\<close>

definition endpoint_content ::
  "('j, 'd) web \<Rightarrow> (bytes option \<Rightarrow> bytes) \<Rightarrow> (bytes option \<Rightarrow> bytes \<times> bytes) \<Rightarrow> nat \<Rightarrow> bytes option \<Rightarrow> 'd dbgate
     \<Rightarrow> cpp_fault + content \<times> 'd dbgate" where
  "endpoint_content W regions region i body g =
     (if i = 0 then Inr (text_content ''OK'' (b64enc (regions body)), g)
      else if i = 1 then
        (let (r, sign) = region body
         in Inr (if sign = [] then text_content ''OK'' (b64enc r)
                 else json_content ''OK'' (lit ''{\"content\":\"'' @ b64enc r @ lit ''\",\"sign\":\"'' @ b64enc sign @ lit ''\"}''), g))
      else if i = 2 then map_sum id (\<lambda>(r, g). (json_content ''OK'' r, g)) (handleLogin W body g)
      else if i = 3 then Inr (json_content ''OK'' (handleVerify W body g), g)
      else if i = 4 then map_sum id (\<lambda>(r, g). (json_content ''OK'' r, g)) (handleCombo W body g)
      else if i = 5 then map_sum id (\<lambda>(r, g). (json_content ''OK'' r, g)) (handleActionTicket W body g)
      else if i = 6 then map_sum id (\<lambda>(r, g). (json_content ''OK'' r, g)) (handleBindRealname W body g)
      else if i = 15 then Inr (json_content ''OK'' (fst (handleClientLog W body)), g)
      else Inr (json_content ''OK'' (reply ''-1'' ''Endpoint not implemented yet, please be patient''), g))"

definition decimal3 :: "nat \<Rightarrow> bytes" where
  "decimal3 n = (let d = decimal n in replicate (3 - length d) 48 @ d)"

definition crlf :: bytes where "crlf = [13, 10]"

definition decimal_int :: "int \<Rightarrow> bytes" where
  "decimal_int i = (if i < 0 then 45 # decimal (nat (- i)) else decimal (nat i))"

text \<open>
  The response is printed into the buffer and sent up to its first 0: one that is too long is cut off.
  \<open>server\<close> is the name and version of the package.
\<close>

definition http_response :: "int \<Rightarrow> nat \<Rightarrow> bytes \<Rightarrow> bytes \<Rightarrow> content \<Rightarrow> bytes" where
  "http_response mver s server meth c =
     c_str (take (buf_len - 1)
       (lit ''HTTP/1.'' @ decimal_int mver @ [32] @ decimal3 s @ [32] @ lit (ct_reason c) @ crlf @
        lit ''Content-Length: '' @ decimal (length (ct_body c)) @ crlf @
        lit ''Content-Type: '' @ lit (ct_mime c) @ crlf @
        lit ''Connection: close'' @ crlf @
        lit ''Server: '' @ server @ crlf @ ct_extra c @ crlf @
        (if is_method meth ''HEAD'' then [] else c_str (ct_body c))))"

text \<open>The method is compared once more, through the pointer.\<close>

definition serve ::
  "('j, 'd) web \<Rightarrow> (bytes option \<Rightarrow> bytes) \<Rightarrow> (bytes option \<Rightarrow> bytes \<times> bytes) \<Rightarrow> string \<Rightarrow> bytes
     \<Rightarrow> task \<Rightarrow> 'd dbgate \<Rightarrow> cpp_fault + bytes \<times> 'd dbgate" where
  "serve W regions region pkg server t g =
     (let s = tk_status t;
          answer = (if s < SDK_ENDPOINT_CNT
                    then map_sum id (\<lambda>(c, g). (200, c, g)) (endpoint_content W regions region s (tk_body t) g)
                    else Inr (if s = 1204 then 204 else s, generic_content pkg s, g))
      in case answer of
           Inl f \<Rightarrow> Inl f
         | Inr (s, c, g) \<Rightarrow>
             (case tk_meth t of
                None \<Rightarrow> Inl Null_pointer
              | Some meth \<Rightarrow> Inr (http_response (tk_minor t) s server meth c, g)))"

section \<open>Sending\<close>

text \<open>
  \<open>net\<close> is what each call of \<open>send\<close> gives: a number of bytes, or an error, after which the connection is
  closed and the loop goes on without one; sending without a connection is an error every time. The
  result is the number of calls, \<^term>\<open>None\<close> when the loop does not end.
\<close>

partial_function (option) send_loop :: "(nat \<Rightarrow> nat option) \<Rightarrow> nat \<Rightarrow> bool \<Rightarrow> nat \<Rightarrow> nat option" where
  "send_loop net i conn len =
     (if len = 0 then Some i
      else case (if conn then net i else None) of
             None \<Rightarrow> send_loop net (i + 1) False len
           | Some n \<Rightarrow> send_loop net (i + 1) True (len - n))"

section \<open>Routing\<close>

lemma strncmp_prefix:
  assumes "0 \<notin> set e"
  shows "strncmp_eq path e (length e) \<longleftrightarrow> (\<exists>rest. path = e @ rest)"
proof
  assume "strncmp_eq path e (length e)"
  then have "take (length e) (c_str path) = e" using c_str_plain [OF assms] by (simp add: strncmp_eq_def)
  moreover have "path = c_str path @ dropWhile (\<lambda>b. b \<noteq> 0) path" by (simp add: c_str_def)
  ultimately show "\<exists>rest. path = e @ rest" by (metis append.assoc append_take_drop_id)
next
  assume "\<exists>rest. path = e @ rest"
  then obtain rest where "path = e @ rest" by blast
  moreover have "c_str (e @ rest) = e @ c_str rest" using assms by (induction e) (simp_all add: c_str_def)
  ultimately show "strncmp_eq path e (length e)" using c_str_plain [OF assms] by (simp add: strncmp_eq_def)
qed

text \<open>No endpoint is a prefix of another one, nor of the fixed paths, so that each is found.\<close>

definition prefix_free :: "bytes list \<Rightarrow> bool" where
  "prefix_free ps \<longleftrightarrow>
     list_all (\<lambda>i. list_all (\<lambda>j. i = j \<or> take (length (ps ! j)) (ps ! i) \<noteq> take (length (ps ! i)) (ps ! j)) [0..<length ps])
       [0..<length ps]"

lemma endpoints_prefix_free:
  "prefix_free (map lit ([''/ '', ''/?'', ''/generate_204'', ''/gen_204''] @ sdkEndpoints))"
  by code_simp

lemma paths_plain:
  "list_all (\<lambda>e. 0 \<notin> set (lit e) \<and> length (lit e) = length e)
     ([''/ '', ''/?'', ''/generate_204'', ''/gen_204'', ''/'', ''OPTIONS'', ''GET'', ''POST'', ''HEAD''] @ sdkEndpoints)"
  by code_simp

lemma path_prefix:
  assumes "e \<in> set ([''/ '', ''/?'', ''/generate_204'', ''/gen_204'', ''/''] @ sdkEndpoints)"
  shows "strncmp_eq path (lit e) (length e) \<longleftrightarrow> (\<exists>rest. path = lit e @ rest)"
    "strncmp_eq path (lit e) (length (lit e)) \<longleftrightarrow> (\<exists>rest. path = lit e @ rest)"
proof -
  have "0 \<notin> set (lit e)" using paths_plain assms by (auto simp: list_all_iff)
  then show "strncmp_eq path (lit e) (length e) \<longleftrightarrow> (\<exists>rest. path = lit e @ rest)"
    "strncmp_eq path (lit e) (length (lit e)) \<longleftrightarrow> (\<exists>rest. path = lit e @ rest)"
    using strncmp_prefix [of "lit e" path] by (simp_all add: lit_def)
qed

lemma no_common_path:
  assumes "prefix_free ps" "i < length ps" "j < length ps" "ps ! i @ r = ps ! j @ t"
  shows "i = j"
proof -
  let ?a = "ps ! i" and ?b = "ps ! j"
  have "take (length ?b) ?a = take (min (length ?a) (length ?b)) (?a @ r)" by (simp add: min_def)
  also have "\<dots> = take (min (length ?a) (length ?b)) (?b @ t)" by (simp only: assms(4))
  also have "\<dots> = take (length ?a) ?b" by (simp add: min_def)
  finally have "take (length ?b) ?a = take (length ?a) ?b" .
  then show ?thesis using assms(1-3) by (fastforce simp: prefix_free_def list_all_iff)
qed

lemma first_endpoint_at:
  assumes "i < length es" "strncmp_eq path (lit (es ! i)) (length (lit (es ! i)))"
    "\<And>j. j < i \<Longrightarrow> \<not> strncmp_eq path (lit (es ! j)) (length (lit (es ! j)))"
  shows "first_endpoint path n es = Some (n + i)"
  using assms
proof (induction es arbitrary: i n)
  case (Cons e es)
  show ?case
  proof (cases i)
    case 0
    then show ?thesis using Cons.prems(2) by simp
  next
    case (Suc i')
    have "\<not> strncmp_eq path (lit e) (length (lit e))" using Cons.prems(3) [of 0] Suc by simp
    moreover have "first_endpoint path (n + 1) es = Some (n + 1 + i')"
      using Cons.prems Suc Cons.prems(3) [of "Suc _"] by (intro Cons.IH) auto
    ultimately show ?thesis using Suc by simp
  qed
qed simp

lemma first_endpoint_none:
  "first_endpoint path n es = None \<longleftrightarrow> (\<forall>e \<in> set es. \<not> strncmp_eq path (lit e) (length (lit e)))"
  by (induction path n es rule: first_endpoint.induct) auto

section \<open>The send loop\<close>

text \<open>It ends exactly when the peer takes everything before the first error.\<close>

definition taken :: "(nat \<Rightarrow> nat option) \<Rightarrow> nat \<Rightarrow> nat \<Rightarrow> bool" where
  "taken net i len \<longleftrightarrow> (\<exists>k. (\<forall>m<k. net (i + m) \<noteq> None) \<and> len \<le> (\<Sum>m<k. the (net (i + m))))"

lemma taken_step:
  assumes "net i = Some n" "taken net (i + 1) (len - n)"
  shows "taken net i len"
proof -
  obtain k where k: "\<forall>m<k. net (i + 1 + m) \<noteq> None" "len - n \<le> (\<Sum>m<k. the (net (i + 1 + m)))"
    using assms(2) unfolding taken_def by blast
  have "\<forall>m<Suc k. net (i + m) \<noteq> None" using k(1) assms(1) by (auto simp: less_Suc_eq_0_disj)
  moreover have "len \<le> (\<Sum>m<Suc k. the (net (i + m)))"
    using k(2) assms(1) unfolding sum.lessThan_Suc_shift by simp
  ultimately show ?thesis unfolding taken_def by blast
qed

lemma send_loop_result:
  "send_loop net i conn len = Some x \<Longrightarrow> (0 < len \<longrightarrow> conn) \<and> (conn \<longrightarrow> taken net i len)"
proof (rule send_loop.raw_induct [where P = "\<lambda>net i conn len x. (0 < len \<longrightarrow> conn) \<and> (conn \<longrightarrow> taken net i len)", rotated])
  fix rec :: "(nat \<Rightarrow> nat option) \<Rightarrow> nat \<Rightarrow> bool \<Rightarrow> nat \<Rightarrow> nat option" and net i conn len x
  assume IH: "\<And>net i conn len x. rec net i conn len = Some x \<Longrightarrow> (0 < len \<longrightarrow> conn) \<and> (conn \<longrightarrow> taken net i len)"
    and r: "(if len = 0 then Some i
      else case (if conn then net i else None) of None \<Rightarrow> rec net (i + 1) False len
        | Some n \<Rightarrow> rec net (i + 1) True (len - n)) = Some x"
  show "(0 < len \<longrightarrow> conn) \<and> (conn \<longrightarrow> taken net i len)"
  proof (cases "len = 0")
    case True
    then show ?thesis by (auto simp: taken_def intro: exI [where x = 0])
  next
    case False
    then obtain n where n: "conn" "net i = Some n" "rec net (i + 1) True (len - n) = Some x"
      using r IH [of net "i + 1" False len x] by (auto split: option.splits if_splits)
    then have "taken net (i + 1) (len - n)" using IH by blast
    with n taken_step show ?thesis by blast
  qed
qed

lemma send_loop_ends: "(\<exists>x. send_loop net i True len = Some x) \<longleftrightarrow> taken net i len"
proof
  show "\<exists>x. send_loop net i True len = Some x \<Longrightarrow> taken net i len" using send_loop_result by blast
next
  assume "taken net i len"
  then obtain k where "\<forall>m<k. net (i + m) \<noteq> None" "len \<le> (\<Sum>m<k. the (net (i + m)))"
    unfolding taken_def by blast
  then show "\<exists>x. send_loop net i True len = Some x"
  proof (induction k arbitrary: i len)
    case 0
    then show ?case by (simp add: send_loop.simps)
  next
    case (Suc k)
    then obtain n where n: "net i = Some n" by force
    have "\<exists>x. send_loop net (i + 1) True (len - n) = Some x"
    proof (rule Suc.IH)
      show "\<forall>m<k. net (i + 1 + m) \<noteq> None" using Suc.prems(1) by auto
      show "len - n \<le> (\<Sum>m<k. the (net (i + 1 + m)))"
        using Suc.prems(2) n unfolding sum.lessThan_Suc_shift by simp
    qed
    then show ?case using n by (subst send_loop.simps) simp
  qed
qed

end
