(* ===== verification/Dispatch_Keys.thy ===== *)
theory Dispatch_Keys
  imports Yagips_Prelude
begin

text \<open>
  The keys built into the program, \<open>src/keys.c\<close>: the four RSA keys the dispatch server encrypts its answers
  with, in the encoding of PKCS 1, and the table through which they are chosen. Places 0 and 1 of the table are null
  pointers.
\<close>

section \<open>The keys\<close>

definition DispatchPrivKey2 :: bytes where
  "DispatchPrivKey2 =
    [48, 130, 4, 164, 2, 1, 0, 2, 130, 1, 1, 0, 207, 247, 242, 126, 140, 229, 12, 128, 214, 27, 215, 183,
     45, 189, 189, 251, 184, 247, 115, 174, 176, 189, 66, 65, 104, 21, 143, 215, 74, 193, 244, 116, 196, 234, 154, 227,
     125, 193, 140, 168, 47, 98, 154, 190, 179, 1, 208, 253, 171, 225, 171, 214, 62, 222, 130, 250, 160, 139, 112, 218,
     249, 80, 64, 48, 81, 253, 219, 254, 112, 15, 147, 236, 15, 183, 87, 241, 157, 159, 226, 142, 185, 86, 77, 167,
     84, 230, 60, 14, 94, 249, 103, 251, 145, 134, 13, 4, 187, 9, 223, 174, 247, 157, 235, 220, 253, 44, 110, 174,
     182, 105, 114, 191, 166, 20, 60, 7, 229, 94, 31, 201, 23, 14, 195, 171, 167, 56, 16, 103, 145, 248, 167, 163,
     21, 60, 38, 86, 17, 29, 204, 241, 135, 141, 120, 69, 154, 197, 109, 244, 119, 87, 69, 132, 159, 224, 220, 71,
     63, 51, 176, 143, 203, 98, 73, 163, 144, 3, 72, 194, 224, 78, 38, 51, 186, 239, 25, 33, 249, 25, 126, 161,
     153, 175, 187, 164, 153, 229, 255, 159, 171, 17, 83, 52, 153, 36, 47, 155, 73, 181, 93, 231, 230, 184, 92, 180,
     227, 70, 196, 103, 254, 142, 237, 151, 167, 56, 96, 108, 190, 252, 46, 27, 116, 211, 224, 83, 67, 55, 53, 188,
     15, 15, 68, 196, 125, 101, 232, 218, 17, 25, 165, 100, 13, 219, 107, 151, 249, 197, 187, 159, 154, 211, 211, 230,
     252, 77, 4, 151, 2, 3, 1, 0, 1, 2, 130, 1, 1, 0, 173, 31, 94, 194, 114, 79, 138, 37, 6, 23,
     143, 111, 113, 168, 110, 42, 202, 67, 84, 13, 172, 27, 32, 184, 138, 8, 201, 1, 19, 190, 121, 221, 106, 191,
     81, 200, 230, 186, 228, 120, 109, 89, 204, 47, 203, 156, 75, 121, 160, 71, 240, 96, 29, 93, 229, 242, 245, 10,
     159, 27, 234, 71, 31, 232, 25, 153, 22, 53, 172, 219, 138, 236, 11, 249, 56, 64, 110, 82, 214, 170, 177, 38,
     98, 230, 85, 10, 132, 28, 2, 123, 228, 79, 203, 72, 168, 53, 179, 237, 248, 67, 18, 230, 103, 158, 67, 51,
     101, 192, 19, 33, 156, 224, 101, 68, 154, 228, 135, 207, 222, 237, 235, 63, 227, 43, 85, 188, 154, 9, 220, 201,
     17, 226, 52, 98, 187, 245, 93, 63, 140, 229, 215, 100, 41, 10, 216, 130, 160, 185, 145, 24, 152, 139, 242, 227,
     53, 194, 201, 134, 164, 149, 183, 202, 119, 236, 39, 73, 199, 83, 198, 28, 88, 202, 41, 190, 12, 102, 144, 13,
     148, 212, 96, 121, 59, 86, 164, 101, 95, 75, 67, 201, 47, 54, 162, 35, 83, 114, 61, 34, 111, 239, 21, 153,
     129, 88, 91, 43, 223, 176, 67, 26, 146, 27, 162, 166, 103, 139, 233, 18, 244, 72, 215, 50, 162, 162, 254, 65,
     176, 1, 77, 248, 103, 238, 15, 153, 169, 159, 85, 232, 244, 42, 115, 77, 248, 255, 176, 237, 119, 86, 145, 199,
     248, 203, 124, 211, 236, 129, 2, 129, 129, 0, 246, 23, 84, 71, 23, 186, 14, 115, 170, 74, 151, 186, 158, 29,
     167, 84, 180, 230, 198, 179, 215, 53, 143, 133, 72, 80, 155, 224, 171, 110, 24, 30, 78, 170, 99, 158, 2, 73,
     16, 30, 253, 168, 202, 198, 155, 41, 34, 208, 255, 220, 26, 214, 211, 114, 177, 223, 243, 232, 187, 128, 57, 72,
     25, 109, 14, 49, 190, 63, 142, 126, 31, 228, 0, 149, 15, 77, 34, 202, 249, 7, 72, 99, 231, 208, 8, 166,
     50, 131, 78, 49, 185, 6, 162, 222, 210, 145, 41, 231, 115, 12, 87, 117, 172, 48, 15, 36, 238, 217, 218, 31,
     94, 224, 107, 239, 111, 134, 98, 168, 17, 0, 110, 118, 34, 224, 52, 11, 74, 81, 2, 129, 129, 0, 216, 87,
     167, 245, 50, 91, 248, 109, 7, 110, 223, 172, 167, 33, 254, 180, 202, 64, 169, 181, 218, 64, 85, 219, 64, 36,
     145, 21, 16, 82, 38, 226, 137, 12, 150, 185, 229, 138, 179, 238, 91, 85, 165, 185, 71, 154, 3, 34, 21, 177,
     169, 251, 73, 182, 113, 5, 89, 75, 214, 105, 49, 233, 30, 192, 127, 110, 152, 210, 220, 34, 122, 90, 73, 234,
     53, 186, 90, 221, 2, 18, 114, 149, 117, 187, 15, 21, 248, 75, 115, 252, 173, 191, 126, 216, 242, 103, 49, 104,
     158, 167, 62, 38, 231, 121, 223, 174, 49, 21, 210, 37, 58, 196, 99, 246, 6, 103, 43, 205, 214, 114, 232, 186,
     16, 92, 64, 122, 190, 103, 2, 129, 129, 0, 156, 211, 207, 52, 163, 45, 65, 234, 122, 58, 161, 41, 31, 124,
     156, 87, 130, 21, 147, 201, 166, 59, 142, 228, 12, 106, 186, 123, 218, 36, 6, 32, 194, 87, 25, 182, 231, 147,
     242, 63, 29, 190, 4, 195, 190, 187, 223, 97, 59, 188, 228, 41, 197, 132, 209, 80, 124, 90, 243, 170, 202, 86,
     101, 69, 183, 135, 1, 203, 245, 29, 241, 106, 214, 232, 39, 97, 43, 236, 23, 249, 137, 43, 137, 222, 108, 180,
     165, 122, 66, 73, 179, 181, 67, 244, 38, 82, 182, 86, 182, 93, 198, 26, 202, 137, 178, 13, 2, 94, 57, 0,
     70, 241, 84, 55, 185, 101, 245, 215, 79, 70, 108, 30, 195, 41, 8, 97, 173, 145, 2, 129, 128, 114, 98, 174,
     88, 83, 95, 19, 83, 186, 89, 98, 4, 44, 126, 41, 232, 183, 3, 71, 119, 242, 68, 143, 224, 147, 226, 129,
     159, 44, 120, 243, 60, 85, 144, 5, 101, 150, 187, 38, 117, 129, 111, 32, 103, 125, 55, 46, 46, 232, 95, 126,
     107, 113, 198, 247, 173, 7, 80, 180, 181, 252, 0, 177, 20, 192, 139, 222, 91, 166, 174, 200, 24, 82, 250, 117,
     155, 233, 140, 239, 26, 135, 225, 4, 85, 122, 29, 120, 161, 148, 90, 230, 22, 216, 223, 166, 18, 239, 169, 204,
     48, 203, 8, 208, 220, 188, 106, 162, 99, 82, 48, 3, 9, 113, 124, 212, 87, 218, 110, 67, 211, 143, 191, 73,
     5, 45, 198, 120, 67, 2, 129, 128, 23, 152, 82, 19, 211, 191, 80, 162, 65, 227, 38, 181, 179, 253, 70, 168,
     17, 70, 235, 54, 69, 193, 255, 203, 202, 136, 14, 25, 25, 44, 204, 182, 93, 227, 80, 244, 29, 94, 181, 95,
     123, 74, 31, 120, 168, 170, 9, 11, 56, 127, 132, 180, 117, 129, 35, 10, 254, 255, 56, 136, 163, 87, 146, 246,
     226, 104, 255, 103, 84, 56, 171, 239, 146, 228, 233, 44, 40, 179, 207, 1, 221, 224, 95, 128, 24, 109, 23, 32,
     61, 46, 43, 80, 169, 117, 160, 57, 63, 121, 131, 116, 8, 214, 2, 252, 54, 21, 246, 192, 47, 235, 153, 87,
     241, 189, 249, 29, 136, 111, 92, 132, 149, 98, 220, 48, 66, 239, 254, 98]"

definition DispatchPrivKey3 :: bytes where
  "DispatchPrivKey3 =
    [48, 130, 4, 164, 2, 1, 0, 2, 130, 1, 1, 0, 211, 99, 53, 35, 85, 127, 98, 252, 64, 52, 235, 203,
     21, 127, 17, 236, 63, 0, 183, 141, 8, 149, 62, 199, 13, 106, 64, 91, 123, 126, 180, 8, 16, 238, 202, 163,
     9, 230, 14, 198, 37, 234, 57, 166, 176, 218, 66, 97, 51, 113, 211, 230, 118, 101, 151, 143, 20, 155, 41, 21,
     171, 142, 80, 211, 146, 121, 238, 120, 93, 74, 193, 151, 44, 155, 33, 180, 183, 19, 131, 217, 98, 48, 74, 22,
     235, 80, 99, 85, 152, 189, 16, 243, 209, 74, 113, 52, 230, 208, 73, 115, 158, 226, 169, 156, 62, 104, 71, 26,
     73, 77, 26, 193, 252, 193, 115, 194, 36, 69, 222, 190, 164, 158, 98, 34, 1, 21, 126, 228, 229, 185, 169, 226,
     206, 17, 214, 189, 25, 98, 220, 73, 0, 23, 133, 77, 133, 164, 223, 63, 113, 36, 97, 250, 248, 52, 79, 61,
     245, 165, 30, 73, 198, 219, 116, 177, 72, 234, 237, 87, 66, 231, 101, 36, 35, 211, 197, 162, 18, 199, 150, 92,
     192, 207, 167, 63, 123, 246, 227, 96, 1, 114, 56, 20, 113, 240, 155, 207, 64, 24, 231, 142, 214, 107, 50, 184,
     109, 99, 247, 170, 39, 50, 198, 142, 12, 160, 179, 168, 123, 213, 129, 171, 161, 46, 27, 128, 174, 101, 10, 243,
     42, 122, 188, 150, 212, 177, 185, 223, 250, 114, 23, 96, 240, 202, 169, 252, 134, 172, 17, 13, 147, 166, 246, 59,
     242, 209, 23, 13, 2, 3, 1, 0, 1, 2, 130, 1, 1, 0, 184, 184, 251, 24, 147, 128, 44, 73, 238, 249,
     208, 11, 186, 15, 62, 228, 73, 242, 32, 116, 56, 73, 227, 128, 34, 178, 244, 230, 124, 182, 174, 48, 86, 75,
     181, 252, 95, 140, 16, 225, 11, 4, 241, 184, 62, 215, 156, 38, 64, 196, 121, 189, 237, 60, 190, 2, 164, 169,
     42, 111, 235, 105, 4, 44, 190, 213, 154, 148, 200, 65, 169, 134, 167, 206, 48, 216, 49, 27, 246, 158, 34, 117,
     188, 104, 230, 221, 106, 208, 196, 22, 132, 23, 236, 142, 182, 250, 217, 176, 174, 95, 65, 59, 37, 168, 137, 200,
     170, 73, 200, 64, 126, 223, 130, 54, 179, 39, 182, 118, 240, 61, 124, 177, 131, 99, 223, 186, 159, 21, 100, 146,
     202, 104, 5, 163, 228, 168, 75, 240, 74, 18, 189, 180, 210, 90, 81, 3, 250, 26, 25, 120, 135, 115, 34, 14,
     140, 152, 157, 63, 166, 251, 80, 103, 172, 238, 232, 76, 93, 75, 203, 173, 250, 51, 152, 43, 18, 170, 201, 113,
     92, 238, 84, 147, 149, 205, 253, 245, 165, 224, 188, 66, 25, 126, 230, 164, 215, 207, 100, 132, 249, 96, 20, 163,
     30, 88, 133, 144, 217, 113, 34, 60, 137, 131, 195, 145, 44, 104, 188, 216, 205, 156, 187, 44, 105, 223, 218, 253,
     220, 94, 174, 104, 40, 203, 181, 191, 171, 119, 9, 70, 186, 190, 231, 166, 5, 212, 144, 167, 214, 64, 151, 253,
     88, 78, 238, 106, 190, 129, 2, 129, 129, 0, 245, 200, 184, 139, 152, 20, 85, 33, 168, 220, 249, 8, 165, 52,
     215, 136, 217, 187, 164, 37, 211, 62, 89, 3, 79, 21, 243, 135, 19, 37, 199, 203, 32, 174, 30, 218, 186, 130,
     240, 49, 83, 149, 208, 52, 22, 213, 95, 56, 107, 116, 87, 79, 7, 255, 29, 169, 68, 40, 70, 58, 245, 48,
     24, 110, 103, 159, 208, 234, 170, 30, 129, 140, 28, 148, 173, 110, 51, 218, 25, 215, 205, 61, 217, 185, 32, 225,
     233, 230, 169, 136, 32, 117, 142, 95, 102, 120, 157, 44, 158, 17, 118, 62, 207, 225, 169, 97, 139, 217, 189, 210,
     144, 32, 158, 247, 74, 149, 79, 51, 149, 57, 226, 206, 233, 133, 2, 32, 234, 189, 2, 129, 129, 0, 220, 44,
     125, 9, 0, 171, 253, 49, 195, 201, 222, 68, 99, 83, 174, 117, 226, 154, 246, 210, 249, 85, 207, 32, 93, 252,
     194, 39, 101, 142, 230, 205, 55, 176, 216, 229, 194, 5, 77, 2, 107, 157, 48, 86, 41, 187, 179, 254, 223, 90,
     39, 196, 23, 233, 49, 75, 209, 200, 191, 246, 248, 79, 38, 132, 225, 124, 189, 118, 188, 189, 164, 88, 102, 32,
     90, 69, 145, 62, 106, 154, 5, 109, 242, 207, 177, 236, 230, 187, 126, 198, 225, 247, 255, 176, 57, 195, 155, 230,
     144, 72, 53, 53, 146, 96, 158, 194, 116, 172, 197, 19, 187, 84, 58, 60, 206, 66, 6, 14, 142, 167, 33, 216,
     225, 56, 65, 111, 202, 145, 2, 129, 128, 48, 191, 28, 138, 227, 32, 181, 57, 181, 202, 13, 194, 63, 49, 217,
     197, 148, 153, 120, 150, 223, 236, 175, 174, 206, 82, 166, 56, 21, 254, 26, 64, 25, 61, 47, 117, 102, 36, 110,
     10, 250, 110, 238, 26, 70, 165, 14, 251, 155, 164, 57, 100, 189, 75, 69, 208, 186, 105, 218, 115, 251, 9, 12,
     239, 104, 177, 243, 183, 119, 2, 17, 227, 126, 15, 166, 206, 2, 142, 177, 45, 113, 209, 96, 139, 45, 16, 97,
     89, 148, 42, 33, 117, 239, 68, 208, 135, 255, 116, 71, 237, 98, 172, 86, 130, 133, 27, 137, 167, 39, 212, 201,
     45, 15, 26, 48, 186, 168, 56, 172, 210, 12, 63, 201, 100, 205, 229, 69, 105, 2, 129, 128, 60, 134, 126, 88,
     219, 54, 108, 132, 33, 174, 124, 203, 144, 2, 145, 19, 23, 24, 66, 129, 252, 200, 250, 7, 139, 206, 208, 16,
     196, 122, 100, 56, 69, 246, 247, 169, 49, 141, 3, 126, 134, 214, 207, 82, 224, 102, 25, 53, 23, 113, 81, 61,
     54, 213, 132, 23, 179, 179, 220, 17, 168, 113, 25, 197, 173, 182, 252, 222, 135, 68, 26, 201, 178, 73, 114, 135,
     109, 70, 27, 71, 251, 246, 29, 169, 186, 223, 197, 14, 5, 235, 230, 114, 166, 119, 107, 105, 186, 145, 199, 88,
     18, 72, 135, 212, 199, 207, 237, 3, 17, 170, 58, 245, 12, 141, 106, 165, 251, 196, 68, 178, 237, 59, 17, 174,
     197, 78, 86, 1, 2, 129, 129, 0, 154, 85, 171, 242, 99, 164, 165, 143, 118, 81, 67, 184, 138, 147, 215, 199,
     146, 7, 191, 108, 89, 126, 206, 16, 13, 197, 23, 214, 84, 230, 12, 11, 201, 131, 218, 1, 195, 178, 175, 66,
     33, 208, 169, 212, 200, 52, 180, 154, 86, 45, 161, 160, 200, 51, 53, 146, 0, 161, 101, 139, 31, 127, 136, 209,
     196, 112, 184, 115, 59, 192, 182, 131, 210, 151, 21, 151, 23, 105, 203, 223, 90, 137, 222, 249, 54, 103, 60, 220,
     107, 129, 146, 28, 2, 39, 161, 213, 193, 172, 171, 45, 106, 254, 82, 32, 170, 44, 88, 164, 246, 99, 43, 49,
     128, 121, 64, 245, 41, 182, 127, 137, 244, 244, 104, 197, 110, 201, 68, 30]"

definition DispatchPrivKey4 :: bytes where
  "DispatchPrivKey4 =
    [48, 130, 4, 164, 2, 1, 0, 2, 130, 1, 1, 0, 201, 172, 106, 140, 242, 79, 231, 226, 39, 157, 251, 249,
     33, 215, 208, 169, 143, 223, 181, 47, 190, 150, 112, 209, 123, 113, 28, 204, 217, 8, 140, 68, 150, 94, 17, 210,
     58, 88, 196, 195, 214, 253, 11, 239, 193, 180, 95, 159, 59, 212, 25, 47, 182, 123, 227, 108, 180, 233, 226, 29,
     190, 195, 15, 64, 167, 70, 126, 80, 118, 235, 239, 78, 103, 192, 5, 225, 42, 87, 14, 125, 218, 85, 97, 171,
     243, 239, 106, 164, 30, 193, 16, 180, 89, 35, 243, 225, 216, 89, 69, 47, 135, 40, 108, 44, 204, 30, 233, 231,
     113, 111, 51, 77, 243, 8, 119, 143, 62, 126, 1, 228, 3, 48, 163, 70, 94, 107, 11, 165, 211, 209, 136, 30,
     235, 231, 138, 165, 121, 133, 250, 26, 244, 188, 102, 22, 137, 60, 234, 63, 52, 192, 6, 94, 56, 89, 154, 55,
     175, 13, 50, 186, 182, 83, 206, 74, 230, 68, 78, 36, 71, 101, 115, 146, 54, 63, 172, 25, 208, 1, 177, 74,
     40, 85, 10, 177, 74, 51, 140, 37, 239, 73, 168, 56, 151, 142, 181, 192, 57, 33, 154, 108, 162, 190, 147, 100,
     43, 151, 0, 198, 224, 219, 178, 96, 183, 246, 42, 154, 128, 203, 125, 227, 127, 31, 106, 50, 213, 189, 131, 175,
     165, 91, 61, 114, 46, 109, 136, 183, 27, 6, 215, 193, 225, 23, 255, 65, 80, 36, 170, 212, 230, 243, 166, 116,
     59, 119, 187, 15, 2, 3, 1, 0, 1, 2, 130, 1, 1, 0, 178, 153, 173, 182, 234, 244, 214, 223, 146, 196,
     55, 156, 215, 90, 224, 32, 250, 24, 92, 198, 78, 155, 190, 135, 214, 49, 67, 23, 42, 241, 133, 255, 75, 199,
     61, 51, 23, 150, 251, 146, 144, 55, 131, 53, 174, 47, 6, 43, 231, 121, 27, 97, 4, 211, 204, 129, 189, 234,
     14, 228, 214, 198, 186, 32, 64, 195, 142, 35, 198, 93, 133, 141, 195, 21, 236, 95, 14, 247, 16, 15, 102, 167,
     12, 155, 146, 169, 41, 160, 244, 215, 119, 234, 175, 178, 198, 77, 241, 34, 133, 193, 228, 137, 104, 219, 119, 93,
     189, 57, 201, 92, 120, 108, 4, 218, 47, 191, 188, 209, 44, 237, 119, 225, 192, 7, 22, 160, 232, 43, 59, 121,
     16, 65, 235, 123, 75, 36, 81, 201, 250, 30, 49, 206, 122, 78, 156, 231, 120, 239, 164, 170, 249, 45, 42, 235,
     139, 12, 121, 128, 203, 152, 255, 182, 82, 33, 64, 232, 245, 97, 152, 239, 74, 155, 64, 81, 152, 233, 179, 165,
     95, 220, 124, 184, 216, 220, 20, 95, 187, 75, 59, 68, 85, 15, 175, 132, 159, 254, 236, 75, 240, 169, 162, 107,
     202, 204, 30, 163, 73, 125, 213, 50, 140, 245, 102, 140, 187, 10, 46, 112, 167, 156, 121, 85, 174, 202, 113, 48,
     232, 97, 147, 195, 197, 19, 46, 217, 109, 122, 66, 198, 123, 166, 210, 241, 140, 88, 241, 245, 112, 156, 169, 19,
     71, 2, 88, 192, 2, 81, 2, 129, 129, 0, 253, 171, 133, 199, 206, 3, 237, 73, 107, 126, 225, 80, 114, 158,
     109, 250, 125, 172, 123, 30, 199, 143, 169, 27, 43, 119, 41, 219, 187, 89, 218, 142, 159, 139, 30, 198, 108, 154,
     6, 232, 135, 65, 197, 28, 132, 240, 213, 149, 175, 235, 185, 6, 118, 211, 239, 11, 30, 12, 193, 14, 141, 38,
     242, 198, 59, 130, 151, 251, 215, 149, 21, 244, 212, 149, 33, 16, 244, 194, 237, 186, 72, 164, 100, 148, 225, 115,
     39, 129, 193, 59, 5, 61, 132, 17, 139, 74, 116, 84, 39, 60, 175, 86, 91, 121, 59, 177, 61, 132, 11, 250,
     213, 32, 171, 189, 96, 68, 114, 140, 54, 98, 114, 141, 64, 188, 47, 140, 197, 73, 2, 129, 129, 0, 203, 134,
     161, 38, 247, 3, 251, 165, 170, 218, 118, 206, 156, 85, 1, 201, 88, 123, 246, 210, 34, 214, 89, 76, 229, 22,
     63, 165, 91, 226, 19, 162, 31, 18, 9, 210, 125, 71, 245, 170, 122, 130, 179, 152, 144, 159, 216, 159, 136, 32,
     201, 140, 202, 155, 249, 232, 23, 92, 23, 63, 180, 99, 255, 19, 154, 134, 123, 204, 147, 56, 70, 118, 99, 154,
     110, 241, 61, 44, 126, 71, 193, 4, 214, 196, 16, 86, 78, 70, 115, 128, 22, 216, 181, 184, 62, 39, 147, 19,
     112, 170, 137, 107, 39, 33, 73, 24, 201, 143, 236, 87, 249, 223, 116, 174, 217, 82, 187, 247, 54, 237, 200, 101,
     73, 18, 128, 29, 117, 151, 2, 129, 128, 21, 55, 8, 28, 58, 189, 151, 85, 193, 152, 189, 237, 69, 120, 188,
     135, 235, 132, 198, 83, 63, 171, 99, 32, 51, 149, 102, 185, 202, 196, 108, 3, 235, 145, 238, 3, 248, 71, 53,
     118, 179, 1, 44, 36, 3, 118, 68, 214, 156, 252, 224, 223, 138, 134, 149, 2, 96, 3, 255, 13, 97, 126, 181,
     101, 32, 202, 254, 61, 0, 189, 166, 53, 112, 165, 252, 58, 247, 205, 105, 166, 95, 182, 231, 246, 143, 152, 90,
     224, 126, 49, 154, 113, 151, 159, 4, 0, 57, 20, 100, 167, 173, 158, 82, 78, 36, 80, 225, 109, 46, 183, 78,
     165, 201, 215, 47, 186, 233, 189, 146, 58, 207, 139, 194, 179, 58, 98, 210, 137, 2, 129, 129, 0, 167, 121, 89,
     18, 95, 32, 255, 234, 10, 245, 73, 222, 41, 246, 41, 74, 45, 109, 148, 100, 198, 21, 235, 213, 194, 140, 212,
     66, 149, 161, 42, 214, 181, 10, 122, 218, 162, 12, 156, 178, 115, 173, 41, 107, 217, 86, 47, 66, 215, 25, 99,
     192, 94, 216, 138, 131, 216, 245, 6, 140, 125, 59, 235, 161, 141, 254, 43, 208, 227, 51, 227, 135, 119, 222, 148,
     124, 30, 2, 134, 199, 52, 165, 110, 180, 87, 93, 45, 123, 251, 126, 227, 77, 223, 250, 131, 234, 188, 179, 186,
     122, 26, 41, 250, 65, 1, 141, 76, 15, 10, 68, 58, 113, 13, 234, 243, 25, 137, 98, 155, 232, 126, 134, 25,
     227, 7, 89, 54, 113, 2, 129, 128, 112, 27, 197, 107, 191, 182, 126, 145, 127, 89, 186, 29, 69, 189, 196, 104,
     99, 158, 219, 96, 181, 52, 113, 101, 189, 217, 32, 55, 54, 248, 188, 165, 147, 136, 17, 162, 199, 173, 12, 153,
     166, 251, 218, 44, 136, 156, 71, 89, 189, 248, 171, 14, 2, 104, 162, 238, 187, 180, 204, 190, 202, 178, 177, 150,
     251, 153, 162, 129, 11, 26, 14, 46, 32, 205, 168, 74, 66, 150, 157, 253, 30, 204, 44, 168, 191, 47, 157, 235,
     98, 106, 52, 105, 146, 128, 68, 177, 214, 243, 97, 155, 162, 100, 52, 207, 23, 81, 162, 143, 111, 106, 167, 198,
     54, 149, 228, 199, 44, 173, 222, 77, 198, 24, 59, 167, 154, 187, 36, 99]"

definition DispatchPrivKey5 :: bytes where
  "DispatchPrivKey5 =
    [48, 130, 4, 164, 2, 1, 0, 2, 130, 1, 1, 0, 176, 150, 197, 167, 117, 156, 178, 42, 35, 141, 212, 45,
     86, 116, 238, 190, 214, 176, 47, 105, 184, 95, 18, 189, 220, 94, 165, 10, 113, 112, 113, 154, 148, 63, 127, 109,
     196, 81, 134, 150, 186, 32, 28, 202, 171, 123, 38, 176, 33, 67, 123, 19, 155, 33, 183, 1, 179, 138, 12, 227,
     91, 194, 242, 228, 42, 242, 4, 154, 87, 63, 119, 161, 53, 58, 137, 75, 183, 166, 111, 239, 75, 148, 45, 125,
     59, 22, 181, 121, 11, 148, 66, 118, 173, 129, 203, 29, 215, 160, 207, 31, 185, 9, 228, 156, 205, 222, 245, 231,
     134, 245, 50, 147, 132, 31, 137, 199, 102, 155, 75, 164, 236, 84, 90, 53, 129, 98, 236, 66, 108, 227, 28, 170,
     21, 58, 233, 222, 176, 217, 209, 220, 193, 30, 233, 165, 33, 226, 181, 162, 110, 197, 54, 222, 141, 202, 43, 224,
     167, 229, 50, 108, 238, 228, 151, 67, 75, 20, 71, 146, 149, 94, 18, 251, 186, 31, 138, 213, 144, 176, 238, 113,
     98, 162, 128, 205, 44, 243, 248, 162, 17, 65, 204, 73, 137, 209, 129, 149, 157, 73, 55, 248, 57, 12, 240, 233,
     199, 252, 237, 188, 229, 152, 82, 83, 59, 77, 137, 58, 196, 221, 223, 161, 198, 105, 83, 73, 1, 204, 12, 63,
     174, 127, 120, 201, 111, 115, 242, 58, 87, 127, 57, 62, 50, 245, 179, 84, 191, 199, 1, 195, 242, 227, 36, 176,
     145, 172, 180, 55, 2, 3, 1, 0, 1, 2, 130, 1, 0, 60, 202, 90, 150, 176, 109, 86, 4, 29, 163, 56,
     148, 182, 251, 160, 40, 192, 61, 124, 196, 247, 60, 123, 118, 50, 195, 190, 43, 31, 44, 39, 95, 160, 131, 79,
     121, 217, 40, 123, 157, 173, 203, 90, 62, 6, 212, 105, 88, 30, 203, 93, 54, 61, 164, 88, 156, 212, 82, 196,
     231, 11, 242, 203, 172, 242, 127, 200, 71, 221, 155, 50, 178, 163, 97, 88, 92, 97, 135, 129, 103, 46, 108, 127,
     80, 106, 36, 2, 42, 254, 106, 118, 138, 230, 102, 21, 39, 91, 208, 183, 28, 227, 149, 93, 71, 1, 180, 44,
     145, 28, 171, 146, 82, 168, 28, 55, 81, 22, 168, 133, 92, 236, 34, 137, 191, 123, 160, 51, 86, 132, 63, 145,
     197, 252, 134, 195, 2, 103, 202, 118, 89, 73, 119, 75, 108, 180, 162, 207, 244, 7, 64, 218, 255, 249, 71, 228,
     41, 16, 90, 198, 221, 2, 125, 78, 230, 56, 182, 113, 163, 46, 159, 52, 12, 71, 116, 23, 1, 36, 241, 194,
     202, 31, 154, 14, 241, 27, 139, 30, 231, 74, 119, 18, 83, 194, 110, 255, 143, 24, 39, 192, 235, 130, 86, 217,
     177, 112, 152, 160, 14, 84, 207, 195, 76, 14, 230, 132, 50, 10, 13, 88, 33, 80, 86, 129, 28, 70, 65, 20,
     161, 161, 251, 6, 85, 157, 221, 69, 5, 68, 249, 195, 103, 80, 120, 6, 105, 43, 86, 132, 68, 241, 174, 124,
     220, 234, 146, 193, 169, 2, 129, 129, 0, 215, 220, 16, 80, 132, 151, 182, 153, 230, 10, 177, 25, 125, 188, 153,
     232, 140, 14, 203, 198, 66, 85, 165, 84, 181, 180, 227, 85, 175, 20, 201, 243, 96, 151, 60, 201, 27, 124, 179,
     113, 117, 55, 95, 126, 111, 231, 241, 205, 8, 118, 151, 108, 109, 170, 113, 180, 11, 78, 25, 199, 4, 15, 168,
     109, 109, 209, 14, 143, 144, 227, 213, 124, 225, 152, 117, 125, 67, 71, 208, 227, 71, 30, 224, 180, 246, 64, 127,
     254, 1, 234, 206, 127, 248, 156, 183, 245, 104, 157, 142, 208, 218, 204, 202, 182, 77, 177, 157, 25, 41, 66, 144,
     185, 80, 170, 90, 48, 78, 153, 51, 84, 138, 215, 28, 241, 26, 87, 103, 203, 2, 129, 129, 0, 209, 109, 61,
     60, 227, 63, 34, 222, 209, 161, 81, 136, 249, 199, 219, 110, 4, 145, 155, 49, 104, 246, 76, 210, 167, 153, 79,
     238, 38, 124, 213, 185, 239, 80, 198, 155, 187, 105, 239, 220, 231, 134, 115, 115, 230, 118, 29, 89, 36, 84, 112,
     234, 32, 204, 233, 85, 91, 27, 75, 179, 242, 15, 159, 243, 226, 83, 223, 101, 221, 168, 206, 204, 36, 9, 160,
     125, 198, 31, 77, 80, 76, 137, 89, 225, 223, 125, 22, 54, 71, 145, 172, 101, 170, 67, 48, 118, 127, 101, 171,
     251, 75, 201, 141, 79, 2, 0, 7, 14, 88, 56, 116, 160, 216, 46, 39, 89, 117, 77, 44, 138, 198, 167, 75,
     240, 91, 0, 223, 197, 2, 129, 129, 0, 185, 219, 117, 0, 158, 233, 178, 3, 152, 154, 164, 25, 250, 181, 37,
     31, 161, 88, 44, 4, 44, 161, 105, 149, 34, 78, 249, 94, 145, 61, 41, 21, 48, 153, 135, 112, 241, 5, 209,
     203, 98, 205, 166, 159, 74, 227, 62, 194, 247, 2, 133, 38, 138, 214, 50, 200, 126, 227, 100, 54, 131, 60, 168,
     28, 112, 109, 140, 71, 248, 204, 242, 200, 111, 197, 193, 131, 117, 38, 164, 168, 204, 87, 189, 202, 146, 44, 191,
     7, 137, 199, 14, 190, 8, 229, 135, 78, 250, 32, 143, 19, 45, 17, 31, 137, 16, 36, 89, 203, 140, 71, 16,
     45, 63, 83, 46, 12, 97, 224, 110, 221, 224, 29, 143, 129, 216, 216, 97, 57, 2, 129, 129, 0, 173, 216, 34,
     87, 98, 196, 76, 43, 238, 148, 28, 220, 185, 139, 159, 168, 233, 253, 252, 119, 189, 139, 135, 37, 238, 158, 35,
     109, 171, 97, 65, 1, 65, 153, 41, 228, 168, 100, 62, 10, 127, 222, 106, 4, 49, 176, 166, 152, 18, 194, 77,
     160, 236, 109, 108, 219, 191, 239, 30, 158, 87, 55, 133, 45, 172, 24, 183, 127, 21, 203, 69, 46, 204, 83, 121,
     120, 46, 120, 89, 115, 104, 181, 51, 121, 126, 77, 149, 156, 165, 56, 85, 133, 103, 26, 179, 38, 10, 134, 217,
     134, 150, 216, 206, 134, 97, 64, 168, 154, 205, 188, 191, 131, 173, 48, 82, 213, 189, 187, 188, 87, 206, 163, 157,
     51, 254, 54, 241, 137, 2, 129, 128, 112, 108, 67, 177, 213, 22, 232, 31, 193, 254, 124, 253, 66, 2, 33, 126,
     114, 171, 106, 224, 154, 243, 244, 132, 86, 60, 232, 28, 14, 155, 118, 82, 201, 53, 172, 60, 30, 90, 182, 113,
     109, 52, 101, 192, 134, 149, 115, 151, 44, 32, 65, 54, 95, 77, 159, 186, 223, 211, 77, 122, 245, 50, 133, 199,
     107, 171, 54, 113, 10, 231, 101, 138, 184, 227, 143, 60, 54, 195, 184, 76, 0, 182, 234, 26, 172, 255, 31, 199,
     109, 83, 156, 95, 93, 224, 79, 110, 146, 98, 120, 0, 28, 119, 161, 239, 24, 214, 38, 191, 202, 128, 130, 48,
     189, 203, 224, 190, 133, 108, 234, 91, 187, 107, 198, 139, 82, 250, 206, 106]"

definition DispatchKeys :: "bytes option list" where
  "DispatchKeys = [None, None, Some DispatchPrivKey2, Some DispatchPrivKey3, Some DispatchPrivKey4, Some DispatchPrivKey5]"

section \<open>What the keys are\<close>

text \<open>
  An RSA key in this encoding is a sequence whose first parts are the version 0 and the modulus, an integer with
  a length in two bytes. The code takes every key to have 1192 bytes.
\<close>

definition key_modulus :: "bytes \<Rightarrow> bytes option" where
  "key_modulus d =
     (if take 2 d = [0x30, 0x82] \<and> unat (d ! 2) * 256 + unat (d ! 3) + 4 = length d \<and> take 5 (drop 4 d) = [2, 1, 0, 2, 0x82]
      then Some (dropWhile (\<lambda>b. b = 0) (take (unat (d ! 9) * 256 + unat (d ! 10)) (drop 11 d)))
      else None)"

lemma key_lengths:
  "length DispatchPrivKey2 = 1192" "length DispatchPrivKey3 = 1192" "length DispatchPrivKey4 = 1192" "length DispatchPrivKey5 = 1192"
  unfolding DispatchPrivKey2_def DispatchPrivKey3_def DispatchPrivKey4_def DispatchPrivKey5_def list.size
  by simp_all

lemma key_modulus2: "map_option length (key_modulus DispatchPrivKey2) = Some 256"
  unfolding key_modulus_def key_lengths DispatchPrivKey2_def by simp

lemma key_modulus3: "map_option length (key_modulus DispatchPrivKey3) = Some 256"
  unfolding key_modulus_def key_lengths DispatchPrivKey3_def by simp

lemma key_modulus4: "map_option length (key_modulus DispatchPrivKey4) = Some 256"
  unfolding key_modulus_def key_lengths DispatchPrivKey4_def by simp

lemma key_modulus5: "map_option length (key_modulus DispatchPrivKey5) = Some 256"
  unfolding key_modulus_def key_lengths DispatchPrivKey5_def by simp

text \<open>Each of them is as long as the code says and has a modulus of 2048 bits.\<close>

lemma dispatch_keys_sizes:
  assumes "i \<in> {2 ..< 6 :: nat}"
  obtains d where "DispatchKeys ! i = Some d" "length d = 1192" "map_option length (key_modulus d) = Some 256"
proof -
  have "i = 2 \<or> i = 3 \<or> i = 4 \<or> i = 5" using assms by auto
  then show ?thesis using that key_lengths key_modulus2 key_modulus3 key_modulus4 key_modulus5
    by (elim disjE) (auto simp: DispatchKeys_def)
qed

end
