(* ===== verification/Rsa_Blocks.thy ===== *)
theory Rsa_Blocks
  imports Host_Memory C_String Dispatch_Keys
begin

text \<open>
  RSA as the dispatch server uses it, \<open>HyvCryptRsaEnc\<close>, \<open>HyvCryptRsaDec\<close> and \<open>HyvCryptRsaSign\<close> of
  \<open>src/crypt.cpp\<close>: which key is loaded, and a message of any length split into the blocks the key can take. The
  operations of OpenSSL on one block are an argument.
\<close>

section \<open>The library\<close>

text \<open>
  \<open>rs_ctx\<close> says whether a decoder can be allocated; \<open>rs_decode\<close> is what it makes of bytes, \<^term>\<open>None\<close> when it
  reports an error, \<^term>\<open>Some None\<close> when it reports none and leaves the key null. \<open>rs_file\<close> opens a file. The
  \<open>ready\<close> fields say whether the contexts are allocated and initialised and the padding is set; \<open>size\<close> is the answer to a call
  without an output buffer. An operation on a block gets the number of the call, for the random padding, the room it
  is told of, and the block.
\<close>

record 'k rsa =
  rs_ctx :: bool
  rs_decode :: "bytes \<Rightarrow> 'k option option"
  rs_file :: "bytes \<Rightarrow> bytes option"
  rs_enc_ready :: "'k \<Rightarrow> bool"
  rs_enc_size :: "'k \<Rightarrow> bytes \<Rightarrow> u64 option"
  rs_enc :: "'k \<Rightarrow> u64 \<Rightarrow> u64 \<Rightarrow> bytes \<Rightarrow> bytes option"
  rs_dec_ready :: "'k \<Rightarrow> bool"
  rs_dec_size :: "'k \<Rightarrow> bytes \<Rightarrow> u64 option"
  rs_dec :: "'k \<Rightarrow> u64 \<Rightarrow> u64 \<Rightarrow> bytes \<Rightarrow> bytes option"
  rs_sign_ready :: "'k \<Rightarrow> bool"
  rs_sign :: "'k \<Rightarrow> u64 \<Rightarrow> bytes \<Rightarrow> bytes option"

section \<open>Loading a key\<close>

definition signing_key :: string where "signing_key = ''/keys/signingKey.pem''"
definition auth_key :: string where "auth_key = ''/keys/authKey.pem''"

definition key_from_file :: "'k rsa \<Rightarrow> bytes \<Rightarrow> string \<Rightarrow> 'k option" where
  "key_from_file R dataPath name =
     (if \<not> rs_ctx R then None
      else case rs_file R (take 4094 (c_str dataPath @ lit name)) of
             None \<Rightarrow> None
           | Some b \<Rightarrow> (case rs_decode R b of None \<Rightarrow> None | Some pkey \<Rightarrow> pkey))"

definition load_key :: "'k rsa \<Rightarrow> bytes \<Rightarrow> u32 \<Rightarrow> 'k option" where
  "load_key R dataPath key_id =
     (if \<not> rs_ctx R then None
      else if 2 \<le> key_id \<and> key_id \<le> 5
      then (case DispatchKeys ! unat key_id of
              None \<Rightarrow> None
            | Some key \<Rightarrow> (case rs_decode R (take 1192 key) of None \<Rightarrow> None | Some pkey \<Rightarrow> pkey))
      else if key_id = 0 then key_from_file R dataPath signing_key
      else if key_id = 1 then key_from_file R dataPath auth_key
      else None)"

section \<open>The loop over the blocks\<close>

text \<open>
  The loops of encryption and decryption differ in the operation alone. \<open>ibs\<close> is the distance of the blocks,
  \<open>cap\<close> the size of the output buffer, \<open>obs\<close> the size of the last block written; \<open>ibuf\<close> is what lies ahead of the reading
  pointer and \<open>out\<close> what has been written. Both lengths are compared as signed numbers. The result is the code the
  function returns, cut to an \<open>int\<close>, with the output; \<^term>\<open>None\<close> when the loop does not end.
\<close>

partial_function (option) rsa_blocks ::
  "(u64 \<Rightarrow> u64 \<Rightarrow> bytes \<Rightarrow> bytes option) \<Rightarrow> u64 \<Rightarrow> nat \<Rightarrow> u64 \<Rightarrow> u64 \<Rightarrow> bytes \<Rightarrow> bytes \<Rightarrow> u64 \<Rightarrow> u64
     \<Rightarrow> (cpp_fault + i32 \<times> bytes) option" where
  "rsa_blocks op ibs cap i obs ibuf out ilen olen =
     (if 0 < sint ilen \<and> 0 < sint olen
      then
        let n = unat (if ilen < ibs then ilen else ibs)
        in if length ibuf < n then Some (Inl Out_of_bounds)
           else (case op i obs (take n ibuf) of
                   None \<Rightarrow> Some (Inr (-1, out))
                 | Some b \<Rightarrow>
                     if cap < length out + length b then Some (Inl Out_of_bounds)
                     else rsa_blocks op ibs cap (i + 1) (of_nat (length b)) (drop (unat ibs) ibuf) (out @ b)
                            (ilen - ibs) (olen - of_nat (length b)))
      else Some (Inr (ucast (i * obs), out)))"

text \<open>A buffer is given with its size; \<^term>\<open>None\<close> is a null pointer.\<close>

definition HyvCryptRsaEnc ::
  "'k rsa \<Rightarrow> bytes \<Rightarrow> bytes option \<Rightarrow> u64 option \<Rightarrow> u32 \<Rightarrow> (cpp_fault + i32 \<times> bytes) option" where
  "HyvCryptRsaEnc R dataPath ibuf obuf key_id =
     (case (ibuf, obuf) of
        (Some src, Some olen) \<Rightarrow>
          if src = [] \<or> olen = 0 then Some (Inr (-1, []))
          else (case load_key R dataPath key_id of
                  None \<Rightarrow> Some (Inr (-1, []))
                | Some pkey \<Rightarrow>
                    if \<not> rs_enc_ready R pkey then Some (Inr (-1, []))
                    else (case rs_enc_size R pkey (take 1 src) of
                            None \<Rightarrow> Some (Inr (-1, []))
                          | Some obs \<Rightarrow>
                              rsa_blocks (rs_enc R pkey) (obs - 11) (unat olen) 0 obs src [] (of_nat (length src)) olen))
      | _ \<Rightarrow> Some (Inr (-1, [])))"

definition HyvCryptRsaDec ::
  "'k rsa \<Rightarrow> bytes \<Rightarrow> bytes option \<Rightarrow> u64 option \<Rightarrow> u32 \<Rightarrow> (cpp_fault + i32 \<times> bytes) option" where
  "HyvCryptRsaDec R dataPath ibuf obuf key_id =
     (case (ibuf, obuf) of
        (Some src, Some olen) \<Rightarrow>
          if src = [] \<or> olen = 0 then Some (Inr (-1, []))
          else (case load_key R dataPath key_id of
                  None \<Rightarrow> Some (Inr (-1, []))
                | Some pkey \<Rightarrow>
                    if \<not> rs_dec_ready R pkey then Some (Inr (-1, []))
                    else (case rs_dec_size R pkey (take 1 src) of
                            None \<Rightarrow> Some (Inr (-1, []))
                          | Some obs \<Rightarrow>
                              rsa_blocks (rs_dec R pkey) (obs + 11) (unat olen) 0 obs src [] (of_nat (length src)) olen))
      | _ \<Rightarrow> Some (Inr (-1, [])))"

definition HyvCryptRsaSign ::
  "'k rsa \<Rightarrow> bytes \<Rightarrow> bytes option \<Rightarrow> u64 option \<Rightarrow> cpp_fault + i32 \<times> bytes" where
  "HyvCryptRsaSign R dataPath ibuf obuf =
     (case (ibuf, obuf) of
        (Some src, Some olen) \<Rightarrow>
          if src = [] \<or> olen = 0 then Inr (-1, [])
          else (case key_from_file R dataPath signing_key of
                  None \<Rightarrow> Inr (-1, [])
                | Some pkey \<Rightarrow>
                    if \<not> rs_sign_ready R pkey then Inr (-1, [])
                    else (case rs_sign R pkey olen src of
                            None \<Rightarrow> Inr (-1, [])
                          | Some b \<Rightarrow> if unat olen < length b then Inl Out_of_bounds else Inr (of_nat (length b), b)))
      | _ \<Rightarrow> Inr (-1, []))"

section \<open>Messages in blocks\<close>

function chunks :: "nat \<Rightarrow> bytes \<Rightarrow> bytes list" where
  "chunks m xs = (if m = 0 \<or> xs = [] then [] else take m xs # chunks m (drop m xs))"
  by pat_completeness auto
termination by (relation "measure (length \<circ> snd)") auto

declare chunks.simps [simp del]

lemma chunks_Nil [simp]: "chunks m [] = []"
  by (simp add: chunks.simps)

lemma chunks_step: "0 < m \<Longrightarrow> xs \<noteq> [] \<Longrightarrow> chunks m xs = take m xs # chunks m (drop m xs)"
  by (subst chunks.simps) simp

lemma chunks_induct [consumes 1, case_names Nil step]:
  assumes "0 < m" "P []" "\<And>xs. xs \<noteq> [] \<Longrightarrow> P (drop m xs) \<Longrightarrow> P xs"
  shows "P xs"
proof (induction xs rule: length_induct)
  case (1 xs)
  show ?case
  proof (cases "xs = []")
    case True
    then show ?thesis using assms(2) by simp
  next
    case False
    then have "length (drop m xs) < length xs" using assms(1) by simp
    then show ?thesis using assms(3) [OF False] "1" by blast
  qed
qed

lemma concat_chunks:
  assumes "0 < m"
  shows "concat (chunks m xs) = xs"
  using assms
proof (induction xs rule: chunks_induct)
  case (step xs)
  show ?case unfolding chunks_step [OF assms step(1)] concat.simps step(2) append_take_drop_id by (rule refl)
qed simp

lemma chunk_lengths: "0 < m \<Longrightarrow> \<forall>b \<in> set (chunks m xs). b \<noteq> [] \<and> length b \<le> m"
  by (rule chunks_induct [where P = "\<lambda>xs. \<forall>b \<in> set (chunks m xs). b \<noteq> [] \<and> length b \<le> m"]) (simp_all add: chunks_step)

lemma ceil_step:
  assumes "0 < m" "0 < l"
  shows "(l + m - 1) div m = Suc ((l - m + m - 1) div (m :: nat))"
proof (cases "m \<le> l")
  case True
  then have "l + m - 1 = (l - m + m - 1) + m" using assms by simp
  then show ?thesis using assms by (metis Suc_eq_plus1 div_add_self2 less_not_refl2)
next
  case False
  then have "l + m - 1 = (l - 1) + m" "(l - 1) div m = 0" "(l - m + m - 1) div m = 0" using assms by simp_all
  then show ?thesis using assms by (metis Suc_eq_plus1 div_add_self2 less_not_refl2)
qed

lemma length_chunks:
  assumes "0 < m"
  shows "length (chunks m xs) = (length xs + m - 1) div m"
  using assms
proof (induction xs rule: chunks_induct)
  case (step xs)
  have "0 < length xs" using step(1) by simp
  then show ?case
    unfolding chunks_step [OF assms step(1)] list.size step(2) ceil_step [OF assms \<open>0 < length xs\<close>] by simp
qed (use assms in simp)

lemma take_chunks:
  assumes "0 < m"
  shows "concat (take c (chunks m xs)) = take (c * m) xs"
  using assms
proof (induction xs arbitrary: c rule: chunks_induct)
  case (step xs)
  show ?case
  proof (cases c)
    case (Suc c')
    show ?thesis
      unfolding chunks_step [OF assms step(1)] Suc take_Suc_Cons concat.simps step(2) mult_Suc take_add by (rule refl)
  qed simp
qed simp

text \<open>Blocks of one size are found again in what they were put together to.\<close>

lemma chunks_concat:
  assumes "0 < n" "\<forall>b \<in> set bs. length b = n"
  shows "chunks n (concat bs) = bs"
  using assms(2)
proof (induction bs)
  case (Cons b bs)
  then have "b \<noteq> []" using assms(1) by auto
  then show ?case using Cons assms(1) by (simp add: chunks_step)
qed simp

section \<open>What the loop does\<close>

text \<open>An operation that makes \<open>n\<close> bytes of every block of up to \<open>m\<close> bytes, and what it makes of a list of blocks.\<close>

definition block_op :: "(u64 \<Rightarrow> u64 \<Rightarrow> bytes \<Rightarrow> bytes option) \<Rightarrow> nat \<Rightarrow> nat \<Rightarrow> bool" where
  "block_op op m n \<longleftrightarrow> 0 < m \<and> m < 2 ^ 63 \<and> 0 < n \<and> n < 2 ^ 63
     \<and> (\<forall>i b. length b \<le> m \<longrightarrow> (\<exists>c. op i (of_nat n) b = Some c \<and> length c = n))"

fun block_list :: "(u64 \<Rightarrow> u64 \<Rightarrow> bytes \<Rightarrow> bytes option) \<Rightarrow> nat \<Rightarrow> u64 \<Rightarrow> bytes list \<Rightarrow> bytes list" where
  "block_list op n i [] = []"
| "block_list op n i (b # bs) = the (op i (of_nat n) b) # block_list op n (i + 1) bs"

definition blocks_end ::
  "(u64 \<Rightarrow> u64 \<Rightarrow> bytes \<Rightarrow> bytes option) \<Rightarrow> nat \<Rightarrow> nat \<Rightarrow> u64 \<Rightarrow> bytes \<Rightarrow> bytes list \<Rightarrow> cpp_fault + i32 \<times> bytes" where
  "blocks_end op n room i out bs =
     (if length bs * n \<le> room
      then Inr (ucast ((i + of_nat (length bs)) * of_nat n), out @ concat (block_list op n i bs))
      else if room mod n = 0
      then Inr (ucast ((i + of_nat (room div n)) * of_nat n), out @ concat (block_list op n i (take (room div n) bs)))
      else Inl Out_of_bounds)"

lemma sint_of_nat_u64: "l < 2 ^ 63 \<Longrightarrow> sint (of_nat l :: u64) = int l"
  by (simp add: signed_of_nat signed_take_bit_int_eq_self)

lemma ucast_of_nat_u64: "(ucast (of_nat l :: u64) :: u32) = of_nat l"
  by (rule bit_word_eqI) (simp add: bit_simps)

lemma sint_difference_u64:
  assumes "l < 2 ^ 63" "m < 2 ^ 63"
  shows "sint (of_nat l - of_nat m :: u64) = int l - int m"
proof -
  have "(of_nat l - of_nat m :: u64) = word_of_int (int l - int m)" by simp
  also have "sint \<dots> = signed_take_bit 63 (int l - int m)" by (simp only: signed_of_int) simp
  also have "\<dots> = int l - int m" using assms by (intro signed_take_bit_int_eq_self) auto
  finally show ?thesis .
qed

text \<open>
  It stops when the message is used up or the room is. A room that is no multiple of the block size is overrun when the
  message does not fit, any other one is filled and the rest of the message left out.
\<close>

lemma rsa_blocks_run:
  assumes "block_op op m n"
  shows "length ibuf < 2 ^ 63 \<Longrightarrow> room < 2 ^ 63 \<Longrightarrow> cap = length out + room
    \<Longrightarrow> (if ibuf = [] then sint ilen \<le> 0 else ilen = of_nat (length ibuf))
    \<Longrightarrow> rsa_blocks op (of_nat m) cap i (of_nat n) ibuf out ilen (of_nat room) = Some (blocks_end op n room i out (chunks m ibuf))"
proof (induction "length ibuf" arbitrary: ibuf room out ilen i rule: less_induct)
  case less
  have m: "0 < m" "m < 2 ^ 63" "0 < n" "n < 2 ^ 63" using assms by (simp_all add: block_op_def)
  have room: "sint (of_nat room :: u64) = int room" by (rule sint_of_nat_u64) (rule less.prems)
  show ?case
  proof (cases "ibuf = [] \<or> room = 0")
    case True
    then have "\<not> (0 < sint ilen \<and> 0 < sint (of_nat room :: u64))" using less.prems(4) room by auto
    then show ?thesis
      using True m by (subst rsa_blocks.simps) (auto simp: blocks_end_def)
  next
    case False
    then have ilen: "ilen = of_nat (length ibuf)" using less.prems(4) by simp
    let ?b = "take m ibuf" and ?l = "length ibuf"
    have go: "0 < sint ilen \<and> 0 < sint (of_nat room :: u64)"
      unfolding ilen room sint_of_nat_u64 [OF less.prems(1)] using False by simp
    have unat: "unat (of_nat m :: u64) = m" "unat (of_nat ?l :: u64) = ?l"
      using m less.prems(1) by (simp_all add: unsigned_of_nat take_bit_nat_eq_self)
    have len: "unat (if ilen < of_nat m then ilen else of_nat m) = min ?l m"
      unfolding ilen word_less_nat_alt unat by (simp add: unat min_def)
    have "length ?b \<le> m" by simp
    then obtain c where c: "op i (of_nat n) ?b = Some c" "length c = n" using assms unfolding block_op_def by blast
    have tk: "take (min ?l m) ibuf = ?b" and no_more: "(?l < min ?l m) = False" by (simp_all add: min_def)
    have split: "chunks m ibuf = ?b # chunks m (drop m ibuf)" using m False by (intro chunks_step) auto
    have run: "rsa_blocks op (of_nat m) cap i (of_nat n) ibuf out ilen (of_nat room) =
        (if cap < length out + n then Some (Inl Out_of_bounds)
         else rsa_blocks op (of_nat m) cap (i + 1) (of_nat n) (drop m ibuf) (out @ c) (ilen - of_nat m) (of_nat room - of_nat n))"
      by (subst rsa_blocks.simps) (simp only: go if_True HOL.simp_thms Let_def len tk c option.case unat no_more if_False)
    show ?thesis
    proof (cases "room < n")
      case True
      then have "room mod n = room" "\<not> length (chunks m ibuf) * n \<le> room" by (simp_all add: split)
      then show ?thesis unfolding run using True False less.prems(3) by (simp add: blocks_end_def)
    next
      case fits: False
      have rest: "(if drop m ibuf = [] then sint (ilen - of_nat m) \<le> 0 else ilen - of_nat m = of_nat (length (drop m ibuf)))"
        unfolding ilen using sint_difference_u64 [OF less.prems(1) m(2)] by (auto simp: of_nat_diff)
      have "rsa_blocks op (of_nat m) cap (i + 1) (of_nat n) (drop m ibuf) (out @ c) (ilen - of_nat m) (of_nat (room - n)) =
          Some (blocks_end op n (room - n) (i + 1) (out @ c) (chunks m (drop m ibuf)))"
        by (rule less.hyps) (use False m fits c less.prems rest in auto)
      moreover have "blocks_end op n (room - n) (i + 1) (out @ c) bs = blocks_end op n room i out (?b # bs)" for bs
        using fits m c by (auto simp: blocks_end_def le_mod_geq [symmetric] le_div_geq algebra_simps)
      ultimately show ?thesis
        unfolding run split using fits less.prems(3) by (simp add: of_nat_diff)
    qed
  qed
qed

section \<open>RSA with the padding of PKCS 1\<close>

text \<open>
  What is documented of a key whose modulus has \<open>n\<close> bytes: the size of a block is \<open>n\<close>; 11 bytes less are encrypted to \<open>n\<close>
  bytes, whatever the random padding, and decrypted again; what is longer than the modulus is not decrypted. No
  signature is longer than the room it is given.
\<close>

definition rsa_law :: "'k rsa \<Rightarrow> 'k \<Rightarrow> nat \<Rightarrow> bool" where
  "rsa_law R k n \<longleftrightarrow> 11 < n \<and> n < 2 ^ 31
     \<and> rs_enc_ready R k \<and> rs_dec_ready R k
     \<and> (\<forall>b. rs_enc_size R k b = Some (of_nat n) \<and> rs_dec_size R k b = Some (of_nat n))
     \<and> (\<forall>i cap b. length b \<le> n - 11 \<longrightarrow>
           (\<exists>c. rs_enc R k i cap b = Some c \<and> length c = n \<and> (\<forall>j cap. rs_dec R k j cap c = Some b)))
     \<and> (\<forall>j cap c. n < length c \<longrightarrow> rs_dec R k j cap c = None)"

text \<open>What the holder of the key reads: every block decrypted by itself.\<close>

definition decrypt_blocks :: "'k rsa \<Rightarrow> 'k \<Rightarrow> nat \<Rightarrow> bytes \<Rightarrow> bytes" where
  "decrypt_blocks R k n c = concat (map (\<lambda>b. the (rs_dec R k 0 0 b)) (chunks n c))"

lemma rsa_law_block_op:
  assumes "rsa_law R k n"
  shows "block_op (rs_enc R k) (n - 11) n"
proof -
  have "11 < n" "n < 2 ^ 31" using assms by (simp_all add: rsa_law_def)
  then have "0 < n - 11 \<and> n - 11 < 2 ^ 63 \<and> 0 < n \<and> n < 2 ^ 63" by simp
  moreover have "\<forall>i b. length b \<le> n - 11 \<longrightarrow> (\<exists>c. rs_enc R k i (of_nat n) b = Some c \<and> length c = n)"
    using assms unfolding rsa_law_def by blast
  ultimately show ?thesis unfolding block_op_def by blast
qed

lemma block_list_sizes:
  assumes "block_op op m n" "\<forall>b \<in> set bs. length b \<le> m"
  shows "\<forall>c \<in> set (block_list op n i bs). length c = n" "length (block_list op n i bs) = length bs"
proof -
  have "\<forall>c \<in> set (block_list op n i bs). length c = n"
    using assms(2)
  proof (induction bs arbitrary: i)
    case (Cons b bs)
    then have "length b \<le> m" by simp
    then obtain c where "op i (of_nat n) b = Some c" "length c = n" using assms(1) unfolding block_op_def by blast
    then show ?case using Cons by simp
  qed simp
  then show "\<forall>c \<in> set (block_list op n i bs). length c = n" .
  show "length (block_list op n i bs) = length bs" by (induction bs arbitrary: i) simp_all
qed

lemma length_concat_same: "\<forall>c \<in> set bs. length c = n \<Longrightarrow> length (concat bs) = length bs * n"
  by (induction bs) simp_all

lemma decrypt_block_list:
  assumes "rsa_law R k n" "\<forall>b \<in> set bs. length b \<le> n - 11"
  shows "map (\<lambda>c. the (rs_dec R k 0 0 c)) (block_list (rs_enc R k) n i bs) = bs"
  using assms(2)
proof (induction bs arbitrary: i)
  case (Cons b bs)
  then have "length b \<le> n - 11" by simp
  then obtain c where "rs_enc R k i (of_nat n) b = Some c" "\<forall>j cap. rs_dec R k j cap c = Some b"
    using assms(1) unfolding rsa_law_def by blast
  then show ?case using Cons by simp
qed simp

text \<open>Some of the blocks of a message, encrypted and put together: their length and what they decrypt to.\<close>

lemma encrypted_blocks:
  fixes i :: u64
  assumes "rsa_law R k n" "\<forall>b \<in> set bs. length b \<le> n - 11"
  defines "c \<equiv> concat (block_list (rs_enc R k) n i bs)"
  shows "length c = length bs * n" "decrypt_blocks R k n c = concat bs"
proof -
  note sizes = block_list_sizes [OF rsa_law_block_op [OF assms(1)] assms(2), of i]
  show "length c = length bs * n" unfolding c_def length_concat_same [OF sizes(1)] sizes(2) by (rule refl)
  have "0 < n" using assms(1) by (simp add: rsa_law_def)
  then have "chunks n c = block_list (rs_enc R k) n i bs" unfolding c_def using sizes(1) by (rule chunks_concat)
  then show "decrypt_blocks R k n c = concat bs"
    unfolding decrypt_blocks_def using decrypt_block_list [OF assms(1,2)] by simp
qed

lemma HyvCryptRsaEnc_run:
  assumes "rsa_law R k n" "load_key R dataPath key_id = Some k" "src \<noteq> []" "length src < 2 ^ 63" "0 < room" "room < 2 ^ 31"
  shows "HyvCryptRsaEnc R dataPath (Some src) (Some (of_nat room)) key_id =
    Some (blocks_end (rs_enc R k) n room 0 [] (chunks (n - 11) src))"
proof -
  have n: "11 < n" "rs_enc_ready R k" "rs_enc_size R k (take 1 src) = Some (of_nat n)" using assms(1) by (auto simp: rsa_law_def)
  have room: "unat (of_nat room :: u64) = room" using assms(6) by (simp add: unsigned_of_nat take_bit_nat_eq_self)
  then have "(of_nat room :: u64) \<noteq> 0" using assms(5) by (metis less_irrefl unat_0)
  moreover have "(of_nat n :: u64) - 11 = of_nat (n - 11)" using n(1) by (simp add: of_nat_diff)
  moreover have "rsa_blocks (rs_enc R k) (of_nat (n - 11)) (unat (of_nat room :: u64)) 0 (of_nat n) src []
      (of_nat (length src)) (of_nat room) = Some (blocks_end (rs_enc R k) n room 0 [] (chunks (n - 11) src))"
    by (rule rsa_blocks_run [OF rsa_law_block_op [OF assms(1)]]) (use assms room in simp_all)
  ultimately show ?thesis using assms(2,3) n(2,3) by (simp add: HyvCryptRsaEnc_def)
qed

text \<open>The three outcomes of an encryption.\<close>

definition block_count :: "nat \<Rightarrow> nat \<Rightarrow> nat" where
  "block_count n l = (l + (n - 11) - 1) div (n - 11)"

lemma HyvCryptRsaEnc_filled:
  assumes "rsa_law R k n" "load_key R dataPath key_id = Some k" "src \<noteq> []" "length src < 2 ^ 63" "0 < room" "room < 2 ^ 31"
    and "block_count n (length src) * n \<le> room \<and> count = block_count n (length src)
      \<or> room < block_count n (length src) * n \<and> room mod n = 0 \<and> count = room div n"
  obtains out where "HyvCryptRsaEnc R dataPath (Some src) (Some (of_nat room)) key_id = Some (Inr (of_nat (count * n), out))"
    "length out = count * n" "decrypt_blocks R k n out = concat (take count (chunks (n - 11) src))"
proof -
  let ?bs = "chunks (n - 11) src"
  have n: "11 < n" using assms(1) by (simp add: rsa_law_def)
  then have cnt: "length ?bs = block_count n (length src)" unfolding block_count_def by (intro length_chunks) simp
  have le: "count * n \<le> room" using assms(7) by auto
  have few: "count \<le> length ?bs"
    using assms(7) unfolding cnt by (metis div_le_mono div_mult_self_is_m less_or_eq_imp_le n not_less_zero order_refl zero_less_iff_neq_zero)
  let ?out = "concat (block_list (rs_enc R k) n 0 (take count ?bs))"
  have "0 < n - 11" using n by simp
  then have b: "\<forall>b \<in> set (take count ?bs). length b \<le> n - 11" using chunk_lengths [of "n - 11" src] by (auto dest: in_set_takeD)
  have "(ucast ((of_nat count :: u64) * of_nat n) :: i32) = of_nat (count * n)"
    unfolding of_nat_mult [symmetric] by (rule ucast_of_nat_u64)
  then have "blocks_end (rs_enc R k) n room 0 [] ?bs = Inr (of_nat (count * n), ?out)"
    using assms(7) cnt le by (auto simp: blocks_end_def)
  then show ?thesis
    using that [of ?out] HyvCryptRsaEnc_run [OF assms(1-6)] encrypted_blocks [OF assms(1) b, of 0] few by (simp add: min_def)
qed

lemma HyvCryptRsaEnc_overrun:
  assumes "rsa_law R k n" "load_key R dataPath key_id = Some k" "src \<noteq> []" "length src < 2 ^ 63" "0 < room" "room < 2 ^ 31"
    and "room < block_count n (length src) * n" "room mod n \<noteq> 0"
  shows "HyvCryptRsaEnc R dataPath (Some src) (Some (of_nat room)) key_id = Some (Inl Out_of_bounds)"
proof -
  have "0 < n - 11" using assms(1) by (simp add: rsa_law_def)
  then have "length (chunks (n - 11) src) = block_count n (length src)" unfolding block_count_def by (rule length_chunks)
  then show ?thesis using HyvCryptRsaEnc_run [OF assms(1-6)] assms(7,8) by (simp add: blocks_end_def)
qed

text \<open>A message of one block.\<close>

lemma HyvCryptRsaEnc_one:
  assumes "rsa_law R k n" "load_key R dataPath key_id = Some k" "src \<noteq> []" "length src \<le> n - 11" "n \<le> room" "room < 2 ^ 31"
  obtains c where "HyvCryptRsaEnc R dataPath (Some src) (Some (of_nat room)) key_id = Some (Inr (of_nat n, c))"
    "length c = n" "\<And>j cap. rs_dec R k j cap c = Some src"
proof -
  have n: "11 < n" "n < 2 ^ 31" using assms(1) by (simp_all add: rsa_law_def)
  obtain c where c: "rs_enc R k 0 (of_nat n) src = Some c" "length c = n" "\<forall>j cap. rs_dec R k j cap c = Some src"
    using assms(1,4) unfolding rsa_law_def by blast
  have "chunks (n - 11) src = [src]" using n assms(3,4) by (simp add: chunks_step)
  then have "blocks_end (rs_enc R k) n room 0 [] (chunks (n - 11) src) = Inr (of_nat n, c)"
    using assms(5) c(1) by (simp add: blocks_end_def ucast_of_nat_u64)
  moreover have "HyvCryptRsaEnc R dataPath (Some src) (Some (of_nat room)) key_id =
      Some (blocks_end (rs_enc R k) n room 0 [] (chunks (n - 11) src))"
    by (rule HyvCryptRsaEnc_run [OF assms(1-3)]) (use n assms(4-6) in simp_all)
  ultimately show ?thesis using that c by simp
qed

text \<open>
  Decryption takes the size of the modulus for the size of the text: its first block is 11 bytes longer than the
  modulus when there is so much, and then refused.
\<close>

lemma HyvCryptRsaDec_start:
  assumes "rsa_law R k n" "load_key R dataPath key_id = Some k" "c \<noteq> []" "0 < room" "room < 2 ^ 31"
  shows "HyvCryptRsaDec R dataPath (Some c) (Some (of_nat room)) key_id =
    rsa_blocks (rs_dec R k) (of_nat (n + 11)) room 0 (of_nat n) c [] (of_nat (length c)) (of_nat room)"
proof -
  have n: "rs_dec_ready R k" "rs_dec_size R k (take 1 c) = Some (of_nat n)" using assms(1) by (auto simp: rsa_law_def)
  have room: "unat (of_nat room :: u64) = room" using assms(5) by (simp add: unsigned_of_nat take_bit_nat_eq_self)
  then have "(of_nat room :: u64) \<noteq> 0" using assms(4) by (metis less_irrefl unat_0)
  then show ?thesis using n room assms(2,3) by (simp add: HyvCryptRsaDec_def add.commute)
qed

lemma rsa_first_block:
  assumes "0 < l" "l < 2 ^ 63" "0 < room" "room < 2 ^ 63" "m < 2 ^ 63"
  shows "(0 < sint (of_nat l :: u64) \<and> 0 < sint (of_nat room :: u64)) = True"
    "unat (if of_nat l < (of_nat m :: u64) then of_nat l else of_nat m :: u64) = min l m"
proof -
  show "(0 < sint (of_nat l :: u64) \<and> 0 < sint (of_nat room :: u64)) = True"
    using assms by (simp add: sint_of_nat_u64)
  have u: "unat (of_nat m :: u64) = m" "unat (of_nat l :: u64) = l"
    using assms by (simp_all add: unsigned_of_nat take_bit_nat_eq_self)
  show "unat (if of_nat l < (of_nat m :: u64) then of_nat l else of_nat m :: u64) = min l m"
    by (simp add: word_less_nat_alt u min_def)
qed

lemma rsa_law_refuses: "rsa_law R k n \<Longrightarrow> n < length c \<Longrightarrow> rs_dec R k j cap c = None"
  by (simp add: rsa_law_def)

lemma HyvCryptRsaDec_one:
  assumes "rsa_law R k n" "load_key R dataPath key_id = Some k" "0 < room" "room < 2 ^ 31"
    "length c = n" "rs_dec R k 0 (of_nat n) c = Some b"
  shows "HyvCryptRsaDec R dataPath (Some c) (Some (of_nat room)) key_id =
    Some (if length b \<le> room then Inr (of_nat (length b), b) else Inl Out_of_bounds)"
proof -
  have n: "11 < n" "n < 2 ^ 31" using assms(1) by (simp_all add: rsa_law_def)
  then have c: "c \<noteq> []" using assms(5) by auto
  have first: "(0 < sint (of_nat n :: u64) \<and> 0 < sint (of_nat room :: u64)) = True"
    "unat (if of_nat n < (of_nat (n + 11) :: u64) then of_nat n else of_nat (n + 11) :: u64) = min n (n + 11)"
    by (rule rsa_first_block [of n room "n + 11"]; use n assms(3,4) in simp)+
  have stop: "(0 < sint ((of_nat n :: u64) - of_nat (n + 11)) \<and> x) = False" for x
    using sint_difference_u64 [of n "n + 11"] n by simp
  have enough: "(n < min n (n + 11)) = False" "take (min n (n + 11)) c = c" using assms(5) by simp_all
  have last: "rsa_blocks op ibs cap i obs ibuf out (of_nat n - of_nat (n + 11)) olen = Some (Inr (ucast (i * obs), out))"
    for op ibs cap i obs ibuf out olen
    by (subst rsa_blocks.simps) (simp only: stop if_False)
  show ?thesis
    unfolding HyvCryptRsaDec_start [OF assms(1,2) c assms(3,4)] assms(5)
    by (subst rsa_blocks.simps)
      (simp only: first if_True Let_def assms(5,6) enough if_False option.case last, simp add: ucast_of_nat_u64 not_less [symmetric])
qed

lemma HyvCryptRsaDec_more:
  assumes "rsa_law R k n" "load_key R dataPath key_id = Some k" "0 < room" "room < 2 ^ 31"
    "n + 11 \<le> length c" "length c < 2 ^ 63"
  shows "HyvCryptRsaDec R dataPath (Some c) (Some (of_nat room)) key_id = Some (Inr (-1, []))"
proof -
  have n: "11 < n" "n < 2 ^ 31" using assms(1) by (simp_all add: rsa_law_def)
  then have c: "c \<noteq> []" using assms(5) by auto
  have first: "(0 < sint (of_nat (length c) :: u64) \<and> 0 < sint (of_nat room :: u64)) = True"
    "unat (if of_nat (length c) < (of_nat (n + 11) :: u64) then of_nat (length c) else of_nat (n + 11) :: u64) = min (length c) (n + 11)"
    by (rule rsa_first_block [of "length c" room "n + 11"]; use n c assms(3-6) in simp)+
  have size: "min (length c) (n + 11) = n + 11" "(length c < n + 11) = False" using assms(5) by simp_all
  have "n < length (take (n + 11) c)" using assms(5) by simp
  then have refused: "rs_dec R k 0 (of_nat n) (take (n + 11) c) = None" by (rule rsa_law_refuses [OF assms(1)])
  show ?thesis
    unfolding HyvCryptRsaDec_start [OF assms(1,2) c assms(3,4)]
    by (subst rsa_blocks.simps) (simp only: first if_True Let_def size if_False refused option.case)
qed

end
