(* ===== verification/Region_Query.thy ===== *)
theory Region_Query
  imports Dispatch Session Region_Config Rsa_Blocks
begin

text \<open>
  The two queries a client asks before it signs on, \<open>getQueryRegionListHttpRsp\<close> and
  \<open>getQueryCurrRegionHttpRsp\<close> of \<open>src/dispatch.cpp\<close>: which servers there are, and where this one is. Both
  look at the version the client reports.
\<close>

section \<open>Versions\<close>

text \<open>
  \<open>sscanf\<close> with \<open>%2cREL%31[^0-9.]%d.%d.%d\<close>: two characters, the letters \<open>REL\<close>, one to 31 characters that are
  neither digits nor dots, and three numbers between dots. A number may have white space and a sign in
  front; it is read as \<open>strtol\<close> reads it, at 64 bits, and stored in 32.
\<close>

definition scan_int :: "bytes \<Rightarrow> (u32 \<times> bytes) option" where
  "scan_int s =
     (let s = dropWhile is_space s;
          (neg, s) = strtoul_sign s;
          ds = digits 10 s;
          v = int (digits_value 10 ds);
          v = (if neg then max (- v) (- (2 ^ 63)) else min v (2 ^ 63 - 1))
      in if ds = [] then None else Some (word_of_int v, drop (length ds) s))"

definition scan_dot :: "bytes \<Rightarrow> bytes option" where
  "scan_dot s = (case s of [] \<Rightarrow> None | c # r \<Rightarrow> if c = of_char (CHR ''.'') then Some r else None)"

definition scan_client :: "bytes \<Rightarrow> (bytes \<times> bytes) option" where
  "scan_client s =
     (let w = take 31 (takeWhile (\<lambda>c. \<not> digit_value c < 10 \<and> c \<noteq> of_char (CHR ''.'')) s)
      in if w = [] then None else Some (w, drop (length w) s))"

definition scan_version :: "bytes \<Rightarrow> (bytes \<times> bytes \<times> u32 \<times> u32 \<times> u32) option" where
  "scan_version data =
     (let s = c_str data
      in if length s < 2 \<or> take 3 (drop 2 s) \<noteq> lit ''REL'' then None
         else case scan_client (drop 5 s) of
                None \<Rightarrow> None
              | Some (client, s1) \<Rightarrow>
                  Option.bind (scan_int s1) (\<lambda>(major, s2).
                  Option.bind (scan_dot s2) (\<lambda>s3.
                  Option.bind (scan_int s3) (\<lambda>(minor, s4).
                  Option.bind (scan_dot s4) (\<lambda>s5.
                  Option.bind (scan_int s5) (\<lambda>(patch, _).
                  Some (take 2 s, client, major, minor, patch)))))))"

definition CLIENT_UNK :: int where "CLIENT_UNK = -1"
definition CLIENT_PC :: int where "CLIENT_PC = 0"
definition CLIENT_ANDROID :: int where "CLIENT_ANDROID = 1"
definition CLIENT_IOS :: int where "CLIENT_IOS = 2"
definition CLIENT_CNT :: int where "CLIENT_CNT = 3"
definition REGION_UNK :: int where "REGION_UNK = -1"
definition REGION_OS :: int where "REGION_OS = 0"
definition REGION_CN :: int where "REGION_CN = 1"
definition REGION_CNT :: int where "REGION_CNT = 2"

definition region_of :: "bytes \<Rightarrow> int" where
  "region_of s =
     (if strncmp_eq s (lit ''OS'') 3 then REGION_OS
      else if strncmp_eq s (lit ''CN'') 3 then REGION_CN else REGION_UNK)"

definition client_of :: "bytes \<Rightarrow> int" where
  "client_of s =
     (if strncmp_eq s (lit ''Win'') 31 then CLIENT_PC
      else if strncmp_eq s (lit ''Android'') 31 then CLIENT_ANDROID
      else if strncmp_eq s (lit ''iOS'') 31 then CLIENT_IOS else CLIENT_UNK)"

definition unknown_build :: "int \<Rightarrow> int \<Rightarrow> bool" where
  "unknown_build client region \<longleftrightarrow>
     client \<le> CLIENT_UNK \<or> CLIENT_CNT \<le> client \<or> region \<le> REGION_UNK \<or> REGION_CNT \<le> region"

definition LIVE_MAJOR :: u32 where "LIVE_MAJOR = 5"
definition LIVE_MINOR :: u32 where "LIVE_MINOR = 5"
definition CUR_MAJOR :: u32 where "CUR_MAJOR = 1"
definition CUR_MINOR :: u32 where "CUR_MINOR = 3"

definition list_refuses :: "int \<Rightarrow> int \<Rightarrow> u32 \<Rightarrow> u32 \<Rightarrow> u32 \<Rightarrow> bool" where
  "list_refuses client region major minor patch \<longleftrightarrow>
     unknown_build client region \<or> major < 1 \<or> major > LIVE_MAJOR \<or> (major = 1 \<and> minor > 6)
     \<or> (major = LIVE_MAJOR \<and> minor > LIVE_MINOR) \<or> minor > 8 \<or> patch > 54 \<or> (patch > 1 \<and> patch < 50)"

definition curr_refuses :: "int \<Rightarrow> int \<Rightarrow> u32 \<Rightarrow> u32 \<Rightarrow> u32 \<Rightarrow> bool" where
  "curr_refuses client region major minor patch \<longleftrightarrow>
     unknown_build client region \<or> major \<noteq> CUR_MAJOR \<or> minor \<noteq> CUR_MINOR \<or> patch > 1"

text \<open>From the beta of 2.7 on, answers are signed.\<close>

definition wants_sign :: "u32 \<Rightarrow> u32 \<Rightarrow> u32 \<Rightarrow> bool" where
  "wants_sign major minor patch \<longleftrightarrow> major \<ge> 3 \<or> (major = 2 \<and> (minor \<ge> 8 \<or> (minor = 7 \<and> patch \<ge> 50)))"

section \<open>The list of regions\<close>

record pb_simple_region =
  pn_name :: bytes
  pn_title :: bytes
  pn_type :: bytes
  pn_url :: bytes

definition default_url :: bytes where
  "default_url = lit ''http://osusadispatch.yuanshen.com/query_curr_region''"

definition region_message :: "string \<Rightarrow> nat \<Rightarrow> region_entry \<Rightarrow> pb_simple_region" where
  "region_message pkg i r =
     \<lparr>pn_name = (case re_name r of Some n \<Rightarrow> c_str n
                 | None \<Rightarrow> if i = 0 then lit ''os_usa'' else lit ''os_usa.'' @ decimal i),
      pn_title = (case re_title r of Some t \<Rightarrow> c_str t
                  | None \<Rightarrow> if i = 0 then lit pkg else lit pkg @ [32] @ decimal i),
      pn_type = (case re_type r of Some t \<Rightarrow> c_str t | None \<Rightarrow> lit ''DEV_PUBLIC''),
      pn_url = (case re_url r of Some u \<Rightarrow> c_str u | None \<Rightarrow> default_url)\<rparr>"

text \<open>Entry 0 needs an address; an entry with a version is for clients of that version.\<close>

fun region_messages :: "string \<Rightarrow> u32 \<Rightarrow> u32 \<Rightarrow> nat \<Rightarrow> region_entry option list \<Rightarrow> pb_simple_region list" where
  "region_messages pkg major minor i [] = []"
| "region_messages pkg major minor i (e # es) =
     (let rest = region_messages pkg major minor (i + 1) es
      in case e of
           None \<Rightarrow> rest
         | Some r \<Rightarrow>
             if i = 0 \<and> re_url r = None then rest
             else if (case re_version r of None \<Rightarrow> False
                      | Some v \<Rightarrow> \<not> strncmp_eq (decimal (unat major) @ lit ''.'' @ decimal (unat minor)) v 1024)
             then rest
             else region_message pkg i r # rest)"

record pb_region_list =
  pt_retcode :: int
  pt_regions :: "pb_simple_region list"
  pt_secret :: bytes
  pt_config :: bytes
  pt_login_pc :: bool

definition list_error :: pb_region_list where
  "list_error = \<lparr>pt_retcode = -1, pt_regions = [], pt_secret = [], pt_config = [], pt_login_pc = False\<rparr>"

definition list_config :: "int \<Rightarrow> bytes" where
  "list_config region =
     lit (''{\"sdkenv\":\"'' @ (if region = REGION_CN then ''0'' else ''2'') @
       ''\",\"checkdevice\":false,\"loadPatch\":false,\"showexception\":true,\"regionConfig\":\"pm|fk|add\",\"downloadMode\":0,\"codeSwitch\":[0]}'')"

text \<open>
  \<open>configured\<close> is the list of the configuration, empty when there is none; \<open>seed\<close> the key object made of
  the seed file when it could be opened. \<open>version\<close> is a member of the posted object.
\<close>

definition list_request :: "('j, 'd) web \<Rightarrow> bytes option \<Rightarrow> (int \<times> int \<times> u32 \<times> u32 \<times> u32) option" where
  "list_request W post =
     (case parse_request W ([], [], [], []) post of
        Inl _ \<Rightarrow> None
      | Inr j \<Rightarrow>
          Option.bind (opt_string (wb_json W) j ''version'') (\<lambda>data.
          Option.bind (scan_version data) (\<lambda>(region, client, major, minor, patch).
          Some (client_of client, region_of region, major, minor, patch))))"

definition getQueryRegionList ::
  "('j, 'd) web \<Rightarrow> string \<Rightarrow> region_entry option list \<Rightarrow> ec2b option \<Rightarrow> bytes option \<Rightarrow> pb_region_list" where
  "getQueryRegionList W pkg configured seed post =
     (case list_request W post of
        None \<Rightarrow> list_error
      | Some (client, region, major, minor, patch) \<Rightarrow>
          if list_refuses client region major minor patch then list_error
          else
            let regions = (if configured = []
                           then [\<lparr>pn_name = lit ''os_usa'', pn_title = lit pkg, pn_type = lit ''DEV_PUBLIC'', pn_url = default_url\<rparr>]
                           else region_messages pkg major minor 0 configured)
            in if regions = [] then list_error
               else \<lparr>pt_retcode = 0, pt_regions = regions,
                     pt_secret = (case seed of None \<Rightarrow> [] | Some e \<Rightarrow> the (ec2b_struct e)),
                     pt_config = (case seed of None \<Rightarrow> list_config region
                                  | Some e \<Rightarrow> HyvCryptXor (list_config region) (ec_xorpad e) 4096),
                     pt_login_pc = True\<rparr>)"

definition getQueryRegionListHttpRsp ::
  "('j, 'd) web \<Rightarrow> (pb_region_list \<Rightarrow> bytes option) \<Rightarrow> string \<Rightarrow> region_entry option list \<Rightarrow> ec2b option \<Rightarrow> bytes option \<Rightarrow> bytes" where
  "getQueryRegionListHttpRsp W ser pkg configured seed post =
     (case ser (getQueryRegionList W pkg configured seed post) of
        Some b \<Rightarrow> b
      | None \<Rightarrow> [8, 255, 255, 255, 255, 255, 255, 255, 255, 255, 1])"

section \<open>The region of this server\<close>

record pb_region =
  pr_ip :: bytes
  pr_domain :: bytes
  pr_use_domain :: bool
  pr_port :: u16
  pr_urls :: "bytes list"
  pr_resource_url :: bytes
  pr_data_url :: bytes
  pr_data_version :: u32
  pr_version_suffix :: bytes
  pr_data_md5 :: bytes
  pr_silence_version :: u32
  pr_silence_suffix :: bytes
  pr_silence_md5 :: bytes
  pr_res_version :: "pb_version option"
  pr_next_url :: bytes
  pr_next_version :: "pb_version option"
  pr_secret :: bytes

definition put_res :: "res_config option \<Rightarrow> pb_region \<Rightarrow> pb_region" where
  "put_res c r =
     (case c of
        None \<Rightarrow> r
      | Some c \<Rightarrow>
          r\<lparr>pr_resource_url := text_of (rc_resource_url c), pr_data_url := text_of (rc_data_url c),
            pr_data_version := rc_data_version c, pr_version_suffix := text_of (rc_data_suffix c),
            pr_data_md5 := text_of (rc_data_res c), pr_silence_version := rc_silence_version c,
            pr_silence_suffix := text_of (rc_silence_suffix c), pr_silence_md5 := text_of (rc_silence_res c),
            pr_res_version := Some (version_message c [])\<rparr>)"

definition put_next :: "res_config option \<Rightarrow> pb_region \<Rightarrow> pb_region" where
  "put_next c r =
     (case c of
        None \<Rightarrow> r
      | Some c \<Rightarrow> r\<lparr>pr_next_url := text_of (rc_resource_url c),
                    pr_next_version := Some (version_message c (text_of (rc_script_version c)))\<rparr>)"

definition has_gate :: "region_config \<Rightarrow> bool" where
  "has_gate cf \<longleftrightarrow> rg_ip cf \<noteq> None \<and> rg_port cf \<noteq> 0"

definition put_gate :: "region_config \<Rightarrow> pb_region \<Rightarrow> pb_region" where
  "put_gate cf r =
     (if \<not> has_gate cf then r
      else if rg_is_domain cf
      then r\<lparr>pr_use_domain := True, pr_domain := text_of (rg_ip cf), pr_port := rg_port cf\<rparr>
      else r\<lparr>pr_ip := text_of (rg_ip cf), pr_port := rg_port cf\<rparr>)"

definition region_fields :: "region_config \<Rightarrow> bytes option \<Rightarrow> bool \<Rightarrow> pb_region" where
  "region_fields cf dispatch_seed accepted =
     (let r = \<lparr>pr_ip = [], pr_domain = [], pr_use_domain = False, pr_port = 0, pr_urls = map text_of (rg_urls cf),
               pr_resource_url = [], pr_data_url = [], pr_data_version = 0, pr_version_suffix = [], pr_data_md5 = [],
               pr_silence_version = 0, pr_silence_suffix = [], pr_silence_md5 = [], pr_res_version = None,
               pr_next_url = [], pr_next_version = None, pr_secret = []\<rparr>;
          r = (if accepted then put_next (rg_next cf) (put_res (rg_res cf) (put_gate cf r)) else r)
      in case dispatch_seed of None \<Rightarrow> r | Some s \<Rightarrow> r\<lparr>pr_secret := s\<rparr>)"

record pb_curr =
  pq_retcode :: int
  pq_msg :: bytes
  pq_region :: "pb_region option"
  pq_stop :: "stop_server option"
  pq_update :: "bytes option"
  pq_key :: bytes

text \<open>What the request asks for: the return code and message, whether it is accepted, signed, and the key.\<close>

definition curr_version :: "('j, 'd) web \<Rightarrow> 'j \<Rightarrow> int \<times> bytes \<times> bool \<times> bool" where
  "curr_version W j =
     (case jl_member (wb_json W) j ''version'' of
        None \<Rightarrow> (-1, lit ''Version is not set'', False, False)
      | Some v \<Rightarrow>
          (case get_string (wb_json W) v of
             None \<Rightarrow> (-1, lit ''Version is null'', False, False)
           | Some data \<Rightarrow>
               (case scan_version data of
                  None \<Rightarrow> (-1, lit ''Version format is invalid'', False, False)
                | Some (region, client, major, minor, patch) \<Rightarrow>
                    let sign = wants_sign major minor patch
                    in if curr_refuses (client_of client) (region_of region) major minor patch
                       then (-1, lit ''Version mismatch'', False, sign) else (0, lit ''ok'', True, sign))))"

definition curr_request :: "('j, 'd) web \<Rightarrow> bytes option \<Rightarrow> int \<times> bytes \<times> bool \<times> bool \<times> u32" where
  "curr_request W post =
     (case parse_request W (lit ''Client is missing POST data'', lit ''JSON tokener alloc fail'', lit ''JSON parse error'',
             lit ''JSON POST data is not an object'') post of
        Inl m \<Rightarrow> (-1, m, False, False, 0)
      | Inr j \<Rightarrow>
          let (code, msg, ok, sign) = curr_version W j;
              sign = (case jl_member (wb_json W) j ''skipSign'' of None \<Rightarrow> sign | Some v \<Rightarrow> \<not> get_boolean (wb_json W) v);
              key = opt_int (wb_json W) j ''key_id''
          in if key = 1 \<or> sint key > 5 then (-1, lit ''Invalid key ID'', ok, sign, 0) else (code, msg, ok, sign, key))"

definition getQueryCurrRegion ::
  "('j, 'd) web \<Rightarrow> region_config option \<Rightarrow> bytes option \<Rightarrow> ec2b option \<Rightarrow> bytes option \<Rightarrow> pb_curr \<times> bool \<times> u32" where
  "getQueryCurrRegion W cf dispatch_seed seed post =
     (let (code, msg, ok, sign, key) = curr_request W post
      in case cf of
           None \<Rightarrow> (\<lparr>pq_retcode = -1, pq_msg = lit ''Server is missing region data'', pq_region = None, pq_stop = None,
                     pq_update = None, pq_key = []\<rparr>, sign, key)
         | Some cf \<Rightarrow>
             (\<lparr>pq_retcode = (if ok \<and> \<not> has_gate cf then -1 else code),
               pq_msg = (if ok \<and> \<not> has_gate cf then lit ''Server is missing region data'' else msg),
               pq_region = Some (region_fields cf dispatch_seed ok),
               pq_stop = (if rg_send cf = 1 then rg_stop cf else None),
               pq_update = (if rg_send cf = 2 then map_option c_str (rg_update_url cf) else None),
               pq_key = (case seed of None \<Rightarrow> [] | Some e \<Rightarrow> the (ec2b_struct e))\<rparr>, sign, key))"

section \<open>The answer\<close>

text \<open>
  The message goes into a buffer which has more than its size, a multiple of 256. \<open>sign_c\<close>, for the signature, has 4096 bytes.
\<close>

definition answer_text :: "(pb_curr \<Rightarrow> bytes option) \<Rightarrow> pb_curr \<Rightarrow> bytes" where
  "answer_text ser rsp =
     (case ser rsp of
        Some b \<Rightarrow> b
      | None \<Rightarrow> [8, 255, 255, 255, 255, 255, 255, 255, 255, 255, 1, 18, 28] @ lit ''Failed to serialize response'')"

definition answer_bufsz :: "nat \<Rightarrow> nat" where
  "answer_bufsz sz = (sz div 256 + 1) * 256"

definition answer_signature :: "'k rsa \<Rightarrow> bytes \<Rightarrow> bytes \<Rightarrow> cpp_fault + bytes" where
  "answer_signature R dataPath plain =
     map_sum id (\<lambda>(j, b). if sint j < 0 then [] else take (unat j) b) (HyvCryptRsaSign R dataPath (Some plain) (Some 4096))"

text \<open>
  \<open>malloc\<close> gives what is in the memory it takes, \<^term>\<open>None\<close> when there is none. As many bytes are copied from the buffer as
  the encryption says it has written. Without memory or encryption the answer is the plain message.
\<close>

definition answer_encrypted ::
  "'k rsa \<Rightarrow> bytes \<Rightarrow> (nat \<Rightarrow> bytes option) \<Rightarrow> u32 \<Rightarrow> bytes \<Rightarrow> (cpp_fault + bytes) option" where
  "answer_encrypted R dataPath malloc key plain =
     (let room = answer_bufsz (length plain) * 2
      in if key = 0 then Some (Inr plain)
         else case malloc room of
                None \<Rightarrow> Some (Inr plain)
              | Some fresh \<Rightarrow>
                  (case HyvCryptRsaEnc R dataPath (Some plain) (Some (of_nat room)) key of
                     None \<Rightarrow> None
                   | Some (Inl f) \<Rightarrow> Some (Inl f)
                   | Some (Inr (j, b)) \<Rightarrow>
                       Some (if sint j < 0 then Inr plain
                             else if room < unat j then Inl Out_of_bounds
                             else Inr (take (unat j) (b @ drop (length b) fresh)))))"

text \<open>The result is the signature and the answer; \<^term>\<open>None\<close> when the encryption does not end.\<close>

definition getQueryCurrRegionHttpRsp ::
  "('j, 'd) web \<Rightarrow> (pb_curr \<Rightarrow> bytes option) \<Rightarrow> 'k rsa \<Rightarrow> bytes \<Rightarrow> (nat \<Rightarrow> bytes option)
     \<Rightarrow> region_config option \<Rightarrow> bytes option \<Rightarrow> ec2b option \<Rightarrow> bytes option \<Rightarrow> (cpp_fault + bytes \<times> bytes) option" where
  "getQueryCurrRegionHttpRsp W ser R dataPath malloc cf dispatch_seed seed post =
     (let (rsp, sign, key) = getQueryCurrRegion W cf dispatch_seed seed post;
          plain = answer_text ser rsp
      in case (if sign then answer_signature R dataPath plain else Inr []) of
           Inl f \<Rightarrow> Some (Inl f)
         | Inr s \<Rightarrow> map_option (map_sum id (\<lambda>r. (s, r))) (answer_encrypted R dataPath malloc key plain))"

end
