(* ===== verification/Command.thy ===== *)
theory Command
  imports Db_Gate
begin

text \<open>
  Console commands: the splitting of a line into words and the choice of the command (\<open>src/command.cpp\<close>),
  and the account command (\<open>src/commands/account.cpp\<close>).
\<close>

section \<open>Splitting a line\<close>

text \<open>
  The state of the loop: the arguments found, the one being copied, the number of bytes written to the
  buffer of 1024, and which quote is open. Each turn looks at one character; the loop ends at the end of
  the line, after 32 arguments or when the buffer is full.
\<close>

record splitter =
  sp_args :: "bytes list"
  sp_cur :: bytes
  sp_len :: nat
  sp_quotes :: nat

definition copy_char :: "u8 \<Rightarrow> splitter \<Rightarrow> splitter" where
  "copy_char c s = s\<lparr>sp_cur := sp_cur s @ [c], sp_len := sp_len s + 1\<rparr>"

definition end_arg :: "splitter \<Rightarrow> splitter" where
  "end_arg s = s\<lparr>sp_args := sp_args s @ [sp_cur s], sp_cur := [], sp_len := sp_len s + 1\<rparr>"

definition quote_char :: "nat \<Rightarrow> u8 \<Rightarrow> splitter \<Rightarrow> splitter" where
  "quote_char q c s =
     (if sp_quotes s = q then s\<lparr>sp_quotes := 0\<rparr>
      else if sp_quotes s = 0 then s\<lparr>sp_quotes := q\<rparr> else copy_char c s)"

definition split_char :: "u8 \<Rightarrow> splitter \<Rightarrow> splitter" where
  "split_char c s =
     (if c = 39 then quote_char 1 c s
      else if c = 34 then quote_char 2 c s
      else if c = 32 then (if sp_quotes s \<noteq> 0 then copy_char c s else end_arg s)
      else copy_char c s)"

fun split_loop :: "bytes \<Rightarrow> splitter \<Rightarrow> splitter" where
  "split_loop [] s = s"
| "split_loop (c # cs) s =
     (if 32 \<le> length (sp_args s) \<or> 1023 \<le> sp_len s then s else split_loop cs (split_char c s))"

definition split_line :: "bytes \<Rightarrow> bytes list" where
  "split_line cmd =
     (let s = split_loop (c_str cmd) \<lparr>sp_args = [], sp_cur = [], sp_len = 0, sp_quotes = 0\<rparr>
      in if length (sp_args s) < 32 then sp_args s @ [sp_cur s] else sp_args s)"

section \<open>The table of commands\<close>

text \<open>\<open>'c\<close> is what a command does with its arguments.\<close>

record 'c command =
  cm_name :: bytes
  cm_aliases :: "bytes list"
  cm_run :: 'c

definition registerCommand :: "'c command \<Rightarrow> 'c command list \<Rightarrow> 'c command list" where
  "registerCommand c cs = cs @ [c]"

text \<open>A command that is found, by its name or an alias, is erased, and the loop goes on from the erased place.\<close>

definition unregisterCommand :: "bytes \<Rightarrow> 'c command list \<Rightarrow> cpp_fault + 'c command list" where
  "unregisterCommand n cs =
     (if \<exists>c \<in> set cs. cm_name c = n \<or> n \<in> set (cm_aliases c) then Inl Invalid_iterator else Inr cs)"

text \<open>This asks whether the table is empty.\<close>

definition unregisterAllCommands :: "'c command list \<Rightarrow> 'c command list" where
  "unregisterAllCommands cs = cs"

fun find_command :: "bytes \<Rightarrow> 'c command list \<Rightarrow> 'c command option" where
  "find_command n [] = None"
| "find_command n (c # cs) = (if cm_name c = n \<or> n \<in> set (cm_aliases c) then Some c else find_command n cs)"

text \<open>The code is -1 without arguments and -2 for an unknown command; \<^term>\<open>Inr\<close> is the command with its arguments.\<close>

definition choose_command :: "'c command list \<Rightarrow> bytes list \<Rightarrow> int + 'c \<times> bytes list" where
  "choose_command cs argv =
     (case argv of
        [] \<Rightarrow> Inl (-1)
      | n # args \<Rightarrow> (case find_command n cs of None \<Rightarrow> Inl (-2) | Some c \<Rightarrow> Inr (cm_run c, args)))"

definition handleCommand :: "'c command list \<Rightarrow> bytes \<Rightarrow> int + 'c \<times> bytes list" where
  "handleCommand cs cmd = choose_command cs (split_line cmd)"

section \<open>The account command\<close>

text \<open>\<open>account\<close> is that of the player who gave the command, \<^term>\<open>None\<close> on the console.\<close>

definition account_create ::
  "'d store_lib \<Rightarrow> account \<Rightarrow> account option \<Rightarrow> bytes list \<Rightarrow> 'd dbgate \<Rightarrow> (cpp_fault + int \<times> 'd dbgate) option" where
  "account_create L raw account argv g =
     (case account of
        Some _ \<Rightarrow> Some (Inr (-4, g))
      | None \<Rightarrow>
          (case argv of
             [] \<Rightarrow> Some (Inr (1, g))
           | name # _ \<Rightarrow>
               (case createAccount L raw (Some name) g of
                  None \<Rightarrow> None
                | Some (Inl f) \<Rightarrow> Some (Inl f)
                | Some (Inr (a, g)) \<Rightarrow> Some (map_sum id (\<lambda>(_, g). (0, g)) (saveAccount L a g)))))"

text \<open>An account is named by its name, by the name behind an \<open>@\<close>, by its id behind an \<open>a\<close> or a uid behind a \<open>u\<close>.\<close>

definition find_target ::
  "'d store_lib \<Rightarrow> player_env \<Rightarrow> bytes \<Rightarrow> 'd dbgate \<Rightarrow> cpp_fault + account option" where
  "find_target L env arg g =
     (let starts = (\<lambda>c. arg \<noteq> [] \<and> hd arg = of_char c);
          rest = tl arg
      in case getAccountByUsername L (Some arg) g of
           Inl f \<Rightarrow> Inl f
         | Inr (Some a) \<Rightarrow> Inr (Some a)
         | Inr None \<Rightarrow>
             if starts (CHR ''@'') then getAccountByUsername L (Some rest) g
             else if starts (CHR ''a'') then Inr (getAccountByAid L (ucast (fst (strtoul rest 10))) g)
             else if starts (CHR ''u'') then Inr (getAccountByUid L env (ucast (fst (strtoul rest 10))) g)
             else Inr None)"

definition account_delete ::
  "'d store_lib \<Rightarrow> player_env \<Rightarrow> account option \<Rightarrow> bytes list \<Rightarrow> 'd dbgate \<Rightarrow> cpp_fault + int \<times> 'd dbgate" where
  "account_delete L env account argv g =
     (case (case argv of [] \<Rightarrow> Inr account | arg # _ \<Rightarrow> find_target L env arg g) of
        Inl f \<Rightarrow> Inl f
      | Inr None \<Rightarrow> Inr (0, g)
      | Inr (Some a) \<Rightarrow> Inr (deleteAccount L a g))"

definition account_command ::
  "'d store_lib \<Rightarrow> account \<Rightarrow> player_env \<Rightarrow> account option \<Rightarrow> bytes list \<Rightarrow> 'd dbgate \<Rightarrow> (cpp_fault + int \<times> 'd dbgate) option" where
  "account_command L raw env account argv g =
     (case argv of
        [] \<Rightarrow> Some (Inr (1, g))
      | sub # args \<Rightarrow>
          if strcmp_eq sub (lit ''create'') then account_create L raw account args g
          else if strcmp_eq sub (lit ''delete'') then Some (account_delete L env account args g)
          else if strcmp_eq sub (lit ''edit'') then Some (Inr (-10, g))
          else if strcmp_eq sub (lit ''passwd'') then Some (Inr (-10, g))
          else Some (Inr (1, g)))"

section \<open>Words in quotes\<close>

text \<open>A word in double quotes is copied; a space behind it ends the argument.\<close>

definition quoted :: "bytes \<Rightarrow> bytes" where
  "quoted w = [34] @ w @ [34]"

fun quoted_line :: "bytes list \<Rightarrow> bytes" where
  "quoted_line [] = []"
| "quoted_line [w] = quoted w"
| "quoted_line (w # ws) = quoted w @ [32] @ quoted_line ws"

lemma split_copies:
  assumes "34 \<notin> set w" "length (sp_args s) < 32" "sp_len s + length w \<le> 1023" "sp_quotes s = 2"
  shows "split_loop (w @ r) s = split_loop r (s\<lparr>sp_cur := sp_cur s @ w, sp_len := sp_len s + length w\<rparr>)"
  using assms
proof (induction w arbitrary: s)
  case (Cons c w)
  have "split_char c s = copy_char c s" using Cons.prems(1,4) by (simp add: split_char_def quote_char_def)
  then show ?case using Cons by (simp add: copy_char_def)
qed simp

lemma split_quoted:
  assumes "34 \<notin> set w" "length (sp_args s) < 32" "sp_len s + length w < 1023" "sp_quotes s = 0"
  shows "split_loop (quoted w @ r) s = split_loop r (s\<lparr>sp_cur := sp_cur s @ w, sp_len := sp_len s + length w\<rparr>)"
proof -
  have "split_loop (quoted w @ r) s = split_loop (w @ 34 # r) (s\<lparr>sp_quotes := 2\<rparr>)"
    using assms by (simp add: quoted_def split_char_def quote_char_def)
  also have "\<dots> = split_loop (34 # r) (s\<lparr>sp_quotes := 2, sp_cur := sp_cur s @ w, sp_len := sp_len s + length w\<rparr>)"
    using assms by (subst split_copies) simp_all
  also have "\<dots> = split_loop r (s\<lparr>sp_cur := sp_cur s @ w, sp_len := sp_len s + length w\<rparr>)"
    using assms by (cases s) (simp add: split_char_def quote_char_def)
  finally show ?thesis .
qed

lemma split_words:
  assumes "ws \<noteq> []" "\<forall>w \<in> set ws. 34 \<notin> set w" "length (sp_args s) + length ws \<le> 32"
    "sp_len s + (\<Sum>w\<leftarrow>ws. length w + 1) \<le> 1023" "sp_quotes s = 0" "sp_cur s = []"
  shows "sp_args (split_loop (quoted_line ws) s) = sp_args s @ butlast ws
    \<and> sp_cur (split_loop (quoted_line ws) s) = last ws"
  using assms
proof (induction ws arbitrary: s rule: quoted_line.induct)
  case (2 w)
  then show ?case using split_quoted [of w s "[]"] by simp
next
  case (3 w v ws)
  let ?t = "s\<lparr>sp_cur := w, sp_len := sp_len s + length w\<rparr>"
  have "split_loop (quoted_line (w # v # ws)) s = split_loop (32 # quoted_line (v # ws)) ?t"
    using split_quoted [of w s "32 # quoted_line (v # ws)"] 3(2-) by simp
  also have "\<dots> = split_loop (quoted_line (v # ws)) (end_arg ?t)"
    using 3(2-) by (simp add: split_char_def)
  finally have eq: "split_loop (quoted_line (w # v # ws)) s = split_loop (quoted_line (v # ws)) (end_arg ?t)" .
  have "sp_args (split_loop (quoted_line (v # ws)) (end_arg ?t)) = sp_args (end_arg ?t) @ butlast (v # ws)
      \<and> sp_cur (split_loop (quoted_line (v # ws)) (end_arg ?t)) = last (v # ws)"
    by (rule 3(1)) (use 3(2-) in \<open>simp_all add: end_arg_def\<close>)
  then show ?case unfolding eq by (simp add: end_arg_def)
qed simp

end
