(* ===== verification/Client_Version.thy ===== *)
theory Client_Version
  imports Main
begin

text \<open>
  What the checks of \<open>src/dispatch.cpp\<close> on a client's version mean: versions in the order in which they were
  released, and the versions there are.
\<close>

datatype version = Version (v_major: nat) (v_minor: nat) (v_patch: nat)

instantiation version :: linorder
begin

fun less_eq_version :: "version \<Rightarrow> version \<Rightarrow> bool" where
  "less_eq_version (Version a b c) (Version x y z) \<longleftrightarrow> a < x \<or> a = x \<and> (b < y \<or> b = y \<and> c \<le> z)"

fun less_version :: "version \<Rightarrow> version \<Rightarrow> bool" where
  "less_version (Version a b c) (Version x y z) \<longleftrightarrow> a < x \<or> a = x \<and> (b < y \<or> b = y \<and> c < z)"

instance
proof
  fix u v w :: version
  show "u < v \<longleftrightarrow> u \<le> v \<and> \<not> v \<le> u" by (cases u; cases v) auto
  show "u \<le> u" by (cases u) simp
  show "u \<le> v \<Longrightarrow> v \<le> w \<Longrightarrow> u \<le> w" by (cases u; cases v; cases w) auto
  show "u \<le> v \<Longrightarrow> v \<le> u \<Longrightarrow> u = v" by (cases u; cases v) auto
  show "u \<le> v \<or> v \<le> u" by (cases u; cases v) auto
qed

end

text \<open>The minor versions go up to 8, those of version 1 to 6; patches are 0, 1 and the betas 50 to 54.\<close>

fun released :: "version \<Rightarrow> bool" where
  "released (Version a b c) \<longleftrightarrow> b \<le> (if a = 1 then 6 else 8) \<and> (c \<le> 1 \<or> 50 \<le> c \<and> c \<le> 54)"

end
