(* ===== verification/Web_Properties.thy ===== *)
theory Web_Properties
  imports Http_Server Region_Query Command Sample_Store Client_Version
begin

text \<open>
  The properties of what the dispatch server does with a connection, with the version a client reports,
  and of the words of a console command.
\<close>

section \<open>Routing\<close>

definition served :: "bytes \<Rightarrow> bool" where
  "served meth \<longleftrightarrow> is_method meth ''GET'' \<or> is_method meth ''POST'' \<or> is_method meth ''HEAD''"

lemma method_codes:
  "lit ''GET'' = [71, 69, 84]" "lit ''POST'' = [80, 79, 83, 84]" "lit ''HEAD'' = [72, 69, 65, 68]"
  "lit ''OPTIONS'' = [79, 80, 84, 73, 79, 78, 83]"
  by code_simp+

lemma is_method_prefix:
  assumes "m \<in> {''GET'', ''POST'', ''HEAD'', ''OPTIONS''}"
  shows "is_method meth m \<longleftrightarrow> (\<exists>rest. meth = lit m @ rest)"
proof -
  have "0 \<notin> set (lit m)" using assms method_codes by auto
  then show ?thesis using strncmp_prefix [of "lit m" meth] by (simp add: is_method_def lit_def)
qed

lemma served_not_options:
  assumes "served meth"
  shows "\<not> is_method meth ''OPTIONS''"
proof
  assume "is_method meth ''OPTIONS''"
  then have "hd meth = 79" by (auto simp: is_method_prefix method_codes)
  moreover have "hd meth = 71 \<or> hd meth = 80 \<or> hd meth = 72"
    using assms unfolding served_def by (elim disjE) (auto simp: is_method_prefix method_codes)
  ultimately show False by simp
qed

definition fixed_paths :: "string list" where
  "fixed_paths = [''/ '', ''/?'', ''/generate_204'', ''/gen_204'']"

lemma endpoint_count: "length sdkEndpoints = SDK_ENDPOINT_CNT" "SDK_ENDPOINT_CNT = 16"
  by (simp_all add: sdkEndpoints_def SDK_ENDPOINT_CNT_def)

text \<open>All the paths begin with a slash, and none with another.\<close>

lemma all_paths: "set ([''/ '', ''/?'', ''/generate_204'', ''/gen_204'', ''/''] @ sdkEndpoints)
    = insert ''/'' (set (fixed_paths @ sdkEndpoints))"
  by (auto simp: fixed_paths_def)

lemma path_at:
  assumes "e \<in> insert ''/'' (set (fixed_paths @ sdkEndpoints))"
  shows "strncmp_eq path (lit e) (length (lit e)) \<longleftrightarrow> (\<exists>rest. path = lit e @ rest)"
  by (rule path_prefix(2)) (use assms all_paths in blast)

lemma same_path:
  assumes "path = lit e @ r" "path = lit e' @ r'" "e \<in> set (fixed_paths @ sdkEndpoints)" "e' \<in> set (fixed_paths @ sdkEndpoints)"
  shows "e = e'"
proof -
  let ?ps = "fixed_paths @ sdkEndpoints"
  obtain k k' where k: "k < length ?ps" "e = ?ps ! k" "k' < length ?ps" "e' = ?ps ! k'"
    using assms(3,4) by (metis in_set_conv_nth)
  have "map lit ?ps ! k @ r = map lit ?ps ! k' @ r'" using k assms(1,2) by (simp only: nth_map)
  then have "k = k'"
    using no_common_path [OF endpoints_prefix_free [folded fixed_paths_def], of k k' r r'] k by simp
  then show ?thesis using k by simp
qed

lemma path_slash:
  assumes "path = lit e @ rest" "e \<in> set (fixed_paths @ sdkEndpoints)"
  shows "\<exists>rest. path = lit ''/'' @ rest"
proof -
  have "list_all (\<lambda>e. take 1 e = ''/'') (fixed_paths @ sdkEndpoints)" by code_simp
  then have c: "take 1 e = ''/''" using assms(2) unfolding list_all_iff by (rule bspec)
  have "lit e = lit (take 1 e) @ lit (drop 1 e)"
    unfolding lit_def map_append [symmetric] append_take_drop_id by (rule refl)
  then have "path = lit ''/'' @ (lit (drop 1 e) @ rest)" unfolding c assms(1) by simp
  then show ?thesis by blast
qed

lemma endpoints_distinct: "distinct (fixed_paths @ sdkEndpoints)"
  by code_simp

lemma first_endpoint_sound: "first_endpoint path n es = Some i \<Longrightarrow> n \<le> i \<and> i - n < length es
    \<and> strncmp_eq path (lit (es ! (i - n))) (length (lit (es ! (i - n))))"
proof (induction path n es rule: first_endpoint.induct)
  case (2 path n e es)
  show ?case
  proof (cases "strncmp_eq path (lit e) (length (lit e))")
    case False
    then have "n + 1 \<le> i \<and> i - (n + 1) < length es
      \<and> strncmp_eq path (lit (es ! (i - (n + 1)))) (length (lit (es ! (i - (n + 1)))))"
      using 2 by simp
    moreover from this have "i - n = Suc (i - (n + 1))" by arith
    ultimately show ?thesis by simp
  qed (use 2 in simp)
qed simp

lemma first_endpoint_exact:
  "first_endpoint path 0 sdkEndpoints = Some i
    \<longleftrightarrow> i < SDK_ENDPOINT_CNT \<and> (\<exists>rest. path = lit (sdkEndpoints ! i) @ rest)"
proof
  assume "first_endpoint path 0 sdkEndpoints = Some i"
  from first_endpoint_sound [OF this]
  show "i < SDK_ENDPOINT_CNT \<and> (\<exists>rest. path = lit (sdkEndpoints ! i) @ rest)"
    using path_at [of "sdkEndpoints ! i" path] endpoint_count by simp
next
  assume i: "i < SDK_ENDPOINT_CNT \<and> (\<exists>rest. path = lit (sdkEndpoints ! i) @ rest)"
  then obtain rest where rest: "path = lit (sdkEndpoints ! i) @ rest" by blast
  have "first_endpoint path 0 sdkEndpoints = Some (0 + i)"
  proof (rule first_endpoint_at)
    show "i < length sdkEndpoints" using i endpoint_count by simp
    show "strncmp_eq path (lit (sdkEndpoints ! i)) (length (lit (sdkEndpoints ! i)))"
      using path_at [of "sdkEndpoints ! i" path] i endpoint_count by simp
  next
    fix j assume j: "j < i"
    then have jl: "j < length sdkEndpoints" "i < length sdkEndpoints" using i endpoint_count by simp_all
    show "\<not> strncmp_eq path (lit (sdkEndpoints ! j)) (length (lit (sdkEndpoints ! j)))"
    proof
      assume "strncmp_eq path (lit (sdkEndpoints ! j)) (length (lit (sdkEndpoints ! j)))"
      then obtain t where "path = lit (sdkEndpoints ! j) @ t" using path_at [of "sdkEndpoints ! j" path] jl by auto
      then have "sdkEndpoints ! j = sdkEndpoints ! i" using same_path [OF _ rest] jl by simp
      then show False using endpoints_distinct j jl by (simp add: nth_eq_iff_index_eq)
    qed
  qed
  then show "first_endpoint path 0 sdkEndpoints = Some i" by simp
qed

text \<open>The choice for a method that is served, with the tests on the path named.\<close>

definition starts :: "bytes \<Rightarrow> string \<Rightarrow> bool" where
  "starts path e \<longleftrightarrow> (\<exists>rest. path = lit e @ rest)"

lemma http_status_served:
  assumes "served meth"
  shows "http_status meth path =
    (if starts path ''/ '' \<or> starts path ''/?'' then (if is_method meth ''POST'' then 403 else 200)
     else if starts path ''/generate_204'' \<or> starts path ''/gen_204'' then 204
     else case first_endpoint path 0 sdkEndpoints of Some i \<Rightarrow> i | None \<Rightarrow> if starts path ''/'' then 404 else 400)"
proof -
  have s: "strncmp_eq path (lit e) n \<longleftrightarrow> starts path e"
    if "e \<in> insert ''/'' (set (fixed_paths @ sdkEndpoints))" "n = length e" for e n
    using path_at [OF that(1), of path] that(2) by (simp add: starts_def lit_def)
  have f: "strncmp_eq path (lit ''/ '') 2 \<longleftrightarrow> starts path ''/ ''" "strncmp_eq path (lit ''/?'') 2 \<longleftrightarrow> starts path ''/?''"
    "strncmp_eq path (lit ''/generate_204'') 13 \<longleftrightarrow> starts path ''/generate_204''"
    "strncmp_eq path (lit ''/gen_204'') 8 \<longleftrightarrow> starts path ''/gen_204''" "strncmp_eq path (lit ''/'') 1 \<longleftrightarrow> starts path ''/''"
    by (rule s; simp add: fixed_paths_def)+
  show ?thesis
    unfolding http_status_def f served_def [symmetric] using assms served_not_options [OF assms] by simp
qed

text \<open>
  A request is answered by endpoint number i exactly when its method is GET, POST or HEAD and its
  path begins with the name of that endpoint, whatever follows: no endpoint hides another one or is
  hidden by the fixed paths. OPTIONS is answered for every path, other methods are refused, and a path
  that does not begin with a slash is a bad request.
\<close>

theorem http_routing:
  "(http_status meth path = i \<and> i < SDK_ENDPOINT_CNT
      \<longleftrightarrow> served meth \<and> i < SDK_ENDPOINT_CNT \<and> (\<exists>rest. path = lit (sdkEndpoints ! i) @ rest))
    \<and> (http_status meth path = 1204 \<longleftrightarrow> is_method meth ''OPTIONS'')
    \<and> (http_status meth path = 405 \<longleftrightarrow> \<not> is_method meth ''OPTIONS'' \<and> \<not> served meth)
    \<and> (http_status meth path = 400 \<longleftrightarrow> served meth \<and> (\<forall>rest. path \<noteq> lit ''/'' @ rest))"
proof (cases "served meth")
  case False
  then show ?thesis using endpoint_count by (auto simp: http_status_def served_def)
next
  case True
  let ?e = "first_endpoint path 0 sdkEndpoints"
  have no_end: "?e = None" if "starts path e" "e \<in> set fixed_paths" for e
  proof (rule ccontr)
    assume "?e \<noteq> None"
    then obtain i rest where i: "i < SDK_ENDPOINT_CNT" "path = lit (sdkEndpoints ! i) @ rest"
      using first_endpoint_exact by blast
    then have m: "sdkEndpoints ! i \<in> set sdkEndpoints" using endpoint_count by simp
    then have "e = sdkEndpoints ! i" using that i same_path [of path e _ "sdkEndpoints ! i"] by (auto simp: starts_def)
    with that m endpoints_distinct show False by auto
  qed
  have slash: "starts path ''/''" if "starts path e" "e \<in> set (fixed_paths @ sdkEndpoints)" for e
    using path_slash that by (auto simp: starts_def)
  have mem: "''/ '' \<in> set fixed_paths" "''/?'' \<in> set fixed_paths" "''/generate_204'' \<in> set fixed_paths" "''/gen_204'' \<in> set fixed_paths"
    by (simp_all add: fixed_paths_def)
  show ?thesis
  proof (cases ?e)
    case None
    then have n: "\<not> (i < SDK_ENDPOINT_CNT \<and> (\<exists>rest. path = lit (sdkEndpoints ! i) @ rest))" for i
      using first_endpoint_exact by (metis option.distinct(1))
    have "http_status meth path \<in> {200, 403, 204, 404, 400} \<and> (http_status meth path = 400 \<longleftrightarrow> \<not> starts path ''/'')"
      using None slash mem by (simp add: http_status_served [OF True])
    then show ?thesis using n True served_not_options [OF True] endpoint_count by (auto simp: starts_def)
  next
    case (Some k)
    then have k: "k < SDK_ENDPOINT_CNT" "starts path (sdkEndpoints ! k)"
      using first_endpoint_exact by (simp_all add: starts_def)
    have "http_status meth path = k"
      using no_end mem Some by (auto simp: http_status_served [OF True])
    moreover have "\<not> (\<forall>rest. path \<noteq> lit ''/'' @ rest)" using slash k endpoint_count by (simp add: starts_def)
    moreover have "k = i \<longleftrightarrow> i < SDK_ENDPOINT_CNT \<and> (\<exists>rest. path = lit (sdkEndpoints ! i) @ rest)"
      using first_endpoint_exact [of path i] Some by auto
    ultimately show ?thesis using True served_not_options [OF True] endpoint_count k(1) by auto
  qed
qed

section \<open>Responses\<close>

text \<open>
  A response is never empty and shorter than the buffer. Sending it returns, after finitely many
  calls, exactly when the peer takes all its bytes before the first error; otherwise, after an error the
  loop goes on without a connection and never ends.
\<close>

theorem response_sending:
  "0 < length (http_response mver s server meth c) \<and> length (http_response mver s server meth c) < buf_len
    \<and> ((\<exists>calls. send_loop net 0 True (length (http_response mver s server meth c)) = Some calls)
        \<longleftrightarrow> (\<exists>k. list_all (\<lambda>m. net m \<noteq> None) [0..<k] \<and> length (http_response mver s server meth c) \<le> (\<Sum>m<k. the (net m))))"
proof -
  let ?r = "http_response mver s server meth c"
  have "0 < length (c_str (take (buf_len - 1) (lit ''HTTP/1.'' @ x)))" for x
  proof -
    have "lit ''HTTP/1.'' = 72 # tl (lit ''HTTP/1.'')" by code_simp
    then have h: "lit ''HTTP/1.'' @ x = 72 # tl (lit ''HTTP/1.'') @ x" by (metis append_Cons)
    have "0 < length (c_str (take n (72 # y)))" if "0 < n" for n and y :: bytes
      using that by (cases n) (simp_all add: c_str_def)
    moreover have "0 < buf_len - 1" by (simp add: buf_len_def)
    ultimately show ?thesis unfolding h by blast
  qed
  then have "0 < length ?r" unfolding http_response_def .
  moreover have "length (c_str (take (buf_len - 1) x)) < buf_len" for x
    using c_str_length [of "take (buf_len - 1) x"] by (simp add: buf_len_def)
  then have "length ?r < buf_len" unfolding http_response_def .
  moreover have "(\<exists>calls. send_loop net 0 True (length ?r) = Some calls) \<longleftrightarrow> taken net 0 (length ?r)"
    by (rule send_loop_ends)
  moreover have "list_all (\<lambda>m. net m \<noteq> None) [0..<k] \<longleftrightarrow> (\<forall>m<k. net (0 + m) \<noteq> None)" for k
    by (auto simp: list_all_iff)
  ultimately show ?thesis unfolding taken_def by simp
qed

section \<open>Versions\<close>

text \<open>The text a client sends for its version, made of region, platform and three numbers.\<close>

definition version_text :: "bytes \<Rightarrow> bytes \<Rightarrow> nat \<Rightarrow> nat \<Rightarrow> nat \<Rightarrow> bytes" where
  "version_text region client a b c =
     region @ lit ''REL'' @ client @ decimal a @ [46] @ decimal b @ [46] @ decimal c"

definition client_name :: "bytes \<Rightarrow> bool" where
  "client_name w \<longleftrightarrow> w \<noteq> [] \<and> length w \<le> 31 \<and> list_all (\<lambda>c. c \<noteq> 0 \<and> 10 \<le> digit_value c \<and> c \<noteq> 46) w"

lemma decimal_head:
  obtains c cs where "decimal n = c # cs" "48 \<le> unat c" "unat c \<le> 57"
  using decimal_not_Nil [of n] decimal_digits [of n] by (cases "decimal n") auto

lemma scan_int_decimal:
  assumes "n < 2 ^ 31" "rest = [] \<or> 10 \<le> digit_value (hd rest)"
  shows "scan_int (decimal n @ rest) = Some (of_nat n, rest)"
proof -
  obtain c cs where d: "decimal n = c # cs" "48 \<le> unat c" "unat c \<le> 57" by (rule decimal_head)
  have "\<not> is_space c" using d(2) by (auto simp: is_space_def word_le_nat_alt)
  moreover have "c \<noteq> of_char (CHR ''-'')" "c \<noteq> of_char (CHR ''+'')" using d(2) by auto
  ultimately have s: "dropWhile is_space (decimal n @ rest) = decimal n @ rest"
    "strtoul_sign (decimal n @ rest) = (False, decimal n @ rest)"
    using d(1) by (simp_all add: strtoul_sign_def)
  show ?thesis
    unfolding scan_int_def s Let_def prod.case digits_decimal [OF assms(2)] digits_value_decimal
    using assms(1) decimal_not_Nil [of n] by simp
qed

lemma scan_version_text:
  assumes "length region = 2" "0 \<notin> set region" "client_name client" "a < 2 ^ 31" "b < 2 ^ 31" "c < 2 ^ 31"
  shows "scan_version (version_text region client a b c) = Some (region, client, of_nat a, of_nat b, of_nat c)"
    and "c_str (version_text region client a b c) = version_text region client a b c"
proof -
  let ?t = "version_text region client a b c"
  let ?n = "decimal a @ [46] @ decimal b @ [46] @ decimal c"
  have rel: "lit ''REL'' = [82, 69, 76]" by code_simp
  have "0 \<notin> set (decimal n)" for n using decimal_digits [of n] by fastforce
  then have "0 \<notin> set ?t" using assms(2,3) by (auto simp: version_text_def rel client_name_def list_all_iff)
  then show p: "c_str ?t = ?t" by (rule c_str_plain)
  obtain d ds where d: "decimal a = d # ds" "48 \<le> unat d" "unat d \<le> 57" by (rule decimal_head)
  have dot: "digit_value 46 = 99" by (simp add: digit_value_def)
  have cl: "scan_client (client @ ?n) = Some (client, ?n)"
  proof -
    have "takeWhile (\<lambda>c. \<not> digit_value c < 10 \<and> c \<noteq> of_char (CHR ''.'')) (client @ ?n) = client"
      using assms(3) d digit_value_digit [OF d(2,3)]
      by (subst takeWhile_append2) (auto simp: client_name_def list_all_iff)
    then show ?thesis using assms(3) by (simp add: scan_client_def client_name_def)
  qed
  have i: "scan_int ?n = Some (of_nat a, [46] @ decimal b @ [46] @ decimal c)"
    "scan_int (decimal b @ [46] @ decimal c) = Some (of_nat b, [46] @ decimal c)"
    "scan_int (decimal c) = Some (of_nat c, [])"
    using scan_int_decimal [of a "[46] @ decimal b @ [46] @ decimal c"] scan_int_decimal [of b "[46] @ decimal c"]
      scan_int_decimal [of c "[]"] assms(4-6) dot by simp_all
  have t: "take 3 (drop 2 ?t) = lit ''REL''" "drop 5 ?t = client @ ?n" "take 2 ?t = region" "\<not> length ?t < 2"
    using assms(1) by (simp_all add: version_text_def rel)
  show "scan_version ?t = Some (region, client, of_nat a, of_nat b, of_nat c)"
    unfolding scan_version_def p Let_def t(2,3) cl using t(1,4) i by (simp add: scan_dot_def)
qed

text \<open>Names are compared whole.\<close>

lemma strncmp_whole:
  assumes "0 \<notin> set s" "0 \<notin> set t" "length s \<le> n" "length t \<le> n"
  shows "strncmp_eq s t n \<longleftrightarrow> s = t"
  using assms by (simp add: strncmp_eq_def c_str_plain)

definition known_build :: "bytes \<Rightarrow> bytes \<Rightarrow> bool" where
  "known_build region client \<longleftrightarrow>
     region \<in> {lit ''OS'', lit ''CN''} \<and> client \<in> {lit ''Win'', lit ''Android'', lit ''iOS''}"

lemma known_build_exact:
  assumes "length region = 2" "0 \<notin> set region" "client_name client"
  shows "unknown_build (client_of client) (region_of region) \<longleftrightarrow> \<not> known_build region client"
proof -
  have n: "0 \<notin> set (lit s) \<and> length (lit s) \<le> 7" if "s \<in> {''OS'', ''CN'', ''Win'', ''Android'', ''iOS''}" for s
  proof -
    have "list_all (\<lambda>s. 0 \<notin> set (lit s) \<and> length (lit s) \<le> 7) [''OS'', ''CN'', ''Win'', ''Android'', ''iOS'']"
      by code_simp
    then show ?thesis unfolding list_all_iff by (rule bspec) (use that in simp)
  qed
  have r: "strncmp_eq region (lit s) 3 \<longleftrightarrow> region = lit s" if "s \<in> {''OS'', ''CN''}" for s
  proof (rule strncmp_whole)
    show "0 \<notin> set region" "length region \<le> 3" using assms(1,2) by simp_all
    have "s \<in> {''OS'', ''CN'', ''Win'', ''Android'', ''iOS''}" using that by blast
    from n [OF this] show "0 \<notin> set (lit s)" by simp
    have "list_all (\<lambda>s. length (lit s) \<le> 3) [''OS'', ''CN'']" by code_simp
    then show "length (lit s) \<le> 3" unfolding list_all_iff by (rule bspec) (use that in simp)
  qed
  have c: "strncmp_eq client (lit s) 31 \<longleftrightarrow> client = lit s" if "s \<in> {''Win'', ''Android'', ''iOS''}" for s
  proof (rule strncmp_whole)
    show "0 \<notin> set client" "length client \<le> 31" using assms(3) by (auto simp: client_name_def list_all_iff)
    have "s \<in> {''OS'', ''CN'', ''Win'', ''Android'', ''iOS''}" using that by blast
    from n [OF this] show "0 \<notin> set (lit s)" "length (lit s) \<le> 31" by simp_all
  qed
  show ?thesis
    by (simp add: unknown_build_def client_of_def region_of_def r c known_build_def CLIENT_UNK_def CLIENT_PC_def
        CLIENT_ANDROID_def CLIENT_IOS_def CLIENT_CNT_def REGION_UNK_def REGION_OS_def REGION_CN_def REGION_CNT_def)
qed

lemma unat_nat: "n < 2 ^ 31 \<Longrightarrow> unat (of_nat n :: u32) = n"
  by (simp add: unsigned_of_nat take_bit_nat_eq_self)

lemmas version_words = word_less_nat_alt word_le_nat_alt unat_nat word_unat_eq_iff

text \<open>The three tests of a version, as tests in the order of the versions.\<close>

lemma list_refuses_exact:
  assumes "a < 2 ^ 31" "b < 2 ^ 31" "c < 2 ^ 31"
  shows "list_refuses client region (of_nat a) (of_nat b) (of_nat c) \<longleftrightarrow>
    unknown_build client region
    \<or> \<not> (released (Version a b c) \<and> Version 1 0 0 \<le> Version a b c \<and> Version a b c < Version 5 6 0)"
  using assms by (auto simp: list_refuses_def LIVE_MAJOR_def LIVE_MINOR_def version_words)

lemma curr_refuses_exact:
  assumes "a < 2 ^ 31" "b < 2 ^ 31" "c < 2 ^ 31"
  shows "curr_refuses client region (of_nat a) (of_nat b) (of_nat c) \<longleftrightarrow>
    unknown_build client region \<or> Version a b c \<notin> {Version 1 3 0 .. Version 1 3 1}"
  using assms by (auto simp: curr_refuses_def CUR_MAJOR_def CUR_MINOR_def version_words)

lemma wants_sign_exact:
  assumes "a < 2 ^ 31" "b < 2 ^ 31" "c < 2 ^ 31"
  shows "wants_sign (of_nat a) (of_nat b) (of_nat c) \<longleftrightarrow> Version 2 7 50 \<le> Version a b c"
  using assms by (auto simp: wants_sign_def version_words)

text \<open>
  C24. Which clients are let in, from the text they send for their version to the return code of the answer.
  The list of regions is given to known builds of a released version from 1.0.0 to before 5.6.0; the
  region of this server to known builds of 1.3.0 and 1.3.1 only; answers are signed for versions from 2.7.50 on.
\<close>

theorem version_gate:
  assumes "request W post j" "says (wb_json W) j ''version'' (version_text region client a b c)"
    "length region = 2" "0 \<notin> set region" "client_name client" "a < 2 ^ 31" "b < 2 ^ 31" "c < 2 ^ 31"
    "jl_member (wb_json W) j ''key_id'' = None" "has_gate cf"
  defines "v \<equiv> Version a b c"
  shows "(pt_retcode (getQueryRegionList W pkg [] seed post) = 0 \<longleftrightarrow>
      known_build region client \<and> released v \<and> Version 1 0 0 \<le> v \<and> v < Version 5 6 0)
    \<and> (pq_retcode (fst (getQueryCurrRegion W (Some cf) dispatch_seed seed post)) = 0 \<longleftrightarrow>
      known_build region client \<and> v \<in> {Version 1 3 0 .. Version 1 3 1})
    \<and> (wants_sign (of_nat a) (of_nat b) (of_nat c) \<longleftrightarrow> Version 2 7 50 \<le> v)"
proof -
  let ?t = "version_text region client a b c"
  obtain x where v: "jl_member (wb_json W) j ''version'' = Some (Some x)" "c_str (jl_string (wb_json W) x) = ?t"
    using assms(2) by (auto simp: says_def)
  have "scan_version (jl_string (wb_json W) x) = scan_version (c_str (jl_string (wb_json W) x))"
    by (simp add: scan_version_def)
  then have s: "scan_version (jl_string (wb_json W) x) = Some (region, client, of_nat a, of_nat b, of_nat c)"
    unfolding v(2) using scan_version_text(1) [OF assms(3-8)] by simp
  have p: "parse_request W msgs post = Inr j" for msgs by (rule request_parsed [OF assms(1)])
  note b = known_build_exact [OF assms(3-5)]
  have "list_request W post = Some (client_of client, region_of region, of_nat a, of_nat b, of_nat c)"
    by (simp add: list_request_def p opt_string_def v get_string_def s)
  then have l: "pt_retcode (getQueryRegionList W pkg [] seed post) = 0 \<longleftrightarrow>
      \<not> list_refuses (client_of client) (region_of region) (of_nat a) (of_nat b) (of_nat c)"
    by (simp add: getQueryRegionList_def list_error_def)
  have "\<exists>m ok sign. curr_request W post =
      (if curr_refuses (client_of client) (region_of region) (of_nat a) (of_nat b) (of_nat c) then -1 else 0, m, ok, sign, 0)"
    by (auto simp add: curr_request_def p curr_version_def v get_string_def s Let_def opt_int_def assms(9))
  then have "pq_retcode (fst (getQueryCurrRegion W (Some cf) dispatch_seed seed post)) = 0 \<longleftrightarrow>
      \<not> curr_refuses (client_of client) (region_of region) (of_nat a) (of_nat b) (of_nat c)"
    using assms(10) by (auto simp: getQueryCurrRegion_def)
  with l show ?thesis
    unfolding v_def list_refuses_exact [OF assms(6-8)] curr_refuses_exact [OF assms(6-8)] wants_sign_exact [OF assms(6-8)] b
    by blast
qed

definition sample_region :: region_config where
  "sample_region =
     \<lparr>rg_ip = Some (lit ''127.0.0.1''), rg_port = 22102, rg_is_domain = False, rg_urls = replicate 9 None,
      rg_res = None, rg_next = None, rg_biz = None, rg_area = None, rg_update_url = None, rg_custom = None,
      rg_client_custom = None, rg_send = 0, rg_stop = None\<rparr>"

definition version_texts :: "(bytes \<times> doc) list" where
  "version_texts = [(lit ''v'', D_obj [(''version'', D_str (version_text (lit ''OS'') (lit ''Win'') 1 3 0))])]"

theorem version_gate_witness:
  "pq_retcode (fst (getQueryCurrRegion (sample_web version_texts) (Some sample_region) None None (Some (lit ''v'')))) = 0"
proof -
  let ?W = "sample_web version_texts"
  let ?t = "version_text (lit ''OS'') (lit ''Win'') 1 3 0"
  let ?j = "D_obj [(''version'', D_str ?t)]"
  have c: "c_str (lit ''v'') = lit ''v''" "length (lit ''OS'') = 2" "0 \<notin> set (lit ''OS'')" "client_name (lit ''Win'')"
    by code_simp+
  have t: "c_str ?t = ?t" by (rule scan_version_text(2) [OF c(2-4)]) simp_all
  have "request ?W (Some (lit ''v'')) ?j"
    by (simp add: request_def sample_web_def sample_json_def version_texts_def c)
  moreover have "says (wb_json ?W) ?j ''version'' ?t"
    unfolding says_def using t by (simp add: sample_web_def sample_json_def)
  moreover have "jl_member (wb_json ?W) ?j ''key_id'' = None" by (simp add: sample_web_def sample_json_def)
  moreover have "has_gate sample_region" by (simp add: has_gate_def sample_region_def)
  moreover have "known_build (lit ''OS'') (lit ''Win'')" by (simp add: known_build_def)
  ultimately show ?thesis
    using version_gate [of ?W "Some (lit ''v'')" ?j "lit ''OS''" "lit ''Win''" 1 3 0 sample_region] c by simp
qed

section \<open>Words of a command\<close>

lemma quoted_line_plain: "\<forall>w \<in> set ws. 0 \<notin> set w \<Longrightarrow> 0 \<notin> set (quoted_line ws)"
  by (induction ws rule: quoted_line.induct) (simp_all add: quoted_def)

text \<open>
  Splitting a line gives back the words it was made of, when each is put in double quotes and none
  holds a double quote or a 0, for up to 32 words of up to 1023 characters together with their ends;
  spaces and single quotes inside the words are kept, and empty words too.
\<close>

theorem command_words:
  assumes "ws \<noteq> []" "length ws \<le> 32" "(\<Sum>w\<leftarrow>ws. length w + 1) \<le> 1023" "\<forall>w \<in> set ws. 34 \<notin> set w \<and> 0 \<notin> set w"
  shows "split_line (quoted_line ws) = ws"
proof -
  let ?s = "\<lparr>sp_args = [], sp_cur = [], sp_len = 0, sp_quotes = 0\<rparr>"
  have "c_str (quoted_line ws) = quoted_line ws" by (rule c_str_plain) (use quoted_line_plain assms(4) in blast)
  moreover have "sp_args (split_loop (quoted_line ws) ?s) = butlast ws \<and> sp_cur (split_loop (quoted_line ws) ?s) = last ws"
    using split_words [of ws ?s] assms by simp
  moreover have "length (butlast ws) < 32" using assms(1,2) by (cases ws) simp_all
  ultimately show ?thesis using assms(1) by (simp add: split_line_def Let_def)
qed

theorem command_words_witness:
  "split_line (quoted_line [lit ''account'', lit ''create'', lit ''it is me'', []]) =
     [lit ''account'', lit ''create'', lit ''it is me'', []]"
proof -
  have "list_all (\<lambda>w. 34 \<notin> set w \<and> 0 \<notin> set w) [lit ''account'', lit ''create'', lit ''it is me'', []]"
    "(\<Sum>w\<leftarrow>[lit ''account'', lit ''create'', lit ''it is me'', []]. length w + 1) \<le> 1023" by code_simp+
  then show ?thesis
    using command_words [of "[lit ''account'', lit ''create'', lit ''it is me'', []]"] by (simp add: list_all_iff)
qed

end
