(* ===== verification/Answer_Properties.thy ===== *)
theory Answer_Properties
  imports Web_Properties
begin

text \<open>
  The properties of RSA as the dispatch server uses it: what the encryption of a message of any length makes of a given
  room, what the program's own decryption makes of that, and what reaches the client that asks where this server is.
\<close>

section \<open>A sample library\<close>

text \<open>
  An RSA library without the arithmetic: the key is its modulus, a block is padded in front with 0s and a 1 up to the
  length of the modulus.
\<close>

definition pad_block :: "nat \<Rightarrow> bytes \<Rightarrow> bytes" where
  "pad_block n b = replicate (n - 1 - length b) 0 @ [1] @ b"

definition unpad_block :: "bytes \<Rightarrow> bytes" where
  "unpad_block c = tl (dropWhile (\<lambda>x. x = 0) c)"

definition sample_rsa :: "bytes rsa" where
  "sample_rsa =
     \<lparr>rs_ctx = True, rs_decode = (\<lambda>d. map_option Some (key_modulus d)), rs_file = (\<lambda>path. Some DispatchPrivKey2),
      rs_enc_ready = (\<lambda>k. True), rs_enc_size = (\<lambda>k b. Some (of_nat (length k))),
      rs_enc = (\<lambda>k i cap b. if length b \<le> length k - 11 then Some (pad_block (length k) b) else None),
      rs_dec_ready = (\<lambda>k. True), rs_dec_size = (\<lambda>k b. Some (of_nat (length k))),
      rs_dec = (\<lambda>k i cap c. if length c \<le> length k then Some (unpad_block c) else None),
      rs_sign_ready = (\<lambda>k. True), rs_sign = (\<lambda>k cap b. if 256 \<le> cap then Some (replicate 256 0xaa) else None)\<rparr>"

lemma pad_block_length: "length b < n \<Longrightarrow> length (pad_block n b) = n"
  by (simp add: pad_block_def)

lemma unpad_pad_block: "unpad_block (pad_block n b) = b"
proof -
  have "dropWhile (\<lambda>x. x = 0) (replicate k 0 @ 1 # b) = 1 # b" for k by (induction k) simp_all
  then show ?thesis by (simp add: pad_block_def unpad_block_def)
qed

lemma sample_rsa_law:
  assumes "11 < length k" "length k < 2 ^ 31"
  shows "rsa_law sample_rsa k (length k)"
proof -
  have pad: "rs_enc sample_rsa k i cap b = Some (pad_block (length k) b) \<and> length (pad_block (length k) b) = length k
      \<and> (\<forall>j cap. rs_dec sample_rsa k j cap (pad_block (length k) b) = Some b)" if "length b \<le> length k - 11" for i cap b
  proof -
    have "length b < length k" using that assms(1) by linarith
    then have "length (pad_block (length k) b) = length k" by (rule pad_block_length)
    then show ?thesis using that by (simp add: sample_rsa_def unpad_pad_block)
  qed
  have refuse: "rs_dec sample_rsa k j cap c = None" if "length k < length c" for j cap c
    using that by (simp add: sample_rsa_def)
  show ?thesis
    unfolding rsa_law_def
  proof (intro conjI allI impI)
    show "\<exists>c. rs_enc sample_rsa k i cap b = Some c \<and> length c = length k \<and> (\<forall>j cap. rs_dec sample_rsa k j cap c = Some b)"
      if "length b \<le> length k - 11" for i cap b
      using pad [OF that] by blast
    show "rs_dec sample_rsa k j cap c = None" if "length k < length c" for j cap c
      by (rule refuse [OF that])
  qed (use assms in \<open>simp_all add: sample_rsa_def\<close>)
qed

section \<open>Messages of any length\<close>

lemma all_blocks:
  assumes "rsa_law R k n"
  shows "concat (take (block_count n (length src)) (chunks (n - 11) src)) = src"
proof -
  have m: "0 < n - 11" using assms by (simp add: rsa_law_def)
  have "block_count n (length src) = length (chunks (n - 11) src)" unfolding block_count_def by (rule length_chunks [OF m, symmetric])
  then show ?thesis using concat_chunks [OF m] by simp
qed

text \<open>
  C15. What \<open>HyvCryptRsaEnc\<close> makes of a message with a key of \<open>n\<close> bytes that needs \<open>count\<close> blocks. When the output buffer has
  room for them it is filled up to the last block, the function returns their size, and the blocks decrypt to the message. Of
  a message that is too long for a buffer of whole blocks the beginning is encrypted, and the function returns as if
  all was well; in any other buffer that is too small the last block is written past the end. \<open>HyvCryptRsaDec\<close>, given
  what was encrypted, returns a message of one block when there is room for it, and otherwise writes it past the
  end; more than one block it never decrypts.
\<close>

theorem encryption_in_blocks:
  assumes "rsa_law R k n" "load_key R dataPath key_id = Some k" "src \<noteq> []" "length src < 2 ^ 63" "0 < room" "room < 2 ^ 31"
    "0 < room'" "room' < 2 ^ 31"
  defines "count \<equiv> block_count n (length src)"
    and "enc \<equiv> HyvCryptRsaEnc R dataPath (Some src) (Some (of_nat room)) key_id"
    and "dec \<equiv> \<lambda>c. HyvCryptRsaDec R dataPath (Some c) (Some (of_nat room')) key_id"
  shows "if count * n \<le> room
    then \<exists>c. enc = Some (Inr (of_nat (count * n), c)) \<and> length c = count * n \<and> decrypt_blocks R k n c = src
      \<and> dec c = Some (if n < length src + 11 then Inr (-1, [])
                      else if length src \<le> room' then Inr (of_nat (length src), src) else Inl Out_of_bounds)
    else if room mod n = 0
    then \<exists>c. enc = Some (Inr (of_nat room, c)) \<and> length c = room \<and> decrypt_blocks R k n c = take (room div n * (n - 11)) src
    else enc = Some (Inl Out_of_bounds)"
proof -
  have n: "11 < n" "n < 2 ^ 31" using assms(1) by (simp_all add: rsa_law_def)
  have len: "0 < length src" using assms(3) by simp
  note filled = HyvCryptRsaEnc_filled [OF assms(1-6)]
  consider (one) "count * n \<le> room" "length src + 11 \<le> n" | (more) "count * n \<le> room" "n < length src + 11"
    | (cut) "room < count * n" "room mod n = 0" | (over) "room < count * n" "room mod n \<noteq> 0"
    by linarith
  then show ?thesis
  proof cases
    case one
    have "(length src + (n - 11) - 1) div (n - 11) = Suc ((length src - (n - 11) + (n - 11) - 1) div (n - 11))"
      by (rule ceil_step) (use n len in simp_all)
    then have count: "count = 1" unfolding count_def block_count_def using one(2) n by simp
    have "length src \<le> n - 11" "n \<le> room" using one count by simp_all
    from HyvCryptRsaEnc_one [OF assms(1-3) this assms(6)]
    obtain c where c: "enc = Some (Inr (of_nat n, c))" "length c = n" "\<And>j cap. rs_dec R k j cap c = Some src"
      unfolding enc_def by blast
    have "chunks n c = [c]" using c(2) n chunks_concat [of n "[c]"] by simp
    then have "decrypt_blocks R k n c = src" by (simp add: decrypt_blocks_def c(3))
    moreover have "dec c = Some (if length src \<le> room' then Inr (of_nat (length src), src) else Inl Out_of_bounds)"
      unfolding dec_def by (rule HyvCryptRsaDec_one [OF assms(1,2,7,8) c(2) c(3)])
    ultimately show ?thesis using c(1,2) one count by auto
  next
    case more
    obtain c where c: "enc = Some (Inr (of_nat (count * n), c))" "length c = count * n"
      "decrypt_blocks R k n c = concat (take count (chunks (n - 11) src))"
      using filled [of count] more(1) unfolding enc_def count_def by blast
    have "n - 11 < length src" using more(2) n by linarith
    then have ceil: "count = Suc ((length src - (n - 11) + (n - 11) - 1) div (n - 11))"
      unfolding count_def block_count_def using n len by (intro ceil_step) simp_all
    have "n - 11 \<le> length src - (n - 11) + (n - 11) - 1" using \<open>n - 11 < length src\<close> by simp
    then have "2 \<le> count" unfolding ceil using n by (simp add: div_greater_zero_iff Suc_le_eq)
    then have "2 * n \<le> length c" unfolding c(2) by (rule mult_le_mono1)
    then have "n + 11 \<le> length c" using n by linarith
    moreover have "length c < 2 ^ 63" using more(1) assms(6) unfolding c(2) by simp
    ultimately have "dec c = Some (Inr (-1, []))"
      unfolding dec_def by (rule HyvCryptRsaDec_more [OF assms(1,2,7,8)])
    moreover have "concat (take count (chunks (n - 11) src)) = src"
      unfolding count_def by (rule all_blocks [OF assms(1)])
    ultimately show ?thesis using c more by simp
  next
    case cut
    then have "room div n * n = room" by auto
    then obtain c where "enc = Some (Inr (of_nat room, c))" "length c = room"
      "decrypt_blocks R k n c = concat (take (room div n) (chunks (n - 11) src))"
      using filled [of "room div n"] cut unfolding enc_def count_def by metis
    then show ?thesis using cut n by (simp add: take_chunks)
  next
    case over
    then show ?thesis using HyvCryptRsaEnc_overrun [OF assms(1-6)] unfolding enc_def count_def by simp
  qed
qed

text \<open>A key of 16 bytes takes 5 bytes in a block: 7 bytes fill 32 bytes, and 31 bytes are overrun.\<close>

theorem encryption_in_blocks_witness:
  "\<exists>R :: bytes rsa. HyvCryptRsaEnc R [] (Some (replicate 7 1)) (Some 31) 0 = Some (Inl Out_of_bounds)"
proof -
  define R :: "bytes rsa" where "R = sample_rsa\<lparr>rs_decode := \<lambda>d. Some (Some (replicate 16 1))\<rparr>"
  have "rsa_law sample_rsa (replicate 16 1) 16" using sample_rsa_law [of "replicate 16 1"] by simp
  then have law: "rsa_law R (replicate 16 1) 16" by (simp add: rsa_law_def R_def)
  have key: "load_key R [] 0 = Some (replicate 16 1)"
    by (simp add: load_key_def key_from_file_def R_def sample_rsa_def)
  have count: "block_count 16 7 = 2" by (simp add: block_count_def)
  show ?thesis
    using encryption_in_blocks [OF law key, of "replicate 7 1" 31 1] by (intro exI [of _ R]) (simp add: count)
qed

section \<open>The answer a client gets\<close>

text \<open>
  The keys built into the program are read by the library as what they are. \<open>dispatch_key\<close> is the one chosen by a
  number from 2 to 5.
\<close>

definition builtin_keys :: "'k rsa \<Rightarrow> bool" where
  "builtin_keys R \<longleftrightarrow> rs_ctx R
     \<and> (\<forall>i \<in> {2 ..< 6}. \<forall>d. DispatchKeys ! i = Some d \<longrightarrow>
          (\<exists>k. rs_decode R d = Some (Some k) \<and> rsa_law R k (length (the (key_modulus d)))))"

definition dispatch_key :: "'k rsa \<Rightarrow> u32 \<Rightarrow> 'k" where
  "dispatch_key R key_id = the (the (rs_decode R (the (DispatchKeys ! unat key_id))))"

lemma dispatch_key_loaded:
  assumes "builtin_keys R" "2 \<le> key_id" "key_id \<le> 5"
  shows "load_key R dataPath key_id = Some (dispatch_key R key_id)" "rsa_law R (dispatch_key R key_id) 256"
proof -
  have i: "unat key_id \<in> {2 ..< 6}" using assms(2,3) by (simp add: word_le_nat_alt)
  then obtain d where d: "DispatchKeys ! unat key_id = Some d" "length d = 1192" "map_option length (key_modulus d) = Some 256"
    by (rule dispatch_keys_sizes)
  then obtain k where k: "rs_decode R d = Some (Some k)" "rsa_law R k (length (the (key_modulus d)))"
    using assms(1) i unfolding builtin_keys_def by blast
  have "length (the (key_modulus d)) = 256" using d(3) by auto
  then show "rsa_law R (dispatch_key R key_id) 256" using k d(1) by (simp add: dispatch_key_def)
  have "take 1192 d = d" using d(2) by simp
  moreover have "rs_ctx R" using assms(1) by (simp add: builtin_keys_def)
  ultimately show "load_key R dataPath key_id = Some (dispatch_key R key_id)"
    using assms(2,3) k(1) d(1) by (simp add: load_key_def dispatch_key_def)
qed

lemma load_key_other:
  assumes "\<not> (2 \<le> key_id \<and> key_id \<le> 5)" "key_id \<noteq> 0" "key_id \<noteq> 1"
  shows "load_key R dataPath key_id = None"
  using assms by (auto simp: load_key_def)

lemma curr_request_key:
  assumes "curr_request W post = (code, msg, ok, sign, key)"
  shows "key \<noteq> 1"
  using assms by (auto simp: curr_request_def Let_def split: sum.splits prod.splits if_splits)

text \<open>The buffer for the answer has room for all blocks of a key with 256 bytes.\<close>

lemma answer_buffer_room: "block_count 256 sz * 256 \<le> answer_bufsz sz * 2"
proof -
  have "x + 244 < (2 * q + 3) * 245" if "x = 256 * q + r" "r < 256" for x q r :: nat
    using that by (simp add: distrib_right)
  then have "sz + 244 < (2 * (sz div 256) + 3) * 245"
    by (metis mod_less_divisor mult_div_mod_eq zero_less_numeral)
  then have "(sz + 244) div 245 \<le> 2 * (sz div 256 + 1)" using div_less_iff_less_mult [of 245 "sz + 244"] by fastforce
  then have "(sz + 244) div 245 * 256 \<le> 2 * (sz div 256 + 1) * 256" by (rule mult_le_mono1)
  then show ?thesis by (simp add: block_count_def answer_bufsz_def add.commute)
qed

lemma block_count_245: "block_count 256 l = (l + 244) div 245"
  by (simp add: block_count_def)

lemma encryption_of_room:
  assumes "rsa_law R k n" "load_key R dataPath key_id = Some k" "src \<noteq> []" "length src < 2 ^ 63" "0 < room" "room < 2 ^ 31"
    "block_count n (length src) * n \<le> room"
  obtains c where "HyvCryptRsaEnc R dataPath (Some src) (Some (of_nat room)) key_id = Some (Inr (of_nat (block_count n (length src) * n), c))"
    "length c = block_count n (length src) * n" "decrypt_blocks R k n c = src"
proof -
  have room: "block_count n (length src) * n \<le> room \<and> block_count n (length src) = block_count n (length src)
      \<or> room < block_count n (length src) * n \<and> room mod n = 0 \<and> block_count n (length src) = room div n"
    by (rule disjI1) (rule conjI [OF assms(7) refl])
  obtain c where c: "HyvCryptRsaEnc R dataPath (Some src) (Some (of_nat room)) key_id = Some (Inr (of_nat (block_count n (length src) * n), c))"
    "length c = block_count n (length src) * n"
    "decrypt_blocks R k n c = concat (take (block_count n (length src)) (chunks (n - 11) src))"
    by (rule HyvCryptRsaEnc_filled [OF assms(1-6) room])
  show ?thesis by (rule that [OF c(1,2)]) (simp only: c(3) all_blocks [OF assms(1)])
qed

lemma answer_signature_result:
  assumes "\<And>k b s. rs_sign R k 4096 b = Some s \<Longrightarrow> length s \<le> 4096" "plain \<noteq> []"
  shows "answer_signature R dataPath plain =
    Inr (case key_from_file R dataPath signing_key of
           None \<Rightarrow> []
         | Some k \<Rightarrow> if rs_sign_ready R k then (case rs_sign R k 4096 plain of None \<Rightarrow> [] | Some s \<Rightarrow> s) else [])"
proof -
  have size: "unat (of_nat (length s) :: i32) = length s" "(sint (of_nat (length s) :: i32) < 0) = False" if "length s \<le> 4096" for s :: bytes
    using that by (simp_all add: unat_of_nat_u32 sint_small)
  show ?thesis
  proof (cases "\<exists>k s. key_from_file R dataPath signing_key = Some k \<and> rs_sign_ready R k \<and> rs_sign R k 4096 plain = Some s")
    case True
    then obtain k s where k: "key_from_file R dataPath signing_key = Some k" "rs_sign_ready R k" "rs_sign R k 4096 plain = Some s"
      by blast
    have "length s \<le> 4096" by (rule assms(1) [OF k(3)])
    then show ?thesis
      using assms(2) k size [of s] by (simp add: answer_signature_def HyvCryptRsaSign_def)
  next
    case False
    then show ?thesis using assms(2) by (auto simp: answer_signature_def HyvCryptRsaSign_def split: option.splits)
  qed
qed

lemma answer_copied:
  assumes "HyvCryptRsaEnc R dataPath (Some plain) (Some (of_nat (answer_bufsz (length plain) * 2))) key = Some (Inr (of_nat l, r))"
    "length r = l" "l \<le> answer_bufsz (length plain) * 2" "l < 2 ^ 31" "key \<noteq> 0" "malloc (answer_bufsz (length plain) * 2) \<noteq> None"
  shows "answer_encrypted R dataPath malloc key plain = Some (Inr r)"
proof -
  have "unat (of_nat l :: i32) = l" "\<not> sint (of_nat l :: i32) < 0" using assms(4) by (simp_all add: unat_of_nat_u32 sint_small)
  then show ?thesis using assms(1-3,5,6) by (auto simp: answer_encrypted_def Let_def)
qed

lemma answer_encrypted_blocks:
  assumes "rsa_law R k 256" "load_key R dataPath key = Some k" "key \<noteq> 0" "malloc (answer_bufsz (length plain) * 2) \<noteq> None"
    "plain \<noteq> []" "length plain < 2 ^ 28"
  obtains r where "answer_encrypted R dataPath malloc key plain = Some (Inr r)"
    "length r = block_count 256 (length plain) * 256" "decrypt_blocks R k 256 r = plain"
proof -
  let ?room = "answer_bufsz (length plain) * 2" and ?len = "block_count 256 (length plain) * 256"
  have room: "0 < ?room" "?room < 2 ^ 31" using assms(6) by (simp_all add: answer_bufsz_def)
  have len: "?len \<le> ?room" by (rule answer_buffer_room)
  obtain r where r: "HyvCryptRsaEnc R dataPath (Some plain) (Some (of_nat ?room)) key = Some (Inr (of_nat ?len, r))"
    "length r = ?len" "decrypt_blocks R k 256 r = plain"
    using encryption_of_room [OF assms(1,2,5) _ room len] assms(6) by auto
  have "answer_encrypted R dataPath malloc key plain = Some (Inr r)"
    by (rule answer_copied [OF r(1,2) len _ assms(3)]) (use len room assms(4) in simp_all)
  then show ?thesis using that r by blast
qed

lemma answer_not_encrypted:
  assumes "load_key R dataPath key = None"
  shows "answer_encrypted R dataPath malloc key plain = Some (Inr plain)"
  using assms by (auto simp: answer_encrypted_def Let_def HyvCryptRsaEnc_def split: option.splits)

text \<open>
  C14. What reaches a client that asks for the region of this server. With a key number from 2 to 5 the answer is made of as
  many blocks of 256 bytes as the message has pieces of 245, and the holder of the built-in key of that number decrypts it,
  block by block, to the message; with every other number the answer is the message itself. The signature is empty
  for a client that gets none, and else what the library signs with the key of the signing file.
\<close>

theorem region_answer_reaches_client:
  assumes "builtin_keys R" "\<And>k b s. rs_sign R k 4096 b = Some s \<Longrightarrow> length s \<le> 4096" "\<And>n. malloc n \<noteq> None"
    "getQueryCurrRegion W cf dispatch_seed seed post = (rsp, sign, key)"
    "answer_text ser rsp \<noteq> []" "length (answer_text ser rsp) < 2 ^ 28"
  defines "plain \<equiv> answer_text ser rsp"
  shows "\<exists>s r. getQueryCurrRegionHttpRsp W ser R dataPath malloc cf dispatch_seed seed post = Some (Inr (s, r))
    \<and> (if 2 \<le> key \<and> key \<le> 5
       then length r = (length plain + 244) div 245 * 256 \<and> decrypt_blocks R (dispatch_key R key) 256 r = plain
       else r = plain)
    \<and> s = (if \<not> sign then []
           else case key_from_file R dataPath signing_key of
                  None \<Rightarrow> []
                | Some k \<Rightarrow> if rs_sign_ready R k then (case rs_sign R k 4096 plain of None \<Rightarrow> [] | Some s \<Rightarrow> s) else [])"
    (is "\<exists>s r. _ \<and> _ \<and> s = ?s")
proof -
  have s: "(if sign then answer_signature R dataPath plain else Inr []) = Inr ?s"
    using answer_signature_result [of R plain dataPath] assms(2,5) by (simp add: plain_def)
  obtain code msg ok where "curr_request W post = (code, msg, ok, sign, key)"
    using assms(4) by (auto simp: getQueryCurrRegion_def split: prod.splits option.splits)
  then have key: "key \<noteq> 1" by (rule curr_request_key)
  have "\<exists>r. answer_encrypted R dataPath malloc key plain = Some (Inr r)
      \<and> (if 2 \<le> key \<and> key \<le> 5
         then length r = (length plain + 244) div 245 * 256 \<and> decrypt_blocks R (dispatch_key R key) 256 r = plain
         else r = plain)"
  proof (cases "2 \<le> key \<and> key \<le> 5")
    case True
    then have "key \<noteq> 0" by auto
    have small: "length plain < 2 ^ 28" "plain \<noteq> []" using assms(5,6) by (simp_all add: plain_def)
    obtain r where r: "answer_encrypted R dataPath malloc key plain = Some (Inr r)"
      "length r = block_count 256 (length plain) * 256" "decrypt_blocks R (dispatch_key R key) 256 r = plain"
      by (rule answer_encrypted_blocks [OF dispatch_key_loaded(2,1) \<open>key \<noteq> 0\<close> assms(3) small(2,1)])
        (use assms(1) True in simp_all)
    then show ?thesis using True by (simp add: block_count_245)
  next
    case False
    have "answer_encrypted R dataPath malloc key plain = Some (Inr plain)"
    proof (cases "key = 0")
      case True
      then show ?thesis by (simp add: answer_encrypted_def)
    next
      case nonzero: False
      show ?thesis by (rule answer_not_encrypted) (rule load_key_other [OF False nonzero key])
    qed
    then show ?thesis unfolding if_not_P [OF False] by blast
  qed
  then show ?thesis
    unfolding getQueryCurrRegionHttpRsp_def assms(4) prod.case Let_def plain_def [symmetric] s sum.case by auto
qed

lemma sample_builtin_keys: "builtin_keys sample_rsa"
  unfolding builtin_keys_def
proof (intro conjI ballI allI impI)
  fix i :: nat and d
  assume i: "i \<in> {2 ..< 6}" "DispatchKeys ! i = Some d"
  obtain d' where "DispatchKeys ! i = Some d'" "length d' = 1192" "map_option length (key_modulus d') = Some 256"
    by (rule dispatch_keys_sizes [OF i(1)])
  then obtain k where k: "key_modulus d = Some k" "length k = 256" using i(2) by auto
  then have "rsa_law sample_rsa k (length k)" by (intro sample_rsa_law) simp_all
  then show "\<exists>k. rs_decode sample_rsa d = Some (Some k) \<and> rsa_law sample_rsa k (length (the (key_modulus d)))"
    using k by (simp add: sample_rsa_def)
qed (simp add: sample_rsa_def)

definition key_texts :: "(bytes \<times> doc) list" where
  "key_texts = [(lit ''v'', D_obj [(''key_id'', D_num 2)])]"

theorem region_answer_reaches_client_witness:
  "\<exists>r. getQueryCurrRegionHttpRsp (sample_web key_texts) (\<lambda>_. Some (replicate 300 7)) sample_rsa [] (\<lambda>n. Some [])
         (Some sample_region) None None (Some (lit ''v'')) = Some (Inr ([], r))
     \<and> length r = 512 \<and> decrypt_blocks sample_rsa (dispatch_key sample_rsa 2) 256 r = replicate 300 7"
proof -
  let ?W = "sample_web key_texts" and ?ser = "\<lambda>_. Some (replicate 300 7)"
  have v: "c_str (lit ''v'') = lit ''v''" by code_simp
  have "\<exists>code msg. curr_request ?W (Some (lit ''v'')) = (code, msg, False, False, 2)"
    by (simp add: curr_request_def parse_request_def curr_version_def opt_int_def get_int_def sample_web_def sample_json_def key_texts_def v)
  then have "\<exists>rsp. getQueryCurrRegion ?W (Some sample_region) None None (Some (lit ''v'')) = (rsp, False, 2)"
    by (auto simp: getQueryCurrRegion_def)
  then obtain rsp where rsp: "getQueryCurrRegion ?W (Some sample_region) None None (Some (lit ''v'')) = (rsp, False, 2)" by blast
  have sign: "length s \<le> 4096" if "rs_sign sample_rsa k 4096 b = Some s" for k b s
    using that by (auto simp: sample_rsa_def split: if_splits)
  have "answer_text ?ser rsp = replicate 300 7" by (simp add: answer_text_def)
  then show ?thesis
    using region_answer_reaches_client [OF sample_builtin_keys sign _ rsp, where malloc = "\<lambda>n. Some []" and ser = ?ser and dataPath = "[]"]
    by auto
qed

end
