(* ===== verification/Http_Parser_Props.thy ===== *)
theory Http_Parser_Props
  imports Http_Parser
begin

text \<open>
  What the parser promises. Each part of it, on a buffer in which it is not stopped by the end, does the same
  when more bytes follow (\<open>steady\<close>), never passes the end, and refuses with -1 or -2 only. Forward
  equations say what it does on the texts it is made for.
\<close>

section \<open>Scanning is steady under more input\<close>

text \<open>
  \<open>m\<close> is the result on a buffer, \<open>mx x\<close> the one with \<open>x\<close> behind it, and \<open>sh x\<close> moves the pointers of a result
  from the one buffer to the other.
\<close>

definition steady :: "('a \<Rightarrow> bool) \<Rightarrow> (bytes \<Rightarrow> 'a \<Rightarrow> 'a) \<Rightarrow> 'a scan \<Rightarrow> (bytes \<Rightarrow> 'a scan) \<Rightarrow> bool" where
  "steady P sh m mx \<longleftrightarrow>
     (case m of
        Overrun \<Rightarrow> False
      | Refused r \<Rightarrow> r = -2 \<or> r = -1 \<and> (\<forall>x. mx x = Refused (-1))
      | Reached a \<Rightarrow> P a \<and> (\<forall>x. mx x = Reached (sh x a)))"

lemma steady_simps [simp]:
  "steady P sh (Reached a) mx \<longleftrightarrow> P a \<and> (\<forall>x. mx x = Reached (sh x a))"
  "steady P sh (Refused r) mx \<longleftrightarrow> r = -2 \<or> r = -1 \<and> (\<forall>x. mx x = Refused (-1))"
  "\<not> steady P sh Overrun mx"
  by (simp_all add: steady_def)

lemma steady_bind:
  assumes "steady P sh m mx" "\<And>a. m = Reached a \<Longrightarrow> P a \<Longrightarrow> steady Q sh' (g a) (\<lambda>x. gx x (sh x a))"
  shows "steady Q sh' (scan_bind m g) (\<lambda>x. scan_bind (mx x) (gx x))"
  using assms by (cases m) auto

lemma steady_weaken: "steady P sh m mx \<Longrightarrow> (\<And>a. m = Reached a \<Longrightarrow> P a \<Longrightarrow> Q a) \<Longrightarrow> steady Q sh m mx"
  by (cases m) simp_all

abbreviation (input) "sh_rest \<equiv> \<lambda>x r. r @ x"
abbreviation (input) "sh_token \<equiv> \<lambda>x t. (fst t @ x, snd t)"
abbreviation (input) "sh_with f \<equiv> \<lambda>x p. (f x (fst p), snd p @ x)"
abbreviation (input) "sh_none \<equiv> \<lambda>x a. a"

text \<open>What is left, and tokens, lie in the buffer.\<close>

definition rest_of :: "bytes \<Rightarrow> bytes \<Rightarrow> bool" where
  "rest_of buf r \<longleftrightarrow> (\<exists>u. buf = u @ r)"

definition inside :: "bytes \<Rightarrow> token \<Rightarrow> bool" where
  "inside buf t \<longleftrightarrow> rest_of buf (fst t) \<and> snd t \<le> length (fst t)"

lemma rest_of_refl [simp]: "rest_of buf buf"
  by (simp add: rest_of_def)

lemma rest_of_Cons [simp]: "rest_of (c # buf) buf"
  by (auto simp: rest_of_def intro: exI [of _ "[c]"])

lemma rest_of_trans [trans]: "rest_of a b \<Longrightarrow> rest_of b c \<Longrightarrow> rest_of a c"
  by (auto simp: rest_of_def)

lemma rest_of_drop: "rest_of buf (drop n buf)"
  by (auto simp: rest_of_def intro: exI [of _ "take n buf"])

lemma rest_of_length: "rest_of a b \<Longrightarrow> length b \<le> length a"
  by (auto simp: rest_of_def)

lemma rest_of_Cons_trans: "rest_of buf r \<Longrightarrow> rest_of (c # buf) r"
  using rest_of_trans rest_of_Cons by blast

lemma inside_trans: "rest_of a b \<Longrightarrow> inside b t \<Longrightarrow> inside a t"
  using rest_of_trans by (auto simp: inside_def)

section \<open>The parts\<close>

lemma EXPECT_CHAR_steady:
  "steady (\<lambda>r. buf = ch # r) sh_rest (EXPECT_CHAR ch buf) (\<lambda>x. EXPECT_CHAR ch (buf @ x))"
  by (cases buf) simp_all

lemma expect_text_steady:
  "length t \<le> length buf \<Longrightarrow>
    steady (\<lambda>r. buf = t @ r) sh_rest (expect_text t buf) (\<lambda>x. expect_text t (buf @ x))"
proof (induction t buf rule: expect_text.induct)
  case (3 ch t c buf)
  then show ?case by (cases "c = ch") (auto elim!: steady_weaken)
qed simp_all

lemma line_end_steady:
  "buf \<noteq> [] \<Longrightarrow> steady (\<lambda>r. rest_of buf r \<and> length r < length buf) sh_rest (line_end buf) (\<lambda>x. line_end (buf @ x))"
proof (induction buf rule: line_end.induct)
  case (2 c buf)
  have "steady (\<lambda>r. rest_of (c # buf) r \<and> length r < length (c # buf)) sh_rest (EXPECT_CHAR 10 buf) (\<lambda>x. EXPECT_CHAR 10 (buf @ x))"
    by (rule steady_weaken [OF EXPECT_CHAR_steady]) (simp add: rest_of_Cons_trans)
  then show ?case by (cases "c = 13") simp_all
qed simp

lemma PARSE_INT_steady:
  "buf \<noteq> [] \<Longrightarrow>
    steady (\<lambda>(v, r). \<exists>c. buf = c # r \<and> 48 \<le> sint c \<and> sint c \<le> 57 \<and> v = mul * (sint c - 48)) (sh_with sh_none)
      (PARSE_INT mul buf) (\<lambda>x. PARSE_INT mul (buf @ x))"
  by (cases buf) auto

lemma skip_spaces_steady:
  "buf \<noteq> [] \<Longrightarrow>
    steady (\<lambda>r. rest_of buf r \<and> length r < length buf \<and> r \<noteq> [] \<and> hd r \<noteq> 32) sh_rest (skip_spaces buf) (\<lambda>x. skip_spaces (buf @ x))"
proof (induction buf rule: skip_spaces.induct)
  case (3 c d buf)
  show ?case
  proof (cases "d = 32")
    case True
    have "steady (\<lambda>r. rest_of (c # d # buf) r \<and> length r < length (c # d # buf) \<and> r \<noteq> [] \<and> hd r \<noteq> 32) sh_rest
        (skip_spaces (d # buf)) (\<lambda>x. skip_spaces ((d # buf) @ x))"
      by (rule steady_weaken [OF 3(1)]) (auto simp: True rest_of_Cons_trans)
    then show ?thesis using True by simp
  qed simp
qed simp_all

lemma advance_token_steady:
  "steady (\<lambda>(m, r). \<exists>u. buf = u @ r \<and> m = n + length u \<and> r \<noteq> [] \<and> hd r = 32) (sh_with sh_none)
    (advance_token n buf) (\<lambda>x. advance_token n (buf @ x))"
proof (induction n buf rule: advance_token.induct)
  case (2 n c buf)
  show ?case
  proof (cases "c = 32 \<or> (\<not> IS_PRINTABLE_ASCII c \<and> (c < 0x20 \<or> c = 0x7f))")
    case False
    then have "steady (\<lambda>(m, r). \<exists>u. c # buf = u @ r \<and> m = n + length u \<and> r \<noteq> [] \<and> hd r = 32) (sh_with sh_none)
      (advance_token (n + 1) buf) (\<lambda>x. advance_token (n + 1) (buf @ x))"
      by (intro steady_weaken [OF 2]) (auto intro: exI [of _ "c # _"])
    then show ?thesis using False by auto
  qed auto
qed simp

lemma token_loop_steady:
  "steady (\<lambda>(m, r). \<exists>u. buf = u @ r \<and> m = n + length u \<and> r \<noteq> [] \<and> hd r = ch \<and> list_all token_char u) (sh_with sh_none)
    (token_loop ch n buf) (\<lambda>x. token_loop ch n (buf @ x))"
proof (induction ch n buf rule: token_loop.induct)
  case (2 ch n c buf)
  show ?case
  proof (cases "c = ch \<or> \<not> token_char c")
    case False
    then have "steady (\<lambda>(m, r). \<exists>u. c # buf = u @ r \<and> m = n + length u \<and> r \<noteq> [] \<and> hd r = ch \<and> list_all token_char u)
      (sh_with sh_none) (token_loop ch (n + 1) buf) (\<lambda>x. token_loop ch (n + 1) (buf @ x))"
      by (intro steady_weaken [OF 2]) (auto intro: exI [of _ "c # _"])
    then show ?thesis using False by auto
  qed auto
qed simp

lemma skip_blanks_steady:
  "steady (\<lambda>r. rest_of buf r \<and> r \<noteq> [] \<and> \<not> is_blank (hd r)) sh_rest (skip_blanks buf) (\<lambda>x. skip_blanks (buf @ x))"
proof (induction buf)
  case (Cons c buf)
  then have "steady (\<lambda>r. rest_of (c # buf) r \<and> r \<noteq> [] \<and> \<not> is_blank (hd r)) sh_rest (skip_blanks buf) (\<lambda>x. skip_blanks (buf @ x))"
    by (rule steady_weaken) (auto simp: rest_of_Cons_trans)
  then show ?case by simp
qed simp

text \<open>A token that ends before \<open>r\<close>.\<close>

definition token_before :: "bytes \<Rightarrow> token \<times> bytes \<Rightarrow> bool" where
  "token_before buf tr \<longleftrightarrow> fst (fst tr) = buf \<and> snd tr \<noteq> [] \<and> buf = take (snd (fst tr)) buf @ snd tr"

lemma token_before_inside: "token_before buf (t, r) \<Longrightarrow> inside buf t \<and> rest_of buf r \<and> r \<noteq> []"
proof -
  assume a: "token_before buf (t, r)"
  then have b: "fst t = buf" "r \<noteq> []" "buf = take (snd t) buf @ r" by (simp_all add: token_before_def)
  then have "length buf = length (take (snd t) buf) + length r" by (metis length_append)
  then have "snd t \<le> length buf" using b(2) by (cases "snd t \<le> length buf") simp_all
  then show ?thesis using b by (auto simp: inside_def rest_of_def)
qed

lemma parse_token_steady:
  "steady (\<lambda>tr. token_before buf tr \<and> hd (snd tr) = ch) (sh_with sh_token) (parse_token ch buf) (\<lambda>x. parse_token ch (buf @ x))"
  unfolding parse_token_def
  by (rule steady_bind [OF token_loop_steady]) (auto simp: token_before_def)

lemma ADVANCE_TOKEN_steady:
  "steady (\<lambda>tr. token_before buf tr \<and> hd (snd tr) = 32) (sh_with sh_token) (ADVANCE_TOKEN buf) (\<lambda>x. ADVANCE_TOKEN (buf @ x))"
  unfolding ADVANCE_TOKEN_def
  by (rule steady_bind [OF advance_token_steady]) (auto simp: token_before_def)

text \<open>The line of a value. Eight characters at a time come to the same as one by one.\<close>

lemma ctl_not_printable: "is_ctl c \<Longrightarrow> \<not> IS_PRINTABLE_ASCII c"
  by (auto dest: order.trans [OF _ take_bit_nat_less_eq_self] simp: is_ctl_def IS_PRINTABLE_ASCII_def word_less_nat_alt unat_sub_if_size unsigned_ucast_eq word_size)

lemma do_its_result:
  "k \<le> length buf \<Longrightarrow> do_its k buf = Reached (False, drop k buf) \<and> eol_slow (drop k buf) = eol_slow buf
    \<or> (\<exists>c r. do_its k buf = Reached (True, c # r) \<and> \<not> IS_PRINTABLE_ASCII c \<and> eol_slow (c # r) = eol_slow buf)"
  by (induction k buf rule: do_its.induct) auto

lemma eol_fast_slow:
  "scan_bind (eol_fast buf) (\<lambda>(found, r). if found then Reached r else eol_slow r) = eol_slow buf"
proof (induction buf rule: eol_fast.induct)
  case (1 buf)
  show ?case
  proof (cases "length buf < 8")
    case True
    then show ?thesis by (simp add: eol_fast.simps [of buf])
  next
    case False
    from do_its_result [of 8 buf] False consider
      (all) "do_its 8 buf = Reached (False, drop 8 buf)" "eol_slow (drop 8 buf) = eol_slow buf"
    | (one) c r where "do_its 8 buf = Reached (True, c # r)" "\<not> IS_PRINTABLE_ASCII c" "eol_slow (c # r) = eol_slow buf"
      by auto
    then show ?thesis
    proof cases
      case all
      then show ?thesis using False 1 by (simp add: eol_fast.simps [of buf])
    next
      case one
      have "scan_bind (eol_fast r) (\<lambda>(found, r). if found then Reached r else eol_slow r) = eol_slow r" if "\<not> is_ctl c"
        using 1(1) [OF False one(1) refl refl refl that] by simp
      then show ?thesis using False one by (simp add: eol_fast.simps [of buf] split: if_split_asm)
    qed
  qed
qed

lemma eol_slow_steady:
  "steady (\<lambda>r. \<exists>u. buf = u @ r \<and> r \<noteq> [] \<and> is_ctl (hd r) \<and> list_all (\<lambda>c. \<not> is_ctl c) u) sh_rest
    (eol_slow buf) (\<lambda>x. eol_slow (buf @ x))"
proof (induction buf)
  case (Cons c buf)
  show ?case
  proof (cases "is_ctl c")
    case False
    then have "steady (\<lambda>r. \<exists>u. c # buf = u @ r \<and> r \<noteq> [] \<and> is_ctl (hd r) \<and> list_all (\<lambda>c. \<not> is_ctl c) u) sh_rest
      (eol_slow buf) (\<lambda>x. eol_slow (buf @ x))"
      by (intro steady_weaken [OF Cons]) (auto intro: exI [of _ "c # _"])
    then show ?thesis using False by simp
  qed (simp add: ctl_not_printable)
qed simp

text \<open>The token is what stands before the line end.\<close>

lemma token_to_eol_steady:
  "steady (\<lambda>((p, n), r). p = buf \<and> (\<exists>u e. buf = u @ e @ r \<and> n = length u \<and> (e = [13, 10] \<or> e = [10])
      \<and> list_all (\<lambda>c. \<not> is_ctl c) u)) (sh_with sh_token)
    (get_token_to_eol buf) (\<lambda>x. get_token_to_eol (buf @ x))"
  unfolding get_token_to_eol_def eol_fast_slow
proof (rule steady_bind [OF eol_slow_steady])
  fix r assume "\<exists>u. buf = u @ r \<and> r \<noteq> [] \<and> is_ctl (hd r) \<and> list_all (\<lambda>c. \<not> is_ctl c) u"
  then obtain u c s where u: "buf = u @ c # s" "r = c # s" "list_all (\<lambda>c. \<not> is_ctl c) u" by (metis list.collapse)
  show "steady (\<lambda>((p, n), r). p = buf \<and> (\<exists>u e. buf = u @ e @ r \<and> n = length u \<and> (e = [13, 10] \<or> e = [10])
      \<and> list_all (\<lambda>c. \<not> is_ctl c) u)) (sh_with sh_token) (found_ctl buf r) (\<lambda>x. found_ctl (buf @ x) (sh_rest x r))"
  proof (cases "c = 13")
    case True
    then show ?thesis using u by (cases s) auto
  next
    case False
    then show ?thesis using u by auto
  qed
qed

section \<open>Headers\<close>

lemma trimmed_le: "trimmed v n \<le> n"
  by (induction v n rule: trimmed.induct) auto

lemma trimmed_more: "n \<le> length v \<Longrightarrow> trimmed (v @ x) n = trimmed v n"
  by (induction v n rule: trimmed.induct) (auto simp: nth_append)

definition header_inside :: "bytes \<Rightarrow> phr_header \<Rightarrow> bool" where
  "header_inside buf h \<longleftrightarrow> (\<forall>t. ph_name h = Some t \<longrightarrow> inside buf t) \<and> inside buf (ph_value h)"

abbreviation (input) "sh_header \<equiv> \<lambda>x h. \<lparr>ph_name = map_option (sh_token x) (ph_name h), ph_value = sh_token x (ph_value h)\<rparr>"

lemma header_inside_trans: "rest_of a b \<Longrightarrow> header_inside b h \<Longrightarrow> header_inside a h"
  using inside_trans by (auto simp: header_inside_def)

lemma after_colon_steady:
  assumes "buf \<noteq> []"
  shows "steady (\<lambda>(n, r). n = Some name \<and> rest_of buf r) (sh_with (\<lambda>x. map_option (sh_token x)))
    (after_colon name buf) (\<lambda>x. after_colon (sh_token x name) (buf @ x))"
proof -
  obtain c b where "buf = c # b" using assms by (cases buf) auto
  moreover have "steady (\<lambda>(n, r). n = Some name \<and> rest_of (c # b) r) (sh_with (\<lambda>x. map_option (sh_token x)))
      (scan_bind (skip_blanks b) (\<lambda>buf. Reached (Some name, buf)))
      (\<lambda>x. scan_bind (skip_blanks (b @ x)) (\<lambda>buf. Reached (Some (sh_token x name), buf)))"
    by (rule steady_bind [OF skip_blanks_steady]) (simp add: rest_of_Cons_trans)
  ultimately show ?thesis by simp
qed

lemma header_name_steady:
  assumes "buf \<noteq> []"
  shows "steady (\<lambda>(n, r). (\<forall>t. n = Some t \<longrightarrow> inside buf t) \<and> rest_of buf r) (sh_with (\<lambda>x. map_option (sh_token x)))
    (header_name first buf) (\<lambda>x. header_name first (buf @ x))"
proof -
  obtain c b where b: "buf = c # b" using assms by (cases buf) auto
  let ?g = "\<lambda>(name, buf). if snd name = 0 then Refused (-1) else after_colon name buf"
  have "steady (\<lambda>(n, r). (\<forall>t. n = Some t \<longrightarrow> inside buf t) \<and> rest_of buf r) (sh_with (\<lambda>x. map_option (sh_token x)))
      (scan_bind (parse_token 58 buf) ?g) (\<lambda>x. scan_bind (parse_token 58 (buf @ x)) ?g)"
  proof (rule steady_bind [OF parse_token_steady], goal_cases)
    case (1 a)
    obtain t r where t: "a = (t, r)" by (cases a)
    note i = token_before_inside [OF conjunct1 [OF 1(2), unfolded t]]
    have "steady (\<lambda>(n, r). (\<forall>t. n = Some t \<longrightarrow> inside buf t) \<and> rest_of buf r) (sh_with (\<lambda>x. map_option (sh_token x)))
        (after_colon t r) (\<lambda>x. after_colon (sh_token x t) (r @ x))"
      by (rule steady_weaken [OF after_colon_steady]) (use i rest_of_trans in auto)
    then show ?case by (simp add: t)
  qed
  then show ?thesis by (simp add: header_name_def b)
qed

lemma header_line_steady:
  assumes "buf \<noteq> []"
  shows "steady (\<lambda>(h, r). header_inside buf h \<and> rest_of buf r) (sh_with sh_header)
    (header_line first buf) (\<lambda>x. header_line first (buf @ x))"
  unfolding header_line_def
proof (rule steady_bind [OF header_name_steady [OF assms]], goal_cases)
  case (1 a)
  then obtain n r where a: "a = (n, r)" "\<forall>t. n = Some t \<longrightarrow> inside buf t" "rest_of buf r" by (cases a) auto
  let ?g = "\<lambda>n ((v, len), buf). Reached (\<lparr>ph_name = n, ph_value = (v, trimmed v len)\<rparr>, buf)"
  have "steady (\<lambda>(h, r). header_inside buf h \<and> rest_of buf r) (sh_with sh_header)
      (scan_bind (get_token_to_eol r) (?g n)) (\<lambda>x. scan_bind (get_token_to_eol (r @ x)) (?g (map_option (sh_token x) n)))"
  proof (rule steady_bind [OF token_to_eol_steady], goal_cases)
    case (1 t)
    then obtain u e s where t: "t = ((r, length u), s)" "r = u @ e @ s" by (cases t) auto
    have l: "length u \<le> length r" and s: "rest_of r s" using t(2) by (auto simp: rest_of_def intro: exI [of _ "u @ e"])
    have "inside r (r, trimmed r (length u))"
      using trimmed_le [of r "length u"] l by (simp add: inside_def)
    then have i: "inside buf (r, trimmed r (length u))" "rest_of buf s"
      using inside_trans [OF a(3)] rest_of_trans [OF a(3) s] by auto
    show ?case
      using i a(2) l by (simp add: t(1) header_inside_def trimmed_more)
  qed
  then show ?case by (simp add: a(1))
qed

lemma parse_headers_steady:
  assumes "length hs \<le> mh"
  shows "steady (\<lambda>(hs', r). rest_of buf r \<and> length hs' \<le> mh \<and> (\<exists>new. hs' = hs @ new \<and> list_all (header_inside buf) new))
    (sh_with (\<lambda>x. map (sh_header x))) (parse_headers mh hs buf) (\<lambda>x. parse_headers mh (map (sh_header x) hs) (buf @ x))"
  using assms
proof (induction mh hs buf rule: parse_headers.induct)
  case (1 mh hs buf)
  let ?P = "\<lambda>buf hs (hs', r). rest_of buf r \<and> length hs' \<le> mh \<and> (\<exists>new. hs' = hs @ new \<and> list_all (header_inside buf) new)"
  show ?case
  proof (cases buf)
    case Nil
    then show ?thesis by (simp add: parse_headers.simps [of mh hs])
  next
    case (Cons c b)
    note eq = parse_headers.simps [of mh _ "d # bs" for d bs]
    consider "c = 13" | "c = 10" | "c \<noteq> 13" "c \<noteq> 10" "length hs = mh" | "c \<noteq> 13" "c \<noteq> 10" "length hs \<noteq> mh" by blast
    then show ?thesis
    proof cases
      case 1
      have "steady (?P buf hs) (sh_with (\<lambda>x. map (sh_header x)))
        (scan_bind (EXPECT_CHAR 10 b) (\<lambda>r. Reached (hs, r)))
        (\<lambda>x. scan_bind (EXPECT_CHAR 10 (b @ x)) (\<lambda>r. Reached (map (sh_header x) hs, r)))"
        by (rule steady_bind [OF EXPECT_CHAR_steady]) (use "1.prems" Cons in \<open>auto simp: rest_of_Cons_trans\<close>)
      then show ?thesis using 1 Cons by (simp add: eq)
    next
      case 4
      have "steady (?P buf hs) (sh_with (\<lambda>x. map (sh_header x)))
        (scan_bind (header_line (hs = []) buf) (\<lambda>(h, r). parse_headers mh (hs @ [h]) r))
        (\<lambda>x. scan_bind (header_line (hs = []) (buf @ x)) (\<lambda>(h, r). parse_headers mh (map (sh_header x) hs @ [h]) r))"
      proof (rule steady_bind [OF header_line_steady])
        fix a assume a: "header_line (hs = []) buf = Reached a" "case a of (h, r) \<Rightarrow> header_inside buf h \<and> rest_of buf r"
        obtain h r where hr: "a = (h, r)" by (cases a)
        with a have r: "header_inside buf h" "rest_of buf r" by simp_all
        have "steady (?P r (hs @ [h])) (sh_with (\<lambda>x. map (sh_header x)))
          (parse_headers mh (hs @ [h]) r) (\<lambda>x. parse_headers mh (map (sh_header x) (hs @ [h])) (r @ x))"
          by (rule "1.IH") (use Cons 4 a hr "1.prems" in auto)
        then have "steady (?P buf hs) (sh_with (\<lambda>x. map (sh_header x)))
          (parse_headers mh (hs @ [h]) r) (\<lambda>x. parse_headers mh (map (sh_header x) (hs @ [h])) (r @ x))"
          by (rule steady_weaken)
            (auto intro!: rest_of_trans [OF r(2)] header_inside_trans [OF r(2)] exI [of _ "h # _"] r(1) elim!: list.pred_mono_strong)
        then show "steady (?P buf hs) (sh_with (\<lambda>x. map (sh_header x)))
          (case a of (h, r) \<Rightarrow> parse_headers mh (hs @ [h]) r)
          (\<lambda>x. case sh_with sh_header x a of (h, r) \<Rightarrow> parse_headers mh (map (sh_header x) hs @ [h]) r)"
          by (simp add: hr)
      qed (simp add: Cons)
      moreover have "parse_headers mh hs buf = scan_bind (header_line (hs = []) buf) (\<lambda>(h, r). parse_headers mh (hs @ [h]) r)"
        using 4 Cons by (simp add: eq split: scan.split)
      moreover have "parse_headers mh (map (sh_header x) hs) (buf @ x)
        = scan_bind (header_line (hs = []) (buf @ x)) (\<lambda>(h, r). parse_headers mh (map (sh_header x) hs @ [h]) r)" for x
        using 4 Cons by (simp add: eq split: scan.split)
      ultimately show ?thesis by simp
    qed (use Cons "1.prems" in \<open>simp_all add: eq\<close>)
  qed
qed

section \<open>Requests\<close>

lemma skip_empty_line_steady:
  "steady (rest_of buf) sh_rest (skip_empty_line buf) (\<lambda>x. skip_empty_line (buf @ x))"
proof (induction buf rule: skip_empty_line.induct)
  case (2 c buf)
  have "steady (rest_of (c # buf)) sh_rest (EXPECT_CHAR 10 buf) (\<lambda>x. EXPECT_CHAR 10 (buf @ x))"
    by (rule steady_weaken [OF EXPECT_CHAR_steady]) (simp add: rest_of_Cons_trans)
  then show ?case by (cases "c = 13") simp_all
qed simp

lemma complete_loop_steady:
  "steady (rest_of buf) sh_rest (complete_loop n buf) (\<lambda>x. complete_loop n (buf @ x))"
proof (induction n buf rule: complete_loop.induct)
  case (2 n c buf)
  have up: "steady (rest_of (c # buf)) sh_rest m mx" if "steady (rest_of b) sh_rest m mx" "rest_of buf b" for b m mx
    by (rule steady_weaken [OF that(1)]) (rule rest_of_Cons_trans [OF rest_of_trans [OF that(2)]])
  consider "c = 13" "buf = []" | d b where "c = 13" "buf = d # b" | "c = 10" | "c \<noteq> 13" "c \<noteq> 10"
    by (cases buf) auto
  then show ?case
  proof cases
    case (2 d b)
    show ?thesis
      using up [OF "2.IH"(1) [OF 2]] 2 by (cases "d = 10"; cases "n + 1 = 2") (simp_all add: rest_of_Cons_trans)
  next
    case 3
    then show ?thesis using up [OF "2.IH"(2)] by simp
  next
    case 4
    then show ?thesis using up [OF "2.IH"(3)] by simp
  qed simp
qed simp

lemma is_complete_steady:
  assumes "ll \<le> length buf"
  shows "steady (rest_of buf) sh_rest (is_complete buf ll) (\<lambda>x. is_complete (buf @ x) ll)"
proof (cases "ll < 3")
  case True
  then show ?thesis using complete_loop_steady by (simp add: is_complete_def)
next
  case False
  then have "steady (rest_of buf) sh_rest (complete_loop 0 (drop (ll - 3) buf)) (\<lambda>x. complete_loop 0 (drop (ll - 3) buf @ x))"
    by (intro steady_weaken [OF complete_loop_steady]) (rule rest_of_trans [OF rest_of_drop])
  then show ?thesis using False assms by (simp add: is_complete_def)
qed

lemma http_version_steady:
  "steady (\<lambda>(v, r). rest_of buf r \<and> r \<noteq> [] \<and> length r < length buf \<and> 0 \<le> v \<and> v \<le> 9) (sh_with sh_none)
    (parse_http_version buf) (\<lambda>x. parse_http_version (buf @ x))"
proof (cases "length buf < 9")
  case False
  let ?t = "lit ''HTTP/1.''"
  have l: "length ?t = 7" by (simp add: lit_def)
  have "steady (\<lambda>(v, r). rest_of buf r \<and> r \<noteq> [] \<and> length r < length buf \<and> 0 \<le> v \<and> v \<le> 9) (sh_with sh_none)
    (scan_bind (expect_text ?t buf) (PARSE_INT 1)) (\<lambda>x. scan_bind (expect_text ?t (buf @ x)) (PARSE_INT 1))"
  proof (rule steady_bind [OF expect_text_steady], goal_cases)
    case (2 r)
    then have "length r = length buf - 7" by (metis l add_diff_cancel_left' length_append)
    then have r: "2 \<le> length r" "r \<noteq> []" using False by auto
    then show ?case
      by (intro steady_weaken [OF PARSE_INT_steady])
        (use 2(2) in \<open>auto simp: rest_of_def intro: exI [of _ "?t @ [_]"]\<close>)
  qed (use False l in simp)
  then show ?thesis using False by (simp add: parse_http_version_def)
qed (simp add: parse_http_version_def)

definition request_inside :: "bytes \<Rightarrow> request_out \<Rightarrow> bool" where
  "request_inside buf q \<longleftrightarrow>
     (\<forall>t. rq_method q = Some t \<longrightarrow> inside buf t) \<and> (\<forall>t. rq_path q = Some t \<longrightarrow> inside buf t)
     \<and> -1 \<le> rq_minor q \<and> rq_minor q \<le> 9 \<and> list_all (header_inside buf) (rq_headers q)"

abbreviation (input) "sh_request \<equiv> \<lambda>x q. \<lparr>rq_method = map_option (sh_token x) (rq_method q),
  rq_path = map_option (sh_token x) (rq_path q), rq_minor = rq_minor q, rq_headers = map (sh_header x) (rq_headers q)\<rparr>"

text \<open>The same for a result together with the parameters, which are set when it is reached.\<close>

definition steady_request ::
  "bytes \<Rightarrow> nat \<Rightarrow> request_out \<times> bytes scan \<Rightarrow> (bytes \<Rightarrow> request_out \<times> bytes scan) \<Rightarrow> bool" where
  "steady_request buf mh qm mx \<longleftrightarrow>
     request_inside buf (fst qm)
     \<and> steady (\<lambda>r. rest_of buf r \<and> length r < length buf \<and> rq_method (fst qm) \<noteq> None \<and> rq_path (fst qm) \<noteq> None
          \<and> 0 \<le> rq_minor (fst qm) \<and> length (rq_headers (fst qm)) \<le> mh)
         sh_rest (snd qm) (\<lambda>x. snd (mx x))
     \<and> (snd qm = Refused (-2) \<or> (\<forall>x. fst (mx x) = sh_request x (fst qm)))"

lemma steady_after:
  assumes "steady P sh m mx" "request_inside buf q" "\<And>x. qx x = sh_request x q"
    "\<And>a. m = Reached a \<Longrightarrow> P a \<Longrightarrow> steady_request buf mh (f a) (\<lambda>x. fx x (sh x a))"
  shows "steady_request buf mh (after m q f) (\<lambda>x. after (mx x) (qx x) (fx x))"
proof (cases m)
  case (Refused r)
  then consider "r = -2" | "r = -1" "\<forall>x. mx x = Refused (-1)" using assms(1) by auto
  then show ?thesis by cases (use Refused assms(2,3) in \<open>simp_all add: steady_request_def\<close>)
qed (use assms in \<open>simp_all\<close>)

text \<open>The part of the request after the path.\<close>

abbreviation (input) "request_tail \<equiv> \<lambda>mh q b.
  after (parse_http_version b) q (\<lambda>(minor, b).
  after (line_end b) (q\<lparr>rq_minor := minor\<rparr>) (\<lambda>b.
  after (parse_headers mh [] b) (q\<lparr>rq_minor := minor\<rparr>) (\<lambda>(hs, b).
  (q\<lparr>rq_minor := minor, rq_headers := hs\<rparr>, Reached b))))"

lemma request_tail_steady:
  assumes "rest_of buf b" "request_inside buf q" "rq_method q \<noteq> None" "rq_path q \<noteq> None" "rq_headers q = []"
  shows "steady_request buf mh (request_tail mh q b) (\<lambda>x. request_tail mh (sh_request x q) (b @ x))"
proof (rule steady_after [OF http_version_steady], goal_cases)
  case (3 vr)
  then obtain v b1 where vr: "vr = (v, b1)" and v: "0 \<le> v" "v \<le> 9" "b1 \<noteq> []" and "rest_of b b1" by (cases vr) auto
  then have r1: "rest_of buf b1" using rest_of_trans [OF assms(1)] by blast
  have q: "request_inside buf (q\<lparr>rq_minor := v\<rparr>)" using assms(2) v by (simp add: request_inside_def)
  show ?case unfolding vr prod.case fst_conv snd_conv
  proof (rule steady_after [OF line_end_steady [OF v(3)] q], goal_cases)
    case (2 b2)
    then have r2: "rest_of buf b2" "length b2 < length buf"
      using rest_of_trans [OF r1] rest_of_length [OF r1] by auto
    show ?case
    proof (rule steady_after [OF parse_headers_steady [of "[]"], simplified list.map], goal_cases)
      case (4 hr)
      then obtain hs b3 where hr: "hr = (hs, b3)" "rest_of b2 b3" "length hs \<le> mh" "list_all (header_inside b2) hs"
        by (cases hr) auto
      have "list_all (header_inside buf) hs"
        using hr(4) header_inside_trans [OF r2(1)] by (auto elim!: list.pred_mono_strong)
      then show ?case
        using hr q assms v(1) r2(2) rest_of_trans [OF r2(1)] rest_of_length [of b2 b3]
        by (auto simp: steady_request_def request_inside_def)
    qed (use q assms in simp_all)
  qed simp
qed (use assms in simp_all)

lemma http_parse_request_steady:
  "steady_request buf mh (http_parse_request mh buf) (\<lambda>x. http_parse_request mh (buf @ x))"
  unfolding http_parse_request_def Let_def
proof (rule steady_after [OF skip_empty_line_steady], goal_cases)
  case (3 b1)
  note r1 = 3(2)
  show ?case
  proof (rule steady_after [OF parse_token_steady], goal_cases)
    case (3 tr2)
    obtain t b2 where tr2: "tr2 = (t, b2)" by (cases tr2)
    note i2 = token_before_inside [OF conjunct1 [OF 3(2), unfolded tr2]]
    have r2: "rest_of buf b2" "b2 \<noteq> []" "inside buf t" using rest_of_trans [OF r1] inside_trans [OF r1] i2 by blast+
    show ?case unfolding tr2 prod.case fst_conv snd_conv
    proof (rule steady_after [OF skip_spaces_steady [OF r2(2)]], goal_cases)
      case (3 b3)
      then have r3: "rest_of buf b3" using rest_of_trans [OF r2(1)] by simp
      show ?case
      proof (rule steady_after [OF ADVANCE_TOKEN_steady], goal_cases)
        case (3 tr4)
        obtain p b4 where tr4: "tr4 = (p, b4)" by (cases tr4)
        note i4 = token_before_inside [OF conjunct1 [OF 3(2), unfolded tr4]]
        have r4: "rest_of buf b4" "b4 \<noteq> []" "inside buf p" using rest_of_trans [OF r3] inside_trans [OF r3] i4 by blast+
        show ?case unfolding tr4 prod.case fst_conv snd_conv
        proof (rule steady_after [OF skip_spaces_steady [OF r4(2)]], goal_cases)
          case (3 b5)
          have "steady_request buf mh (request_tail mh (no_request\<lparr>rq_method := Some t, rq_path := Some p\<rparr>) b5)
             (\<lambda>x. request_tail mh (sh_request x (no_request\<lparr>rq_method := Some t, rq_path := Some p\<rparr>)) (b5 @ x))"
            by (rule request_tail_steady)
              (use r2 r4 3 rest_of_trans [OF r4(1)] in \<open>auto simp: request_inside_def no_request_def\<close>)
          then show ?case
            using r2 r4 by (auto simp: steady_request_def request_inside_def no_request_def)
        qed (use r2 r4 in \<open>auto simp: request_inside_def no_request_def\<close>)
      qed (use r2 in \<open>auto simp: request_inside_def no_request_def\<close>)
    qed (use r2 in \<open>auto simp: request_inside_def no_request_def\<close>)
  qed (auto simp: request_inside_def no_request_def)
qed (auto simp: request_inside_def no_request_def)

text \<open>
  The parser as a whole: on a buffer of at least \<open>ll\<close> characters it never passes the end, its parameters lie in the
  buffer, and unless it asks for more (-2) it says the same when more follows.
\<close>

lemma consumed_more: "consumed (buf @ x) (rest @ x) = consumed buf rest"
  by (simp add: consumed_def)

lemma consumed_exact:
  assumes "rest_of buf rest" "length rest < length buf" "length buf < 2 ^ 31"
  shows "consumed buf rest = int (length buf - length rest)"
proof -
  have "length buf - length rest < 2 ^ 31" using assms(3) by simp
  then show ?thesis by (simp add: consumed_def signed_of_nat signed_take_bit_int_eq_self)
qed

theorem phr_steady:
  assumes "ll \<le> length buf" "length buf < 2 ^ 31"
  obtains code q where "phr_parse_request buf mh ll = Inr (code, q)" "request_inside buf q"
    "code = -1 \<or> code = -2 \<or> (0 < code \<and> code \<le> int (length buf) \<and> rq_method q \<noteq> None \<and> rq_path q \<noteq> None
      \<and> 0 \<le> rq_minor q \<and> length (rq_headers q) \<le> mh)"
    "code \<noteq> -2 \<longrightarrow> (\<forall>x. phr_parse_request (buf @ x) mh ll = Inr (code, sh_request x q))"
proof -
  let ?c = "if ll \<noteq> 0 then is_complete buf ll else Reached buf"
  have none: "request_inside buf no_request" "\<And>x. sh_request x no_request = no_request"
    by (simp_all add: request_inside_def no_request_def)
  have c: "steady (rest_of buf) sh_rest ?c (\<lambda>x. if ll \<noteq> 0 then is_complete (buf @ x) ll else Reached (buf @ x))"
    using is_complete_steady [OF assms(1)] by simp
  obtain q m where qm: "http_parse_request mh buf = (q, m)" by (metis surj_pair)
  note s = http_parse_request_steady [of buf mh, unfolded qm steady_request_def fst_conv snd_conv]
  have more: "http_parse_request mh (buf @ x)
      = (sh_request x q, case m of Overrun \<Rightarrow> Overrun | Refused r \<Rightarrow> Refused r | Reached r \<Rightarrow> Reached (r @ x))"
    if "m \<noteq> Refused (-2)" for x
    using s that by (cases m; intro prod_eqI) auto
  consider r where "?c = Refused r" | c0 where "?c = Reached c0" using c by (cases ?c) auto
  then show ?thesis
  proof cases
    case (1 r)
    then show ?thesis
      by (intro that [of r no_request]) (use c none in \<open>auto simp: phr_parse_request_def\<close>)
  next
    case c0: (2 c0)
    show ?thesis
    proof (cases m)
      case (Refused r)
      then show ?thesis
        by (intro that [of r q]) (use c c0 s qm in \<open>auto simp: phr_parse_request_def more\<close>)
    next
      case (Reached rest)
      have "rest_of buf rest" "length rest < length buf" using s Reached by auto
      note cons = consumed_exact [OF this assms(2)]
      show ?thesis
        by (rule that [of "consumed buf rest" q])
          (use c c0 s qm Reached cons in \<open>auto simp: phr_parse_request_def consumed_more more\<close>)
    qed (use s in auto)
  qed
qed

end
