(* ===== verification/Http_Request_Text.thy ===== *)
theory Http_Request_Text
  imports Http_Parser_Props
begin

text \<open>
  Requests as clients write them, and what the parser makes of them, whatever follows in the buffer and
  wherever the bytes before were cut.
\<close>

section \<open>The text of a request\<close>

definition path_char :: "u8 \<Rightarrow> bool" where
  "path_char c \<longleftrightarrow> 0x20 < c \<and> c \<noteq> 0x7f"

definition value_text :: "bytes \<Rightarrow> bool" where
  "value_text v \<longleftrightarrow> list_all (\<lambda>c. \<not> is_ctl c) v \<and> (v \<noteq> [] \<longrightarrow> \<not> is_blank (hd v) \<and> \<not> is_blank (last v))"

definition http_line :: "bytes \<Rightarrow> bytes" where
  "http_line l = l @ [13, 10]"

definition request_line :: "bytes \<Rightarrow> bytes \<Rightarrow> nat \<Rightarrow> bytes" where
  "request_line meth path d = http_line (meth @ [32] @ path @ [32] @ lit ''HTTP/1.'' @ [of_nat (48 + d)])"

definition header_text :: "bytes \<times> bytes \<Rightarrow> bytes" where
  "header_text h = http_line (fst h @ [58, 32] @ snd h)"

definition request_text :: "bytes \<Rightarrow> bytes \<Rightarrow> nat \<Rightarrow> (bytes \<times> bytes) list \<Rightarrow> bytes" where
  "request_text meth path d hs = request_line meth path d @ concat (map header_text hs) @ [13, 10]"

definition request_ok :: "bytes \<Rightarrow> bytes \<Rightarrow> nat \<Rightarrow> (bytes \<times> bytes) list \<Rightarrow> bool" where
  "request_ok meth path d hs \<longleftrightarrow>
     meth \<noteq> [] \<and> list_all token_char meth \<and> path \<noteq> [] \<and> list_all path_char path \<and> d < 10
     \<and> list_all (\<lambda>(n, v). n \<noteq> [] \<and> list_all token_char n \<and> value_text v) hs"

definition token_text :: "token \<Rightarrow> bytes" where
  "token_text t = take (snd t) (fst t)"

section \<open>Forward through the parts\<close>

lemma not_token_char:
  "\<not> token_char 32" "\<not> token_char 58" "\<not> token_char 13" "\<not> token_char 10" "\<not> token_char 9"
  by (simp_all add: token_char_def token_char_map_def)

lemma token_loop_forward:
  "list_all token_char u \<Longrightarrow> \<not> token_char ch \<Longrightarrow> token_loop ch n (u @ ch # r) = Reached (n + length u, ch # r)"
  by (induction u arbitrary: n) auto

lemma parse_token_forward:
  "list_all token_char u \<Longrightarrow> \<not> token_char ch \<Longrightarrow>
    parse_token ch (u @ ch # r) = Reached ((u @ ch # r, length u), ch # r)"
  by (simp add: parse_token_def token_loop_forward)

lemma advance_token_forward:
  "list_all path_char u \<Longrightarrow> advance_token n (u @ 32 # r) = Reached (n + length u, 32 # r)"
  by (induction u arbitrary: n) (auto simp: path_char_def)

lemma ADVANCE_TOKEN_forward:
  "list_all path_char u \<Longrightarrow> ADVANCE_TOKEN (u @ 32 # r) = Reached ((u @ 32 # r, length u), 32 # r)"
  by (simp add: ADVANCE_TOKEN_def advance_token_forward)

lemma expect_text_forward: "expect_text t (t @ r) = Reached r"
  by (induction t) simp_all

lemma digit_sint: "d < 10 \<Longrightarrow> sint (of_nat (48 + d) :: u8) = 48 + int d"
proof -
  assume "d < 10"
  then have "d \<in> {0, 1, 2, 3, 4, 5, 6, 7, 8, 9}" by auto
  then show ?thesis by (elim insertE emptyE) simp_all
qed

lemma http_version_forward:
  "d < 10 \<Longrightarrow> parse_http_version (lit ''HTTP/1.'' @ of_nat (48 + d) # c # r) = Reached (int d, c # r)"
proof -
  assume "d < 10"
  then show ?thesis using digit_sint [of d]
    by (simp add: parse_http_version_def expect_text_forward) (simp add: lit_def)
qed

lemma ctl_line_end: "is_ctl 13" "is_ctl 10" "\<not> is_blank 13"
  by (simp_all add: is_ctl_def is_blank_def)

lemma eol_slow_forward: "list_all (\<lambda>c. \<not> is_ctl c) u \<Longrightarrow> eol_slow (u @ 13 # r) = Reached (13 # r)"
  by (induction u) (auto simp: ctl_line_end ctl_not_printable)

lemma token_to_eol_forward:
  "list_all (\<lambda>c. \<not> is_ctl c) u \<Longrightarrow> get_token_to_eol (u @ 13 # 10 # r) = Reached ((u @ 13 # 10 # r, length u), r)"
  unfolding get_token_to_eol_def eol_fast_slow by (simp add: eol_slow_forward)

lemma trimmed_value: "value_text v \<Longrightarrow> trimmed (v @ r) (length v) = length v"
  by (cases "length v") (auto simp: value_text_def last_conv_nth nth_append)

lemma skip_blanks_value: "value_text v \<Longrightarrow> skip_blanks (32 # v @ 13 # r) = Reached (v @ 13 # r)"
  by (cases v) (auto simp: value_text_def ctl_line_end is_blank_def)

lemma header_line_forward:
  assumes "n \<noteq> []" "list_all token_char n" "value_text v"
  shows "header_line first (header_text (n, v) @ r) =
    Reached (\<lparr>ph_name = Some (header_text (n, v) @ r, length n), ph_value = (v @ 13 # 10 # r, length v)\<rparr>, r)"
proof -
  obtain c m where n: "n = c # m" "token_char c" using assms(1,2) by (cases n) auto
  then have "\<not> is_blank c" using not_token_char by (auto simp: is_blank_def)
  then have "header_name first (header_text (n, v) @ r)
      = Reached (Some (header_text (n, v) @ r, length n), v @ 13 # 10 # r)"
    using parse_token_forward [OF assms(2) not_token_char(2), of "32 # v @ 13 # 10 # r"] n(1)
      skip_blanks_value [OF assms(3)]
    by (simp add: header_name_def header_text_def http_line_def)
  moreover have "list_all (\<lambda>c. \<not> is_ctl c) v" using assms(3) by (simp add: value_text_def)
  ultimately show ?thesis
    by (simp add: header_line_def token_to_eol_forward trimmed_value [OF assms(3)])
qed

lemma header_line_start:
  assumes "n \<noteq> []" "list_all token_char n"
  obtains c b where "header_text (n, v) @ r = c # b" "c \<noteq> 13" "c \<noteq> 10"
  using assms not_token_char by (cases n) (auto simp: header_text_def http_line_def)

lemma parse_headers_forward:
  assumes "list_all (\<lambda>(n, v). n \<noteq> [] \<and> list_all token_char n \<and> value_text v) hs" "length acc + length hs \<le> mh"
  shows "\<exists>new. parse_headers mh acc (concat (map header_text hs) @ 13 # 10 # r) = Reached (acc @ new, r)
    \<and> map (\<lambda>h. (map_option token_text (ph_name h), token_text (ph_value h))) new = map (\<lambda>(n, v). (Some n, v)) hs"
  using assms
proof (induction hs arbitrary: acc)
  case Nil
  then show ?case by (simp add: parse_headers.simps [of mh acc])
next
  case (Cons h hs)
  obtain n v where h: "h = (n, v)" by (cases h)
  with Cons.prems have nv: "n \<noteq> []" "list_all token_char n" "value_text v" by simp_all
  let ?r = "concat (map header_text hs) @ 13 # 10 # r"
  let ?h = "\<lparr>ph_name = Some (header_text (n, v) @ ?r, length n), ph_value = (v @ 13 # 10 # ?r, length v)\<rparr>"
  obtain c b where c: "header_text (n, v) @ ?r = c # b" "c \<noteq> 13" "c \<noteq> 10" by (rule header_line_start [OF nv(1,2)])
  have "parse_headers mh acc (header_text (n, v) @ ?r) = parse_headers mh (acc @ [?h]) ?r"
    using header_line_forward [OF nv, of "acc = []" ?r] Cons.prems(2) c
    by (simp add: parse_headers.simps [of mh acc "c # b"])
  moreover obtain new where "parse_headers mh (acc @ [?h]) ?r = Reached ((acc @ [?h]) @ new, r)"
    "map (\<lambda>h. (map_option token_text (ph_name h), token_text (ph_value h))) new = map (\<lambda>(n, v). (Some n, v)) hs"
    using Cons.IH [of "acc @ [?h]"] Cons.prems by auto
  moreover have "token_text (header_text (n, v) @ ?r, length n) = n" "token_text (v @ 13 # 10 # ?r, length v) = v"
    by (simp_all add: token_text_def header_text_def http_line_def)
  ultimately show ?case by (intro exI [of _ "?h # new"]) (simp add: h)
qed

lemma skip_spaces_forward: "c \<noteq> 32 \<Longrightarrow> skip_spaces (32 # c # r) = Reached (c # r)"
  by simp

section \<open>A request as a whole\<close>

text \<open>Every carriage return is followed by a line feed.\<close>

fun cr_ok :: "bytes \<Rightarrow> bool" where
  "cr_ok [] \<longleftrightarrow> True"
| "cr_ok (c # b) \<longleftrightarrow> (c = 13 \<longrightarrow> b \<noteq> [] \<and> hd b = 10) \<and> cr_ok b"

lemma cr_ok_plain: "13 \<notin> set a \<Longrightarrow> cr_ok (a @ b) \<longleftrightarrow> cr_ok b"
  by (induction a) auto

lemma cr_ok_line: "13 \<notin> set l \<Longrightarrow> cr_ok (http_line l @ b) \<longleftrightarrow> cr_ok b"
  by (simp add: http_line_def cr_ok_plain)

lemma cr_ok_drop: "cr_ok b \<Longrightarrow> cr_ok (drop k b)"
  by (induction b arbitrary: k) (auto simp: drop_Cons split: nat.split)

lemma no_cr:
  "list_all token_char u \<Longrightarrow> 13 \<notin> set u" "list_all path_char u \<Longrightarrow> 13 \<notin> set u" "value_text u \<Longrightarrow> 13 \<notin> set u"
  using not_token_char by (auto simp: list_all_iff path_char_def value_text_def is_ctl_def)

lemma cr_ok_request:
  assumes "request_ok meth path d hs"
  shows "cr_ok (request_text meth path d hs)"
proof -
  have "cr_ok (concat (map header_text hs) @ b) \<longleftrightarrow> cr_ok b"
    if "list_all (\<lambda>(n, v). n \<noteq> [] \<and> list_all token_char n \<and> value_text v) hs" for b
    using that by (induction hs) (auto simp: header_text_def cr_ok_line no_cr)
  moreover have "d < 10" "13 \<notin> set meth" "13 \<notin> set path" using assms no_cr by (auto simp: request_ok_def)
  moreover from \<open>d < 10\<close> have "d \<in> {0, 1, 2, 3, 4, 5, 6, 7, 8, 9}" by auto
  then have "(of_nat (48 + d) :: u8) \<noteq> 13" by (elim insertE emptyE) simp_all
  ultimately show ?thesis
    using assms by (simp add: request_text_def request_line_def cr_ok_line request_ok_def lit_def)
qed

lemma complete_loop_forward:
  "cr_ok (u @ [13, 10, 13, 10]) \<Longrightarrow> n \<le> 1 \<Longrightarrow> \<exists>r. complete_loop n (u @ [13, 10, 13, 10] @ rest) = Reached r"
proof (induction u arbitrary: n rule: length_induct)
  case (1 u)
  show ?case
  proof (cases u)
    case Nil
    then show ?thesis using 1(3) by (cases n) auto
  next
    case (Cons c u')
    have IH: "\<exists>r. complete_loop m (w @ [13, 10, 13, 10] @ rest) = Reached r"
      if "length w < length u" "cr_ok (w @ [13, 10, 13, 10])" "m \<le> 1" for w m
      using 1(1) that by blast
    consider (cr) w where "c = 13" "u' = 10 # w" | "c = 10" | "c \<noteq> 13" "c \<noteq> 10"
      using 1(2) Cons by (cases u') auto
    then show ?thesis
    proof cases
      case cr
      then show ?thesis using IH [of w 1] 1(2,3) Cons by (cases n) auto
    next
      case 2
      then show ?thesis using IH [of u' 1] 1(2,3) Cons by (cases n) auto
    next
      case 3
      then show ?thesis using IH [of u' 0] 1(2) Cons by auto
    qed
  qed
qed

lemma request_text_end:
  obtains u where "request_text meth path d hs = u @ [13, 10, 13, 10]"
proof -
  have "\<exists>v. request_line meth path d @ concat (map header_text hs) = v @ [13, 10]"
    by (induction hs rule: rev_induct) (auto simp: request_line_def http_line_def header_text_def)
  then show thesis using that by (auto simp: request_text_def)
qed

lemma is_complete_forward:
  assumes "request_ok meth path d hs" "ll < length (request_text meth path d hs)"
  shows "\<exists>r. is_complete (request_text meth path d hs @ rest) ll = Reached r"
proof -
  obtain u where u: "request_text meth path d hs = u @ [13, 10, 13, 10]" by (rule request_text_end)
  have "cr_ok (drop k u @ [13, 10, 13, 10])" if "k \<le> length u" for k
    using cr_ok_drop [OF cr_ok_request [OF assms(1)], of k] that by (simp add: u)
  then have "\<exists>r. complete_loop 0 (drop k u @ [13, 10, 13, 10] @ rest) = Reached r" if "k \<le> length u" for k
    using complete_loop_forward [of "drop k u" 0 rest] that by simp
  from this [of 0] this [of "ll - 3"] show ?thesis
    using assms(2) by (cases "ll < 3") (auto simp: is_complete_def u)
qed

text \<open>The parameters after a request has been read.\<close>

definition request_read :: "bytes \<Rightarrow> bytes \<Rightarrow> nat \<Rightarrow> (bytes \<times> bytes) list \<Rightarrow> bytes \<Rightarrow> request_out \<Rightarrow> bool" where
  "request_read meth path d hs buf q \<longleftrightarrow>
     rq_method q = Some (buf, length meth) \<and> rq_path q = Some (drop (length meth + 1) buf, length path)
     \<and> rq_minor q = int d
     \<and> map (\<lambda>h. (map_option token_text (ph_name h), token_text (ph_value h))) (rq_headers q) = map (\<lambda>(n, v). (Some n, v)) hs"

lemma http_parse_request_forward:
  assumes "request_ok meth path d hs" "length hs \<le> mh"
  shows "\<exists>q. http_parse_request mh (request_text meth path d hs @ rest) = (q, Reached rest)
    \<and> request_read meth path d hs (request_text meth path d hs @ rest) q"
proof -
  let ?buf = "request_text meth path d hs @ rest"
  have ok: "meth \<noteq> []" "list_all token_char meth" "path \<noteq> []" "list_all path_char path" "d < 10"
    using assms(1) by (simp_all add: request_ok_def)
  obtain new where hs: "parse_headers mh [] (concat (map header_text hs) @ 13 # 10 # rest) = Reached (new, rest)"
    "map (\<lambda>h. (map_option token_text (ph_name h), token_text (ph_value h))) new = map (\<lambda>(n, v). (Some n, v)) hs"
    using parse_headers_forward [of hs "[]" mh rest] assms by (auto simp: request_ok_def)
  define b2 where "b2 = concat (map header_text hs) @ 13 # 10 # rest"
  define b1 where "b1 = lit ''HTTP/1.'' @ of_nat (48 + d) # 13 # 10 # b2"
  have buf: "?buf = meth @ 32 # path @ 32 # b1"
    by (simp add: request_text_def request_line_def http_line_def b1_def b2_def)
  have "skip_empty_line ?buf = Reached ?buf"
    using ok(1,2) not_token_char unfolding buf by (cases meth) auto
  moreover have "parse_token 32 ?buf = Reached ((?buf, length meth), 32 # path @ 32 # b1)"
    unfolding buf by (rule parse_token_forward [OF ok(2) not_token_char(1)])
  moreover have "skip_spaces (32 # path @ 32 # b1) = Reached (path @ 32 # b1)"
    using ok(3,4) by (cases path) (auto simp: path_char_def)
  moreover have "ADVANCE_TOKEN (path @ 32 # b1) = Reached ((path @ 32 # b1, length path), 32 # b1)"
    by (rule ADVANCE_TOKEN_forward [OF ok(4)])
  moreover have "skip_spaces (32 # b1) = Reached b1" by (simp add: b1_def lit_def)
  moreover have "parse_http_version b1 = Reached (int d, 13 # 10 # b2)"
    unfolding b1_def by (rule http_version_forward [OF ok(5)])
  ultimately have "http_parse_request mh ?buf = (no_request\<lparr>rq_method := Some (?buf, length meth),
      rq_path := Some (path @ 32 # b1, length path), rq_minor := int d, rq_headers := new\<rparr>, Reached rest)"
    using ok(1,3) hs(1) by (simp add: http_parse_request_def b2_def)
  moreover have "drop (length meth + 1) ?buf = path @ 32 # b1" unfolding buf by simp
  ultimately show ?thesis using hs(2) by (simp add: request_read_def)
qed

end
