(* ===== verification/Http_Cut.thy ===== *)
theory Http_Cut
  imports Http_Request_Text
begin

text \<open>
  Requests that have not arrived completely. What a part of the parser asks for more input on, it gets past
  with more input; and no part of it gets past a 0. So a head that is cut anywhere is refused when zeros follow
  it in the buffer.
\<close>

section \<open>Asking for more\<close>

text \<open>
  Where a part asks for more input, with more input it gets at least as far as the buffer went before.
\<close>

definition beyond :: "('a \<Rightarrow> bytes) \<Rightarrow> 'a scan \<Rightarrow> (bytes \<Rightarrow> 'a scan) \<Rightarrow> bool" where
  "beyond left m mx \<longleftrightarrow> (m = Refused (-2) \<longrightarrow> (\<forall>x a. mx x = Reached a \<longrightarrow> length (left a) \<le> length x))"

lemma beyond_Reached [simp]: "beyond left (Reached a) mx"
  by (simp add: beyond_def)

lemma beyond_bind:
  assumes "steady P sh m mx" "beyond left m mx"
    "\<And>x a b. gx x a = Reached b \<Longrightarrow> length (left' b) \<le> length (left a)"
    "\<And>a. m = Reached a \<Longrightarrow> P a \<Longrightarrow> beyond left' (g a) (\<lambda>x. gx x (sh x a))"
  shows "beyond left' (scan_bind m g) (\<lambda>x. scan_bind (mx x) (gx x))"
proof (cases m)
  case (Refused r)
  then show ?thesis
    using assms(1-3) by (fastforce simp: beyond_def scan_bind_Reached intro: order_trans)
qed (use assms in auto)

lemma beyond_simple:
  "beyond id (EXPECT_CHAR ch buf) (\<lambda>x. EXPECT_CHAR ch (buf @ x))"
  "beyond id (skip_blanks buf) (\<lambda>x. skip_blanks (buf @ x))"
  "beyond id (eol_slow buf) (\<lambda>x. eol_slow (buf @ x))"
  "beyond snd (token_loop ch n buf) (\<lambda>x. token_loop ch n (buf @ x))"
  "beyond snd (advance_token n buf) (\<lambda>x. advance_token n (buf @ x))"
  unfolding beyond_def
proof -
  show "EXPECT_CHAR ch buf = Refused (-2) \<longrightarrow> (\<forall>x a. EXPECT_CHAR ch (buf @ x) = Reached a \<longrightarrow> length (id a) \<le> length x)"
    by (cases buf) (auto dest: expect_char_left)
  show "skip_blanks buf = Refused (-2) \<longrightarrow> (\<forall>x a. skip_blanks (buf @ x) = Reached a \<longrightarrow> length (id a) \<le> length x)"
    by (induction buf) (auto dest: skip_blanks_left)
  show "eol_slow buf = Refused (-2) \<longrightarrow> (\<forall>x a. eol_slow (buf @ x) = Reached a \<longrightarrow> length (id a) \<le> length x)"
    by (induction buf) (auto dest: eol_slow_left)
  show "token_loop ch n buf = Refused (-2) \<longrightarrow> (\<forall>x a. token_loop ch n (buf @ x) = Reached a \<longrightarrow> length (snd a) \<le> length x)"
    by (induction ch n buf rule: token_loop.induct) (auto dest: token_loop_left)
  have left: "length (snd a) \<le> length b" if "advance_token k b = Reached a" for k b a
    using that by (induction k b rule: advance_token.induct) (auto split: if_splits)
  show "advance_token n buf = Refused (-2) \<longrightarrow> (\<forall>x a. advance_token n (buf @ x) = Reached a \<longrightarrow> length (snd a) \<le> length x)"
    by (induction n buf rule: advance_token.induct) (auto dest: left)
qed

lemma beyond_tokens:
  "beyond snd (parse_token ch buf) (\<lambda>x. parse_token ch (buf @ x))"
  "beyond snd (ADVANCE_TOKEN buf) (\<lambda>x. ADVANCE_TOKEN (buf @ x))"
  "beyond snd (get_token_to_eol buf) (\<lambda>x. get_token_to_eol (buf @ x))"
  unfolding parse_token_def ADVANCE_TOKEN_def get_token_to_eol_def eol_fast_slow
proof -
  show "beyond snd (scan_bind (token_loop ch 0 buf) (\<lambda>(n, r). Reached ((buf, n), r)))
      (\<lambda>x. scan_bind (token_loop ch 0 (buf @ x)) (\<lambda>(n, r). Reached ((buf @ x, n), r)))"
    by (rule beyond_bind [OF token_loop_steady beyond_simple(4)]) auto
  show "beyond snd (scan_bind (advance_token 0 buf) (\<lambda>(n, r). Reached ((buf, n), r)))
      (\<lambda>x. scan_bind (advance_token 0 (buf @ x)) (\<lambda>(n, r). Reached ((buf @ x, n), r)))"
    by (rule beyond_bind [OF advance_token_steady beyond_simple(5)]) auto
  show "beyond snd (scan_bind (eol_slow buf) (found_ctl buf)) (\<lambda>x. scan_bind (eol_slow (buf @ x)) (found_ctl (buf @ x)))"
  proof (rule beyond_bind [OF eol_slow_steady beyond_simple(3)], goal_cases)
    case (1 x a b)
    then show ?case by (cases a) (auto simp: scan_bind_Reached dest: expect_char_left split: if_splits)
  next
    case (2 a)
    show ?case
    proof (cases a)
      case (Cons c s)
      then show ?thesis
        by (cases s) (auto simp: beyond_def scan_bind_Reached dest: expect_char_left)
    qed (simp add: beyond_def)
  qed
qed

lemma left_simple:
  "parse_token ch buf = Reached (t, r) \<Longrightarrow> length r \<le> length buf"
  "ADVANCE_TOKEN buf = Reached (t, r) \<Longrightarrow> length r \<le> length buf"
  "skip_spaces buf = Reached b \<Longrightarrow> length b \<le> length buf"
  "line_end buf = Reached b \<Longrightarrow> length b < length buf"
  "parse_http_version buf = Reached (v, r) \<Longrightarrow> length r \<le> length buf"
  "skip_empty_line buf = Reached b \<Longrightarrow> length b \<le> length buf"
proof -
  show "parse_token ch buf = Reached (t, r) \<Longrightarrow> length r \<le> length buf"
    using parse_token_steady [of buf ch] by (auto simp: token_before_def dest: arg_cong [of _ _ length])
  show "ADVANCE_TOKEN buf = Reached (t, r) \<Longrightarrow> length r \<le> length buf"
    using ADVANCE_TOKEN_steady [of buf] by (auto simp: token_before_def) (metis le_add2 length_append)
  show "skip_spaces buf = Reached b \<Longrightarrow> length b \<le> length buf"
    using skip_spaces_steady [of buf] by (cases buf) auto
  show "line_end buf = Reached b \<Longrightarrow> length b < length buf"
    using line_end_steady [of buf] by (cases buf) auto
  show "parse_http_version buf = Reached (v, r) \<Longrightarrow> length r \<le> length buf"
    using http_version_steady [of buf] by auto
  show "skip_empty_line buf = Reached b \<Longrightarrow> length b \<le> length buf"
    using skip_empty_line_steady [of buf] by (auto dest: rest_of_length)
qed

lemma beyond_lines:
  "buf \<noteq> [] \<Longrightarrow> beyond id (skip_spaces buf) (\<lambda>x. skip_spaces (buf @ x))"
  "buf \<noteq> [] \<Longrightarrow> beyond id (line_end buf) (\<lambda>x. line_end (buf @ x))"
  "beyond id (skip_empty_line buf) (\<lambda>x. skip_empty_line (buf @ x))"
  "beyond snd (parse_http_version buf) (\<lambda>x. parse_http_version (buf @ x))"
proof -
  show "beyond id (skip_spaces buf) (\<lambda>x. skip_spaces (buf @ x))" if "buf \<noteq> []"
    using that
  proof (induction buf rule: skip_spaces.induct)
    case (2 c)
    have "length b \<le> length x" if "skip_spaces (c # x) = Reached b" for x b
      using that left_simple(3) [of "_ # _"] by (cases x) (auto split: if_splits)
    then show ?case by (simp add: beyond_def)
  qed (auto simp: beyond_def split: if_splits)
  show "beyond id (line_end buf) (\<lambda>x. line_end (buf @ x))" if "buf \<noteq> []"
    using that beyond_simple(1) [of 10 "tl buf"] by (cases buf) (auto simp: beyond_def)
  show "beyond id (skip_empty_line buf) (\<lambda>x. skip_empty_line (buf @ x))"
    using beyond_simple(1) [of 10 "tl buf"] left_simple(6) by (cases buf) (auto simp: beyond_def)
  show "beyond snd (parse_http_version buf) (\<lambda>x. parse_http_version (buf @ x))"
  proof (cases "length buf < 9")
    case True
    have "length (snd a) \<le> length x" if h: "parse_http_version (buf @ x) = Reached a" for x a
    proof -
      obtain r where r: "expect_text (lit ''HTTP/1.'') (buf @ x) = Reached r" "PARSE_INT 1 r = Reached a"
        using h by (auto simp: parse_http_version_def scan_bind_Reached split: if_splits)
      have l: "length (lit ''HTTP/1.'') = 7" by (simp add: lit_def)
      have "9 \<le> length (buf @ x)" using h by (auto simp: parse_http_version_def split: if_splits)
      then have st: "steady (\<lambda>r. buf @ x = lit ''HTTP/1.'' @ r) sh_rest (expect_text (lit ''HTTP/1.'') (buf @ x))
          (\<lambda>y. expect_text (lit ''HTTP/1.'') ((buf @ x) @ y))"
        by (intro expect_text_steady) (simp add: l)
      have "buf @ x = lit ''HTTP/1.'' @ r" by (rule conjunct1 [OF st [unfolded r(1) steady_simps]])
      then have "length (buf @ x) = 7 + length r" using l by (metis length_append)
      moreover have "length r = Suc (length (snd a))" using r(2) by (cases r) (auto split: if_splits)
      ultimately show ?thesis using True by simp
    qed
    then show ?thesis by (simp add: beyond_def)
  next
    case False
    have "parse_http_version buf \<noteq> Refused (-2)"
    proof -
      have "expect_text t b \<noteq> Refused (-2)" for t b by (induction t b rule: expect_text.induct) auto
      moreover have "PARSE_INT 1 b \<noteq> Refused (-2)" for b by (cases b) auto
      ultimately show ?thesis using False by (cases "expect_text (lit ''HTTP/1.'') buf") (auto simp: parse_http_version_def)
    qed
    then show ?thesis by (simp add: beyond_def)
  qed
qed

text \<open>Headers and requests end with a line feed, so with more input they get further than the buffer went.\<close>

lemma after_colon_beyond:
  assumes "buf \<noteq> []"
  shows "beyond snd (after_colon name buf) (\<lambda>x. after_colon (sh_token x name) (buf @ x))"
proof -
  obtain c b where b: "buf = c # b" using assms by (cases buf) auto
  have "beyond snd (scan_bind (skip_blanks b) (\<lambda>r. Reached (Some name, r)))
      (\<lambda>x. scan_bind (skip_blanks (b @ x)) (\<lambda>r. Reached (Some (sh_token x name), r)))"
    by (rule beyond_bind [OF skip_blanks_steady beyond_simple(2)]) auto
  then show ?thesis by (simp add: b)
qed

lemma header_name_beyond:
  assumes "buf \<noteq> []"
  shows "beyond snd (header_name first buf) (\<lambda>x. header_name first (buf @ x))"
proof -
  obtain c b where b: "buf = c # b" using assms by (cases buf) auto
  let ?g = "\<lambda>(name, buf). if snd name = 0 then Refused (-1) else after_colon name buf"
  have "beyond snd (scan_bind (parse_token 58 buf) ?g) (\<lambda>x. scan_bind (parse_token 58 (buf @ x)) ?g)"
  proof (rule beyond_bind [OF parse_token_steady beyond_tokens(1)], goal_cases)
    case (1 x a b)
    then show ?case using after_colon_left by (cases a; cases b) (auto split: if_splits)
  next
    case (2 a)
    obtain t r where a: "a = (t, r)" by (cases a)
    have "r \<noteq> []" using 2(2) by (simp add: a token_before_def)
    from after_colon_beyond [OF this, of t] show ?case by (simp add: a beyond_def)
  qed
  then show ?thesis by (simp add: header_name_def b)
qed

lemma header_line_beyond:
  assumes "buf \<noteq> []"
  shows "beyond snd (header_line first buf) (\<lambda>x. header_line first (buf @ x))"
  unfolding header_line_def
proof (rule beyond_bind [OF header_name_steady [OF assms] header_name_beyond [OF assms]], goal_cases)
  case (1 x a b)
  then show ?case by (cases a) (auto simp: scan_bind_Reached dest: token_to_eol_left)
next
  case (2 a)
  obtain n r where a: "a = (n, r)" by (cases a)
  let ?g = "\<lambda>n ((v, len), buf). Reached (\<lparr>ph_name = n, ph_value = (v, trimmed v len)\<rparr>, buf)"
  have "beyond snd (scan_bind (get_token_to_eol r) (?g n)) (\<lambda>x. scan_bind (get_token_to_eol (r @ x)) (?g (map_option (sh_token x) n)))"
    by (rule beyond_bind [OF token_to_eol_steady beyond_tokens(3)]) (auto simp: beyond_def)
  then show ?case by (simp add: a)
qed

lemma parse_headers_left: "parse_headers mh hs buf = Reached (hs', r) \<Longrightarrow> length r < length buf"
proof (induction mh hs buf rule: parse_headers.induct)
  case (1 mh hs buf)
  show ?case
  proof (cases buf)
    case (Cons c b)
    note h = "1.prems" [unfolded Cons parse_headers.simps [of mh hs "c # b"]]
    consider "c = 13" | "c = 10" "c \<noteq> 13" | "c \<noteq> 13" "c \<noteq> 10" "length hs \<noteq> mh" using h by fastforce
    then show ?thesis
    proof cases
      case 3
      then obtain x y where "header_line (hs = []) buf = Reached (x, y)" "parse_headers mh (hs @ [x]) y = Reached (hs', r)"
        using h Cons by (auto split: scan.splits)
      then show ?thesis using "1.IH" [OF Cons 3(1,2,3)] header_line_left by fastforce
    qed (use h Cons in \<open>auto simp: scan_bind_Reached dest: expect_char_left\<close>)
  qed (use "1.prems" in \<open>simp add: parse_headers.simps [of mh hs "[]"]\<close>)
qed

definition past :: "('a \<Rightarrow> bytes) \<Rightarrow> 'a scan \<Rightarrow> (bytes \<Rightarrow> 'a scan) \<Rightarrow> bool" where
  "past left m mx \<longleftrightarrow> (m = Refused (-2) \<longrightarrow> (\<forall>x a. mx x = Reached a \<longrightarrow> length (left a) < length x))"

lemma parse_headers_past:
  "past snd (parse_headers mh hs buf) (\<lambda>x. parse_headers mh (map (sh_header x) hs) (buf @ x))"
proof (induction mh hs buf rule: parse_headers.induct)
  case (1 mh hs buf)
  show ?case
  proof (cases buf)
    case Nil
    then show ?thesis using parse_headers_left [of mh] by (auto simp: past_def)
  next
    case (Cons c b)
    note eq = parse_headers.simps [of mh _ "d # bs" for d bs]
    consider "c = 13" | "c = 10 \<or> length hs = mh" "c \<noteq> 13" | "c \<noteq> 13" "c \<noteq> 10" "length hs \<noteq> mh" by blast
    then show ?thesis
    proof cases
      case 1
      then show ?thesis using Cons by (cases b) (auto simp: past_def eq scan_bind_Reached dest: expect_char_left split: if_splits)
    next
      case 2
      then show ?thesis using Cons by (auto simp: past_def eq)
    next
      case 3
      note s = header_line_steady [of buf "hs = []"] header_line_beyond [of buf "hs = []"]
      show ?thesis
      proof (cases "header_line (hs = []) buf")
        case (Reached hr)
        obtain h r where hr: "hr = (h, r)" by (cases hr)
        have "header_line (hs = []) (buf @ x) = Reached (sh_header x h, r @ x)" for x
          using s(1) Reached hr Cons by simp
        moreover have "past snd (parse_headers mh (hs @ [h]) r) (\<lambda>x. parse_headers mh (map (sh_header x) (hs @ [h])) (r @ x))"
          by (rule "1.IH") (use Cons 3 Reached hr in auto)
        ultimately show ?thesis using Cons 3 Reached hr by (simp add: past_def eq)
      next
        case (Refused e)
        have "length r < length x" if p: "parse_headers mh (map (sh_header x) hs) (buf @ x) = Reached (hs', r)" "e = -2" for x hs' r
        proof -
          obtain h b2 where h: "header_line (hs = []) (buf @ x) = Reached (h, b2)"
            "parse_headers mh (map (sh_header x) hs @ [h]) b2 = Reached (hs', r)"
            using p(1) Cons 3 by (auto simp: eq split: scan.splits)
          have "length b2 \<le> length x" using s(2) Refused \<open>e = -2\<close> h(1) Cons by (auto simp: beyond_def)
          then show ?thesis using parse_headers_left [OF h(2)] by simp
        qed
        then show ?thesis using Cons 3 Refused by (auto simp: past_def eq)
      qed (use s(1) Cons in simp)
    qed
  qed
qed

lemma after_Reached: "snd (after m q f) = Reached r \<longleftrightarrow> (\<exists>a. m = Reached a \<and> snd (f a) = Reached r)"
  by (cases m) auto

lemma after_Refused: "snd (after m q f) = Refused e \<longleftrightarrow> m = Refused e \<or> (\<exists>a. m = Reached a \<and> snd (f a) = Refused e)"
  by (cases m) auto

lemma past_after:
  assumes "steady P sh m mx" "beyond left m mx"
    "\<And>x a r. snd (fx x a) = Reached r \<Longrightarrow> length r < length (left a)"
    "\<And>a. m = Reached a \<Longrightarrow> P a \<Longrightarrow> past id (snd (f a)) (\<lambda>x. snd (fx x (sh x a)))"
  shows "past id (snd (after m q f)) (\<lambda>x. snd (after (mx x) (qx x) (fx x)))"
proof (cases m)
  case (Refused e)
  then show ?thesis
    using assms(1-3) by (fastforce simp: past_def beyond_def after_Reached intro: order_less_le_trans)
qed (use assms in \<open>auto simp: past_def\<close>)

lemmas request_left = left_simple parse_headers_left after_Reached

lemma request_tail_past: "past id (snd (request_tail mh q b)) (\<lambda>x. snd (request_tail mh (q' x) (b @ x)))"
proof (rule past_after [OF http_version_steady beyond_lines(4)], goal_cases)
  case (2 vr)
  obtain v b1 where vr: "vr = (v, b1)" by (cases vr)
  have ne: "b1 \<noteq> []" using 2(2) by (simp add: vr)
  show ?case unfolding vr prod.case fst_conv snd_conv
  proof (rule past_after [OF line_end_steady [OF ne] beyond_lines(2) [OF ne]], goal_cases)
    case (2 b2)
    show ?case using parse_headers_past [of mh "[]" b2]
      by (auto simp: past_def after_Reached after_Refused)
  qed (auto dest!: request_left(7) simp: after_Reached)
qed (force dest!: request_left(4,7) simp: after_Reached)

lemma http_parse_request_past: "past id (snd (http_parse_request mh buf)) (\<lambda>x. snd (http_parse_request mh (buf @ x)))"
  unfolding http_parse_request_def Let_def
proof (rule past_after [OF skip_empty_line_steady beyond_lines(3)], goal_cases)
  case (2 b1)
  show ?case
  proof (rule past_after [OF parse_token_steady beyond_tokens(1)], goal_cases)
    case (2 tr2)
    obtain t b2 where tr2: "tr2 = (t, b2)" by (cases tr2)
    have ne2: "b2 \<noteq> []" using 2(2) by (simp add: tr2 token_before_def)
    show ?case unfolding tr2 prod.case fst_conv snd_conv
    proof (rule past_after [OF skip_spaces_steady [OF ne2] beyond_lines(1) [OF ne2]], goal_cases)
      case (2 b3)
      show ?case
      proof (rule past_after [OF ADVANCE_TOKEN_steady beyond_tokens(2)], goal_cases)
        case (2 tr4)
        obtain p b4 where tr4: "tr4 = (p, b4)" by (cases tr4)
        have ne4: "b4 \<noteq> []" using 2(2) by (simp add: tr4 token_before_def)
        show ?case unfolding tr4 prod.case fst_conv snd_conv
        proof (rule past_after [OF skip_spaces_steady [OF ne4] beyond_lines(1) [OF ne4]], goal_cases)
          case (2 b5)
          show ?case using request_tail_past by (simp add: past_def)
        qed (force dest!: request_left(4,5,7) simp: after_Reached split: if_splits)
      qed (force dest!: request_left(3,4,5,7) simp: after_Reached split: if_splits)
    qed (force dest!: request_left(2,3,4,5,7) simp: after_Reached split: if_splits)
  qed (force dest!: request_left(2,3,4,5,7) simp: after_Reached split: if_splits)
qed (force dest!: request_left(1,2,3,4,5,7) simp: after_Reached split: if_splits)

section \<open>Zeros behind the request\<close>

definition tailed :: "bytes \<Rightarrow> bytes \<Rightarrow> bool" where
  "tailed z buf \<longleftrightarrow> (\<exists>s. buf = s @ replicate 9 0 @ z)"

definition stops :: "bytes \<Rightarrow> ('a \<Rightarrow> bytes) \<Rightarrow> 'a scan \<Rightarrow> bool" where
  "stops z left m \<longleftrightarrow> (case m of Overrun \<Rightarrow> False | Refused r \<Rightarrow> r = -1 | Reached a \<Rightarrow> tailed z (left a))"

lemma stops_simps [simp]:
  "stops z left (Reached a) \<longleftrightarrow> tailed z (left a)" "stops z left (Refused r) \<longleftrightarrow> r = -1" "\<not> stops z left Overrun"
  by (simp_all add: stops_def)

lemma stops_bind:
  "stops z left m \<Longrightarrow> (\<And>a. m = Reached a \<Longrightarrow> tailed z (left a) \<Longrightarrow> stops z left' (g a)) \<Longrightarrow> stops z left' (scan_bind m g)"
  by (cases m) auto

lemma tailed_length: "tailed z buf \<Longrightarrow> 9 \<le> length buf"
  by (auto simp: tailed_def)

lemma tailed_not_Nil [simp]: "\<not> tailed z []"
  by (simp add: tailed_def)

lemma tailed_tl: "tailed z (c # buf) \<Longrightarrow> c \<noteq> 0 \<Longrightarrow> tailed z buf"
  by (auto simp: tailed_def Cons_eq_append_conv numeral_eq_Suc)

lemma not_token_0: "\<not> token_char 0"
  by (simp add: token_char_def token_char_map_def)

lemma EXPECT_CHAR_stops: "tailed z buf \<Longrightarrow> ch \<noteq> 0 \<Longrightarrow> stops z id (EXPECT_CHAR ch buf)"
  by (cases buf) (auto dest: tailed_tl)

lemma token_loop_stops: "tailed z buf \<Longrightarrow> ch \<noteq> 0 \<Longrightarrow> stops z snd (token_loop ch n buf)"
proof (induction ch n buf rule: token_loop.induct)
  case (2 ch n c buf)
  then show ?case using not_token_0 by (cases "c = 0") (auto dest: tailed_tl)
qed simp

lemma zero_control: "\<not> IS_PRINTABLE_ASCII 0" "is_ctl 0" "\<not> is_blank 0"
  by (simp_all add: is_ctl_def ctl_not_printable is_blank_def)

lemma advance_token_stops: "tailed z buf \<Longrightarrow> stops z snd (advance_token n buf)"
proof (induction n buf rule: advance_token.induct)
  case (2 n c buf)
  then show ?case using zero_control by (cases "c = 0") (auto dest: tailed_tl)
qed simp

lemma skip_spaces_stops: "tailed z buf \<Longrightarrow> hd buf \<noteq> 0 \<Longrightarrow> stops z id (skip_spaces buf)"
  by (induction buf rule: skip_spaces.induct) (auto dest: tailed_tl)

lemma skip_blanks_stops: "tailed z buf \<Longrightarrow> stops z id (skip_blanks buf)"
proof (induction buf)
  case (Cons c buf)
  then show ?case using zero_control by (cases "c = 0") (auto dest: tailed_tl)
qed simp

lemma eol_slow_stops: "tailed z buf \<Longrightarrow> stops z id (eol_slow buf)"
proof (induction buf)
  case (Cons c buf)
  then show ?case using zero_control by (cases "c = 0") (auto dest: tailed_tl)
qed simp

lemma found_ctl_stops: "tailed z buf \<Longrightarrow> stops z snd (found_ctl start buf)"
proof (cases buf)
  case (Cons c b)
  assume t: "tailed z buf"
  then show ?thesis
  proof (cases "c = 13")
    case True
    then have "stops z id (EXPECT_CHAR 10 b)" using t Cons EXPECT_CHAR_stops tailed_tl by simp
    then show ?thesis using True Cons by (auto intro: stops_bind)
  qed (use t Cons in \<open>auto dest: tailed_tl\<close>)
qed simp

lemma line_end_stops: "tailed z buf \<Longrightarrow> stops z id (line_end buf)"
  by (cases buf) (auto intro!: EXPECT_CHAR_stops dest: tailed_tl)

lemma skip_empty_line_stops: "tailed z buf \<Longrightarrow> stops z id (skip_empty_line buf)"
  by (cases buf) (auto intro!: EXPECT_CHAR_stops dest: tailed_tl)

lemma http_version_stops:
  assumes "tailed z buf"
  shows "stops z snd (parse_http_version buf)"
proof -
  have e: "stops z id (expect_text t b)" if "tailed z b" "0 \<notin> set t" for t b
    using that by (induction t b rule: expect_text.induct) (auto dest: tailed_tl)
  have p: "stops z snd (PARSE_INT 1 b)" if "tailed z b" for b
    using that by (cases b) (auto dest: tailed_tl)
  have "0 \<notin> set (lit ''HTTP/1.'')" by (simp add: lit_def)
  then have "stops z snd (scan_bind (expect_text (lit ''HTTP/1.'') buf) (PARSE_INT 1))"
    by (intro stops_bind [OF e [OF assms]]) (simp_all add: p)
  then show ?thesis using tailed_length [OF assms] by (simp add: parse_http_version_def)
qed

lemma tokens_stop:
  "tailed z buf \<Longrightarrow> ch \<noteq> 0 \<Longrightarrow> stops z snd (parse_token ch buf)" "tailed z buf \<Longrightarrow> stops z snd (ADVANCE_TOKEN buf)"
  "tailed z buf \<Longrightarrow> stops z snd (get_token_to_eol buf)"
proof -
  show "tailed z buf \<Longrightarrow> ch \<noteq> 0 \<Longrightarrow> stops z snd (parse_token ch buf)"
    unfolding parse_token_def by (rule stops_bind [OF token_loop_stops]) auto
  show "tailed z buf \<Longrightarrow> stops z snd (ADVANCE_TOKEN buf)"
    unfolding ADVANCE_TOKEN_def by (rule stops_bind [OF advance_token_stops]) auto
  show "tailed z buf \<Longrightarrow> stops z snd (get_token_to_eol buf)"
    unfolding get_token_to_eol_def eol_fast_slow by (rule stops_bind [OF eol_slow_stops]) (simp_all add: found_ctl_stops)
qed

lemma header_line_stops:
  assumes "tailed z buf"
  shows "stops z snd (header_line first buf)"
proof -
  have colon: "stops z snd (after_colon name b)" if "tailed z b" "hd b = 58" for name b
    using that by (cases b) (auto intro!: stops_bind [OF skip_blanks_stops] dest: tailed_tl)
  have name: "stops z snd (header_name first buf)"
  proof -
    have "stops z snd (scan_bind (parse_token 58 buf) (\<lambda>(name, buf). if snd name = 0 then Refused (-1) else after_colon name buf))"
    proof (rule stops_bind [OF tokens_stop(1) [OF assms]])
      fix a assume a: "parse_token 58 buf = Reached a" "tailed z (snd a)"
      then have "hd (snd a) = 58" using parse_token_steady [of buf 58] by simp
      with a(2) show "stops z snd (case a of (name, buf) \<Rightarrow> if snd name = 0 then Refused (-1) else after_colon name buf)"
        by (cases a) (auto intro: colon)
    qed simp
    then show ?thesis using assms by (cases buf) (simp_all add: header_name_def)
  qed
  show ?thesis unfolding header_line_def
    by (rule stops_bind [OF name]) (auto intro!: stops_bind [OF tokens_stop(3)])
qed

lemma parse_headers_stops: "tailed z buf \<Longrightarrow> stops z snd (parse_headers mh hs buf)"
proof (induction mh hs buf rule: parse_headers.induct)
  case (1 mh hs buf)
  show ?case
  proof (cases buf)
    case (Cons c b)
    have e: "stops z snd (scan_bind (EXPECT_CHAR 10 b) (\<lambda>r. Reached (hs, r)))" if "c = 13"
      by (rule stops_bind [OF EXPECT_CHAR_stops]) (use that "1.prems" Cons in \<open>auto dest: tailed_tl\<close>)
    note l = header_line_stops [OF "1.prems", of "hs = []"]
    show ?thesis
    proof (cases "header_line (hs = []) buf")
      case (Reached hr)
      then show ?thesis using "1.IH" [OF Cons _ _ _ Reached] e l "1.prems" Cons
        by (cases hr) (auto simp: parse_headers.simps [of mh hs "c # b"] dest: tailed_tl)
    qed (use e l "1.prems" Cons in \<open>auto simp: parse_headers.simps [of mh hs "c # b"] dest: tailed_tl\<close>)
  qed (use "1.prems" in simp)
qed

lemma stops_after:
  "stops z left m \<Longrightarrow> (\<And>a. m = Reached a \<Longrightarrow> tailed z (left a) \<Longrightarrow> stops z id (snd (f a))) \<Longrightarrow> stops z id (snd (after m q f))"
  by (cases m) auto

lemma request_tail_stops: "tailed z b \<Longrightarrow> stops z id (snd (request_tail mh q b))"
  by (rule stops_after [OF http_version_stops], assumption)
    (auto intro!: stops_after [OF line_end_stops] stops_after [OF parse_headers_stops])

lemma http_parse_request_stops:
  assumes "tailed z buf"
  shows "stops z id (snd (http_parse_request mh buf))"
  unfolding http_parse_request_def Let_def
proof (rule stops_after [OF skip_empty_line_stops [OF assms]], goal_cases)
  case (1 b1)
  then have t1: "tailed z b1" by simp
  show ?case
  proof (rule stops_after [OF tokens_stop(1) [OF t1]], goal_cases)
    case (2 tr2)
    obtain t b2 where tr2: "tr2 = (t, b2)" by (cases tr2)
    have b2: "tailed z b2" "hd b2 \<noteq> 0" using 2 parse_token_steady [of b1 32] by (simp_all add: tr2)
    show ?case unfolding tr2 prod.case fst_conv snd_conv
    proof (rule stops_after [OF skip_spaces_stops [OF b2]], goal_cases)
      case (1 b3)
      then have t3: "tailed z b3" by simp
      show ?case
      proof (rule stops_after [OF tokens_stop(2) [OF t3]], goal_cases)
        case (1 tr4)
        obtain p b4 where tr4: "tr4 = (p, b4)" by (cases tr4)
        have b4: "tailed z b4" "hd b4 \<noteq> 0" using 1 ADVANCE_TOKEN_steady [of b3] by (simp_all add: tr4)
        show ?case unfolding tr4 prod.case fst_conv snd_conv
          by (rule stops_after [OF skip_spaces_stops [OF b4]])
            (use request_tail_stops in \<open>auto split: if_splits\<close>)
      qed
    qed
  qed simp
qed

section \<open>A head that is cut\<close>

lemma cut_incomplete:
  assumes "request_ok meth path d hs" "length hs \<le> mh" "request_text meth path d hs = p @ s" "s \<noteq> []"
  shows "snd (http_parse_request mh p) = Refused (-2)"
proof -
  obtain q where q: "http_parse_request mh (p @ s) = (q, Reached [])"
    using http_parse_request_forward [OF assms(1,2), of "[]"] assms(3) by auto
  note st = http_parse_request_steady [of p mh, unfolded steady_request_def]
  show ?thesis
  proof (cases "snd (http_parse_request mh p)")
    case (Reached r)
    then have "snd (http_parse_request mh (p @ s)) = Reached (r @ s)" using st by simp
    then show ?thesis using q assms(4) by simp
  next
    case (Refused e)
    then have "e = -2 \<or> snd (http_parse_request mh (p @ s)) = Refused (-1)" using st by auto
    then show ?thesis using q Refused by auto
  qed (use st in simp)
qed

theorem cut_request_refused:
  assumes "request_ok meth path d hs" "length hs \<le> mh" "request_text meth path d hs = p @ s" "s \<noteq> []"
  shows "\<exists>q. phr_parse_request (p @ replicate 9 0 @ z) mh 0 = Inr (-1, q)"
proof -
  let ?x = "replicate 9 0 @ z"
  have "tailed z (p @ ?x)" by (auto simp: tailed_def)
  from http_parse_request_stops [OF this, of mh]
  have "snd (http_parse_request mh (p @ ?x)) = Refused (-1)"
  proof (cases "snd (http_parse_request mh (p @ ?x))")
    case (Reached r)
    then have "length (id r) < length ?x"
      using http_parse_request_past [of mh p] cut_incomplete [OF assms] unfolding past_def by blast
    moreover have "tailed z r" using http_parse_request_stops [of z "p @ ?x" mh] Reached by (auto simp: tailed_def)
    ultimately show ?thesis by (auto simp: tailed_def)
  qed auto
  then show ?thesis
    by (cases "http_parse_request mh (p @ ?x)") (simp add: phr_parse_request_def)
qed

end
