(* ===== verification/Http_Properties.thy ===== *)
theory Http_Properties
  imports Http_Server Http_Cut
begin

text \<open>
  The properties of the way from the bytes of a connection to the request they make: the parser alone, and the
  parser in the reading loop of the dispatch server.
\<close>

section \<open>The parser\<close>

text \<open>
  C9. The parser never reads behind the buffer, whatever is in it and wherever the bytes before ended. It returns
  -1, -2 or the number of bytes it has consumed; method, path and headers it has set lie in the buffer. Unless
  it asks for more with -2, nothing that follows in the buffer changes its answer or what it has set.
\<close>

theorem parser_stays_inside:
  assumes "ll \<le> length buf" "length buf < 2 ^ 31"
  shows "\<exists>code q. phr_parse_request buf mh ll = Inr (code, q) \<and> request_inside buf q
    \<and> (code = -1 \<or> code = -2 \<or> (0 < code \<and> code \<le> int (length buf) \<and> rq_method q \<noteq> None \<and> rq_path q \<noteq> None
        \<and> 0 \<le> rq_minor q \<and> length (rq_headers q) \<le> mh))
    \<and> (code \<noteq> -2 \<longrightarrow> (\<forall>x. \<exists>q'. phr_parse_request (buf @ x) mh ll = Inr (code, q')
        \<and> map_option token_text (rq_method q') = map_option token_text (rq_method q)
        \<and> map_option token_text (rq_path q') = map_option token_text (rq_path q) \<and> rq_minor q' = rq_minor q))"
proof -
  obtain code q where q: "phr_parse_request buf mh ll = Inr (code, q)" "request_inside buf q"
    "code = -1 \<or> code = -2 \<or> (0 < code \<and> code \<le> int (length buf) \<and> rq_method q \<noteq> None \<and> rq_path q \<noteq> None
      \<and> 0 \<le> rq_minor q \<and> length (rq_headers q) \<le> mh)"
    "code \<noteq> -2 \<longrightarrow> (\<forall>x. phr_parse_request (buf @ x) mh ll = Inr (code, sh_request x q))"
    by (rule phr_steady [OF assms])
  have "token_text (p @ x, n) = token_text (p, n)" if "inside buf (p, n)" for p x n
    using that by (simp add: inside_def token_text_def)
  then have same: "map_option token_text (map_option (sh_token x) (rq_method q)) = map_option token_text (rq_method q)"
    "map_option token_text (map_option (sh_token x) (rq_path q)) = map_option token_text (rq_path q)" for x
    using q(2) unfolding request_inside_def by (cases "rq_method q"; cases "rq_path q"; auto)+
  show ?thesis
    using q(1-3) by (intro exI [of _ code] exI [of _ q]) (auto simp: q(4) same)
qed

theorem parser_stays_inside_witness:
  "\<exists>q. phr_parse_request (lit ''GET / HTTP/1.1'' @ [10, 10, 33]) 128 3 = Inr (16, q) \<and> request_inside (lit ''GET / HTTP/1.1'' @ [10, 10, 33]) q"
proof -
  let ?b = "lit ''GET / HTTP/1.1'' @ [10, 10, 33]"
  have "3 \<le> length ?b" "length ?b < 2 ^ 31" by (simp_all add: lit_def)
  from parser_stays_inside [OF this, of 128] obtain code q where q: "phr_parse_request ?b 128 3 = Inr (code, q)" "request_inside ?b q"
    by blast
  moreover have "fst (projr (phr_parse_request ?b 128 3)) = 16" by code_simp
  ultimately show ?thesis by auto
qed

section \<open>The reading loop\<close>

lemma put_bytes_length: "n + length b \<le> length buf \<Longrightarrow> length (put_bytes n b buf) = length buf"
  by (simp add: put_bytes_def)

text \<open>What the loop leaves for any sequence of received pieces.\<close>

definition reading_ok :: "nat \<Rightarrow> reading \<Rightarrow> bool" where
  "reading_ok n r =
     (case r of
        Waiting \<Rightarrow> True
      | Gone \<Rightarrow> True
      | Answer s q buf \<Rightarrow> s = 413 \<and> length buf = buf_len \<and> request_inside buf q
      | Parsed code q len buf \<Rightarrow> n < len \<and> len \<le> buf_len \<and> length buf = buf_len \<and> request_inside buf q
          \<and> (code = -1 \<or> (0 < code \<and> code \<le> int buf_len \<and> rq_method q \<noteq> None \<and> rq_path q \<noteq> None)))"

lemma reading_ok_mono: "reading_ok n r \<Longrightarrow> m \<le> n \<Longrightarrow> reading_ok m r"
  by (auto simp: reading_ok_def split: reading.splits)

lemma read_request_ok:
  assumes "length buf = buf_len" "n < buf_len"
  shows "\<exists>r. read_request es n buf = Inr r \<and> reading_ok n r"
  using assms
proof (induction es n buf rule: read_request.induct)
  case (4 b es n buf)
  let ?b = "take (buf_len - n) b"
  let ?buf = "put_bytes n ?b buf"
  have l: "length ?buf = buf_len" "n + length ?b \<le> buf_len" "n \<le> length ?buf" "length ?buf < 2 ^ 31"
    using 4(2,3) by (simp_all add: put_bytes_length buf_len_def)
  obtain code q where q: "phr_parse_request ?buf hdr_cnt n = Inr (code, q)" "request_inside ?buf q"
    "code = -1 \<or> code = -2 \<or> (0 < code \<and> code \<le> int (length ?buf) \<and> rq_method q \<noteq> None \<and> rq_path q \<noteq> None
      \<and> 0 \<le> rq_minor q \<and> length (rq_headers q) \<le> hdr_cnt)"
    "code \<noteq> -2 \<longrightarrow> (\<forall>x. phr_parse_request (?buf @ x) hdr_cnt n = Inr (code, sh_request x q))"
    by (rule phr_steady [OF l(3,4)])
  have step: "read_request (Bytes b # es) n buf =
      (if ?b = [] then Inr Gone
       else if -1 \<le> code then Inr (Parsed code q (n + length ?b) ?buf)
       else if code < -2 then Inr (Answer 500 q ?buf)
       else if buf_len \<le> n + length ?b then Inr (Answer 413 q ?buf)
       else read_request es (n + length ?b) ?buf)"
    by (simp only: read_request.simps Let_def q(1) sum.case prod.case)
  consider "?b = []" | "?b \<noteq> []" "-1 \<le> code" | "?b \<noteq> []" "code = -2" "buf_len \<le> n + length ?b"
    | "?b \<noteq> []" "code = -2" "n + length ?b < buf_len"
  proof -
    have "-1 \<le> code \<or> code = -2" using q(3) by auto
    then show thesis using that by (meson not_le)
  qed
  then show ?case
  proof cases
    case 1
    then show ?thesis by (simp only: step if_True) (simp add: reading_ok_def)
  next
    case 2
    have "n < n + length ?b" using 2(1) by (metis length_greater_0_conv less_add_same_cancel1)
    moreover have "code \<noteq> -2" using 2(2) by simp
    ultimately have "reading_ok n (Parsed code q (n + length ?b) ?buf)"
      unfolding reading_ok_def reading.case using l(1,2) q(2,3) by (simp only: l(1)) blast
    then show ?thesis unfolding step by (simp only: 2 if_False if_True) blast
  next
    case 3
    then show ?thesis unfolding step using l(1) q(2) by (simp add: reading_ok_def)
  next
    case more: 4
    have "\<exists>r. read_request es (n + length ?b) ?buf = Inr r \<and> reading_ok (n + length ?b) r"
      by (rule "4.IH" [OF refl refl refl more(1) q(1) refl]) (use more l in simp_all)
    then show ?thesis using step more reading_ok_mono [of "n + length ?b" _ n] by auto
  qed
qed (simp_all add: reading_ok_def)

text \<open>
  C25. Reading a request stays inside the buffer of 16 KiB however the bytes arrive, and ends with a
  parsed request, a bad request or one that is too large. Accepting what was read is then safe exactly when
  the request does not fill the buffer: the 0 behind a request of exactly 16 KiB is written past the end.
\<close>

theorem request_reading:
  assumes "length buf = buf_len"
  shows "\<exists>r. read_request es 0 buf = Inr r \<and> reading_ok 0 r
    \<and> (accept_request r = Inl x \<longleftrightarrow> x = Out_of_bounds \<and> (\<exists>code q buf'. r = Parsed code q buf_len buf' \<and> 0 < code))"
proof -
  obtain r where r: "read_request es 0 buf = Inr r" "reading_ok 0 r"
    using read_request_ok [OF assms, of 0 es] by (auto simp: buf_len_def)
  then show ?thesis
    by (cases r) (auto simp: reading_ok_def accept_request_def Let_def)
qed

text \<open>The first piece of a connection, when it fits.\<close>

lemma first_piece:
  assumes "length buf = buf_len" "b \<noteq> []" "length b \<le> buf_len"
    "phr_parse_request (b @ drop (length b) buf) hdr_cnt 0 = Inr (code, q)" "-1 \<le> code"
  shows "read_request (Bytes b # es) 0 buf = Inr (Parsed code q (length b) (b @ drop (length b) buf))"
  using assms by (simp add: put_bytes_def Let_def)

text \<open>The text of a request at the front of the buffer is parsed as that request, whatever follows.\<close>

lemma head_parsed:
  assumes "request_ok meth path d hs" "length hs \<le> hdr_cnt" "length (request_text meth path d hs @ r) = buf_len"
  shows "\<exists>q. phr_parse_request (request_text meth path d hs @ r) hdr_cnt 0 = Inr (int (length (request_text meth path d hs)), q)
    \<and> request_read meth path d hs (request_text meth path d hs @ r) q"
proof -
  define t where "t = request_text meth path d hs"
  obtain q where q: "http_parse_request hdr_cnt (t @ r) = (q, Reached r)" "request_read meth path d hs (t @ r) q"
    using http_parse_request_forward [OF assms(1,2)] unfolding t_def by blast
  have "0 < length t" by (simp add: t_def request_text_def)
  then have "length r < length (t @ r)" by (simp only: length_append less_add_same_cancel2)
  moreover have "length (t @ r) < 2 ^ 31" using assms(3) by (simp add: t_def buf_len_def)
  ultimately have "consumed (t @ r) r = int (length (t @ r) - length r)"
    by (intro consumed_exact) (simp only: rest_of_def, blast)
  then show ?thesis using q unfolding t_def by (auto simp: phr_parse_request_def)
qed

lemma whole_request:
  assumes "request_ok meth path d hs" "length hs \<le> hdr_cnt" "length (request_text meth path d hs @ body) \<le> buf_len"
    "length buf = buf_len"
  defines "t \<equiv> request_text meth path d hs"
  shows "\<exists>q. read_request (Bytes (t @ body) # es) 0 buf
      = Inr (Parsed (int (length t)) q (length (t @ body)) (t @ body @ drop (length (t @ body)) buf))
    \<and> request_read meth path d hs (t @ body @ drop (length (t @ body)) buf) q"
proof -
  have t: "0 < length t" by (simp add: t_def request_text_def)
  obtain q where q: "phr_parse_request ((t @ body) @ drop (length (t @ body)) buf) hdr_cnt 0 = Inr (int (length t), q)"
    "request_read meth path d hs (t @ body @ drop (length (t @ body)) buf) q"
    using head_parsed [OF assms(1,2), of "body @ drop (length (t @ body)) buf"] assms(3,4) by (auto simp: t_def)
  from first_piece [OF assms(4) _ _ q(1)] show ?thesis
    using q(2) assms(3) t by (auto simp: t_def)
qed

text \<open>A request of exactly the size of the buffer.\<close>

theorem request_reading_witness:
  "\<exists>r. read_request [Failed, Bytes (request_text (lit ''GET'') (lit ''/'') 1 [(lit ''a'', replicate 16361 98)])] 0 (replicate buf_len 0)
      = Inr r \<and> accept_request r = Inl Out_of_bounds"
proof -
  let ?v = "replicate 16361 98 :: bytes"
  let ?t = "request_text (lit ''GET'') (lit ''/'') 1 [(lit ''a'', ?v)]"
  have ok: "request_ok (lit ''GET'') (lit ''/'') 1 [(lit ''a'', ?v)]"
    by (simp add: request_ok_def lit_def path_char_def token_char_def token_char_map_def value_text_def is_ctl_def
        is_blank_def list_all_iff)
  have l: "length ?t = buf_len"
    by (simp add: request_text_def request_line_def header_text_def http_line_def lit_def buf_len_def)
  have b: "length (replicate buf_len 0 :: bytes) = buf_len" by simp
  have "length [(lit ''a'', ?v)] \<le> hdr_cnt" "length (?t @ []) \<le> buf_len" using l by (simp_all add: hdr_cnt_def)
  from whole_request [OF ok this b, of "[]"] obtain q where "read_request [Bytes (?t @ [])] 0 (replicate buf_len 0)
      = Inr (Parsed (int (length ?t)) q (length (?t @ [])) (?t @ [] @ drop (length (?t @ [])) (replicate buf_len 0)))"
    by blast
  then have "read_request [Failed, Bytes ?t] 0 (replicate buf_len 0) = Inr (Parsed (int buf_len) q buf_len ?t)"
    unfolding read_request.simps(3) by (simp only: append_Nil2 l append_Nil drop_replicate) simp
  moreover obtain r where "read_request [Failed, Bytes ?t] 0 (replicate buf_len 0) = Inr r"
    "accept_request r = Inl Out_of_bounds \<longleftrightarrow> (\<exists>code q buf'. r = Parsed code q buf_len buf' \<and> 0 < code)"
    using request_reading [OF b, of "[Failed, Bytes ?t]" Out_of_bounds] by auto
  ultimately show ?thesis by (auto simp: buf_len_def)
qed

text \<open>
  C10. A request that arrives in one piece is read as it was written, whatever is left in the buffer behind it:
  method, path, version and headers are those of the text, and the answer is chosen by method and path; a POST
  hands on what follows the head, up to the 0 the server puts behind it. Room for one more byte is needed.
\<close>

theorem request_served:
  assumes "request_ok meth path d hs" "length hs \<le> 128" "length (request_text meth path d hs @ body) < buf_len"
    "length buf = buf_len"
  defines "t \<equiv> request_text meth path d hs"
  shows "\<exists>q n buf' junk. read_request (Bytes (t @ body) # es) 0 buf = Inr (Parsed (int (length t)) q n buf')
    \<and> request_read meth path d hs buf' q
    \<and> (let now = t @ body @ 0 # junk
       in accept_request (Parsed (int (length t)) q n buf')
         = Inr (Some \<lparr>tk_status = http_status now (drop (length meth + 1) now), tk_meth = Some now, tk_minor = int d,
             tk_body = (if is_method now ''POST'' then Some (body @ 0 # junk) else None)\<rparr>))"
proof -
  define l where "l = length (t @ body)"
  define b where "b = t @ body @ drop l buf"
  obtain q where q: "read_request (Bytes (t @ body) # es) 0 buf = Inr (Parsed (int (length t)) q l b)"
    "request_read meth path d hs b q"
    using whole_request [OF assms(1) _ _ assms(4), of body es] assms(2,3) unfolding t_def hdr_cnt_def l_def b_def by auto
  define junk where "junk = drop (Suc l) buf"
  have less: "l < buf_len" using assms(3) by (simp add: l_def t_def)
  have "drop l buf = buf ! l # junk"
    unfolding junk_def using assms(3,4) by (intro Cons_nth_drop_Suc [symmetric]) (simp add: t_def l_def)
  then have b: "b = (t @ body) @ buf ! l # junk" by (simp add: b_def)
  have now: "b[l := 0] = t @ body @ 0 # junk"
    unfolding b unfolding l_def list_update_length by simp
  have "length meth + 1 \<le> length b" by (simp add: b_def t_def request_text_def request_line_def http_line_def)
  then have "pointee b (b[l := 0]) (drop (length meth + 1) b, length path) = drop (length meth + 1) (t @ body @ 0 # junk)"
    unfolding pointee_def fst_conv length_drop now by simp
  moreover have "pointee b (b[l := 0]) (b, length meth) = t @ body @ 0 # junk"
    by (simp add: pointee_def now)
  ultimately have "accept_request (Parsed (int (length t)) q l b)
      = Inr (Some \<lparr>tk_status = http_status (t @ body @ 0 # junk) (drop (length meth + 1) (t @ body @ 0 # junk)),
          tk_meth = Some (t @ body @ 0 # junk), tk_minor = int d,
          tk_body = (if is_method (t @ body @ 0 # junk) ''POST'' then Some (body @ 0 # junk) else None)\<rparr>)"
    using q(2) less by (simp add: accept_request_def request_read_def now Let_def)
  with q show ?thesis unfolding Let_def by blast
qed

text \<open>A POST to the login endpoint.\<close>

theorem request_served_witness:
  "\<exists>r task. read_request [Bytes (request_text (lit ''POST'') (lit ''/session/new'') 1 [(lit ''a'', lit ''b'')] @ lit ''{}'')] 0
      (replicate buf_len 0) = Inr r
    \<and> accept_request r = Inr (Some task) \<and> tk_status task = 2 \<and> map_option c_str (tk_body task) = Some (lit ''{}'')"
proof -
  let ?m = "lit ''POST''" and ?p = "lit ''/session/new''" and ?hs = "[(lit ''a'', lit ''b'')]" and ?b = "lit ''{}''"
  have ok: "request_ok ?m ?p 1 ?hs"
    by (simp add: request_ok_def lit_def path_char_def token_char_def token_char_map_def value_text_def is_ctl_def is_blank_def)
  have n: "length ?hs \<le> 128" "length (request_text ?m ?p 1 ?hs @ ?b) < buf_len" "length (replicate buf_len 0 :: bytes) = buf_len"
    by (simp_all add: request_text_def request_line_def header_text_def http_line_def lit_def buf_len_def)
  define t where "t = request_text ?m ?p 1 ?hs"
  from request_served [OF ok n, of "[]", folded t_def] obtain q l buf' junk where
    r: "read_request [Bytes (t @ ?b)] 0 (replicate buf_len 0) = Inr (Parsed (int (length t)) q l buf')"
    "accept_request (Parsed (int (length t)) q l buf')
      = Inr (Some \<lparr>tk_status = http_status (t @ ?b @ 0 # junk) (drop (length ?m + 1) (t @ ?b @ 0 # junk)),
          tk_meth = Some (t @ ?b @ 0 # junk), tk_minor = int 1,
          tk_body = (if is_method (t @ ?b @ 0 # junk) ''POST'' then Some (?b @ 0 # junk) else None)\<rparr>)"
    unfolding Let_def by blast
  have m: "\<And>x. is_method (t @ x) ''POST''" "\<And>x. \<not> is_method (t @ x) ''OPTIONS''"
    by (simp_all add: t_def request_text_def request_line_def http_line_def is_method_def strncmp_eq_def c_str_def lit_def)
  have p: "drop (length ?m + 1) (t @ x) = lit ''/session/new '' @ drop 18 t @ x" for x
    by (simp add: t_def request_text_def request_line_def http_line_def lit_def)
  have s: "http_status (t @ x) (drop (length ?m + 1) (t @ x)) = 2" for x
    unfolding http_status_def p using m [of x]
    by (simp add: strncmp_eq_def c_str_def lit_def sdkEndpoints_def)
  define task where "task = \<lparr>tk_status = http_status (t @ ?b @ 0 # junk) (drop (length ?m + 1) (t @ ?b @ 0 # junk)),
      tk_meth = Some (t @ ?b @ 0 # junk), tk_minor = int 1,
      tk_body = (if is_method (t @ ?b @ 0 # junk) ''POST'' then Some (?b @ 0 # junk) else None)\<rparr>"
  have "tk_status task = 2" by (simp only: task_def task.simps s [of "?b @ 0 # junk"])
  moreover have "c_str (?b @ 0 # junk) = ?b" by (simp add: c_str_def lit_def)
  then have "map_option c_str (tk_body task) = Some ?b" by (simp add: task_def m(1))
  ultimately show ?thesis
    unfolding t_def [symmetric] using r(1) r(2) [folded task_def] by blast
qed

section \<open>Requests that are refused or worse\<close>

lemma token_loop_refused:
  "list_all token_char u \<Longrightarrow> \<not> token_char ch \<Longrightarrow> \<not> token_char c \<Longrightarrow> c \<noteq> ch \<Longrightarrow> token_loop ch n (u @ c # r) = Refused (-1)"
  by (induction u arbitrary: n) auto

lemma bad_method:
  assumes "list_all token_char u" "\<not> token_char c" "c \<noteq> 32" "u \<noteq> [] \<or> c \<noteq> 13 \<and> c \<noteq> 10"
  shows "phr_parse_request (u @ c # r) mh 0 = Inr (-1, no_request)"
proof -
  have "skip_empty_line (u @ c # r) = Reached (u @ c # r)"
    using assms(1,4) not_token_char by (cases u) auto
  moreover have "parse_token 32 (u @ c # r) = Refused (-1)"
    using token_loop_refused [OF assms(1) not_token_char(1) assms(2,3)] by (simp add: parse_token_def)
  ultimately show ?thesis by (simp add: phr_parse_request_def http_parse_request_def)
qed

lemma no_method_task:
  "accept_request (Parsed (-1) no_request n buf) = Inr (Some \<lparr>tk_status = 400, tk_meth = None, tk_minor = -1, tk_body = None\<rparr>)"
  "serve W regions region pkg server \<lparr>tk_status = 400, tk_meth = None, tk_minor = -1, tk_body = None\<rparr> g = Inl Null_pointer"
  by (simp_all add: accept_request_def no_request_def serve_def SDK_ENDPOINT_CNT_def)

text \<open>
  C12. A request whose method has a byte that no token has stops the server: the parser refuses it before it has
  set the method, the status is 400, and the answer compares the method with HEAD through the null pointer. One
  piece of one byte is enough, and what is in the buffer does not matter.
\<close>

theorem bad_method_stops_server:
  assumes "list_all token_char u" "\<not> token_char c" "c \<noteq> 32" "u \<noteq> [] \<or> c \<noteq> 13 \<and> c \<noteq> 10"
    "length buf = buf_len" "length (u @ c # b) \<le> buf_len"
  shows "\<exists>r task. read_request (Bytes (u @ c # b) # es) 0 buf = Inr r \<and> accept_request r = Inr (Some task)
    \<and> tk_status task = 400 \<and> serve W regions region pkg server task g = Inl Null_pointer"
proof -
  have "phr_parse_request ((u @ c # b) @ drop (length (u @ c # b)) buf) hdr_cnt 0 = Inr (-1, no_request)"
    using bad_method [OF assms(1-4), of "b @ drop (length (u @ c # b)) buf" hdr_cnt] by simp
  from first_piece [OF assms(5) _ assms(6) this] show ?thesis
    using no_method_task by fastforce
qed

theorem bad_method_stops_server_witness:
  "\<forall>W regions region pkg server g. \<exists>r task. read_request [Bytes [0x16]] 0 (replicate buf_len 65) = Inr r
     \<and> accept_request r = Inr (Some task) \<and> serve W regions region pkg server task g = Inl Null_pointer"
proof (intro allI)
  fix W regions region pkg server g
  have c: "\<not> token_char 0x16" by (simp add: token_char_def token_char_map_def)
  show "\<exists>r task. read_request [Bytes [0x16]] 0 (replicate buf_len 65) = Inr r
     \<and> accept_request r = Inr (Some task) \<and> serve W regions region pkg server task g = Inl Null_pointer"
    using bad_method_stops_server [of "[]" "0x16" "replicate buf_len 65" "[]" "[]" W regions region pkg server g] c
    by (auto simp: buf_len_def)
qed

text \<open>A first piece whose continuation an earlier request left in the buffer.\<close>

lemma stale_end:
  assumes "p \<noteq> []" "length buf = buf_len" "drop (length p) buf = s @ rest"
    "request_ok meth path d hs" "length hs \<le> 128" "request_text meth path d hs = p @ s" "s \<noteq> []"
  shows "\<exists>r. read_request (Bytes p # es) 0 buf = Inr r
    \<and> accept_request r = Inr (Some \<lparr>tk_status = http_status (p @ 0 # tl s @ rest) (drop (length meth + 1) (p @ 0 # tl s @ rest)),
        tk_meth = Some (p @ 0 # tl s @ rest), tk_minor = int d,
        tk_body = (if is_method (p @ 0 # tl s @ rest) ''POST'' then Some rest else None)\<rparr>)"
proof -
  define b where "b = p @ s @ rest"
  define now where "now = p @ 0 # tl s @ rest"
  have buf: "p @ drop (length p) buf = b" "length b = buf_len"
  proof -
    have "length s + length rest = buf_len - length p" using arg_cong [OF assms(3), of length] assms(2) by simp
    moreover have "0 < length s" using assms(7) by simp
    ultimately show "length b = buf_len" unfolding b_def length_append by linarith
    show "p @ drop (length p) buf = b" by (simp only: b_def assms(3))
  qed
  have n: "length p < buf_len" using buf(2) assms(7) unfolding b_def by (cases s) auto
  obtain q where q: "phr_parse_request b hdr_cnt 0 = Inr (int (length (p @ s)), q)" "request_read meth path d hs b q"
    using head_parsed [OF assms(4), of rest] assms(5,6) buf(2) by (auto simp: b_def hdr_cnt_def)
  have r: "read_request (Bytes p # es) 0 buf = Inr (Parsed (int (length (p @ s))) q (length p) b)"
    using first_piece [OF assms(2,1), of "int (length (p @ s))" q es] q(1) n by (simp add: buf(1))
  have now: "b[length p := 0] = now" using assms(7) by (cases s) (simp_all add: b_def now_def)
  have "length (p @ s) = length (request_text meth path d hs)" by (simp only: assms(6))
  then have "length meth + 1 \<le> length b"
    by (simp add: b_def request_text_def request_line_def http_line_def)
  then have m: "pointee b now (drop (length meth + 1) b, length path) = drop (length meth + 1) now"
    "pointee b now (b, length meth) = now"
    unfolding now [symmetric] by (simp_all add: pointee_def)
  have "drop (length (p @ s)) now = rest" using assms(7) by (cases s) (simp_all add: now_def)
  then have "accept_request (Parsed (int (length (p @ s))) q (length p) b)
      = Inr (Some \<lparr>tk_status = http_status now (drop (length meth + 1) now), tk_meth = Some now, tk_minor = int d,
          tk_body = (if is_method now ''POST'' then Some rest else None)\<rparr>)"
    using q(2) n m unfolding request_read_def accept_request_def reading.case
    by (simp add: now nat_add_distrib Let_def)
  then show ?thesis unfolding r now_def by blast
qed

lemma zeros_behind:
  assumes "p \<noteq> []" "length buf = buf_len" "drop (length p) buf = replicate 9 0 @ z"
    "request_ok meth path d hs" "length hs \<le> 128" "request_text meth path d hs = p @ s" "s \<noteq> []"
  shows "\<exists>r task. read_request (Bytes p # es) 0 buf = Inr r \<and> accept_request r = Inr (Some task) \<and> tk_status task = 400
    \<and> (length p \<le> length meth \<longrightarrow> serve W regions region pkg server task g = Inl Null_pointer)"
proof -
  have l: "length p \<le> buf_len" using arg_cong [OF assms(3), of length] assms(2) by simp
  obtain q where q: "phr_parse_request (p @ replicate 9 0 @ z) hdr_cnt 0 = Inr (-1, q)"
    using cut_request_refused [OF assms(4) _ assms(6,7)] assms(5) by (auto simp: hdr_cnt_def)
  have r: "read_request (Bytes p # es) 0 buf = Inr (Parsed (-1) q (length p) (p @ drop (length p) buf))"
    by (rule first_piece [OF assms(2,1) l]) (subst assms(3), rule q, simp)
  show ?thesis
  proof (cases "length p \<le> length meth")
    case True
    then have "p = take (length p) meth"
      using arg_cong [OF assms(6), of "take (length p)"] by (simp add: request_text_def request_line_def http_line_def)
    moreover have "list_all token_char meth" using assms(4) by (simp add: request_ok_def)
    ultimately have "list_all token_char p" by (metis append_take_drop_id list_all_append)
    moreover have "(0 :: u8) \<noteq> 32" by simp
    ultimately have "phr_parse_request (p @ 0 # replicate 8 0 @ z) hdr_cnt 0 = Inr (-1, no_request)"
      using assms(1) by (intro bad_method not_token_0) simp_all
    then have "phr_parse_request (p @ replicate 9 0 @ z) hdr_cnt 0 = Inr (-1, no_request)"
      by (simp add: numeral_eq_Suc)
    then have "q = no_request" using q by simp
    then show ?thesis using r no_method_task by fastforce
  next
    case False
    then show ?thesis using r by (fastforce simp: accept_request_def)
  qed
qed

text \<open>
  C11. What becomes of a request whose head is cut behind its first piece \<open>p\<close> depends on what the static buffer holds
  behind that piece, because the parser is given the whole buffer and not what has arrived. With at least nine
  zeros there, as at a place that nothing has been written to since the start, the request is refused at once,
  without waiting for the rest; when the cut is in the method, the answer goes through the null pointer. With the
  end \<open>s'\<close> there of a head that also begins with \<open>p\<close>, as an earlier request leaves it when it is longer than the
  answer printed over its front, the piece is served at once as a request with that end: the answer is chosen by the bytes of \<open>p\<close>, a 0 and what was left, and a POST is
  handed the bytes behind the earlier head, another client's body, as its own.
\<close>

theorem split_request:
  assumes "p \<noteq> []" "length buf = buf_len"
    and "request_ok meth path d hs" "length hs \<le> 128" "request_text meth path d hs = p @ s" "s \<noteq> []"
  shows "(\<forall>z. drop (length p) buf = replicate 9 0 @ z \<longrightarrow>
      (\<exists>r task. read_request (Bytes p # es) 0 buf = Inr r \<and> accept_request r = Inr (Some task) \<and> tk_status task = 400
        \<and> (length p \<le> length meth \<longrightarrow> serve W regions region pkg server task g = Inl Null_pointer)))
    \<and> (\<forall>meth' path' d' hs' s' rest. drop (length p) buf = s' @ rest \<and> s' \<noteq> [] \<and> request_ok meth' path' d' hs'
        \<and> length hs' \<le> 128 \<and> request_text meth' path' d' hs' = p @ s' \<longrightarrow>
      (\<exists>r. read_request (Bytes p # es) 0 buf = Inr r
        \<and> (let now = p @ 0 # tl s' @ rest
           in accept_request r = Inr (Some \<lparr>tk_status = http_status now (drop (length meth' + 1) now), tk_meth = Some now,
                tk_minor = int d', tk_body = (if is_method now ''POST'' then Some rest else None)\<rparr>))))"
proof (intro conjI allI impI)
  fix z assume "drop (length p) buf = replicate 9 0 @ z"
  from zeros_behind [OF assms(1,2) this assms(3-6)]
  show "\<exists>r task. read_request (Bytes p # es) 0 buf = Inr r \<and> accept_request r = Inr (Some task) \<and> tk_status task = 400
        \<and> (length p \<le> length meth \<longrightarrow> serve W regions region pkg server task g = Inl Null_pointer)" .
next
  fix meth' path' d' hs' s' rest
  assume "drop (length p) buf = s' @ rest \<and> s' \<noteq> [] \<and> request_ok meth' path' d' hs'
        \<and> length hs' \<le> 128 \<and> request_text meth' path' d' hs' = p @ s'"
  with stale_end [OF assms(1,2), of s' rest meth' path' d' hs' es]
  show "\<exists>r. read_request (Bytes p # es) 0 buf = Inr r
        \<and> (let now = p @ 0 # tl s' @ rest
           in accept_request r = Inr (Some \<lparr>tk_status = http_status now (drop (length meth' + 1) now), tk_meth = Some now,
                tk_minor = int d', tk_body = (if is_method now ''POST'' then Some rest else None)\<rparr>))"
    unfolding Let_def by blast
qed

text \<open>
  A piece of two bytes on a fresh buffer stops the server; a POST of which nothing but the blank line is missing, on a
  buffer that holds the end of another one at that place, is handed the body behind it.
\<close>

theorem split_request_witness:
  "(\<forall>W regions region pkg server g. \<exists>r task. read_request [Bytes (lit ''PO'')] 0 (replicate buf_len 0) = Inr r
     \<and> accept_request r = Inr (Some task) \<and> serve W regions region pkg server task g = Inl Null_pointer)
   \<and> (\<exists>r task. read_request [Bytes (lit ''POST /log HTTP/1.1'' @ [13, 10])] 0
         (lit ''POST /log HTTP/1.1'' @ [13, 10] @ [13, 10] @ lit ''secret'' @ replicate (buf_len - 28) 0) = Inr r
       \<and> accept_request r = Inr (Some task) \<and> tk_body task = Some (lit ''secret'' @ replicate (buf_len - 28) 0))"
proof (intro conjI allI)
  fix W regions region pkg server g
  have ok: "request_ok (lit ''POST'') (lit ''/log'') 1 []"
    by (simp add: request_ok_def lit_def path_char_def token_char_def token_char_map_def)
  have t: "request_text (lit ''POST'') (lit ''/log'') 1 [] = lit ''PO'' @ lit ''ST /log HTTP/1.1'' @ [13, 10, 13, 10]"
    by (simp add: request_text_def request_line_def http_line_def lit_def)
  have z: "drop (length (lit ''PO'')) (replicate buf_len 0) = replicate 9 0 @ replicate (buf_len - 11) (0 :: u8)"
    by (simp add: lit_def buf_len_def replicate_add [symmetric])
  have s: "lit ''PO'' \<noteq> []" "length (replicate buf_len 0 :: bytes) = buf_len" "length ([] :: (bytes \<times> bytes) list) \<le> 128"
    "lit ''ST /log HTTP/1.1'' @ [13, 10, 13, 10] \<noteq> []" "length (lit ''PO'') \<le> length (lit ''POST'')"
    by (simp_all add: lit_def)
  from split_request [OF s(1,2) ok s(3) t s(4), of "[]" W regions region pkg server g] z s(5)
  show "\<exists>r task. read_request [Bytes (lit ''PO'')] 0 (replicate buf_len 0) = Inr r
     \<and> accept_request r = Inr (Some task) \<and> serve W regions region pkg server task g = Inl Null_pointer" by blast
next
  have ok: "request_ok (lit ''POST'') (lit ''/log'') 1 []"
    by (simp add: request_ok_def lit_def path_char_def token_char_def token_char_map_def)
  define p where "p = lit ''POST /log HTTP/1.1'' @ [13, 10]"
  define rest where "rest = lit ''secret'' @ replicate (buf_len - 28) 0"
  have t: "request_text (lit ''POST'') (lit ''/log'') 1 [] = p @ [13, 10]"
    by (simp add: p_def request_text_def request_line_def http_line_def lit_def)
  have p: "p \<noteq> []" "length (p @ [13, 10] @ rest) = buf_len" by (simp_all add: p_def rest_def lit_def buf_len_def)
  have n: "length ([] :: (bytes \<times> bytes) list) \<le> 128" "[13, 10] \<noteq> ([] :: bytes)" by simp_all
  have "drop (length p) (p @ [13, 10] @ rest) = [13, 10] @ rest" by simp
  with split_request [OF p ok n(1) t n(2), of "[]"] ok n t
  obtain r where "read_request [Bytes p] 0 (p @ [13, 10] @ rest) = Inr r"
    "accept_request r = Inr (Some \<lparr>tk_status = http_status (p @ 0 # tl [13, 10] @ rest) (drop (length (lit ''POST'') + 1) (p @ 0 # tl [13, 10] @ rest)),
       tk_meth = Some (p @ 0 # tl [13, 10] @ rest), tk_minor = int 1,
       tk_body = (if is_method (p @ 0 # tl [13, 10] @ rest) ''POST'' then Some rest else None)\<rparr>)"
    unfolding Let_def by metis
  moreover have "is_method (p @ x) ''POST''" for x
    by (simp add: p_def is_method_def strncmp_eq_def c_str_def lit_def)
  ultimately have "\<exists>r task. read_request [Bytes p] 0 (p @ [13, 10] @ rest) = Inr r
       \<and> accept_request r = Inr (Some task) \<and> tk_body task = Some rest" by simp
  then show "\<exists>r task. read_request [Bytes (lit ''POST /log HTTP/1.1'' @ [13, 10])] 0
         (lit ''POST /log HTTP/1.1'' @ [13, 10] @ [13, 10] @ lit ''secret'' @ replicate (buf_len - 28) 0) = Inr r
       \<and> accept_request r = Inr (Some task) \<and> tk_body task = Some (lit ''secret'' @ replicate (buf_len - 28) 0)"
    by (simp add: p_def rest_def)
qed

end
