(* ===== verification/Excel_Data.thy ===== *)
theory Excel_Data
  imports Enum_Tables Avatar Player_State C_String
begin

text \<open>
  The game data: \<open>src/data.cpp\<close>, which reads tables from text, and the three tables of \<open>src/data/\<close>. A file is
  its bytes; reading it does not fail, and memory can be allocated. The JSON library and the conversion of
  floating-point numbers are arguments.
\<close>

section \<open>Tables in text\<close>

text \<open>A row maps the names of fields to texts.\<close>

type_synonym excel_ent = "string \<rightharpoonup> bytes"

text \<open>
  What each turn of the loop reads. \<open>getline\<close> takes a line with its end; behind a last line that has an end
  there is one more turn, which reads nothing, because the end of the file is noticed only then.
\<close>

fun file_lines :: "bytes \<Rightarrow> bytes list" where
  "file_lines [] = [[]]"
| "file_lines (c # s) =
     (if c = 10 then [c] # file_lines s
      else case file_lines s of [] \<Rightarrow> [[c]] | l # ls \<Rightarrow> (c # l) # ls)"

text \<open>\<open>strsep\<close>: the text up to the next separator, and what is behind it, a null pointer at the end.\<close>

definition strsep :: "bytes \<Rightarrow> bytes option \<Rightarrow> bytes option \<times> bytes option" where
  "strsep seps p =
     (case p of
        None \<Rightarrow> (None, None)
      | Some s \<Rightarrow> (Some (takeWhile (\<lambda>c. c \<notin> set seps) s),
                 case dropWhile (\<lambda>c. c \<notin> set seps) s of [] \<Rightarrow> None | _ # r \<Rightarrow> Some r))"

fun tsv_fields :: "string list \<Rightarrow> bytes option \<Rightarrow> excel_ent \<Rightarrow> excel_ent" where
  "tsv_fields [] p ent = ent"
| "tsv_fields (f # fs) p ent =
     (case strsep [9, 13, 10] p of
        (None, p) \<Rightarrow> tsv_fields fs p ent
      | (Some t, p) \<Rightarrow> tsv_fields fs p (ent(f \<mapsto> t)))"

text \<open>The first line holds headings.\<close>

definition loadTsvExcelData :: "string list \<Rightarrow> bytes \<Rightarrow> excel_ent list" where
  "loadTsvExcelData names content =
     map (\<lambda>l. tsv_fields names (Some (c_str l)) Map.empty) (tl (file_lines content))"

definition tryGetKey :: "excel_ent \<Rightarrow> string \<Rightarrow> bytes" where
  "tryGetKey ent k = (case ent k of None \<Rightarrow> [] | Some v \<Rightarrow> v)"

definition toInt :: "bytes \<Rightarrow> u32" where
  "toInt x = ucast (fst (strtoul x 0))"

section \<open>Tables in JSON\<close>

text \<open>
  The tokener is fed with blocks of 4096 bytes, the last one filled with zeros; its answer depends on the
  blocks so far.
\<close>

datatype 'j fed = Got 'j | More | Bad
datatype json_type = Object_type | Array_type | Other_type

record 'j doc_lib =
  jd_feed :: "bytes list \<Rightarrow> 'j fed"
  jd_type :: "'j \<Rightarrow> json_type"
  jd_elements :: "'j \<Rightarrow> 'j option list"
  jd_members :: "'j \<Rightarrow> (string \<times> bytes option) list"

function file_blocks :: "bytes \<Rightarrow> bytes list" where
  "file_blocks s =
     (if length s < 4096 then [s @ replicate (4096 - length s) 0] else take 4096 s # file_blocks (drop 4096 s))"
  by pat_completeness auto
termination by (relation "measure length") auto

declare file_blocks.simps [simp del]

fun json_read :: "'j doc_lib \<Rightarrow> bytes list \<Rightarrow> bytes list \<Rightarrow> 'j option" where
  "json_read D fed [] = None"
| "json_read D fed (b # bs) =
     (case jd_feed D (fed @ [b]) of Got j \<Rightarrow> Some j | More \<Rightarrow> json_read D (fed @ [b]) bs | Bad \<Rightarrow> None)"

text \<open>A string made of a null pointer is a fault.\<close>

fun json_row :: "(string \<times> bytes option) list \<Rightarrow> excel_ent \<Rightarrow> cpp_fault + excel_ent" where
  "json_row [] ent = Inr ent"
| "json_row ((k, None) # ms) ent = Inl Null_pointer"
| "json_row ((k, Some v) # ms) ent = json_row ms (ent(k \<mapsto> c_str v))"

text \<open>An element is kept if the document itself, which has to be an array, is an object.\<close>

fun json_rows :: "'j doc_lib \<Rightarrow> 'j \<Rightarrow> 'j option list \<Rightarrow> cpp_fault + excel_ent list" where
  "json_rows D root [] = Inr []"
| "json_rows D root (None # es) = json_rows D root es"
| "json_rows D root (Some d # es) =
     (if jd_type D root \<noteq> Object_type then json_rows D root es
      else case json_row (jd_members D d) Map.empty of
             Inl f \<Rightarrow> Inl f
           | Inr e \<Rightarrow> map_sum id ((#) e) (json_rows D root es))"

definition loadJsonExcelData :: "'j doc_lib \<Rightarrow> bytes \<Rightarrow> cpp_fault + excel_ent list option" where
  "loadJsonExcelData D content =
     (case json_read D [] (file_blocks content) of
        None \<Rightarrow> Inr None
      | Some root \<Rightarrow>
          if jd_type D root \<noteq> Array_type then Inr None
          else map_sum id Some (json_rows D root (jd_elements D root)))"

lemma json_rows_none: "jd_type D root = Array_type \<Longrightarrow> json_rows D root es = Inr []"
  by (induction D root es rule: json_rows.induct) simp_all

lemma json_table_empty: "loadJsonExcelData D content \<in> {Inr None, Inr (Some [])}"
  by (simp add: loadJsonExcelData_def json_rows_none split: option.split)

section \<open>Finding a table\<close>

definition file_ext :: "bytes \<Rightarrow> bytes option" where
  "file_ext path =
     (if of_char (CHR ''.'') \<notin> set path then None
      else Some (of_char (CHR ''.'') # rev (takeWhile (\<lambda>c. c \<noteq> of_char (CHR ''.'')) (rev path))))"

definition is_json :: "bytes \<Rightarrow> bool" where
  "is_json path = (case file_ext path of None \<Rightarrow> False | Some e \<Rightarrow> strncmp_eq e (lit ''.json'') 5)"

text \<open>
  Loading a file into a table: -1 if it cannot be opened or read, 0 otherwise. \<open>add\<close> appends the rows to the
  entries; the code has a branch of its own for rows from JSON, of which there are none.
\<close>

definition load_table ::
  "'j doc_lib \<Rightarrow> (bytes \<Rightarrow> bytes option) \<Rightarrow> string list \<Rightarrow> (excel_ent list \<Rightarrow> 'e list \<Rightarrow> cpp_fault + 'e list)
     \<Rightarrow> bytes \<Rightarrow> 'e list \<Rightarrow> cpp_fault + int \<times> 'e list" where
  "load_table D files names add path es =
     (case files path of
        None \<Rightarrow> Inr (-1, es)
      | Some content \<Rightarrow>
          (case (if is_json path then loadJsonExcelData D content else Inr (Some (loadTsvExcelData names content))) of
             Inl f \<Rightarrow> Inl f
           | Inr None \<Rightarrow> Inr (-1, es)
           | Inr (Some rows) \<Rightarrow> map_sum id (Pair 0) (add rows es)))"

text \<open>The six names a table may have; a name that is too long is cut off.\<close>

definition table_paths :: "bytes \<Rightarrow> string \<Rightarrow> string \<Rightarrow> bytes list" where
  "table_paths dir long short =
     map (\<lambda>n. take 4094 (c_str dir @ lit n))
       [''/ExcelBinOutput/'' @ long @ ''.json'', ''/ExcelBinOutput/'' @ long @ ''.tsv'', ''/ExcelBinOutput/'' @ long @ ''.txt'',
        ''/txt/'' @ short @ ''.json'', ''/txt/'' @ short @ ''.tsv'', ''/txt/'' @ short @ ''.txt'']"

fun load_first :: "(bytes \<Rightarrow> 'e list \<Rightarrow> cpp_fault + int \<times> 'e list) \<Rightarrow> bytes list \<Rightarrow> 'e list \<Rightarrow> cpp_fault + int \<times> 'e list" where
  "load_first load [] es = Inr (-1, es)"
| "load_first load (p # ps) es =
     (case load p es of
        Inl f \<Rightarrow> Inl f
      | Inr (r, es) \<Rightarrow> if 0 \<le> r then Inr (r, es) else load_first load ps es)"

section \<open>Open states\<close>

record openstate_row =
  od_id :: u32
  od_default :: u32
  od_allow :: u32
  od_conds :: "(u32 \<times> u32 \<times> u32) list"
  od_ui :: u32

definition openstate_fields :: "string list" where
  "openstate_fields =
     [''id'', ''defaultState'', ''allowClientOpen'', ''cond1Type'', ''cond1Param1'', ''cond1Param2'', ''cond2Type'',
      ''cond2Param1'', ''cond2Param2'', ''systemOpenUiId'']"

text \<open>The menu is always open, and the barriers for nobody; the second parameter of a condition stays.\<close>

definition openstate_of_row :: "excel_ent \<Rightarrow> openstate_row" where
  "openstate_of_row ent =
     (let n = (\<lambda>k. toInt (tryGetKey ent k));
          r = \<lparr>od_id = n ''id'', od_default = n ''defaultState'', od_allow = n ''allowClientOpen'',
               od_conds = [(n ''cond1Type'', n ''cond1Param1'', n ''cond1Param2''),
                           (n ''cond2Type'', n ''cond2Param1'', n ''cond2Param2'')],
               od_ui = n ''systemUiOpenId''\<rparr>;
          force = (\<lambda>p cs. map (\<lambda>(_, _, q). (OPEN_STATE_COND_PLAYER_LEVEL, p, q)) cs);
          r = (if od_id r = 1 then r\<lparr>od_default := 1, od_conds := force 0 (od_conds r)\<rparr> else r)
      in if od_id r = 47 \<or> od_id r = 48
         then r\<lparr>od_default := 0, od_allow := 0, od_conds := force (NOT 0) (od_conds r)\<rparr> else r)"

definition openstate_load ::
  "'j doc_lib \<Rightarrow> (bytes \<Rightarrow> bytes option) \<Rightarrow> bytes \<Rightarrow> openstate_row list \<Rightarrow> cpp_fault + int \<times> openstate_row list" where
  "openstate_load D files =
     load_table D files openstate_fields (\<lambda>rows es. Inr (es @ map openstate_of_row rows))"

definition openstate_load_all ::
  "'j doc_lib \<Rightarrow> (bytes \<Rightarrow> bytes option) \<Rightarrow> bytes \<Rightarrow> cpp_fault + int \<times> openstate_row list" where
  "openstate_load_all D files dir =
     load_first (openstate_load D files) (table_paths dir ''OpenStateConfigData'' ''OpenStateData'') []"

text \<open>What a player looks at.\<close>

definition openstate_ent_of :: "openstate_row \<Rightarrow> openstate_ent" where
  "openstate_ent_of r =
     \<lparr>os_id = od_id r, os_default = od_default r, os_conds = map (\<lambda>(ty, p, _). (ty, p)) (od_conds r)\<rparr>"

definition openstate_at :: "openstate_row list \<Rightarrow> u32 \<Rightarrow> openstate_row option" where
  "openstate_at es i = (if length es \<le> unat i then None else Some (es ! unat i))"

section \<open>Lists in a field\<close>

lemma strsep_shorter: "strsep seps (Some s) = (t, Some r) \<Longrightarrow> length r < length s"
proof -
  assume "strsep seps (Some s) = (t, Some r)"
  then have "\<exists>c. dropWhile (\<lambda>c. c \<notin> set seps) s = c # r" by (auto simp: strsep_def split: list.splits)
  then show "length r < length s" using length_dropWhile_le [of "\<lambda>c. c \<notin> set seps" s] by auto
qed

definition ptr_size :: "bytes option \<Rightarrow> nat" where
  "ptr_size p = (case p of None \<Rightarrow> 0 | Some s \<Rightarrow> Suc (length s))"

lemma strsep_size: "strsep seps (Some s) = (t, q) \<Longrightarrow> ptr_size q < ptr_size (Some s)"
  using strsep_shorter [of seps s t] by (cases q) (auto simp: ptr_size_def)

function sep_ints :: "bytes \<Rightarrow> bytes option \<Rightarrow> u32 list" where
  "sep_ints seps p =
     (case p of
        None \<Rightarrow> []
      | Some s \<Rightarrow> (case strsep seps (Some s) of (t, q) \<Rightarrow> (case t of None \<Rightarrow> [] | Some t \<Rightarrow> toInt t # sep_ints seps q)))"
  by pat_completeness auto
termination by (relation "measure (\<lambda>(_, p). ptr_size p)") (auto dest!: strsep_size [OF sym])

declare sep_ints.simps [simp del]

section \<open>Skill depots\<close>

record depot_row =
  dr_id :: u32
  dr_burst :: u32
  dr_skills :: "u32 list"
  dr_secondary :: "u32 list"
  dr_aim :: u32
  dr_leader :: u32
  dr_extra :: "u32 list"
  dr_constellations :: "u32 list"
  dr_config :: bytes
  dr_core :: u32
  dr_required :: u32
  dr_passives :: "(u32 \<times> u32) list"
  dr_ability :: bytes

definition depot_fields :: "string list" where
  "depot_fields =
     [''id'', ''energySkill'', ''unk1'', ''skill1'', ''skill2'', ''skill3'', ''skill4'', ''subSkills'',
      ''attackModeSkill'', ''leaderTalent'', ''extraAbility1'', ''extraAbility2'', ''extraAbility3'',
      ''talent1'', ''talent2'', ''talent3'', ''talent4'', ''talent5'', ''talent6'', ''talentStarName'',
      ''proudSkillReqBreak'', ''proudSkillGroupId1'', ''needAvatarPromoteLevel1'', ''proudSkillGroupId2'',
      ''needAvatarPromoteLevel2'', ''proudSkillGroupId3'', ''needAvatarPromoteLevel3'', ''proudSkillGroupId4'',
      ''needAvatarPromoteLevel4'', ''proudSkillGroupId5'', ''needAvatarPromoteLevel5'', ''skillDepotAbilityGroup'']"

definition int_list :: "bytes \<Rightarrow> u32 list" where
  "int_list v = (if v = [] then [] else sep_ints (lit '','') (Some (c_str v)))"

text \<open>The second extra ability is read twice, and the two fields nobody sets stay 0.\<close>

definition depot_of_row :: "excel_ent \<Rightarrow> depot_row" where
  "depot_of_row ent =
     (let n = (\<lambda>k. toInt (tryGetKey ent k))
      in \<lparr>dr_id = n ''id'', dr_burst = n ''energySkill'', dr_skills = map n [''skill1'', ''skill2'', ''skill3'', ''skill4''],
          dr_secondary = int_list (tryGetKey ent ''subSkills''), dr_aim = n ''attackModeSkill'',
          dr_leader = n ''leaderTalent'', dr_extra = map n [''extraAbility1'', ''extraAbility2'', ''extraAbility2''],
          dr_constellations = map n [''talent1'', ''talent2'', ''talent3'', ''talent4'', ''talent5'', ''talent6''],
          dr_config = tryGetKey ent ''talentStarName'', dr_core = 0, dr_required = 0,
          dr_passives = map (\<lambda>(g, l). (n g, n l))
            [(''proudSkillGroupId1'', ''needAvatarPromoteLevel1''), (''proudSkillGroupId2'', ''needAvatarPromoteLevel2''),
             (''proudSkillGroupId3'', ''needAvatarPromoteLevel3''), (''proudSkillGroupId4'', ''needAvatarPromoteLevel4''),
             (''proudSkillGroupId5'', ''needAvatarPromoteLevel5'')],
          dr_ability = tryGetKey ent ''skillDepotAbilityGroup''\<rparr>)"

definition depot_load ::
  "'j doc_lib \<Rightarrow> (bytes \<Rightarrow> bytes option) \<Rightarrow> bytes \<Rightarrow> depot_row list \<Rightarrow> cpp_fault + int \<times> depot_row list" where
  "depot_load D files = load_table D files depot_fields (\<lambda>rows es. Inr (es @ map depot_of_row rows))"

definition depot_load_all ::
  "'j doc_lib \<Rightarrow> (bytes \<Rightarrow> bytes option) \<Rightarrow> bytes \<Rightarrow> cpp_fault + int \<times> depot_row list" where
  "depot_load_all D files dir =
     load_first (depot_load D files) (table_paths dir ''AvatarSkillDepotExcelConfigData'' ''AvatarSkillDepotData'') []"

definition depot_ent_of :: "depot_row \<Rightarrow> depot_ent" where
  "depot_ent_of r = \<lparr>sd_id = dr_id r, sd_constellations = dr_constellations r\<rparr>"

definition depot_at :: "depot_row list \<Rightarrow> u32 \<Rightarrow> depot_row option" where
  "depot_at es i = (if length es \<le> unat i then None else Some (es ! unat i))"

section \<open>Avatars\<close>

text \<open>Floating-point numbers are an argument: reading one, and its conversion to an unsigned integer.\<close>

record 'f float_lib =
  fl_read :: "bytes \<Rightarrow> 'f"
  fl_u32 :: "'f \<Rightarrow> u32"

record 'f avatar_row =
  ar_id :: u32
  ar_base_hp :: 'f
  ar_base_atk :: 'f
  ar_base_def :: 'f
  ar_crit_rate :: 'f
  ar_crit_res :: 'f
  ar_crit_dmg :: 'f
  ar_element_res :: "'f list"
  ar_element_bonus :: "'f list"
  ar_curves :: "(u32 \<times> u32) list"
  ar_em :: 'f
  ar_use_type :: u32
  ar_quality :: u32
  ar_charge :: u32
  ar_config :: bytes
  ar_range :: u32
  ar_weapon :: u32
  ar_weapon_type :: u32
  ar_depot :: u32
  ar_stamina :: u32
  ar_candidates :: "u32 list"
  ar_identity :: u32
  ar_promote :: u32
  ar_rewards :: "u32 \<rightharpoonup> u32"
  ar_group :: u32

definition avatar_fields :: "string list" where
  "avatar_fields =
     [''id'', ''unk1'', ''hpBase'', ''attackBase'', ''defenseBase'', ''critical'', ''criticalRes'', ''criticalHurt'',
      ''pyroRes'', ''dendroRes'', ''hydroRes'', ''electroRes'', ''anemoRes'', ''cryoRes'', ''geoRes'', ''pyroBonus'',
      ''dendroBonus'', ''hydroBonus'', ''electroBonus'', ''anemoBonus'', ''cryoBonus'', ''geoBonus'',
      ''propGrowCurveType1'', ''propGrowCurve1'', ''propGrowCurveType2'', ''propGrowCurve2'', ''propGrowCurveType3'',
      ''propGrowCurve3'', ''elementalMastery'', ''physicalRes'', ''physicalBonus'', ''useType'', ''qualityType'',
      ''chargeEfficiency'', ''unk2'', ''unk3'', ''combatConfig'', ''isRangeAttack'', ''initialWeapon'', ''weaponType'',
      ''skillDepotId'', ''staminaRecoverSpeed'', ''candSkillDepotIds'', ''avatarIdentityType'', ''avatarPromoteId'',
      ''avatarPromoteRewardLevelList'', ''avatarPromoteRewardIdList'', ''featureTagGroupID'', ''name'', ''desc'']"

text \<open>
  The two pointers of the loop over the rewards live across rows: not set yet or into memory that has been
  freed, null, or at the rest of a list. Reading one that is not set is a fault.
\<close>

datatype list_ptr = Wild | Null_ptr | At_text bytes

function reward_loop :: "bytes option \<Rightarrow> list_ptr \<Rightarrow> (u32 \<rightharpoonup> u32) \<Rightarrow> cpp_fault + (u32 \<rightharpoonup> u32) \<times> list_ptr" where
  "reward_loop keys vals m =
     (case keys of
        None \<Rightarrow> Inr (m, vals)
      | Some s \<Rightarrow>
          (case strsep [59] (Some s) of
             (None, _) \<Rightarrow> Inr (m, vals)
           | (Some k, keys) \<Rightarrow>
               (case vals of
                  Wild \<Rightarrow> Inl Dangling
                | Null_ptr \<Rightarrow> reward_loop keys Null_ptr (m(toInt k \<mapsto> 0))
                | At_text r \<Rightarrow>
                    (case strsep [59] (Some r) of
                       (t, None) \<Rightarrow> reward_loop keys Null_ptr (m(toInt k \<mapsto> 0))
                     | (t, Some q) \<Rightarrow> reward_loop keys (At_text q) (m(toInt k \<mapsto> (case t of None \<Rightarrow> 0 | Some t \<Rightarrow> toInt t)))))))"
  by pat_completeness auto
termination by (relation "measure (\<lambda>(p, _). ptr_size p)") (auto dest!: strsep_size [OF sym])

declare reward_loop.simps [simp del]

text \<open>The loop in a row: the pointers are set when the lists are not empty; the lists are freed behind it.\<close>

definition row_rewards ::
  "bytes \<Rightarrow> bytes \<Rightarrow> list_ptr \<times> list_ptr \<Rightarrow> cpp_fault + (u32 \<rightharpoonup> u32) \<times> list_ptr \<times> list_ptr" where
  "row_rewards rkey rval ptrs =
     (let keys = (if rkey = [] then fst ptrs else At_text (c_str rkey));
          vals = (if rkey = [] \<or> rval = [] then snd ptrs else At_text (c_str rval));
          free = (\<lambda>p. case p of At_text _ \<Rightarrow> Wild | _ \<Rightarrow> p)
      in case keys of
           Wild \<Rightarrow> Inl Dangling
         | Null_ptr \<Rightarrow> Inr (Map.empty, Null_ptr, free vals)
         | At_text s \<Rightarrow> map_sum id (\<lambda>(m, vals). (m, Null_ptr, free vals)) (reward_loop (Some s) vals Map.empty))"

text \<open>The stamina is asked for under a name that no field has.\<close>

definition avatar_of_row :: "'f float_lib \<Rightarrow> excel_ent \<Rightarrow> (u32 \<rightharpoonup> u32) \<Rightarrow> 'f avatar_row" where
  "avatar_of_row F ent rewards =
     (let n = (\<lambda>k. toInt (tryGetKey ent k)); x = (\<lambda>k. fl_read F (tryGetKey ent k))
      in \<lparr>ar_id = n ''id'', ar_base_hp = x ''hpBase'', ar_base_atk = x ''attackBase'', ar_base_def = x ''defenseBase'',
          ar_crit_rate = x ''critical'', ar_crit_res = x ''criticalRes'', ar_crit_dmg = x ''criticalHurt'',
          ar_element_res = map x [''pyroRes'', ''dendroRes'', ''hydroRes'', ''electroRes'', ''anemoRes'', ''geoRes'', ''cryoRes'', ''physicalRes''],
          ar_element_bonus = map x [''pyroBonus'', ''dendroBonus'', ''hydroBonus'', ''electroBonus'', ''anemoBonus'', ''geoBonus'', ''cryoBonus'', ''physicalBonus''],
          ar_curves = map (\<lambda>(p, c). (n p, n c))
            [(''propGrowCurveType1'', ''propGrowCurve1''), (''propGrowCurveType2'', ''propGrowCurve2''), (''propGrowCurveType3'', ''propGrowCurve3'')],
          ar_em = x ''elementalMastery'', ar_use_type = n ''useType'', ar_quality = n ''qualityType'',
          ar_charge = fl_u32 F (x ''chargeEfficiency''), ar_config = tryGetKey ent ''combatConfig'',
          ar_range = n ''isRangeAttack'', ar_weapon = n ''initialWeapon'', ar_weapon_type = n ''weaponType'',
          ar_depot = n ''skillDepotId'', ar_stamina = n ''stanimaRecoverSpeed'',
          ar_candidates = int_list (tryGetKey ent ''candSkillDepotIds''), ar_identity = n ''avatarIdentityType'',
          ar_promote = n ''avatarPromoteId'', ar_rewards = rewards, ar_group = n ''featureTagGroupID''\<rparr>)"

fun avatar_rows ::
  "'f float_lib \<Rightarrow> excel_ent list \<Rightarrow> list_ptr \<times> list_ptr \<Rightarrow> 'f avatar_row list \<Rightarrow> cpp_fault + 'f avatar_row list" where
  "avatar_rows F [] ptrs es = Inr es"
| "avatar_rows F (ent # rows) ptrs es =
     (case row_rewards (tryGetKey ent ''avatarPromoteRewardLevelList'') (tryGetKey ent ''avatarPromoteRewardIdList'') ptrs of
        Inl f \<Rightarrow> Inl f
      | Inr (m, ptrs) \<Rightarrow> avatar_rows F rows ptrs (es @ [avatar_of_row F ent m]))"

definition avatar_load ::
  "'f float_lib \<Rightarrow> 'j doc_lib \<Rightarrow> (bytes \<Rightarrow> bytes option) \<Rightarrow> bytes \<Rightarrow> 'f avatar_row list \<Rightarrow> cpp_fault + int \<times> 'f avatar_row list" where
  "avatar_load F D files = load_table D files avatar_fields (\<lambda>rows es. avatar_rows F rows (Wild, Wild) es)"

definition avatar_load_all ::
  "'f float_lib \<Rightarrow> 'j doc_lib \<Rightarrow> (bytes \<Rightarrow> bytes option) \<Rightarrow> bytes \<Rightarrow> cpp_fault + int \<times> 'f avatar_row list" where
  "avatar_load_all F D files dir =
     load_first (avatar_load F D files) (table_paths dir ''AvatarExcelConfigData'' ''AvatarData'') []"

definition avatar_ent_of :: "'f avatar_row \<Rightarrow> avatar_ent" where
  "avatar_ent_of r = \<lparr>ad_id = ar_id r, ad_skill_depot = ar_depot r\<rparr>"

definition avatar_at :: "'f avatar_row list \<Rightarrow> u32 \<Rightarrow> 'f avatar_row option" where
  "avatar_at es i = (if length es \<le> unat i then None else Some (es ! unat i))"

section \<open>The game data\<close>

text \<open>All three tables; one that cannot be loaded is empty.\<close>

record 'f game_data =
  gd_avatars :: "'f avatar_row list"
  gd_depots :: "depot_row list"
  gd_states :: "openstate_row list"

definition game_data_new ::
  "'f float_lib \<Rightarrow> 'j doc_lib \<Rightarrow> (bytes \<Rightarrow> bytes option) \<Rightarrow> bytes \<Rightarrow> cpp_fault + 'f game_data" where
  "game_data_new F D files dir =
     (case avatar_load_all F D files dir of
        Inl f \<Rightarrow> Inl f
      | Inr (_, as) \<Rightarrow>
          (case depot_load_all D files dir of
             Inl f \<Rightarrow> Inl f
           | Inr (_, ds) \<Rightarrow>
               (case openstate_load_all D files dir of
                  Inl f \<Rightarrow> Inl f
                | Inr (_, ss) \<Rightarrow> Inr \<lparr>gd_avatars = as, gd_depots = ds, gd_states = ss\<rparr>)))"

end
