(* ===== verification/Excel_Properties.thy ===== *)
theory Excel_Properties
  imports Excel_Data Player_Props
begin

text \<open>
  Properties of the game data: what is read from a table of text, what JSON tables come to, the open states
  a table gives to players, and the rewards of avatars.
\<close>

section \<open>Numbers\<close>

lemma toInt_decimal: "0 < n \<Longrightarrow> n < 2 ^ 32 \<Longrightarrow> toInt (decimal n) = of_nat n"
proof -
  assume n: "0 < n" "n < 2 ^ 32"
  then have "n < 2 ^ 64" by simp
  then show ?thesis using n by (simp add: toInt_def strtoul_decimal unsigned_of_nat take_bit_nat_eq_self)
qed

section \<open>Tables of text\<close>

text \<open>A table as text: fields between tabs, each line with an end.\<close>

fun joined :: "u8 \<Rightarrow> bytes list \<Rightarrow> bytes" where
  "joined d [] = []"
| "joined d [f] = f"
| "joined d (f # fs) = f @ [d] @ joined d fs"

definition table_text :: "bytes \<Rightarrow> bytes list list \<Rightarrow> bytes" where
  "table_text heading rows = heading @ [10] @ concat (map (\<lambda>fs. joined 9 fs @ [10]) rows)"

definition plain_row :: "bytes list \<Rightarrow> bool" where
  "plain_row fs \<longleftrightarrow> fs \<noteq> [] \<and> list_all (list_all (\<lambda>c. c \<notin> {0, 9, 10, 13})) fs"

lemma file_lines_line: "10 \<notin> set l \<Longrightarrow> file_lines (l @ 10 # r) = (l @ [10]) # file_lines r"
  by (induction l) simp_all

lemma joined_set: "set (joined d fs) \<subseteq> insert d (\<Union>f \<in> set fs. set f)"
  by (induction d fs rule: joined.induct) auto

lemma plain_joined:
  assumes "plain_row fs"
  shows "10 \<notin> set (joined 9 fs)" "0 \<notin> set (joined 9 fs)"
  using assms joined_set [of 9 fs] by (fastforce simp: plain_row_def list_all_iff)+

lemma table_lines:
  assumes "10 \<notin> set heading" "list_all plain_row rows"
  shows "file_lines (table_text heading rows) = (heading @ [10]) # map (\<lambda>fs. joined 9 fs @ [10]) rows @ [[]]"
proof -
  have "file_lines (concat (map (\<lambda>fs. joined 9 fs @ [10]) rows)) = map (\<lambda>fs. joined 9 fs @ [10]) rows @ [[]]"
    using assms(2)
  proof (induction rows)
    case (Cons fs rows)
    then show ?case using file_lines_line [of "joined 9 fs"] plain_joined(1) [of fs] by simp
  qed simp
  then show ?thesis using file_lines_line [OF assms(1)] by (simp add: table_text_def)
qed

lemma strsep_at:
  assumes "list_all (\<lambda>c. c \<notin> set seps) t" "c \<in> set seps"
  shows "strsep seps (Some (t @ c # r)) = (Some t, Some r)"
  using assms by (simp add: strsep_def list_all_iff takeWhile_append2 dropWhile_append2)

lemma strsep_end: "list_all (\<lambda>c. c \<notin> set seps) t \<Longrightarrow> strsep seps (Some t) = (Some t, None)"
  by (simp add: strsep_def list_all_iff takeWhile_eq_all_conv dropWhile_eq_Nil_conv [THEN iffD2])

lemma tsv_fields_end: "tsv_fields names None ent = ent"
  by (induction names) (simp_all add: strsep_def)

lemma tsv_fields_row:
  assumes "plain_row fs"
  shows "tsv_fields names (Some (joined 9 fs @ [10])) ent = ent(names [\<mapsto>] fs @ [[]])"
  using assms
proof (induction fs arbitrary: names ent)
  case (Cons f fs)
  have f: "list_all (\<lambda>c. c \<notin> set [9, 13, 10]) f" using Cons.prems by (auto simp: plain_row_def list_all_iff)
  show ?case
  proof (cases names)
    case names: (Cons n ns)
    show ?thesis
    proof (cases fs)
      case Nil
      have "tsv_fields ns (Some []) (ent(n \<mapsto> f)) = (ent(n \<mapsto> f))(ns [\<mapsto>] [[]])"
        by (cases ns) (simp_all add: strsep_def tsv_fields_end)
      then show ?thesis using strsep_at [OF f, of 10 "[]"] by (simp add: Nil names)
    next
      case (Cons f' fs')
      then have "plain_row fs" using Cons.prems by (simp add: plain_row_def)
      then have "tsv_fields ns (Some (joined 9 fs @ [10])) (ent(n \<mapsto> f)) = (ent(n \<mapsto> f))(ns [\<mapsto>] fs @ [[]])"
        by (rule Cons.IH)
      then show ?thesis using strsep_at [OF f, of 9 "joined 9 fs @ [10]"] by (simp add: Cons names)
    qed
  qed simp
qed (simp add: plain_row_def)

text \<open>
  C35. What is read from a table of text whose fields hold no separators: one row for each line, with its
  fields under the names in their order and an empty text under the name behind them, and at the end one
  row more, with an empty first field and nothing else.
\<close>

theorem text_table_rows:
  assumes "10 \<notin> set heading" "list_all plain_row rows"
  shows "loadTsvExcelData names (table_text heading rows) =
    map (\<lambda>fs. Map.empty(names [\<mapsto>] fs @ [[]])) rows @ [Map.empty(names [\<mapsto>] [[]])]"
proof -
  have l: "c_str (joined 9 fs @ [10]) = joined 9 fs @ [10]" if "plain_row fs" for fs
    using plain_joined(2) [OF that] by (simp add: c_str_plain)
  have e: "tsv_fields names (Some []) Map.empty = Map.empty(names [\<mapsto>] [[]])"
    by (cases names) (simp_all add: strsep_def tsv_fields_end)
  show ?thesis
    using assms(2) by (simp add: loadTsvExcelData_def table_lines [OF assms] l e tsv_fields_row list_all_iff)
qed

theorem text_table_rows_witness:
  "loadTsvExcelData [''id'', ''name'', ''more''] (table_text (lit ''x'') [[lit ''1'', lit ''amber''], [lit ''2'', [], lit ''z'']]) =
    [Map.empty(''id'' \<mapsto> lit ''1'', ''name'' \<mapsto> lit ''amber'', ''more'' \<mapsto> []),
     Map.empty(''id'' \<mapsto> lit ''2'', ''name'' \<mapsto> [], ''more'' \<mapsto> lit ''z''), Map.empty(''id'' \<mapsto> [])]"
proof -
  have "10 \<notin> set (lit ''x'')" "list_all plain_row [[lit ''1'', lit ''amber''], [lit ''2'', [], lit ''z'']]"
    by code_simp+
  then show ?thesis using text_table_rows [of "lit ''x''" _ "[''id'', ''name'', ''more'']"] by simp
qed

section \<open>Open states of a table\<close>

lemma number_of_empty: "toInt [] = 0"
  by (simp add: toInt_def strtoul_def strtoul_sign_def strtoul_base_def digits_def)

lemma openstate_barred: "r = openstate_of_row ent \<Longrightarrow> od_id r = 47 \<or> od_id r = 48 \<Longrightarrow>
    od_default r = 0 \<and> (\<exists>q q'. od_conds r = [(OPEN_STATE_COND_PLAYER_LEVEL, -1, q), (OPEN_STATE_COND_PLAYER_LEVEL, -1, q')])"
  by (auto simp: openstate_of_row_def Let_def)

lemma openstate_menu: "r = openstate_of_row ent \<Longrightarrow> od_id r = 1 \<Longrightarrow> od_default r = 1"
  by (auto simp: openstate_of_row_def Let_def)

lemma openstate_last:
  "openstate_of_row (Map.empty(openstate_fields [\<mapsto>] [[]])) =
     \<lparr>od_id = 0, od_default = 0, od_allow = 0, od_conds = [(0, 0, 0), (0, 0, 0)], od_ui = 0\<rparr>"
  by (simp add: openstate_of_row_def openstate_fields_def tryGetKey_def number_of_empty Let_def)

lemma table_choice:
  assumes "\<not> is_json p" "files p = Some content"
  shows "load_table D files names add p es = map_sum id (Pair 0) (add (loadTsvExcelData names content) es)"
  by (simp add: load_table_def assms)

lemma new_player_states:
  "set (pl_openstates (player_default (Some es) raw)) = {os_id e | e. e \<in> set es \<and> opens e 1}"
proof -
  have "pl_ar p = 1 \<Longrightarrow> pl_openstates p = [] \<Longrightarrow>
      set (pl_openstates (fold open_entry es p)) = {os_id e | e. e \<in> set es \<and> opens e 1}" for p
    using open_entries_outcome [of es p] by (simp add: Let_def)
  then show ?thesis by (simp add: player_default_def updateOpenstates_def Let_def)
qed

text \<open>
  C36. The open states of a new player, when the data come from a table of text that ends with a line end:
  state 0, which is in no line of the table, is open, because the row behind the last line asks for rank 0;
  the menu is open if the table has it; the barriers 47 and 48 are closed whatever the table says.
\<close>

theorem open_states_from_text:
  assumes "10 \<notin> set heading" "list_all plain_row rows" "\<not> is_json path" "files path = Some (table_text heading rows)"
    "openstate_load D files path [] = Inr (r, es)"
  shows "r = 0 \<and> length es = length rows + 1
    \<and> getOpenstate 0 (player_default (Some (map openstate_ent_of es)) raw) = 1
    \<and> (getOpenstate 1 (player_default (Some (map openstate_ent_of es)) raw) = 1 \<longleftrightarrow> (\<exists>e \<in> set es. od_id e = 1))
    \<and> getOpenstate 47 (player_default (Some (map openstate_ent_of es)) raw) = 0
    \<and> getOpenstate 48 (player_default (Some (map openstate_ent_of es)) raw) = 0"
proof -
  let ?last = "openstate_of_row (Map.empty(openstate_fields [\<mapsto>] [[]]))"
  have es: "r = 0" "es = map (\<lambda>fs. openstate_of_row (Map.empty(openstate_fields [\<mapsto>] fs @ [[]]))) rows @ [?last]"
    using assms(5) unfolding openstate_load_def
    by (simp_all add: table_choice [of path files, OF assms(3,4)] text_table_rows [OF assms(1,2)] comp_def)
  have st: "getOpenstate st (player_default (Some (map openstate_ent_of es)) raw) = 1
      \<longleftrightarrow> (\<exists>e \<in> set es. od_id e = st \<and> opens (openstate_ent_of e) 1)" for st
    by (auto simp: getOpenstate_def new_player_states openstate_ent_of_def)
  have bit: "getOpenstate st p = 0 \<longleftrightarrow> getOpenstate st p \<noteq> 1" for st p by (simp add: getOpenstate_def)
  have row: "\<exists>ent. e = openstate_of_row ent" if "e \<in> set es" for e using that unfolding es(2) by auto
  have "?last \<in> set es" unfolding es(2) by simp
  moreover have "od_id ?last = 0" "opens (openstate_ent_of ?last) 1"
    by (simp_all add: openstate_last opens_def openstate_ent_of_def OPEN_STATE_COND_PLAYER_LEVEL_def)
  ultimately have "getOpenstate 0 (player_default (Some (map openstate_ent_of es)) raw) = 1" using st by blast
  moreover have "opens (openstate_ent_of e) 1" if m: "e \<in> set es" and i: "od_id e = 1" for e
  proof -
    obtain ent where "e = openstate_of_row ent" using row [OF m] by blast
    then have "od_default e = 1" using openstate_menu i by blast
    then show ?thesis by (simp add: opens_def openstate_ent_of_def)
  qed
  then have "getOpenstate 1 (player_default (Some (map openstate_ent_of es)) raw) = 1 \<longleftrightarrow> (\<exists>e \<in> set es. od_id e = 1)"
    using st by blast
  moreover have "\<not> opens (openstate_ent_of e) 1" if m: "e \<in> set es" and i: "od_id e = 47 \<or> od_id e = 48" for e
  proof -
    obtain ent where "e = openstate_of_row ent" using row [OF m] by blast
    then obtain q q' where "od_default e = 0"
      "od_conds e = [(OPEN_STATE_COND_PLAYER_LEVEL, -1, q), (OPEN_STATE_COND_PLAYER_LEVEL, -1, q')]"
      using openstate_barred i by blast
    moreover have "\<not> (-1 :: u32) \<le> 1" by code_simp
    ultimately show ?thesis by (simp add: opens_def openstate_ent_of_def)
  qed
  then have "getOpenstate 47 (player_default (Some (map openstate_ent_of es)) raw) = 0"
    "getOpenstate 48 (player_default (Some (map openstate_ent_of es)) raw) = 0"
    unfolding bit st by blast+
  ultimately show ?thesis using es by simp
qed

theorem open_states_from_text_witness:
  "\<forall>D raw. \<exists>es. openstate_load D (\<lambda>_. Some (table_text (lit ''id'') [[lit ''47'', lit ''1''], [lit ''5'']])) (lit ''a.tsv'') [] = Inr (0, es)
     \<and> length es = 3 \<and> getOpenstate 0 (player_default (Some (map openstate_ent_of es)) raw) = 1
     \<and> getOpenstate 47 (player_default (Some (map openstate_ent_of es)) raw) = 0"
proof (intro allI)
  fix D raw
  let ?rows = "[[lit ''47'', lit ''1''], [lit ''5'']]"
  let ?files = "\<lambda>_ :: bytes. Some (table_text (lit ''id'') ?rows)"
  have p: "10 \<notin> set (lit ''id'')" "list_all plain_row ?rows" "\<not> is_json (lit ''a.tsv'')" by code_simp+
  obtain r es where es: "openstate_load D ?files (lit ''a.tsv'') [] = Inr (r, es)"
    unfolding openstate_load_def by (simp add: table_choice [where files = ?files, OF p(3)])
  from open_states_from_text [OF p(1,2,3) _ es, of raw] es
  show "\<exists>es. openstate_load D ?files (lit ''a.tsv'') [] = Inr (0, es)
     \<and> length es = 3 \<and> getOpenstate 0 (player_default (Some (map openstate_ent_of es)) raw) = 1
     \<and> getOpenstate 47 (player_default (Some (map openstate_ent_of es)) raw) = 0" by auto
qed

section \<open>Tables in JSON\<close>

lemma json_name: "n = m @ ''.json'' \<Longrightarrow> length (c_str dir) + length n \<le> 4094 \<Longrightarrow> is_json (take 4094 (c_str dir @ lit n))"
proof -
  assume n: "n = m @ ''.json''" and l: "length (c_str dir) + length n \<le> 4094"
  have j: "lit ''.json'' = [46, 106, 115, 111, 110]" "(of_char (CHR ''.'') :: u8) = 46" by code_simp+
  have "take 4094 (c_str dir @ lit n) = (c_str dir @ lit m) @ lit ''.json''"
    using l n by (simp add: lit_def)
  then show ?thesis by (simp add: is_json_def file_ext_def j strncmp_eq_def c_str_def)
qed

lemma load_first_json:
  assumes "files p = Some content" "is_json p" "json_read D [] (file_blocks content) = Some root" "jd_type D root = Array_type"
    "\<And>es. add [] es = Inr es"
  shows "load_first (load_table D files names add) (p # ps) es = Inr (0, es)"
  using assms by (simp add: load_table_def loadJsonExcelData_def json_rows_none)

text \<open>
  When the data directory has the three tables in JSON, under the first names that are tried, and each is
  an array, loading succeeds and all three tables are empty, whatever the arrays hold and whatever tables of
  text are there too: an element is only taken when the array is an object.
\<close>

theorem json_tables_empty:
  assumes "length (c_str dir) \<le> 4000"
    "list_all (\<lambda>n. \<exists>content root. files (c_str dir @ lit n) = Some content
        \<and> json_read D [] (file_blocks content) = Some root \<and> jd_type D root = Array_type)
      [''/ExcelBinOutput/AvatarExcelConfigData.json'', ''/ExcelBinOutput/AvatarSkillDepotExcelConfigData.json'',
       ''/ExcelBinOutput/OpenStateConfigData.json'']"
  shows "game_data_new F D files dir = Inr \<lparr>gd_avatars = [], gd_depots = [], gd_states = []\<rparr>"
proof -
  have one: "load_first (load_table D files names add) (table_paths dir long short) [] = Inr (0, [])"
    if short_name: "length (''/ExcelBinOutput/'' @ long @ ''.json'') \<le> 94"
      and there: "\<exists>content root. files (c_str dir @ lit (''/ExcelBinOutput/'' @ long @ ''.json'')) = Some content
        \<and> json_read D [] (file_blocks content) = Some root \<and> jd_type D root = Array_type"
      and keeps: "\<And>es. add [] es = Inr es" for long short names and add :: "excel_ent list \<Rightarrow> 'e list \<Rightarrow> cpp_fault + 'e list"
  proof -
    let ?n = "''/ExcelBinOutput/'' @ long @ ''.json''"
    have l: "length (c_str dir) + length ?n \<le> 4094" using assms(1) short_name by simp
    have t: "take 4094 (c_str dir @ lit ?n) = c_str dir @ lit ?n" using l by (simp add: lit_def)
    have j: "is_json (c_str dir @ lit ?n)" using json_name [of ?n "''/ExcelBinOutput/'' @ long" dir] l t by simp
    obtain content root where f: "files (c_str dir @ lit ?n) = Some content"
      "json_read D [] (file_blocks content) = Some root" "jd_type D root = Array_type" using there by blast
    show ?thesis unfolding table_paths_def list.map(2) t by (rule load_first_json [where files = files and add = add, OF f(1) j f(2,3) keeps])
  qed
  have "avatar_load_all F D files dir = Inr (0, [])"
    unfolding avatar_load_all_def avatar_load_def by (rule one) (use assms(2) in simp_all)
  moreover have "depot_load_all D files dir = Inr (0, [])"
    unfolding depot_load_all_def depot_load_def by (rule one) (use assms(2) in simp_all)
  moreover have "openstate_load_all D files dir = Inr (0, [])"
    unfolding openstate_load_all_def openstate_load_def by (rule one) (use assms(2) in simp_all)
  ultimately show ?thesis by (simp add: game_data_new_def)
qed

theorem json_tables_empty_witness:
  "\<forall>F. game_data_new F \<lparr>jd_feed = (\<lambda>_. Got ()), jd_type = (\<lambda>_. Array_type), jd_elements = (\<lambda>_. [Some ()]), jd_members = (\<lambda>_. [(''id'', None)])\<rparr>
     (\<lambda>_. Some (lit ''[{}]'')) (lit ''data'') = Inr \<lparr>gd_avatars = [], gd_depots = [], gd_states = []\<rparr>"
proof (intro allI, rule json_tables_empty)
  have r: "jd_feed D = (\<lambda>_. Got r) \<Longrightarrow> json_read D [] (file_blocks c) = Some r" for D :: "'j doc_lib" and r c
    by (subst file_blocks.simps) simp
  have "length (c_str s) \<le> 4000" if "length s = 4" for s using c_str_length [of s] that by simp
  then show "length (c_str (lit ''data'')) \<le> 4000" by (simp add: lit_def)
  show "list_all (\<lambda>n. \<exists>content root. Some (lit ''[{}]'') = Some content
      \<and> json_read \<lparr>jd_feed = (\<lambda>_. Got ()), jd_type = (\<lambda>_. Array_type), jd_elements = (\<lambda>_. [Some ()]), jd_members = (\<lambda>_. [(''id'', None)])\<rparr>
           [] (file_blocks content) = Some root
      \<and> jd_type \<lparr>jd_feed = (\<lambda>_. Got ()), jd_type = (\<lambda>_. Array_type), jd_elements = (\<lambda>_. [Some ()]), jd_members = (\<lambda>_. [(''id'', None)])\<rparr> root = Array_type)
      [''/ExcelBinOutput/AvatarExcelConfigData.json'', ''/ExcelBinOutput/AvatarSkillDepotExcelConfigData.json'',
       ''/ExcelBinOutput/OpenStateConfigData.json'']"
    by (simp add: r)
qed

section \<open>Rewards of avatars\<close>

definition plain_items :: "bytes list \<Rightarrow> bool" where
  "plain_items fs \<longleftrightarrow> fs \<noteq> [] \<and> joined 59 fs \<noteq> [] \<and> list_all (list_all (\<lambda>c. c \<notin> {0, 59})) fs"

lemma joined_Cons: "fs \<noteq> [] \<Longrightarrow> joined d (f # fs) = f @ d # joined d fs"
  by (cases fs) simp_all

lemma strsep_joined:
  assumes "list_all (\<lambda>c. c \<noteq> 59) f"
  shows "strsep [59] (Some (joined 59 (f # fs))) = (Some f, if fs = [] then None else Some (joined 59 fs))"
  using assms strsep_at [of "[59]" f 59 "joined 59 fs"] strsep_end [of "[59]" f] by (cases "fs = []") (simp_all add: joined_Cons)

lemma plain_item: "list_all (list_all (\<lambda>c. c \<notin> {0, 59})) (f # fs) \<Longrightarrow> list_all (\<lambda>c. c \<noteq> 59) f"
  by (simp add: list_all_iff)

lemma reward_loop_end: "reward_loop None v m = Inr (m, v)"
  by (subst reward_loop.simps) simp

lemma reward_loop_lists:
  assumes "list_all (list_all (\<lambda>c. c \<notin> {0, 59})) ks" "list_all (list_all (\<lambda>c. c \<notin> {0, 59})) vs" "length ks = length vs" "ks \<noteq> []"
  shows "reward_loop (Some (joined 59 ks)) (At_text (joined 59 vs)) m
    = Inr (m(map toInt ks [\<mapsto>] map toInt (butlast vs) @ [0]), Null_ptr)"
  using assms
proof (induction ks vs arbitrary: m rule: list_induct2')
  case (4 k ks v vs)
  have s: "strsep [59] (Some (joined 59 (k # ks))) = (Some k, if ks = [] then None else Some (joined 59 ks))"
    "strsep [59] (Some (joined 59 (v # vs))) = (Some v, if vs = [] then None else Some (joined 59 vs))"
    by (rule strsep_joined, rule plain_item, fact 4)+
  show ?case
  proof (cases "ks = []")
    case True
    then show ?thesis using 4(4) s by (subst reward_loop.simps) (simp add: reward_loop_end)
  next
    case False
    then have "vs \<noteq> []" using 4(4) by auto
    moreover have "reward_loop (Some (joined 59 ks)) (At_text (joined 59 vs)) (m(toInt k \<mapsto> toInt v))
        = Inr ((m(toInt k \<mapsto> toInt v))(map toInt ks [\<mapsto>] map toInt (butlast vs) @ [0]), Null_ptr)"
      using 4(1) 4(2-4) False by simp
    ultimately show ?thesis using False s by (subst reward_loop.simps) simp
  qed
qed simp_all

lemma items_plain: "plain_items fs \<Longrightarrow> c_str (joined 59 fs) = joined 59 fs"
  using joined_set [of 59 fs] by (intro c_str_plain) (fastforce simp: plain_items_def list_all_iff)

text \<open>
  The rewards of an avatar, read from a list of levels and a list of as many rewards: each level has its
  reward, except the last one, which gets 0. Without a list of levels in the first row of a table the loop
  reads a pointer that was never set; a file with nothing but headings and a line end is such a table.
\<close>

theorem avatar_rewards:
  assumes "plain_items ks" "plain_items vs" "length ks = length vs" "10 \<notin> set heading" "\<not> is_json path"
    "files path = Some (table_text heading [])"
  shows "row_rewards (joined 59 ks) (joined 59 vs) ptrs
      = Inr (Map.empty(map toInt ks [\<mapsto>] map toInt (butlast vs) @ [0]), Null_ptr, Null_ptr)
    \<and> row_rewards [] rewards (Wild, p) = Inl Dangling
    \<and> avatar_load F D files path es = Inl Dangling"
proof -
  have "row_rewards (joined 59 ks) (joined 59 vs) ptrs
      = Inr (Map.empty(map toInt ks [\<mapsto>] map toInt (butlast vs) @ [0]), Null_ptr, Null_ptr)"
    using assms(1-3) reward_loop_lists [of ks vs] items_plain [OF assms(1)] items_plain [OF assms(2)]
    by (simp add: row_rewards_def plain_items_def)
  moreover have empty: "row_rewards [] x (Wild, q) = Inl Dangling" for x q by (simp add: row_rewards_def)
  moreover have "tryGetKey (Map.empty(avatar_fields [\<mapsto>] [[]])) ''avatarPromoteRewardLevelList'' = []"
    by (simp add: avatar_fields_def tryGetKey_def)
  then have "avatar_load F D files path es = Inl Dangling"
    unfolding avatar_load_def table_choice [where files = files, OF assms(5,6)]
    using text_table_rows [OF assms(4), of "[]"] by (simp add: empty)
  ultimately show ?thesis by simp
qed

theorem avatar_rewards_witness:
  "\<forall>F D. row_rewards (lit ''1;2;6'') (lit ''101;102;106'') (Wild, Wild) =
      Inr (Map.empty(1 \<mapsto> 101, 2 \<mapsto> 102, 6 \<mapsto> 0), Null_ptr, Null_ptr)
    \<and> avatar_load F D (\<lambda>_. Some (table_text (lit ''id'') [])) (lit ''a.tsv'') [] = Inl Dangling"
proof (intro allI)
  fix F D
  let ?k = "map decimal [1, 2, 6]" and ?v = "map decimal [101, 102, 106]"
  have j: "joined 59 ?k = lit ''1;2;6''" "joined 59 ?v = lit ''101;102;106''" by code_simp+
  have p: "plain_items ?k" "plain_items ?v" "10 \<notin> set (lit ''id'')" "\<not> is_json (lit ''a.tsv'')" by code_simp+
  have n: "map toInt ?k = [1, 2, 6]" "map toInt (butlast ?v) = [101, 102]" by (simp_all add: toInt_decimal)
  show "row_rewards (lit ''1;2;6'') (lit ''101;102;106'') (Wild, Wild) =
      Inr (Map.empty(1 \<mapsto> 101, 2 \<mapsto> 102, 6 \<mapsto> 0), Null_ptr, Null_ptr)
    \<and> avatar_load F D (\<lambda>_. Some (table_text (lit ''id'') [])) (lit ''a.tsv'') [] = Inl Dangling"
    using avatar_rewards [OF p(1,2) _ p(3,4), of "\<lambda>_. Some (table_text (lit ''id'') [])" "(Wild, Wild)" _ _ F D "[]"]
    unfolding j n by simp
qed

end
