(* ===== verification/Config_File.thy ===== *)
theory Config_File
  imports Region_Config
begin

text \<open>
  Loading the configuration, \<open>src/runconfig.cpp\<close>. The TOML library (\<open>src/toml.c\<close>, vendored) is an argument,
  as are the directories fixed when the program is built. Memory can be allocated; a member the code does
  not set keeps what the memory held.
\<close>

section \<open>The file\<close>

text \<open>
  \<open>ce_path\<close> is the path given on the command line, \<open>ce_home\<close> the home directory, of the environment or of the
  user's entry, and \<open>ce_raw_domain\<close> what the memory of the region holds.
\<close>

record config_env =
  ce_path :: "bytes option"
  ce_home_var :: "bytes option"
  ce_home_entry :: "bytes option"
  ce_conf_dir :: bytes
  ce_top_dir :: bytes
  ce_var_dir :: bytes
  ce_data_dir :: bytes
  ce_log_dir :: bytes
  ce_raw_domain :: bool

definition config_file_name :: bytes where "config_file_name = lit ''yagips.conf''"

definition path_list :: "config_env \<Rightarrow> bytes option list" where
  "path_list E =
     [None, Some config_file_name, Some (lit ''.yagips/config''), Some (lit ''.yagips/'' @ config_file_name),
      Some (lit ''.config/'' @ config_file_name), Some (lit ''.'' @ config_file_name), Some config_file_name,
      Some (ce_conf_dir E @ lit ''/config''), Some (ce_conf_dir E @ lit ''/'' @ config_file_name),
      Some (ce_top_dir E @ lit ''/'' @ config_file_name), None]"

definition home_path :: "config_env \<Rightarrow> bytes option" where
  "home_path E = (case ce_home_var E of Some h \<Rightarrow> Some h | None \<Rightarrow> ce_home_entry E)"

text \<open>Without a home directory the five paths below it are passed over, and one more.\<close>

function config_search :: "config_env \<Rightarrow> (bytes \<Rightarrow> 't option option) \<Rightarrow> nat \<Rightarrow> 't option" where
  "config_search E parse i =
     (if 11 \<le> i then None
      else if 2 \<le> i \<and> i \<le> 6 \<and> home_path E = None then config_search E parse (i + 6)
      else
        let p = (if i = 0 then ce_path E
                 else if 2 \<le> i \<and> i \<le> 6
                 then Some (take 4094 (the (home_path E) @ lit ''/'' @ the (path_list E ! i)))
                 else path_list E ! i)
        in case Option.bind p parse of
             Some (Some t) \<Rightarrow> Some t
           | _ \<Rightarrow> config_search E parse (i + 1))"
  by pat_completeness auto
termination by (relation "measure (\<lambda>(_, _, i). 11 - i)") auto

declare config_search.simps [simp del]

section \<open>Values\<close>

text \<open>The tables of the library; a number is signed with 64 bits.\<close>

record 't toml =
  tm_table :: "'t \<Rightarrow> string \<Rightarrow> 't option"
  tm_int :: "'t \<Rightarrow> string \<Rightarrow> u64 option"
  tm_bool :: "'t \<Rightarrow> string \<Rightarrow> bool option"
  tm_string :: "'t \<Rightarrow> string \<Rightarrow> bytes option"
  tm_array :: "'t \<Rightarrow> string \<Rightarrow> 't option list option"

record config =
  cf_game_ip :: bytes
  cf_dispatch_ip :: bytes
  cf_game_port :: u16
  cf_dispatch_port :: u16
  cf_max_sessions :: u32
  cf_kcp_interval :: u32
  cf_tick_rate :: u32
  cf_db :: bytes
  cf_data :: bytes
  cf_log :: bytes
  cf_regions :: "region_entry option list"
  cf_region :: "region_config option"

definition default_config :: "config_env \<Rightarrow> config" where
  "default_config E =
     \<lparr>cf_game_ip = lit ''::'', cf_dispatch_ip = lit ''::'', cf_game_port = 22102, cf_dispatch_port = 22100,
      cf_max_sessions = 10, cf_kcp_interval = 100, cf_tick_rate = 500, cf_db = ce_var_dir E @ lit ''/db'',
      cf_data = ce_data_dir E, cf_log = ce_log_dir E @ lit ''/yagips.log'', cf_regions = [], cf_region = None\<rparr>"

definition int_or :: "'t toml \<Rightarrow> 't \<Rightarrow> string \<Rightarrow> 'w::len word \<Rightarrow> 'w word" where
  "int_or T t k d = (case tm_int T t k of Some v \<Rightarrow> ucast v | None \<Rightarrow> d)"

definition string_or :: "'t toml \<Rightarrow> 't \<Rightarrow> string \<Rightarrow> bytes \<Rightarrow> bytes" where
  "string_or T t k d = (case tm_string T t k of Some v \<Rightarrow> v | None \<Rightarrow> d)"

definition load_core :: "config_env \<Rightarrow> 't toml \<Rightarrow> 't \<Rightarrow> config \<Rightarrow> config" where
  "load_core E T t c =
     c\<lparr>cf_max_sessions := int_or T t ''maxSessions'' 10, cf_tick_rate := int_or T t ''sessionTickRate'' 500,
       cf_db := string_or T t ''dbPath'' (ce_var_dir E @ lit ''/db''), cf_data := string_or T t ''dataPath'' (ce_data_dir E),
       cf_log := string_or T t ''logFile'' (ce_log_dir E @ lit ''/yagips.log'')\<rparr>"

definition load_net :: "'t toml \<Rightarrow> 't \<Rightarrow> config \<Rightarrow> config" where
  "load_net T t c =
     c\<lparr>cf_game_ip := string_or T t ''gameserverBindIp'' (lit ''::''), cf_game_port := int_or T t ''gameserverBindPort'' 22102,
       cf_dispatch_ip := string_or T t ''dispatchBindIp'' (lit ''::''), cf_dispatch_port := int_or T t ''dispatchBindPort'' 22100,
       cf_kcp_interval := int_or T t ''kcpInterval'' 100\<rparr>"

definition load_res :: "'t toml \<Rightarrow> 't \<Rightarrow> res_config" where
  "load_res T t =
     (let s = tm_string T t
      in \<lparr>rc_resource_url = s ''resourceUrl'', rc_data_url = s ''dataUrl'', rc_resource_bak = s ''resourceUrlBak'',
          rc_resource_next = s ''resourceUrlNext'', rc_data_bak = s ''dataUrlBak'', rc_resource_suffix = s ''resourceSuffix'',
          rc_data_suffix = s ''dataSuffix'', rc_silence_suffix = s ''silenceSuffix'', rc_branch = s ''branch'',
          rc_script_version = s ''scriptVersion'', rc_res_version = int_or T t ''resVersion'' 0,
          rc_data_version = int_or T t ''dataVersion'' 0, rc_silence_version = int_or T t ''silenceVersion'' 0,
          rc_resource_res = s ''resourceRes'', rc_data_res = s ''dataRes'', rc_silence_res = s ''silenceRes'',
          rc_relogin = ((int_or T t ''relogin'' 0 :: u32) \<noteq> 0), rc_total_size = s ''releaseTotalSize''\<rparr>)"

text \<open>The addresses of the next version are those of the present one.\<close>

definition load_next :: "'t toml \<Rightarrow> res_config \<Rightarrow> 't \<Rightarrow> res_config" where
  "load_next T res t =
     (load_res T t)\<lparr>rc_resource_url := rc_resource_url res, rc_data_url := rc_data_url res,
       rc_resource_bak := rc_resource_bak res, rc_resource_next := rc_resource_next res, rc_data_bak := rc_data_bak res\<rparr>"

definition load_stop :: "'t toml \<Rightarrow> 't \<Rightarrow> stop_server" where
  "load_stop T t =
     \<lparr>st_start = int_or T t ''start'' 0, st_end = int_or T t ''end'' 0, st_url = tm_string T t ''url'', st_msg = tm_string T t ''msg''\<rparr>"

definition load_entry :: "'t toml \<Rightarrow> 't \<Rightarrow> region_entry" where
  "load_entry T t =
     (let s = tm_string T t
      in \<lparr>re_name = s ''name'', re_type = s ''type'', re_title = s ''title'', re_url = s ''url'', re_version = s ''version''\<rparr>)"

text \<open>What decides whether a message about a stop or an update is sent: only numbers above 2 are kept.\<close>

definition load_send :: "'t toml \<Rightarrow> 't \<Rightarrow> u32" where
  "load_send T t =
     (case tm_int T t ''sendStopServerOrForceUpdate'' of None \<Rightarrow> 0 | Some v \<Rightarrow> if sint v > 2 then ucast v else 0)"

definition load_region :: "config_env \<Rightarrow> 't toml \<Rightarrow> 't \<Rightarrow> region_config" where
  "load_region E T t =
     (let s = tm_string T t; res = tm_table T t ''res''
      in \<lparr>rg_ip = Some (string_or T t ''gateserverIp'' (lit ''127.0.0.1'')), rg_port = int_or T t ''gateserverPort'' 22102,
          rg_is_domain = (case tm_bool T t ''gateserverIpIsDomain'' of Some b \<Rightarrow> b | None \<Rightarrow> ce_raw_domain E),
          rg_urls = map s [''feedbackUrl'', ''bulletinUrl'', ''handbookUrl'', ''communityUrl'', ''userCenterUrl'', ''privacyPolicyUrl'', ''accountBindUrl'', ''cdKeyUrl'', ''payCbUrl''],
          rg_res = map_option (load_res T) res,
          rg_next = Option.bind res (\<lambda>r. map_option (load_next T (load_res T r)) (tm_table T r ''next'')),
          rg_biz = s ''gameBiz'', rg_area = s ''areaType'', rg_update_url = s ''forceUpdateUrl'',
          rg_custom = s ''regionCustomConfig'', rg_client_custom = s ''clientRegionCustomConfig'',
          rg_send = load_send T t, rg_stop = map_option (load_stop T) (tm_table T t ''stop'')\<rparr>)"

definition load_dispatch :: "config_env \<Rightarrow> 't toml \<Rightarrow> 't \<Rightarrow> config \<Rightarrow> config" where
  "load_dispatch E T t c =
     c\<lparr>cf_region := Some (load_region E T t),
       cf_regions := (case tm_array T t ''regions'' of None \<Rightarrow> [] | Some es \<Rightarrow> map (map_option (load_entry T)) es)\<rparr>"

text \<open>The constructor: a section that is missing leaves the defaults.\<close>

definition config_new :: "config_env \<Rightarrow> 't toml \<Rightarrow> (bytes \<Rightarrow> 't option option) \<Rightarrow> config" where
  "config_new E T parse =
     (case config_search E parse 0 of
        None \<Rightarrow> default_config E
      | Some root \<Rightarrow>
          let section = (\<lambda>name load c. case tm_table T root name of None \<Rightarrow> c | Some t \<Rightarrow> load t c)
          in section ''dispatch'' (load_dispatch E T) (section ''net'' (load_net T) (section ''core'' (load_core E T) (default_config E))))"

end
