(* ===== verification/Config_Properties.thy ===== *)
theory Config_Properties
  imports Config_File Region_Query Sample_Store
begin

text \<open>
  Properties of the configuration: which file is taken, and what the setting for stop and update messages
  does to the answer of the dispatch server.
\<close>

section \<open>The file that is taken\<close>

fun first_parsed :: "(bytes \<Rightarrow> 't option option) \<Rightarrow> bytes list \<Rightarrow> 't option" where
  "first_parsed parse [] = None"
| "first_parsed parse (p # ps) = (case parse p of Some (Some t) \<Rightarrow> Some t | _ \<Rightarrow> first_parsed parse ps)"

definition in_home :: "bytes \<Rightarrow> bytes \<Rightarrow> bytes" where
  "in_home h n = take 4094 (h @ lit ''/'' @ n)"

text \<open>The candidates in their order, with and without a home directory.\<close>

definition candidates :: "config_env \<Rightarrow> bytes list" where
  "candidates E =
     (case ce_path E of None \<Rightarrow> [] | Some p \<Rightarrow> [p]) @ [config_file_name] @
     (case home_path E of
        None \<Rightarrow> []
      | Some h \<Rightarrow> map (in_home h) [lit ''.yagips/config'', lit ''.yagips/'' @ config_file_name, lit ''.config/'' @ config_file_name,
                              lit ''.'' @ config_file_name, config_file_name] @ [ce_conf_dir E @ lit ''/config'']) @
     [ce_conf_dir E @ lit ''/'' @ config_file_name, ce_top_dir E @ lit ''/'' @ config_file_name]"

lemma first_parsed_append: "first_parsed parse (ps @ qs) = (case first_parsed parse ps of Some t \<Rightarrow> Some t | None \<Rightarrow> first_parsed parse qs)"
  by (induction ps) (simp_all split: option.splits)

text \<open>The search from each index on, for a path that is tried and for the home directory that is missing.\<close>

lemma search_end: "config_search E parse 11 = None" "config_search E parse 10 = None"
  by (simp_all add: config_search.simps [of E parse 10] config_search.simps [of E parse 11] path_list_def)

lemma search_plain:
  assumes "config_search E parse j = first_parsed parse ps" "path_list E ! i = Some p" "i = 1 \<or> 7 \<le> i \<and> i \<le> 9" "j = i + 1"
  shows "config_search E parse i = first_parsed parse (p # ps)"
  unfolding first_parsed.simps assms(1) [symmetric] assms(4)
  by (subst config_search.simps) (use assms(2,3) in auto)

lemma search_home:
  assumes "config_search E parse j = first_parsed parse ps" "home_path E = Some h" "path_list E ! i = Some n"
    "2 \<le> i \<and> i \<le> 6" "j = i + 1"
  shows "config_search E parse i = first_parsed parse (in_home h n # ps)"
  unfolding first_parsed.simps assms(1) [symmetric] assms(5) in_home_def
  by (subst config_search.simps) (use assms(2-4) in auto)

lemma search_homeless: "home_path E = None \<Longrightarrow> config_search E parse 2 = config_search E parse 8"
  by (subst config_search.simps) simp

text \<open>
  The configuration is the first file of the list of candidates that can be opened and parsed. Without
  a home directory the file \<open>config\<close> of the configuration directory is not tried, although it is not below
  the home directory.
\<close>

theorem config_file_choice: "config_search E parse 0 = first_parsed parse (candidates E)"
proof -
  have l: "path_list E ! 1 = Some config_file_name" "path_list E ! 2 = Some (lit ''.yagips/config'')"
    "path_list E ! 3 = Some (lit ''.yagips/'' @ config_file_name)" "path_list E ! 4 = Some (lit ''.config/'' @ config_file_name)"
    "path_list E ! 5 = Some (lit ''.'' @ config_file_name)" "path_list E ! 6 = Some config_file_name"
    "path_list E ! 7 = Some (ce_conf_dir E @ lit ''/config'')" "path_list E ! 8 = Some (ce_conf_dir E @ lit ''/'' @ config_file_name)"
    "path_list E ! 9 = Some (ce_top_dir E @ lit ''/'' @ config_file_name)"
    by (simp_all add: path_list_def)
  let ?ends = "[ce_conf_dir E @ lit ''/'' @ config_file_name, ce_top_dir E @ lit ''/'' @ config_file_name]"
  have "config_search E parse 10 = first_parsed parse []" by (simp add: search_end)
  then have "config_search E parse 9 = first_parsed parse [ce_top_dir E @ lit ''/'' @ config_file_name]"
    by (rule search_plain [OF _ l(9)]) simp_all
  then have ends: "config_search E parse 8 = first_parsed parse ?ends" by (rule search_plain [OF _ l(8)]) simp_all
  define homes where "homes = (case home_path E of
        None \<Rightarrow> []
      | Some h \<Rightarrow> map (in_home h) [lit ''.yagips/config'', lit ''.yagips/'' @ config_file_name, lit ''.config/'' @ config_file_name,
                              lit ''.'' @ config_file_name, config_file_name] @ [ce_conf_dir E @ lit ''/config''])"
  have "config_search E parse 2 = first_parsed parse (homes @ ?ends)"
  proof (cases "home_path E")
    case None
    then show ?thesis using ends search_homeless [OF None, of parse] by (simp only: homes_def None option.case append.simps)
  next
    case (Some h)
    note home = search_home [OF _ Some]
    have "config_search E parse 7 = first_parsed parse ((ce_conf_dir E @ lit ''/config'') # ?ends)"
      by (rule search_plain [OF ends l(7)]) simp_all
    from this l(6) have "config_search E parse 6 = first_parsed parse (in_home h config_file_name # (ce_conf_dir E @ lit ''/config'') # ?ends)"
      by (rule home) simp_all
    from this l(5) have "config_search E parse 5 = first_parsed parse
        (in_home h (lit ''.'' @ config_file_name) # in_home h config_file_name # (ce_conf_dir E @ lit ''/config'') # ?ends)"
      by (rule home) simp_all
    from this l(4) have "config_search E parse 4 = first_parsed parse (in_home h (lit ''.config/'' @ config_file_name) #
        in_home h (lit ''.'' @ config_file_name) # in_home h config_file_name # (ce_conf_dir E @ lit ''/config'') # ?ends)"
      by (rule home) simp_all
    from this l(3) have "config_search E parse 3 = first_parsed parse (in_home h (lit ''.yagips/'' @ config_file_name) #
        in_home h (lit ''.config/'' @ config_file_name) # in_home h (lit ''.'' @ config_file_name) #
        in_home h config_file_name # (ce_conf_dir E @ lit ''/config'') # ?ends)"
      by (rule home) simp_all
    from this l(2) have "config_search E parse 2 = first_parsed parse (in_home h (lit ''.yagips/config'') #
        in_home h (lit ''.yagips/'' @ config_file_name) # in_home h (lit ''.config/'' @ config_file_name) #
        in_home h (lit ''.'' @ config_file_name) # in_home h config_file_name # (ce_conf_dir E @ lit ''/config'') # ?ends)"
      by (rule home) simp_all
    then show ?thesis unfolding homes_def Some option.case list.map append.simps .
  qed
  then have from1: "config_search E parse 1 = first_parsed parse (config_file_name # homes @ ?ends)"
    by (rule search_plain [OF _ l(1)]) simp_all
  have c: "candidates E = (case ce_path E of None \<Rightarrow> [] | Some p \<Rightarrow> [p]) @ config_file_name # homes @ ?ends"
    by (simp add: candidates_def homes_def)
  have "config_search E parse 0 = (case Option.bind (ce_path E) parse of Some (Some t) \<Rightarrow> Some t | _ \<Rightarrow> config_search E parse 1)"
    by (subst config_search.simps) (simp cong: option.case_cong)
  then show ?thesis unfolding from1 c by (cases "ce_path E") simp_all
qed

section \<open>Stop and update messages\<close>

text \<open>
  C37. A server that is configured to send the message about a stop or about an update, by 1 or 2 or by any
  other number below 2 to the power of 32, sends neither: only numbers above 2 are kept, and the answer looks
  for 1 and 2.
\<close>

theorem stop_and_update_never_sent:
  assumes "tm_int T t ''sendStopServerOrForceUpdate'' = Some v" "sint v < 2 ^ 32"
  shows "rg_send (load_region E T t) \<notin> {1, 2}
    \<and> pq_stop (fst (getQueryCurrRegion W (Some (load_region E T t)) dispatch_seed seed post)) = None
    \<and> pq_update (fst (getQueryCurrRegion W (Some (load_region E T t)) dispatch_seed seed post)) = None"
proof -
  have s: "rg_send (load_region E T t) = load_send T t" by (simp add: load_region_def Let_def)
  have "load_send T t \<notin> {1, 2}"
  proof (cases "sint v > 2")
    case True
    then have "uint v = sint v" using assms(2) by (simp add: uint_sint take_bit_int_eq_self)
    then have "uint (ucast v :: u32) = sint v"
      using True assms(2) by (simp add: unsigned_ucast_eq take_bit_int_eq_self)
    then have "(ucast v :: u32) \<notin> {1, 2}" using True by auto
    then show ?thesis using True assms(1) by (simp add: load_send_def)
  qed (simp add: load_send_def assms(1))
  then show ?thesis by (simp add: getQueryCurrRegion_def s split: prod.split)
qed

text \<open>A library for a file with one table and one number in it.\<close>

definition one_number :: "u64 \<Rightarrow> unit toml" where
  "one_number v =
     \<lparr>tm_table = (\<lambda>_ k. if k = ''dispatch'' \<or> k = ''stop'' then Some () else None), tm_int = (\<lambda>_ k. if k = ''sendStopServerOrForceUpdate'' then Some v else None),
      tm_bool = (\<lambda>_ _. None), tm_string = (\<lambda>_ _. None), tm_array = (\<lambda>_ _. None)\<rparr>"

theorem stop_and_update_never_sent_witness:
  "\<forall>E. pq_stop (fst (getQueryCurrRegion (sample_web []) (Some (load_region E (one_number 1) ())) None None None)) = None"
proof -
  have "tm_int (one_number 1) () ''sendStopServerOrForceUpdate'' = Some 1" "sint (1 :: u64) < 2 ^ 32"
    by (simp_all add: one_number_def)
  from stop_and_update_never_sent [OF this] show ?thesis by blast
qed

end
