(* ===== verification/First_Login.thy ===== *)
theory First_Login
  imports Login
begin

unbundle bit_operations_syntax

text \<open>
  \<open>Player::onLogin\<close> of \<open>src/player.cpp\<close>: what a player gets when the login is accepted, and what the client
  is told. The notices are protobuf messages; the environment writes them as bytes.
\<close>

section \<open>The notices\<close>

record pb_prop =
  pv_type :: u32
  pv_val :: u64
  pv_ival :: u64

record pb_avatars =
  an_avatars :: "pb_avatar list"
  an_teams :: "(u32 \<times> pb_team) list"
  an_cur_team :: u32
  an_chosen :: u64
  an_flycloaks :: "u32 list"

record pb_player_data =
  dn_nick :: bytes
  dn_time :: u64
  dn_first_today :: bool
  dn_region :: u32
  dn_props :: "u32 \<rightharpoonup> pb_prop"

record pb_store =
  sn_type :: nat
  sn_items :: "pb_item list"
  sn_weight :: u32

record pb_limits =
  ln_type :: nat
  ln_weight :: u32
  ln_materials :: u32
  ln_weapons :: u32
  ln_reliquaries :: u32

text \<open>The position of a player is three floating point numbers; the environment gives their bits.\<close>

record pb_enter_scene =
  en_scene :: u32
  en_pos :: "u32 \<times> u32 \<times> u32"
  en_begin :: u64
  en_target :: u32
  en_token :: u32
  en_first_login :: bool
  en_world :: u32
  en_reason :: u32
  en_type :: nat

datatype notification =
    Avatar_data pb_avatars
  | Player_data pb_player_data
  | Player_store pb_store
  | Store_limits pb_limits
  | Enter_scene pb_enter_scene

fun notification_opcode :: "notification \<Rightarrow> u16" where
  "notification_opcode (Avatar_data _) = 1716"
| "notification_opcode (Player_data _) = 108"
| "notification_opcode (Player_store _) = 601"
| "notification_opcode (Store_limits _) = 602"
| "notification_opcode (Enter_scene _) = 201"

text \<open>A header is left out, or made with the session's next number or a fixed one.\<close>

datatype header_seq = No_header | Next_seq | Seq u32

text \<open>
  Where the objects are made that a first login adds, the memory they are made in, the position of the
  player and the serialiser.
\<close>

record login_memory =
  lm_item :: addr
  lm_avatar :: addr
  lm_team :: addr
  lm_local :: addr
  lm_raw_item :: item
  lm_raw_avatar :: avatar
  lm_pos :: "u32 \<times> u32 \<times> u32"
  lm_write :: "notification \<Rightarrow> bytes option"

section \<open>The starter set\<close>

definition STORE_PACK :: nat where "STORE_PACK = 1"
definition ENTER_SELF :: nat where "ENTER_SELF = 1"

definition starter_guid :: "player \<Rightarrow> u64" where
  "starter_guid pl = push_bit 32 (ucast (pl_uid pl)) OR 0xd0d0c0"

text \<open>The fields are stored one after the other into the union at the end of the item.\<close>

definition starter_weapon :: "u64 \<Rightarrow> item \<Rightarrow> item" where
  "starter_weapon guid raw =
     (let d = put_le 5 1 (90 :: u8) (it_data raw);
          d = put_le 0 4 (700000 :: u32) d;
          d = put_le 4 1 (1 :: u8) d;
          d = put_le 6 1 (6 :: u8) d;
          d = put_le 7 1 (5 :: u8) d;
          d = put_le 8 4 (1 :: u32) d;
          d = put_le 12 4 (1145024 :: u32) d
      in (item_new 14502 raw)\<lparr>it_guid := guid OR 0x1000000, it_type := ITEM_WEAPON, it_data := d\<rparr>)"

text \<open>What lies at an address: an item of the player, or what the environment has there.\<close>

definition bag_env :: "avatar_env \<Rightarrow> player \<Rightarrow> avatar_env" where
  "bag_env env pl = env\<lparr>ae_item := ae_item env ++ map_of (pl_items pl)\<rparr>"

definition team_name_text :: bytes where
  "team_name_text = [0x79, 0x61, 0x67, 0x69, 0x70, 0x73, 0x20, 0x74, 0x65, 0x73, 0x74, 0x20, 0x74, 0x65, 0x61, 0x6d]"

definition starter_set ::
  "avatar_env \<Rightarrow> login_memory \<Rightarrow> player \<Rightarrow> cpp_fault + item \<times> avatar \<times> team \<times> player" where
  "starter_set env M pl =
     (let guid = starter_guid pl;
          (_, it, pl) = addItem (lm_item M) (Some (starter_weapon guid (lm_raw_item M))) pl
      in case avatar_of_id env 10000029 (lm_raw_avatar M) of
           Inl f \<Rightarrow> Inl f
         | Inr av \<Rightarrow>
             (case setWeapon (bag_env env pl) (getItemByGuid (it_guid (the it)) pl) (setGuid guid av) of
                Inl f \<Rightarrow> Inl f
              | Inr (_, av) \<Rightarrow>
                  let (_, av, pl) = addAvatar (lm_avatar M) (Some av) pl;
                      pl = snd (swapToAvatar_guid guid pl)
                  in case team_addAvatar (avatars_at pl) (getAvatarByGuid guid pl) (setName team_name_text team_new) of
                       Inl f \<Rightarrow> Inl f
                     | Inr (_, t) \<Rightarrow>
                         map_sum id (\<lambda>(_, pl). (the it, the av, t, pl))
                           (swapToTeam (lm_local M) t (snd (addAvatarTeam (lm_team M) (Some t) pl)))))"

section \<open>What is sent\<close>

text \<open>The avatar that is sent is the local one; its conversion replaces the guid added before it.\<close>

definition avatar_notice :: "avatar_env \<Rightarrow> item \<Rightarrow> avatar \<Rightarrow> team \<Rightarrow> u64 \<Rightarrow> player \<Rightarrow> cpp_fault + pb_avatars" where
  "avatar_notice env it av t guid pl =
     (case avatar_to_pb (bag_env env pl) av of
        Inl f \<Rightarrow> Inl f
      | Inr (pa, _) \<Rightarrow>
          map_sum id (\<lambda>pt. \<lparr>an_avatars = [pa], an_teams = [(1, pt)], an_cur_team = 1, an_chosen = guid,
              an_flycloaks = [140001]\<rparr>) (team_to_pb (avatars_at pl) t))"

definition player_notice :: "u64 \<Rightarrow> player \<Rightarrow> pb_player_data" where
  "player_notice now pl =
     \<lparr>dn_nick = pl_name pl, dn_time = now, dn_first_today = True, dn_region = 1,
      dn_props = (\<lambda>k. map_option (\<lambda>v. \<lparr>pv_type = k, pv_val = v, pv_ival = v\<rparr>) (pl_props pl k))\<rparr>"

definition limits_notice :: pb_limits where
  "limits_notice =
     \<lparr>ln_type = STORE_PACK, ln_weight = 5000, ln_materials = 3000, ln_weapons = 1000, ln_reliquaries = 2000\<rparr>"

definition scene_notice :: "u64 \<Rightarrow> u32 \<times> u32 \<times> u32 \<Rightarrow> player \<Rightarrow> pb_enter_scene" where
  "scene_notice now pos pl =
     \<lparr>en_scene = pl_scene pl, en_pos = pos, en_begin = now, en_target = pl_uid pl, en_token = pl_tp pl,
      en_first_login = True, en_world = pl_world pl, en_reason = 1, en_type = ENTER_SELF\<rparr>"

definition with_header :: "'d login_env \<Rightarrow> header_seq \<Rightarrow> packet \<Rightarrow> session \<Rightarrow> packet \<times> session" where
  "with_header E h p s =
     (case h of
        No_header \<Rightarrow> (p, s)
      | Next_seq \<Rightarrow> let (q, s) = nextSeq s in (snd (buildHeader (le_header E) (le_ms E) q p), s)
      | Seq q \<Rightarrow> (snd (buildHeader (le_header E) (le_ms E) q p), s))"

text \<open>
  A message that cannot be written is skipped, and what \<open>sendPacket\<close> returns is not looked at.
\<close>

fun send_notices ::
  "'d login_env \<Rightarrow> (notification \<Rightarrow> bytes option) \<Rightarrow> (header_seq \<times> notification) list \<Rightarrow> session \<Rightarrow> cpp_fault + session" where
  "send_notices E write [] s = Inr s"
| "send_notices E write ((h, n) # ns) s =
     (case write n of
        None \<Rightarrow> send_notices E write ns s
      | Some data \<Rightarrow>
          let (p, s) = with_header E h (new_packet (notification_opcode n)) s
          in case sendPacket (le_malloc E) (le_dispatch E) (le_buffer E) (setPacketData data p) s of
               Inl f \<Rightarrow> Inl f
             | Inr (_, s) \<Rightarrow> send_notices E write ns s)"

text \<open>
  The notices to the session that the player object itself points to, about its open states, are returned;
  they go between the first message and the others, and none of these depends on them.
\<close>

definition onLogin :: "'d login_env \<Rightarrow> login_memory \<Rightarrow> connection \<Rightarrow> cpp_fault + notice list \<times> connection" where
  "onLogin E M c =
     (case (ss_kcp (cn_session c), cn_player c) of
        (None, _) \<Rightarrow> Inr ([], c)
      | (_, None) \<Rightarrow> Inr ([], c)
      | (Some _, Some pl0) \<Rightarrow>
          (case starter_set (le_avatars E) M pl0 of
             Inl f \<Rightarrow> Inl f
           | Inr (it, av, t, pl) \<Rightarrow>
               (case avatar_notice (le_avatars E) it av t (starter_guid pl0) pl of
                  Inl f \<Rightarrow> Inl f
                | Inr an \<Rightarrow>
                    let (told, pl) = updateOpenstates (pe_states (le_players E)) 1 pl
                    in case item_to_pb it of
                         Inl f \<Rightarrow> Inl f
                       | Inr pi \<Rightarrow>
                           map_sum id (\<lambda>s. (told, c\<lparr>cn_session := setState S_ACTIVE s, cn_player := Some pl\<rparr>))
                             (send_notices E (lm_write M)
                               [(Next_seq, Avatar_data an),
                                (Seq 2, Player_data (player_notice (le_ms E) pl)),
                                (Seq 2, Player_store \<lparr>sn_type = STORE_PACK, sn_items = [pi], sn_weight = 5000\<rparr>),
                                (No_header, Store_limits limits_notice),
                                (No_header, Enter_scene (scene_notice (le_ms E) (lm_pos M) pl))]
                               (cn_session c)))))"

text \<open>The login of a player, with this as its last step.\<close>

definition player_login ::
  "'d login_env \<Rightarrow> login_memory \<Rightarrow> bytes \<Rightarrow> connection \<Rightarrow> 'd dbgate \<Rightarrow> cpp_fault + 'd handled" where
  "player_login E M data c g = handlePlayerLoginReq E (\<lambda>c. map_sum id snd (onLogin E M c)) data c g"

end
