(* ===== verification/Scene_Entry.thy ===== *)
theory Scene_Entry
  imports First_Login
begin

unbundle bit_operations_syntax

text \<open>
  The handlers of a client that is on its way into the game: \<open>src/packets/ping.cpp\<close>,
  \<open>src/packets/player_blacklist.cpp\<close> and \<open>src/packets/enter_scene.cpp\<close>. The protobuf messages are read and
  written by functions of the environment.
\<close>

section \<open>The messages\<close>

record pb_peer =
  pr_token :: u32
  pr_scene :: u32
  pr_peer :: u32
  pr_host :: u32

record pb_scene_info =
  si_token :: u32
  si_cur_entity :: u32
  si_team_entity :: u32
  si_level_entity :: u32
  si_level_peer :: u32
  si_avatar_entity :: u32
  si_avatar_guid :: u64
  si_weapon_entity :: u32
  si_weapon_guid :: u64

record pb_scene_weapon =
  sw_entity :: u32
  sw_item :: u32
  sw_guid :: u64
  sw_level :: u32
  sw_promote :: u32

record pb_scene_avatar =
  sa_uid :: u32
  sa_avatar :: u32
  sa_guid :: u64
  sa_peer :: u32
  sa_equips :: "u32 list"
  sa_weapon :: pb_scene_weapon

record pb_scene_entity =
  se_life :: u32
  se_entity :: u32
  se_type :: nat
  se_avatar :: pb_scene_avatar

record pb_scene_team =
  st_avatar :: pb_avatar
  st_scene_avatar :: pb_scene_avatar
  st_entity_info :: pb_scene_entity
  st_weapon_guid :: u64
  st_weapon_entity :: u32
  st_entity :: u32
  st_uid :: u32
  st_scene :: u32

datatype answer =
    Ping_rsp u32
  | Blacklist_rsp u32
  | Scene_peer pb_peer
  | Scene_ready_rsp u32
  | Scene_info pb_scene_info
  | Scene_team pb_scene_team
  | Scene_init_rsp u32 u32

fun answer_opcode :: "answer \<Rightarrow> u16" where
  "answer_opcode (Ping_rsp _) = 6"
| "answer_opcode (Blacklist_rsp _) = 4040"
| "answer_opcode (Scene_peer _) = 284"
| "answer_opcode (Scene_ready_rsp _) = 283"
| "answer_opcode (Scene_info _) = 268"
| "answer_opcode (Scene_team _) = 1738"
| "answer_opcode (Scene_init_rsp _ _) = 205"

definition RET_ENTER_SCENE_TOKEN_INVALID :: u32 where "RET_ENTER_SCENE_TOKEN_INVALID = 521"
definition PROT_ENTITY_AVATAR :: nat where "PROT_ENTITY_AVATAR = 1"

text \<open>What reads a packet head (its sequence number), a ping and a request, and what writes an answer.\<close>

record scene_env =
  sc_head :: "bytes \<Rightarrow> u32 option"
  sc_ping :: "bytes \<Rightarrow> bool"
  sc_init :: "bytes \<Rightarrow> u32 option"
  sc_write :: "answer \<Rightarrow> bytes option"

definition send_packet :: "'d login_env \<Rightarrow> packet \<Rightarrow> connection \<Rightarrow> cpp_fault + int \<times> connection" where
  "send_packet E p c =
     map_sum id (\<lambda>(r, s). (r, c\<lparr>cn_session := s\<rparr>)) (sendPacket (le_malloc E) (le_dispatch E) (le_buffer E) p (cn_session c))"

text \<open>An answer: its message, with a header of its own for a sequence number or the one given.\<close>

definition send_answer ::
  "'d login_env \<Rightarrow> scene_env \<Rightarrow> (packet \<Rightarrow> packet) \<Rightarrow> answer \<Rightarrow> connection \<Rightarrow> cpp_fault + int \<times> connection" where
  "send_answer E X head a c =
     (case sc_write X a of
        None \<Rightarrow> Inr (-1, c)
      | Some data \<Rightarrow> send_packet E (setPacketData data (head (new_packet (answer_opcode a)))) c)"

definition own_header :: "'d login_env \<Rightarrow> u32 \<Rightarrow> packet \<Rightarrow> packet" where
  "own_header E seq p = snd (buildHeader (le_header E) (le_ms E) seq p)"

section \<open>Ping and blacklist\<close>

definition handlePingReq ::
  "'d login_env \<Rightarrow> scene_env \<Rightarrow> bytes \<Rightarrow> bytes \<Rightarrow> connection \<Rightarrow> cpp_fault + int \<times> connection" where
  "handlePingReq E X header data c =
     (case sc_head X header of
        None \<Rightarrow> Inr (-1, c)
      | Some seq \<Rightarrow>
          if \<not> sc_ping X data then Inr (-1, c)
          else send_answer E X (setHeader header) (Ping_rsp seq)
                 (c\<lparr>cn_session := setLastPingTime (le_ms E) (cn_session c)\<rparr>))"

definition handleGetPlayerBlacklistReq ::
  "'d login_env \<Rightarrow> scene_env \<Rightarrow> connection \<Rightarrow> cpp_fault + int \<times> connection" where
  "handleGetPlayerBlacklistReq E X c = send_answer E X (own_header E 2) (Blacklist_rsp 0) c"

section \<open>Entering the scene\<close>

definition handleEnterSceneReadyReq ::
  "'d login_env \<Rightarrow> scene_env \<Rightarrow> connection \<Rightarrow> cpp_fault + int \<times> connection" where
  "handleEnterSceneReadyReq E X c =
     (case cn_player c of
        None \<Rightarrow> Inr (-1, c)
      | Some pl \<Rightarrow>
          (case send_answer E X id (Scene_peer \<lparr>pr_token = pl_tp pl, pr_scene = 3, pr_peer = 1, pr_host = 1\<rparr>) c of
             Inl f \<Rightarrow> Inl f
           | Inr (r, c) \<Rightarrow>
               if r < 0 then Inr (-1, c)
               else send_answer E X (own_header E 11) (Scene_ready_rsp (pl_tp pl)) c))"

text \<open>The entities are numbered by kind and index, all with index 1; the guids are those of the starter set.\<close>

definition entity_id :: "u32 \<Rightarrow> u32" where
  "entity_id kind = push_bit 24 kind OR 1"

definition scene_info :: "player \<Rightarrow> pb_scene_info" where
  "scene_info pl =
     (let guid = (\<lambda>low. push_bit 32 (ucast (pl_uid pl)) OR low)
      in \<lparr>si_token = pl_tp pl, si_cur_entity = entity_id 1, si_team_entity = entity_id 9,
          si_level_entity = entity_id 11, si_level_peer = 1, si_avatar_entity = entity_id 1,
          si_avatar_guid = guid 0xd0d0c0, si_weapon_entity = entity_id 6, si_weapon_guid = guid 0x1d0d0c0\<rparr>)"

text \<open>
  The current avatar with its weapon. The conversion loads the equipment, so that the avatar changes, and
  every later look at the weapon finds the same; the list of equipment takes the low half of a guid.
\<close>

definition scene_team :: "avatar_env \<Rightarrow> player \<Rightarrow> addr \<Rightarrow> cpp_fault + pb_scene_team \<times> player" where
  "scene_team env pl a =
     (case avatars_at pl a of
        None \<Rightarrow> Inl Dangling
      | Some av \<Rightarrow>
          (case avatar_to_pb (bag_env env pl) av of
             Inl f \<Rightarrow> Inl f
           | Inr (pa, av) \<Rightarrow>
               (case getWeapon (bag_env env pl) av of
                  Inl f \<Rightarrow> Inl f
                | Inr (w, av) \<Rightarrow>
                    map_sum id (\<lambda>it.
                      let d = it_data it;
                          weapon = \<lparr>sw_entity = entity_id 6, sw_item = it_id it, sw_guid = it_guid it,
                                    sw_level = ucast (get_le 5 1 d :: u8), sw_promote = ucast (get_le 6 1 d :: u8)\<rparr>;
                          info = \<lparr>sa_uid = pl_uid pl, sa_avatar = av_id av, sa_guid = av_guid av, sa_peer = 1,
                                  sa_equips = [ucast (it_guid it)], sa_weapon = weapon\<rparr>
                      in (\<lparr>st_avatar = pa, st_scene_avatar = info,
                           st_entity_info = \<lparr>se_life = 1, se_entity = entity_id 1, se_type = PROT_ENTITY_AVATAR,
                             se_avatar = info\<rparr>,
                           st_weapon_guid = it_guid it, st_weapon_entity = entity_id 6, st_entity = entity_id 1,
                           st_uid = pl_uid pl, st_scene = 3\<rparr>,
                          pl\<lparr>pl_avatars := map (\<lambda>(b, x). if b = a then (b, av) else (b, x)) (pl_avatars pl)\<rparr>))
                      (item_read (bag_env env pl) w))))"

definition handleSceneInitFinishReq ::
  "'d login_env \<Rightarrow> scene_env \<Rightarrow> bytes \<Rightarrow> connection \<Rightarrow> cpp_fault + int \<times> connection" where
  "handleSceneInitFinishReq E X data c =
     (case cn_player c of
        None \<Rightarrow> Inr (-1, c)
      | Some pl \<Rightarrow>
          (case sc_init X data of
             None \<Rightarrow> Inr (-1, c)
           | Some token \<Rightarrow>
               if pl_tp pl \<noteq> token
               then send_answer E X (own_header E 11) (Scene_init_rsp RET_ENTER_SCENE_TOKEN_INVALID 0) c
               else
                 (case send_answer E X id (Scene_info (scene_info pl)) c of
                    Inl f \<Rightarrow> Inl f
                  | Inr (r, c) \<Rightarrow>
                      if r < 0 then Inr (-1, c)
                      else
                        (case getCurAvatar pl of
                           Inl f \<Rightarrow> Inl f
                         | Inr None \<Rightarrow> send_answer E X (own_header E 11) (Scene_init_rsp 0 token) c
                         | Inr (Some a) \<Rightarrow>
                             (case scene_team (le_avatars E) pl a of
                                Inl f \<Rightarrow> Inl f
                              | Inr (team, pl) \<Rightarrow>
                                  (case send_answer E X id (Scene_team team) (c\<lparr>cn_player := Some pl\<rparr>) of
                                     Inl f \<Rightarrow> Inl f
                                   | Inr (r, c) \<Rightarrow>
                                       if r < 0 then Inr (-1, c)
                                       else send_answer E X (own_header E 11) (Scene_init_rsp 0 token) c))))))"

end
