(* ===== verification/Client_Session.thy ===== *)
theory Client_Session
  imports Scene_Entry Session_Props Item_Props Player_Props
begin

unbundle bit_operations_syntax

text \<open>
  A client on its way from the handshake into the game: \<open>processPacket\<close> of \<open>src/packet_handlers.cpp\<close> with
  the handlers of the program, the states of a connection it leads to, and what the handlers do for a
  player that has just been loaded.
\<close>

section \<open>Dispatch with the handlers of the program\<close>

type_synonym 'd client = "connection \<times> 'd dbgate \<times> mt_state"

text \<open>\<^term>\<open>None\<close> is the search for a new player's uid that does not end.\<close>

definition process_client ::
  "'d login_env \<Rightarrow> login_memory \<Rightarrow> scene_env \<Rightarrow> packet \<Rightarrow> 'd client \<Rightarrow> (cpp_fault + int \<times> 'd client) option" where
  "process_client E M X p x =
     (let opc = pk_opcode p; (c, g, m) = x;
          keep = map_sum id (\<lambda>(r, c). (r, (c, g, m)))
      in if opc = PingReq then Some (keep (handlePingReq E X (pk_header p) (pk_data p) c))
         else if opc = GetPlayerTokenReq
         then map_option (map_sum id (\<lambda>(h, m). (hd_ret h, (hd_conn h, hd_gate h, m)))) (handleGetPlayerTokenReq E (pk_data p) c g m)
         else if opc = PlayerLoginReq
         then Some (map_sum id (\<lambda>h. (hd_ret h, (hd_conn h, hd_gate h, m))) (player_login E M (pk_data p) c g))
         else if opc = EnterSceneReadyReq then Some (keep (handleEnterSceneReadyReq E X c))
         else if opc = SceneInitFinishReq then Some (keep (handleSceneInitFinishReq E X (pk_data p) c))
         else if opc = GetPlayerBlacklistReq then Some (keep (handleGetPlayerBlacklistReq E X c))
         else if opc = EvtAiSyncCombatThreatInfoNotify then Some (Inr (0, x))
         else Some (Inr (- int (unat opc), x)))"

text \<open>
  The states a connection comes to from a new session, with the packets handled so far, the latest first. A
  closed session handles no more packets.
\<close>

inductive client_reach ::
  "'d login_env \<Rightarrow> login_memory \<Rightarrow> scene_env \<Rightarrow> 'd client \<Rightarrow> packet list \<Rightarrow> 'd client \<Rightarrow> bool"
  for E :: "'d login_env" and M :: login_memory and X :: scene_env and x0 :: "'d client"
where
  new: "client_reach E M X x0 [] x0"
| handled: "client_reach E M X x0 ps x \<Longrightarrow> S_NOT_CONNECTED < ss_state (cn_session (fst x)) \<Longrightarrow>
    process_client E M X p x = Some (Inr (r, y)) \<Longrightarrow> client_reach E M X x0 (p # ps) y"

inductive_simps client_reach_Nil: "client_reach E M X x0 [] x"
inductive_simps client_reach_Cons: "client_reach E M X x0 (p # ps) x"

text \<open>Each list of packets leads to one state at most, which can be computed.\<close>

primrec run_client ::
  "'d login_env \<Rightarrow> login_memory \<Rightarrow> scene_env \<Rightarrow> 'd client \<Rightarrow> packet list \<Rightarrow> 'd client option" where
  "run_client E M X x0 [] = Some x0"
| "run_client E M X x0 (p # ps) =
     Option.bind (run_client E M X x0 ps) (\<lambda>x.
       if S_NOT_CONNECTED < ss_state (cn_session (fst x))
       then case process_client E M X p x of Some (Inr (r, y)) \<Rightarrow> Some y | _ \<Rightarrow> None
       else None)"

lemma client_reach_run: "client_reach E M X x0 ps x \<longleftrightarrow> run_client E M X x0 ps = Some x"
proof (induction ps arbitrary: x)
  case Nil
  then show ?case by (auto simp: client_reach_Nil)
next
  case (Cons p ps)
  show ?case
  proof (cases "run_client E M X x0 ps")
    case None
    then show ?thesis by (simp add: client_reach_Cons Cons.IH)
  next
    case (Some y)
    then show ?thesis
      by (cases y; cases "process_client E M X p y"; cases "the (process_client E M X p y)")
        (auto simp: client_reach_Cons Cons.IH)
  qed
qed

section \<open>Sending\<close>

text \<open>
  There is room for the messages when the buffer has its size and no header and no message is too long for
  it; then sending to a session that is open changes its control block and nothing else.
\<close>

definition roomy :: "'d login_env \<Rightarrow> ('m \<Rightarrow> bytes option) \<Rightarrow> bool" where
  "roomy E write \<longleftrightarrow> length (le_buffer E) = 4096 \<and> (\<forall>q t h. le_header E q t = Some h \<longrightarrow> length h \<le> 1000)
     \<and> (\<forall>n d. write n = Some d \<longrightarrow> length d \<le> 3000)"

lemma send_room:
  assumes "length buf = 4096" "12 + length (pk_header p) + length (pk_data p) \<le> 4096" "ss_kcp s \<noteq> None"
  shows "\<exists>r ks. sendPacket mal d buf p s = Inr (r, s\<lparr>ss_kcp := Some ks\<rparr>) \<and> (r = 0 \<or> r = -1)"
proof -
  obtain ks where ks: "ss_kcp s = Some ks" using assms(3) by auto
  obtain r ks' where "ks_send mal (Some (crypt (send_key d p s) (frame p))) ks = (r, ks')" by (metis surj_pair)
  then have "sendPacket mal d buf p s = Inr (if r < 0 then -1 else 0, s\<lparr>ss_kcp := Some ks'\<rparr>)"
    unfolding sendPacket_eq [OF assms(1)] length_frame using assms(2) ks by simp
  then show ?thesis by auto
qed

lemma sendPacket_session:
  assumes "sendPacket mal d buf p s = Inr (r, s')"
  shows "s' = s\<lparr>ss_kcp := ss_kcp s'\<rparr>" "ss_kcp s \<noteq> None \<Longrightarrow> ss_kcp s' \<noteq> None"
  using assms by (auto simp: sendPacket_def Let_def split: sum.splits prod.splits option.splits if_splits)

lemma built_packet:
  assumes "roomy E write" "pk_header p = []"
  shows "length (pk_header (snd (buildHeader (le_header E) t q p))) \<le> 1000"
    "pk_data (snd (buildHeader (le_header E) t q p)) = pk_data p"
  using assms by (auto simp: buildHeader_def Let_def roomy_def split: option.split)

lemma session_same:
  "\<exists>q. s = s\<lparr>ss_seq := q\<rparr>" "ss_kcp s \<noteq> None \<Longrightarrow> \<exists>ks q. s = s\<lparr>ss_kcp := Some ks, ss_seq := q\<rparr>"
  "ss_kcp s \<noteq> None \<Longrightarrow> \<exists>ks. s = s\<lparr>ss_kcp := Some ks\<rparr>"
  by (cases s, auto)+

lemma with_header_room:
  assumes "roomy E write" "with_header E h (new_packet opc) s = (p, t)"
  shows "length (pk_header p) \<le> 1000" "\<exists>q. t = s\<lparr>ss_seq := q\<rparr>"
proof -
  have n: "pk_header (new_packet opc) = []" by (simp add: new_packet_def)
  show "length (pk_header p) \<le> 1000"
    using assms(2) built_packet(1) [OF assms(1) n] n by (auto simp: with_header_def Let_def nextSeq_def split: header_seq.splits)
  show "\<exists>q. t = s\<lparr>ss_seq := q\<rparr>"
    using assms(2) session_same(1) [of s] by (cases h) (auto simp: with_header_def Let_def nextSeq_def)
qed

lemma send_notices_room:
  assumes "roomy E write" "ss_kcp s \<noteq> None"
  shows "\<exists>ks q. send_notices E write ns s = Inr (s\<lparr>ss_kcp := Some ks, ss_seq := q\<rparr>)"
  using assms(2)
proof (induction ns arbitrary: s)
  case Nil
  then show ?case using session_same(2) [of s] by simp
next
  case (Cons x ns)
  obtain h n where x: "x = (h, n)" by (cases x)
  show ?case
  proof (cases "write n")
    case (Some data)
    obtain p t where t: "with_header E h (new_packet (notification_opcode n)) s = (p, t)" by (metis surj_pair)
    note wt = with_header_room [OF assms(1) t]
    from wt(2) obtain q where q: "t = s\<lparr>ss_seq := q\<rparr>" by blast
    have "length data \<le> 3000" "length (le_buffer E) = 4096" using assms(1) Some by (simp_all add: roomy_def)
    moreover have "ss_kcp t \<noteq> None" using Cons.prems by (simp add: q)
    ultimately obtain r ks where r: "sendPacket (le_malloc E) (le_dispatch E) (le_buffer E) (setPacketData data p) t
        = Inr (r, t\<lparr>ss_kcp := Some ks\<rparr>)"
      using send_room [of "le_buffer E" "setPacketData data p" t "le_malloc E" "le_dispatch E"] wt(1)
      by (auto simp: setPacketData_def)
    obtain ks' q' where "send_notices E write ns (t\<lparr>ss_kcp := Some ks\<rparr>) = Inr (t\<lparr>ss_kcp := Some ks', ss_seq := q'\<rparr>)"
      using Cons.IH [of "t\<lparr>ss_kcp := Some ks\<rparr>"] by auto
    then have "send_notices E write (x # ns) s = Inr (t\<lparr>ss_kcp := Some ks', ss_seq := q'\<rparr>)" by (simp add: x Some t r)
    then show ?thesis by (auto simp: q)
  qed (use Cons x in auto)
qed

lemma send_answer_room:
  assumes "roomy E (sc_write X)" "ss_kcp (cn_session c) \<noteq> None"
    "\<And>p. pk_header p = [] \<Longrightarrow> length (pk_header (head p)) \<le> 1000" "\<And>p. pk_data (head p) = pk_data p"
  shows "\<exists>r ks. send_answer E X head a c = Inr (r, c\<lparr>cn_session := (cn_session c)\<lparr>ss_kcp := Some ks\<rparr>\<rparr>) \<and> (r = 0 \<or> r = -1)"
proof (cases "sc_write X a")
  case None
  obtain ks where "cn_session c = (cn_session c)\<lparr>ss_kcp := Some ks\<rparr>" using session_same(3) [OF assms(2)] by auto
  then have "c = c\<lparr>cn_session := (cn_session c)\<lparr>ss_kcp := Some ks\<rparr>\<rparr>" by simp
  with None show ?thesis by (auto simp: send_answer_def)
next
  case (Some data)
  let ?p = "setPacketData data (head (new_packet (answer_opcode a)))"
  have "length data \<le> 3000" "length (le_buffer E) = 4096" using assms(1) Some by (simp_all add: roomy_def)
  moreover have "length (pk_header ?p) \<le> 1000" using assms(3) by (simp add: setPacketData_def new_packet_def)
  moreover have "pk_data ?p = data" by (simp add: setPacketData_def)
  ultimately obtain r ks where "sendPacket (le_malloc E) (le_dispatch E) (le_buffer E) ?p (cn_session c)
      = Inr (r, (cn_session c)\<lparr>ss_kcp := Some ks\<rparr>)" "r = 0 \<or> r = -1"
    using send_room [of "le_buffer E" ?p "cn_session c" "le_malloc E" "le_dispatch E"] assms(2) by auto
  then show ?thesis by (auto simp: send_answer_def send_packet_def Some)
qed

section \<open>A player that has just been loaded\<close>

text \<open>Both constructors leave a player without avatars, teams and items; only a uid of 0 is never given.\<close>

definition just_loaded :: "player \<Rightarrow> bool" where
  "just_loaded pl \<longleftrightarrow> pl_uid pl \<noteq> 0 \<and> pl_avatars pl = [] \<and> pl_teams pl = [] \<and> pl_items pl = []"

definition starter_avatar :: "avatar_env \<Rightarrow> login_memory \<Rightarrow> u64 \<Rightarrow> avatar" where
  "starter_avatar env M g =
     (setGuid g (projr (avatar_of_id env 10000029 (lm_raw_avatar M))))\<lparr>av_weapon := Some (lm_item M)\<rparr>"

definition starter_team :: "login_memory \<Rightarrow> team" where
  "starter_team M = \<lparr>tm_name = team_name_text, tm_avatars = [Some (lm_avatar M)]\<rparr>"

text \<open>The player with the starter set.\<close>

definition with_starter :: "avatar_env \<Rightarrow> login_memory \<Rightarrow> player \<Rightarrow> player" where
  "with_starter env M pl =
     pl\<lparr>pl_items := [(lm_item M, starter_weapon (starter_guid pl) (lm_raw_item M))],
        pl_avatars := [(lm_avatar M, starter_avatar env M (starter_guid pl))],
        pl_teams := [(lm_team M, starter_team M)], pl_cur_avatar := Some (lm_avatar M), pl_cur_team := 0\<rparr>"

lemma guid_halves:
  fixes u :: u32
  shows "drop_bit 32 (push_bit 32 (ucast u) OR 0xd0d0c0 :: u64) = ucast u"
    "drop_bit 32 (push_bit 32 (ucast u) OR 0x1d0d0c0 :: u64) = ucast u"
    "(push_bit 32 (ucast u) OR 0xd0d0c0 :: u64) AND 0xffffffff = 0xd0d0c0"
    "(push_bit 32 (ucast u) OR 0x1d0d0c0 :: u64) AND 0xffffffff = 0x1d0d0c0"
    "(push_bit 32 (ucast u) OR 0xd0d0c0 :: u64) OR 0x1000000 = push_bit 32 (ucast u) OR 0x1d0d0c0"
proof -
  have m: "(0xffffffff :: u64) = mask 32" by (rule mask32)
  have t: "take_bit 32 (push_bit 32 (ucast u) :: u64) = 0" by (simp add: bit_eq_iff bit_simps)
  have d: "drop_bit 32 (push_bit 32 (ucast u) :: u64) = ucast u" by (auto simp: bit_eq_iff bit_simps dest: bit_imp_le_length)
  show "drop_bit 32 (push_bit 32 (ucast u) OR 0xd0d0c0 :: u64) = ucast u"
    "drop_bit 32 (push_bit 32 (ucast u) OR 0x1d0d0c0 :: u64) = ucast u" by (simp_all add: d)
  show "(push_bit 32 (ucast u) OR 0xd0d0c0 :: u64) AND 0xffffffff = 0xd0d0c0"
    "(push_bit 32 (ucast u) OR 0x1d0d0c0 :: u64) AND 0xffffffff = 0x1d0d0c0"
    unfolding m by (simp_all add: t flip: take_bit_eq_mask)
  show "(push_bit 32 (ucast u) OR 0xd0d0c0 :: u64) OR 0x1000000 = push_bit 32 (ucast u) OR 0x1d0d0c0"
    by (simp add: or.assoc)
qed

lemma starter_weapon_fields:
  "it_type (starter_weapon g raw) = ITEM_WEAPON" "it_guid (starter_weapon g raw) = g OR 0x1000000"
  "it_id (starter_weapon g raw) = 14502"
  by (simp_all add: starter_weapon_def item_new_def Let_def)

text \<open>The weapon as it is sent, and what the scene handler reads of it.\<close>

lemma starter_weapon_sent:
  assumes "length (it_data raw) = 16"
  shows "item_to_pb (starter_weapon g raw) = Inr \<lparr>pi_id = 14502, pi_guid = g OR 0x1000000,
      pi_detail = Equip True (Weapon \<lparr>pw_level = 90, pw_exp = 700000, pw_promote = 6, pw_affixes = [(1145024, 5)]\<rparr>)\<rparr>"
    "get_le 5 1 (it_data (starter_weapon g raw)) = (90 :: u8)" "get_le 6 1 (it_data (starter_weapon g raw)) = (6 :: u8)"
  using assms
  by (simp_all add: item_to_pb_def starter_weapon_fields)
    (simp_all add: starter_weapon_def item_new_def Let_def mem_simps ITEM_MATERIAL_def ITEM_WEAPON_def ITEM_ARTIFACT_def)

lemma starter_set_new:
  assumes "just_loaded pl" "avatar_by_id (ae_avatars env) 10000029 = Some d"
  shows "starter_set env M pl = Inr (starter_weapon (starter_guid pl) (lm_raw_item M),
    starter_avatar env M (starter_guid pl), starter_team M, with_starter env M pl)"
proof -
  let ?g = "starter_guid pl"
  define w where "w = starter_weapon ?g (lm_raw_item M)"
  define av where "av = starter_avatar env M ?g"
  define t where "t = starter_team M"
  have pl: "pl_uid pl \<noteq> 0" "pl_avatars pl = []" "pl_teams pl = []" "pl_items pl = []"
    using assms(1) by (simp_all add: just_loaded_def)
  have up: "ucast (ucast u :: u64) = (u :: u32)" for u by (auto simp: bit_eq_iff bit_simps)
  have g: "?g OR 0x1000000 = push_bit 32 (ucast (pl_uid pl)) OR 0x1d0d0c0"
    by (simp only: starter_guid_def guid_halves)
  have item: "addItem (lm_item M) (Some w) pl = (0, Some w, pl\<lparr>pl_items := [(lm_item M, w)]\<rparr>)"
  proof -
    have "drop_bit 32 (it_guid w) = ucast (pl_uid pl)" "it_guid w AND 0xffffffff = 0x1d0d0c0"
      by (simp_all only: w_def starter_weapon_fields g guid_halves)
    moreover have "(ucast (pl_uid pl) :: u64) \<noteq> 0" using pl(1) up [of "pl_uid pl"] by (metis unsigned_0)
    ultimately show ?thesis using pl(4) by (simp add: addItem_def)
  qed
  obtain av0 where a: "avatar_of_id env 10000029 (lm_raw_avatar M) = Inr av0"
    using assms(2) by (simp add: avatar_of_id_def Let_def)
  then have av: "av = (setGuid ?g av0)\<lparr>av_weapon := Some (lm_item M)\<rparr>" by (simp add: av_def starter_avatar_def)
  let ?pl = "pl\<lparr>pl_items := [(lm_item M, w)]\<rparr>"
  have "getItemByGuid (it_guid w) ?pl = Some (lm_item M)" by (simp add: getItemByGuid_def find_node_def)
  then have weapon: "setWeapon (bag_env env ?pl) (getItemByGuid (it_guid w) ?pl) (setGuid ?g av0) = Inr (0, av)"
    by (simp add: setWeapon_def item_read_def bag_env_def w_def starter_weapon_fields av)
  have guid: "av_guid av = ?g" by (simp add: av setGuid_def)
  have halves: "getUid av = pl_uid pl" "?g AND 0xffffffff = 0xd0d0c0"
    unfolding getUid_def guid starter_guid_def guid_halves up by simp_all
  have add: "addAvatar (lm_avatar M) (Some av) ?pl = (0, Some av, ?pl\<lparr>pl_avatars := [(lm_avatar M, av)]\<rparr>)"
    using pl(1,2) by (simp add: addAvatar_def guid halves)
  have swap: "swapToAvatar_guid ?g (?pl\<lparr>pl_avatars := [(lm_avatar M, av)]\<rparr>)
      = (0, ?pl\<lparr>pl_avatars := [(lm_avatar M, av)], pl_cur_avatar := Some (lm_avatar M)\<rparr>)"
    by (simp add: swapToAvatar_guid_def swapToAvatar_def getAvatarByGuid_def find_node_def guid)
  have team: "swapToTeam (lm_local M) u (q\<lparr>pl_teams := [(lm_team M, u)]\<rparr>)
      = Inr (sint (pl_cur_team q), q\<lparr>pl_teams := [(lm_team M, u)], pl_cur_team := 0\<rparr>)" for q u
    using team_eq_true [of "avatars_at (q\<lparr>pl_teams := [(lm_team M, u)]\<rparr>)" u u] by (simp add: swapToTeam_def)
  have td: "t = \<lparr>tm_name = team_name_text, tm_avatars = [Some (lm_avatar M)]\<rparr>" by (simp add: t_def starter_team_def)
  have ws: "with_starter env M pl = pl\<lparr>pl_items := [(lm_item M, w)], pl_avatars := [(lm_avatar M, av)],
      pl_teams := [(lm_team M, t)], pl_cur_avatar := Some (lm_avatar M), pl_cur_team := 0\<rparr>"
    by (simp add: with_starter_def w_def av_def t_def)
  show ?thesis
    unfolding starter_set_def w_def [symmetric] av_def [symmetric] t_def [symmetric] Let_def item a prod.case option.sel sum.case weapon add snd_conv swap
    using pl
    by (simp add: avatars_at_def team_addAvatar_def getAvatarByGuid_def find_node_def guid setName_def team_new_def
        addAvatarTeam_def team ws td)
qed

text \<open>The avatar and the team as they are sent.\<close>

definition starter_pb :: "avatar_env \<Rightarrow> avatar_ent \<Rightarrow> u64 \<Rightarrow> pb_avatar" where
  "starter_pb env d g =
     \<lparr>pa_id = 10000029, pa_guid = g, pa_life_state = 1, pa_equips = [g OR 0x1000000], pa_talents = [],
      pa_depot = ad_skill_depot d, pa_fetter_level = 1, pa_fetter_exp = 0, pa_wings = 14001,
      pa_born = ucast (ae_now env)\<rparr>"

lemma with_equips_empty:
  assumes "av_equip_guids a = []"
  shows "\<exists>b. with_equips env a = Inr (a\<lparr>av_set_equips := b\<rparr>)"
proof -
  have "\<exists>b. a = a\<lparr>av_set_equips := b\<rparr>" by (rule exI [of _ "av_set_equips a"]) simp
  with assms show ?thesis by (auto simp: with_equips_def loadEquips_def split: option.splits)
qed

lemma starter_sent:
  assumes "avatar_by_id (ae_avatars env) 10000029 = Some d" "pl_items q = [(lm_item M, starter_weapon g raw)]"
  shows "\<exists>b. avatar_to_pb (bag_env env q) (starter_avatar env M g)
    = Inr (starter_pb env d g, (starter_avatar env M g)\<lparr>av_set_equips := b\<rparr>)"
proof -
  define av where "av = starter_avatar env M g"
  have av: "av_weapon av = Some (lm_item M)" "av_artifacts av = replicate 5 None" "av_equip_guids av = []"
    "av_set_equips av = False" "av_id av = 10000029" "av_guid av = g" "av_constellation av = 0"
    "av_friendship av = 1" "av_friendship_exp av = 0" "av_depot_id av = ad_skill_depot d" "av_wings av = 14001"
    "av_born av = ae_now env"
    using assms(1) by (simp_all add: av_def starter_avatar_def avatar_of_id_def Let_def setGuid_def)
  obtain b where b: "with_equips (bag_env env q) av = Inr (av\<lparr>av_set_equips := b\<rparr>)"
    using with_equips_empty [of av] av(3) by blast
  have w: "item_read (bag_env env q) (Some (lm_item M)) = Inr (starter_weapon g raw)"
    "worn_guids (bag_env env q) (replicate 5 None) = Inr []"
    by (simp_all add: numeral_eq_Suc item_read_def bag_env_def assms(2))
  have "avatar_to_pb_const (bag_env env q) (av\<lparr>av_set_equips := b\<rparr>) = Inr (starter_pb env d g)"
    by (simp add: avatar_to_pb_const_def av w constellation_skills_def starter_pb_def starter_weapon_fields)
  then show ?thesis by (auto simp: avatar_to_pb_def b av_def [symmetric])
qed

lemma starter_avatar_guid: "av_guid (starter_avatar env M g) = g"
  by (simp add: starter_avatar_def setGuid_def)

lemma starter_team_sent:
  "pl_avatars q = [(lm_avatar M, starter_avatar env M g)] \<Longrightarrow>
   team_to_pb (avatars_at q) (starter_team M) = Inr \<lparr>pt_guids = [g], pt_name = team_name_text\<rparr>"
  by (simp add: team_to_pb_def starter_team_def avatar_guid_def avatars_at_def starter_avatar_guid)

text \<open>What the scene handler tells of the avatar.\<close>

definition starter_info :: "player \<Rightarrow> pb_scene_avatar" where
  "starter_info pl =
     \<lparr>sa_uid = pl_uid pl, sa_avatar = 10000029, sa_guid = starter_guid pl, sa_peer = 1, sa_equips = [0x1d0d0c0],
      sa_weapon = \<lparr>sw_entity = 0x6000001, sw_item = 14502, sw_guid = starter_guid pl OR 0x1000000, sw_level = 90,
                   sw_promote = 6\<rparr>\<rparr>"

lemma entity_ids: "entity_id 1 = 0x1000001" "entity_id 6 = 0x6000001" "entity_id 9 = 0x9000001" "entity_id 11 = 0xb000001"
  by (simp_all add: entity_id_def)

lemma guid_low: "ucast (push_bit 32 (ucast (u :: u32)) OR 0x1d0d0c0 :: u64) = (0x1d0d0c0 :: u32)"
proof -
  have "take_bit 32 (push_bit 32 (ucast u) OR 0x1d0d0c0 :: u64) = 0x1d0d0c0"
    using guid_halves(4) [of u] by (simp add: take_bit_eq_mask mask32)
  then have "ucast (take_bit 32 (push_bit 32 (ucast u) OR 0x1d0d0c0 :: u64)) = (0x1d0d0c0 :: u32)" by simp
  moreover have "ucast (take_bit 32 w) = (ucast w :: u32)" for w :: u64 by (auto simp: bit_eq_iff bit_simps)
  ultimately show ?thesis by metis
qed

lemma starter_scene:
  assumes "avatar_by_id (ae_avatars env) 10000029 = Some d" "length (it_data raw) = 16"
    "pl_items q = [(lm_item M, starter_weapon (starter_guid q) raw)]"
    "pl_avatars q = [(lm_avatar M, starter_avatar env M (starter_guid q))]"
  shows "\<exists>avs. scene_team env q (lm_avatar M) = Inr
    (\<lparr>st_avatar = starter_pb env d (starter_guid q), st_scene_avatar = starter_info q,
      st_entity_info = \<lparr>se_life = 1, se_entity = 0x1000001, se_type = PROT_ENTITY_AVATAR, se_avatar = starter_info q\<rparr>,
      st_weapon_guid = starter_guid q OR 0x1000000, st_weapon_entity = 0x6000001, st_entity = 0x1000001,
      st_uid = pl_uid q, st_scene = 3\<rparr>, q\<lparr>pl_avatars := avs\<rparr>)"
proof -
  let ?g = "starter_guid q" and ?bag = "bag_env env q"
  define av where "av = starter_avatar env M ?g"
  obtain b where pb: "avatar_to_pb ?bag av = Inr (starter_pb env d ?g, av\<lparr>av_set_equips := b\<rparr>)"
    using starter_sent [OF assms(1,3)] unfolding av_def by blast
  have av: "av_weapon av = Some (lm_item M)" "av_equip_guids av = []" "av_guid av = ?g" "av_id av = 10000029"
    using assms(1) by (simp_all add: av_def starter_avatar_def avatar_of_id_def Let_def setGuid_def)
  obtain b' where w: "getWeapon ?bag (av\<lparr>av_set_equips := b\<rparr>) = Inr (Some (lm_item M), av\<lparr>av_set_equips := b'\<rparr>)"
    using with_equips_empty [of "av\<lparr>av_set_equips := b\<rparr>" ?bag] av(1,2) by (auto simp: getWeapon_def)
  have it: "item_read ?bag (Some (lm_item M)) = Inr (starter_weapon ?g raw)"
    by (simp add: item_read_def bag_env_def assms(3))
  have low: "ucast (?g OR 0x1000000) = (0x1d0d0c0 :: u32)"
    unfolding starter_guid_def guid_halves(5) by (rule guid_low)
  have "avatars_at q (lm_avatar M) = Some av" by (simp add: avatars_at_def assms(4) av_def)
  then show ?thesis
    using starter_weapon_sent(2,3) [OF assms(2), of ?g]
    by (auto simp: scene_team_def pb w it starter_weapon_fields av low starter_info_def entity_ids Let_def)
qed

section \<open>Answers one after the other\<close>

text \<open>A handler that sends several messages stops at the first that it cannot write or send.\<close>

fun send_answers ::
  "'d login_env \<Rightarrow> scene_env \<Rightarrow> ((packet \<Rightarrow> packet) \<times> answer) list \<Rightarrow> connection \<Rightarrow> cpp_fault + int \<times> connection" where
  "send_answers E X [] c = Inr (0, c)"
| "send_answers E X ((head, a) # as) c =
     (case send_answer E X head a c of
        Inl f \<Rightarrow> Inl f
      | Inr (r, c) \<Rightarrow> if r < 0 then Inr (-1, c) else send_answers E X as c)"

lemma send_answer_conn:
  assumes "send_answer E X head a c = Inr (r, c')"
  shows "\<exists>k. c' = c\<lparr>cn_session := (cn_session c)\<lparr>ss_kcp := k\<rparr>\<rparr>" "r = 0 \<or> r = -1"
proof -
  have keep: "\<exists>k. c = c\<lparr>cn_session := (cn_session c)\<lparr>ss_kcp := k\<rparr>\<rparr>"
    by (rule exI [of _ "ss_kcp (cn_session c)"]) simp
  show "\<exists>k. c' = c\<lparr>cn_session := (cn_session c)\<lparr>ss_kcp := k\<rparr>\<rparr>" "r = 0 \<or> r = -1"
    using assms keep
    by (auto simp: send_answer_def send_packet_def sendPacket_def Let_def
        split: option.splits sum.splits prod.splits if_splits)
qed

lemma map_sum_Inr: "map_sum id f x = Inr y \<longleftrightarrow> (\<exists>z. x = Inr z \<and> y = f z)"
  by (cases x) auto

text \<open>Sending does not depend on the player of the connection.\<close>

lemma send_answer_player:
  "send_answer E X head a (c\<lparr>cn_player := q\<rparr>) = map_sum id (\<lambda>(r, c). (r, c\<lparr>cn_player := q\<rparr>)) (send_answer E X head a c)"
  by (cases c, cases "sc_write X a")
    (simp_all add: send_answer_def send_packet_def sum.map_comp comp_def case_prod_unfold id_def)

lemma send_last:
  "map_sum id (\<lambda>(r, c). (r, cn_session c)) (send_answer E X head a c) =
   map_sum id (\<lambda>(r, c). (r, cn_session c)) (send_answers E X [(head, a)] c)"
proof (cases "send_answer E X head a c")
  case (Inr x)
  then show ?thesis using send_answer_conn(2) [of E X head a c] by (cases x) auto
qed simp

section \<open>What the handlers keep\<close>

text \<open>
  \<open>H\<close> holds the packets a connection has handled, each with the database it was handled on. A connection has
  signed on when some token request named its account, which the database had under the id in the request,
  with the account's combo token in front of the token sent, and its player is the one of that account; it
  is admitted when a login request carried that token as well.
\<close>

definition signed_on :: "'d login_env \<Rightarrow> (packet \<times> 'd dbgate) set \<Rightarrow> connection \<Rightarrow> bool" where
  "signed_on E H c \<longleftrightarrow>
     (\<exists>a pl p g aid_str tok. cn_account c = Some a \<and> cn_player c = Some pl \<and> ac_combo a \<noteq> []
        \<and> (p, g) \<in> H \<and> pk_opcode p = GetPlayerTokenReq \<and> le_token_req E (pk_data p) = Some (aid_str, tok)
        \<and> getAccountByAid (le_store E) (ucast (fst (strtoul aid_str 0))) g = Some a
        \<and> strncmp_eq (ac_combo a) tok (length (ac_combo a)) \<and> pl_aid pl = Some (ac_aid a))"

definition admitted :: "'d login_env \<Rightarrow> (packet \<times> 'd dbgate) set \<Rightarrow> connection \<Rightarrow> bool" where
  "admitted E H c \<longleftrightarrow>
     (\<exists>a p g tok. cn_account c = Some a \<and> (p, g) \<in> H \<and> pk_opcode p = PlayerLoginReq
        \<and> le_login_req E (pk_data p) = Some tok \<and> strncmp_eq (ac_combo a) tok (length (ac_combo a)))"

definition client_ok :: "'d login_env \<Rightarrow> (packet \<times> 'd dbgate) set \<Rightarrow> connection \<Rightarrow> bool" where
  "client_ok E H c \<longleftrightarrow>
     (let st = ss_state (cn_session c)
      in st \<in> {S_NOT_CONNECTED, S_TOKEN_WAIT, S_LOGIN_WAIT, S_ACTIVE}
         \<and> (st \<le> S_TOKEN_WAIT \<longrightarrow> cn_player c = None \<and> cn_account c = None)
         \<and> (S_LOGIN_WAIT \<le> st \<longrightarrow> signed_on E H c)
         \<and> (st = S_ACTIVE \<longrightarrow> admitted E H c))"

lemmas session_states = S_NOT_CONNECTED_def S_TOKEN_WAIT_def S_LOGIN_WAIT_def S_ACTIVE_def

lemma signed_on_more: "signed_on E H c \<Longrightarrow> H \<subseteq> H' \<Longrightarrow> signed_on E H' c"
  and admitted_more: "admitted E H c \<Longrightarrow> H \<subseteq> H' \<Longrightarrow> admitted E H' c"
  unfolding signed_on_def admitted_def by blast+

lemma client_ok_more: "client_ok E H c \<Longrightarrow> H \<subseteq> H' \<Longrightarrow> client_ok E H' c"
  using signed_on_more [of E H c H'] admitted_more [of E H c H'] by (simp add: client_ok_def Let_def)

text \<open>What matters of a connection is the state, the account and whose player it has.\<close>

lemma signed_on_cong:
  assumes "signed_on E H c" "cn_account c' = cn_account c" "map_option pl_aid (cn_player c') = map_option pl_aid (cn_player c)"
  shows "signed_on E H c'"
proof -
  from assms(1) obtain pl where "cn_player c = Some pl" unfolding signed_on_def by blast
  moreover from this assms(3) obtain q where "cn_player c' = Some q" "pl_aid q = pl_aid pl" by (cases "cn_player c'") auto
  ultimately show ?thesis using assms(1) unfolding signed_on_def assms(2) by auto
qed

lemma client_ok_cong:
  assumes "client_ok E H c" "ss_state (cn_session c') = ss_state (cn_session c)" "cn_account c' = cn_account c"
    "map_option pl_aid (cn_player c') = map_option pl_aid (cn_player c)"
  shows "client_ok E H c'"
proof -
  have "admitted E H c' = admitted E H c" by (simp add: admitted_def assms(3))
  then show ?thesis using assms signed_on_cong [of E H c c'] by (auto simp: client_ok_def Let_def)
qed

lemma send_answer_ok: "client_ok E H c \<Longrightarrow> send_answer E X head a c = Inr (r, c') \<Longrightarrow> client_ok E H c'"
  using send_answer_conn(1) [of E X head a c] by (auto elim!: client_ok_cong)

lemma scene_team_aid: "scene_team env pl a = Inr (team, pl') \<Longrightarrow> pl_aid pl' = pl_aid pl"
  by (auto simp: scene_team_def Let_def map_sum_Inr split: option.splits sum.splits)

lemma scene_handlers_ok:
  assumes "client_ok E H c"
  shows "handlePingReq E X h d c = Inr (r, c') \<Longrightarrow> client_ok E H c'"
    "handleGetPlayerBlacklistReq E X c = Inr (r, c') \<Longrightarrow> client_ok E H c'"
    "handleEnterSceneReadyReq E X c = Inr (r, c') \<Longrightarrow> client_ok E H c'"
    "handleSceneInitFinishReq E X d c = Inr (r, c') \<Longrightarrow> client_ok E H c'"
proof -
  have "client_ok E H (c\<lparr>cn_session := setLastPingTime t (cn_session c)\<rparr>)" for t
    using client_ok_cong [OF assms] by (simp add: setLastPingTime_def)
  then show "handlePingReq E X h d c = Inr (r, c') \<Longrightarrow> client_ok E H c'"
    using assms by (auto simp: handlePingReq_def dest: send_answer_ok [rotated] split: option.splits if_splits)
  show "handleGetPlayerBlacklistReq E X c = Inr (r, c') \<Longrightarrow> client_ok E H c'"
    using assms by (auto simp: handleGetPlayerBlacklistReq_def dest: send_answer_ok [rotated])
  show "handleEnterSceneReadyReq E X c = Inr (r, c') \<Longrightarrow> client_ok E H c'"
    using assms by (auto simp: handleEnterSceneReadyReq_def split: option.splits sum.splits if_splits)
      (meson send_answer_ok)+
  have p: "client_ok E H (e\<lparr>cn_player := Some pl'\<rparr>)"
    if "client_ok E H e" "cn_player e = Some pl" "pl_aid pl' = pl_aid pl" for e pl pl'
    using client_ok_cong [OF that(1)] that(2,3) by simp
  show "handleSceneInitFinishReq E X d c = Inr (r, c') \<Longrightarrow> client_ok E H c'"
  proof -
    assume h: "handleSceneInitFinishReq E X d c = Inr (r, c')"
    show "client_ok E H c'"
    proof (cases "cn_player c")
      case None
      with h assms show ?thesis by (simp add: handleSceneInitFinishReq_def)
    next
      case (Some pl)
      have aid: "client_ok E H (b\<lparr>cn_player := Some pl'\<rparr>)"
        if "send_answer E X id x c = Inr (q, b)" "scene_team env pl a = Inr (t, pl')" for x q b env a t pl'
      proof (rule client_ok_cong [OF send_answer_ok [OF assms that(1)]])
        show "map_option pl_aid (cn_player (b\<lparr>cn_player := Some pl'\<rparr>)) = map_option pl_aid (cn_player b)"
          using send_answer_conn(1) [OF that(1)] scene_team_aid [OF that(2)] Some by auto
      qed simp_all
      from h assms Some show ?thesis
        by (auto simp: handleSceneInitFinishReq_def split: option.splits sum.splits if_splits)
          (meson assms send_answer_ok
            | (rule send_answer_ok [OF send_answer_ok [OF aid]], assumption, assumption, assumption, assumption)
            | (rule send_answer_ok [OF aid], assumption, assumption, assumption))+
    qed
  qed
qed

end
