(* ===== verification/Client_Trace.thy ===== *)
theory Client_Trace
  imports Client_Session
begin

unbundle bit_operations_syntax

text \<open>
  What holds of every connection that a client leads from a new session by its packets: the states it can be
  in, and what the client has sent to get there.
\<close>

section \<open>The token request\<close>

lemma search_players_aid: "search_players L aid es = Inr (Some p) \<Longrightarrow> pp_aid p = aid"
  by (induction L aid es rule: search_players.induct) (auto split: option.splits if_splits)

lemma open_states_aid [simp]: "pl_aid (snd (updateOpenstates data n q)) = pl_aid q"
  using update_states_fields [of data n q] by auto

lemma load_player_aid: "pl_aid (load_player L env g p) = map_option ac_aid (getAccountByAid L (pp_aid p) g)"
  by (simp add: load_player_def player_of_pb_def)

lemma account_player_aid:
  assumes "account_player E aid a g = Some (Inr (pl, kicked, g'))" "getAccountByAid (le_store E) aid g = Some a"
  shows "pl_aid pl = Some (ac_aid a)"
proof (cases "getPlayerByAid (le_store E) (le_players E) aid g")
  case (Inr r)
  show ?thesis
  proof (cases r)
    case None
    with Inr assms(1) show ?thesis
      by (auto simp: account_player_def Let_def setAccount_def map_sum_Inr split: option.splits sum.splits)
  next
    case (Some q)
    with Inr obtain p where "search_players (le_store E) aid (sl_iterate (le_store E) (dg_db g)) = Inr (Some p)"
      "q = load_player (le_store E) (le_players E) g p"
      unfolding getPlayerByAid_def by (cases "search_players (le_store E) aid (sl_iterate (le_store E) (dg_db g))") auto
    then have "pl_aid q = Some (ac_aid a)" using assms(2) by (simp add: load_player_aid search_players_aid)
    with Some Inr assms(1) show ?thesis by (auto simp: account_player_def map_sum_Inr)
  qed
qed (use assms(1) in \<open>simp add: account_player_def\<close>)

lemma token_account_shown:
  assumes "token_account L aid_str tok g = Inr (aid, a)"
  shows "aid = ucast (fst (strtoul aid_str 0))" "getAccountByAid L aid g = Some a" "ac_combo a \<noteq> []"
    "strncmp_eq (ac_combo a) tok (length (ac_combo a))"
  using assms by (auto simp: token_account_def split: prod.splits if_splits option.splits)

lemma sent_state: "sendPacket mal d buf p s = Inr (r, s') \<Longrightarrow> ss_state s' = ss_state s"
  using arg_cong [OF sendPacket_session(1), of mal d buf p s r s' ss_state] by simp

lemma answer_token_conn:
  assumes "answer_token E m c a pl kicked g = Inr (h, m')"
  shows "cn_player (hd_conn h) = Some pl \<and> cn_account (hd_conn h) = Some a
    \<and> ss_state (cn_session (hd_conn h)) = S_LOGIN_WAIT"
  using assms
  by (auto simp: answer_token_def Let_def map_sum_Inr setState_def nextSeq_def setUseSecretKey_def dest: sent_state
      split: prod.splits option.splits)

lemma token_request_ok:
  assumes "client_ok E H c" "handleGetPlayerTokenReq E (pk_data p) c g m = Some (Inr (h, m'))"
    "pk_opcode p = GetPlayerTokenReq"
  shows "client_ok E (insert (p, g) H) (hd_conn h)"
proof (cases "ss_state (cn_session c) \<noteq> S_TOKEN_WAIT \<or> le_token_req E (pk_data p) = None")
  case True
  then have "hd_conn h = c"
    using assms(2) by (auto simp: handleGetPlayerTokenReq_def give_up_def split: if_splits option.splits)
  then show ?thesis using client_ok_more [OF assms(1)] by auto
next
  case False
  then obtain aid_str tok where t: "le_token_req E (pk_data p) = Some (aid_str, tok)" by auto
  show ?thesis
  proof (cases "token_account (le_store E) aid_str tok g")
    case (Inl reason)
    with False t assms(2) show ?thesis
      by (auto simp: handleGetPlayerTokenReq_def close_with_def Let_def client_ok_def session_close_def session_states
          split: prod.splits)
  next
    case (Inr x)
    obtain aid a where x: "x = (aid, a)" by (cases x)
    note shown = token_account_shown [OF Inr [unfolded x]]
    obtain pl kicked g' where ap: "account_player E aid a g = Some (Inr (pl, kicked, g'))"
      "answer_token E m c a pl kicked g' = Inr (h, m')"
      using False t assms(2) Inr x by (auto simp: handleGetPlayerTokenReq_def split: option.splits sum.splits)
    have "signed_on E (insert (p, g) H) (hd_conn h)"
      unfolding signed_on_def using answer_token_conn [OF ap(2)] account_player_aid [OF ap(1) shown(2)] shown t assms(3)
      by (intro exI [of _ a] exI [of _ pl] exI [of _ p] exI [of _ g] exI [of _ aid_str] exI [of _ tok]) simp
    then show ?thesis using answer_token_conn [OF ap(2)] by (simp add: client_ok_def session_states)
  qed
qed

section \<open>The login request\<close>

lemma operations_aid [simp]:
  "pl_aid (snd (snd (addItem n x pl))) = pl_aid pl" "pl_aid (snd (snd (addAvatar n a pl))) = pl_aid pl"
  "pl_aid (snd (swapToAvatar_guid g pl)) = pl_aid pl" "pl_aid (snd (addAvatarTeam n t pl)) = pl_aid pl"
  by (simp_all add: addItem_def addAvatar_def swapToAvatar_guid_def swapToAvatar_def addAvatarTeam_def Let_def
      split: option.split)

lemma swapToTeam_aid: "swapToTeam p t pl = Inr (r, pl') \<Longrightarrow> pl_aid pl' = pl_aid pl"
  by (auto simp: swapToTeam_def map_sum_Inr split: option.splits)

lemma starter_set_aid:
  assumes "starter_set env M pl = Inr (it, av, t, pl')"
  shows "pl_aid pl' = pl_aid pl"
proof -
  let ?x = "addItem (lm_item M) (Some (starter_weapon (starter_guid pl) (lm_raw_item M))) pl"
  from assms obtain av2 t2 r where "swapToTeam (lm_local M) t2 (snd (addAvatarTeam (lm_team M) (Some t2)
      (snd (swapToAvatar_guid (starter_guid pl) (snd (snd (addAvatar (lm_avatar M) (Some av2) (snd (snd ?x)))))))))
    = Inr (r, pl')"
    unfolding starter_set_def Let_def case_prod_unfold map_sum_Inr by (auto simp: map_sum_Inr split: sum.splits)
  then show ?thesis using swapToTeam_aid by fastforce
qed

lemma onLogin_conn:
  assumes "onLogin E M c = Inr (told, c')"
  shows "c' = c \<or> (ss_state (cn_session c') = S_ACTIVE \<and> cn_account c' = cn_account c
    \<and> map_option pl_aid (cn_player c') = map_option pl_aid (cn_player c))"
proof (cases "ss_kcp (cn_session c)")
  case None
  with assms show ?thesis by (simp add: onLogin_def)
next
  case (Some ks)
  show ?thesis
  proof (cases "cn_player c")
    case None
    with Some assms show ?thesis by (simp add: onLogin_def)
  next
    case (Some pl)
    with \<open>ss_kcp (cn_session c) = Some ks\<close> assms obtain it av t q l s where
      q: "starter_set (le_avatars E) M pl = Inr (it, av, t, q)"
      "c' = c\<lparr>cn_session := setState S_ACTIVE s, cn_player := Some (snd (updateOpenstates (pe_states (le_players E)) 1 q))\<rparr>"
      by (auto simp: onLogin_def Let_def map_sum_Inr split: sum.splits prod.splits)
    then show ?thesis using Some starter_set_aid [OF q(1)] by (simp add: setState_def)
  qed
qed

lemma login_request_ok:
  assumes "client_ok E H c" "player_login E M (pk_data p) c g = Inr h" "pk_opcode p = PlayerLoginReq"
  shows "client_ok E (insert (p, g) H) (hd_conn h)"
proof (cases "ss_state (cn_session c) \<noteq> S_LOGIN_WAIT \<or> le_login_req E (pk_data p) = None")
  case True
  then have "hd_conn h = c"
    using assms(2) by (auto simp: player_login_def handlePlayerLoginReq_def give_up_def split: if_splits option.splits)
  then show ?thesis using client_ok_more [OF assms(1)] by auto
next
  case False
  then obtain tok where t: "le_login_req E (pk_data p) = Some tok" by auto
  have "signed_on E H c" using assms(1) False by (auto simp: client_ok_def Let_def session_states)
  then obtain a pl where c: "cn_account c = Some a" "cn_player c = Some pl" "ac_combo a \<noteq> []"
    unfolding signed_on_def by blast
  show ?thesis
  proof (cases "strncmp_eq (ac_combo a) tok (length (ac_combo a))")
    case False
    with \<open>\<not> (_ \<or> _)\<close> t c assms(2) have "h = close_with 7 c g"
      by (simp add: player_login_def handlePlayerLoginReq_def)
    then show ?thesis by (simp add: close_with_def Let_def client_ok_def session_close_def session_states)
  next
    case True
    have adm: "admitted E (insert (p, g) H) c'" if "cn_account c' = cn_account c" for c'
      using True t c assms(3) that by (auto simp: admitted_def)
    have keep: "client_ok E (insert (p, g) H) (c\<lparr>cn_session := s\<rparr>)" if "ss_state s = ss_state (cn_session c)" for s
      using client_ok_cong [OF client_ok_more [OF assms(1) subset_insertI]] that by simp
    have "hd_conn h = c \<or> (\<exists>s. ss_state s = ss_state (cn_session c) \<and> (hd_conn h = c\<lparr>cn_session := s\<rparr>
        \<or> (\<exists>told. onLogin E M (c\<lparr>cn_session := s\<rparr>) = Inr (told, hd_conn h))))"
    proof (cases "le_login_rsp E (login_answer (le_config E))")
      case None
      with \<open>\<not> (_ \<or> _)\<close> True t c assms(2) show ?thesis
        by (auto simp: player_login_def handlePlayerLoginReq_def give_up_def)
    next
      case (Some rsp)
      let ?p = "setUseDispatchKey 1 (setPacketData rsp (snd (buildHeader (le_header E) (le_ms E) 1 (new_packet PlayerLoginRsp))))"
      show ?thesis
      proof (cases "sendPacket (le_malloc E) (le_dispatch E) (le_buffer E) ?p (cn_session c)")
        case (Inl f)
        with \<open>\<not> (_ \<or> _)\<close> True t c Some assms(2) show ?thesis
          by (simp add: player_login_def handlePlayerLoginReq_def)
      next
        case (Inr x)
        obtain r s where x: "x = (r, s)" by (cases x)
        with \<open>\<not> (_ \<or> _)\<close> True t c Some assms(2) Inr
        have "hd_conn h = c\<lparr>cn_session := s\<rparr> \<or> (\<exists>told. onLogin E M (c\<lparr>cn_session := s\<rparr>) = Inr (told, hd_conn h))"
          by (cases "r = 0") (auto simp: player_login_def handlePlayerLoginReq_def Let_def map_sum_Inr)
        with sent_state [OF Inr [unfolded x]] show ?thesis by blast
      qed
    qed
    then consider "hd_conn h = c" | s where "ss_state s = ss_state (cn_session c)" "hd_conn h = c\<lparr>cn_session := s\<rparr>"
      | s told where "ss_state s = ss_state (cn_session c)" "onLogin E M (c\<lparr>cn_session := s\<rparr>) = Inr (told, hd_conn h)"
      by blast
    then show ?thesis
    proof cases
      case 1
      then show ?thesis using client_ok_more [OF assms(1)] by auto
    next
      case 2
      then show ?thesis using keep by simp
    next
      case 3
      from onLogin_conn [OF 3(2)] show ?thesis
      proof
        assume "hd_conn h = c\<lparr>cn_session := s\<rparr>"
        then show ?thesis using keep 3(1) by simp
      next
        assume *: "ss_state (cn_session (hd_conn h)) = S_ACTIVE \<and> cn_account (hd_conn h) = cn_account (c\<lparr>cn_session := s\<rparr>)
          \<and> map_option pl_aid (cn_player (hd_conn h)) = map_option pl_aid (cn_player (c\<lparr>cn_session := s\<rparr>))"
        have "signed_on E (insert (p, g) H) c" using \<open>signed_on E H c\<close> signed_on_more by blast
        with * have "signed_on E (insert (p, g) H) (hd_conn h)" using signed_on_cong by fastforce
        with * adm show ?thesis by (simp add: client_ok_def session_states)
      qed
    qed
  qed
qed

section \<open>Every reachable state\<close>

lemma process_client_ok:
  assumes "client_ok E H c" "process_client E M X p (c, g, m) = Some (Inr (r, (c', g', m')))"
  shows "client_ok E (insert (p, g) H) c'"
proof -
  note more = client_ok_more [OF assms(1) subset_insertI, of "(p, g)"]
  show ?thesis
  proof (cases "pk_opcode p = GetPlayerTokenReq \<or> pk_opcode p = PlayerLoginReq")
    case True
    then consider "pk_opcode p = GetPlayerTokenReq" | "pk_opcode p = PlayerLoginReq" by blast
    then show ?thesis
    proof cases
      case 1
      with assms(2) obtain h where "handleGetPlayerTokenReq E (pk_data p) c g m = Some (Inr (h, m'))" "c' = hd_conn h"
        by (auto simp: process_client_def map_sum_Inr PingReq_def GetPlayerTokenReq_def split: option.splits)
      with token_request_ok [OF assms(1)] 1 show ?thesis by blast
    next
      case 2
      with assms(2) obtain h where "player_login E M (pk_data p) c g = Inr h" "c' = hd_conn h"
        by (auto simp: process_client_def map_sum_Inr PingReq_def GetPlayerTokenReq_def PlayerLoginReq_def)
      with login_request_ok [OF assms(1)] 2 show ?thesis by blast
    qed
  next
    case False
    with assms(2) scene_handlers_ok [OF more] more show ?thesis
      by (auto simp: process_client_def map_sum_Inr Let_def split: if_splits)
  qed
qed

text \<open>The packets a client has handled on its way, each with the database at that point.\<close>

definition handled_on ::
  "'d login_env \<Rightarrow> login_memory \<Rightarrow> scene_env \<Rightarrow> 'd client \<Rightarrow> packet list \<Rightarrow> (packet \<times> 'd dbgate) set" where
  "handled_on E M X x0 ps =
     {(p, g). \<exists>later before c m. ps = later @ p # before \<and> client_reach E M X x0 before (c, g, m)}"

lemma client_reach_ok:
  assumes "client_reach E M X (c0, g0, m0) ps x" "ss_state (cn_session c0) = S_TOKEN_WAIT" "cn_player c0 = None" "cn_account c0 = None"
  shows "client_ok E (handled_on E M X (c0, g0, m0) ps) (fst x)"
  using assms(1)
proof (induction rule: client_reach.induct)
  case new
  then show ?case using assms(2-4) by (simp add: client_ok_def session_states)
next
  case (handled ps x p r y)
  obtain c g m where x: "x = (c, g, m)" by (cases x)
  obtain c' g' m' where y: "y = (c', g', m')" by (cases y)
  have "client_ok E (insert (p, g) (handled_on E M X (c0, g0, m0) ps)) c'"
    using process_client_ok [OF handled.IH [unfolded x fst_conv]] handled.hyps(3) by (simp add: x y)
  moreover have "insert (p, g) (handled_on E M X (c0, g0, m0) ps) \<subseteq> handled_on E M X (c0, g0, m0) (p # ps)"
  proof -
    have "(p, g) \<in> handled_on E M X (c0, g0, m0) (p # ps)"
      using handled.hyps(1) unfolding handled_on_def x by (auto intro: exI [of _ "[]"])
    moreover have "(q, h) \<in> handled_on E M X (c0, g0, m0) (p # ps)" if qh: "(q, h) \<in> handled_on E M X (c0, g0, m0) ps" for q h
    proof -
      obtain later before c m where "ps = later @ q # before" "client_reach E M X (c0, g0, m0) before (c, h, m)"
        using qh unfolding handled_on_def by blast
      then have "p # ps = (p # later) @ q # before" by simp
      with \<open>client_reach E M X (c0, g0, m0) before (c, h, m)\<close> show ?thesis unfolding handled_on_def by blast
    qed
    ultimately show ?thesis by auto
  qed
  ultimately have "client_ok E (handled_on E M X (c0, g0, m0) (p # ps)) c'" by (rule client_ok_more)
  then show ?case by (simp add: y)
qed

section \<open>The guids a login brings\<close>

text \<open>
  The avatar and the weapon of a first login come with guids of their own: the player stays one of those
  whose numbers are told apart, with these two guids among the ones brought.
\<close>

lemma starter_guids:
  "starter_guid pl = guid_with (pl_uid pl) 0xd0d0c0" "starter_guid pl OR 0x1000000 = guid_with (pl_uid pl) 0x1d0d0c0"
  by (simp_all add: starter_guid_def guid_with_def or.assoc)

lemma own_number:
  fixes u n :: u32
  shows "u \<noteq> 0 \<Longrightarrow> drop_bit 32 (guid_with u n) \<noteq> 0" "n \<noteq> 0 \<Longrightarrow> low_half (guid_with u n) \<noteq> 0"
proof -
  have "unat (ucast w :: u64) = unat w" for w :: u32
    using unat_lt_u32 [of w] by (simp add: unsigned_ucast_eq take_bit_nat_eq_self)
  then have up: "w \<noteq> 0 \<Longrightarrow> (ucast w :: u64) \<noteq> 0" for w :: u32 by (metis unsigned_0 word_unat_eq_iff)
  show "u \<noteq> 0 \<Longrightarrow> drop_bit 32 (guid_with u n) \<noteq> 0" "n \<noteq> 0 \<Longrightarrow> low_half (guid_with u n) \<noteq> 0"
    unfolding guid_with_halves by (fact up)+
qed

text \<open>Adding an item or an avatar with a guid of its own.\<close>

lemma bring_item_own:
  assumes "player_reach F pl" "it_guid x = guid_with u n" "u \<noteq> 0" "n \<noteq> 0"
  obtains r pl' where "addItem new (Some x) pl = (r, Some x, pl')" "pl_uid pl' = pl_uid pl"
    "player_reach (insert (guid_with u n) F) pl'"
proof -
  have own: "drop_bit 32 (it_guid x) \<noteq> 0" "low_half (it_guid x) \<noteq> 0"
    unfolding assms(2) by (fact own_number [OF assms(3)] own_number(2) [OF assms(4)])+
  then have "addItem new (Some x) pl = (0, Some x, pl\<lparr>pl_items := pl_items pl @ [(new, x)]\<rparr>)"
    by (simp add: addItem_def low_half_def)
  with player_reach.bring_item [OF assms(1) own(1) _ this] own(2) assms(2) that show thesis by simp
qed

lemma bring_avatar_own:
  assumes "player_reach F pl" "av_guid a = guid_with u n" "u \<noteq> 0" "n \<noteq> 0"
  obtains r pl' where "addAvatar new (Some a) pl = (r, Some a, pl')"
    "player_reach (insert (guid_with u n) F) pl'"
proof -
  have "ucast (ucast u :: u64) = u" by (rule bit_word_eqI) (simp add: bit_simps)
  then have own: "getUid a \<noteq> 0" "low_half (av_guid a) \<noteq> 0"
    unfolding getUid_def assms(2) guid_with_halves(2)
    using assms(3) own_number(2) [OF assms(4)] by simp_all
  then have "addAvatar new (Some a) pl = (0, Some a, pl\<lparr>pl_avatars := pl_avatars pl @ [(new, a)]\<rparr>)"
    by (simp add: addAvatar_def low_half_def)
  with player_reach.bring_avatar [OF assms(1) own(2) this] assms(2) that show thesis by simp
qed

lemma starter_set_reach:
  assumes "starter_set env M pl = Inr (it, av, t, pl')" "player_reach F pl" "pl_uid pl \<noteq> 0"
  shows "player_reach (insert (starter_guid pl) (insert (starter_guid pl OR 0x1000000) F)) pl'"
proof -
  let ?g = "starter_guid pl" and ?x = "starter_weapon (starter_guid pl) (lm_raw_item M)"
  have "it_guid ?x = guid_with (pl_uid pl) 0x1d0d0c0"
    unfolding starter_guids(2) [symmetric] by (simp add: starter_weapon_def Let_def)
  then obtain r pl1 where 1: "addItem (lm_item M) (Some ?x) pl = (r, Some ?x, pl1)" "pl_uid pl1 = pl_uid pl"
    "player_reach (insert (guid_with (pl_uid pl) 0x1d0d0c0) F) pl1"
    using assms(3) by (elim bring_item_own [OF assms(2)]) simp_all
  obtain av0 where s0: "avatar_of_id env 10000029 (lm_raw_avatar M) = Inr av0"
    using assms(1) unfolding starter_set_def Let_def 1 by (cases "avatar_of_id env 10000029 (lm_raw_avatar M)") simp_all
  obtain b av1 where s1: "setWeapon (bag_env env pl1) (getItemByGuid (it_guid ?x) pl1) (setGuid ?g av0) = Inr (b, av1)"
    using assms(1) unfolding starter_set_def Let_def 1 s0
    by (cases "setWeapon (bag_env env pl1) (getItemByGuid (it_guid ?x) pl1) (setGuid ?g av0)") auto
  have "av_guid av1 = guid_with (pl_uid pl) 0xd0d0c0"
    using s1 unfolding starter_guids(1) [symmetric] by (auto simp: setWeapon_def setGuid_def split: sum.splits if_splits)
  then obtain r2 pl2 where 2: "addAvatar (lm_avatar M) (Some av1) pl1 = (r2, Some av1, pl2)"
    "player_reach (insert (guid_with (pl_uid pl) 0xd0d0c0) (insert (guid_with (pl_uid pl) 0x1d0d0c0) F)) pl2"
    using assms(3) by (elim bring_avatar_own [OF 1(3)]) simp_all
  let ?pl3 = "snd (swapToAvatar_guid ?g pl2)"
  obtain t1 r3 where "swapToTeam (lm_local M) t1 (snd (addAvatarTeam (lm_team M) (Some t1) ?pl3)) = Inr (r3, pl')"
    using assms(1) unfolding starter_set_def Let_def 1 s0
    by (auto simp: s1 2(1) map_sum_Inr split: sum.splits)
  moreover have "player_reach (insert (guid_with (pl_uid pl) 0xd0d0c0) (insert (guid_with (pl_uid pl) 0x1d0d0c0) F)) ?pl3"
    unfolding swapToAvatar_guid_def by (rule player_other_calls(3) [OF 2(2)])
  ultimately show ?thesis
    unfolding starter_guids(2) unfolding starter_guids(1) using player_team_calls(1) player_other_calls(5) by metis
qed

end
