(* ===== verification/Play_Properties.thy ===== *)
theory Play_Properties
  imports Client_Trace Net_Properties Db_Props
begin

unbundle bit_operations_syntax

text \<open>
  The properties of a client on its way into the game: theories \<open>Login\<close>, \<open>First_Login\<close>, \<open>Scene_Entry\<close> and
  \<open>Client_Session\<close>.
\<close>

section \<open>A concrete client for the witnesses\<close>

text \<open>A database with one account, 7, whose combo token is one byte, and no player.\<close>

definition one_account :: pb_account where
  "one_account =
     \<lparr>pc_id = 7, pc_username = [], pc_email = [], pc_password = [], pc_combo = [0xab], pc_auth = [], pc_auth_ts = 0,
      pc_device = [], pc_guest = False, pc_reserved = 0, pc_permissions = [], pc_real_name = [], pc_id_number = [],
      pc_bind = [], pc_bind_ts = 0\<rparr>"

definition one_store :: "unit store_lib" where
  "one_store =
     \<lparr>sl_get = (\<lambda>k d. if k = ldb_key [ACCOUNT, 7] then [1] else []), sl_put = (\<lambda>k v d. (True, d)),
      sl_delete = (\<lambda>k d. (True, d)), sl_iterate = (\<lambda>d. []), ser_ids = (\<lambda>_. Some [1]), parse_ids = (\<lambda>_. None),
      ser_account = (\<lambda>_. None), parse_account = (\<lambda>_. Some one_account), ser_player = (\<lambda>_. None),
      parse_player = (\<lambda>_. None), ser_entry = (\<lambda>_. None), parse_entry = (\<lambda>_. None)\<rparr>"

definition no_player :: player where
  "no_player =
     \<lparr>pl_aid = None, pl_uid = 0, pl_session = None, pl_teams = [], pl_avatars = [], pl_items = [], pl_cur_team = 0,
      pl_cur_avatar = None, pl_scene = 0, pl_tp = 0, pl_next = 0, pl_world = 0, pl_ar = 0, pl_ar_exp = 0, pl_name = [],
      pl_signature = [], pl_namecard = 0, pl_pfp = 0, pl_props = Map.empty, pl_openstates = []\<rparr>"

definition play_env :: "unit login_env" where
  "play_env =
     \<lparr>le_store = one_store,
      le_players = \<lparr>pe_states = None, pe_sessions = (\<lambda>_. None), pe_now = 0, pe_raw = no_player\<rparr>,
      le_avatars = \<lparr>ae_item = Map.empty, ae_owner = (\<lambda>_. None), ae_avatars = [\<lparr>ad_id = 10000029, ad_skill_depot = 2901\<rparr>],
                    ae_depots = [], ae_now = 0\<rparr>,
      le_token_req = (\<lambda>_. Some (decimal 7, lit ''ab'')), le_token_rsp = (\<lambda>_. None), le_login_req = (\<lambda>_. None),
      le_login_rsp = (\<lambda>_. None), le_config = None, le_sessions = None, le_ms = 0, le_header = (\<lambda>_ _. None), le_seed = 0,
      le_secret = [], le_malloc = (\<lambda>_. Some blank_seg), le_dispatch = None, le_buffer = replicate 4096 0\<rparr>"

definition play_conn :: "kcp_session \<Rightarrow> connection" where
  "play_conn ks = \<lparr>cn_session = sample_session ks, cn_player = None, cn_account = None\<rparr>"

definition play_gate :: "unit dbgate" where
  "play_gate = \<lparr>dg_db = (), dg_ids = no_ids\<rparr>"

lemma hex_ab: "hexenc [0xab] = lit ''ab''" "lit ''ab'' \<noteq> []" "strncmp_eq (lit ''ab'') (lit ''ab'') (length (lit ''ab''))"
  by code_simp+

lemma play_token: "token_account one_store (decimal 7) (lit ''ab'') play_gate = Inr (7, account_of_pb one_account)"
proof -
  have n: "strtoul (decimal 7) 0 = (7, length (decimal 7), False)" "decimal 7 \<noteq> []"
    using strtoul_decimal [of 7] decimal_not_Nil by simp_all
  have "getAccountByAid one_store 7 play_gate = Some (account_of_pb one_account)"
    by (simp add: getAccountByAid_def getLdbObject_def one_store_def Let_def)
  moreover have "ac_combo (account_of_pb one_account) = lit ''ab''"
    by (simp add: account_of_pb_def one_account_def hex_ab)
  ultimately show ?thesis using n hex_ab(2,3) by (simp add: token_account_def)
qed

lemma no_players: "getPlayerByAid one_store env aid play_gate = Inr None"
  by (simp add: getPlayerByAid_def one_store_def)

lemma play_player: "\<exists>pl g. account_player play_env 7 a play_gate = Some (Inr (pl, [], g))"
proof -
  have keys: "ldb_key [PLAYER, i] \<noteq> ldb_key [ACCOUNT, 7]" for i by (simp add: ldb_key_inj PLAYER_def ACCOUNT_def)
  have free: "free_id (\<lambda>i. getLdbObject one_store (ldb_key [PLAYER, i]) play_gate \<noteq> []) 1 = Some 1"
    by (subst free_id.simps) (simp add: getLdbObject_def one_store_def keys)
  have save: "savePlayer one_store now pl g = Inr (-1, g)"
    if "pl_teams pl = []" "pl_cur_avatar pl = None" for now pl and g :: "unit dbgate"
    using that by (simp add: savePlayer_def player_to_pb_def one_store_def Let_def)
  have all: "saveToDb one_store env now pl g = Inr (-1, g)"
    if "pl_teams pl = []" "pl_cur_avatar pl = None" "pl_avatars pl = []" "pl_items pl = []" for env now pl and g :: "unit dbgate"
    using that by (simp add: saveToDb_def saveInventoryAndAvatars_def save)
  have E: "le_store play_env = one_store" by (simp add: play_env_def)
  have n: "ni_uid (dg_ids play_gate) = 0" by (simp add: play_gate_def no_ids_def)
  define q where "q = setPlayerUid 1 (player_default None no_player)"
  have q: "pl_teams q = []" "pl_cur_avatar q = None" "pl_avatars q = []" "pl_items q = []"
    by (simp_all add: q_def setPlayerUid_def player_default_def updateOpenstates_def)
  have P: "pe_states (le_players play_env) = None" "pe_raw (le_players play_env) = no_player"
    by (simp_all add: play_env_def)
  obtain g where new: "newPlayer one_store (le_players play_env) play_gate = Some (Inr (q, g))"
    unfolding newPlayer_def n Let_def P by (simp add: free q_def [symmetric] save q(1,2))
  have a: "pl_teams (setAccount x q) = []" "pl_cur_avatar (setAccount x q) = None" "pl_avatars (setAccount x q) = []"
    "pl_items (setAccount x q) = []" for x using q by (simp_all add: setAccount_def)
  show ?thesis unfolding account_player_def E no_players by (simp add: new all a)
qed

text \<open>The token request of that client is accepted.\<close>

lemma play_accepted:
  "\<exists>h m'. handleGetPlayerTokenReq play_env d (play_conn ks) play_gate m = Some (Inr (h, m'))
     \<and> ss_state (cn_session (hd_conn h)) = S_LOGIN_WAIT"
proof -
  obtain pl g where pl: "account_player play_env 7 (account_of_pb one_account) play_gate = Some (Inr (pl, [], g))"
    using play_player by blast
  have s: "ss_state (cn_session (play_conn ks)) = S_TOKEN_WAIT" by (simp add: play_conn_def sample_session_def)
  have E: "le_token_req play_env d = Some (decimal 7, lit ''ab'')" "le_store play_env = one_store"
    "le_token_rsp play_env = (\<lambda>_. None)" by (simp_all add: play_env_def)
  obtain h m' where h: "answer_token play_env m (play_conn ks) (account_of_pb one_account) pl [] g = Inr (h, m')"
    by (cases "generateSessionKey (le_seed play_env) ((cn_session (play_conn ks))\<lparr>ss_player := True\<rparr>) m")
      (simp add: answer_token_def E Let_def)
  then show ?thesis
    using answer_token_conn [OF h] by (simp add: handleGetPlayerTokenReq_def s E play_token pl)
qed

section \<open>Getting into the game\<close>

text \<open>
  C20. A client gets into the game only through both steps of signing on. Whatever packets a new session
  handles, it waits for the token, waits for the login, is in the game or is closed; before the token step
  it has neither an account nor a player. Once it waits for the login, some token request this client sent
  named the session's account: the database, as it was when that request was handled, had this account under the
  id in the request, its combo token is not empty, and the token sent begins with it; the player's account
  id is that of this account. Once it is in the game, some login request of the client carried a token
  that begins with the account's token as well.
\<close>

theorem sessions_admitted:
  assumes "client_reach E M X (c0, g0, m0) ps (c, g, m)"
    "ss_state (cn_session c0) = S_TOKEN_WAIT" "cn_player c0 = None" "cn_account c0 = None"
  shows "ss_state (cn_session c) \<in> {S_NOT_CONNECTED, S_TOKEN_WAIT, S_LOGIN_WAIT, S_ACTIVE}
    \<and> (ss_state (cn_session c) \<le> S_TOKEN_WAIT \<longrightarrow> cn_player c = None \<and> cn_account c = None)
    \<and> (S_LOGIN_WAIT \<le> ss_state (cn_session c) \<longrightarrow> signed_on E (handled_on E M X (c0, g0, m0) ps) c)
    \<and> (ss_state (cn_session c) = S_ACTIVE \<longrightarrow> admitted E (handled_on E M X (c0, g0, m0) ps) c)"
  using client_reach_ok [OF assms] by (simp_all add: client_ok_def Let_def)

theorem sessions_admitted_witness:
  "\<forall>M X ks m. \<exists>c g m'. client_reach play_env M X (play_conn ks, play_gate, m) [new_packet GetPlayerTokenReq] (c, g, m')
     \<and> ss_state (cn_session c) = S_LOGIN_WAIT \<and> (\<exists>a pl. cn_account c = Some a \<and> cn_player c = Some pl \<and> pl_aid pl = Some (ac_aid a))"
proof (intro allI)
  fix M X ks m
  let ?p = "new_packet GetPlayerTokenReq"
  obtain h m' where h: "handleGetPlayerTokenReq play_env (pk_data ?p) (play_conn ks) play_gate m = Some (Inr (h, m'))"
    "ss_state (cn_session (hd_conn h)) = S_LOGIN_WAIT" using play_accepted by blast
  have "process_client play_env M X ?p (play_conn ks, play_gate, m) = Some (Inr (hd_ret h, (hd_conn h, hd_gate h, m')))"
    using h(1) by (simp add: process_client_def new_packet_def PingReq_def GetPlayerTokenReq_def)
  then have r: "client_reach play_env M X (play_conn ks, play_gate, m) [?p] (hd_conn h, hd_gate h, m')"
    by (simp add: client_reach_run play_conn_def sample_session_def session_states)
  have "signed_on play_env (handled_on play_env M X (play_conn ks, play_gate, m) [?p]) (hd_conn h)"
    using sessions_admitted [OF r] h(2) by (simp add: play_conn_def sample_session_def)
  then have "\<exists>a pl. cn_account (hd_conn h) = Some a \<and> cn_player (hd_conn h) = Some pl \<and> pl_aid pl = Some (ac_aid a)"
    unfolding signed_on_def by blast
  with r h(2) show "\<exists>c g m'. client_reach play_env M X (play_conn ks, play_gate, m) [new_packet GetPlayerTokenReq] (c, g, m')
     \<and> ss_state (cn_session c) = S_LOGIN_WAIT \<and> (\<exists>a pl. cn_account c = Some a \<and> cn_player c = Some pl \<and> pl_aid pl = Some (ac_aid a))" by blast
qed

text \<open>
  A returning player: while a session table has an entry without a session before the one of that player, or
  has no session of that player and such an entry at all, the token request of that player's account ends in a
  null read. (\<open>GameserverMain\<close> makes a table of one entry, which the asking session holds itself.)
\<close>

theorem returning_player_null_read:
  assumes "ss_state (cn_session c) = S_TOKEN_WAIT" "le_token_req E data = Some (aid_str, tok)"
    "token_account (le_store E) aid_str tok g = Inr (aid, a)"
    "getPlayerByAid (le_store E) (le_players E) aid g = Inr (Some pl)"
    "le_sessions E = Some (xs @ None # ys)"
    "\<forall>s\<in>set xs. \<exists>c. s = Some c \<and> (\<forall>q. cn_player c = Some q \<longrightarrow> pl_uid q \<noteq> pl_uid pl)"
  shows "handleGetPlayerTokenReq E data c g m = Some (Inl Null_pointer)"
proof -
  have "session_by_uid (pl_uid pl) (xs @ None # ys) = Inl Null_pointer"
    using assms(6) by (induction xs) (auto split: option.split)
  then show ?thesis
    using assms(1-5) by (simp add: handleGetPlayerTokenReq_def account_player_def getSessionByUid_def)
qed

text \<open>The player after the first login, and what the login sends for it.\<close>

definition logged_in :: "'d login_env \<Rightarrow> login_memory \<Rightarrow> player \<Rightarrow> player" where
  "logged_in E M pl = snd (updateOpenstates (pe_states (le_players E)) 1 (with_starter (le_avatars E) M pl))"

definition login_notices ::
  "avatar_env \<Rightarrow> avatar_ent \<Rightarrow> login_memory \<Rightarrow> u64 \<Rightarrow> u64 \<Rightarrow> player \<Rightarrow> (header_seq \<times> notification) list" where
  "login_notices env d M now g q =
     [(Next_seq, Avatar_data \<lparr>an_avatars = [starter_pb env d g],
         an_teams = [(1, \<lparr>pt_guids = [g], pt_name = team_name_text\<rparr>)], an_cur_team = 1, an_chosen = g,
         an_flycloaks = [140001]\<rparr>),
      (Seq 2, Player_data (player_notice now q)),
      (Seq 2, Player_store \<lparr>sn_type = STORE_PACK, sn_items = [\<lparr>pi_id = 14502, pi_guid = g OR 0x1000000,
         pi_detail = Equip True (Weapon \<lparr>pw_level = 90, pw_exp = 700000, pw_promote = 6, pw_affixes = [(1145024, 5)]\<rparr>)\<rparr>],
         sn_weight = 5000\<rparr>),
      (No_header, Store_limits limits_notice),
      (No_header, Enter_scene (scene_notice now (lm_pos M) q))]"

lemma logged_in_fields:
  "\<exists>l. logged_in E M pl = (with_starter (le_avatars E) M pl)\<lparr>pl_openstates := l\<rparr>"
  unfolding logged_in_def using update_states_fields by blast

lemma with_starter_fields [simp]:
  "pl_avatars (with_starter env M pl) = [(lm_avatar M, starter_avatar env M (starter_guid pl))]"
  "pl_items (with_starter env M pl) = [(lm_item M, starter_weapon (starter_guid pl) (lm_raw_item M))]"
  "pl_cur_avatar (with_starter env M pl) = Some (lm_avatar M)" "pl_session (with_starter env M pl) = pl_session pl"
  "pl_uid (with_starter env M pl) = pl_uid pl" "pl_tp (with_starter env M pl) = pl_tp pl"
  by (simp_all add: with_starter_def)

lemma logged_in_avatar: "getCurAvatar (logged_in E M pl) = Inr (Some (lm_avatar M))"
  using logged_in_fields [of E M pl]
  by (auto simp: getCurAvatar_def avatar_guid_def avatars_at_def starter_avatar_guid getAvatarByGuid_def find_node_def)

lemma onLogin_new:
  assumes "cn_player c = Some pl" "just_loaded pl" "ss_kcp (cn_session c) \<noteq> None" "roomy E (lm_write M)"
    and "avatar_by_id (ae_avatars (le_avatars E)) 10000029 = Some d" "length (it_data (lm_raw_item M)) = 16"
  obtains told s where
    "onLogin E M c = Inr (told, c\<lparr>cn_session := setState S_ACTIVE s, cn_player := Some (logged_in E M pl)\<rparr>)"
    "pl_session pl = None \<longrightarrow> told = []" "ss_kcp s \<noteq> None"
    "send_notices E (lm_write M) (login_notices (le_avatars E) d M (le_ms E) (starter_guid pl) (logged_in E M pl))
       (cn_session c) = Inr s"
proof -
  define q where "q = logged_in E M pl"
  define g where "g = starter_guid pl"
  let ?q0 = "with_starter (le_avatars E) M pl"
  obtain l where l: "q = ?q0\<lparr>pl_openstates := l\<rparr>" using logged_in_fields unfolding q_def by blast
  have av: "pl_avatars ?q0 = [(lm_avatar M, starter_avatar (le_avatars E) M g)]"
    "pl_items ?q0 = [(lm_item M, starter_weapon g (lm_raw_item M))]" by (simp_all add: g_def)
  obtain told where told: "updateOpenstates (pe_states (le_players E)) 1 ?q0 = (told, q)"
    unfolding q_def logged_in_def by (metis prod.collapse)
  moreover have "told = [] \<or> listening q"
    using told by (auto simp: updateOpenstates_def Let_def split: option.splits if_splits)
  ultimately have silent: "pl_session pl = None \<longrightarrow> told = []" by (auto simp: listening_def l)
  obtain b where pa: "avatar_to_pb (bag_env (le_avatars E) ?q0) (starter_avatar (le_avatars E) M g)
      = Inr (starter_pb (le_avatars E) d g, (starter_avatar (le_avatars E) M g)\<lparr>av_set_equips := b\<rparr>)"
    using starter_sent [OF assms(5) av(2)] by blast
  note set = starter_set_new [OF assms(2,5), of M, folded g_def]
  have notice: "avatar_notice (le_avatars E) it (starter_avatar (le_avatars E) M g) (starter_team M) g ?q0
      = Inr \<lparr>an_avatars = [starter_pb (le_avatars E) d g], an_teams = [(1, \<lparr>pt_guids = [g], pt_name = team_name_text\<rparr>)],
          an_cur_team = 1, an_chosen = g, an_flycloaks = [140001]\<rparr>" for it
    by (simp add: avatar_notice_def pa starter_team_sent [OF av(1)])
  obtain ks where k: "ss_kcp (cn_session c) = Some ks" using assms(3) by auto
  obtain s where s: "send_notices E (lm_write M) (login_notices (le_avatars E) d M (le_ms E) g q) (cn_session c) = Inr s"
    "ss_kcp s \<noteq> None"
    using send_notices_room [OF assms(4,3), of "login_notices (le_avatars E) d M (le_ms E) g q"] by auto
  have on: "onLogin E M c = Inr (told, c\<lparr>cn_session := setState S_ACTIVE s, cn_player := Some q\<rparr>)"
    unfolding onLogin_def k assms(1) prod.case option.case set sum.case g_def [symmetric] notice Let_def told
      starter_weapon_sent(1) [OF assms(6)] s(1) [unfolded login_notices_def] map_sum.simps by (rule refl)
  show ?thesis by (rule that [OF on [unfolded q_def] silent s(2) s(1) [unfolded q_def g_def]])
qed

text \<open>
  C29. The first thing an accepted login does. For a player as both constructors leave it, with the avatar
  table loaded and room for the messages, \<open>onLogin\<close> does not fail: the player has the starter weapon,
  avatar and team and is playing the avatar, the session is in the game, and the notices are sent in the order
  of the code, with the avatar wearing the weapon, the weapon at level 90 with its one affix, and the limits
  of the store. The player object has no session of its own unless one was stored, and then nobody is told of
  the open states.
\<close>

theorem first_login:
  assumes "cn_player c = Some pl" "just_loaded pl" "ss_kcp (cn_session c) \<noteq> None" "roomy E (lm_write M)"
    and "avatar_by_id (ae_avatars (le_avatars E)) 10000029 = Some d" "length (it_data (lm_raw_item M)) = 16"
  defines "q \<equiv> logged_in E M pl" and "g \<equiv> starter_guid pl"
  shows "\<exists>told s. onLogin E M c = Inr (told, c\<lparr>cn_session := setState S_ACTIVE s, cn_player := Some q\<rparr>)
    \<and> getCurAvatar q = Inr (Some (lm_avatar M)) \<and> (pl_session pl = None \<longrightarrow> told = [])
    \<and> send_notices E (lm_write M)
        [(Next_seq, Avatar_data \<lparr>an_avatars = [starter_pb (le_avatars E) d g],
            an_teams = [(1, \<lparr>pt_guids = [g], pt_name = team_name_text\<rparr>)], an_cur_team = 1, an_chosen = g,
            an_flycloaks = [140001]\<rparr>),
         (Seq 2, Player_data (player_notice (le_ms E) q)),
         (Seq 2, Player_store \<lparr>sn_type = STORE_PACK, sn_items = [\<lparr>pi_id = 14502, pi_guid = g OR 0x1000000,
            pi_detail = Equip True (Weapon \<lparr>pw_level = 90, pw_exp = 700000, pw_promote = 6, pw_affixes = [(1145024, 5)]\<rparr>)\<rparr>],
            sn_weight = 5000\<rparr>),
         (No_header, Store_limits limits_notice),
         (No_header, Enter_scene (scene_notice (le_ms E) (lm_pos M) q))] (cn_session c) = Inr s"
proof -
  obtain told s where *: "onLogin E M c = Inr (told, c\<lparr>cn_session := setState S_ACTIVE s, cn_player := Some q\<rparr>)"
    "pl_session pl = None \<longrightarrow> told = []"
    "send_notices E (lm_write M) (login_notices (le_avatars E) d M (le_ms E) g q) (cn_session c) = Inr s"
    unfolding q_def g_def using onLogin_new [OF assms(1-6)] by metis
  show ?thesis
    by (rule exI, rule exI, intro conjI)
      (rule *(1,2) *(3) [unfolded login_notices_def] logged_in_avatar [of E M pl, folded q_def])+
qed

text \<open>Memory for the objects of a first login, and a player as it is made for an account.\<close>

definition play_memory :: login_memory where
  "play_memory =
     \<lparr>lm_item = 1, lm_avatar = 2, lm_team = 3, lm_local = 4,
      lm_raw_item = \<lparr>it_id = 0, it_type = 0, it_guid = 0, it_data = replicate 16 0xff\<rparr>,
      lm_raw_avatar = \<lparr>av_id = 0, av_guid = 0, av_weapon = None, av_artifacts = [], av_set_equips = False,
        av_equip_guids = [], av_level = 0, av_exp = 0, av_ascension = 0, av_hp = 0, av_costume = 0, av_wings = 0,
        av_friendship = 0, av_friendship_exp = 0, av_talents = [], av_constellation = 0, av_born = 0, av_depot_id = 0,
        av_full = 0, av_full_cd = 0, av_energy = 0, av_data = None, av_depot = None\<rparr>,
      lm_pos = (0, 0, 0), lm_write = (\<lambda>_. Some [])\<rparr>"

definition play_loaded :: "kcp_session \<Rightarrow> connection" where
  "play_loaded ks = (play_conn ks)\<lparr>cn_player := Some (setPlayerUid 1000 (player_default None no_player))\<rparr>"

lemma play_loaded_fields:
  "cn_player (play_loaded ks) = Some (setPlayerUid 1000 (player_default None no_player))"
  "just_loaded (setPlayerUid 1000 (player_default None no_player))"
  "pl_session (setPlayerUid 1000 (player_default None no_player)) = None"
  "pl_tp (setPlayerUid 1000 (player_default None no_player)) = 0"
  "ss_kcp (cn_session (play_loaded ks)) \<noteq> None"
  by (simp_all add: play_loaded_def play_conn_def sample_session_def just_loaded_def setPlayerUid_def player_default_def
      updateOpenstates_def)

lemma play_env_fields:
  "roomy play_env (\<lambda>_. Some [])" "avatar_by_id (ae_avatars (le_avatars play_env)) 10000029 = Some \<lparr>ad_id = 10000029, ad_skill_depot = 2901\<rparr>"
  by (simp_all add: roomy_def play_env_def avatar_by_id_def)

lemma play_memory_fields:
  "roomy play_env (lm_write play_memory)" "length (it_data (lm_raw_item play_memory)) = 16"
  using play_env_fields(1) by (simp_all add: play_memory_def)

theorem first_login_witness:
  "\<forall>ks. \<exists>c. onLogin play_env play_memory (play_loaded ks) = Inr ([], c)
     \<and> ss_state (cn_session c) = S_ACTIVE \<and> cn_player c \<noteq> None"
proof
  fix ks
  show "\<exists>c. onLogin play_env play_memory (play_loaded ks) = Inr ([], c)
     \<and> ss_state (cn_session c) = S_ACTIVE \<and> cn_player c \<noteq> None"
  proof -
    from first_login [OF play_loaded_fields(1) [of ks] play_loaded_fields(2) play_loaded_fields(5) play_memory_fields(1) play_env_fields(2) play_memory_fields(2)]
    obtain told s where "onLogin play_env play_memory (play_loaded ks) = Inr (told, (play_loaded ks)\<lparr>
        cn_session := setState S_ACTIVE s,
        cn_player := Some (logged_in play_env play_memory (setPlayerUid 1000 (player_default None no_player)))\<rparr>)"
      "pl_session (setPlayerUid 1000 (player_default None no_player)) = None \<longrightarrow> told = []"
      by - ((erule exE)+, (erule conjE)+, rule that, assumption+)
    then show ?thesis using play_loaded_fields(3) by (simp add: setState_def)
  qed
qed

text \<open>The message about the team after the first login.\<close>

definition starter_scene_team :: "avatar_env \<Rightarrow> avatar_ent \<Rightarrow> player \<Rightarrow> pb_scene_team" where
  "starter_scene_team env d pl =
     \<lparr>st_avatar = starter_pb env d (starter_guid pl), st_scene_avatar = starter_info pl,
      st_entity_info = \<lparr>se_life = 1, se_entity = 0x1000001, se_type = PROT_ENTITY_AVATAR, se_avatar = starter_info pl\<rparr>,
      st_weapon_guid = starter_guid pl OR 0x1000000, st_weapon_entity = 0x6000001, st_entity = 0x1000001,
      st_uid = pl_uid pl, st_scene = 3\<rparr>"

lemma answer_room:
  assumes "roomy E (sc_write X)" "ss_kcp (cn_session c) \<noteq> None" "head = id \<or> head = own_header E 11"
  shows "\<exists>r ks. send_answer E X head a c = Inr (r, c\<lparr>cn_session := (cn_session c)\<lparr>ss_kcp := Some ks\<rparr>\<rparr>) \<and> (r = 0 \<or> r = -1)"
proof (rule send_answer_room [OF assms(1,2)])
  show "length (pk_header (head p)) \<le> 1000" if "pk_header p = []" for p
    using assms(3) built_packet(1) [OF assms(1) that] that by (auto simp: own_header_def)
  show "pk_data (head p) = pk_data p" for p
    using assms(3) by (auto simp: own_header_def buildHeader_def Let_def split: option.split)
qed

text \<open>The answers to a scene request with the right token, for a player whose current avatar is there.\<close>

lemma scene_init_sent:
  assumes "cn_player c = Some pl" "sc_init X data = Some (pl_tp pl)" "roomy E (sc_write X)" "ss_kcp (cn_session c) \<noteq> None"
    and "getCurAvatar pl = Inr (Some a)" "scene_team (le_avatars E) pl a = Inr (team, pl')"
  shows "\<exists>r d. handleSceneInitFinishReq E X data c = Inr (r, d) \<and> (r = 0 \<or> r = -1)
    \<and> send_answers E X [(id, Scene_info (scene_info pl)), (id, Scene_team team),
        (own_header E 11, Scene_init_rsp 0 (pl_tp pl))] c = Inr (r, d\<lparr>cn_player := Some pl\<rparr>)"
proof -
  obtain r1 k1 where 1: "send_answer E X id (Scene_info (scene_info pl)) c
      = Inr (r1, c\<lparr>cn_session := (cn_session c)\<lparr>ss_kcp := Some k1\<rparr>\<rparr>)" "r1 = 0 \<or> r1 = -1"
    using answer_room [OF assms(3,4), of id] by blast
  define c1 where "c1 = c\<lparr>cn_session := (cn_session c)\<lparr>ss_kcp := Some k1\<rparr>\<rparr>"
  have k: "ss_kcp (cn_session c1) \<noteq> None" by (simp add: c1_def)
  obtain r2 k2 where 2: "send_answer E X id (Scene_team team) c1
      = Inr (r2, c1\<lparr>cn_session := (cn_session c1)\<lparr>ss_kcp := Some k2\<rparr>\<rparr>)" "r2 = 0 \<or> r2 = -1"
    using answer_room [OF assms(3) k, of id] by blast
  define c2 where "c2 = c1\<lparr>cn_session := (cn_session c1)\<lparr>ss_kcp := Some k2\<rparr>\<rparr>"
  have k': "ss_kcp (cn_session c2) \<noteq> None" by (simp add: c2_def)
  obtain r3 k3 where 3: "send_answer E X (own_header E 11) (Scene_init_rsp 0 (pl_tp pl)) c2
      = Inr (r3, c2\<lparr>cn_session := (cn_session c2)\<lparr>ss_kcp := Some k3\<rparr>\<rparr>)" "r3 = 0 \<or> r3 = -1"
    using answer_room [OF assms(3) k', of "own_header E 11"] by blast
  define c3 where "c3 = c2\<lparr>cn_session := (cn_session c2)\<lparr>ss_kcp := Some k3\<rparr>\<rparr>"
  have keep: "d\<lparr>cn_player := Some pl\<rparr> = d" if "d = c1 \<or> d = c2 \<or> d = c3" for d
    using that assms(1) by (auto simp: c1_def c2_def c3_def)
  have p2: "send_answer E X id (Scene_team team) (c1\<lparr>cn_player := Some pl'\<rparr>) = Inr (r2, c2\<lparr>cn_player := Some pl'\<rparr>)"
    unfolding send_answer_player 2(1) c2_def by simp
  have p3: "send_answer E X (own_header E 11) (Scene_init_rsp 0 (pl_tp pl)) (c2\<lparr>cn_player := Some pl'\<rparr>)
      = Inr (r3, c3\<lparr>cn_player := Some pl'\<rparr>)"
    unfolding send_answer_player 3(1) c3_def by simp
  note facts = 1(1) [folded c1_def] 2(1) [folded c2_def] 3(1) [folded c3_def] p2 p3
  have h: "handleSceneInitFinishReq E X data c = (if r1 < 0 then Inr (-1, c1) else if r2 < 0 then Inr (-1, c2\<lparr>cn_player := Some pl'\<rparr>)
      else Inr (r3, c3\<lparr>cn_player := Some pl'\<rparr>))"
    by (simp add: handleSceneInitFinishReq_def assms(1,2,5,6) facts)
  show ?thesis
    using 1(2) 2(2) 3(2) by (auto simp: h facts keep)
qed

text \<open>
  C30. After the first login the client can enter the scene. The request with the player's token is answered
  by three messages in the order of the code, which end early only when one of them cannot be sent: the
  entities of the scene, the team with the starter avatar and its weapon at level 90, and the response. The
  handler does not fail. Among the equipment of the avatar stands the low half of the weapon's guid, where
  the weapon itself has the item 14502.
\<close>

theorem scene_after_login:
  assumes "cn_player c = Some pl" "just_loaded pl" "ss_kcp (cn_session c) \<noteq> None" "roomy E (lm_write M)"
    and "avatar_by_id (ae_avatars (le_avatars E)) 10000029 = Some d" "length (it_data (lm_raw_item M)) = 16"
    and "onLogin E M c = Inr (told, c')" "sc_init X data = Some (pl_tp pl)" "roomy E (sc_write X)"
  shows "\<exists>r c''. handleSceneInitFinishReq E X data c' = Inr (r, c'') \<and> (r = 0 \<or> r = -1)
    \<and> send_answers E X [(id, Scene_info (scene_info pl)), (id, Scene_team (starter_scene_team (le_avatars E) d pl)),
        (own_header E 11, Scene_init_rsp 0 (pl_tp pl))] c' = Inr (r, c''\<lparr>cn_player := cn_player c'\<rparr>)
    \<and> sa_equips (starter_info pl) = [0x1d0d0c0] \<and> sw_item (sa_weapon (starter_info pl)) = 14502"
proof -
  define q where "q = logged_in E M pl"
  obtain t s where on: "onLogin E M c = Inr (t, c\<lparr>cn_session := setState S_ACTIVE s, cn_player := Some q\<rparr>)" "ss_kcp s \<noteq> None"
    unfolding q_def by (rule onLogin_new [OF assms(1-6)])
  then have c': "cn_player c' = Some q" "ss_kcp (cn_session c') \<noteq> None"
    using assms(7) by (auto simp: setState_def)
  obtain l where l: "q = (with_starter (le_avatars E) M pl)\<lparr>pl_openstates := l\<rparr>"
    using logged_in_fields unfolding q_def by blast
  have same: "scene_info q = scene_info pl" "starter_info q = starter_info pl" "starter_guid q = starter_guid pl"
    "pl_uid q = pl_uid pl" "pl_tp q = pl_tp pl"
    by (simp_all add: l scene_info_def starter_info_def starter_guid_def)
  have "pl_items q = [(lm_item M, starter_weapon (starter_guid q) (lm_raw_item M))]"
    "pl_avatars q = [(lm_avatar M, starter_avatar (le_avatars E) M (starter_guid q))]"
    unfolding same by (simp_all add: l)
  from starter_scene [OF assms(5,6) this] obtain avs where
    team: "scene_team (le_avatars E) q (lm_avatar M) = Inr (starter_scene_team (le_avatars E) d pl, q\<lparr>pl_avatars := avs\<rparr>)"
    unfolding same starter_scene_team_def by blast
  have cur: "getCurAvatar q = Inr (Some (lm_avatar M))" unfolding q_def by (rule logged_in_avatar)
  show ?thesis
    using scene_init_sent [OF c'(1) _ assms(9) c'(2) cur team] assms(8)
    unfolding same c'(1) by (simp add: starter_info_def)
qed

definition play_scene :: scene_env where
  "play_scene = \<lparr>sc_head = (\<lambda>_. None), sc_ping = (\<lambda>_. True), sc_init = (\<lambda>_. Some 0), sc_write = (\<lambda>_. Some [])\<rparr>"

lemma play_scene_fields: "sc_init play_scene data = Some 0" "roomy play_env (sc_write play_scene)"
  using play_env_fields(1) by (simp_all add: play_scene_def)

theorem scene_after_login_witness:
  "\<forall>ks. \<exists>told c r c'. onLogin play_env play_memory (play_loaded ks) = Inr (told, c)
     \<and> handleSceneInitFinishReq play_env play_scene [] c = Inr (r, c')"
proof
  fix ks
  let ?pl = "setPlayerUid 1000 (player_default None no_player)"
  note loaded = play_loaded_fields(1) [of ks] play_loaded_fields(2) play_loaded_fields(5) [of ks] play_memory_fields(1)
    play_env_fields(2) play_memory_fields(2)
  obtain told s where on: "onLogin play_env play_memory (play_loaded ks)
      = Inr (told, (play_loaded ks)\<lparr>cn_session := setState S_ACTIVE s, cn_player := Some (logged_in play_env play_memory ?pl)\<rparr>)"
    by (rule onLogin_new [OF loaded])
  have "sc_init play_scene [] = Some (pl_tp ?pl)" by (simp add: play_scene_fields play_loaded_fields(4))
  from scene_after_login [OF loaded on this play_scene_fields(2)] on
  show "\<exists>told c r c'. onLogin play_env play_memory (play_loaded ks) = Inr (told, c)
     \<and> handleSceneInitFinishReq play_env play_scene [] c = Inr (r, c')" by blast
qed

section \<open>Entering the scene too early\<close>

text \<open>The player made for an account plays no avatar yet, and its token is 0.\<close>

lemma new_player_fields:
  assumes "account_player E aid a g = Some (Inr (pl, kicked, g'))"
    and "getPlayerByAid (le_store E) (le_players E) aid g = Inr None"
  shows "pl_cur_avatar pl = None \<and> pl_tp pl = 0"
proof -
  have new_states: "pl_cur_avatar (snd (updateOpenstates d n q)) = pl_cur_avatar q \<and> pl_tp (snd (updateOpenstates d n q)) = pl_tp q"
    for d n q using update_states_fields [of d n q] by auto
  have "pl_cur_avatar (setPlayerUid u (player_default d r)) = None \<and> pl_tp (setPlayerUid u (player_default d r)) = 0" for u d r
    using new_states by (simp add: setPlayerUid_def player_default_def)
  then show ?thesis
    using assms
    by (auto simp: account_player_def newPlayer_def Let_def setAccount_def map_sum_Inr split: option.splits sum.splits)
qed

text \<open>
  C31. A client that asks for the scene before it has logged in stops the server. After the token request of an
  account that has no player yet, the session waits for the login and its player plays no avatar. The
  handler of \<open>SceneInitFinishReq\<close> does not look at the state of the session: for the token 0, which the new
  player has, it sends the entities of the scene and then reads the avatar through a null pointer, unless
  the sending failed.
\<close>

theorem scene_before_login:
  assumes "handleGetPlayerTokenReq E data c g m = Some (Inr (h, m'))"
    "ss_state (cn_session c) = S_TOKEN_WAIT" "ss_state (cn_session (hd_conn h)) = S_LOGIN_WAIT"
    "le_token_req E data = Some (aid_str, tok)"
    "getPlayerByAid (le_store E) (le_players E) (ucast (fst (strtoul aid_str 0))) g = Inr None"
    "sc_init X req = Some 0"
  shows "\<exists>pl. cn_player (hd_conn h) = Some pl
    \<and> handleSceneInitFinishReq E X req (hd_conn h) =
        (case send_answer E X id (Scene_info (scene_info pl)) (hd_conn h) of
           Inl f \<Rightarrow> Inl f
         | Inr (r, c') \<Rightarrow> if r < 0 then Inr (-1, c') else Inl Null_pointer)"
proof -
  obtain aid a where t: "token_account (le_store E) aid_str tok g = Inr (aid, a)"
    using assms(1-4)
    by (cases "token_account (le_store E) aid_str tok g")
      (auto simp: handleGetPlayerTokenReq_def close_with_def Let_def session_close_def session_states split: prod.splits)
  obtain pl kicked g' where ap: "account_player E aid a g = Some (Inr (pl, kicked, g'))"
      "answer_token E m c a pl kicked g' = Inr (h, m')"
    using assms(1,2,4) t by (auto simp: handleGetPlayerTokenReq_def split: option.splits sum.splits)
  have "pl_cur_avatar pl = None" "pl_tp pl = 0"
    using new_player_fields [OF ap(1)] assms(5) token_account_shown(1) [OF t] by simp_all
  moreover have "cn_player (hd_conn h) = Some pl" using answer_token_conn [OF ap(2)] by simp
  ultimately show ?thesis
    using assms(6)
    by (simp add: handleSceneInitFinishReq_def getCurAvatar_def avatar_guid_def split: sum.split)
qed

lemma play_sent:
  assumes "ss_kcp (cn_session c) = Some ks" "kcp_session_new (\<lambda>_. True) True 7 True True 100 = Inr ks"
  shows "\<exists>c'. send_answer play_env play_scene id (Scene_info i) c = Inr (0, c')"
proof -
  define p where "p = setPacketData [] (new_packet (answer_opcode (Scene_info i)))"
  define b where "b = crypt (send_key None p (cn_session c)) (frame p)"
  have l: "length b = 12" by (simp add: b_def p_def length_crypt length_frame setPacketData_def new_packet_def)
  have k: "unat (mss (ks_kcp ks)) = 1372" "stream (ks_kcp ks) = 0"
    unfolding kcp_session_new_eq [OF assms(2)] by (simp_all add: fresh_kcp_def ikcp_create_def ikcp_consts)
  have f: "frag_count (unat (mss (ks_kcp ks))) (length b) < 128" by (simp add: frag_count_def k l)
  obtain k' where "ikcp_send (\<lambda>_. Some blank_seg) (ks_kcp ks) (Some b) (int (length b)) = (0, k')"
    by (rule ikcp_send_ok [where mal = "\<lambda>_. Some blank_seg" and junk = "\<lambda>_. blank_seg" and k = "ks_kcp ks" and b = b])
      (use k l f in auto)
  then have "ks_send (\<lambda>_. Some blank_seg) (Some b) ks = (0, ks\<lparr>ks_kcp := k'\<rparr>)" by (simp add: ks_send_def)
  moreover have "length (frame p) \<le> 4096"
    by (simp add: length_frame p_def setPacketData_def new_packet_def)
  ultimately have "\<exists>s. sendPacket (\<lambda>_. Some blank_seg) None (replicate 4096 0) p (cn_session c) = Inr (0, s)"
    by (subst sendPacket_eq) (simp_all add: assms(1) b_def)
  then show ?thesis
    by (auto simp: send_answer_def send_packet_def play_scene_def play_env_def p_def)
qed

lemma play_accepted_kcp:
  assumes "handleGetPlayerTokenReq play_env d (play_conn ks) play_gate m = Some (Inr (h, m'))"
  shows "ss_kcp (cn_session (hd_conn h)) = Some ks"
proof -
  obtain pl g where pl: "account_player play_env 7 (account_of_pb one_account) play_gate = Some (Inr (pl, [], g))"
    using play_player by blast
  have s: "ss_state (cn_session (play_conn ks)) = S_TOKEN_WAIT" "ss_kcp (cn_session (play_conn ks)) = Some ks"
    by (simp_all add: play_conn_def sample_session_def)
  have E: "le_token_req play_env d = Some (decimal 7, lit ''ab'')" "le_store play_env = one_store"
    "le_token_rsp play_env = (\<lambda>_. None)" by (simp_all add: play_env_def)
  have "answer_token play_env m (play_conn ks) (account_of_pb one_account) pl [] g = Inr (h, m')"
    using assms by (simp add: handleGetPlayerTokenReq_def s E play_token pl)
  moreover obtain q m2 where "generateSessionKey (le_seed play_env) ((cn_session (play_conn ks))\<lparr>ss_player := True\<rparr>) m = (q, m2)"
    by (metis surj_pair)
  moreover from this have "ss_kcp q = Some ks"
    using s(2) by (auto simp: generateSessionKey_def Let_def split: prod.splits)
  ultimately show ?thesis
    by (auto simp: answer_token_def E Let_def setState_def setUseSecretKey_def)
qed

theorem scene_before_login_witness:
  "\<forall>m. \<exists>c h m'. handleGetPlayerTokenReq play_env [] c play_gate m = Some (Inr (h, m'))
     \<and> ss_state (cn_session (hd_conn h)) = S_LOGIN_WAIT
     \<and> handleSceneInitFinishReq play_env play_scene [] (hd_conn h) = Inl Null_pointer"
proof
  fix m
  obtain ks where ks: "kcp_session_new (\<lambda>_. True) True 7 True True 100 = Inr ks" using sample_ks by blast
  obtain h m' where h: "handleGetPlayerTokenReq play_env [] (play_conn ks) play_gate m = Some (Inr (h, m'))"
    "ss_state (cn_session (hd_conn h)) = S_LOGIN_WAIT" using play_accepted by blast
  have wait: "ss_state (cn_session (play_conn ks)) = S_TOKEN_WAIT" by (simp add: play_conn_def sample_session_def)
  have req: "le_token_req play_env [] = Some (decimal 7, lit ''ab'')" by (simp add: play_env_def)
  have none: "getPlayerByAid (le_store play_env) (le_players play_env) (ucast (fst (strtoul (decimal 7) 0))) play_gate = Inr None"
    using no_players by (simp add: play_env_def)
  from scene_before_login [OF h(1) wait h(2) req none play_scene_fields(1)]
  obtain pl where pl: "handleSceneInitFinishReq play_env play_scene [] (hd_conn h) =
        (case send_answer play_env play_scene id (Scene_info (scene_info pl)) (hd_conn h) of
           Inl f \<Rightarrow> Inl f
         | Inr (r, c') \<Rightarrow> if r < 0 then Inr (-1, c') else Inl Null_pointer)" by blast
  obtain c' where "send_answer play_env play_scene id (Scene_info (scene_info pl)) (hd_conn h) = Inr (0, c')"
    using play_sent [OF play_accepted_kcp [OF h(1)] ks] by blast
  with pl h show "\<exists>c h m'. handleGetPlayerTokenReq play_env [] c play_gate m = Some (Inr (h, m'))
     \<and> ss_state (cn_session (hd_conn h)) = S_LOGIN_WAIT
     \<and> handleSceneInitFinishReq play_env play_scene [] (hd_conn h) = Inl Null_pointer"
    by (intro exI [of _ "play_conn ks"] exI [of _ h] exI [of _ m'] conjI) simp_all
qed

end
