(* ===== verification/Spec2Isabelle.thy ===== *)
theory Spec2Isabelle
  imports Kcp_Properties Crypto_Properties Net_Properties Server_Properties Game_Properties Sign_On_Properties Web_Properties Answer_Properties Http_Properties Excel_Properties Config_Properties Play_Properties
begin

text \<open>
  Verification development for \<open>yagips\<close>, a game server written in C and C++. Paths below are those of the
  repository's \<open>src/\<close> and \<open>include/\<close>.

  \<^bold>\<open>The program.\<close> One process runs three services. The dispatch server (\<open>src/dispatch.cpp\<close>) speaks HTTP: it
  lets users sign on and tells clients which regions there are. The game server (\<open>src/gameserver.cpp\<close>)
  speaks UDP: it admits clients by a handshake and gives their datagrams to sessions, each a thread of its own
  (\<open>src/session.cpp\<close>) on top of KCP, a reliable stream over datagrams (\<open>src/kcp.c\<close>). A session takes packets from
  the stream (\<open>src/packet.cpp\<close>), deciphers them with a pad made from a seed (\<open>src/ec2b.cpp\<close>,
  \<open>src/mt19937-64.c\<close>) and gives them to handlers (\<open>src/packet_handlers.cpp\<close>, \<open>src/packets/\<close>). The handlers change
  the account and the player of the session (\<open>src/account.cpp\<close>, \<open>src/player.cpp\<close>, \<open>src/avatar.cpp\<close>,
  \<open>src/team.cpp\<close>, \<open>src/item.cpp\<close>), which are kept in a database of keys and values (\<open>src/dbgate.cpp\<close>). Tables
  of game data and the configuration are read when the program starts (\<open>src/data.cpp\<close>, \<open>src/runconfig.cpp\<close>),
  and a console takes commands (\<open>src/command.cpp\<close>).

  \<^bold>\<open>KCP.\<close> \<open>Kcp_Wire\<close> has the constants and field codecs of \<open>src/kcp.c\<close>, \<open>Kcp_State\<close> the structures and what the
  application calls (create, receive, peek, send, settings), \<open>Kcp_Input\<close> what happens to a datagram that
  arrives, \<open>Kcp_Flush\<close> the flush, the clock and \<open>ikcp_check\<close>. A control block is the record \<open>ikcpcb\<close> with the
  fields of \<open>struct IKCPCB\<close> at their widths, so that the arithmetic wraps where C's does; a queue is a list of
  segments; the output callback is the list of datagrams that a flush returns. The lemmas: \<open>Kcp_Invariant\<close>
  (every operation keeps the invariant, for all arguments and with the MTU lowered while data waits; its parameter \<open>l\<close>
  is the largest MTU since something has been waiting), \<open>Kcp_Parse\<close> (parsing reads no byte behind the datagram),
  \<open>Kcp_Datagram\<close> (the header as a codec), \<open>Kcp_Flush_Props\<close> (nothing is lost, everything fits \<open>l\<close>),
  \<open>Kcp_Sendbuf\<close>, \<open>Kcp_Reassembly\<close> (what is read is a prefix of what was sent), \<open>Kcp_Timing\<close>, \<open>Kcp_Link\<close> (two
  endpoints). The properties are in \<open>Kcp_Properties\<close>.

  \<^bold>\<open>Keys and codecs.\<close> \<open>Mt19937\<close> and \<open>Xoshiro\<close> are the two generators, both interpretations of the interface
  \<open>random_source\<close> of \<open>Random_Source\<close>; \<open>Mt_Accesses\<close> has the first once more with every array access checked.
  \<open>Ec2b_Tables\<close>, \<open>Ec2b_Cipher\<close> and \<open>Ec2b\<close> are \<open>src/ec2b.cpp\<close>: the tables, the layers of the scrambling cipher (each an interpretation of \<open>invertible_layer\<close>), and the class; \<open>Ec2b_Props\<close> says of which of three kinds an object is (empty, sound, garbled by an unknown method)
  after each constructor and setter. \<open>Text_Codec\<close> has
  the base 64 and hexadecimal codecs of \<open>src/util.cpp\<close>, \<open>Host_Memory\<close> what a cast of a byte pointer reads,
  \<open>C_String\<close> the functions on C strings. Properties: \<open>Crypto_Properties\<close>.

  \<^bold>\<open>Packets, sessions, game server.\<close> \<open>Packet\<close> is \<open>src/packet.cpp\<close>; \<open>Session\<close> is \<open>src/kcpsession.cpp\<close>,
  \<open>src/session.cpp\<close> and the key stream of \<open>src/crypt.cpp\<close>, with one iteration of \<open>SessionMain\<close> as a function and
  the loop over the list of the events that drive it; \<open>Gameserver\<close> is \<open>src/gameserver.cpp\<close> in the same style,
  with whether the thread array and the server object can be made as arguments of \<open>GameserverMain\<close>, and without the
  addresses of the datagrams. Properties: \<open>Net_Properties\<close> (a packet given to one side reaches the handler of the
  other; when and how the loop ends for a silent peer) and \<open>Server_Properties\<close> (which session of a whole table a
  datagram reaches, what a handshake does, that no datagram stops the server).

  \<^bold>\<open>Signing on.\<close> \<open>Account\<close> and \<open>Db_Gate\<close> are \<open>src/account.cpp\<close> and \<open>src/dbgate.cpp\<close>, \<open>Dispatch\<close> has the six
  handlers of the sign-on endpoints, \<open>Region_Query\<close> the two queries for regions, \<open>Command\<close> the console's commands. \<open>Db_Props\<close> states the laws of the
  libraries below and proves that the account layer is a map from ids to accounts; \<open>Sign_On\<close> composes the steps.
  \<open>Sign_On_Properties\<close> and \<open>Web_Properties\<close> say who gets through them; \<open>Client_Version\<close> puts the versions of
  clients in an order, in which the checks of versions are comparisons. \<open>Dispatch_Keys\<close> has the keys of \<open>src/keys.c\<close>,
  \<open>Rsa_Blocks\<close> the RSA functions of \<open>src/crypt.cpp\<close>, which split a message into blocks; \<open>Answer_Properties\<close> shows that the
  encrypted answer to a query is complete, and what these functions make of other sizes.

  \<^bold>\<open>HTTP.\<close> \<open>Http_Parser\<close> is the parser of \<open>src/http.c\<close> (picohttpparser, which the repository carries along), with
  a pointer as the rest of the buffer, so that reading behind the buffer is a value of its own; \<open>Http_Server\<close> is the
  loop of the dispatch server that reads a request with it, chooses the answer and sends it. \<open>Http_Parser_Props\<close>
  shows that every part of the parser stays inside the buffer and keeps its answer when more follows,
  \<open>Http_Request_Text\<close> what it makes of well-formed requests, \<open>Http_Cut\<close> what happens to a request that has not
  arrived completely. \<open>Http_Properties\<close>: requests that arrive in one piece are served as they were written; of those
  that do not, the first piece is refused or served with what an earlier request left in the buffer; and a bad byte
  in the method stops the server.

  \<^bold>\<open>The game.\<close> \<open>Enum_Tables\<close>, \<open>Item\<close>, \<open>Avatar\<close>, \<open>Team\<close>, \<open>Player\<close> and \<open>Player_State\<close> follow the files of these
  names. A pointer is an address in a store or null; an invalid iterator or a null pointer that is read is a value
  of \<open>cpp_fault\<close>. A player's avatars and items are two interpretations of the contract \<open>keyed_store\<close>
  (\<open>Player_Props\<close>), where \<open>player_reach F\<close> holds of what any calls make of a player when the guids in \<open>F\<close> are those
  callers brought with avatars and items. Properties: \<open>Game_Properties\<close>.

  \<^bold>\<open>Into the game.\<close> \<open>Login\<close> is \<open>src/packets/player_token.cpp\<close> and \<open>src/packets/player_login.cpp\<close>, with the search of the player's old
  session in the server's table, which reads through the entries without one; \<open>First_Login\<close> is
  \<open>Player::onLogin\<close>, \<open>Scene_Entry\<close> the handlers for pings, the blacklist and the scene. \<open>Client_Session\<close> joins them by
  \<open>processPacket\<close> into a step relation on connection, database and generator; \<open>Client_Trace\<close> proves what every
  connection that is reached satisfies. \<open>Play_Properties\<close>: nobody gets into the game without the token of the
  account; what the first login does; what the scene request answers, after the login and before it.

  \<^bold>\<open>Data and configuration.\<close> \<open>Excel_Data\<close> is \<open>src/data.cpp\<close> with the three tables of \<open>src/data/\<close>, \<open>Config_File\<close> is
  \<open>src/runconfig.cpp\<close> over the record of \<open>Region_Config\<close>. Properties: \<open>Excel_Properties\<close>, \<open>Config_Properties\<close>.

  \<^bold>\<open>Shared.\<close> \<open>Yagips_Prelude\<close> names the integer types, C's division and the contract \<open>fixed_codec\<close> of the byte codecs.
  \<open>Sample_Store\<close> has small libraries that satisfy the stated laws, for the witnesses.

  \<^bold>\<open>Effects.\<close> State is passed explicitly. The result of an operation that can fail in C++ itself is a sum whose left
  side is a \<open>cpp_fault\<close> (null pointer, dangling, out of bounds); the errors the code returns are values, as in
  the code. Memory the code reads before it has set it is an argument called \<open>raw\<close> or \<open>junk\<close>.

  \<^bold>\<open>Loops.\<close> Loops over lists and buffers are structural or have a measure, so they end; no fuel is used. The loops
  that wait for events run over the list of these events. Three loops that need not end are partial functions
  to \<open>option\<close>, where \<^term>\<open>None\<close> is not returning: the search for a free id, which is proved to return for
  accounts (\<open>account_creation\<close>), and the loop that sends a response, which ends exactly when the peer takes
  everything before an error (\<open>response_sending\<close>), and the loop over the blocks
  of RSA, which ends for every key of the documented kind (\<open>encryption_in_blocks\<close>).

  \<^bold>\<open>Arguments.\<close> Code outside the repository is an argument: LevelDB and the generated protobuf code (a record of
  functions, with the laws of \<open>Db_Props\<close> where a property needs them), json-c, OpenSSL, \<open>getrandom\<close>, the
  clock, sockets, \<open>malloc\<close>. The vendored parser \<open>src/toml.c\<close> is an argument too.

  \<^bold>\<open>Not modelled.\<close> \<open>src/yagips.cpp\<close> starts and joins threads and handles signals;
  \<open>src/vector.cpp\<close> copies floating-point numbers; \<open>gnulib/\<close> and \<open>src/toml.c\<close> are vendored;
  of \<open>src/http.c\<close> the variant for SSE 4.2 and the decoder of chunked bodies, which the program does not call;
  threads are modelled at their hand-over points only: the receive loop takes what the session threads made of
  the sessions before each iteration, a session's loop takes the datagrams pushed to it before each iteration. The
  code shares these objects between threads without a lock; what happens when both threads are inside one session at
  once, such as a shutdown message that closes a session in the middle of an iteration of its loop, is outside the model.
\<close>

end
